(* ===== verification/Hmdfs_Prelude.thy ===== *)
theory Hmdfs_Prelude
  imports Main "HOL-Library.Word" "HOL-Library.Monad_Syntax"
begin

text \<open>
  The prelude of the hmdfs development: the machine types of the kernel code,
  its error numbers, byte buffers with bounds-checked reads, little-endian
  fields, packed structure layouts, C strings, and the generic lemmas the
  component theories share.

  A buffer of the C code is a \<open>byte list\<close>; a read outside it is the value
  \<open>None\<close>, so that a theorem whose conclusion is \<open>Some r\<close> also states
  that no byte outside the buffer was read.
\<close>

unbundle bit_operations_syntax

named_theorems layout_simps \<open>sizes and field positions of the packed structures\<close>
named_theorems read_simps \<open>bounds-checked reads of buffers\<close>
named_theorems geometry_simps \<open>positions, levels and buckets of the dentry file\<close>
named_theorems verify_intros \<open>safety of the message checks\<close>

section \<open>Machine types and error numbers\<close>

type_synonym byte = "8 word"
type_synonym u16 = "16 word"
type_synonym u32 = "32 word"
type_synonym u64 = "64 word"

abbreviation (input) ENOENT :: int where "ENOENT \<equiv> 2"
abbreviation (input) EINTR :: int where "EINTR \<equiv> 4"
abbreviation (input) EIO :: int where "EIO \<equiv> 5"
abbreviation (input) ENXIO :: int where "ENXIO \<equiv> 6"
abbreviation (input) EBADF :: int where "EBADF \<equiv> 9"
abbreviation (input) EAGAIN :: int where "EAGAIN \<equiv> 11"
abbreviation (input) ENOMEM :: int where "ENOMEM \<equiv> 12"
abbreviation (input) EACCES :: int where "EACCES \<equiv> 13"
abbreviation (input) EFAULT :: int where "EFAULT \<equiv> 14"
abbreviation (input) EBUSY :: int where "EBUSY \<equiv> 16"
abbreviation (input) EEXIST :: int where "EEXIST \<equiv> 17"
abbreviation (input) EINVAL :: int where "EINVAL \<equiv> 22"
abbreviation (input) ENOSPC :: int where "ENOSPC \<equiv> 28"
abbreviation (input) ERANGE :: int where "ERANGE \<equiv> 34"
abbreviation (input) ENAMETOOLONG :: int where "ENAMETOOLONG \<equiv> 36"
abbreviation (input) ENOMSG :: int where "ENOMSG \<equiv> 42"
abbreviation (input) ENODATA :: int where "ENODATA \<equiv> 61"
abbreviation (input) ETIME :: int where "ETIME \<equiv> 62"
abbreviation (input) EBADMSG :: int where "EBADMSG \<equiv> 74"
abbreviation (input) ESTALE :: int where "ESTALE \<equiv> 116"
abbreviation (input) EOPNOTSUPP :: int where "EOPNOTSUPP \<equiv> 95"
abbreviation (input) ESHUTDOWN :: int where "ESHUTDOWN \<equiv> 108"
abbreviation (input) ETIMEDOUT :: int where "ETIMEDOUT \<equiv> 110"
abbreviation (input) EUCLEAN :: int where "EUCLEAN \<equiv> 117"

text \<open>Limits of the kernel headers the sources use.\<close>

abbreviation (input) PATH_MAX :: nat where "PATH_MAX \<equiv> 4096"
abbreviation (input) NAME_MAX :: nat where "NAME_MAX \<equiv> 255"
abbreviation (input) XATTR_NAME_MAX :: nat where "XATTR_NAME_MAX \<equiv> 255"
abbreviation (input) XATTR_SIZE_MAX :: nat where "XATTR_SIZE_MAX \<equiv> 65536"
abbreviation (input) XATTR_LIST_MAX :: nat where "XATTR_LIST_MAX \<equiv> 65536"
abbreviation (input) PAGE_SIZE :: nat where "PAGE_SIZE \<equiv> 4096"

section \<open>Bounds-checked reads and little-endian values\<close>

definition rd8 :: "byte list \<Rightarrow> nat \<Rightarrow> byte option" where
  "rd8 m i = (if i < length m then Some (m ! i) else None)"

fun le_val :: "byte list \<Rightarrow> nat" where
  "le_val [] = 0"
| "le_val (b # bs) = unat b + 256 * le_val bs"

fun le_bytes :: "nat \<Rightarrow> nat \<Rightarrow> byte list" where
  "le_bytes 0 v = []"
| "le_bytes (Suc n) v = of_nat (v mod 256) # le_bytes n (v div 256)"

definition rd_le :: "byte list \<Rightarrow> nat \<Rightarrow> nat \<Rightarrow> nat option" where
  "rd_le m off n = (if off + n \<le> length m then Some (le_val (take n (drop off m))) else None)"

lemma length_le_bytes [simp]: "length (le_bytes n v) = n"
  by (induction n v rule: le_bytes.induct) auto

lemma unat_of_nat_mod_256 [simp]: "unat (of_nat (v mod 256) :: byte) = v mod 256"
  by (simp add: unat_of_nat)

lemma le_val_le_bytes: "v < 256 ^ n \<Longrightarrow> le_val (le_bytes n v) = v"
proof (induction n v rule: le_bytes.induct)
  case (2 n v)
  from "2.prems" have "v div 256 < 256 ^ n"
    by (simp add: less_mult_imp_div_less mult.commute)
  with "2.IH" show ?case by simp
qed simp

lemma unat_byte_lt [simp]: "unat (b :: byte) < 256"
  using unsigned_less [of b] by simp

lemma le_val_lt: "le_val bs < 256 ^ length bs"
proof (induction bs)
  case (Cons b bs)
  have "unat b + 256 * le_val bs < 256 + 256 * le_val bs" by simp
  also have "\<dots> = 256 * Suc (le_val bs)" by simp
  also from Cons have "\<dots> \<le> 256 * 256 ^ length bs" by (simp only: Suc_leI mult_le_mono2)
  finally show ?case by simp
qed simp

lemma le_bytes_le_val: "le_bytes (length bs) (le_val bs) = bs"
proof (induction bs)
  case (Cons b bs)
  have b: "unat b < 256" by simp
  then have "(unat b + 256 * le_val bs) mod 256 = unat b"
    and "(unat b + 256 * le_val bs) div 256 = le_val bs" by auto
  with Cons show ?case by simp
qed simp

lemma rd8_Some [read_simps]: "i < length m \<Longrightarrow> rd8 m i = Some (m ! i)"
  by (simp add: rd8_def)

lemma rd_le_Some [read_simps]:
  "off + n \<le> length m \<Longrightarrow> rd_le m off n = Some (le_val (take n (drop off m)))"
  by (simp add: rd_le_def)

lemma rd_le_None: "length m < off + n \<Longrightarrow> rd_le m off n = None"
  by (simp add: rd_le_def)

lemma rd_le_bound: "rd_le m off n = Some v \<Longrightarrow> v < 256 ^ n \<and> off + n \<le> length m"
  using le_val_lt [of "take n (drop off m)"] by (auto simp: rd_le_def split: if_splits)

section \<open>Packed structure layouts\<close>

text \<open>
  A packed structure of the wire or of the dentry file is the list of its
  fields with their sizes in bytes, in declaration order.
\<close>

type_synonym layout = "(string \<times> nat) list"

fun sizeof :: "layout \<Rightarrow> nat" where
  "sizeof [] = 0"
| "sizeof ((f, n) # L) = n + sizeof L"

fun field_at :: "layout \<Rightarrow> string \<Rightarrow> (nat \<times> nat) option" where
  "field_at [] f = None"
| "field_at ((g, n) # L) f =
     (if f = g then Some (0, n)
      else map_option (\<lambda>(off, k). (off + n, k)) (field_at L f))"

definition fld :: "layout \<Rightarrow> string \<Rightarrow> byte list \<Rightarrow> nat option" where
  "fld L f m = (case field_at L f of None \<Rightarrow> None | Some (off, n) \<Rightarrow> rd_le m off n)"

lemma field_at_within: "field_at L f = Some (off, n) \<Longrightarrow> off + n \<le> sizeof L"
proof (induction L arbitrary: off)
  case (Cons x L)
  obtain g k where x: "x = (g, k)" by (cases x)
  show ?case
  proof (cases "f = g")
    case True
    with Cons.prems x show ?thesis by simp
  next
    case False
    with Cons.prems x obtain off' where "field_at L f = Some (off', n)" "off = off' + k" by auto
    with Cons.IH [of off'] x show ?thesis by simp
  qed
qed simp

lemma field_at_exists: "f \<in> fst ` set L \<Longrightarrow> \<exists>off n. field_at L f = Some (off, n)"
proof (induction L)
  case (Cons x L)
  show ?case
  proof (cases "f = fst x")
    case True
    then show ?thesis by (cases x) auto
  next
    case False
    with Cons obtain off n where "field_at L f = Some (off, n)" by auto
    with False show ?thesis by (cases x) auto
  qed
qed simp

lemma fld_total:
  assumes "f \<in> fst ` set L" and "sizeof L \<le> length m"
  shows "\<exists>v. fld L f m = Some v"
proof -
  obtain off n where at: "field_at L f = Some (off, n)"
    using field_at_exists [OF assms(1)] by auto
  from field_at_within [OF this] assms(2) have "off + n \<le> length m" by simp
  with at show ?thesis by (simp add: fld_def rd_le_Some)
qed

lemma fld_within:
  "fld L f m = Some v \<Longrightarrow> \<exists>off n. field_at L f = Some (off, n) \<and> off + n \<le> length m"
  by (auto simp: fld_def dest: rd_le_bound split: option.splits)

section \<open>Writing packed structures\<close>

text \<open>
  A structure from \<open>kzalloc\<close> with some of its fields assigned; a value is cut to
  the width of its field, as the conversion to a little-endian field does.
\<close>

fun struct_bytes :: "layout \<Rightarrow> (string \<times> nat) list \<Rightarrow> byte list" where
  "struct_bytes [] vals = []"
| "struct_bytes ((f, n) # L) vals =
     le_bytes n (case map_of vals f of None \<Rightarrow> 0 | Some v \<Rightarrow> v) @ struct_bytes L vals"

lemma length_struct_bytes [simp]: "length (struct_bytes L vals) = sizeof L"
  by (induction L vals rule: struct_bytes.induct) simp_all

lemma le_val_le_bytes_mod: "le_val (le_bytes n v) = v mod 256 ^ n"
proof (induction n arbitrary: v)
  case (Suc n)
  have "v mod 256 ^ Suc n = 256 * (v div 256 mod 256 ^ n) + v mod 256"
    by (simp add: mod_mult2_eq)
  with Suc show ?case by simp
qed simp

lemma fld_struct:
  assumes "field_at L f = Some (off, n)"
  shows "fld L f (struct_bytes L vals @ rest) = Some ((case map_of vals f of None \<Rightarrow> 0 | Some v \<Rightarrow> v) mod 256 ^ n)"
proof -
  have "off + n \<le> length (struct_bytes M vals) \<and>
      le_val (take n (drop off (struct_bytes M vals))) = (case map_of vals f of None \<Rightarrow> 0 | Some v \<Rightarrow> v) mod 256 ^ n"
    if "field_at M f = Some (off, n)" for M
    using that
  proof (induction M arbitrary: off)
    case (Cons x M)
    obtain g k where x: "x = (g, k)" by (cases x)
    show ?case
    proof (cases "f = g")
      case True
      then show ?thesis using Cons.prems x by (simp add: le_val_le_bytes_mod)
    next
      case False
      then obtain o' where o': "field_at M f = Some (o', n)" "off = o' + k" using Cons.prems x by auto
      with Cons.IH [OF o'(1)] x show ?thesis by simp
    qed
  qed simp
  from this [OF assms] show ?thesis
    using assms by (simp add: fld_def rd_le_def)
qed

lemma fld_struct_set:
  assumes "field_at L f = Some (off, n)" and "map_of vals f = Some v" and "v < 256 ^ n"
  shows "fld L f (struct_bytes L vals @ rest) = Some v"
  using fld_struct [OF assms(1)] assms(2,3) by simp

section \<open>C strings in buffers\<close>

text \<open>\<open>strnlen\<close>: reads bytes up to the first NUL or up to the limit.\<close>

fun cstrnlen :: "byte list \<Rightarrow> nat \<Rightarrow> nat option" where
  "cstrnlen m 0 = Some 0"
| "cstrnlen [] (Suc n) = None"
| "cstrnlen (b # bs) (Suc n) = (if b = 0 then Some 0 else map_option Suc (cstrnlen bs n))"

lemma cstrnlen_terminated:
  "0 \<notin> set s \<Longrightarrow> length s < n \<Longrightarrow> cstrnlen (s @ 0 # rest) n = Some (length s)"
  by (induction s arbitrary: n) (auto simp: gr0_conv_Suc less_Suc_eq_0_disj Suc_less_eq2)

lemma cstrnlen_short:
  "cstrnlen m n = Some k \<Longrightarrow> k < n \<Longrightarrow> \<exists>s rest. m = s @ 0 # rest \<and> length s = k \<and> 0 \<notin> set s"
proof (induction m n arbitrary: k rule: cstrnlen.induct)
  case (3 b bs n)
  show ?case
  proof (cases "b = 0")
    case True
    with "3.prems" show ?thesis by auto
  next
    case False
    with "3.prems" obtain j where j: "cstrnlen bs n = Some j" "k = Suc j" by auto
    with "3.IH" [OF False, of j] "3.prems" obtain s rest
      where "bs = s @ 0 # rest" "length s = j" "0 \<notin> set s" by auto
    with j False show ?thesis by (intro exI [of _ "b # s"] exI [of _ rest]) auto
  qed
qed auto

lemma cstrnlen_total: "0 \<in> set m \<Longrightarrow> \<exists>k. cstrnlen m n = Some k"
  by (induction m n rule: cstrnlen.induct) auto

lemma cstrnlen_le: "cstrnlen m n = Some k \<Longrightarrow> k \<le> n"
  by (induction m n arbitrary: k rule: cstrnlen.induct) (auto split: if_splits)

section \<open>Files as byte lists\<close>

text \<open>\<open>kernel_write\<close> at an offset; a gap before it reads as zeros.\<close>

definition write_at :: "byte list \<Rightarrow> nat \<Rightarrow> byte list \<Rightarrow> byte list" where
  "write_at file off bs =
     (if bs = [] then file
      else take off (file @ replicate (off - length file) 0) @ bs @ drop (off + length bs) file)"

lemma length_write_at: "bs \<noteq> [] \<Longrightarrow> length (write_at file off bs) = max (length file) (off + length bs)"
  by (auto simp: write_at_def max_def min_def)

lemma nth_write_at:
  assumes "bs \<noteq> []" "i < max (length file) (off + length bs)"
  shows "write_at file off bs ! i =
    (if off \<le> i \<and> i < off + length bs then bs ! (i - off) else if i < length file then file ! i else 0)"
proof -
  obtain pre where p: "pre = take off (file @ replicate (off - length file) 0)" by simp
  have pre: "length pre = off" "\<And>i. i < off \<Longrightarrow> pre ! i = (if i < length file then file ! i else 0)"
    by (auto simp: p nth_append)
  have w: "write_at file off bs = pre @ bs @ drop (off + length bs) file" using assms(1) by (simp add: write_at_def p)
  consider "i < off" | "off \<le> i" "i < off + length bs" | "off + length bs \<le> i" by linarith
  then show ?thesis
    by cases (use assms(2) pre in \<open>auto simp: w nth_append\<close>)
qed

text \<open>The byte at a position, zero past the end: a file as the readers of a sparse file see it.\<close>

definition byte_at :: "byte list \<Rightarrow> nat \<Rightarrow> byte" where
  "byte_at file i = (if i < length file then file ! i else 0)"

lemma byte_at_write_at:
  "byte_at (write_at file off bs) i =
     (if off \<le> i \<and> i < off + length bs then bs ! (i - off) else byte_at file i)"
proof (cases "bs = []")
  case False
  then show ?thesis
    using length_write_at [OF False, of "file" "off"] nth_write_at [OF False, of i "file" "off"]
    by (auto simp: byte_at_def)
qed (auto simp: write_at_def)

lemma byte_at_take_drop:
  "i < length (take n (drop off file)) \<Longrightarrow> take n (drop off file) ! i = byte_at file (off + i)"
  by (auto simp: byte_at_def)

section \<open>Constants and times the components share\<close>

abbreviation (input) HMDFS_CID_SIZE :: nat where "HMDFS_CID_SIZE \<equiv> 64"

text \<open>\<open>time_after a b\<close>: \<open>b - a\<close> is negative as a signed number.\<close>

definition time_after :: "u64 \<Rightarrow> u64 \<Rightarrow> bool" where
  "time_after a b \<longleftrightarrow> sint (b - a) < 0"

lemma time_after_iff:
  assumes "a < 2 ^ 62" "b < 2 ^ 62"
  shows "time_after (j + of_nat a) (j + of_nat b) \<longleftrightarrow> b < a"
proof -
  have "j + of_nat b - (j + of_nat a) = (of_int (int b - int a) :: u64)" by simp
  moreover have "sint (of_int (int b - int a) :: u64) = int b - int a"
    unfolding signed_of_int using assms by (subst signed_take_bit_int_eq_self) simp_all
  ultimately show ?thesis by (simp add: time_after_def)
qed

end
