(* ===== verification/Dentry_Hash.thy ===== *)
theory Dentry_Hash
  imports Hmdfs_Prelude
begin

text \<open>
  The name hash of the dentry cache (\<open>hmdfs_dentry_hash\<close> and its helpers in
  \<open>src/hmdfs/hmdfs_dentryfile.c\<close>): the TEA hash of f2fs, in the 32-bit
  arithmetic of the code. The kernel's \<open>tolower\<close> is a parameter.
\<close>

abbreviation (input) DELTA :: u32 where "DELTA \<equiv> 0x9E3779B9"
abbreviation dot :: byte where "dot \<equiv> 0x2E"

definition is_dot_dotdot :: "byte list \<Rightarrow> bool" where
  "is_dot_dotdot name =
     (length name \<noteq> 0 \<and> name ! 0 = dot \<and> (length name = 1 \<or> (length name = 2 \<and> name ! 1 = dot)))"

text \<open>The loop of \<open>str2hashbuf\<close> from index \<open>i\<close>: the value and the words written so far.\<close>

fun str2hashbuf_loop ::
  "(byte \<Rightarrow> byte) \<Rightarrow> u32 \<Rightarrow> bool \<Rightarrow> nat \<Rightarrow> byte list \<Rightarrow> u32 \<Rightarrow> u32 list \<Rightarrow> u32 \<times> u32 list"
where
  "str2hashbuf_loop lower pad case_sense i [] val out = (val, out)"
| "str2hashbuf_loop lower pad case_sense i (c # cs) val out =
     (let val1 = (if i mod 4 = 0 then pad else val);
          c1 = (if case_sense then c else lower c);
          val2 = ucast c1 + push_bit 8 val1
      in if i mod 4 = 3 then str2hashbuf_loop lower pad case_sense (Suc i) cs pad (out @ [val2])
         else str2hashbuf_loop lower pad case_sense (Suc i) cs val2 out)"

definition str2hashbuf :: "(byte \<Rightarrow> byte) \<Rightarrow> byte list \<Rightarrow> nat \<Rightarrow> bool \<Rightarrow> u32 list" where
  "str2hashbuf lower msg num case_sense =
     (let len = of_nat (length msg) :: u32;
          pad0 = len OR push_bit 8 len;
          pad = pad0 OR push_bit 16 pad0;
          (val, out) = str2hashbuf_loop lower pad case_sense 0 (take (num * 4) msg) pad []
      in case num - length out of
           0 \<Rightarrow> out
         | Suc k \<Rightarrow> out @ val # replicate k pad)"

fun tea_rounds :: "nat \<Rightarrow> u32 list \<Rightarrow> u32 \<Rightarrow> u32 \<Rightarrow> u32 \<Rightarrow> u32 \<times> u32" where
  "tea_rounds 0 inp s b0 b1 = (b0, b1)"
| "tea_rounds (Suc n) inp s b0 b1 =
     (let s1 = s + DELTA;
          b0' = b0 + ((push_bit 4 b1 + inp ! 0) XOR (b1 + s1) XOR (drop_bit 5 b1 + inp ! 1));
          b1' = b1 + ((push_bit 4 b0' + inp ! 2) XOR (b0' + s1) XOR (drop_bit 5 b0' + inp ! 3))
      in tea_rounds n inp s1 b0' b1')"

definition tea_transform :: "u32 \<times> u32 \<Rightarrow> u32 list \<Rightarrow> u32 \<times> u32" where
  "tea_transform buf inp =
     (let (b0, b1) = tea_rounds 16 inp 0 (fst buf) (snd buf) in (fst buf + b0, snd buf + b1))"

text \<open>The \<open>while (1)\<close> loop: sixteen bytes of the name per round, at least one round.\<close>

function dentry_hash_loop ::
  "(byte \<Rightarrow> byte) \<Rightarrow> bool \<Rightarrow> byte list \<Rightarrow> u32 \<times> u32 \<Rightarrow> u32 \<times> u32" where
  "dentry_hash_loop lower case_sense p buf =
     (let buf' = tea_transform buf (str2hashbuf lower p 4 case_sense)
      in if length p \<le> 16 then buf' else dentry_hash_loop lower case_sense (drop 16 p) buf')"
  by pat_completeness auto
termination by (relation "measure (\<lambda>(_, _, p, _). length p)") auto

declare dentry_hash_loop.simps [simp del]

definition hmdfs_dentry_hash :: "(byte \<Rightarrow> byte) \<Rightarrow> bool \<Rightarrow> byte list \<Rightarrow> u32" where
  "hmdfs_dentry_hash lower case_sense name =
     (if is_dot_dotdot name then 0
      else ucast (ucast (fst (dentry_hash_loop lower case_sense name (0x67452301, 0xefcdab89)))
                  AND NOT (push_bit 63 1) :: u64))"

section \<open>The buffer of one round\<close>

lemma str2hashbuf_loop_out:
  "length (snd (str2hashbuf_loop lower pad cs i xs val out)) =
   length out + ((i + length xs) div 4 - i div 4)"
proof (induction xs arbitrary: i val out)
  case (Cons c xs)
  have le: "Suc i div 4 \<le> (Suc i + length xs) div 4" by (rule div_le_mono) simp
  show ?case
  proof (cases "i mod 4 = 3")
    case True
    then have "Suc i div 4 = Suc (i div 4)" by presburger
    with True le Cons.IH [of "Suc i" pad] show ?thesis by (simp add: Let_def)
  next
    case False
    then have "Suc i div 4 = i div 4" by presburger
    with False Cons.IH [of "Suc i"] show ?thesis by (simp add: Let_def)
  qed
qed simp

text \<open>
  (bounds) \<open>str2hashbuf\<close> fills exactly the \<open>num\<close> words of its output
  buffer, for a name of any length: it neither writes past them nor leaves one
  unwritten.
\<close>

theorem str2hashbuf_length: "length (str2hashbuf lower msg num case_sense) = num"
proof -
  define len where "len = (of_nat (length msg) :: u32)"
  define pad where "pad = (len OR push_bit 8 len) OR push_bit 16 (len OR push_bit 8 len)"
  obtain val out where lp: "str2hashbuf_loop lower pad case_sense 0 (take (num * 4) msg) pad [] = (val, out)"
    by (cases "str2hashbuf_loop lower pad case_sense 0 (take (num * 4) msg) pad []")
  have "length out = min (length msg) (num * 4) div 4"
    using str2hashbuf_loop_out [of lower pad case_sense 0 "take (num * 4) msg" pad "[]"] lp by simp
  then have "length out \<le> num" by (auto simp: min_def)
  then show ?thesis
    using lp unfolding str2hashbuf_def len_def [symmetric] Let_def pad_def [symmetric]
    by (auto split: nat.split)
qed

section \<open>Case-insensitive names\<close>

lemma str2hashbuf_loop_lower:
  "map lower xs = map lower ys \<Longrightarrow>
   str2hashbuf_loop lower pad False i xs val out = str2hashbuf_loop lower pad False i ys val out"
proof (induction xs arbitrary: ys i val out)
  case (Cons c xs)
  then obtain d ys' where "ys = d # ys'" "lower c = lower d" "map lower xs = map lower ys'"
    by (cases ys) auto
  with Cons.IH [of ys'] show ?case by (simp add: Let_def)
qed simp

lemma str2hashbuf_lower:
  assumes "map lower a = map lower b"
  shows "str2hashbuf lower a num False = str2hashbuf lower b num False"
proof -
  have len: "length a = length b" using assms map_eq_imp_length_eq by blast
  have "map lower (take (num * 4) a) = map lower (take (num * 4) b)"
    by (metis assms take_map)
  then have "str2hashbuf_loop lower pad False 0 (take (num * 4) a) val out =
             str2hashbuf_loop lower pad False 0 (take (num * 4) b) val out" for pad val out
    by (rule str2hashbuf_loop_lower)
  then show ?thesis by (simp only: str2hashbuf_def len)
qed

lemma dentry_hash_loop_lower:
  "map lower a = map lower b \<Longrightarrow>
   dentry_hash_loop lower False a buf = dentry_hash_loop lower False b buf"
proof (induction lower "False" a buf arbitrary: b rule: dentry_hash_loop.induct)
  case (1 lower a buf)
  have len: "length a = length b" using "1.prems" map_eq_imp_length_eq by blast
  have s: "str2hashbuf lower a 4 False = str2hashbuf lower b 4 False"
    by (rule str2hashbuf_lower [OF "1.prems"])
  have "map lower (drop 16 a) = map lower (drop 16 b)"
    by (metis "1.prems" drop_map)
  then have IH: "\<not> length a \<le> 16 \<Longrightarrow>
      dentry_hash_loop lower False (drop 16 a) buf' = dentry_hash_loop lower False (drop 16 b) buf'"
    if "buf' = tea_transform buf (str2hashbuf lower a 4 False)" for buf'
    using "1.hyps" that by blast
  show ?case
    unfolding dentry_hash_loop.simps [of lower False a buf] dentry_hash_loop.simps [of lower False b buf]
    using IH s len by (simp add: Let_def)
qed

text \<open>
  In a case-insensitive file system two names that differ only in case have the
  same hash, so that the lookup of one meets the buckets of the other.
  \<open>lower\<close> stands for the kernel's \<open>tolower\<close>, of which this needs that it
  maps nothing but the dot to the dot.
\<close>

lemma dentry_hash_lower:
  assumes lower_dot: "\<And>c. lower c = dot \<longleftrightarrow> c = dot" and eq: "map lower a = map lower b"
  shows "hmdfs_dentry_hash lower False a = hmdfs_dentry_hash lower False b"
proof -
  have len: "length a = length b" using eq map_eq_imp_length_eq by blast
  have "a ! i = dot \<longleftrightarrow> b ! i = dot" if "i < length a" for i
    using that len eq lower_dot by (metis nth_map)
  then have "is_dot_dotdot a = is_dot_dotdot b"
    using len unfolding is_dot_dotdot_def by (cases "length a = 0") auto
  then show ?thesis
    using dentry_hash_loop_lower [OF eq] by (simp add: hmdfs_dentry_hash_def)
qed

definition ascii_lower :: "byte \<Rightarrow> byte" where
  "ascii_lower c = (if 65 \<le> unat c \<and> unat c \<le> 90 then c + 32 else c)"

lemma ascii_lower_dot: "ascii_lower c = dot \<longleftrightarrow> c = dot"
proof (cases "65 \<le> unat c \<and> unat c \<le> 90")
  case True
  then have "unat (c + 32) = unat c + 32" by (simp add: unat_word_ariths)
  moreover have "unat dot = 46" by simp
  ultimately show ?thesis using True by (auto simp: ascii_lower_def)
qed (auto simp: ascii_lower_def)

text \<open>
  The mask \<open>~HMDFS_HASH_COL_BIT\<close> clears bit 63 of a 32-bit value: it changes
  no hash.
\<close>

lemma hmdfs_dentry_hash_mask:
  "hmdfs_dentry_hash lower cs name =
     (if is_dot_dotdot name then 0 else fst (dentry_hash_loop lower cs name (0x67452301, 0xefcdab89)))"
proof -
  have "ucast (ucast (x :: u32) AND NOT (push_bit 63 1) :: u64) = x" for x
    by (rule bit_word_eqI) (simp only: bit_simps, auto)
  then show ?thesis by (simp add: hmdfs_dentry_hash_def)
qed

end
