(* ===== verification/Dentry_Bucket.thy ===== *)
theory Dentry_Bucket
  imports Hmdfs_Prelude
begin

text \<open>
  The geometry of a dentry cache file (\<open>src/hmdfs/hmdfs_dentryfile.h\<close> and
  \<open>hmdfs_dentryfile.c\<close>): a header block and then, for each level \<open>L\<close>,
  \<open>2^L\<close> buckets of two dentry groups of 4096 bytes; and the directory
  position that packs a device, a group and a slot into one \<open>loff_t\<close>
  (\<open>hmdfs_set_pos\<close> in \<open>file_remote.c\<close>).

  Levels and bucket numbers stay below \<open>2^63\<close> and are \<open>nat\<close>; where the
  code narrows to \<open>unsigned int\<close> or computes in \<open>loff_t\<close> the width is
  written out.
\<close>

abbreviation (input) MAX_BUCKET_LEVEL :: nat where "MAX_BUCKET_LEVEL \<equiv> 63"
abbreviation (input) BUCKET_BLOCKS :: nat where "BUCKET_BLOCKS \<equiv> 2"
abbreviation (input) DENTRYGROUP_SIZE :: nat where "DENTRYGROUP_SIZE \<equiv> 4096"
abbreviation (input) DENTRYGROUP_HEADER :: nat where "DENTRYGROUP_HEADER \<equiv> 4096"
abbreviation (input) DENTRY_NAME_LEN :: nat where "DENTRY_NAME_LEN \<equiv> 8"
abbreviation (input) DENTRY_PER_GROUP :: nat where "DENTRY_PER_GROUP \<equiv> 80"
abbreviation (input) DENTRY_BITMAP_LENGTH :: nat where "DENTRY_BITMAP_LENGTH \<equiv> 10"

section \<open>Buckets\<close>

definition get_dentry_group_pos :: "nat \<Rightarrow> nat" where
  "get_dentry_group_pos bidx = (bidx mod 2 ^ 32) * DENTRYGROUP_SIZE + DENTRYGROUP_HEADER"

definition get_dentry_group_cnt :: "nat \<Rightarrow> nat" where
  "get_dentry_group_cnt isize =
     (if isize \<ge> DENTRYGROUP_HEADER
      then ((isize - DENTRYGROUP_HEADER) div DENTRYGROUP_SIZE) mod 2 ^ 32 else 0)"

definition get_bucketaddr :: "nat \<Rightarrow> nat \<Rightarrow> nat" where
  "get_bucketaddr level buckoffset =
     (if level \<ge> MAX_BUCKET_LEVEL then 0
      else if buckoffset \<ge> 2 ^ level then 0
      else 2 ^ level + buckoffset - 1)"

definition get_bucket_by_level :: "nat \<Rightarrow> nat" where
  "get_bucket_by_level level = (if level \<ge> MAX_BUCKET_LEVEL then 0 else 2 ^ level)"

definition get_overall_bucket :: "nat \<Rightarrow> nat" where
  "get_overall_bucket level =
     (if level \<ge> MAX_BUCKET_LEVEL then 0 else 2 ^ (level + 1) - 1)"

text \<open>A signed 64-bit product: it wraps around from level 50 on.\<close>

definition get_dcache_file_size :: "nat \<Rightarrow> int" where
  "get_dcache_file_size level =
     sint (of_nat (get_overall_bucket level) * of_nat DENTRYGROUP_SIZE * of_nat BUCKET_BLOCKS
           + of_nat DENTRYGROUP_HEADER :: u64)"

text \<open>\<open>get_count_order\<close> of the kernel: the least power of two not below a positive count.\<close>

fun fls :: "nat \<Rightarrow> nat" where
  "fls n = (if n = 0 then 0 else Suc (fls (n div 2)))"

declare fls.simps [simp del]

definition get_count_order :: "nat \<Rightarrow> nat" where
  "get_count_order n = fls (n - 1)"

definition get_max_depth :: "nat \<Rightarrow> nat" where
  "get_max_depth isize = get_count_order (get_dentry_group_cnt isize div BUCKET_BLOCKS + 1)"

subsection \<open>Levels are disjoint\<close>

lemma bucketaddr_level_bounds:
  assumes "level < MAX_BUCKET_LEVEL" and "off < 2 ^ level"
  shows "2 ^ level - 1 \<le> get_bucketaddr level off \<and> get_bucketaddr level off < 2 ^ (level + 1) - 1"
proof -
  have "get_bucketaddr level off = 2 ^ level + off - 1"
    using assms by (simp add: get_bucketaddr_def)
  moreover have "(1::nat) \<le> 2 ^ level" by simp
  ultimately show ?thesis using assms(2) by auto
qed

text \<open>
  Different buckets have different addresses: over all levels
  below 63, no two pairs of a level and an offset share a bucket.
\<close>

theorem bucketaddr_injective:
  assumes "level < MAX_BUCKET_LEVEL" and "off < 2 ^ level"
    and "level' < MAX_BUCKET_LEVEL" and "off' < 2 ^ level'"
  shows "get_bucketaddr level off = get_bucketaddr level' off' \<longleftrightarrow> level = level' \<and> off = off'"
proof (rule iffI)
  assume eq: "get_bucketaddr level off = get_bucketaddr level' off'"
  have lt: "False" if "l < l'" and "o1 < 2 ^ l" "l < 63" and "o2 < 2 ^ l'" "l' < 63"
    and "get_bucketaddr l o1 = get_bucketaddr l' o2" for l l' o1 o2
  proof -
    have "(2::nat) ^ (l + 1) \<le> 2 ^ l'" using that(1) by (intro power_increasing) auto
    moreover have "get_bucketaddr l o1 < 2 ^ (l + 1) - 1" "2 ^ l' - 1 \<le> get_bucketaddr l' o2"
      using bucketaddr_level_bounds [of l o1] bucketaddr_level_bounds [of l' o2] that by blast+
    ultimately show False using that(6) by linarith
  qed
  have "level = level'"
    using lt [of level level' off off'] lt [of level' level off' off] assms eq
    by (metis linorder_neqE_nat)
  then show "level = level' \<and> off = off'" using assms eq by (auto simp: get_bucketaddr_def)
qed simp

theorem bucketaddr_injective_witness:
  "get_bucketaddr 2 3 = 6 \<and> get_bucketaddr 2 3 \<noteq> get_bucketaddr 3 0"
  using bucketaddr_injective [of 2 3 3 0] by (simp add: get_bucketaddr_def)

subsection \<open>The size of a file with all buckets of its levels\<close>

lemma fls_pow: "fls (2 ^ n - 1) = n"
proof (induction n)
  case (Suc n)
  have "(2 ^ Suc n - 1) div 2 = (2 ^ n - 1 :: nat)" by auto
  moreover have "(2::nat) ^ Suc n - 1 \<noteq> 0"
    using one_less_power [of "2::nat" "Suc n"] by simp
  ultimately show ?case using Suc by (subst fls.simps) (simp only: if_False)
qed (simp add: fls.simps)

lemma get_dcache_file_size_eq [geometry_simps]:
  assumes "level < 49"
  shows "get_dcache_file_size level = (2 ^ (level + 1) - 1) * 8192 + 4096"
proof -
  have le: "(2::int) ^ (level + 1) \<le> 2 ^ 49" using assms by (intro power_increasing) auto
  have pos: "(1::int) \<le> 2 ^ (level + 1)" by (rule one_le_power) simp
  have over: "int (get_overall_bucket level) = 2 ^ (level + 1) - 1"
    using assms by (simp add: get_overall_bucket_def of_nat_diff)
  let ?v = "(2 ^ (level + 1) - 1) * 8192 + 4096 :: int"
  have "of_nat (get_overall_bucket level) * of_nat DENTRYGROUP_SIZE * of_nat BUCKET_BLOCKS
           + of_nat DENTRYGROUP_HEADER =
        (of_int (int (get_overall_bucket level) * 8192 + 4096) :: u64)" by simp
  then have "of_nat (get_overall_bucket level) * of_nat DENTRYGROUP_SIZE * of_nat BUCKET_BLOCKS
           + of_nat DENTRYGROUP_HEADER = (of_int ?v :: u64)"
    by (simp only: over)
  moreover have "sint (of_int ?v :: u64) = ?v"
  proof -
    have "- (2 ^ 63) \<le> ?v" and "?v < 2 ^ 63" using le pos by auto
    then have "signed_take_bit 63 ?v = ?v" by (intro signed_take_bit_int_eq_self) auto
    moreover have "LENGTH(64) - 1 = (63::nat)" by simp
    ultimately show ?thesis by (simp only: sint_sbintrunc')
  qed
  ultimately show ?thesis by (simp only: get_dcache_file_size_def)
qed

definition file_size_of_level :: "nat \<Rightarrow> nat" where
  "file_size_of_level level = nat (get_dcache_file_size level)"

lemma file_size_of_level_eq [geometry_simps]:
  assumes "level < 49"
  shows "file_size_of_level level = (2 ^ (level + 1) - 1) * 8192 + 4096"
proof -
  have "((2::int) ^ (level + 1) - 1) * 8192 + 4096 = int ((2 ^ (level + 1) - 1) * 8192 + 4096)"
    by (simp add: of_nat_diff)
  then show ?thesis using assms by (simp only: file_size_of_level_def get_dcache_file_size_eq nat_int)
qed

lemma group_cnt_of_level [geometry_simps]:
  assumes "level < 31"
  shows "get_dentry_group_cnt (file_size_of_level level) = 2 * (2 ^ (level + 1) - 1)"
proof -
  have le: "(2::nat) ^ (level + 1) \<le> 2 ^ 31" using assms by (intro power_increasing) auto
  have "((2 ^ (level + 1) - 1) * 8192) div 4096 = 2 * (2 ^ (level + 1) - 1 :: nat)" by simp
  moreover have "2 * (2 ^ (level + 1) - 1) < (2::nat) ^ 32" using le by simp
  ultimately show ?thesis
    using assms by (simp add: get_dentry_group_cnt_def file_size_of_level_eq)
qed

text \<open>
  A file that holds all buckets of the levels up to \<open>L\<close> has
  depth \<open>L + 1\<close>: the lookup visits exactly those levels.
\<close>

theorem max_depth_of_level:
  assumes "level < 31"
  shows "get_max_depth (file_size_of_level level) = level + 1"
proof -
  have "(1::nat) \<le> 2 ^ (level + 1)" by simp
  then have "get_max_depth (file_size_of_level level) = fls (2 ^ (level + 1) - 1)"
    using assms by (simp add: get_max_depth_def get_count_order_def group_cnt_of_level)
  then show ?thesis by (simp only: fls_pow)
qed

theorem max_depth_of_level_witness: "get_max_depth (file_size_of_level 5) = 6"
  using max_depth_of_level [of 5] by simp

section \<open>Directory positions\<close>

abbreviation (input) POS_BIT_NUM :: nat where "POS_BIT_NUM \<equiv> 64"
abbreviation (input) DEV_ID_BIT_NUM :: nat where "DEV_ID_BIT_NUM \<equiv> 16"
abbreviation (input) GROUP_ID_BIT_NUM :: nat where "GROUP_ID_BIT_NUM \<equiv> 39"
abbreviation (input) OFFSET_BIT_NUM :: nat where "OFFSET_BIT_NUM \<equiv> 8"
abbreviation (input) OFFSET_BIT_MASK :: u64 where "OFFSET_BIT_MASK \<equiv> 0xFF"

text \<open>The bits of the \<open>loff_t\<close>, as a word; \<open>sint\<close> of it is the position.\<close>

definition hmdfs_set_pos :: "u64 \<Rightarrow> u64 \<Rightarrow> u64 \<Rightarrow> u64" where
  "hmdfs_set_pos dev_id group_id offset =
     (let pos = push_bit (POS_BIT_NUM - 1 - DEV_ID_BIT_NUM) dev_id
                + push_bit OFFSET_BIT_NUM group_id + offset
      in if dev_id \<noteq> 0 then pos OR push_bit (POS_BIT_NUM - 1) 1 else pos)"

text \<open>
  The two readings of a position: \<open>read_dentry\<close> shifts an \<open>unsigned long\<close>,
  \<open>analysis_dentry_file_from_con\<close> a signed \<open>loff_t\<close>, whose right shift
  repeats the sign bit.
\<close>

definition pos_group_id :: "u64 \<Rightarrow> u64" where
  "pos_group_id pos = drop_bit (POS_BIT_NUM - GROUP_ID_BIT_NUM) (push_bit (1 + DEV_ID_BIT_NUM) pos)"

definition pos_offset :: "u64 \<Rightarrow> u64" where
  "pos_offset pos = pos AND OFFSET_BIT_MASK"

definition con_pos_dev_id :: "u64 \<Rightarrow> u64" where
  "con_pos_dev_id pos = signed_drop_bit (POS_BIT_NUM - DEV_ID_BIT_NUM) (push_bit 1 pos)"

definition con_pos_group_id :: "u64 \<Rightarrow> u64" where
  "con_pos_group_id pos =
     signed_drop_bit (POS_BIT_NUM - GROUP_ID_BIT_NUM) (push_bit (1 + DEV_ID_BIT_NUM) pos)"

lemma high_bits_zero: "unat (w :: u64) < 2 ^ k \<Longrightarrow> k \<le> m \<Longrightarrow> \<not> bit w m"
proof -
  assume "unat w < 2 ^ k" and "k \<le> m"
  then have "take_bit k (unat w) = unat w" by (simp add: take_bit_nat_eq_self)
  then have "\<not> bit (unat w) m" using \<open>k \<le> m\<close> by (metis bit_take_bit_iff not_less)
  then show ?thesis by (simp add: bit_unsigned_iff)
qed

lemma set_pos_bits:
  assumes "unat group_id < 2 ^ 39" and "unat offset < 256" and "unat dev_id < 2 ^ 16"
  shows "bit (hmdfs_set_pos dev_id group_id offset) n \<longleftrightarrow>
    (if n < 8 then bit offset n else if n < 47 then bit group_id (n - 8)
     else if n < 63 then bit dev_id (n - 47) else n = 63 \<and> dev_id \<noteq> 0)"
proof -
  have g: "\<not> bit group_id m" if "39 \<le> m" for m by (rule high_bits_zero [OF assms(1) that])
  have o: "\<not> bit offset m" if "8 \<le> m" for m
    using high_bits_zero [of offset 8 m] assms(2) that by simp
  have d: "\<not> bit dev_id m" if "16 \<le> m" for m by (rule high_bits_zero [OF assms(3) that])
  have or1: "push_bit 8 group_id + offset = push_bit 8 group_id OR offset"
    by (rule disjunctive_add) (auto simp: bit_simps o)
  have "push_bit 47 dev_id + (push_bit 8 group_id + offset) =
        push_bit 47 dev_id OR (push_bit 8 group_id OR offset)"
    unfolding or1
    by (rule disjunctive_add) (use g o in \<open>auto simp: bit_simps\<close>)
  then have eq: "hmdfs_set_pos dev_id group_id offset =
    (if dev_id \<noteq> 0 then (push_bit 47 dev_id OR (push_bit 8 group_id OR offset)) OR push_bit 63 1
     else push_bit 47 dev_id OR (push_bit 8 group_id OR offset))"
    by (simp add: hmdfs_set_pos_def Let_def add.assoc)
  show ?thesis
  proof (cases "dev_id = 0")
    case True
    then show ?thesis unfolding eq using g [of "n - 8"] o [of n]
      by (auto simp: bit_simps dest: bit_imp_le_length)
  next
    case False
    then show ?thesis unfolding eq using g [of "n - 8"] o [of n] d [of "n - 47"]
      by (simp only: if_False if_True not_False_eq_True bit_simps) auto
  qed
qed

lemma bit_offset_mask: "bit OFFSET_BIT_MASK n \<longleftrightarrow> n < 8"
proof -
  have "OFFSET_BIT_MASK = mask 8" by (simp add: mask_eq_exp_minus_1)
  then show ?thesis by (simp only: bit_mask_iff) auto
qed

lemma pos_offset_set_pos:
  assumes "unat dev_id < 2 ^ 16" and "unat group_id < 2 ^ 39" and "unat offset < 256"
  shows "pos_offset (hmdfs_set_pos dev_id group_id offset) = offset"
  using high_bits_zero [of offset 8] assms(3)
  by (intro bit_word_eqI)
     (simp only: pos_offset_def bit_and_iff bit_offset_mask set_pos_bits [OF assms(2,3,1)], auto)

text \<open>
  \<open>read_dentry\<close> resumes where it stopped: from the position
  \<open>hmdfs_set_pos\<close> made of a device, a group and a slot it reads back the same
  group and slot, for all 39-bit groups and 8-bit slots.
\<close>

theorem set_pos_read_dentry:
  assumes "unat dev_id < 2 ^ 16" and "unat group_id < 2 ^ 39" and "unat offset < 256"
  shows "pos_group_id (hmdfs_set_pos dev_id group_id offset) = group_id \<and>
         pos_offset (hmdfs_set_pos dev_id group_id offset) = offset"
proof
  note bits = set_pos_bits [OF assms(2,3,1)]
  show "pos_group_id (hmdfs_set_pos dev_id group_id offset) = group_id"
    using high_bits_zero [OF assms(2)]
    by (intro bit_word_eqI) (auto simp: pos_group_id_def bit_simps bits)
  show "pos_offset (hmdfs_set_pos dev_id group_id offset) = offset"
    by (rule pos_offset_set_pos) (use assms in auto)
qed

theorem set_pos_read_dentry_witness:
  "pos_group_id (hmdfs_set_pos 3 1000 79) = 1000 \<and> pos_offset (hmdfs_set_pos 3 1000 79) = 79"
  using set_pos_read_dentry [of 3 1000 79] by simp

text \<open>
  (round trip) The remote iteration shifts a signed position: it reads back
  the device, the group and the slot for devices below \<open>2^15\<close> and groups below
  \<open>2^38\<close>, one bit less than the fields of the position have.
\<close>

theorem set_pos_from_con:
  assumes "unat dev_id < 2 ^ 15" and "unat group_id < 2 ^ 38" and "unat offset < 256"
  shows "con_pos_dev_id (hmdfs_set_pos dev_id group_id offset) = dev_id \<and>
         con_pos_group_id (hmdfs_set_pos dev_id group_id offset) = group_id \<and>
         pos_offset (hmdfs_set_pos dev_id group_id offset) = offset"
proof (intro conjI)
  have d: "unat dev_id < 2 ^ 16" and g: "unat group_id < 2 ^ 39" using assms by simp_all
  note bits = set_pos_bits [OF g assms(3) d]
  show "con_pos_dev_id (hmdfs_set_pos dev_id group_id offset) = dev_id"
    using high_bits_zero [OF assms(1)]
    by (intro bit_word_eqI)
       (simp only: con_pos_dev_id_def bit_signed_drop_bit_iff bit_push_bit_iff bits, auto)
  show "con_pos_group_id (hmdfs_set_pos dev_id group_id offset) = group_id"
    using high_bits_zero [OF assms(2)]
    by (intro bit_word_eqI) (auto simp: con_pos_group_id_def bit_simps bits)
  show "pos_offset (hmdfs_set_pos dev_id group_id offset) = offset"
    by (rule pos_offset_set_pos) (use assms in auto)
qed

theorem set_pos_from_con_witness:
  "con_pos_dev_id (hmdfs_set_pos 3 1000 79) = 3 \<and> con_pos_group_id (hmdfs_set_pos 3 1000 79) = 1000
   \<and> pos_offset (hmdfs_set_pos 3 1000 79) = 79"
  using set_pos_from_con [of 3 1000 79] by simp

end
