(* ===== verification/Dentry_Entries.thy ===== *)
theory Dentry_Entries
  imports Dentry_Group
begin

text \<open>
  A dentry group as a finite map from slots to entries: the type invariant of
  a group, and that \<open>find_in_block\<close>, \<open>update_dentry\<close> and the clearing of
  slots are the lookup, the insertion and the removal of that map.
\<close>

section \<open>A group as a map from slots to entries\<close>

definition head_slot :: "hmdfs_dentry_group \<Rightarrow> nat \<Rightarrow> bool" where
  "head_slot g i \<longleftrightarrow> i < DENTRY_PER_GROUP \<and> test_bit_le i (bitmap g) \<and> de_namelen (nsl g ! i) \<noteq> 0"

definition name_len :: "hmdfs_dentry_group \<Rightarrow> nat \<Rightarrow> nat" where
  "name_len g i = unat (de_namelen (nsl g ! i))"

definition name_at :: "hmdfs_dentry_group \<Rightarrow> nat \<Rightarrow> byte list" where
  "name_at g i = name_bytes g i (name_len g i)"

definition entry_at :: "hmdfs_dentry_group \<Rightarrow> nat \<Rightarrow> (byte list \<times> hmdfs_dentry) option" where
  "entry_at g i = (if head_slot g i then Some (name_at g i, nsl g ! i) else None)"

text \<open>
  The type invariant: the arrays have their lengths; the slots of an entry
  stay in the group, are marked, and all but the first have no name; every
  marked slot belongs to an entry.
\<close>

definition wf_group :: "hmdfs_dentry_group \<Rightarrow> bool" where
  "wf_group g \<longleftrightarrow>
     length (bitmap g) = DENTRY_BITMAP_LENGTH \<and> length (nsl g) = DENTRY_PER_GROUP \<and>
     length (filename g) = DENTRY_PER_GROUP * DENTRY_NAME_LEN \<and>
     (\<forall>i. head_slot g i \<longrightarrow> i + get_dentry_slots (name_len g i) \<le> DENTRY_PER_GROUP \<and>
        (\<forall>k. i < k \<and> k < i + get_dentry_slots (name_len g i) \<longrightarrow>
             test_bit_le k (bitmap g) \<and> de_namelen (nsl g ! k) = 0)) \<and>
     (\<forall>j < DENTRY_PER_GROUP. test_bit_le j (bitmap g) \<longrightarrow>
        (\<exists>i. head_slot g i \<and> i \<le> j \<and> j < i + get_dentry_slots (name_len g i)))"

lemma slots_pos: "0 < n \<Longrightarrow> 0 < get_dentry_slots n"
  by (simp add: get_dentry_slots_def)

lemma slots_cover: "n \<le> 8 * get_dentry_slots n"
  by (simp add: get_dentry_slots_def)

lemma name_len_pos: "head_slot g i \<Longrightarrow> 0 < name_len g i"
  by (simp add: head_slot_def name_len_def unat_gt_0)

lemma wf_groupD:
  assumes "wf_group g" and "head_slot g i"
  shows "i + get_dentry_slots (name_len g i) \<le> DENTRY_PER_GROUP"
    and "i < k \<Longrightarrow> k < i + get_dentry_slots (name_len g i) \<Longrightarrow> test_bit_le k (bitmap g)"
    and "i < k \<Longrightarrow> k < i + get_dentry_slots (name_len g i) \<Longrightarrow> \<not> head_slot g k"
proof -
  from assms have all: "i + get_dentry_slots (name_len g i) \<le> DENTRY_PER_GROUP \<and>
        (\<forall>k. i < k \<and> k < i + get_dentry_slots (name_len g i) \<longrightarrow>
             test_bit_le k (bitmap g) \<and> de_namelen (nsl g ! k) = 0)"
    unfolding wf_group_def by blast
  then show "i + get_dentry_slots (name_len g i) \<le> DENTRY_PER_GROUP" by blast
  show "i < k \<Longrightarrow> k < i + get_dentry_slots (name_len g i) \<Longrightarrow> test_bit_le k (bitmap g)"
    using all by blast
  show "i < k \<Longrightarrow> k < i + get_dentry_slots (name_len g i) \<Longrightarrow> \<not> head_slot g k"
    using all by (simp add: head_slot_def)
qed

lemma length_name_at:
  assumes "wf_group g" and "head_slot g i"
  shows "length (name_at g i) = name_len g i"
  using wf_groupD(1) [OF assms] slots_cover [of "name_len g i"] assms(1)
  by (simp add: name_at_def name_bytes_def wf_group_def)

lemma zero_group_sel [simp]:
  "bitmap zero_group = replicate DENTRY_BITMAP_LENGTH 0"
  "length (nsl zero_group) = DENTRY_PER_GROUP"
  "length (filename zero_group) = DENTRY_PER_GROUP * DENTRY_NAME_LEN"
  by (simp_all only: zero_group_def hmdfs_dentry_group.select_convs length_replicate)

lemma zero_group_no_head: "\<not> head_slot zero_group i"
  using test_zero_bitmap by (auto simp only: head_slot_def zero_group_sel)

lemma wf_zero_group: "wf_group zero_group"
  unfolding wf_group_def zero_group_sel
proof (intro conjI allI impI)
  show "\<exists>i. head_slot zero_group i \<and> i \<le> j \<and> j < i + get_dentry_slots (name_len zero_group i)"
    if "j < DENTRY_PER_GROUP" and "test_bit_le j (replicate DENTRY_BITMAP_LENGTH 0)" for j
    using that test_zero_bitmap by blast
qed (use zero_group_no_head in \<open>blast | simp only: length_replicate\<close>)+

lemma entry_at_zero_group [simp]: "entry_at zero_group i = None"
  using zero_group_no_head by (simp only: entry_at_def if_False)

subsection \<open>Lookup in a group\<close>

definition entry_matches :: "hmdfs_dentry_group \<Rightarrow> u32 \<Rightarrow> byte list \<Rightarrow> nat \<Rightarrow> bool" where
  "entry_matches g h name i \<longleftrightarrow> head_slot g i \<and> de_hash (nsl g ! i) = h \<and> name_at g i = name"

lemma find_append_skip: "\<forall>x\<in>set xs. \<not> P x \<Longrightarrow> find P (xs @ ys) = find P ys"
  by (induction xs) auto

lemma find_upt_skip:
  assumes "i \<le> j" and "j \<le> n" and "\<And>k. i \<le> k \<Longrightarrow> k < j \<Longrightarrow> \<not> P k"
  shows "find P [i..<n] = find P [j..<n]"
proof -
  have "[i..<n] = [i..<j] @ [j..<n]"
    using upt_add_eq_append [of i j "n - j"] assms(1,2) by simp
  moreover have "find P ([i..<j] @ [j..<n]) = find P [j..<n]"
    by (rule find_append_skip) (use assms(3) in auto)
  ultimately show ?thesis by metis
qed

lemma find_upt_hit: "i < n \<Longrightarrow> P i \<Longrightarrow> find P [i..<n] = Some i"
  by (simp add: upt_conv_Cons)

lemma entry_matches_iff:
  assumes "wf_group g" and "test_bit_le p (bitmap g)" and "p < DENTRY_PER_GROUP" and "name_len g p \<noteq> 0"
  shows "entry_matches g h name p \<longleftrightarrow>
    de_hash (nsl g ! p) = h \<and> name_len g p = length name \<and> name_bytes g p (name_len g p) = name"
proof -
  have head: "head_slot g p" using assms by (auto simp: head_slot_def name_len_def)
  then show ?thesis
    using length_name_at [OF assms(1) head] by (auto simp: entry_matches_def name_at_def)
qed

lemma find_in_block_from_exact:
  "wf_group g \<Longrightarrow> fst (find_in_block_from lower g h name cs ins p) =
         find (entry_matches g h name) [p..<DENTRY_PER_GROUP]"
proof (induction lower g h name cs ins p rule: find_in_block_from.induct)
  case (1 lower g h name cs ins p)
  note wf = "1.prems"
  note unfold = find_in_block_from.simps [of lower g h name cs ins p]
  show ?case
  proof (cases "p < DENTRY_PER_GROUP")
    case False
    then show ?thesis unfolding unfold by simp
  next
    case p: True
    have step: "find (entry_matches g h name) [p..<DENTRY_PER_GROUP] =
        find (entry_matches g h name) [p + 1..<DENTRY_PER_GROUP]" if "\<not> head_slot g p"
      by (rule find_upt_skip) (use p that in \<open>auto simp: entry_matches_def le_Suc_eq less_Suc_eq\<close>)
    show ?thesis
    proof (cases "test_bit_le p (bitmap g)")
      case False
      then show ?thesis
        unfolding unfold using p "1.IH"(1) wf step by (simp add: head_slot_def)
    next
      case t: True
      show ?thesis
      proof (cases "name_len g p = 0")
        case True
        then have "\<not> head_slot g p" by (metis name_len_pos less_irrefl)
        then show ?thesis
          unfolding unfold using p t "1.IH"(2) wf step True by (simp add: name_len_def Let_def)
      next
        case nl: False
        have head: "head_slot g p" using p t nl by (auto simp: head_slot_def name_len_def)
        note iff = entry_matches_iff [OF wf t p nl, of h name]
        show ?thesis
        proof (cases "entry_matches g h name p")
          case True
          have "find_in_block_from lower g h name cs ins p = (Some p, ins)"
            unfolding unfold using p t nl True [unfolded iff] by (auto simp: name_len_def Let_def)
          with True p show ?thesis by (simp only: fst_conv find_upt_hit)
        next
          case False
          let ?q = "p + get_dentry_slots (name_len g p)"
          have "find (entry_matches g h name) [p..<DENTRY_PER_GROUP] =
                find (entry_matches g h name) [?q..<DENTRY_PER_GROUP]"
          proof (rule find_upt_skip)
            show "\<not> entry_matches g h name k" if "p \<le> k" "k < ?q" for k
              using that False wf_groupD(3) [OF wf head, of k]
              by (cases "k = p") (auto simp: entry_matches_def)
          qed (use wf_groupD(1) [OF wf head] in auto)
          then show ?thesis
            unfolding unfold using p t nl False [unfolded iff] "1.IH"(3) wf
            by (auto simp: name_len_def Let_def)
        qed
      qed
    qed
  qed
qed

lemma find_in_block_exact:
  "wf_group g \<Longrightarrow>
   fst (find_in_block lower g h name cs ins) = find (entry_matches g h name) [0..<DENTRY_PER_GROUP]"
  by (simp add: find_in_block_def find_in_block_from_exact)

lemma find_in_block_Some:
  assumes "wf_group g" and "fst (find_in_block lower g h name cs ins) = Some p"
  shows "entry_matches g h name p"
  using assms by (auto simp: find_in_block_exact find_Some_iff)

lemma find_in_block_None:
  assumes "wf_group g" and "fst (find_in_block lower g h name cs ins) = None"
  shows "\<not> entry_matches g h name p"
proof
  assume m: "entry_matches g h name p"
  then have "p < DENTRY_PER_GROUP" by (simp add: entry_matches_def head_slot_def)
  with m assms show False by (auto simp: find_in_block_exact find_None_iff)
qed

lemma find_in_block_sensitive:
  "snd (find_in_block lower g h name True ins) = ins"
proof -
  have "cs \<Longrightarrow> snd (find_in_block_from lower g h name cs ins p) = ins" for cs p
  proof (induction lower g h name cs ins p rule: find_in_block_from.induct)
    case (1 lower g h name cs ins p)
    then show ?case
      unfolding find_in_block_from.simps [of lower g h name cs ins p] Let_def
      by (auto split: if_splits)
  qed
  then show ?thesis by (simp add: find_in_block_def)
qed

subsection \<open>Insertion into a group\<close>

lemma mark_slots_const [simp]:
  "filename (mark_slots p s g n) = filename g"
  "length (bitmap (mark_slots p s g n)) = length (bitmap g)"
  "length (nsl (mark_slots p s g n)) = length (nsl g)"
  "dentry_version (mark_slots p s g n) = dentry_version g"
  by (induction n arbitrary: g) (simp_all add: Let_def)

lemma mark_slots_bitmap:
  "n \<le> s \<Longrightarrow> p + s \<le> 8 * length (bitmap g) \<Longrightarrow>
   test_bit_le m (bitmap (mark_slots p s g n)) \<longleftrightarrow>
     p + (s - n) \<le> m \<and> m < p + s \<or> test_bit_le m (bitmap g)"
proof (induction n arbitrary: g)
  case (Suc n)
  have "s - n = Suc (s - Suc n)" using Suc.prems(1) by simp
  with Suc.IH Suc.prems show ?case
    by (auto simp: Let_def test_set_bit_le)
qed auto

lemma mark_slots_nsl:
  "n \<le> s \<Longrightarrow> p + s \<le> length (nsl g) \<Longrightarrow>
   nsl (mark_slots p s g n) ! m =
     (if p + (s - n) \<le> m \<and> m < p + s \<and> p < m then (nsl g ! m)\<lparr>de_namelen := 0\<rparr> else nsl g ! m)"
proof (induction n arbitrary: g)
  case (Suc n)
  have e: "s - n = Suc (s - Suc n)" using Suc.prems(1) by simp
  have "p + (s - Suc n) < length (nsl g)" using Suc.prems by simp
  with Suc.IH Suc.prems show ?case
    unfolding mark_slots.simps Let_def e
    by (cases "m = p + (s - Suc n)"; cases "s - Suc n = 0") (auto simp: e)
qed auto

lemma length_write_name:
  "DENTRY_NAME_LEN * p + length name \<le> length f \<Longrightarrow> length (write_name f p name) = length f"
  by (simp add: write_name_def)

lemma write_name_same:
  "DENTRY_NAME_LEN * p + length name \<le> length f \<Longrightarrow>
   take (length name) (drop (DENTRY_NAME_LEN * p) (write_name f p name)) = name"
  by (simp add: write_name_def)

lemma write_name_other:
  assumes "8 * p + length name \<le> length f"
    and "8 * q + n \<le> 8 * p \<or> 8 * p + length name \<le> 8 * q"
  shows "take n (drop (8 * q) (write_name f p name)) = take n (drop (8 * q) f)"
proof (rule nth_equalityI)
  show "length (take n (drop (8 * q) (write_name f p name))) = length (take n (drop (8 * q) f))"
    using length_write_name [OF assms(1)] by simp
next
  fix i assume "i < length (take n (drop (8 * q) (write_name f p name)))"
  then have i: "i < n" "8 * q + i < length f"
    using length_write_name [OF assms(1)] by auto
  have "write_name f p name ! (8 * q + i) = f ! (8 * q + i)"
  proof (cases "8 * q + n \<le> 8 * p")
    case True
    then show ?thesis using i by (simp add: write_name_def nth_append)
  next
    case False
    with assms(2) have "8 * p + length name \<le> 8 * q" by blast
    moreover from this have "\<not> 8 * q + i - 8 * p < length name" by linarith
    ultimately show ?thesis using i assms(1) by (simp add: write_name_def nth_append)
  qed
  then show "take n (drop (8 * q) (write_name f p name)) ! i = take n (drop (8 * q) f) ! i"
    using i length_write_name [OF assms(1)] by simp
qed

text \<open>The slots of the new name, all free, and the group after the insertion.\<close>

definition fits_at :: "hmdfs_dentry_group \<Rightarrow> byte list \<Rightarrow> nat \<Rightarrow> bool" where
  "fits_at g name p \<longleftrightarrow> name \<noteq> [] \<and> p + get_dentry_slots (length name) \<le> DENTRY_PER_GROUP \<and>
     (\<forall>j. p \<le> j \<and> j < p + get_dentry_slots (length name) \<longrightarrow> \<not> test_bit_le j (bitmap g))"

lemma wf_group_lengths:
  assumes "wf_group g"
  shows "length (bitmap g) = DENTRY_BITMAP_LENGTH" and "length (nsl g) = DENTRY_PER_GROUP"
    and "length (filename g) = DENTRY_PER_GROUP * DENTRY_NAME_LEN"
  using assms by (simp_all add: wf_group_def)

lemma update_dentry_parts:
  fixes i :: inode_attr and h :: u32
  assumes "wf_group g" and "fits_at g (d_name c) p"
  defines "s \<equiv> get_dentry_slots (length (d_name c))" and "g' \<equiv> update_dentry g c i h p"
  shows "test_bit_le m (bitmap g') \<longleftrightarrow> p \<le> m \<and> m < p + s \<or> test_bit_le m (bitmap g)"
    and "nsl g' ! m =
      (if p < m \<and> m < p + s then (nsl g ! m)\<lparr>de_namelen := 0\<rparr>
       else if m = p then new_dentry c i h (nsl g ! p) else nsl g ! m)"
    and "filename g' = write_name (filename g) p (d_name c)"
    and "length (bitmap g') = length (bitmap g)" and "length (nsl g') = length (nsl g)"
proof -
  have s: "0 < s" "p + s \<le> 80"
    using assms(2) slots_pos [of "length (d_name c)"] by (auto simp: fits_at_def s_def)
  note len = wf_group_lengths [OF assms(1)]
  let ?g1 = "g\<lparr>nsl := (nsl g)[p := new_dentry c i h (nsl g ! p)],
                 filename := write_name (filename g) p (d_name c)\<rparr>"
  have g': "g' = mark_slots p s ?g1 s"
    by (simp add: g'_def s_def update_dentry_def Let_def)
  show "test_bit_le m (bitmap g') \<longleftrightarrow> p \<le> m \<and> m < p + s \<or> test_bit_le m (bitmap g)"
    unfolding g' using mark_slots_bitmap [of s s p ?g1 m] s len by simp
  show "nsl g' ! m =
      (if p < m \<and> m < p + s then (nsl g ! m)\<lparr>de_namelen := 0\<rparr>
       else if m = p then new_dentry c i h (nsl g ! p) else nsl g ! m)"
    unfolding g' using mark_slots_nsl [of s s p ?g1 m] s len by auto
  show "filename g' = write_name (filename g) p (d_name c)"
    and "length (bitmap g') = length (bitmap g)" and "length (nsl g') = length (nsl g)"
    unfolding g' by simp_all
qed

lemma fits_at_bytes:
  "fits_at g name p \<Longrightarrow> DENTRY_NAME_LEN * p + length name \<le> DENTRY_PER_GROUP * DENTRY_NAME_LEN"
  using slots_cover [of "length name"] by (simp add: fits_at_def)

lemma fits_at_disjoint:
  assumes "wf_group g" and "fits_at g name p" and "head_slot g m"
  shows "m + get_dentry_slots (name_len g m) \<le> p \<or> p + get_dentry_slots (length name) \<le> m"
proof (rule ccontr)
  assume "\<not> ?thesis"
  then have lt: "p < m + get_dentry_slots (name_len g m)" "m < p + get_dentry_slots (length name)"
    by simp_all
  have free: "\<not> test_bit_le j (bitmap g)" if "p \<le> j" "j < p + get_dentry_slots (length name)" for j
    using assms(2) that by (simp add: fits_at_def)
  have "test_bit_le m (bitmap g)" using assms(3) by (simp add: head_slot_def)
  then have "m < p" using free [of m] lt by fastforce
  then have "test_bit_le p (bitmap g)" using wf_groupD(2) [OF assms(1,3), of p] lt by simp
  then show False using free [of p] assms(2) slots_pos [of "length name"] by (simp add: fits_at_def)
qed

lemma namelen_word:
  "0 < length name \<Longrightarrow> length name < 65536 \<Longrightarrow>
   unat (of_nat (length name) :: u16) = length name \<and> (of_nat (length name) :: u16) \<noteq> 0"
proof -
  assume "0 < length name" "length name < 65536"
  then have u: "unat (of_nat (length name) :: u16) = length name"
    by (simp add: unat_of_nat)
  with \<open>0 < length name\<close> show ?thesis by auto
qed

lemma update_dentry_heads:
  assumes wf: "wf_group g" and fits: "fits_at g (d_name c) p"
  shows "head_slot (update_dentry g c i h p) m \<longleftrightarrow> m = p \<or> head_slot g m"
    and "name_len (update_dentry g c i h p) p = length (d_name c)"
    and "name_at (update_dentry g c i h p) p = d_name c"
    and "head_slot g m \<Longrightarrow> m \<noteq> p \<and> nsl (update_dentry g c i h p) ! m = nsl g ! m
           \<and> name_at (update_dentry g c i h p) m = name_at g m"
proof -
  define s where "s = get_dentry_slots (length (d_name c))"
  let ?g = "update_dentry g c i h p"
  note parts = update_dentry_parts [OF wf fits, where i = i and h = h, folded s_def]
  have name: "0 < length (d_name c)" "p + s \<le> 80" "0 < s"
    using fits slots_pos [of "length (d_name c)"] by (auto simp: fits_at_def s_def)
  then have "length (d_name c) < 65536" using slots_cover [of "length (d_name c)"] s_def by simp
  then have nl: "unat (of_nat (length (d_name c)) :: u16) = length (d_name c)"
    "(of_nat (length (d_name c)) :: u16) \<noteq> 0" using namelen_word name(1) by auto
  have free: "\<not> test_bit_le j (bitmap g)" if "p \<le> j" "j < p + s" for j
    using fits that by (simp add: fits_at_def s_def)
  have nsl_p: "nsl ?g ! p = new_dentry c i h (nsl g ! p)" using parts(2) [of p] by simp
  have len_p: "de_namelen (nsl ?g ! p) = of_nat (length (d_name c))"
    unfolding nsl_p by (simp add: new_dentry_def Let_def)
  show nlp: "name_len ?g p = length (d_name c)" using len_p nl by (simp add: name_len_def)
  show "name_at ?g p = d_name c"
    using write_name_same [of p "d_name c" "filename g"] fits_at_bytes [OF fits]
    by (simp add: name_at_def nlp name_bytes_def parts(3) wf_group_lengths [OF wf])
  show "head_slot ?g m \<longleftrightarrow> m = p \<or> head_slot g m"
  proof (cases "p \<le> m \<and> m < p + s")
    case True
    then have "\<not> head_slot g m" using free by (simp add: head_slot_def)
    moreover have "head_slot ?g m \<longleftrightarrow> m = p"
      using True name parts(1) [of m] parts(2) [of m] len_p nl(2)
      by (auto simp: head_slot_def)
    ultimately show ?thesis by blast
  next
    case False
    then have "m \<noteq> p" using name by auto
    then show ?thesis using False parts(1) [of m] parts(2) [of m] by (auto simp: head_slot_def)
  qed
  show "m \<noteq> p \<and> nsl ?g ! m = nsl g ! m \<and> name_at ?g m = name_at g m" if hm: "head_slot g m"
  proof -
    have out: "\<not> (p \<le> m \<and> m < p + s)" using free hm by (auto simp: head_slot_def)
    then have ne: "m \<noteq> p" using name by auto
    have same: "nsl ?g ! m = nsl g ! m" using out ne parts(2) [of m] by auto
    have "8 * m + name_len g m \<le> 8 * p \<or> 8 * p + length (d_name c) \<le> 8 * m"
      using fits_at_disjoint [OF wf fits hm] slots_cover [of "name_len g m"]
        slots_cover [of "length (d_name c)"] by linarith
    then have "name_bytes ?g m (name_len g m) = name_bytes g m (name_len g m)"
      using write_name_other [of p "d_name c" "filename g" m "name_len g m"]
        fits_at_bytes [OF fits] wf_group_lengths(3) [OF wf]
      by (simp add: name_bytes_def parts(3))
    then show ?thesis using ne same by (simp add: name_at_def name_len_def)
  qed
qed

lemma update_dentry_wf:
  assumes wf: "wf_group g" and fits: "fits_at g (d_name c) p"
  shows "wf_group (update_dentry g c i h p)"
proof -
  define s where "s = get_dentry_slots (length (d_name c))"
  let ?g = "update_dentry g c i h p"
  note parts = update_dentry_parts [OF wf fits, where i = i and h = h, folded s_def]
  note heads = update_dentry_heads [OF wf fits, where i = i and h = h]
  have len_other: "name_len ?g m = name_len g m" if "head_slot g m" for m
    using heads(4) [OF that] by (simp add: name_len_def)
  have fit_s: "p + s \<le> 80" using fits by (simp add: fits_at_def s_def)
  have span: "m + get_dentry_slots (name_len ?g m) \<le> DENTRY_PER_GROUP \<and>
      (\<forall>k. m < k \<and> k < m + get_dentry_slots (name_len ?g m) \<longrightarrow>
         test_bit_le k (bitmap ?g) \<and> de_namelen (nsl ?g ! k) = 0)" if hm: "head_slot ?g m" for m
  proof (cases "m = p")
    case True
    then show ?thesis using fit_s heads(2) parts(1,2) by (auto simp: s_def [symmetric])
  next
    case False
    then have h: "head_slot g m" using hm heads(1) by blast
    have "de_namelen (nsl ?g ! k) = 0"
      if "m < k" "k < m + get_dentry_slots (name_len g m)" for k
    proof -
      have "de_namelen (nsl g ! k) = 0" using wf h that unfolding wf_group_def by blast
      moreover have "k \<noteq> p"
        using fits_at_disjoint [OF wf fits h] that slots_pos [of "length (d_name c)"] fits
        by (auto simp: fits_at_def)
      ultimately show ?thesis using parts(2) [of k] by simp
    qed
    then show ?thesis using len_other [OF h] wf_groupD(1,2) [OF wf h] parts(1) by simp
  qed
  have cover: "\<exists>m. head_slot ?g m \<and> m \<le> j \<and> j < m + get_dentry_slots (name_len ?g m)"
    if j: "j < DENTRY_PER_GROUP" "test_bit_le j (bitmap ?g)" for j
  proof (cases "p \<le> j \<and> j < p + s")
    case True
    then show ?thesis using heads(1,2) by (intro exI [of _ p]) (simp add: s_def [symmetric])
  next
    case False
    then have "test_bit_le j (bitmap g)" using j parts(1) by blast
    then obtain m where "head_slot g m" "m \<le> j" "j < m + get_dentry_slots (name_len g m)"
      using wf j(1) unfolding wf_group_def by blast
    then show ?thesis using heads(1) len_other by auto
  qed
  have lens: "length (bitmap ?g) = DENTRY_BITMAP_LENGTH" "length (nsl ?g) = DENTRY_PER_GROUP"
    "length (filename ?g) = DENTRY_PER_GROUP * DENTRY_NAME_LEN"
    using parts(3-5) wf_group_lengths [OF wf] length_write_name [of p "d_name c" "filename g"]
      fits_at_bytes [OF fits] by simp_all
  show ?thesis
    unfolding wf_group_def using lens span cover by blast
qed

lemma update_dentry_entry_at:
  assumes wf: "wf_group g" and fits: "fits_at g (d_name c) p"
  shows "entry_at (update_dentry g c i h p) =
         (entry_at g)(p \<mapsto> (d_name c, new_dentry c i h (nsl g ! p)))"
proof
  fix m
  note heads = update_dentry_heads [OF wf fits, where i = i and h = h]
  show "entry_at (update_dentry g c i h p) m =
        ((entry_at g)(p \<mapsto> (d_name c, new_dentry c i h (nsl g ! p)))) m"
  proof (cases "m = p")
    case True
    moreover have "nsl (update_dentry g c i h p) ! p = new_dentry c i h (nsl g ! p)"
      using update_dentry_parts(2) [OF wf fits, where i = i and h = h and m = p] by simp
    ultimately show ?thesis using heads(1,3) by (simp add: entry_at_def)
  next
    case False
    then show ?thesis using heads(1,4) by (auto simp: entry_at_def)
  qed
qed

subsection \<open>Removal from a group\<close>

lemma clear_dentry_parts:
  assumes wf: "wf_group g" and head: "head_slot g p"
  shows "test_bit_le m (bitmap (clear_dentry g p)) \<longleftrightarrow>
           \<not> (p \<le> m \<and> m < p + get_dentry_slots (name_len g p)) \<and> test_bit_le m (bitmap g)"
    and "nsl (clear_dentry g p) = nsl g" and "filename (clear_dentry g p) = filename g"
    and "name_at (clear_dentry g p) m = name_at g m"
    and "name_len (clear_dentry g p) m = name_len g m"
    and "length (bitmap (clear_dentry g p)) = length (bitmap g)"
proof -
  show "test_bit_le m (bitmap (clear_dentry g p)) \<longleftrightarrow>
           \<not> (p \<le> m \<and> m < p + get_dentry_slots (name_len g p)) \<and> test_bit_le m (bitmap g)"
    using test_clear_slots [of p "get_dentry_slots (name_len g p)" "bitmap g" m]
      wf_groupD(1) [OF wf head] wf_group_lengths(1) [OF wf]
    by (simp add: clear_dentry_def name_len_def)
qed (simp_all add: clear_dentry_def name_at_def name_len_def name_bytes_def)

lemma heads_apart:
  assumes wf: "wf_group g" and "head_slot g p" and "head_slot g m" and "m \<noteq> p"
  shows "m + get_dentry_slots (name_len g m) \<le> p \<or> p + get_dentry_slots (name_len g p) \<le> m"
  using wf_groupD(3) [OF wf assms(2), of m] wf_groupD(3) [OF wf assms(3), of p] assms
  by (meson not_less linorder_neqE_nat)

lemma clear_dentry_heads:
  assumes wf: "wf_group g" and head: "head_slot g p"
  shows "head_slot (clear_dentry g p) m \<longleftrightarrow> m \<noteq> p \<and> head_slot g m"
proof -
  have "0 < get_dentry_slots (name_len g p)" using slots_pos name_len_pos [OF head] by blast
  then show ?thesis
    using clear_dentry_parts(1) [OF wf head, of m] clear_dentry_parts(2) [OF wf head] heads_apart [OF wf head, of m]
    by (auto simp: head_slot_def)
qed

lemma clear_dentry_entry_at:
  assumes "wf_group g" and "head_slot g p"
  shows "entry_at (clear_dentry g p) = (entry_at g)(p := None)"
  using clear_dentry_heads [OF assms] clear_dentry_parts(2,4) [OF assms]
  by (auto simp: entry_at_def fun_eq_iff)

lemma clear_dentry_wf:
  assumes wf: "wf_group g" and head: "head_slot g p"
  shows "wf_group (clear_dentry g p)"
proof -
  note parts = clear_dentry_parts [OF wf head]
  note heads = clear_dentry_heads [OF wf head]
  have span: "m + get_dentry_slots (name_len g m) \<le> DENTRY_PER_GROUP \<and>
      (\<forall>k. m < k \<and> k < m + get_dentry_slots (name_len g m) \<longrightarrow>
         test_bit_le k (bitmap (clear_dentry g p)) \<and> de_namelen (nsl g ! k) = 0)"
    if hm: "m \<noteq> p" "head_slot g m" for m
  proof (intro conjI allI impI)
    show "m + get_dentry_slots (name_len g m) \<le> DENTRY_PER_GROUP" by (rule wf_groupD(1) [OF wf hm(2)])
    fix k assume k: "m < k \<and> k < m + get_dentry_slots (name_len g m)"
    then show "test_bit_le k (bitmap (clear_dentry g p))"
      using heads_apart [OF wf head hm(2,1)] wf_groupD(2) [OF wf hm(2), of k] parts(1) [of k] by auto
    show "de_namelen (nsl g ! k) = 0" using wf hm(2) k unfolding wf_group_def by blast
  qed
  have cover: "\<exists>m. (m \<noteq> p \<and> head_slot g m) \<and> m \<le> j \<and> j < m + get_dentry_slots (name_len g m)"
    if j: "j < DENTRY_PER_GROUP" "test_bit_le j (bitmap (clear_dentry g p))" for j
  proof -
    obtain m where "head_slot g m" "m \<le> j" "j < m + get_dentry_slots (name_len g m)"
      using wf j parts(1) [of j] unfolding wf_group_def by blast
    then show ?thesis using j(2) parts(1) [of j] by auto
  qed
  show ?thesis
    unfolding wf_group_def parts(2,3,5,6) heads
    using wf_group_lengths [OF wf] span cover by blast
qed

end
