(* ===== verification/Dentry_File.thy ===== *)
theory Dentry_File
  imports Dentry_Entries
begin

text \<open>
  A dentry cache file and the operations on it (\<open>find_dentry_page\<close>,
  \<open>hmdfs_in_level\<close>, \<open>hmdfs_find_dentry\<close>, \<open>create_dentry\<close>,
  \<open>hmdfs_delete_dentry\<close>, \<open>hmdfs_rename_dentry\<close> and the write back of an inode
  in \<open>update_inode_to_dentry\<close>, all of \<open>src/hmdfs/hmdfs_dentryfile.c\<close>).

  The state is the size of the file, its dentry groups and the bytes on which
  this open file holds a POSIX lock. The kernel calls the code makes are
  parameters: whether an allocation succeeds, the error of a lock or of a
  truncation, and whether a read or a write at a position succeeds. A
  \<open>kernel_read\<close> or \<open>kernel_write\<close> that succeeds advances the position
  variable it is given by the bytes it transferred.
\<close>

section \<open>Files and kernel calls\<close>

record kernel =
  k_kmalloc :: bool
  k_wlock :: "nat \<Rightarrow> int"
  k_truncate :: "int \<Rightarrow> int"
  k_read :: "nat \<Rightarrow> bool"
  k_write :: "nat \<Rightarrow> bool"

definition kernel_ok :: kernel where
  "kernel_ok = \<lparr>k_kmalloc = True, k_wlock = (\<lambda>_. 0), k_truncate = (\<lambda>len. if len < 0 then - EINVAL else 0),
                k_read = (\<lambda>_. True), k_write = (\<lambda>_. True)\<rparr>"

record dcache_file =
  f_size :: nat
  f_groups :: "hmdfs_dentry_group list"
  f_locked :: "nat set"

definition group_count :: "dcache_file \<Rightarrow> nat" where
  "group_count f = get_dentry_group_cnt (f_size f)"

definition hmdfs_wlock_file :: "kernel \<Rightarrow> dcache_file \<Rightarrow> nat \<Rightarrow> nat \<Rightarrow> int \<times> dcache_file" where
  "hmdfs_wlock_file k f start len =
     (if k_wlock k start \<noteq> 0 then (k_wlock k start, f)
      else (0, f\<lparr>f_locked := f_locked f \<union> {start..<start + len}\<rparr>))"

definition hmdfs_unlock_file :: "dcache_file \<Rightarrow> nat \<Rightarrow> nat \<Rightarrow> dcache_file" where
  "hmdfs_unlock_file f start len = f\<lparr>f_locked := f_locked f - {start..<start + len}\<rparr>"

text \<open>A read of one group: the bytes read and the buffer.\<close>

definition cache_file_read :: "kernel \<Rightarrow> dcache_file \<Rightarrow> nat \<Rightarrow> int \<times> hmdfs_dentry_group" where
  "cache_file_read k f pos =
     (if \<not> k_read k pos then (- EIO, zero_group)
      else if pos + DENTRYGROUP_SIZE \<le> f_size f
      then (int DENTRYGROUP_SIZE, f_groups f ! ((pos - DENTRYGROUP_HEADER) div DENTRYGROUP_SIZE))
      else (int (f_size f - pos), zero_group))"

definition cache_file_write :: "kernel \<Rightarrow> dcache_file \<Rightarrow> hmdfs_dentry_group \<Rightarrow> nat \<Rightarrow> int \<times> dcache_file" where
  "cache_file_write k f g pos =
     (if \<not> k_write k pos then (- EIO, f)
      else (int DENTRYGROUP_SIZE,
            f\<lparr>f_groups := (f_groups f)[(pos - DENTRYGROUP_HEADER) div DENTRYGROUP_SIZE := g]\<rparr>))"

definition advance :: "nat \<Rightarrow> int \<Rightarrow> nat" where
  "advance pos ret = pos + nat ret"

definition cache_file_truncate :: "kernel \<Rightarrow> dcache_file \<Rightarrow> int \<Rightarrow> int \<times> dcache_file" where
  "cache_file_truncate k f len =
     (if k_truncate k len \<noteq> 0 then (k_truncate k len, f)
      else let n = get_dentry_group_cnt (nat len) in
        (0, f\<lparr>f_size := nat len,
              f_groups := take n (f_groups f) @ replicate (n - length (f_groups f)) zero_group\<rparr>))"

section \<open>Lookup\<close>

definition find_dentry_page :: "kernel \<Rightarrow> dcache_file \<Rightarrow> nat \<Rightarrow> hmdfs_dentry_group option \<times> dcache_file" where
  "find_dentry_page k f index =
     (let pos = get_dentry_group_pos index in
      if \<not> k_kmalloc k then (None, f)
      else case hmdfs_wlock_file k f pos DENTRYGROUP_SIZE of (err, f1) \<Rightarrow>
        if err \<noteq> 0 then (None, f1)
        else case cache_file_read k f1 pos of (n, blk) \<Rightarrow>
          if n \<noteq> int DENTRYGROUP_SIZE
          then (None, hmdfs_unlock_file f1 (advance pos n) DENTRYGROUP_SIZE)
          else (Some blk, f1))"

record hmdfs_dcache_lookup_ctx =
  c_name :: "byte list"
  c_hash :: u32
  c_bidx :: nat
  c_page :: "hmdfs_dentry_group option"
  c_insense_de :: "nat option"
  c_insense_bidx :: nat
  c_insense_page :: "hmdfs_dentry_group option"

definition hmdfs_init_dcache_lookup_ctx :: "byte list \<Rightarrow> hmdfs_dcache_lookup_ctx" where
  "hmdfs_init_dcache_lookup_ctx name =
     \<lparr>c_name = name, c_hash = 0, c_bidx = 0, c_page = None,
      c_insense_de = None, c_insense_bidx = 0, c_insense_page = None\<rparr>"

text \<open>
  The two blocks of a bucket. An entry is its slot in the page of the context;
  \<open>tmp\<close> is \<open>tmp_insense_de\<close>.
\<close>

fun in_level_blocks ::
  "kernel \<Rightarrow> (byte \<Rightarrow> byte) \<Rightarrow> bool \<Rightarrow> nat \<Rightarrow> nat \<Rightarrow> dcache_file \<Rightarrow> hmdfs_dcache_lookup_ctx
   \<Rightarrow> nat option \<Rightarrow> nat option \<times> dcache_file \<times> hmdfs_dcache_lookup_ctx" where
  "in_level_blocks k lower cs 0 bidx f ctx tmp = (None, f, ctx\<lparr>c_bidx := bidx\<rparr>)"
| "in_level_blocks k lower cs (Suc n) bidx f ctx tmp =
     (case find_dentry_page k f bidx of
        (None, f1) \<Rightarrow> (None, f1, ctx\<lparr>c_bidx := bidx\<rparr>)
      | (Some blk, f1) \<Rightarrow>
          (case find_in_block lower blk (c_hash ctx) (c_name ctx) cs tmp of
             (Some de, _) \<Rightarrow> (Some de, f1, ctx\<lparr>c_page := Some blk, c_bidx := bidx\<rparr>)
           | (None, tmp') \<Rightarrow>
               if c_insense_de ctx = None \<and> tmp' \<noteq> None
               then in_level_blocks k lower cs n (bidx + 1) f1
                      (ctx\<lparr>c_insense_de := tmp', c_insense_page := Some blk, c_insense_bidx := bidx\<rparr>) tmp'
               else in_level_blocks k lower cs n (bidx + 1)
                      (hmdfs_unlock_file f1 (get_dentry_group_pos bidx) DENTRYGROUP_SIZE) ctx tmp'))"

definition hmdfs_in_level ::
  "kernel \<Rightarrow> (byte \<Rightarrow> byte) \<Rightarrow> bool \<Rightarrow> nat \<Rightarrow> dcache_file \<Rightarrow> hmdfs_dcache_lookup_ctx
   \<Rightarrow> nat option \<times> dcache_file \<times> hmdfs_dcache_lookup_ctx" where
  "hmdfs_in_level k lower cs level f ctx =
     (let nbucket = get_bucket_by_level level in
      if nbucket = 0 then (None, f, ctx)
      else in_level_blocks k lower cs BUCKET_BLOCKS
             (get_bucketaddr level (unat (c_hash ctx) mod nbucket) * BUCKET_BLOCKS) f ctx None)"

text \<open>The levels from \<open>level\<close> on, \<open>n\<close> of them left.\<close>

fun find_dentry_levels ::
  "kernel \<Rightarrow> (byte \<Rightarrow> byte) \<Rightarrow> bool \<Rightarrow> nat \<Rightarrow> nat \<Rightarrow> dcache_file \<Rightarrow> hmdfs_dcache_lookup_ctx
   \<Rightarrow> nat option \<times> dcache_file \<times> hmdfs_dcache_lookup_ctx" where
  "find_dentry_levels k lower cs level 0 f ctx =
     (if c_insense_de ctx \<noteq> None
      then (c_insense_de ctx, f,
            ctx\<lparr>c_bidx := c_insense_bidx ctx, c_page := c_insense_page ctx,
                c_insense_bidx := 0, c_insense_page := None\<rparr>)
      else (None, f, ctx))"
| "find_dentry_levels k lower cs level (Suc n) f ctx =
     (case hmdfs_in_level k lower cs level f ctx of
        (Some de, f1, ctx1) \<Rightarrow>
          (if c_insense_page ctx1 \<noteq> None
           then (Some de, hmdfs_unlock_file f1 (get_dentry_group_pos (c_insense_bidx ctx1)) DENTRYGROUP_SIZE,
                 ctx1\<lparr>c_insense_page := None\<rparr>)
           else (Some de, f1, ctx1))
      | (None, f1, ctx1) \<Rightarrow> find_dentry_levels k lower cs (level + 1) n f1 ctx1)"

definition hmdfs_find_dentry ::
  "kernel \<Rightarrow> (byte \<Rightarrow> byte) \<Rightarrow> bool \<Rightarrow> dcache_file \<Rightarrow> hmdfs_dcache_lookup_ctx
   \<Rightarrow> nat option \<times> dcache_file \<times> hmdfs_dcache_lookup_ctx" where
  "hmdfs_find_dentry k lower cs f ctx =
     find_dentry_levels k lower cs 0 (get_max_depth (f_size f)) f
       (ctx\<lparr>c_hash := hmdfs_dentry_hash lower cs (c_name ctx)\<rparr>)"

text \<open>
  The lookup of a name in the cached dentry file of its parent
  (\<open>lookup_remote_dentry\<close> of \<open>inode_remote.c\<close>); without a cached file there
  is no result.
\<close>

record hmdfs_lookup_ret =
  lr_size :: u64
  lr_mtime :: u64
  lr_mtime_nsec :: u32
  lr_mode :: u16
  lr_ino :: u64

definition lookup_ret_of :: "hmdfs_dentry \<Rightarrow> hmdfs_lookup_ret" where
  "lookup_ret_of de =
     \<lparr>lr_size = de_size de, lr_mtime = de_mtime de, lr_mtime_nsec = de_mtime_nsec de,
      lr_mode = de_mode de, lr_ino = de_ino de\<rparr>"

definition lookup_remote_dentry ::
  "kernel \<Rightarrow> (byte \<Rightarrow> byte) \<Rightarrow> bool \<Rightarrow> byte list \<Rightarrow> dcache_file option
   \<Rightarrow> hmdfs_lookup_ret option \<times> dcache_file option" where
  "lookup_remote_dentry k lower cs name cache_item =
     (case cache_item of
        None \<Rightarrow> (None, None)
      | Some f \<Rightarrow>
          if \<not> k_kmalloc k then (None, Some f)
          else case hmdfs_find_dentry k lower cs f (hmdfs_init_dcache_lookup_ctx name) of
            (None, f1, _) \<Rightarrow> (None, Some f1)
          | (Some p, f1, ctx) \<Rightarrow>
              (map_option (\<lambda>page. lookup_ret_of (nsl page ! p)) (c_page ctx),
               Some (hmdfs_unlock_file f1 (get_dentry_group_pos (c_bidx ctx)) DENTRYGROUP_SIZE)))"

section \<open>Creation\<close>

text \<open>
  The blocks of a bucket: an error, the group with room and the slot, or no
  room. After the read the position variable is past the group, and that is
  the position the unlock of a full group gets.
\<close>

datatype block_search = Search_Err int | Search_Add nat nat hmdfs_dentry_group | Search_Full

fun create_blocks ::
  "kernel \<Rightarrow> nat \<Rightarrow> nat \<Rightarrow> nat \<Rightarrow> dcache_file \<Rightarrow> block_search \<times> dcache_file" where
  "create_blocks k slots 0 bidx f = (Search_Full, f)"
| "create_blocks k slots (Suc n) bidx f =
     (let pos = get_dentry_group_pos bidx in
      case hmdfs_wlock_file k f pos DENTRYGROUP_SIZE of (ret, f1) \<Rightarrow>
        if ret \<noteq> 0 then (Search_Err ret, f1)
        else case cache_file_read k f1 pos of (sz, blk) \<Rightarrow>
          let pos1 = advance pos sz in
          if sz \<noteq> int DENTRYGROUP_SIZE
          then (Search_Err (- ENOSPC), hmdfs_unlock_file f1 pos1 DENTRYGROUP_SIZE)
          else let bit_pos = room_for_filename (bitmap blk) slots DENTRY_PER_GROUP in
            if bit_pos < DENTRY_PER_GROUP then (Search_Add bidx bit_pos blk, f1)
            else create_blocks k slots n (bidx + 1) (hmdfs_unlock_file f1 pos1 DENTRYGROUP_SIZE))"

definition create_add ::
  "kernel \<Rightarrow> child_dentry \<Rightarrow> inode_attr \<Rightarrow> u32 \<Rightarrow> nat \<Rightarrow> nat \<Rightarrow> hmdfs_dentry_group \<Rightarrow> dcache_file
   \<Rightarrow> dcache_file" where
  "create_add k c i namehash bidx bit_pos blk f =
     (let pos = get_dentry_group_pos bidx in
      case cache_file_write k f (update_dentry blk c i namehash bit_pos) pos of (sz, f1) \<Rightarrow>
        hmdfs_unlock_file f1 (advance pos sz) DENTRYGROUP_SIZE)"

function create_level ::
  "kernel \<Rightarrow> child_dentry \<Rightarrow> inode_attr \<Rightarrow> u32 \<Rightarrow> nat \<Rightarrow> dcache_file \<Rightarrow> int \<times> dcache_file" where
  "create_level k c i namehash level f =
     (if level \<ge> MAX_BUCKET_LEVEL then (- ENOSPC, f)
      else let bidx = BUCKET_BLOCKS * get_bucketaddr level (unat namehash mod get_bucket_by_level level);
               end_block = bidx + BUCKET_BLOCKS in
        case (if end_block > group_count f
              then cache_file_truncate k f (get_dcache_file_size level) else (0, f)) of (err, f1) \<Rightarrow>
          if err \<noteq> 0 then (- ENOSPC, f1)
          else case create_blocks k (get_dentry_slots (length (d_name c))) BUCKET_BLOCKS bidx f1 of
            (Search_Err e, f2) \<Rightarrow> (e, f2)
          | (Search_Add b bit_pos blk, f2) \<Rightarrow> (0, create_add k c i namehash b bit_pos blk f2)
          | (Search_Full, f2) \<Rightarrow> create_level k c i namehash (level + 1) f2)"
  by pat_completeness auto
termination by (relation "measure (\<lambda>(_, _, _, _, level, _). MAX_BUCKET_LEVEL - level)") auto

declare create_level.simps [simp del]

definition create_dentry ::
  "kernel \<Rightarrow> (byte \<Rightarrow> byte) \<Rightarrow> bool \<Rightarrow> child_dentry \<Rightarrow> inode_attr \<Rightarrow> dcache_file \<Rightarrow> int \<times> dcache_file" where
  "create_dentry k lower cs c i f =
     (if \<not> k_kmalloc k then (- ENOMEM, f)
      else create_level k c i (hmdfs_dentry_hash lower cs (d_name c)) 0 f)"

section \<open>Removal, update and renaming\<close>

definition hmdfs_delete_dentry ::
  "kernel \<Rightarrow> (byte \<Rightarrow> byte) \<Rightarrow> bool \<Rightarrow> byte list \<Rightarrow> dcache_file \<Rightarrow> dcache_file" where
  "hmdfs_delete_dentry k lower cs name f =
     (case hmdfs_find_dentry k lower cs f (hmdfs_init_dcache_lookup_ctx name) of
        (Some bit_pos, f1, ctx) \<Rightarrow>
          (case c_page ctx of
             Some page \<Rightarrow>
               (let ipos = get_dentry_group_pos (c_bidx ctx) in
                case cache_file_write k f1 (clear_dentry page bit_pos) ipos of (sz, f2) \<Rightarrow>
                  hmdfs_unlock_file f2 (advance ipos sz) DENTRYGROUP_SIZE)
           | None \<Rightarrow> f1)
      | (None, f1, _) \<Rightarrow> f1)"

text \<open>
  The part of \<open>update_inode_to_dentry\<close> after the cache file was found. Here the
  page is written by \<open>write_dentry_page\<close>, which gets the position by value.
\<close>

definition refresh_dentry :: "inode_attr \<Rightarrow> hmdfs_dentry \<Rightarrow> hmdfs_dentry" where
  "refresh_dentry i de =
     de\<lparr>de_mtime := i_mtime i, de_mtime_nsec := i_mtime_nsec i, de_size := i_size i,
        de_ino := generate_u64_ino (i_ino i) (i_generation i), de_flag := 0\<rparr>"

definition update_inode_in_file ::
  "kernel \<Rightarrow> (byte \<Rightarrow> byte) \<Rightarrow> bool \<Rightarrow> byte list \<Rightarrow> inode_attr \<Rightarrow> dcache_file \<Rightarrow> dcache_file" where
  "update_inode_in_file k lower cs name i f =
     (case hmdfs_find_dentry k lower cs f (hmdfs_init_dcache_lookup_ctx name) of
        (Some p, f1, ctx) \<Rightarrow>
          (case c_page ctx of
             Some page \<Rightarrow>
               (let ipos = get_dentry_group_pos (c_bidx ctx);
                    page' = page\<lparr>nsl := (nsl page)[p := refresh_dentry i (nsl page ! p)]\<rparr>;
                    f2 = snd (cache_file_write k f1 page' ipos)
                in hmdfs_unlock_file f2 ipos DENTRYGROUP_SIZE)
           | None \<Rightarrow> f1)
      | (None, f1, _) \<Rightarrow> f1)"

text \<open>The two files of a rename may be the same one: files are held in a store.\<close>

definition hmdfs_rename_dentry ::
  "kernel \<Rightarrow> (byte \<Rightarrow> byte) \<Rightarrow> bool \<Rightarrow> child_dentry \<Rightarrow> child_dentry \<Rightarrow> inode_attr \<Rightarrow> 'fid \<Rightarrow> 'fid
   \<Rightarrow> ('fid \<Rightarrow> dcache_file) \<Rightarrow> int \<times> ('fid \<Rightarrow> dcache_file)" where
  "hmdfs_rename_dentry k lower cs old_de new_de old_inode old_filp new_filp st =
     (let st1 = st(new_filp := hmdfs_delete_dentry k lower cs (d_name new_de) (st new_filp))
      in case create_dentry k lower cs new_de old_inode (st1 new_filp) of (ret, f2) \<Rightarrow>
        let st2 = st1(new_filp := f2) in
        if ret \<noteq> 0 then (ret, st2)
        else (0, st2(old_filp := hmdfs_delete_dentry k lower cs (d_name old_de) (st2 old_filp))))"

end
