(* ===== verification/Dentry_Store.thy ===== *)
theory Dentry_Store
  imports Dentry_File
begin

text \<open>
  A dentry file as a store of named entries: the invariant of a file, and what
  \<open>hmdfs_find_dentry\<close>, \<open>create_dentry\<close>, \<open>hmdfs_delete_dentry\<close> and
  \<open>hmdfs_rename_dentry\<close> do to its entries when the kernel calls succeed.
\<close>

section \<open>The pages of a file\<close>

definition group_range :: "nat \<Rightarrow> nat set" where
  "group_range b = {get_dentry_group_pos b..<get_dentry_group_pos b + DENTRYGROUP_SIZE}"

lemma group_pos_small [geometry_simps]: "b < 2 ^ 32 \<Longrightarrow> get_dentry_group_pos b = b * 4096 + 4096"
  by (simp add: get_dentry_group_pos_def)

lemma group_in_file:
  assumes "b < group_count f"
  shows "b < 2 ^ 32" and "get_dentry_group_pos b + DENTRYGROUP_SIZE \<le> f_size f"
    and "(get_dentry_group_pos b - DENTRYGROUP_HEADER) div DENTRYGROUP_SIZE = b"
proof -
  let ?x = "(f_size f - 4096) div 4096"
  have size: "4096 \<le> f_size f" "b < ?x mod 2 ^ 32"
    using assms by (auto simp: group_count_def get_dentry_group_cnt_def split: if_splits)
  then show b: "b < 2 ^ 32" by (meson less_trans mod_less_divisor zero_less_numeral zero_less_power)
  have "b < ?x" using size(2) mod_less_eq_dividend [of ?x "2 ^ 32"] by linarith
  then have "(b + 1) * 4096 \<le> f_size f - 4096"
    by (metis Suc_eq_plus1 Suc_leI div_times_less_eq_dividend le_trans mult_le_mono1)
  then show "get_dentry_group_pos b + DENTRYGROUP_SIZE \<le> f_size f"
    using size(1) b by (simp add: geometry_simps)
  show "(get_dentry_group_pos b - DENTRYGROUP_HEADER) div DENTRYGROUP_SIZE = b"
    using b by (simp add: geometry_simps)
qed

lemma kernel_ok_sel [simp]:
  "k_kmalloc kernel_ok" "k_wlock kernel_ok s = 0" "k_read kernel_ok s" "k_write kernel_ok s"
  "k_truncate kernel_ok len = (if len < 0 then - EINVAL else 0)"
  by (simp_all add: kernel_ok_def)

lemma wlock_ok: "hmdfs_wlock_file kernel_ok f start len =
    (0, f\<lparr>f_locked := f_locked f \<union> {start..<start + len}\<rparr>)"
  by (simp add: hmdfs_wlock_file_def)

lemma unlock_sel [simp]:
  "f_size (hmdfs_unlock_file f s n) = f_size f" "f_groups (hmdfs_unlock_file f s n) = f_groups f"
  "f_locked (hmdfs_unlock_file f s n) = f_locked f - {s..<s + n}"
  by (simp_all add: hmdfs_unlock_file_def)

lemma group_count_locked [simp]:
  "group_count (f\<lparr>f_locked := l\<rparr>) = group_count f" "group_count (hmdfs_unlock_file f s n) = group_count f"
  "group_count (f\<lparr>f_groups := gs\<rparr>) = group_count f"
  by (simp_all add: group_count_def)

lemma read_ok: "b < group_count f \<Longrightarrow>
    cache_file_read kernel_ok f (get_dentry_group_pos b) = (int DENTRYGROUP_SIZE, f_groups f ! b)"
  using group_in_file [of b f] by (simp add: cache_file_read_def)

lemma write_ok: "b < group_count f \<Longrightarrow>
    cache_file_write kernel_ok f g (get_dentry_group_pos b) =
      (int DENTRYGROUP_SIZE, f\<lparr>f_groups := (f_groups f)[b := g]\<rparr>)"
  using group_in_file [of b f] by (simp add: cache_file_write_def)

lemma find_dentry_page_ok: "b < group_count f \<Longrightarrow>
    find_dentry_page kernel_ok f b =
      (Some (f_groups f ! b), f\<lparr>f_locked := f_locked f \<union> group_range b\<rparr>)"
  using read_ok [of b "f\<lparr>f_locked := f_locked f \<union> group_range b\<rparr>"]
  by (simp add: find_dentry_page_def wlock_ok group_range_def Let_def)

lemma group_range_disjoint:
  assumes "b < 2 ^ 32" and "b' < 2 ^ 32" and "b \<noteq> b'"
  shows "group_range b \<inter> group_range b' = {}"
  using assms by (cases "b < b'") (auto simp: group_range_def geometry_simps)

section \<open>Lookup\<close>

text \<open>An entry that equals the name up to case.\<close>

definition insense_matches :: "(byte \<Rightarrow> byte) \<Rightarrow> hmdfs_dentry_group \<Rightarrow> u32 \<Rightarrow> byte list \<Rightarrow> nat \<Rightarrow> bool" where
  "insense_matches lower g h name i \<longleftrightarrow>
     head_slot g i \<and> de_hash (nsl g ! i) = h \<and> name_len g i = length name
     \<and> str_n_case_eq lower name (name_at g i)"

lemma str_n_case_eq_refl: "str_n_case_eq lower s s"
  by (induction s) auto

lemma entry_matches_insense: "wf_group g \<Longrightarrow> entry_matches g h name i \<Longrightarrow> insense_matches lower g h name i"
  using length_name_at by (auto simp: entry_matches_def insense_matches_def str_n_case_eq_refl)

lemma find_in_block_from_keeps:
  "snd (find_in_block_from lower g h name cs (Some x) p) = Some x"
proof -
  have "ins = Some x \<Longrightarrow> snd (find_in_block_from lower g h name cs ins p) = Some x" for ins
  proof (induction lower g h name cs ins p rule: find_in_block_from.induct)
    case (1 lower g h name cs ins p)
    then show ?case
      unfolding find_in_block_from.simps [of lower g h name cs ins p] Let_def
      by (auto split: if_splits)
  qed
  then show ?thesis by blast
qed

lemma find_in_block_from_insense:
  "wf_group g \<Longrightarrow> \<not> cs \<Longrightarrow> ins = None \<Longrightarrow> fst (find_in_block_from lower g h name cs ins p) = None \<Longrightarrow>
   snd (find_in_block_from lower g h name cs ins p) =
         find (insense_matches lower g h name) [p..<DENTRY_PER_GROUP]"
proof (induction lower g h name cs ins p rule: find_in_block_from.induct)
  case (1 lower g h name cs ins p)
  note wf = "1.prems"(1)
  note unfold = find_in_block_from.simps [of lower g h name cs ins p]
  let ?P = "insense_matches lower g h name"
  show ?case
  proof (cases "p < DENTRY_PER_GROUP")
    case False
    then show ?thesis unfolding unfold using "1.prems" by simp
  next
    case p: True
    have skip: "find ?P [p..<DENTRY_PER_GROUP] = find ?P [p + 1..<DENTRY_PER_GROUP]" if "\<not> head_slot g p"
      by (rule find_upt_skip) (use p that in \<open>auto simp: insense_matches_def le_Suc_eq less_Suc_eq\<close>)
    show ?thesis
    proof (cases "head_slot g p")
      case False
      show ?thesis
      proof (cases "test_bit_le p (bitmap g)")
        case False
        then show ?thesis using "1.IH"(1) "1.prems" p skip \<open>\<not> head_slot g p\<close> unfolding unfold by simp
      next
        case True
        then have "unat (de_namelen (nsl g ! p)) = 0"
          using False p by (simp add: head_slot_def)
        then show ?thesis using "1.IH"(2) "1.prems" p skip False True unfolding unfold by simp
      qed
    next
      case head: True
      then have t: "test_bit_le p (bitmap g)" and nl: "unat (de_namelen (nsl g ! p)) \<noteq> 0"
        using name_len_pos [OF head] by (simp_all add: head_slot_def name_len_def)
      let ?miss = "\<not> (de_hash (nsl g ! p) = h \<and> unat (de_namelen (nsl g ! p)) = length name \<and>
        name_bytes g p (unat (de_namelen (nsl g ! p))) = name)"
      have miss: "?miss" using "1.prems"(4) p t nl unfolding unfold by (auto simp: Let_def)
      let ?q = "p + get_dentry_slots (name_len g p)"
      let ?ins = "if ?P p then Some p else None"
      have step: "find_in_block_from lower g h name cs ins p = find_in_block_from lower g h name cs ?ins ?q"
        unfolding unfold Let_def insense_matches_def name_len_def name_at_def
        by (simp only: p t nl miss "1.prems"(2,3) head if_True if_False simp_thms)
      show ?thesis
      proof (cases "?P p")
        case True
        then have "snd (find_in_block_from lower g h name cs ins p) = Some p"
          using step find_in_block_from_keeps by simp
        then show ?thesis using True p by (simp only: find_upt_hit)
      next
        case False
        have "find ?P [p..<DENTRY_PER_GROUP] = find ?P [?q..<DENTRY_PER_GROUP]"
        proof (rule find_upt_skip)
          show "\<not> ?P k" if "p \<le> k" "k < ?q" for k
            using that False wf_groupD(3) [OF wf head, of k]
            by (cases "k = p") (auto simp: insense_matches_def)
        qed (use wf_groupD(1) [OF wf head] in auto)
        moreover have "snd (find_in_block_from lower g h name cs None ?q) = find ?P [?q..<DENTRY_PER_GROUP]"
        proof -
          have none: "(if ins = None \<and> \<not> cs \<and> de_hash (nsl g ! p) = h \<and> unat (de_namelen (nsl g ! p)) = length name
              \<and> str_n_case_eq lower name (name_bytes g p (unat (de_namelen (nsl g ! p)))) then Some p else ins) = None"
            using False head "1.prems"(3) by (auto simp: insense_matches_def name_len_def name_at_def)
          have "fst (find_in_block_from lower g h name cs None ?q) = None"
            using step False "1.prems"(4) by simp
          then show ?thesis
            using "1.IH"(3) [OF p _ refl refl nl miss, unfolded none] t wf "1.prems"(2) by (simp only: name_len_def simp_thms)
        qed
        ultimately show ?thesis using step False by simp
      qed
    qed
  qed
qed

text \<open>What one call of \<open>find_in_block\<close> reports about a group.\<close>

lemma find_in_block_insense:
  assumes "wf_group g" and "fst (find_in_block lower g h name cs ins) = None"
  shows "snd (find_in_block lower g h name cs ins) =
    (if cs \<or> ins \<noteq> None then ins else find (insense_matches lower g h name) [0..<DENTRY_PER_GROUP])"
proof (cases "cs \<or> ins \<noteq> None")
  case True
  then show ?thesis
    using find_in_block_sensitive find_in_block_from_keeps by (auto simp: find_in_block_def)
next
  case False
  then show ?thesis
    using find_in_block_from_insense [OF assms(1), of cs ins lower h name 0] assms(2)
    by (simp add: find_in_block_def)
qed

text \<open>
  The pages a file holds are those of its size, and each of them is well formed;
  \<open>hit\<close> is an exact match and \<open>near\<close> a match up to case.
\<close>

definition pages_ok :: "dcache_file \<Rightarrow> bool" where
  "pages_ok f \<longleftrightarrow> length (f_groups f) = group_count f \<and> (\<forall>b < group_count f. wf_group (f_groups f ! b))"

definition hit :: "dcache_file \<Rightarrow> hmdfs_dcache_lookup_ctx \<Rightarrow> nat \<Rightarrow> nat \<Rightarrow> bool" where
  "hit f ctx b p \<longleftrightarrow> entry_matches (f_groups f ! b) (c_hash ctx) (c_name ctx) p"

definition near :: "(byte \<Rightarrow> byte) \<Rightarrow> dcache_file \<Rightarrow> hmdfs_dcache_lookup_ctx \<Rightarrow> nat \<Rightarrow> nat \<Rightarrow> bool" where
  "near lower f ctx b p \<longleftrightarrow> insense_matches lower (f_groups f ! b) (c_hash ctx) (c_name ctx) p"

text \<open>The state between two blocks: the kept near match, if any, and its lock.\<close>

definition ctx_ok :: "(byte \<Rightarrow> byte) \<Rightarrow> bool \<Rightarrow> dcache_file \<Rightarrow> hmdfs_dcache_lookup_ctx \<Rightarrow> bool" where
  "ctx_ok lower cs f ctx \<longleftrightarrow>
     (case c_insense_de ctx of
        None \<Rightarrow> c_insense_page ctx = None
      | Some p \<Rightarrow> \<not> cs \<and> c_insense_bidx ctx < group_count f \<and> near lower f ctx (c_insense_bidx ctx) p
          \<and> c_insense_page ctx = Some (f_groups f ! c_insense_bidx ctx))"

definition held :: "hmdfs_dcache_lookup_ctx \<Rightarrow> nat set" where
  "held ctx = (if c_insense_de ctx = None then {} else group_range (c_insense_bidx ctx))"

definition same_file :: "dcache_file \<Rightarrow> dcache_file \<Rightarrow> bool" where
  "same_file f f' \<longleftrightarrow> f_size f' = f_size f \<and> f_groups f' = f_groups f"

definition same_query :: "hmdfs_dcache_lookup_ctx \<Rightarrow> hmdfs_dcache_lookup_ctx \<Rightarrow> bool" where
  "same_query ctx ctx' \<longleftrightarrow> c_hash ctx' = c_hash ctx \<and> c_name ctx' = c_name ctx"

lemma same_file_rules [simp]:
  "same_file f f" "same_file f (f\<lparr>f_locked := l\<rparr>)" "same_file f (hmdfs_unlock_file f s n)"
  by (simp_all add: same_file_def)

lemma same_file_trans [trans]: "same_file f f1 \<Longrightarrow> same_file f1 f2 \<Longrightarrow> same_file f f2"
  by (simp add: same_file_def)

lemma same_file_count: "same_file f f' \<Longrightarrow> group_count f' = group_count f"
  by (simp add: same_file_def group_count_def)

lemma same_file_cong:
  assumes "same_file f f'" and "same_query ctx ctx'"
  shows "pages_ok f' = pages_ok f" and "hit f' ctx' b p = hit f ctx b p"
    and "near lower f' ctx' b p = near lower f ctx b p"
  using assms by (simp_all add: pages_ok_def hit_def near_def same_query_def same_file_def group_count_def)

text \<open>The result of a search of some blocks, \<open>B\<close>, that found the file and the context as given.\<close>

definition searched ::
  "(byte \<Rightarrow> byte) \<Rightarrow> bool \<Rightarrow> nat set \<Rightarrow> dcache_file \<Rightarrow> hmdfs_dcache_lookup_ctx
   \<Rightarrow> nat option \<times> dcache_file \<times> hmdfs_dcache_lookup_ctx \<Rightarrow> bool" where
  "searched lower cs B f ctx res = (case res of (r, f', ctx') \<Rightarrow>
     same_file f f' \<and> same_query ctx ctx' \<and> ctx_ok lower cs f ctx' \<and>
     (case r of
        Some p \<Rightarrow> c_bidx ctx' \<in> B \<and> hit f ctx (c_bidx ctx') p
          \<and> c_page ctx' = Some (f_groups f ! c_bidx ctx')
          \<and> (f_locked f = held ctx \<longrightarrow> f_locked f' = held ctx' \<union> group_range (c_bidx ctx'))
          \<and> (c_insense_de ctx' \<noteq> None \<longrightarrow> c_insense_bidx ctx' \<noteq> c_bidx ctx')
      | None \<Rightarrow> (\<forall>b\<in>B. \<forall>p. \<not> hit f ctx b p)
          \<and> (f_locked f = held ctx \<longrightarrow> f_locked f' = held ctx')
          \<and> (c_insense_de ctx' = None \<longrightarrow> c_insense_de ctx = None \<and>
               (cs \<or> (\<forall>b\<in>B. \<forall>p. \<not> near lower f ctx b p)))
          \<and> (c_insense_de ctx \<noteq> None \<longrightarrow> c_insense_bidx ctx' = c_insense_bidx ctx \<and> c_insense_de ctx' = c_insense_de ctx)
          \<and> (c_insense_de ctx = None \<and> c_insense_de ctx' \<noteq> None \<longrightarrow> c_insense_bidx ctx' \<in> B)))"

lemma searched_trans:
  assumes "searched lower cs B f ctx (None, f1, ctx1)" and "searched lower cs B' f1 ctx1 res"
  shows "searched lower cs (B \<union> B') f ctx res"
proof -
  obtain r f' ctx' where res: "res = (r, f', ctx')" by (cases res) auto
  have sf: "same_file f f1" and sq: "same_query ctx ctx1" using assms(1) by (auto simp: searched_def)
  note cong = same_file_cong [OF sf sq]
  have ok: "ctx_ok lower cs f1 ctx' = ctx_ok lower cs f ctx'"
    using sf by (simp add: ctx_ok_def near_def same_file_def group_count_def split: option.splits)
  have groups: "f_groups f1 = f_groups f" using sf by (simp add: same_file_def)
  have tr: "same_file f f'" "same_query ctx ctx'"
    using assms(2) sf sq unfolding res searched_def by (auto simp: same_file_def same_query_def)
  note a1 = assms(1) [unfolded searched_def prod.case option.case]
  note a2 = assms(2) [unfolded res searched_def prod.case cong ok groups]
  show ?thesis
  proof (cases r)
    case None
    show ?thesis
      unfolding res searched_def prod.case None option.case
      using a1 a2 [unfolded None option.case] tr by (intro conjI) (metis Un_iff)+
  next
    case (Some p)
    show ?thesis
      unfolding res searched_def prod.case Some option.case
      using a1 a2 [unfolded Some option.case] tr by (intro conjI) (metis Un_iff)+
  qed
qed

lemma held_disjoint:
  assumes "ctx_ok lower cs f ctx" and "b < group_count f" and "c_insense_de ctx \<noteq> None \<Longrightarrow> c_insense_bidx ctx < b"
  shows "held ctx \<inter> group_range b = {}"
proof (cases "c_insense_de ctx")
  case (Some p)
  then have "c_insense_bidx ctx < group_count f" using assms(1) by (simp add: ctx_ok_def)
  then show ?thesis
    using Some assms(3) group_in_file(1) [OF assms(2)] group_in_file(1) [of "c_insense_bidx ctx" f]
      group_range_disjoint [of "c_insense_bidx ctx" b] by (simp add: held_def)
qed (simp add: held_def)

lemma block_missed:
  assumes pages: "pages_ok f" and b: "b < group_count f" and ctx: "ctx_ok lower cs f ctx"
    and tmp: "tmp \<noteq> None \<Longrightarrow> c_insense_de ctx \<noteq> None"
    and below: "c_insense_de ctx \<noteq> None \<Longrightarrow> c_insense_bidx ctx < b"
    and miss: "find_in_block lower (f_groups f ! b) (c_hash ctx) (c_name ctx) cs tmp = (None, tmp')"
  defines "f1 \<equiv> f\<lparr>f_locked := f_locked f \<union> group_range b\<rparr>"
  shows "c_insense_de ctx = None \<Longrightarrow> tmp' \<noteq> None \<Longrightarrow>
      searched lower cs {b} f ctx (None, f1,
        ctx\<lparr>c_insense_de := tmp', c_insense_page := Some (f_groups f ! b), c_insense_bidx := b\<rparr>)"
    and "\<not> (c_insense_de ctx = None \<and> tmp' \<noteq> None) \<Longrightarrow>
      searched lower cs {b} f ctx (None, hmdfs_unlock_file f1 (get_dentry_group_pos b) DENTRYGROUP_SIZE, ctx)"
proof -
  have wf: "wf_group (f_groups f ! b)" using pages b by (simp add: pages_ok_def)
  have nohit: "\<not> hit f ctx b p" for p
    using find_in_block_None [OF wf, of lower "c_hash ctx" "c_name ctx" cs tmp p] miss
    by (simp add: hit_def)
  have tmp': "tmp' = (if cs \<or> tmp \<noteq> None then tmp else find (near lower f ctx b) [0..<DENTRY_PER_GROUP])"
    using find_in_block_insense [OF wf, of lower "c_hash ctx" "c_name ctx" cs tmp] miss
    by (simp add: near_def [abs_def])
  show "searched lower cs {b} f ctx (None, f1,
        ctx\<lparr>c_insense_de := tmp', c_insense_page := Some (f_groups f ! b), c_insense_bidx := b\<rparr>)"
    if none: "c_insense_de ctx = None" and some: "tmp' \<noteq> None"
  proof -
    have "tmp = None" using tmp none by blast
    then have "\<not> cs" and fnd: "tmp' = find (near lower f ctx b) [0..<DENTRY_PER_GROUP]"
      using some tmp' by (auto split: if_splits)
    moreover obtain p where p: "tmp' = Some p" using some by blast
    ultimately have "near lower f ctx b p" by (metis find_Some_iff)
    then show ?thesis
      using p none b nohit \<open>\<not> cs\<close>
      by (simp add: searched_def f1_def same_query_def ctx_ok_def near_def held_def)
  qed
  show "searched lower cs {b} f ctx (None, hmdfs_unlock_file f1 (get_dentry_group_pos b) DENTRYGROUP_SIZE, ctx)"
    if keep: "\<not> (c_insense_de ctx = None \<and> tmp' \<noteq> None)"
  proof -
    have "cs \<or> (\<forall>p. \<not> near lower f ctx b p)" if none: "c_insense_de ctx = None"
    proof (cases cs)
      case False
      then have "find (near lower f ctx b) [0..<DENTRY_PER_GROUP] = None"
        using tmp' tmp none keep by (metis (full_types))
      then have "\<not> near lower f ctx b p" if "p < DENTRY_PER_GROUP" for p
        using that by (auto simp: find_None_iff)
      then show ?thesis by (auto simp: near_def insense_matches_def head_slot_def)
    qed simp
    moreover have "held ctx \<union> group_range b - group_range b = held ctx"
      using held_disjoint [OF ctx b below] by blast
    ultimately show ?thesis
      using nohit ctx by (auto simp: searched_def f1_def same_query_def same_file_def group_range_def)
  qed
qed

lemma in_level_blocks_searched:
  "pages_ok f \<Longrightarrow> bidx + n \<le> group_count f \<Longrightarrow> ctx_ok lower cs f ctx \<Longrightarrow>
   (tmp \<noteq> None \<Longrightarrow> c_insense_de ctx \<noteq> None) \<Longrightarrow>
   (c_insense_de ctx \<noteq> None \<Longrightarrow> c_insense_bidx ctx < bidx) \<Longrightarrow>
   searched lower cs {bidx..<bidx + n} f ctx (in_level_blocks kernel_ok lower cs n bidx f ctx tmp)"
proof (induction n arbitrary: bidx f ctx tmp)
  case 0
  then show ?case
    by (simp add: searched_def same_query_def ctx_ok_def near_def held_def split: option.splits)
next
  case (Suc n)
  have b: "bidx < group_count f" using Suc.prems(2) by simp
  have wf: "wf_group (f_groups f ! bidx)" using Suc.prems(1) b by (simp add: pages_ok_def)
  let ?f1 = "f\<lparr>f_locked := f_locked f \<union> group_range bidx\<rparr>"
  let ?fib = "find_in_block lower (f_groups f ! bidx) (c_hash ctx) (c_name ctx) cs tmp"
  note page = find_dentry_page_ok [OF b]
  have range: "{bidx..<bidx + Suc n} = {bidx} \<union> {bidx + 1..<bidx + 1 + n}" by auto
  have next_ok: "searched lower cs {bidx..<bidx + Suc n} f ctx (in_level_blocks kernel_ok lower cs n (bidx + 1) f2 ctx2 tmp2)"
    if s: "searched lower cs {bidx} f ctx (None, f2, ctx2)"
      and tmp2: "tmp2 \<noteq> None \<Longrightarrow> c_insense_de ctx2 \<noteq> None" for f2 ctx2 tmp2
  proof -
    have sf: "same_file f f2" and sq: "same_query ctx ctx2" and "ctx_ok lower cs f ctx2"
      using s by (auto simp: searched_def)
    moreover have "ctx_ok lower cs f2 ctx2 = ctx_ok lower cs f ctx2"
      using sf by (simp add: ctx_ok_def near_def same_file_def group_count_def split: option.splits)
    moreover have "c_insense_bidx ctx2 < bidx + 1" if "c_insense_de ctx2 \<noteq> None"
      using s that Suc.prems(5) by (cases "c_insense_de ctx") (auto simp: searched_def)
    ultimately show ?thesis
      unfolding range
      using searched_trans [OF s] Suc.IH [of f2 "bidx + 1" ctx2 tmp2] tmp2 Suc.prems(1,2)
        same_file_cong(1) [OF sf sq] same_file_count [OF sf] by simp
  qed
  show ?case
  proof (cases ?fib)
    case (Pair r tmp')
    show ?thesis
    proof (cases r)
      case (Some de)
      then have "hit f ctx bidx de"
        using find_in_block_Some [OF wf, of lower "c_hash ctx" "c_name ctx" cs tmp de] Pair
        by (simp add: hit_def)
      then show ?thesis
        using Suc.prems(3,5) Pair Some page
        by (auto simp: searched_def same_query_def ctx_ok_def near_def held_def split: option.splits)
    next
      case None
      note missed = block_missed [OF Suc.prems(1) b Suc.prems(3,4,5) Pair [unfolded None]]
      show ?thesis
      proof (cases "c_insense_de ctx = None \<and> tmp' \<noteq> None")
        case True
        then show ?thesis
          using next_ok [OF missed(1), of tmp'] Pair None page by simp
      next
        case False
        then have "tmp' \<noteq> None \<longrightarrow> c_insense_de ctx \<noteq> None" by auto
        then show ?thesis
          using next_ok [OF missed(2) [OF _ _ False], of tmp'] False Pair None page by auto
      qed
    qed
  qed
qed

subsection \<open>The levels\<close>

definition bucket_of :: "u32 \<Rightarrow> nat \<Rightarrow> nat set" where
  "bucket_of h level = {2 * get_bucketaddr level (unat h mod 2 ^ level)..<2 * get_bucketaddr level (unat h mod 2 ^ level) + 2}"

definition buckets_below :: "u32 \<Rightarrow> nat \<Rightarrow> nat set" where
  "buckets_below h level = (\<Union>l<level. bucket_of h l)"

lemma bucket_bounds:
  assumes "level < MAX_BUCKET_LEVEL" and "b \<in> bucket_of h level"
  shows "2 * (2 ^ level - 1) \<le> b" and "b < 2 * (2 ^ (level + 1) - 1)"
proof -
  let ?o = "unat h mod 2 ^ level"
  have o: "?o < 2 ^ level" by simp
  note bounds = bucketaddr_level_bounds [OF assms(1) o]
  show "2 * (2 ^ level - 1) \<le> b" "b < 2 * (2 ^ (level + 1) - 1)"
    using bounds assms(2) unfolding bucket_of_def by auto
qed

lemma buckets_below_bound:
  assumes "b \<in> buckets_below h level" and "level \<le> MAX_BUCKET_LEVEL"
  shows "b < 2 * (2 ^ level - 1)"
proof -
  obtain l where l: "l < level" "b \<in> bucket_of h l" using assms(1) by (auto simp: buckets_below_def)
  then have "b < 2 * (2 ^ (l + 1) - 1)" using bucket_bounds(2) [of l b h] assms(2) by simp
  moreover have "(2::nat) ^ (l + 1) \<le> 2 ^ level" using l(1) by (intro power_increasing) auto
  ultimately show ?thesis by linarith
qed

lemma buckets_below_Suc: "buckets_below h (Suc level) = buckets_below h level \<union> bucket_of h level"
  by (auto simp: buckets_below_def less_Suc_eq)

lemma in_level_searched:
  assumes "pages_ok f" and "ctx_ok lower cs f ctx" and count: "group_count f = 2 * (2 ^ depth - 1)"
    and level: "level < depth" "depth \<le> 31"
    and below: "c_insense_de ctx \<noteq> None \<Longrightarrow> c_insense_bidx ctx < 2 * (2 ^ level - 1)"
  shows "searched lower cs (bucket_of (c_hash ctx) level) f ctx (hmdfs_in_level kernel_ok lower cs level f ctx)"
proof -
  let ?a = "get_bucketaddr level (unat (c_hash ctx) mod 2 ^ level)"
  have lt: "level < MAX_BUCKET_LEVEL" using level by simp
  have m: "?a * 2 + 1 \<in> bucket_of (c_hash ctx) level" "?a * 2 \<in> bucket_of (c_hash ctx) level"
    by (auto simp: bucket_of_def)
  note high = bucket_bounds(2) [OF lt m(1)] and low = bucket_bounds(1) [OF lt m(2)]
  have "(2::nat) ^ (level + 1) \<le> 2 ^ depth" using level by (intro power_increasing) auto
  then have "?a * 2 + 2 \<le> group_count f" using count high by linarith
  then have "searched lower cs {?a * 2..<?a * 2 + 2} f ctx
      (in_level_blocks kernel_ok lower cs 2 (?a * 2) f ctx None)"
    by (rule in_level_blocks_searched [OF assms(1) _ assms(2)])
      (use below low in \<open>auto intro: less_le_trans\<close>)
  moreover have "get_bucket_by_level level = 2 ^ level" using level by (simp add: get_bucket_by_level_def)
  ultimately show ?thesis
    by (simp add: hmdfs_in_level_def bucket_of_def mult.commute Let_def)
qed

text \<open>The result of a lookup over the blocks \<open>B\<close>.\<close>

definition looked_up ::
  "(byte \<Rightarrow> byte) \<Rightarrow> bool \<Rightarrow> nat set \<Rightarrow> dcache_file \<Rightarrow> hmdfs_dcache_lookup_ctx
   \<Rightarrow> nat option \<times> dcache_file \<times> hmdfs_dcache_lookup_ctx \<Rightarrow> bool" where
  "looked_up lower cs B f ctx res = (case res of (r, f', ctx') \<Rightarrow>
     same_file f f' \<and>
     (case r of
        Some p \<Rightarrow> c_bidx ctx' < group_count f \<and> c_page ctx' = Some (f_groups f ! c_bidx ctx')
          \<and> (hit f ctx (c_bidx ctx') p \<or>
               \<not> cs \<and> near lower f ctx (c_bidx ctx') p \<and> (\<forall>b\<in>B. \<forall>q. \<not> hit f ctx b q))
          \<and> (f_locked f = {} \<longrightarrow> f_locked f' = group_range (c_bidx ctx'))
      | None \<Rightarrow> (\<forall>b\<in>B. \<forall>q. \<not> hit f ctx b q) \<and> (cs \<or> (\<forall>b\<in>B. \<forall>q. \<not> near lower f ctx b q))
          \<and> (f_locked f = {} \<longrightarrow> f_locked f' = {})))"

lemma searched_looked_up_None:
  assumes "searched lower cs B f ctx (None, f1, ctx1)" and "c_insense_de ctx = None"
  shows "looked_up lower cs B f ctx (find_dentry_levels k lower cs level 0 f1 ctx1)"
proof (cases "c_insense_de ctx1")
  case None
  then show ?thesis
    using assms by (simp add: searched_def looked_up_def held_def)
next
  case (Some p)
  then show ?thesis
    using assms by (auto simp: searched_def looked_up_def held_def ctx_ok_def same_query_def near_def)
qed

lemma searched_looked_up_Some:
  assumes s: "searched lower cs B f ctx (Some p, f1, ctx1)" and none: "c_insense_de ctx = None"
    and B: "\<And>b. b \<in> B \<Longrightarrow> b < group_count f"
  shows "looked_up lower cs B' f ctx
     (if c_insense_page ctx1 \<noteq> None
      then (Some p, hmdfs_unlock_file f1 (get_dentry_group_pos (c_insense_bidx ctx1)) DENTRYGROUP_SIZE,
            ctx1\<lparr>c_insense_page := None\<rparr>)
      else (Some p, f1, ctx1))"
proof (cases "c_insense_de ctx1")
  case None
  then show ?thesis
    using s none B by (auto simp: searched_def looked_up_def held_def ctx_ok_def)
next
  case (Some q)
  let ?i = "c_insense_bidx ctx1" and ?b = "c_bidx ctx1"
  have page: "c_insense_page ctx1 \<noteq> None" and i: "?i < group_count f" and b: "?b < group_count f" and ne: "?i \<noteq> ?b"
    using s Some B by (auto simp: searched_def ctx_ok_def)
  have "(group_range ?i \<union> group_range ?b) - group_range ?i = group_range ?b"
    using group_range_disjoint [OF group_in_file(1) [OF i] group_in_file(1) [OF b] ne] by blast
  then show ?thesis
    using s Some none B page b
    by (auto simp: searched_def looked_up_def held_def group_range_def same_file_def)
qed

lemma find_dentry_levels_looked_up:
  assumes pages: "pages_ok f0" and count: "group_count f0 = 2 * (2 ^ depth - 1)" and depth: "depth \<le> 31"
    and none: "c_insense_de ctx0 = None"
  shows "level + n = depth \<Longrightarrow>
    searched lower cs (buckets_below (c_hash ctx0) level) f0 ctx0 (None, f, ctx) \<Longrightarrow>
    looked_up lower cs (buckets_below (c_hash ctx0) depth) f0 ctx0
      (find_dentry_levels kernel_ok lower cs level n f ctx)"
proof (induction n arbitrary: level f ctx)
  case 0
  then show ?case using searched_looked_up_None [OF _ none] by simp
next
  case (Suc n)
  have sf: "same_file f0 f" and sq: "same_query ctx0 ctx" and "ctx_ok lower cs f0 ctx"
    using Suc.prems(2) by (auto simp: searched_def)
  then have ok: "ctx_ok lower cs f ctx"
    by (simp add: ctx_ok_def near_def same_file_def group_count_def split: option.splits)
  have "c_insense_bidx ctx < 2 * (2 ^ level - 1)" if "c_insense_de ctx \<noteq> None"
    using that none Suc.prems depth buckets_below_bound [of "c_insense_bidx ctx" "c_hash ctx0" level]
    by (simp add: searched_def)
  then have "searched lower cs (bucket_of (c_hash ctx0) level) f ctx (hmdfs_in_level kernel_ok lower cs level f ctx)"
    using in_level_searched [OF _ ok, of depth level] Suc.prems(1) depth count pages sq
      same_file_count [OF sf] same_file_cong(1) [OF sf sq] by (simp add: same_query_def)
  note step = searched_trans [OF Suc.prems(2) this, folded buckets_below_Suc]
  obtain r f1 ctx1 where res: "hmdfs_in_level kernel_ok lower cs level f ctx = (r, f1, ctx1)"
    by (cases "hmdfs_in_level kernel_ok lower cs level f ctx") auto
  show ?case
  proof (cases r)
    case None
    then show ?thesis using Suc.IH [of "level + 1" f1 ctx1] Suc.prems(1) step res by simp
  next
    case (Some p)
    have "b < group_count f0" if "b \<in> buckets_below (c_hash ctx0) (Suc level)" for b
    proof -
      have "(2::nat) ^ Suc level \<le> 2 ^ depth" using Suc.prems(1) by (intro power_increasing) auto
      then show ?thesis
        using buckets_below_bound [OF that] Suc.prems(1) depth count by simp
    qed
    then show ?thesis
      using searched_looked_up_Some [OF step [unfolded res Some] none] res Some by simp
  qed
qed

section \<open>Files\<close>

abbreviation depth :: "dcache_file \<Rightarrow> nat" where
  "depth f \<equiv> get_max_depth (f_size f)"

definition file_entry :: "dcache_file \<Rightarrow> nat \<times> nat \<Rightarrow> (byte list \<times> hmdfs_dentry) option" where
  "file_entry f = (\<lambda>(b, p). if b < group_count f then entry_at (f_groups f ! b) p else None)"

text \<open>An entry is in one of the buckets of its hash, and the hash is that of its name.\<close>

definition wf_file :: "(byte \<Rightarrow> byte) \<Rightarrow> bool \<Rightarrow> dcache_file \<Rightarrow> bool" where
  "wf_file lower cs f \<longleftrightarrow>
     pages_ok f \<and> depth f \<le> 31 \<and> group_count f = 2 * (2 ^ depth f - 1) \<and>
     (\<forall>b p nm de. file_entry f (b, p) = Some (nm, de) \<longrightarrow>
        de_hash de = hmdfs_dentry_hash lower cs nm \<and> b \<in> buckets_below (de_hash de) (depth f))"

definition same_name :: "(byte \<Rightarrow> byte) \<Rightarrow> bool \<Rightarrow> byte list \<Rightarrow> byte list \<Rightarrow> bool" where
  "same_name lower cs a b \<longleftrightarrow> a = b \<or> \<not> cs \<and> map lower a = map lower b"

lemma str_n_case_eq_map:
  "length a = length b \<Longrightarrow> 0 \<notin> lower ` set a \<Longrightarrow> str_n_case_eq lower a b \<longleftrightarrow> map lower a = map lower b"
  by (induction a b rule: list_induct2) auto

lemma find_dentry_looked_up:
  assumes "wf_file lower cs f"
  shows "looked_up lower cs (buckets_below (hmdfs_dentry_hash lower cs name) (depth f)) f
     ((hmdfs_init_dcache_lookup_ctx name)\<lparr>c_hash := hmdfs_dentry_hash lower cs name\<rparr>)
     (hmdfs_find_dentry kernel_ok lower cs f (hmdfs_init_dcache_lookup_ctx name))"
proof -
  let ?ctx = "(hmdfs_init_dcache_lookup_ctx name)\<lparr>c_hash := hmdfs_dentry_hash lower cs name\<rparr>"
  have "searched lower cs (buckets_below (c_hash ?ctx) 0) f ?ctx (None, f, ?ctx)"
    by (simp add: searched_def buckets_below_def same_query_def ctx_ok_def hmdfs_init_dcache_lookup_ctx_def)
  then show ?thesis
    using find_dentry_levels_looked_up [of f "depth f" ?ctx 0 "depth f"] assms
    by (simp add: hmdfs_find_dentry_def wf_file_def hmdfs_init_dcache_lookup_ctx_def)
qed

lemma same_file_entry: "same_file f f' \<Longrightarrow> file_entry f' = file_entry f"
  by (auto simp: file_entry_def same_file_def group_count_def)

lemma same_file_wf: "same_file f f' \<Longrightarrow> wf_file lower cs f' = wf_file lower cs f"
  using same_file_entry [of f f'] by (simp add: wf_file_def pages_ok_def same_file_def group_count_def)

lemma wf_file_entryD:
  assumes "wf_file lower cs f" and "file_entry f (b, p) = Some (nm, de)"
  shows "de_hash de = hmdfs_dentry_hash lower cs nm" and "b \<in> buckets_below (de_hash de) (depth f)"
    and "b < group_count f" and "entry_at (f_groups f ! b) p = Some (nm, de)"
    and "wf_group (f_groups f ! b)" and "head_slot (f_groups f ! b) p"
proof -
  show b: "b < group_count f" and e: "entry_at (f_groups f ! b) p = Some (nm, de)"
    using assms(2) by (auto simp: file_entry_def split: if_splits)
  show "wf_group (f_groups f ! b)" using assms(1) b by (simp add: wf_file_def pages_ok_def)
  show "head_slot (f_groups f ! b) p" using e by (auto simp: entry_at_def split: if_splits)
  show "de_hash de = hmdfs_dentry_hash lower cs nm" and "b \<in> buckets_below (de_hash de) (depth f)"
    using assms unfolding wf_file_def by blast+
qed

subsection \<open>Writing one group\<close>

definition put_group :: "dcache_file \<Rightarrow> nat \<Rightarrow> hmdfs_dentry_group \<Rightarrow> dcache_file" where
  "put_group f b g = f\<lparr>f_groups := (f_groups f)[b := g]\<rparr>"

lemma put_group_sel [simp]:
  "f_size (put_group f b g) = f_size f" "f_groups (put_group f b g) = (f_groups f)[b := g]"
  "f_locked (put_group f b g) = f_locked f" "group_count (put_group f b g) = group_count f"
  by (simp_all add: put_group_def)

lemma put_group_entry:
  assumes "pages_ok f" and "b < group_count f"
  shows "file_entry (put_group f b g) (b', p) = (if b' = b then entry_at g p else file_entry f (b', p))"
  using assms by (auto simp: file_entry_def pages_ok_def)

lemma put_group_wf:
  assumes wf: "wf_file lower cs f" and b: "b < group_count f" and g: "wf_group g"
    and ents: "\<And>p nm de. entry_at g p = Some (nm, de) \<Longrightarrow>
      de_hash de = hmdfs_dentry_hash lower cs nm \<and> b \<in> buckets_below (de_hash de) (depth f)"
  shows "wf_file lower cs (put_group f b g)"
proof -
  have pages: "pages_ok f" using wf by (simp add: wf_file_def)
  then have "pages_ok (put_group f b g)"
    using b g by (auto simp: pages_ok_def nth_list_update)
  moreover have "de_hash de = hmdfs_dentry_hash lower cs nm \<and> b' \<in> buckets_below (de_hash de) (depth f)"
    if "file_entry (put_group f b g) (b', p) = Some (nm, de)" for b' p nm de
    using that put_group_entry [OF pages b, of g b' p] ents wf_file_entryD(1,2) [OF wf, of b' p nm de]
    by (metis (no_types))
  ultimately show ?thesis using wf unfolding wf_file_def put_group_sel by blast
qed

subsection \<open>Creation\<close>

lemma room_for_filename_fits:
  assumes "name \<noteq> []" and "room_for_filename (bitmap g) (get_dentry_slots (length name)) DENTRY_PER_GROUP < DENTRY_PER_GROUP"
  shows "fits_at g name (room_for_filename (bitmap g) (get_dentry_slots (length name)) DENTRY_PER_GROUP)"
  using room_for_filename_from_sound [of "bitmap g" "get_dentry_slots (length name)" DENTRY_PER_GROUP 0] assms
  by (auto simp: room_for_filename_def fits_at_def Let_def)

lemma room_in_zero_group:
  assumes "name \<noteq> []" and "length name \<le> NAME_MAX"
  shows "room_for_filename (bitmap zero_group) (get_dentry_slots (length name)) DENTRY_PER_GROUP < DENTRY_PER_GROUP"
proof (rule ccontr)
  assume "\<not> ?thesis"
  moreover have s: "get_dentry_slots (length name) \<le> 80" using assms(2) by (simp add: get_dentry_slots_def)
  moreover have "0 < get_dentry_slots (length name)" using assms(1) slots_pos by simp
  ultimately obtain j where "j < get_dentry_slots (length name)" "test_bit_le j (bitmap zero_group)"
    using room_for_filename_from_complete [of "get_dentry_slots (length name)" DENTRY_PER_GROUP "bitmap zero_group" 0 0]
    by (auto simp only: room_for_filename_def not_less add_0 le0)
  then have "j < 80" "test_bit_le j (bitmap zero_group)" using s by simp_all
  then show False using test_zero_bitmap by (simp only: zero_group_sel)
qed

text \<open>The outcome of the search of some blocks; an error needs a failing kernel call.\<close>

definition room_at :: "dcache_file \<Rightarrow> nat \<Rightarrow> nat \<Rightarrow> nat" where
  "room_at f slots b = room_for_filename (bitmap (f_groups f ! b)) slots DENTRY_PER_GROUP"

definition block_result :: "kernel \<Rightarrow> nat \<Rightarrow> nat set \<Rightarrow> dcache_file \<Rightarrow> block_search \<Rightarrow> bool" where
  "block_result k slots B f res = (case res of
     Search_Err e \<Rightarrow> e \<noteq> 0 \<and> k \<noteq> kernel_ok
   | Search_Add b p blk \<Rightarrow> b \<in> B \<and> p = room_at f slots b \<and> p < DENTRY_PER_GROUP \<and> blk = f_groups f ! b
   | Search_Full \<Rightarrow> (\<forall>b\<in>B. DENTRY_PER_GROUP \<le> room_at f slots b))"

lemma read_any:
  assumes "b < group_count f"
  shows "cache_file_read k f (get_dentry_group_pos b) =
    (if k_read k (get_dentry_group_pos b) then (int DENTRYGROUP_SIZE, f_groups f ! b) else (- EIO, zero_group))"
  using group_in_file [OF assms] by (simp add: cache_file_read_def)

lemma create_blocks_result:
  "pages_ok f \<Longrightarrow> bidx + n \<le> group_count f \<Longrightarrow> create_blocks k slots n bidx f = (res, f') \<Longrightarrow>
   same_file f f' \<and> block_result k slots {bidx..<bidx + n} f res"
proof (induction n arbitrary: bidx f)
  case (Suc n)
  let ?pos = "get_dentry_group_pos bidx"
  let ?f1 = "f\<lparr>f_locked := f_locked f \<union> {?pos..<?pos + DENTRYGROUP_SIZE}\<rparr>"
  let ?f2 = "hmdfs_unlock_file ?f1 (?pos + DENTRYGROUP_SIZE) DENTRYGROUP_SIZE"
  have b: "bidx < group_count ?f1" using Suc.prems(2) by simp
  have step: "create_blocks k slots (Suc n) bidx f =
      (if k_wlock k ?pos \<noteq> 0 then (Search_Err (k_wlock k ?pos), f)
       else if \<not> k_read k ?pos then (Search_Err (- ENOSPC), hmdfs_unlock_file ?f1 ?pos DENTRYGROUP_SIZE)
       else if room_at f slots bidx < DENTRY_PER_GROUP then (Search_Add bidx (room_at f slots bidx) (f_groups f ! bidx), ?f1)
       else create_blocks k slots n (bidx + 1) ?f2)"
    using read_any [OF b, of k] by (simp add: hmdfs_wlock_file_def advance_def room_at_def Let_def)
  have range: "{bidx..<bidx + Suc n} = insert bidx {bidx + 1..<bidx + 1 + n}" by auto
  consider (lock) "k_wlock k ?pos \<noteq> 0" | (read) "k_wlock k ?pos = 0" "\<not> k_read k ?pos"
    | (ok) "k_wlock k ?pos = 0" "k_read k ?pos" by blast
  then show ?case
  proof cases
    case lock
    then have "k \<noteq> kernel_ok" by auto
    then show ?thesis using Suc.prems(3) lock unfolding step by (auto simp: block_result_def)
  next
    case read
    then have "k \<noteq> kernel_ok" by auto
    then show ?thesis using Suc.prems(3) read unfolding step by (auto simp: block_result_def same_file_def)
  next
    case ok
    have pages: "pages_ok ?f2" using Suc.prems(1) by (simp add: pages_ok_def)
    have inside: "bidx + 1 + n \<le> group_count ?f2" using Suc.prems(2) by simp
    have same: "block_result k slots B ?f2 = block_result k slots B f" "same_file ?f2 f' = same_file f f'" for B
      by (simp_all add: block_result_def room_at_def same_file_def fun_eq_iff split: block_search.split)
    show ?thesis
    proof (cases "room_at f slots bidx < DENTRY_PER_GROUP")
      case True
      then show ?thesis using Suc.prems(3) ok unfolding step by (auto simp: block_result_def)
    next
      case False
      then show ?thesis
        using Suc.prems(3) ok Suc.IH [OF pages inside] unfolding step range same
        by (auto simp: block_result_def split: block_search.splits)
    qed
  qed
qed (simp add: block_result_def)

lemma count_order_pow: "get_count_order (2 ^ n - 1 + 1) = n"
proof -
  have "(1::nat) \<le> 2 ^ n" by simp
  then show ?thesis using fls_pow [of n] by (simp add: get_count_order_def)
qed

lemma depth_of_count:
  assumes "get_dentry_group_cnt sz = 2 * (2 ^ n - 1)"
  shows "get_max_depth sz = n"
  using count_order_pow [of n] assms by (simp add: get_max_depth_def)

text \<open>The truncation to the size of the next level adds empty groups and nothing else.\<close>

lemma truncate_grows:
  assumes wf: "wf_file lower cs f" and D: "depth f < 31"
  obtains f' where "\<And>k. k_truncate k (get_dcache_file_size (depth f)) = 0 \<Longrightarrow>
        cache_file_truncate k f (get_dcache_file_size (depth f)) = (0, f')"
    and "0 \<le> get_dcache_file_size (depth f)"
    and "wf_file lower cs f'" and "depth f' = Suc (depth f)" and "file_entry f' = file_entry f"
    and "\<And>b. group_count f \<le> b \<Longrightarrow> b < group_count f' \<Longrightarrow> f_groups f' ! b = zero_group"
    and "f_size f' = file_size_of_level (depth f)"
proof -
  define D where "D = depth f"
  let ?new = "2 * (2 ^ (D + 1) - 1) :: nat"
  have D31: "D < 31" using assms(2) by (simp add: D_def)
  have pages: "length (f_groups f) = group_count f" "\<And>b. b < group_count f \<Longrightarrow> wf_group (f_groups f ! b)"
    and count: "group_count f = 2 * (2 ^ D - 1)"
    using wf by (simp_all add: wf_file_def pages_ok_def D_def)
  have "get_dcache_file_size D = (2 ^ (D + 1) - 1) * 8192 + 4096" "(1::int) \<le> 2 ^ (D + 1)"
    using D31 get_dcache_file_size_eq [of D] one_le_power [of "2::int" "D + 1"] by linarith+
  then have pos: "0 \<le> get_dcache_file_size D"
    by (metis add_nonneg_nonneg diff_ge_0_iff_ge mult_nonneg_nonneg zero_le_numeral)
  have cnt: "get_dentry_group_cnt (file_size_of_level D) = ?new" by (rule group_cnt_of_level [OF D31])
  have le: "group_count f \<le> ?new" unfolding count by simp
  define f' where "f' = f\<lparr>f_size := file_size_of_level D,
     f_groups := f_groups f @ replicate (?new - group_count f) zero_group\<rparr>"
  have count': "group_count f' = ?new" using cnt by (simp add: f'_def group_count_def)
  have depth': "depth f' = Suc D"
    using depth_of_count [of "f_size f'" "Suc D"] cnt by (simp add: f'_def)
  have old: "f_groups f' ! b = f_groups f ! b" if "b < group_count f" for b
    using that pages(1) by (simp add: f'_def nth_append)
  have new: "f_groups f' ! b = zero_group" if "group_count f \<le> b" "b < group_count f'" for b
    using that pages(1) count' by (simp add: f'_def nth_append)
  have ent: "file_entry f' = file_entry f"
  proof
    fix x :: "nat \<times> nat"
    obtain b p where x: "x = (b, p)" by (cases x)
    show "file_entry f' x = file_entry f x"
      using old [of b] new [of b] le count' entry_at_zero_group
      by (cases "b < group_count f") (auto simp only: x file_entry_def prod.case if_True if_False split: if_splits)
  qed
  have "wf_file lower cs f'"
    unfolding wf_file_def
  proof (intro conjI allI impI)
    show "pages_ok f'"
      unfolding pages_ok_def
    proof (intro conjI allI impI)
      show "length (f_groups f') = group_count f'" using le pages(1) count' by (simp add: f'_def)
      show "wf_group (f_groups f' ! b)" if "b < group_count f'" for b
        using that old [of b] new [of b] pages(2) wf_zero_group by (cases "b < group_count f") auto
    qed
    show "depth f' \<le> 31" using depth' D31 by simp
    show "group_count f' = 2 * (2 ^ depth f' - 1)" using depth' count' by simp
    fix b p nm de assume e: "file_entry f' (b, p) = Some (nm, de)"
    show "de_hash de = hmdfs_dentry_hash lower cs nm"
      using wf_file_entryD(1) [OF wf] e ent by simp
    show "b \<in> buckets_below (de_hash de) (depth f')"
      using wf_file_entryD(2) [OF wf] e ent depth' buckets_below_Suc by (auto simp: D_def)
  qed
  moreover have "cache_file_truncate k f (get_dcache_file_size D) = (0, f')"
    if "k_truncate k (get_dcache_file_size D) = 0" for k
    using that cnt le pages(1) by (simp add: cache_file_truncate_def f'_def file_size_of_level_def Let_def)
  moreover have "f_size f' = file_size_of_level D" by (simp add: f'_def)
  ultimately show ?thesis using that [of f', folded D_def] pos depth' ent new by blast
qed

text \<open>A page is rewritten with the new entry.\<close>

definition adds_entry ::
  "(byte \<Rightarrow> byte) \<Rightarrow> bool \<Rightarrow> child_dentry \<Rightarrow> inode_attr \<Rightarrow> dcache_file \<Rightarrow> dcache_file \<Rightarrow> bool" where
  "adds_entry lower cs c i f f' \<longleftrightarrow>
     (\<exists>at de. file_entry f at = None \<and>
        file_entry f' = (file_entry f)(at \<mapsto> (d_name c, new_dentry c i (hmdfs_dentry_hash lower cs (d_name c)) de)))"

lemma new_dentry_hash [simp]: "de_hash (new_dentry c i h de) = h"
  by (simp add: new_dentry_def Let_def)

lemma create_add_any:
  fixes lower cs c defines "h \<equiv> hmdfs_dentry_hash lower cs (d_name c)"
  assumes wf: "wf_file lower cs f" and b: "b < group_count f" and mem: "b \<in> buckets_below h (depth f)"
    and fits: "fits_at (f_groups f ! b) (d_name c) p"
  defines "pos \<equiv> get_dentry_group_pos b"
  shows "\<not> k_write k pos \<Longrightarrow> same_file f (create_add k c i h b p (f_groups f ! b) f)"
    and "k_write k pos \<Longrightarrow> wf_file lower cs (create_add k c i h b p (f_groups f ! b) f)
           \<and> adds_entry lower cs c i f (create_add k c i h b p (f_groups f ! b) f)"
    and "f_size (create_add k c i h b p (f_groups f ! b) f) = f_size f"
    and "k_write k pos \<Longrightarrow> f_locked (create_add k c i h b p (f_groups f ! b) f) =
           f_locked f - {pos + DENTRYGROUP_SIZE..<pos + 2 * DENTRYGROUP_SIZE}"
proof -
  let ?g = "update_dentry (f_groups f ! b) c i h p"
  let ?f = "create_add k c i h b p (f_groups f ! b) f"
  have pages: "pages_ok f" and wfg: "wf_group (f_groups f ! b)"
    using wf b by (simp_all add: wf_file_def pages_ok_def)
  have eq: "?f = (if k_write k pos
      then hmdfs_unlock_file (put_group f b ?g) (pos + DENTRYGROUP_SIZE) DENTRYGROUP_SIZE
      else hmdfs_unlock_file f pos DENTRYGROUP_SIZE)"
    using group_in_file(3) [OF b]
    by (simp add: create_add_def cache_file_write_def put_group_def advance_def pos_def Let_def)
  note at = update_dentry_entry_at [OF wfg fits, where i = i and h = h]
  have "wf_file lower cs (put_group f b ?g)"
  proof (rule put_group_wf [OF wf b update_dentry_wf [OF wfg fits]])
    fix q nm de assume e: "entry_at ?g q = Some (nm, de)"
    show "de_hash de = hmdfs_dentry_hash lower cs nm \<and> b \<in> buckets_below (de_hash de) (depth f)"
    proof (cases "q = p")
      case True
      then show ?thesis using e mem at by (auto simp: h_def)
    next
      case False
      then have "file_entry f (b, q) = Some (nm, de)" using e b at by (simp add: file_entry_def)
      then show ?thesis using wf_file_entryD(1,2) [OF wf] by blast
    qed
  qed
  then have wf': "wf_file lower cs ?f" if "k_write k pos"
    using same_file_wf [of "put_group f b ?g" ?f lower cs] that by (simp add: eq)
  have old: "file_entry f (b, p) = None"
    using fits slots_pos [of "length (d_name c)"] by (auto simp: file_entry_def entry_at_def head_slot_def fits_at_def)
  have "file_entry (put_group f b ?g) = (file_entry f)((b, p) \<mapsto> (d_name c, new_dentry c i h (nsl (f_groups f ! b) ! p)))"
    using put_group_entry [OF pages b, of ?g] at b by (auto simp: fun_eq_iff file_entry_def)
  then have "adds_entry lower cs c i f (put_group f b ?g)"
    unfolding adds_entry_def h_def [symmetric] using old by blast
  moreover have "file_entry ?f = file_entry (put_group f b ?g)" if "k_write k pos"
    using same_file_entry [of "put_group f b ?g" ?f] that by (simp add: eq)
  ultimately show "wf_file lower cs ?f \<and> adds_entry lower cs c i f ?f" if "k_write k pos"
    using that wf' by (simp add: adds_entry_def)
  show "same_file f ?f" if "\<not> k_write k pos" using that by (simp add: eq)
  show "f_size ?f = f_size f" by (simp add: eq)
  show "f_locked ?f = f_locked f - {pos + DENTRYGROUP_SIZE..<pos + 2 * DENTRYGROUP_SIZE}" if "k_write k pos"
    using that by (simp add: eq add.commute)
qed

lemma bucket_of_addr:
  "level < MAX_BUCKET_LEVEL \<Longrightarrow>
   bucket_of h level = {BUCKET_BLOCKS * get_bucketaddr level (unat h mod get_bucket_by_level level)
     ..<BUCKET_BLOCKS * get_bucketaddr level (unat h mod get_bucket_by_level level) + BUCKET_BLOCKS}"
  by (simp add: bucket_of_def get_bucket_by_level_def)

lemma adds_entry_same: "same_file f f1 \<Longrightarrow> adds_entry lower cs c i f1 f' \<Longrightarrow> adds_entry lower cs c i f f'"
  by (simp add: adds_entry_def same_file_entry)

text \<open>
  The outcome of a creation: without a failing kernel call the entry is added; with one
  the file is well formed all the same, and an error leaves the entries as they were.
\<close>

definition creates ::
  "kernel \<Rightarrow> (byte \<Rightarrow> byte) \<Rightarrow> bool \<Rightarrow> child_dentry \<Rightarrow> inode_attr \<Rightarrow> dcache_file \<Rightarrow> int \<times> dcache_file \<Rightarrow> bool" where
  "creates k lower cs c i f res = (case res of (ret, f') \<Rightarrow>
     wf_file lower cs f' \<and> depth f \<le> depth f' \<and> depth f' \<le> Suc (depth f) \<and>
     (ret = 0 \<and> adds_entry lower cs c i f f' \<or> k \<noteq> kernel_ok \<and> file_entry f' = file_entry f))"

lemma creates_same:
  assumes "same_file f f1" and "creates k lower cs c i f1 res"
  shows "creates k lower cs c i f res"
  using assms same_file_entry [OF assms(1)] by (auto simp: creates_def same_file_def adds_entry_def)

lemma creates_error: "wf_file lower cs f \<Longrightarrow> k \<noteq> kernel_ok \<Longrightarrow> same_file f f' \<Longrightarrow> creates k lower cs c i f (e, f')"
  using same_file_wf [of f f'] same_file_entry [of f f'] by (simp add: creates_def same_file_def)

lemma create_at_level:
  fixes lower cs c defines "h \<equiv> hmdfs_dentry_hash lower cs (d_name c)"
    and "slots \<equiv> get_dentry_slots (length (d_name c))"
  assumes wf: "wf_file lower cs f" and level: "level < depth f" and name: "d_name c \<noteq> []"
  defines "bidx \<equiv> BUCKET_BLOCKS * get_bucketaddr level (unat h mod get_bucket_by_level level)"
  shows "bidx + BUCKET_BLOCKS \<le> group_count f"
    and "create_blocks k slots BUCKET_BLOCKS bidx f = (res, f2) \<Longrightarrow>
      same_file f f2 \<and> (case res of
        Search_Err e \<Rightarrow> e \<noteq> 0 \<and> k \<noteq> kernel_ok
      | Search_Add b p blk \<Rightarrow> creates k lower cs c i f (0, create_add k c i h b p blk f2)
      | Search_Full \<Rightarrow> DENTRY_PER_GROUP \<le> room_at f slots bidx)"
proof -
  have D: "depth f \<le> 31" and count: "group_count f = 2 * (2 ^ depth f - 1)" and pages: "pages_ok f"
    using wf by (simp_all add: wf_file_def)
  have lt: "level < MAX_BUCKET_LEVEL" using level D by simp
  note bucket = bucket_of_addr [OF lt, of h, folded bidx_def]
  have sub: "b \<in> buckets_below h (depth f)" "b < group_count f" if "b \<in> bucket_of h level" for b
  proof -
    show mem: "b \<in> buckets_below h (depth f)" using that level by (auto simp: buckets_below_def)
    show "b < group_count f" using buckets_below_bound [OF mem] D count by simp
  qed
  have "bidx + 1 \<in> bucket_of h level" unfolding bucket by simp
  then show inside: "bidx + BUCKET_BLOCKS \<le> group_count f" using sub(2) [of "bidx + 1"] by simp
  assume "create_blocks k slots BUCKET_BLOCKS bidx f = (res, f2)"
  then have sf: "same_file f f2" and res: "block_result k slots (bucket_of h level) f res"
    unfolding bucket using create_blocks_result [OF pages inside] by blast+
  have wf2: "wf_file lower cs f2" and groups: "f_groups f2 = f_groups f" and size2: "f_size f2 = f_size f"
    and count2: "group_count f2 = group_count f"
    using same_file_wf [OF sf] wf sf same_file_count [OF sf] by (auto simp: same_file_def)
  have "creates k lower cs c i f (0, create_add k c i h b p blk f2)" if "res = Search_Add b p blk" for b p blk
  proof -
    have b: "b \<in> bucket_of h level" and p: "p = room_at f slots b" "p < DENTRY_PER_GROUP" and blk: "blk = f_groups f2 ! b"
      using res that groups by (simp_all add: block_result_def)
    have fits: "fits_at (f_groups f2 ! b) (d_name c) p"
      using room_for_filename_fits [OF name, of "f_groups f ! b"] p groups by (simp add: room_at_def slots_def)
    note add = create_add_any [OF wf2 _ _ fits, of k i, folded h_def, unfolded size2 count2, OF sub(2,1) [OF b]]
    show ?thesis
    proof (cases "k_write k (get_dentry_group_pos b)")
      case True
      then show ?thesis using add(2,3) wf2 adds_entry_same [OF sf] by (simp add: creates_def blk)
    next
      case False
      then have "k \<noteq> kernel_ok" and "same_file f (create_add k c i h b p blk f2)"
        using add(1) same_file_trans [OF sf] by (auto simp: blk)
      then show ?thesis using creates_error [OF wf] by blast
    qed
  qed
  moreover have "bidx \<in> bucket_of h level" unfolding bucket by simp
  ultimately show "same_file f f2 \<and> (case res of
        Search_Err e \<Rightarrow> e \<noteq> 0 \<and> k \<noteq> kernel_ok
      | Search_Add b p blk \<Rightarrow> creates k lower cs c i f (0, create_add k c i h b p blk f2)
      | Search_Full \<Rightarrow> DENTRY_PER_GROUP \<le> room_at f slots bidx)"
    using sf res by (cases res) (auto simp: block_result_def)
qed

lemma create_level_result:
  fixes lower cs c defines "h \<equiv> hmdfs_dentry_hash lower cs (d_name c)"
  assumes name: "d_name c \<noteq> []" "length (d_name c) \<le> NAME_MAX"
  shows "wf_file lower cs f \<Longrightarrow> depth f < 31 \<Longrightarrow> level \<le> depth f \<Longrightarrow>
    creates k lower cs c i f (create_level k c i h level f)"
proof (induction "depth f - level" arbitrary: level f)
  case 0
  then have level: "level = depth f" by simp
  note unfold = create_level.simps [of k c i h level f]
  let ?slots = "get_dentry_slots (length (d_name c))"
  let ?bidx = "BUCKET_BLOCKS * get_bucketaddr level (unat h mod get_bucket_by_level level)"
  obtain f1 where tr: "k_truncate k (get_dcache_file_size level) = 0 \<Longrightarrow>
      cache_file_truncate k f (get_dcache_file_size level) = (0, f1)" and pos: "0 \<le> get_dcache_file_size level"
    and wf1: "wf_file lower cs f1" and d1: "depth f1 = Suc (depth f)" and e1: "file_entry f1 = file_entry f"
    and z: "\<And>b. group_count f \<le> b \<Longrightarrow> b < group_count f1 \<Longrightarrow> f_groups f1 ! b = zero_group"
    using truncate_grows [OF "0.prems"(1,2)] level by metis
  have lt: "level < MAX_BUCKET_LEVEL" using "0.prems" by simp
  have out: "group_count f \<le> ?bidx"
    using bucket_bounds(1) [OF lt, of ?bidx h] "0.prems"(1) level
    unfolding bucket_of_addr [OF lt] by (simp add: wf_file_def)
  show ?case
  proof (cases "k_truncate k (get_dcache_file_size level) = 0")
    case False
    then have "k \<noteq> kernel_ok" using pos by auto
    moreover have "create_level k c i h level f = (- ENOSPC, f)"
      unfolding unfold using lt out False by (simp add: cache_file_truncate_def Let_def)
    ultimately show ?thesis using creates_error "0.prems"(1) by simp
  next
    case True
    obtain res f2 where cb: "create_blocks k ?slots BUCKET_BLOCKS ?bidx f1 = (res, f2)" by fastforce
    have l1: "level < depth f1" using d1 level by simp
    note at = create_at_level(1) [OF wf1 l1 name(1), folded h_def]
      create_at_level(2) [OF wf1 l1 name(1), folded h_def, OF cb, where i = i]
    have "f_groups f1 ! ?bidx = zero_group" using z [OF out] at(1) by simp
    then have "\<not> DENTRY_PER_GROUP \<le> room_at f1 ?slots ?bidx"
      unfolding room_at_def using room_in_zero_group [OF name] by (simp only: not_le)
    moreover have "creates k lower cs c i f (e, f2)" if "same_file f1 f2" "k \<noteq> kernel_ok" for e
      using that wf1 d1 e1 same_file_wf [of f1 f2] same_file_entry [of f1 f2] by (auto simp: creates_def same_file_def)
    moreover have "creates k lower cs c i f (0, f3)" if "creates k lower cs c i f1 (0, f3)" "f_size f3 = f_size f1" for f3
      using that d1 e1 by (auto simp: creates_def adds_entry_def)
    moreover have "f_size (create_add k c i h b p blk f2) = f_size f1" if "same_file f1 f2" for b p blk
      using that by (auto simp: create_add_def cache_file_write_def same_file_def Let_def)
    ultimately show ?thesis
      unfolding unfold using lt out tr [OF True] cb at(2) by (cases res) (auto simp: Let_def)
  qed
next
  case (Suc n)
  then have level: "level < depth f" by simp
  note unfold = create_level.simps [of k c i h level f]
  let ?slots = "get_dentry_slots (length (d_name c))"
  let ?bidx = "BUCKET_BLOCKS * get_bucketaddr level (unat h mod get_bucket_by_level level)"
  have lt: "level < MAX_BUCKET_LEVEL" using Suc.prems by simp
  obtain res f2 where cb: "create_blocks k ?slots BUCKET_BLOCKS ?bidx f = (res, f2)" by fastforce
  note at = create_at_level(1) [OF Suc.prems(1) level name(1), folded h_def]
    create_at_level(2) [OF Suc.prems(1) level name(1), folded h_def, OF cb, where i = i]
  have step: "create_level k c i h level f = (case res of
        Search_Err e \<Rightarrow> (e, f2) | Search_Add b p blk \<Rightarrow> (0, create_add k c i h b p blk f2)
      | Search_Full \<Rightarrow> create_level k c i h (level + 1) f2)"
    unfolding unfold using lt at(1) cb by (simp add: Let_def split: block_search.split)
  show ?case
  proof (cases res)
    case (Search_Err e)
    then show ?thesis using at(2) step creates_error [OF Suc.prems(1)] by simp
  next
    case (Search_Add b p blk)
    then show ?thesis using at(2) step by simp
  next
    case Search_Full
    then have sf: "same_file f f2" using at(2) by simp
    have d2: "depth f2 = depth f" using sf by (simp add: same_file_def)
    have "n = depth f2 - (level + 1)" using Suc.hyps(2) d2 by simp
    then have "creates k lower cs c i f2 (create_level k c i h (level + 1) f2)"
      using Suc.hyps(1) [of f2 "level + 1"] Suc.prems level d2 same_file_wf [OF sf] by simp
    then show ?thesis using step Search_Full creates_same [OF sf] by simp
  qed
qed

lemma create_dentry_result:
  assumes "wf_file lower cs f" and "depth f < 31" and "d_name c \<noteq> []" and "length (d_name c) \<le> NAME_MAX"
  shows "creates k lower cs c i f (create_dentry k lower cs c i f)"
proof (cases "k_kmalloc k")
  case True
  then show ?thesis using create_level_result [OF assms(3,4,1,2), of 0 k i] by (simp add: create_dentry_def)
next
  case False
  then have "k \<noteq> kernel_ok" by auto
  then show ?thesis using creates_error [OF assms(1)] False by (simp add: create_dentry_def)
qed

subsection \<open>Lookup and removal of entries\<close>

lemma hit_entry:
  assumes "b < group_count f"
  shows "hit f ctx b p \<longleftrightarrow> (\<exists>de. file_entry f (b, p) = Some (c_name ctx, de) \<and> de_hash de = c_hash ctx)"
  using assms by (auto simp: hit_def entry_matches_def file_entry_def entry_at_def)

lemma near_entry:
  assumes "b < group_count f" and "wf_group (f_groups f ! b)"
  shows "near lower f ctx b p \<longleftrightarrow>
     (\<exists>nm de. file_entry f (b, p) = Some (nm, de) \<and> de_hash de = c_hash ctx
        \<and> length nm = length (c_name ctx) \<and> str_n_case_eq lower (c_name ctx) nm)"
  using assms length_name_at [OF assms(2), of p]
  by (auto simp: near_def insense_matches_def file_entry_def entry_at_def)

text \<open>What the search of the caller's name means for the entries of the file.\<close>

definition found_at ::
  "(byte \<Rightarrow> byte) \<Rightarrow> bool \<Rightarrow> byte list \<Rightarrow> dcache_file \<Rightarrow> nat \<times> nat \<Rightarrow> bool" where
  "found_at lower cs name f at \<longleftrightarrow>
     (\<exists>nm de. file_entry f at = Some (nm, de) \<and> same_name lower cs name nm \<and>
        (nm = name \<or> (\<forall>at' de'. file_entry f at' \<noteq> Some (name, de'))))"

definition absent :: "(byte \<Rightarrow> byte) \<Rightarrow> bool \<Rightarrow> byte list \<Rightarrow> dcache_file \<Rightarrow> bool" where
  "absent lower cs name f \<longleftrightarrow>
     (\<forall>at nm de. file_entry f at = Some (nm, de) \<longrightarrow> \<not> same_name lower cs name nm)"

text \<open>
  Names have no NUL byte, and \<open>tolower\<close> makes none and maps only the dot to the
  dot; a case-sensitive file system does not depend on this.
\<close>

definition name_ok :: "(byte \<Rightarrow> byte) \<Rightarrow> bool \<Rightarrow> byte list \<Rightarrow> bool" where
  "name_ok lower cs name \<longleftrightarrow> cs \<or> 0 \<notin> lower ` set name \<and> (\<forall>x. lower x = dot \<longleftrightarrow> x = dot)"

lemma find_dentry_cases:
  assumes wf: "wf_file lower cs f" and name: "name_ok lower cs name"
    and res: "hmdfs_find_dentry kernel_ok lower cs f (hmdfs_init_dcache_lookup_ctx name) = (r, f', ctx)"
  shows "same_file f f'"
    and "r = Some p \<Longrightarrow> c_bidx ctx < group_count f \<and> c_page ctx = Some (f_groups f ! c_bidx ctx)
           \<and> found_at lower cs name f (c_bidx ctx, p)"
    and "r = None \<Longrightarrow> absent lower cs name f"
    and "f_locked f = {} \<Longrightarrow> f_locked f' = (case r of None \<Rightarrow> {} | Some _ \<Rightarrow> group_range (c_bidx ctx))"
proof -
  let ?h = "hmdfs_dentry_hash lower cs name"
  let ?ctx = "(hmdfs_init_dcache_lookup_ctx name)\<lparr>c_hash := ?h\<rparr>"
  have q: "c_name ?ctx = name" "c_hash ?ctx = ?h" by (simp_all add: hmdfs_init_dcache_lookup_ctx_def)
  note lu = find_dentry_looked_up [OF wf, of name, unfolded res looked_up_def prod.case]
  have exact: "\<exists>b\<in>buckets_below ?h (depth f). \<exists>p. hit f ?ctx b p" if e: "file_entry f at = Some (name, de)" for at de
    using wf_file_entryD(1,2,3) [OF wf, of "fst at" "snd at" name de] e hit_entry [of "fst at" f ?ctx "snd at"] q by auto
  have close: "\<exists>b\<in>buckets_below ?h (depth f). \<exists>p. near lower f ?ctx b p"
    if "\<not> cs" and e: "file_entry f at = Some (nm, de)" and m: "map lower name = map lower nm" for at nm de
  proof -
    have len: "length name = length nm" using m map_eq_imp_length_eq by blast
    have nul: "0 \<notin> lower ` set name" using name that(1) by (simp add: name_ok_def)
    have "de_hash de = ?h"
      using wf_file_entryD(1) [OF wf, of "fst at" "snd at" nm de] e dentry_hash_lower [OF _ m] that(1) name
      by (simp add: name_ok_def)
    then show ?thesis
      using wf_file_entryD [OF wf, of "fst at" "snd at" nm de] e q near_entry [of "fst at" f lower ?ctx "snd at"]
        str_n_case_eq_map [OF len nul] m len by auto
  qed
  show "same_file f f'" using lu by blast
  show "c_bidx ctx < group_count f \<and> c_page ctx = Some (f_groups f ! c_bidx ctx)
           \<and> found_at lower cs name f (c_bidx ctx, p)" if "r = Some p"
  proof -
    note lu = lu [unfolded that option.case]
    then have b: "c_bidx ctx < group_count f" by blast
    then have wfg: "wf_group (f_groups f ! c_bidx ctx)" using wf by (simp add: wf_file_def pages_ok_def)
    consider (hit) "hit f ?ctx (c_bidx ctx) p"
      | (near) "\<not> cs" "near lower f ?ctx (c_bidx ctx) p" "\<forall>b\<in>buckets_below ?h (depth f). \<forall>q. \<not> hit f ?ctx b q"
      using lu by blast
    then have "found_at lower cs name f (c_bidx ctx, p)"
    proof cases
      case hit
      then show ?thesis using hit_entry [OF b, of ?ctx p] q by (auto simp: found_at_def same_name_def)
    next
      case near
      then obtain nm de where e: "file_entry f (c_bidx ctx, p) = Some (nm, de)" "length nm = length name"
        "str_n_case_eq lower name nm"
        using near_entry [OF b wfg, of lower ?ctx p] q by auto
      then have "same_name lower cs name nm" using near(1) name str_n_case_eq_map [of name nm lower] by (simp add: same_name_def name_ok_def)
      moreover have "file_entry f at' \<noteq> Some (name, de')" for at' de' using exact near(3) by blast
      ultimately show ?thesis using e(1) by (auto simp: found_at_def)
    qed
    then show ?thesis using lu by blast
  qed
  show "absent lower cs name f" if "r = None"
    using lu [unfolded that option.case] exact close unfolding absent_def same_name_def by metis
  show "f_locked f' = (case r of None \<Rightarrow> {} | Some _ \<Rightarrow> group_range (c_bidx ctx))" if "f_locked f = {}"
    using lu that by (cases r) auto
qed

definition removes :: "(byte \<Rightarrow> byte) \<Rightarrow> bool \<Rightarrow> byte list \<Rightarrow> dcache_file \<Rightarrow> dcache_file \<Rightarrow> bool" where
  "removes lower cs name f f' \<longleftrightarrow>
     absent lower cs name f \<and> file_entry f' = file_entry f \<or>
     (\<exists>at. found_at lower cs name f at \<and> file_entry f' = (file_entry f)(at := None))"

lemma found_atD:
  assumes "wf_file lower cs f" and "found_at lower cs name f (b, p)"
  shows "wf_group (f_groups f ! b)" and "head_slot (f_groups f ! b) p" and "b < group_count f"
  using assms wf_file_entryD(3,5,6) [OF assms(1)] by (auto simp: found_at_def)

lemma delete_dentry_result:
  assumes wf: "wf_file lower cs f" and name: "name_ok lower cs name"
  shows "wf_file lower cs (hmdfs_delete_dentry kernel_ok lower cs name f)"
    and "removes lower cs name f (hmdfs_delete_dentry kernel_ok lower cs name f)"
    and "f_size (hmdfs_delete_dentry kernel_ok lower cs name f) = f_size f"
proof -
  obtain r f1 ctx where res: "hmdfs_find_dentry kernel_ok lower cs f (hmdfs_init_dcache_lookup_ctx name) = (r, f1, ctx)"
    by (metis prod_cases3)
  note found = find_dentry_cases [OF wf name res]
  let ?f = "hmdfs_delete_dentry kernel_ok lower cs name f"
  note sf = found(1)
  have wf1: "wf_file lower cs f1" and e1: "file_entry f1 = file_entry f" and g1: "f_groups f1 = f_groups f"
    and s1: "f_size f1 = f_size f"
    using same_file_wf [OF sf] wf same_file_entry [OF sf] sf by (simp_all add: same_file_def)
  have "wf_file lower cs ?f \<and> removes lower cs name f ?f \<and> f_size ?f = f_size f"
  proof (cases r)
    case None
    then have "?f = f1" using res by (simp add: hmdfs_delete_dentry_def)
    then show ?thesis using wf1 e1 s1 found(3) [OF None] by (simp add: removes_def)
  next
    case (Some p)
    let ?b = "c_bidx ctx"
    let ?g = "clear_dentry (f_groups f ! ?b) p"
    have page: "c_page ctx = Some (f_groups f ! ?b)" and at: "found_at lower cs name f (?b, p)"
      using found(2) [OF Some] by auto
    note in_f = found_atD [OF wf at]
    have b1: "?b < group_count f1" using in_f(3) same_file_count [OF sf] by simp
    have eq: "?f = hmdfs_unlock_file (put_group f1 ?b ?g) (get_dentry_group_pos ?b + DENTRYGROUP_SIZE) DENTRYGROUP_SIZE"
      using res Some page write_ok [OF b1, of ?g]
      by (simp add: hmdfs_delete_dentry_def put_group_def advance_def Let_def)
    have pages1: "pages_ok f1" using wf1 by (simp add: wf_file_def)
    note ents = clear_dentry_entry_at [OF in_f(1,2)]
    have old: "file_entry f (?b, q) = Some (nm, de)" if "entry_at ?g q = Some (nm, de)" for q nm de
      using that ents in_f(3) by (auto simp: file_entry_def split: if_splits)
    have "wf_file lower cs (put_group f1 ?b ?g)"
      using put_group_wf [OF wf1 b1 clear_dentry_wf [OF in_f(1,2)]] wf_file_entryD(1,2) [OF wf old] s1 by simp
    moreover have "file_entry (put_group f1 ?b ?g) = (file_entry f)((?b, p) := None)"
      using put_group_entry [OF pages1 b1, of ?g] ents e1 in_f(3) by (auto simp: fun_eq_iff file_entry_def)
    moreover have "same_file (put_group f1 ?b ?g) ?f" by (simp add: eq)
    ultimately show ?thesis
      using at same_file_wf [of "put_group f1 ?b ?g" ?f lower cs] same_file_entry [of "put_group f1 ?b ?g" ?f] s1
      by (auto simp: removes_def same_file_def)
  qed
  then show "wf_file lower cs ?f" and "removes lower cs name f ?f" and "f_size ?f = f_size f" by blast+
qed

end
