(* ===== verification/Dentry_Dir.thy ===== *)
theory Dentry_Dir
  imports Dentry_Store
begin

text \<open>
  The dentry file as a directory. The locale \<open>name_store\<close> is what the callers
  of the dentry file rely on: a lookup, an insertion and a removal over a set of
  named entries. It is interpreted on the operations of \<open>hmdfs_dentryfile.c\<close>,
  and the laws of renaming and of lookups after updates come from it.
\<close>

section \<open>The interface\<close>

locale name_store =
  fixes inv :: "'s \<Rightarrow> bool" and room :: "'s \<Rightarrow> nat" and entries :: "'s \<Rightarrow> ('n \<times> 'e) set"
    and lookup :: "'n \<Rightarrow> 's \<Rightarrow> 'r option" and add :: "'a \<Rightarrow> 's \<Rightarrow> int \<times> 's" and del :: "'n \<Rightarrow> 's \<Rightarrow> 's"
    and name_of :: "'a \<Rightarrow> 'n" and valid :: "'a \<Rightarrow> bool" and made :: "'a \<Rightarrow> 'e \<Rightarrow> bool" and attr :: "'e \<Rightarrow> 'r"
  assumes lookup_law: "inv s \<Longrightarrow> lookup n s = Some r \<longleftrightarrow> (\<exists>e. (n, e) \<in> entries s \<and> attr e = r)"
    and del_inv: "inv s \<Longrightarrow> inv (del n s)"
    and del_room: "inv s \<Longrightarrow> room (del n s) = room s"
    and del_entries: "inv s \<Longrightarrow> entries (del n s) = {x \<in> entries s. fst x \<noteq> n}"
    and add_law: "inv s \<Longrightarrow> 0 < room s \<Longrightarrow> valid a \<Longrightarrow> name_of a \<notin> fst ` entries s \<Longrightarrow>
      \<exists>s' e. add a s = (0, s') \<and> inv s' \<and> room s \<le> Suc (room s') \<and> made a e
        \<and> entries s' = insert (name_of a, e) (entries s)"
begin

lemma lookup_cong:
  assumes "inv s" and "inv s'" and "\<And>e. (n, e) \<in> entries s' \<longleftrightarrow> (n, e) \<in> entries s"
  shows "lookup n s' = lookup n s"
proof -
  have "lookup n s' = Some r \<longleftrightarrow> lookup n s = Some r" for r
    using lookup_law [OF assms(1)] lookup_law [OF assms(2)] assms(3) by simp
  then show ?thesis by (metis option.exhaust)
qed

lemma lookup_del:
  assumes "inv s"
  shows "lookup n (del m s) = (if n = m then None else lookup n s)"
proof (cases "n = m")
  case True
  then have "lookup n (del m s) \<noteq> Some r" for r
    using lookup_law [OF del_inv [OF assms]] del_entries [OF assms] by simp
  then show ?thesis using True by auto
next
  case False
  then show ?thesis using lookup_cong [OF assms del_inv [OF assms]] del_entries [OF assms] by simp
qed

text \<open>Overwriting: the removal of a name followed by its insertion.\<close>

lemma replace_law:
  assumes "inv s" and "0 < room s" and "valid a"
  obtains s' e where "add a (del (name_of a) s) = (0, s')" and "inv s'" and "made a e"
    and "entries s' = insert (name_of a, e) {x \<in> entries s. fst x \<noteq> name_of a}"
proof -
  have "name_of a \<notin> fst ` entries (del (name_of a) s)" using del_entries [OF assms(1)] by auto
  then show ?thesis
    using add_law [OF del_inv [OF assms(1)], of "name_of a" a] del_room assms del_entries [OF assms(1)] that
    by (metis (no_types))
qed

lemma lookup_add:
  assumes "inv s" and "0 < room s" and "valid a" and "name_of a \<notin> fst ` entries s"
  shows "\<exists>s' e. add a s = (0, s') \<and> made a e \<and> lookup (name_of a) s' = Some (attr e)
    \<and> (\<forall>n. n \<noteq> name_of a \<longrightarrow> lookup n s' = lookup n s)"
proof -
  obtain s' e where s': "add a s = (0, s')" "inv s'" "made a e"
    "entries s' = insert (name_of a, e) (entries s)"
    using add_law [OF assms] by blast
  moreover have "lookup (name_of a) s' = Some (attr e)" using lookup_law [OF s'(2)] s'(4) by auto
  moreover have "lookup n s' = lookup n s" if "n \<noteq> name_of a" for n
    by (rule lookup_cong [OF assms(1) s'(2)]) (use that s'(4) in auto)
  ultimately show ?thesis by blast
qed

end

section \<open>The entries of a case-sensitive file\<close>

definition names_distinct :: "dcache_file \<Rightarrow> bool" where
  "names_distinct f \<longleftrightarrow>
     (\<forall>at at' nm de de'. file_entry f at = Some (nm, de) \<longrightarrow> file_entry f at' = Some (nm, de') \<longrightarrow> at = at')"

definition dir_ok :: "(byte \<Rightarrow> byte) \<Rightarrow> dcache_file \<Rightarrow> bool" where
  "dir_ok lower f \<longleftrightarrow> wf_file lower True f \<and> names_distinct f"

definition dir_entries :: "dcache_file \<Rightarrow> (byte list \<times> hmdfs_dentry) set" where
  "dir_entries f = ran (file_entry f)"

definition levels_left :: "dcache_file \<Rightarrow> nat" where
  "levels_left f = 31 - depth f"

definition valid_name :: "child_dentry \<Rightarrow> bool" where
  "valid_name c \<longleftrightarrow> d_name c \<noteq> [] \<and> length (d_name c) \<le> NAME_MAX"

definition created_entry :: "(byte \<Rightarrow> byte) \<Rightarrow> child_dentry \<times> inode_attr \<Rightarrow> hmdfs_dentry \<Rightarrow> bool" where
  "created_entry lower = (\<lambda>(c, i) e. \<exists>de. e = new_dentry c i (hmdfs_dentry_hash lower True (d_name c)) de)"

definition lookup_name :: "(byte \<Rightarrow> byte) \<Rightarrow> byte list \<Rightarrow> dcache_file \<Rightarrow> hmdfs_lookup_ret option" where
  "lookup_name lower name f = fst (lookup_remote_dentry kernel_ok lower True name (Some f))"

lemma name_ok_sensitive [simp]: "name_ok lower True name"
  by (simp add: name_ok_def)

lemma dir_entries_removed:
  assumes "names_distinct f" and "removes lower True name f f'"
  shows "names_distinct f'" and "dir_entries f' = {x \<in> dir_entries f. fst x \<noteq> name}"
proof -
  consider (none) "absent lower True name f" "file_entry f' = file_entry f"
    | (one) b de where "file_entry f b = Some (name, de)" "file_entry f' = (file_entry f)(b := None)"
    using assms(2) by (auto simp: removes_def found_at_def same_name_def)
  then show "names_distinct f'" "dir_entries f' = {x \<in> dir_entries f. fst x \<noteq> name}"
  proof (atomize (full), cases)
    case none
    have "fst x \<noteq> name" if "x \<in> dir_entries f" for x
      using that none(1) by (cases x) (auto simp only: absent_def same_name_def dir_entries_def ran_def fst_conv mem_Collect_eq)
    then have "{x \<in> dir_entries f. fst x \<noteq> name} = dir_entries f" by blast
    then show "names_distinct f' \<and> dir_entries f' = {x \<in> dir_entries f. fst x \<noteq> name}"
      using assms(1) none(2) by (simp only: names_distinct_def dir_entries_def simp_thms)
  next
    case one
    have nd: "at = at'" if "file_entry f at = Some (nm, d)" "file_entry f at' = Some (nm, d')" for at at' nm d d'
      using assms(1) that unfolding names_distinct_def by blast
    have "names_distinct f'"
      unfolding names_distinct_def one(2) by (auto split: if_splits dest: nd)
    moreover have "(nm, d) \<in> dir_entries f' \<longleftrightarrow> (nm, d) \<in> dir_entries f \<and> nm \<noteq> name" for nm d
    proof -
      have "(\<exists>at. file_entry f' at = Some (nm, d)) \<longleftrightarrow> (\<exists>at. file_entry f at = Some (nm, d)) \<and> nm \<noteq> name"
        unfolding one(2) by (metis fun_upd_apply nd one(1) option.distinct(1) option.inject prod.inject)
      then show ?thesis by (simp only: dir_entries_def ran_def mem_Collect_eq)
    qed
    ultimately show "names_distinct f' \<and> dir_entries f' = {x \<in> dir_entries f. fst x \<noteq> name}" by force
  qed
qed

lemma dir_entries_added:
  assumes "names_distinct f" and "adds_entry lower True c i f f'" and "d_name c \<notin> fst ` dir_entries f"
  shows "names_distinct f'"
    and "\<exists>e. created_entry lower (c, i) e \<and> dir_entries f' = insert (d_name c, e) (dir_entries f)"
proof -
  obtain b de where at: "file_entry f b = None" "file_entry f' = (file_entry f)(b \<mapsto> (d_name c, de))"
    and de: "created_entry lower (c, i) de"
    using assms(2) by (auto simp: adds_entry_def created_entry_def)
  have fresh: "file_entry f b' \<noteq> Some (d_name c, de')" for b' de'
    using assms(3) ranI [of "file_entry f" b' "(d_name c, de')"] unfolding dir_entries_def by (metis fst_conv image_eqI)
  then show "names_distinct f'"
    using assms(1) at unfolding names_distinct_def by (auto split: if_splits)
  show "\<exists>e. created_entry lower (c, i) e \<and> dir_entries f' = insert (d_name c, e) (dir_entries f)"
    using de at by (intro exI [of _ de]) (simp add: dir_entries_def)
qed

lemma lookup_name_law:
  assumes "dir_ok lower f"
  shows "lookup_name lower name f = Some r \<longleftrightarrow> (\<exists>e. (name, e) \<in> dir_entries f \<and> lookup_ret_of e = r)"
proof -
  have wf: "wf_file lower True f" and dist: "names_distinct f" using assms by (simp_all add: dir_ok_def)
  obtain q f1 ctx where res: "hmdfs_find_dentry kernel_ok lower True f (hmdfs_init_dcache_lookup_ctx name) = (q, f1, ctx)"
    by (metis prod_cases3)
  note found = find_dentry_cases [OF wf name_ok_sensitive res]
  show ?thesis
  proof (cases q)
    case None
    then show ?thesis
      using found(3) res by (auto simp: lookup_name_def lookup_remote_dentry_def absent_def dir_entries_def ran_def same_name_def)
  next
    case (Some p)
    then obtain de where page: "c_page ctx = Some (f_groups f ! c_bidx ctx)" and e: "file_entry f (c_bidx ctx, p) = Some (name, de)"
      using found(2) by (auto simp: found_at_def same_name_def)
    have "nsl (f_groups f ! c_bidx ctx) ! p = de"
      using wf_file_entryD(4) [OF wf e] by (auto simp: entry_at_def split: if_splits)
    then have "lookup_name lower name f = Some (lookup_ret_of de)"
      using Some res page by (simp add: lookup_name_def lookup_remote_dentry_def)
    moreover have "(name, e') \<in> dir_entries f \<longleftrightarrow> e' = de" for e'
      using e dist unfolding names_distinct_def dir_entries_def ran_def by (auto, metis option.inject prod.inject)
    ultimately show ?thesis by auto
  qed
qed

interpretation dentry_file: name_store "dir_ok lower" levels_left dir_entries "lookup_name lower"
  "\<lambda>(c, i). create_dentry kernel_ok lower True c i" "hmdfs_delete_dentry kernel_ok lower True"
  "\<lambda>(c, i). d_name c" "\<lambda>(c, i). valid_name c" "created_entry lower" lookup_ret_of
  for lower
proof (unfold_locales, goal_cases)
  case (1 s n r)
  then show ?case by (rule lookup_name_law)
next
  case (2 s n)
  then show ?case using delete_dentry_result(1,2) [of lower True s n] dir_entries_removed(1) by (auto simp: dir_ok_def)
next
  case (3 s n)
  then show ?case using delete_dentry_result(3) [of lower True s n] by (simp add: dir_ok_def levels_left_def)
next
  case (4 s n)
  then show ?case using delete_dentry_result(2) [of lower True s n] dir_entries_removed(2) by (simp add: dir_ok_def)
next
  case (5 s a)
  obtain c i where a: "a = (c, i)" by (cases a)
  obtain ret s' where res: "create_dentry kernel_ok lower True c i s = (ret, s')" by fastforce
  have "creates kernel_ok lower True c i s (ret, s')"
    using create_dentry_result [of lower True s c kernel_ok i] 5 res
    by (simp add: a dir_ok_def levels_left_def valid_name_def)
  then show ?case
    using 5 res dir_entries_added [of s lower c i s'] by (auto simp: a creates_def dir_ok_def levels_left_def)
qed

section \<open>What the operations promise\<close>

definition empty_file :: dcache_file where
  "empty_file = \<lparr>f_size = DENTRYGROUP_HEADER, f_groups = [], f_locked = {}\<rparr>"

definition sample_child :: child_dentry where
  "sample_child = \<lparr>d_name = [97, 98], d_gdi_link = Some False, d_inode_mode = 0, d_inode_ino = 0, d_inode_gen = 0\<rparr>"

definition sample_inode :: inode_attr where
  "sample_inode = \<lparr>i_mode = S_IFREG, i_size = 5, i_mtime = 7, i_mtime_nsec = 9, i_ino = 11, i_generation = 1\<rparr>"

definition sample_file :: dcache_file where
  "sample_file = snd (create_dentry kernel_ok id True sample_child sample_inode empty_file)"

lemma depth_empty_file: "depth empty_file = 0"
  using depth_of_count [of DENTRYGROUP_HEADER 0] by (simp add: empty_file_def get_dentry_group_cnt_def)

lemma empty_file_entry: "file_entry empty_file at = None"
  by (cases at) (simp add: file_entry_def empty_file_def group_count_def get_dentry_group_cnt_def)

lemma wf_empty_file: "wf_file lower cs empty_file"
  unfolding wf_file_def empty_file_entry depth_empty_file
  by (simp add: pages_ok_def empty_file_def group_count_def get_dentry_group_cnt_def)

lemma sample_name: "d_name sample_child \<noteq> []" "length (d_name sample_child) \<le> NAME_MAX"
  by (simp_all add: sample_child_def)

lemma sample_file_ok: "wf_file id True sample_file" "depth sample_file \<le> 1"
  "adds_entry id True sample_child sample_inode empty_file sample_file"
  using create_dentry_result [OF wf_empty_file, of sample_child kernel_ok id True sample_inode] sample_name depth_empty_file
  by (auto simp: creates_def sample_file_def split: prod.splits)

lemma sample_dir_ok: "dir_ok id sample_file"
  using dir_entries_added(1) [OF _ sample_file_ok(3)] sample_file_ok(1) empty_file_entry
  by (simp add: dir_ok_def names_distinct_def dir_entries_def ran_def)

lemma sample_file_entry: "\<exists>at de. file_entry sample_file at = Some ([97, 98], de)"
  using sample_file_ok(3) unfolding adds_entry_def by (metis fun_upd_same sample_child_def child_dentry.select_convs(1))

text \<open>
  C7 (functional). The lookup of a name is sound and complete over all levels of
  a well-formed file: it returns a slot, with the page that holds it, exactly
  when the file has an entry of that name; in a case-insensitive file system an
  entry that differs only in case is returned only if none has the exact name.
\<close>

theorem find_dentry_correct:
  assumes "wf_file lower cs f" and "name_ok lower cs name"
  shows "case hmdfs_find_dentry kernel_ok lower cs f (hmdfs_init_dcache_lookup_ctx name) of
      (Some p, f', ctx) \<Rightarrow> same_file f f' \<and> found_at lower cs name f (c_bidx ctx, p)
         \<and> c_page ctx = Some (f_groups f ! c_bidx ctx)
    | (None, f', ctx) \<Rightarrow> same_file f f' \<and> absent lower cs name f"
proof -
  obtain r f' ctx where res: "hmdfs_find_dentry kernel_ok lower cs f (hmdfs_init_dcache_lookup_ctx name) = (r, f', ctx)"
    by (metis prod_cases3)
  show ?thesis unfolding res prod.case using find_dentry_cases(1-3) [OF assms res] by (cases r) simp_all
qed

theorem find_dentry_correct_witness:
  "\<exists>p f' ctx. hmdfs_find_dentry kernel_ok id True sample_file (hmdfs_init_dcache_lookup_ctx [97, 98]) = (Some p, f', ctx)
     \<and> found_at id True [97, 98] sample_file (c_bidx ctx, p)"
proof -
  have "\<not> absent id True [97, 98] sample_file"
    using sample_file_entry by (auto simp: absent_def same_name_def)
  then show ?thesis
    using find_dentry_correct [OF sample_file_ok(1) name_ok_sensitive, of "[97, 98]"]
    by (auto split: prod.splits option.splits)
qed

text \<open>
  (invariant) A lookup on a file with no lock leaves exactly the group of the
  entry it returns locked, and none when it returns nothing, also when a match
  up to case was kept on the way.
\<close>

theorem find_dentry_locks:
  assumes "wf_file lower cs f" and "name_ok lower cs name" and "f_locked f = {}"
  shows "case hmdfs_find_dentry kernel_ok lower cs f (hmdfs_init_dcache_lookup_ctx name) of
      (r, f', ctx) \<Rightarrow> f_locked f' = (if r = None then {} else group_range (c_bidx ctx))"
  using find_dentry_cases(4) [OF assms(1,2)] assms(3) by (auto split: prod.split option.splits)

theorem find_dentry_locks_witness:
  "case hmdfs_find_dentry kernel_ok id True empty_file (hmdfs_init_dcache_lookup_ctx [97]) of
      (r, f', ctx) \<Rightarrow> f_locked f' = (if r = None then {} else group_range (c_bidx ctx))"
  by (rule find_dentry_locks [OF wf_empty_file]) (simp_all add: empty_file_def)

text \<open>
  C8 (liveness). While the file has fewer than 31 levels, creating an entry for a
  name of 1 to 255 bytes returns 0: the file stays well formed, exactly one slot
  that held no entry now holds the name with the attributes of the inode, every
  other entry is unchanged, and at most one level is added.
\<close>

theorem create_dentry_correct:
  assumes "wf_file lower cs f" and "depth f < 31" and "d_name c \<noteq> []" and "length (d_name c) \<le> NAME_MAX"
  shows "\<exists>f'. create_dentry kernel_ok lower cs c i f = (0, f') \<and> wf_file lower cs f'
    \<and> adds_entry lower cs c i f f' \<and> depth f' \<le> Suc (depth f)"
  using create_dentry_result [OF assms, of kernel_ok i] by (auto simp: creates_def split: prod.splits)

theorem create_dentry_correct_witness:
  "\<exists>f'. create_dentry kernel_ok id True sample_child sample_inode sample_file = (0, f') \<and> wf_file id True f'
    \<and> adds_entry id True sample_child sample_inode sample_file f' \<and> depth f' \<le> Suc (depth sample_file)"
  using create_dentry_correct [OF sample_file_ok(1) _ sample_name, of sample_inode] sample_file_ok(2) by simp

text \<open>
  Whatever allocation, lock, truncation, read or write fails, a
  creation leaves a well-formed file, and when it reports an error every entry
  is as it was; a failed write alone goes unreported: 0 is returned and no entry
  was added.
\<close>

theorem create_dentry_faults:
  assumes "wf_file lower cs f" and "depth f < 31" and "d_name c \<noteq> []" and "length (d_name c) \<le> NAME_MAX"
  shows "case create_dentry k lower cs c i f of (ret, f') \<Rightarrow>
     wf_file lower cs f' \<and> (if ret = 0 then adds_entry lower cs c i f f' \<or> file_entry f' = file_entry f
                            else file_entry f' = file_entry f)"
  using create_dentry_result [OF assms, of k i] by (auto simp: creates_def split: prod.splits)

theorem create_dentry_faults_witness:
  "case create_dentry (kernel_ok\<lparr>k_kmalloc := False\<rparr>) id True sample_child sample_inode empty_file of (ret, f') \<Rightarrow>
     ret = - ENOMEM \<and> file_entry f' = file_entry empty_file"
  using create_dentry_faults [OF wf_empty_file _ sample_name, where k = "kernel_ok\<lparr>k_kmalloc := False\<rparr>" and i = sample_inode and lower = id and cs = True]
  by (simp add: depth_empty_file create_dentry_def)

text \<open>
  C27 (functional). Deleting a name removes one entry that the lookup of the name
  finds and no other, or changes nothing when there is none; the file stays well
  formed and keeps its size.
\<close>

theorem delete_dentry_correct:
  assumes "wf_file lower cs f" and "name_ok lower cs name"
  shows "removes lower cs name f (hmdfs_delete_dentry kernel_ok lower cs name f)
    \<and> wf_file lower cs (hmdfs_delete_dentry kernel_ok lower cs name f)
    \<and> f_size (hmdfs_delete_dentry kernel_ok lower cs name f) = f_size f"
  using delete_dentry_result [OF assms] by blast

theorem delete_dentry_correct_witness:
  "removes id True [97, 98] sample_file (hmdfs_delete_dentry kernel_ok id True [97, 98] sample_file)"
  using delete_dentry_correct [OF sample_file_ok(1) name_ok_sensitive, of "[97, 98]"] by blast

text \<open>
  A created entry is found by \<open>lookup_remote_dentry\<close> with the
  size, times and number of its inode, and the lookup of every other name gives
  what it gave before.
\<close>

theorem create_then_lookup:
  assumes "dir_ok lower f" and "depth f < 31" and "d_name c \<noteq> []" and "length (d_name c) \<le> NAME_MAX"
    and "d_gdi_link c = Some False" and "\<forall>de. (d_name c, de) \<notin> dir_entries f"
  shows "\<exists>f'. create_dentry kernel_ok lower True c i f = (0, f')
    \<and> fst (lookup_remote_dentry kernel_ok lower True (d_name c) (Some f')) =
        Some \<lparr>lr_size = i_size i, lr_mtime = i_mtime i, lr_mtime_nsec = i_mtime_nsec i, lr_mode = i_mode i,
              lr_ino = generate_u64_ino (i_ino i) (i_generation i)\<rparr>
    \<and> (\<forall>n. n \<noteq> d_name c \<longrightarrow>
         fst (lookup_remote_dentry kernel_ok lower True n (Some f')) = fst (lookup_remote_dentry kernel_ok lower True n (Some f)))"
proof -
  have "d_name c \<notin> fst ` dir_entries f" using assms(6) by auto
  then obtain f' e where "create_dentry kernel_ok lower True c i f = (0, f')" "created_entry lower (c, i) e"
    "lookup_name lower (d_name c) f' = Some (lookup_ret_of e)" "\<forall>n. n \<noteq> d_name c \<longrightarrow> lookup_name lower n f' = lookup_name lower n f"
    using dentry_file.lookup_add [of lower f "(c, i)"] assms by (auto simp: valid_name_def levels_left_def)
  moreover from this(2) have "lookup_ret_of e = \<lparr>lr_size = i_size i, lr_mtime = i_mtime i, lr_mtime_nsec = i_mtime_nsec i,
      lr_mode = i_mode i, lr_ino = generate_u64_ino (i_ino i) (i_generation i)\<rparr>"
    using assms(5) by (auto simp: created_entry_def lookup_ret_of_def new_dentry_def Let_def)
  ultimately show ?thesis by (simp add: lookup_name_def)
qed

theorem create_then_lookup_witness:
  "\<exists>f'. create_dentry kernel_ok id True sample_child sample_inode empty_file = (0, f')
    \<and> fst (lookup_remote_dentry kernel_ok id True [97, 98] (Some f')) =
        Some \<lparr>lr_size = 5, lr_mtime = 7, lr_mtime_nsec = 9, lr_mode = S_IFREG, lr_ino = generate_u64_ino 11 1\<rparr>"
proof -
  have "dir_ok id empty_file" using wf_empty_file empty_file_entry by (simp add: dir_ok_def names_distinct_def)
  then show ?thesis
    using create_then_lookup [of id empty_file sample_child sample_inode] sample_name empty_file_entry
    by (auto simp: depth_empty_file dir_entries_def ran_def sample_child_def sample_inode_def)
qed

text \<open>
  A rename moves one entry, between two files or within one: the
  new name holds the attributes of the renamed inode, whatever the new name held
  before is gone, the old name is gone, and all other entries and files are
  unchanged. Within one file the two names have to differ.
\<close>

theorem rename_dentry_correct:
  assumes old_ok: "dir_ok lower (st old_f)" and new_ok: "dir_ok lower (st new_f)" and "depth (st new_f) < 31"
    and "d_name new_de \<noteq> []" and "length (d_name new_de) \<le> NAME_MAX"
    and ne: "old_f = new_f \<Longrightarrow> d_name old_de \<noteq> d_name new_de"
  shows "\<exists>st' de. hmdfs_rename_dentry kernel_ok lower True old_de new_de i old_f new_f st = (0, st')
    \<and> dir_ok lower (st' old_f) \<and> dir_ok lower (st' new_f) \<and> (\<forall>g. g \<noteq> old_f \<and> g \<noteq> new_f \<longrightarrow> st' g = st g)
    \<and> created_entry lower (new_de, i) de
    \<and> dir_entries (st' new_f) = insert (d_name new_de, de)
         {x \<in> dir_entries (st new_f). fst x \<noteq> d_name new_de \<and> (old_f = new_f \<longrightarrow> fst x \<noteq> d_name old_de)}
    \<and> (old_f \<noteq> new_f \<longrightarrow> dir_entries (st' old_f) = {x \<in> dir_entries (st old_f). fst x \<noteq> d_name old_de})"
proof -
  let ?del = "hmdfs_delete_dentry kernel_ok lower True"
  obtain f2 de where add: "create_dentry kernel_ok lower True new_de i (?del (d_name new_de) (st new_f)) = (0, f2)"
    and f2: "dir_ok lower f2" "created_entry lower (new_de, i) de"
      "dir_entries f2 = insert (d_name new_de, de) {x \<in> dir_entries (st new_f). fst x \<noteq> d_name new_de}"
    using dentry_file.replace_law [OF new_ok, of "(new_de, i)"] assms(3-5)
    by (auto simp: levels_left_def valid_name_def)
  define st2 where "st2 = st(new_f := f2)"
  have eq: "hmdfs_rename_dentry kernel_ok lower True old_de new_de i old_f new_f st =
      (0, st2(old_f := ?del (d_name old_de) (st2 old_f)))"
    using add by (simp add: hmdfs_rename_dentry_def st2_def Let_def)
  have ok2: "dir_ok lower (st2 old_f)" using f2(1) old_ok by (simp add: st2_def)
  note del = dentry_file.del_inv [OF ok2, of "d_name old_de"] dentry_file.del_entries [OF ok2, of "d_name old_de"]
  show ?thesis
  proof (cases "old_f = new_f")
    case True
    then show ?thesis
      unfolding eq using del f2 ne [OF True] by (intro exI [of _ "st2(old_f := ?del (d_name old_de) (st2 old_f))"] exI [of _ de]) (auto simp: st2_def)
  next
    case False
    then show ?thesis
      unfolding eq using del f2
      by (intro exI [of _ "st2(old_f := ?del (d_name old_de) (st2 old_f))"] exI [of _ de]) (auto simp: st2_def)
  qed
qed

theorem rename_dentry_correct_witness:
  "\<exists>st' de. hmdfs_rename_dentry kernel_ok id True sample_child (sample_child\<lparr>d_name := [99]\<rparr>) sample_inode (0::nat) 0 (\<lambda>_. sample_file) = (0, st')
     \<and> dir_entries (st' 0) = insert ([99], de) {x \<in> dir_entries sample_file. fst x \<noteq> [99] \<and> fst x \<noteq> [97, 98]}"
  using rename_dentry_correct [of id "\<lambda>_. sample_file" "0::nat" 0 "sample_child\<lparr>d_name := [99]\<rparr>" sample_child sample_inode]
    sample_dir_ok sample_file_ok(2) by (auto simp: sample_child_def)

section \<open>Refreshing an entry, and locks\<close>

definition refreshes :: "(byte \<Rightarrow> byte) \<Rightarrow> bool \<Rightarrow> byte list \<Rightarrow> inode_attr \<Rightarrow> dcache_file \<Rightarrow> dcache_file \<Rightarrow> bool" where
  "refreshes lower cs name i f f' \<longleftrightarrow>
     absent lower cs name f \<and> file_entry f' = file_entry f \<or>
     (\<exists>at nm de. found_at lower cs name f at \<and> file_entry f at = Some (nm, de) \<and>
        file_entry f' = (file_entry f)(at \<mapsto> (nm, refresh_dentry i de)))"

lemma refresh_dentry_sel [simp]:
  "de_hash (refresh_dentry i de) = de_hash de" "de_namelen (refresh_dentry i de) = de_namelen de"
  by (simp_all add: refresh_dentry_def)

lemma refresh_group:
  fixes i :: inode_attr
  assumes wf: "wf_group g" and head: "head_slot g p"
  defines "g' \<equiv> g\<lparr>nsl := (nsl g)[p := refresh_dentry i (nsl g ! p)]\<rparr>"
  shows "wf_group g'" and "entry_at g' = (entry_at g)(p \<mapsto> (name_at g p, refresh_dentry i (nsl g ! p)))"
proof -
  have p: "p < length (nsl g)" using head wf_group_lengths(2) [OF wf] by (simp add: head_slot_def)
  have len: "de_namelen (nsl g' ! m) = de_namelen (nsl g ! m)" for m
    using p by (cases "m = p") (simp_all add: g'_def)
  have same: "bitmap g' = bitmap g" "filename g' = filename g" "length (nsl g') = length (nsl g)"
    by (simp_all add: g'_def)
  have h: "head_slot g' m = head_slot g m" and n: "name_len g' m = name_len g m" and nm: "name_at g' m = name_at g m" for m
    by (simp_all add: head_slot_def name_len_def name_at_def name_bytes_def len same)
  show "wf_group g'" using wf unfolding wf_group_def h n len same .
  show "entry_at g' = (entry_at g)(p \<mapsto> (name_at g p, refresh_dentry i (nsl g ! p)))"
    using head p by (auto simp: fun_eq_iff entry_at_def h nm) (simp_all add: g'_def)
qed

lemma update_inode_result:
  assumes wf: "wf_file lower cs f" and name: "name_ok lower cs name"
  shows "wf_file lower cs (update_inode_in_file kernel_ok lower cs name i f)
    \<and> refreshes lower cs name i f (update_inode_in_file kernel_ok lower cs name i f)
    \<and> (f_locked f = {} \<longrightarrow> f_locked (update_inode_in_file kernel_ok lower cs name i f) = {})"
proof -
  obtain r f1 ctx where res: "hmdfs_find_dentry kernel_ok lower cs f (hmdfs_init_dcache_lookup_ctx name) = (r, f1, ctx)"
    by (metis prod_cases3)
  note found = find_dentry_cases [OF wf name res]
  let ?f = "update_inode_in_file kernel_ok lower cs name i f"
  note sf = found(1)
  have wf1: "wf_file lower cs f1" and e1: "file_entry f1 = file_entry f" and g1: "f_groups f1 = f_groups f"
    and s1: "f_size f1 = f_size f"
    using same_file_wf [OF sf] wf same_file_entry [OF sf] sf by (simp_all add: same_file_def)
  show ?thesis
  proof (cases r)
    case None
    then have "?f = f1" using res by (simp add: update_inode_in_file_def)
    then show ?thesis using wf1 e1 found(3) [OF None] found(4) None by (simp add: refreshes_def)
  next
    case (Some p)
    let ?b = "c_bidx ctx"
    define g where "g = f_groups f ! ?b"
    let ?g = "g\<lparr>nsl := (nsl g)[p := refresh_dentry i (nsl g ! p)]\<rparr>"
    have page: "c_page ctx = Some g" and at: "found_at lower cs name f (?b, p)"
      using found(2) [OF Some] by (auto simp: g_def)
    note in_f = found_atD [OF wf at, folded g_def]
    note ref = refresh_group [OF in_f(1,2), of i]
    have b1: "?b < group_count f1" using in_f(3) same_file_count [OF sf] by simp
    have eq: "?f = hmdfs_unlock_file (put_group f1 ?b ?g) (get_dentry_group_pos ?b) DENTRYGROUP_SIZE"
      using res Some page write_ok [OF b1, of ?g] by (simp add: update_inode_in_file_def put_group_def Let_def)
    have pages1: "pages_ok f1" using wf1 by (simp add: wf_file_def)
    have e: "file_entry f (?b, p) = Some (name_at g p, nsl g ! p)"
      using in_f by (simp add: file_entry_def entry_at_def g_def)
    have old: "file_entry f (?b, q) = Some (nm, d)" if "entry_at g q = Some (nm, d)" for q nm d
      using that in_f(3) by (simp add: file_entry_def g_def)
    have "wf_file lower cs (put_group f1 ?b ?g)"
    proof (rule put_group_wf [OF wf1 b1 ref(1)])
      fix q nm d assume "entry_at ?g q = Some (nm, d)"
      then show "de_hash d = hmdfs_dentry_hash lower cs nm \<and> ?b \<in> buckets_below (de_hash d) (depth f1)"
        using wf_file_entryD(1,2) [OF wf e] wf_file_entryD(1,2) [OF wf old, of q nm d] s1 unfolding ref(2)
        by (cases "q = p") auto
    qed
    moreover have "file_entry (put_group f1 ?b ?g) = (file_entry f)((?b, p) \<mapsto> (name_at g p, refresh_dentry i (nsl g ! p)))"
      using put_group_entry [OF pages1 b1, of ?g] ref(2) e1 in_f(3) by (auto simp: fun_eq_iff file_entry_def g_def)
    moreover have "same_file (put_group f1 ?b ?g) ?f" by (simp add: eq)
    moreover have "f_locked f = {} \<longrightarrow> f_locked ?f = {}"
      using found(4) Some by (simp add: eq group_range_def)
    ultimately show ?thesis
      using at e same_file_wf [of "put_group f1 ?b ?g" ?f lower cs] same_file_entry [of "put_group f1 ?b ?g" ?f]
      unfolding refreshes_def by metis
  qed
qed

text \<open>
  Writing an inode back refreshes the times, size and number of
  its entry and keeps its name, hash and mode and every other entry; the lock
  taken by the lookup is released.
\<close>

theorem update_inode_correct:
  assumes "wf_file lower cs f" and "name_ok lower cs name" and "f_locked f = {}"
  shows "refreshes lower cs name i f (update_inode_in_file kernel_ok lower cs name i f)
    \<and> wf_file lower cs (update_inode_in_file kernel_ok lower cs name i f)
    \<and> f_locked (update_inode_in_file kernel_ok lower cs name i f) = {}"
  using update_inode_result [OF assms(1,2), of i] assms(3) by blast

theorem update_inode_correct_witness:
  "refreshes id True [97, 98] sample_inode (sample_file\<lparr>f_locked := {}\<rparr>)
     (update_inode_in_file kernel_ok id True [97, 98] sample_inode (sample_file\<lparr>f_locked := {}\<rparr>))"
  using update_inode_correct [of id True "sample_file\<lparr>f_locked := {}\<rparr>" "[97, 98]" sample_inode]
    same_file_wf [of sample_file "sample_file\<lparr>f_locked := {}\<rparr>" id True] sample_file_ok(1) by simp

text \<open>
  The position given to the unlock after a read or write through \<open>&pos\<close> is that
  of the next group, so the lock of the group itself stays.
\<close>

lemma next_group_free: "group_range b \<inter> {get_dentry_group_pos b + DENTRYGROUP_SIZE..<n} = {}"
  by (auto simp: group_range_def)

lemma create_blocks_locked:
  "create_blocks k slots n bidx f = (Search_Add b p blk, f2) \<Longrightarrow> group_range b \<subseteq> f_locked f2"
proof (induction n arbitrary: bidx f)
  case (Suc n)
  show ?case
    using Suc.prems Suc.IH
    by (auto simp: Let_def hmdfs_wlock_file_def group_range_def split: if_splits prod.splits)
qed simp

lemma create_blocks_kernel_ok:
  "create_blocks kernel_ok slots n bidx f = (Search_Err e, f2) \<Longrightarrow> e \<noteq> 0"
proof (induction n arbitrary: bidx f)
  case (Suc n)
  then show ?case by (auto simp: Let_def wlock_ok split: if_splits prod.splits)
qed simp

lemma create_add_locked:
  "group_range b \<subseteq> f_locked f \<Longrightarrow> group_range b \<subseteq> f_locked (create_add kernel_ok c i h b p blk f)"
  using next_group_free [of b] by (auto simp: create_add_def cache_file_write_def advance_def Let_def)

lemma create_added_locked:
  "create_blocks k slots n bidx f = (Search_Add b p blk, f2) \<Longrightarrow>
   \<exists>b'. group_range b' \<subseteq> f_locked (create_add kernel_ok c i h b p blk f2)"
  using create_add_locked [OF create_blocks_locked] by blast

lemma create_level_locked:
  "create_level kernel_ok c i h level f = (0, f') \<Longrightarrow> \<exists>b. group_range b \<subseteq> f_locked f'"
proof (induction "63 - level" arbitrary: level f)
  case 0
  then show ?case by (simp add: create_level.simps [of kernel_ok c i h level f])
next
  case (Suc n)
  have "n = 63 - (level + 1)" using Suc.hyps(2) by simp
  note IH = Suc.hyps(1) [OF this]
  show ?case
    using Suc.prems IH unfolding create_level.simps [of kernel_ok c i h level f]
    by (auto simp: Let_def intro: create_added_locked dest: create_blocks_kernel_ok
          split: if_splits prod.splits block_search.splits)
qed

text \<open>
  A creation that succeeds leaves the lock of a whole group behind:
  the unlock that follows the write gets the position that the write advanced.
\<close>

theorem create_dentry_keeps_lock:
  assumes "fst (create_dentry kernel_ok lower cs c i f) = 0"
  shows "\<exists>b. group_range b \<subseteq> f_locked (snd (create_dentry kernel_ok lower cs c i f))"
  using create_level_locked [of c i "hmdfs_dentry_hash lower cs (d_name c)" 0 f] assms
  by (cases "create_dentry kernel_ok lower cs c i f") (auto simp: create_dentry_def)

theorem create_dentry_keeps_lock_witness: "f_locked empty_file = {} \<and> f_locked sample_file \<noteq> {}"
proof -
  have "fst (create_dentry kernel_ok id True sample_child sample_inode empty_file) = 0"
    using create_dentry_result [OF wf_empty_file, of sample_child kernel_ok id True sample_inode] sample_name depth_empty_file
    by (auto simp: creates_def split: prod.splits)
  then obtain b where "group_range b \<subseteq> f_locked sample_file"
    using create_dentry_keeps_lock unfolding sample_file_def by blast
  then show ?thesis by (auto simp: empty_file_def group_range_def)
qed

text \<open>
  (error) The same holds for the removal of an entry that exists: the file had
  no lock, and afterwards the group of the entry is locked.
\<close>

theorem delete_dentry_keeps_lock:
  assumes wf: "wf_file lower cs f" and name: "name_ok lower cs name" and free: "f_locked f = {}"
    and there: "\<not> absent lower cs name f"
  shows "\<exists>b < group_count f. f_locked (hmdfs_delete_dentry kernel_ok lower cs name f) = group_range b"
proof -
  obtain r f1 ctx where res: "hmdfs_find_dentry kernel_ok lower cs f (hmdfs_init_dcache_lookup_ctx name) = (r, f1, ctx)"
    by (metis prod_cases3)
  note found = find_dentry_cases [OF wf name res]
  obtain p where p: "r = Some p" using found(3) there by blast
  let ?b = "c_bidx ctx"
  have b: "?b < group_count f" and page: "c_page ctx = Some (f_groups f ! ?b)" using found(2) [OF p] by auto
  have b1: "?b < group_count f1" using b same_file_count [OF found(1)] by simp
  have "f_locked (hmdfs_delete_dentry kernel_ok lower cs name f) =
      f_locked f1 - {get_dentry_group_pos ?b + DENTRYGROUP_SIZE..<get_dentry_group_pos ?b + DENTRYGROUP_SIZE + DENTRYGROUP_SIZE}"
    using res p page write_ok [OF b1] by (simp add: hmdfs_delete_dentry_def advance_def Let_def)
  also have "\<dots> = group_range ?b" using found(4) [OF free] p next_group_free by simp blast
  finally show ?thesis using b by blast
qed

theorem delete_dentry_keeps_lock_witness:
  "\<exists>b < group_count sample_file.
     f_locked (hmdfs_delete_dentry kernel_ok id True [97, 98] (sample_file\<lparr>f_locked := {}\<rparr>)) = group_range b"
proof -
  let ?f = "sample_file\<lparr>f_locked := {}\<rparr>"
  have "wf_file id True ?f" using same_file_wf [of sample_file ?f id True] sample_file_ok(1) by simp
  moreover have "\<not> absent id True [97, 98] ?f"
    using sample_file_entry same_file_entry [of sample_file ?f] by (auto simp: absent_def same_name_def)
  ultimately show ?thesis using delete_dentry_keeps_lock [of id True ?f "[97, 98]"] by simp
qed

end
