(* ===== verification/Node_Event.thy ===== *)
theory Node_Event
  imports Hmdfs_Prelude "HOL-Library.Sublist"
begin

text \<open>
  The online and offline events of a peer (\<open>src/hmdfs/comm/connection.c\<close>,
  \<open>hmdfs_queue_raw_node_evt\<close>, \<open>hmdfs_update_node_waiting_evt\<close> and
  \<open>hmdfs_node_evt_work\<close>): one pending event, two counters of waiting events and
  a ring of four sequence numbers stand for a queue of events whose synchronous
  callback has run and whose asynchronous callback is due.

  Steps are the sections the locks make atomic: queueing an event together with
  its synchronous callback (\<open>seq_lock\<close> is taken before \<open>evt_lock\<close> is
  released), the callback half of the work (under \<open>seq_lock\<close>) and its
  bookkeeping half (under \<open>evt_lock\<close>).
\<close>

section \<open>State and operations\<close>

datatype raw_evt = RAW_NODE_EVT_OFF | RAW_NODE_EVT_ON

fun evt_not :: "raw_evt \<Rightarrow> raw_evt" where
  "evt_not RAW_NODE_EVT_OFF = RAW_NODE_EVT_ON"
| "evt_not RAW_NODE_EVT_ON = RAW_NODE_EVT_OFF"

abbreviation (input) RAW_NODE_EVT_MAX_NR :: nat where "RAW_NODE_EVT_MAX_NR \<equiv> 4"

text \<open>\<open>evt_dwork\<close>: not queued, queued, or between its two halves.\<close>

datatype evt_dwork = Work_Idle | Work_Queued | Work_Running

text \<open>
  \<open>RAW_NODE_EVT_NR\<close>, the value of \<open>pending_evt\<close> and \<open>last_evt\<close> for no event, is
  \<open>None\<close>. The callbacks are recorded in \<open>cb_log\<close> with their event, whether they
  are synchronous, and their sequence number.
\<close>

record node_evts =
  evt_seq :: u32
  pending_evt :: "raw_evt option"
  last_evt :: "raw_evt option"
  waiting_evt :: "raw_evt \<Rightarrow> nat"
  seq_rd_idx :: byte
  seq_wr_idx :: byte
  seq_tbl :: "u32 list"
  pending_evt_seq :: u32
  cur_evt_seq :: "bool \<Rightarrow> u32"
  merged_evt :: u32
  dup_evt :: "raw_evt \<Rightarrow> u32"
  dwork :: evt_dwork
  cb_log :: "(raw_evt \<times> bool \<times> u32) list"

definition alloc_peer_evts :: node_evts where
  "alloc_peer_evts =
     \<lparr>evt_seq = 0, pending_evt = None, last_evt = None, waiting_evt = (\<lambda>_. 0),
      seq_rd_idx = 255, seq_wr_idx = 255, seq_tbl = replicate RAW_NODE_EVT_MAX_NR 0, pending_evt_seq = 0,
      cur_evt_seq = (\<lambda>_. 0), merged_evt = 0, dup_evt = (\<lambda>_. 0), dwork = Work_Idle, cb_log = []\<rparr>"

definition hmdfs_node_inc_evt_seq :: "node_evts \<Rightarrow> u32 \<times> node_evts" where
  "hmdfs_node_inc_evt_seq node = (evt_seq node + 1, node\<lparr>evt_seq := evt_seq node + 1\<rparr>)"

definition hmdfs_node_waiting_evt_sum :: "node_evts \<Rightarrow> nat" where
  "hmdfs_node_waiting_evt_sum node = waiting_evt node RAW_NODE_EVT_OFF + waiting_evt node RAW_NODE_EVT_ON"

definition put_seq :: "node_evts \<Rightarrow> u32 \<Rightarrow> node_evts" where
  "put_seq node s = node\<lparr>seq_tbl := (seq_tbl node)[unat (seq_wr_idx node) mod RAW_NODE_EVT_MAX_NR := s],
                         seq_wr_idx := seq_wr_idx node + 1\<rparr>"

definition add_waiting :: "node_evts \<Rightarrow> raw_evt \<Rightarrow> node_evts" where
  "add_waiting node evt = node\<lparr>waiting_evt := (waiting_evt node)(evt := waiting_evt node evt + 1)\<rparr>"

definition merge_waiting :: "node_evts \<Rightarrow> node_evts" where
  "merge_waiting node =
     (if waiting_evt node RAW_NODE_EVT_OFF \<ge> 2 \<and> waiting_evt node RAW_NODE_EVT_ON \<ge> 1
      then node\<lparr>waiting_evt := (\<lambda>e. waiting_evt node e - 1),
                seq_wr_idx := seq_wr_idx node - 2, merged_evt := merged_evt node + 2\<rparr>
      else node)"

text \<open>The sequence number of a queued event, or \<open>None\<close> for a duplicate.\<close>

definition hmdfs_update_node_waiting_evt :: "node_evts \<Rightarrow> raw_evt \<Rightarrow> raw_evt \<Rightarrow> u32 option \<times> node_evts" where
  "hmdfs_update_node_waiting_evt node pending evt =
     (let sum = hmdfs_node_waiting_evt_sum node;
          last = (if sum mod 2 \<noteq> 0 then evt_not pending else pending) in
      if evt = last then (None, node\<lparr>dup_evt := (dup_evt node)(evt := dup_evt node evt + 1)\<rparr>)
      else case hmdfs_node_inc_evt_seq (merge_waiting (add_waiting node evt)) of (next_seq, node1) \<Rightarrow>
        (Some next_seq, put_seq node1 next_seq))"

definition hmdfs_run_evt_cb_verbosely :: "node_evts \<Rightarrow> raw_evt \<Rightarrow> bool \<Rightarrow> u32 \<Rightarrow> node_evts" where
  "hmdfs_run_evt_cb_verbosely node evt sync s =
     node\<lparr>cur_evt_seq := (cur_evt_seq node)(sync := s), cb_log := cb_log node @ [(evt, sync, s)]\<rparr>"

definition hmdfs_queue_raw_node_evt :: "node_evts \<Rightarrow> raw_evt \<Rightarrow> node_evts" where
  "hmdfs_queue_raw_node_evt node evt =
     (case pending_evt node of
        None \<Rightarrow>
          if last_evt node = Some evt then node\<lparr>dup_evt := (dup_evt node)(evt := dup_evt node evt + 1)\<rparr>
          else (case hmdfs_node_inc_evt_seq (node\<lparr>pending_evt := Some evt\<rparr>) of (s, node1) \<Rightarrow>
            (hmdfs_run_evt_cb_verbosely ((put_seq node1 s)\<lparr>pending_evt_seq := s\<rparr>) evt True s)\<lparr>dwork := Work_Queued\<rparr>)
      | Some pending \<Rightarrow>
          (case hmdfs_update_node_waiting_evt node pending evt of
             (Some s, node1) \<Rightarrow> hmdfs_run_evt_cb_verbosely node1 evt True s
           | (None, node1) \<Rightarrow> node1))"

definition ring_at :: "node_evts \<Rightarrow> nat \<Rightarrow> u32" where
  "ring_at node k = seq_tbl node ! ((unat (seq_rd_idx node) + k) mod RAW_NODE_EVT_MAX_NR)"

text \<open>The first half of the work: the asynchronous callback of the pending event.\<close>

definition evt_work_cb :: "node_evts \<Rightarrow> raw_evt \<Rightarrow> node_evts" where
  "evt_work_cb node pending =
     (let s = ring_at node 0 in
      hmdfs_run_evt_cb_verbosely (node\<lparr>seq_rd_idx := seq_rd_idx node + 1, dwork := Work_Running\<rparr>) pending False s)"

text \<open>The second half: the next waiting event becomes the pending one.\<close>

definition evt_work_next :: "node_evts \<Rightarrow> raw_evt \<Rightarrow> node_evts" where
  "evt_work_next node pending =
     (if hmdfs_node_waiting_evt_sum node \<noteq> 0
      then let p = evt_not pending in
        node\<lparr>pending_evt := Some p, pending_evt_seq := ring_at node 0,
             waiting_evt := (waiting_evt node)(p := waiting_evt node p - 1), dwork := Work_Queued\<rparr>
      else node\<lparr>last_evt := Some pending, pending_evt := None, dwork := Work_Idle\<rparr>)"

text \<open>The whole work, when nothing interleaves with it.\<close>

definition hmdfs_node_evt_work :: "node_evts \<Rightarrow> node_evts" where
  "hmdfs_node_evt_work node =
     (case pending_evt node of None \<Rightarrow> node | Some p \<Rightarrow> evt_work_next (evt_work_cb node p) p)"

section \<open>The steps of a peer\<close>

inductive evt_step :: "node_evts \<Rightarrow> node_evts \<Rightarrow> bool" where
  queue: "evt_step node (hmdfs_queue_raw_node_evt node evt)"
| work_cb: "dwork node = Work_Queued \<Longrightarrow> pending_evt node = Some p \<Longrightarrow> evt_step node (evt_work_cb node p)"
| work_next: "dwork node = Work_Running \<Longrightarrow> pending_evt node = Some p \<Longrightarrow> evt_step node (evt_work_next node p)"
| inc_seq: "evt_step node (snd (hmdfs_node_inc_evt_seq node))"

inductive evt_reachable :: "node_evts \<Rightarrow> bool" where
  init: "evt_reachable alloc_peer_evts"
| step: "evt_reachable node \<Longrightarrow> evt_step node node' \<Longrightarrow> evt_reachable node'"

section \<open>The queue that the state stands for\<close>

fun alt :: "raw_evt \<Rightarrow> nat \<Rightarrow> raw_evt" where
  "alt e 0 = e"
| "alt e (Suc n) = evt_not (alt e n)"

definition due :: "node_evts \<Rightarrow> raw_evt \<Rightarrow> nat \<Rightarrow> (raw_evt \<times> u32) list" where
  "due node e n = map (\<lambda>k. (alt e k, ring_at node k)) [0..<n]"

definition evt_queue :: "node_evts \<Rightarrow> (raw_evt \<times> u32) list" where
  "evt_queue node =
     (case (dwork node, pending_evt node) of
        (Work_Queued, Some p) \<Rightarrow> due node p (Suc (hmdfs_node_waiting_evt_sum node))
      | (Work_Running, Some p) \<Rightarrow> due node (evt_not p) (hmdfs_node_waiting_evt_sum node)
      | _ \<Rightarrow> [])"

text \<open>
  The waiting events alternate after the pending one, at most one of them is an
  offline event, and the ring holds exactly the events that are due.
\<close>

definition evt_inv :: "node_evts \<Rightarrow> bool" where
  "evt_inv node \<longleftrightarrow>
     length (seq_tbl node) = RAW_NODE_EVT_MAX_NR \<and>
     (case pending_evt node of
        None \<Rightarrow> dwork node = Work_Idle \<and> (\<forall>e. waiting_evt node e = 0) \<and> seq_wr_idx node = seq_rd_idx node
      | Some p \<Rightarrow> dwork node \<noteq> Work_Idle \<and>
          waiting_evt node (evt_not p) = (hmdfs_node_waiting_evt_sum node + 1) div 2 \<and>
          waiting_evt node p = hmdfs_node_waiting_evt_sum node div 2 \<and>
          waiting_evt node RAW_NODE_EVT_OFF \<le> 1 \<and>
          seq_wr_idx node = seq_rd_idx node + of_nat (length (evt_queue node)))"

section \<open>The ring\<close>

lemma byte_mod4: "unat (x + of_nat m :: byte) mod 4 = (unat x + m) mod 4"
proof -
  have "unat (x + of_nat m) = (unat x + m) mod 256"
    by (simp add: unat_word_ariths unat_of_nat mod_simps)
  moreover have "(4::nat) dvd 256" by simp
  ultimately show ?thesis by (simp only: mod_mod_cancel)
qed

lemma evt_not_neq [simp]: "evt_not e \<noteq> e" "e \<noteq> evt_not e"
  by (cases e; simp)+

lemma evt_not_not [simp]: "evt_not (evt_not e) = e"
  by (cases e) simp_all

lemma evt_neq_iff: "a \<noteq> b \<longleftrightarrow> a = evt_not b"
  by (cases a; cases b) simp_all

lemma alt_parity: "alt e n = (if even n then e else evt_not e)"
  by (induction n) auto

lemma alt_mod: "(if n mod 2 \<noteq> 0 then evt_not e else e) = alt e n"
  by (cases "even n") (auto simp: alt_parity elim: evenE oddE)

lemma due_cong:
  "seq_rd_idx node' = seq_rd_idx node \<Longrightarrow> seq_tbl node' = seq_tbl node \<Longrightarrow> due node' e n = due node e n"
  by (simp add: due_def ring_at_def)

lemma length_due [simp]: "length (due node e n) = n"
  by (simp add: due_def)

lemma mod4_shift_neq:
  assumes "k < m" and "m < 4"
  shows "(r + k) mod 4 \<noteq> (r + m) mod (4::nat)"
proof -
  have "(r mod 4 + k) mod 4 \<noteq> (r mod 4 + m) mod 4"
  proof -
    have "r mod 4 \<in> {0, 1, 2, 3}" by auto
    moreover have "m \<in> {1, 2, 3}" "k \<in> {0, 1, 2}" using assms by auto
    ultimately show ?thesis using assms by auto
  qed
  then show ?thesis by (metis mod_add_left_eq)
qed

lemma put_seq_ring:
  assumes "length (seq_tbl node) = 4" and wr: "seq_wr_idx node = seq_rd_idx node + of_nat m" and "m < 4" and "k \<le> m"
  shows "ring_at (put_seq node s) k = (if k = m then s else ring_at node k)"
proof -
  let ?r = "unat (seq_rd_idx node)"
  have idx: "unat (seq_wr_idx node) mod 4 = (?r + m) mod 4" unfolding wr by (rule byte_mod4)
  have "(?r + k) mod 4 \<noteq> (?r + m) mod 4" if "k \<noteq> m"
    by (rule mod4_shift_neq) (use that assms(3,4) in auto)
  then show ?thesis
    using assms(1) by (auto simp: ring_at_def put_seq_def idx nth_list_update)
qed

lemma put_seq_due:
  assumes "length (seq_tbl node) = 4" and "seq_wr_idx node = seq_rd_idx node + of_nat m" and "m < 4"
  shows "due (put_seq node s) e (Suc m) = due node e m @ [(alt e m, s)]"
proof -
  have "due (put_seq node s) e m = due node e m"
    using put_seq_ring [OF assms] by (auto simp: due_def)
  moreover have "due (put_seq node s) e (Suc m) = due (put_seq node s) e m @ [(alt e m, ring_at (put_seq node s) m)]"
    by (simp add: due_def)
  ultimately show ?thesis using put_seq_ring [OF assms, of m] by simp
qed

lemma due_take: "k \<le> n \<Longrightarrow> take k (due node e n) = due node e k"
  by (simp add: due_def take_map)

lemma due_Cons: "due node e (Suc n) = (e, ring_at node 0) # map (\<lambda>k. (alt e (Suc k), ring_at node (Suc k))) [0..<n]"
  unfolding due_def by (simp add: upt_conv_Cons map_Suc_upt [symmetric] del: upt_Suc)

lemma ring_next: "ring_at (node\<lparr>seq_rd_idx := seq_rd_idx node + 1\<rparr>) k = ring_at node (Suc k)"
  using byte_mod4 [of "seq_rd_idx node" 1] by (simp add: ring_at_def) (metis mod_add_left_eq add_Suc add_Suc_right plus_1_eq_Suc add.assoc)

lemma due_tl:
  "due (node\<lparr>seq_rd_idx := seq_rd_idx node + 1\<rparr>) (evt_not e) n = tl (due node e (Suc n))"
  by (simp only: due_Cons list.sel) (simp add: due_def ring_next alt_parity)

section \<open>The operations on the queue\<close>

text \<open>
  What queueing an event means: a duplicate of the newest event is dropped; an
  offline event that would follow a waiting offline and a waiting online event
  replaces both; every other event is appended. \<open>w\<close> is the number of events
  whose asynchronous callback has not been scheduled.
\<close>

definition enqueue :: "raw_evt option \<Rightarrow> nat \<Rightarrow> raw_evt \<Rightarrow> u32 \<Rightarrow> (raw_evt \<times> u32) list \<Rightarrow> (raw_evt \<times> u32) list" where
  "enqueue newest w evt s q =
     (if newest = Some evt then q
      else (if evt = RAW_NODE_EVT_OFF \<and> 2 \<le> w then take (length q - 2) q else q) @ [(evt, s)])"

definition newest_evt :: "node_evts \<Rightarrow> raw_evt option" where
  "newest_evt node =
     (case pending_evt node of
        None \<Rightarrow> last_evt node
      | Some p \<Rightarrow> Some (alt p (hmdfs_node_waiting_evt_sum node)))"

lemma queue_Some_form:
  assumes "pending_evt node = Some p" and "dwork node \<noteq> Work_Idle"
  obtains e m where "evt_queue node = due node e m"
    and "m = (if dwork node = Work_Queued then Suc (hmdfs_node_waiting_evt_sum node) else hmdfs_node_waiting_evt_sum node)"
    and "\<And>k. alt e (m + k) = alt p (Suc (hmdfs_node_waiting_evt_sum node) + k)"
    and "e = (if dwork node = Work_Queued then p else evt_not p)"
  using assms by (cases "dwork node") (auto simp: evt_queue_def alt_parity)

lemma queue_merge_or_add:
  assumes inv: "evt_inv node" and p: "pending_evt node = Some p" and evt: "evt = alt p (Suc (hmdfs_node_waiting_evt_sum node))"
  defines "n \<equiv> hmdfs_node_waiting_evt_sum node" and "node1 \<equiv> merge_waiting (add_waiting node evt)"
  shows "seq_tbl node1 = seq_tbl node" and "seq_rd_idx node1 = seq_rd_idx node" and "pending_evt node1 = Some p"
    and "dwork node1 = dwork node" and "cb_log node1 = cb_log node" and "evt_seq node1 = evt_seq node"
    and "hmdfs_node_waiting_evt_sum node1 = (if evt = RAW_NODE_EVT_OFF \<and> 2 \<le> n then n - 1 else Suc n)"
    and "seq_wr_idx node1 = seq_wr_idx node - (if evt = RAW_NODE_EVT_OFF \<and> 2 \<le> n then 2 else 0)"
    and "waiting_evt node1 (evt_not p) = (hmdfs_node_waiting_evt_sum node1 + 1) div 2"
    and "waiting_evt node1 p = hmdfs_node_waiting_evt_sum node1 div 2"
    and "waiting_evt node1 RAW_NODE_EVT_OFF \<le> 1"
    and "\<not> (evt = RAW_NODE_EVT_OFF \<and> 2 \<le> n) \<Longrightarrow> n \<le> 2"
proof -
  have w: "waiting_evt node (evt_not p) = (n + 1) div 2" "waiting_evt node p = n div 2" "waiting_evt node RAW_NODE_EVT_OFF \<le> 1"
    using inv p by (simp_all add: evt_inv_def n_def)
  have sum: "waiting_evt node RAW_NODE_EVT_OFF + waiting_evt node RAW_NODE_EVT_ON = n"
    by (simp add: n_def hmdfs_node_waiting_evt_sum_def)
  have node1: "node1 = (if waiting_evt (add_waiting node evt) RAW_NODE_EVT_OFF \<ge> 2 \<and> waiting_evt (add_waiting node evt) RAW_NODE_EVT_ON \<ge> 1
      then (add_waiting node evt)\<lparr>waiting_evt := (\<lambda>e. waiting_evt (add_waiting node evt) e - 1),
                seq_wr_idx := seq_wr_idx node - 2, merged_evt := merged_evt node + 2\<rparr>
      else add_waiting node evt)"
    by (simp add: node1_def merge_waiting_def add_waiting_def)
  have evt': "evt = (if even n then evt_not p else p)" using evt by (simp add: n_def alt_parity)
  have "n = 0 \<or> n = 1 \<or> n = 2 \<or> n = 3"
    using w by (cases p) auto
  moreover have "p = RAW_NODE_EVT_OFF \<or> n \<noteq> 3" using w by (cases p) auto
  ultimately consider "p = RAW_NODE_EVT_OFF" "n = 0" | "p = RAW_NODE_EVT_OFF" "n = 1" | "p = RAW_NODE_EVT_OFF" "n = 2"
    | "p = RAW_NODE_EVT_OFF" "n = 3" | "p = RAW_NODE_EVT_ON" "n = 0" | "p = RAW_NODE_EVT_ON" "n = 1" | "p = RAW_NODE_EVT_ON" "n = 2"
    by (cases p) auto
  note cases7 = this
  have c: "(waiting_evt (add_waiting node evt) RAW_NODE_EVT_OFF \<ge> 2 \<and> waiting_evt (add_waiting node evt) RAW_NODE_EVT_ON \<ge> 1)
      \<longleftrightarrow> evt = RAW_NODE_EVT_OFF \<and> 2 \<le> n"
    by (rule cases7) (use w evt' in \<open>simp_all add: add_waiting_def\<close>)
  show "seq_tbl node1 = seq_tbl node" "seq_rd_idx node1 = seq_rd_idx node" "pending_evt node1 = Some p"
    "dwork node1 = dwork node" "cb_log node1 = cb_log node" "evt_seq node1 = evt_seq node"
    using p by (simp_all add: node1 add_waiting_def)
  show "hmdfs_node_waiting_evt_sum node1 = (if evt = RAW_NODE_EVT_OFF \<and> 2 \<le> n then n - 1 else Suc n)"
    unfolding node1 c
    by (rule cases7) (use w evt' in \<open>simp_all add: hmdfs_node_waiting_evt_sum_def add_waiting_def\<close>)
  show "seq_wr_idx node1 = seq_wr_idx node - (if evt = RAW_NODE_EVT_OFF \<and> 2 \<le> n then 2 else 0)"
    unfolding node1 c by (simp add: add_waiting_def)
  show "waiting_evt node1 RAW_NODE_EVT_OFF \<le> 1"
    unfolding node1 c by (rule cases7) (use w evt' in \<open>simp_all add: add_waiting_def\<close>)
  show "n \<le> 2" if "\<not> (evt = RAW_NODE_EVT_OFF \<and> 2 \<le> n)"
    by (rule cases7) (use that evt' in simp_all)
  show "waiting_evt node1 (evt_not p) = (hmdfs_node_waiting_evt_sum node1 + 1) div 2"
    "waiting_evt node1 p = hmdfs_node_waiting_evt_sum node1 div 2"
    unfolding node1 c
    by (rule cases7, use w evt' in \<open>simp_all add: add_waiting_def hmdfs_node_waiting_evt_sum_def\<close>)+
qed

lemma put_seq_sel [simp]:
  "pending_evt (put_seq node s) = pending_evt node" "last_evt (put_seq node s) = last_evt node"
  "waiting_evt (put_seq node s) = waiting_evt node" "seq_rd_idx (put_seq node s) = seq_rd_idx node"
  "seq_wr_idx (put_seq node s) = seq_wr_idx node + 1" "length (seq_tbl (put_seq node s)) = length (seq_tbl node)"
  "dwork (put_seq node s) = dwork node" "cb_log (put_seq node s) = cb_log node"
  "hmdfs_node_waiting_evt_sum (put_seq node s) = hmdfs_node_waiting_evt_sum node"
  by (simp_all add: put_seq_def hmdfs_node_waiting_evt_sum_def)

lemma ring_at_cong:
  "seq_rd_idx node' = seq_rd_idx node \<Longrightarrow> seq_tbl node' = seq_tbl node \<Longrightarrow> ring_at node' k = ring_at node k"
  by (simp add: ring_at_def)

definition sync_log :: "node_evts \<Rightarrow> (raw_evt \<times> u32) list" where
  "sync_log node = [(e, s). (e, sync, s) \<leftarrow> cb_log node, sync]"

definition async_log :: "node_evts \<Rightarrow> (raw_evt \<times> u32) list" where
  "async_log node = [(e, s). (e, sync, s) \<leftarrow> cb_log node, \<not> sync]"

text \<open>A queued event: the invariant, the queue and the callbacks after it.\<close>

lemma queue_waiting:
  assumes inv: "evt_inv node" and p: "pending_evt node = Some p"
    and evt: "evt = alt p (Suc (hmdfs_node_waiting_evt_sum node))"
  defines "node' \<equiv> hmdfs_queue_raw_node_evt node evt"
  shows "evt_inv node'"
    and "evt_queue node' = enqueue (newest_evt node) (hmdfs_node_waiting_evt_sum node) evt (evt_seq node + 1) (evt_queue node)"
    and "cb_log node' = cb_log node @ [(evt, True, evt_seq node + 1)]"
proof -
  define n where "n = hmdfs_node_waiting_evt_sum node"
  define node1 where "node1 = merge_waiting (add_waiting node evt)"
  define drop2 where "drop2 \<longleftrightarrow> evt = RAW_NODE_EVT_OFF \<and> 2 \<le> n"
  note m = queue_merge_or_add [OF inv p evt, folded node1_def n_def, folded drop2_def]
  define node2 where "node2 = put_seq (node1\<lparr>evt_seq := evt_seq node1 + 1\<rparr>) (evt_seq node + 1)"
  have ne: "evt \<noteq> (if n mod 2 \<noteq> 0 then evt_not p else p)"
    unfolding alt_mod using evt by (simp add: n_def)
  have "hmdfs_update_node_waiting_evt node p evt = (Some (evt_seq node + 1), node2)"
    using ne m(6) unfolding hmdfs_update_node_waiting_evt_def Let_def n_def [symmetric]
    by (simp only: if_False node1_def [symmetric] hmdfs_node_inc_evt_seq_def prod.case node2_def)
  then have node': "node' = hmdfs_run_evt_cb_verbosely node2 evt True (evt_seq node + 1)"
    using p by (simp add: node'_def hmdfs_queue_raw_node_evt_def)
  have busy: "dwork node \<noteq> Work_Idle" and len: "length (seq_tbl node) = 4"
    and wr: "seq_wr_idx node = seq_rd_idx node + of_nat (length (evt_queue node))"
    using inv p by (simp_all add: evt_inv_def)
  obtain e k where q: "evt_queue node = due node e k"
    and k: "k = (if dwork node = Work_Queued then Suc n else n)"
    and alt: "\<And>j. alt e (k + j) = alt p (Suc n + j)" and e: "e = (if dwork node = Work_Queued then p else evt_not p)"
    using queue_Some_form [OF p busy] unfolding n_def by metis
  define k' where "k' = (if drop2 then k - 2 else k)"
  have k2: "drop2 \<Longrightarrow> 2 \<le> k" using k by (auto simp: drop2_def)
  have k'4: "k' < 4"
  proof -
    have "n \<le> 3" using inv p by (cases p) (auto simp: evt_inv_def n_def)
    moreover have "n \<le> 2" if "\<not> drop2" using m(12) that by (simp add: drop2_def)
    ultimately show ?thesis using k k2 by (auto simp: k'_def)
  qed
  have wr1: "seq_wr_idx node1 = seq_rd_idx node1 + of_nat k'"
    using m(8,2) wr q k2 by (auto simp: k'_def of_nat_diff)
  have alt': "alt e k' = evt" using alt [of 0] evt k2 by (auto simp: k'_def alt_parity n_def)
  have tbl1: "length (seq_tbl (node1\<lparr>evt_seq := evt_seq node1 + 1\<rparr>)) = 4" using m(1) len by simp
  have "due node2 e (Suc k') = due (node1\<lparr>evt_seq := evt_seq node1 + 1\<rparr>) e k' @ [(alt e k', evt_seq node + 1)]"
    unfolding node2_def by (rule put_seq_due [OF tbl1 _ k'4]) (use wr1 in simp)
  also have "due (node1\<lparr>evt_seq := evt_seq node1 + 1\<rparr>) e k' = due node e k'"
    by (rule due_cong) (use m(1,2) in simp_all)
  finally have due2: "due node2 e (Suc k') = due node e k' @ [(evt, evt_seq node + 1)]" unfolding alt' .
  have sum': "hmdfs_node_waiting_evt_sum node' = (if drop2 then n - 1 else Suc n)"
    using m(7) by (simp add: node' node2_def hmdfs_run_evt_cb_verbosely_def hmdfs_node_waiting_evt_sum_def put_seq_def)
  have sel: "pending_evt node' = Some p" "dwork node' = dwork node" "seq_rd_idx node' = seq_rd_idx node2"
    "seq_tbl node' = seq_tbl node2" "waiting_evt node' = waiting_evt node1" "seq_wr_idx node' = seq_wr_idx node1 + 1"
    using m(3,4) by (simp_all add: node' node2_def hmdfs_run_evt_cb_verbosely_def)
  have q': "evt_queue node' = due node2 e (Suc k')"
  proof -
    have len': "(if dwork node = Work_Queued then Suc (hmdfs_node_waiting_evt_sum node') else hmdfs_node_waiting_evt_sum node') = Suc k'"
      using sum' k k2 by (auto simp: k'_def drop2_def)
    have "evt_queue node' = due node' e (if dwork node = Work_Queued then Suc (hmdfs_node_waiting_evt_sum node') else hmdfs_node_waiting_evt_sum node')"
      using busy e by (cases "dwork node") (simp_all add: evt_queue_def sel)
    then have "evt_queue node' = due node' e (Suc k')" unfolding len' .
    also have "\<dots> = due node2 e (Suc k')" by (rule due_cong) (simp_all add: sel)
    finally show ?thesis .
  qed
  show "evt_queue node' = enqueue (newest_evt node) (hmdfs_node_waiting_evt_sum node) evt (evt_seq node + 1) (evt_queue node)"
    unfolding q' due2 q enqueue_def newest_evt_def using p evt ne
    by (auto simp: k'_def drop2_def n_def due_take)
  show "cb_log node' = cb_log node @ [(evt, True, evt_seq node + 1)]"
    using m(5) by (simp add: node' node2_def hmdfs_run_evt_cb_verbosely_def)
  have sum1: "hmdfs_node_waiting_evt_sum node' = hmdfs_node_waiting_evt_sum node1" using sum' m(7) by simp
  have "seq_wr_idx node' = seq_rd_idx node' + of_nat (length (evt_queue node'))"
    unfolding q' by (simp add: sel wr1 node2_def)
  then show "evt_inv node'"
    unfolding evt_inv_def using m(9,10,11) sum1 sel busy tbl1 by (simp add: node2_def)
qed

lemma queue_idle:
  assumes inv: "evt_inv node" and none: "pending_evt node = None" and new: "last_evt node \<noteq> Some evt"
  defines "node' \<equiv> hmdfs_queue_raw_node_evt node evt"
  shows "evt_inv node'" and "evt_queue node' = [(evt, evt_seq node + 1)]"
    and "cb_log node' = cb_log node @ [(evt, True, evt_seq node + 1)]"
proof -
  let ?base = "node\<lparr>pending_evt := Some evt, evt_seq := evt_seq node + 1\<rparr>"
  have node': "node' = (hmdfs_run_evt_cb_verbosely ((put_seq ?base (evt_seq node + 1))\<lparr>pending_evt_seq := evt_seq node + 1\<rparr>)
      evt True (evt_seq node + 1))\<lparr>dwork := Work_Queued\<rparr>"
    using none new by (simp add: node'_def hmdfs_queue_raw_node_evt_def hmdfs_node_inc_evt_seq_def)
  have z: "waiting_evt node e = 0" and wr: "seq_wr_idx node = seq_rd_idx node" and len: "length (seq_tbl node) = 4" for e
    using inv none by (simp_all add: evt_inv_def)
  have sum: "hmdfs_node_waiting_evt_sum node' = 0"
    by (simp add: node' hmdfs_node_waiting_evt_sum_def hmdfs_run_evt_cb_verbosely_def z)
  have "due (put_seq ?base (evt_seq node + 1)) evt (Suc 0) = due ?base evt 0 @ [(alt evt 0, evt_seq node + 1)]"
    by (rule put_seq_due) (simp_all add: len wr)
  moreover have "due node' evt (Suc 0) = due (put_seq ?base (evt_seq node + 1)) evt (Suc 0)"
    by (rule due_cong) (simp_all add: node' hmdfs_run_evt_cb_verbosely_def)
  moreover have sel: "pending_evt node' = Some evt" "dwork node' = Work_Queued" "waiting_evt node' = waiting_evt node"
    "seq_wr_idx node' = seq_wr_idx node + 1" "seq_rd_idx node' = seq_rd_idx node" "length (seq_tbl node') = length (seq_tbl node)"
    by (simp_all add: node' hmdfs_run_evt_cb_verbosely_def)
  moreover have "evt_queue node' = due node' evt (Suc 0)"
    by (simp add: evt_queue_def sum sel)
  ultimately show q: "evt_queue node' = [(evt, evt_seq node + 1)]" by (simp add: due_def)
  show "cb_log node' = cb_log node @ [(evt, True, evt_seq node + 1)]"
    by (simp add: node' hmdfs_run_evt_cb_verbosely_def)
  show "evt_inv node'"
    unfolding evt_inv_def q sum by (simp add: sel z wr len)
qed

lemma queue_duplicate:
  assumes "newest_evt node = Some evt"
  shows "hmdfs_queue_raw_node_evt node evt = node\<lparr>dup_evt := (dup_evt node)(evt := dup_evt node evt + 1)\<rparr>"
proof (cases "pending_evt node")
  case None
  then show ?thesis using assms by (simp add: hmdfs_queue_raw_node_evt_def newest_evt_def)
next
  case (Some p)
  then have "alt p (hmdfs_node_waiting_evt_sum node) = evt" using assms by (simp add: newest_evt_def)
  then have "hmdfs_update_node_waiting_evt node p evt = (None, node\<lparr>dup_evt := (dup_evt node)(evt := dup_evt node evt + 1)\<rparr>)"
    unfolding hmdfs_update_node_waiting_evt_def Let_def alt_mod by simp
  then show ?thesis using Some by (simp add: hmdfs_queue_raw_node_evt_def)
qed

lemma evt_inv_cong:
  assumes "pending_evt node' = pending_evt node" "dwork node' = dwork node" "waiting_evt node' = waiting_evt node"
    "seq_rd_idx node' = seq_rd_idx node" "seq_wr_idx node' = seq_wr_idx node" "seq_tbl node' = seq_tbl node"
  shows "evt_inv node' = evt_inv node" and "evt_queue node' = evt_queue node"
proof -
  have sum: "hmdfs_node_waiting_evt_sum node' = hmdfs_node_waiting_evt_sum node"
    using assms by (simp add: hmdfs_node_waiting_evt_sum_def)
  show q: "evt_queue node' = evt_queue node"
    unfolding evt_queue_def assms sum using due_cong [OF assms(4,6)]
    by (cases "dwork node"; cases "pending_evt node") simp_all
  show "evt_inv node' = evt_inv node" unfolding evt_inv_def assms sum q ..
qed

lemma work_cb_step:
  assumes inv: "evt_inv node" and "dwork node = Work_Queued" and p: "pending_evt node = Some p"
  shows "evt_inv (evt_work_cb node p)"
    and "evt_queue node = (p, ring_at node 0) # evt_queue (evt_work_cb node p)"
    and "cb_log (evt_work_cb node p) = cb_log node @ [(p, False, ring_at node 0)]"
    and "newest_evt (evt_work_cb node p) = newest_evt node"
proof -
  let ?n = "hmdfs_node_waiting_evt_sum node"
  let ?node = "evt_work_cb node p"
  have sel: "pending_evt ?node = Some p" "dwork ?node = Work_Running" "seq_rd_idx ?node = seq_rd_idx node + 1"
    "seq_tbl ?node = seq_tbl node" "waiting_evt ?node = waiting_evt node" "seq_wr_idx ?node = seq_wr_idx node"
    "hmdfs_node_waiting_evt_sum ?node = ?n"
    using p by (simp_all add: evt_work_cb_def hmdfs_run_evt_cb_verbosely_def hmdfs_node_waiting_evt_sum_def Let_def)
  have q: "evt_queue node = due node p (Suc ?n)" using assms(2,3) by (simp add: evt_queue_def)
  have "evt_queue ?node = due ?node (evt_not p) ?n" by (simp add: evt_queue_def sel)
  also have "\<dots> = due (node\<lparr>seq_rd_idx := seq_rd_idx node + 1\<rparr>) (evt_not p) ?n" by (rule due_cong) (simp_all add: sel)
  also have "\<dots> = tl (due node p (Suc ?n))" by (rule due_tl)
  finally have q': "evt_queue ?node = tl (due node p (Suc ?n))" .
  then show "evt_queue node = (p, ring_at node 0) # evt_queue ?node"
    unfolding q by (simp only: due_Cons list.sel)
  show "cb_log ?node = cb_log node @ [(p, False, ring_at node 0)]"
    by (simp add: evt_work_cb_def hmdfs_run_evt_cb_verbosely_def Let_def)
  show "newest_evt ?node = newest_evt node" using p by (simp add: newest_evt_def sel)
  have "length (evt_queue ?node) = ?n" unfolding q' by simp
  moreover have "seq_wr_idx node = seq_rd_idx node + of_nat (Suc ?n)" using inv p q by (simp add: evt_inv_def)
  ultimately show "evt_inv ?node" using inv p by (simp add: evt_inv_def sel)
qed

lemma work_next_step:
  assumes inv: "evt_inv node" and "dwork node = Work_Running" and p: "pending_evt node = Some p"
  shows "evt_inv (evt_work_next node p)" and "evt_queue (evt_work_next node p) = evt_queue node"
    and "cb_log (evt_work_next node p) = cb_log node" and "newest_evt (evt_work_next node p) = newest_evt node"
proof -
  let ?n = "hmdfs_node_waiting_evt_sum node"
  let ?node = "evt_work_next node p"
  have w: "waiting_evt node (evt_not p) = (?n + 1) div 2" "waiting_evt node p = ?n div 2" "waiting_evt node RAW_NODE_EVT_OFF \<le> 1"
    and wr: "seq_wr_idx node = seq_rd_idx node + of_nat ?n" and len: "length (seq_tbl node) = 4"
    using inv p assms(2) by (simp_all add: evt_inv_def evt_queue_def)
  have both: "waiting_evt node p + waiting_evt node (evt_not p) = ?n"
    by (cases p) (simp_all add: hmdfs_node_waiting_evt_sum_def)
  show "cb_log ?node = cb_log node" by (simp add: evt_work_next_def Let_def)
  have "evt_inv ?node \<and> evt_queue ?node = evt_queue node \<and> newest_evt ?node = newest_evt node"
  proof (cases "?n = 0")
    case True
    have z: "waiting_evt node e = 0" for e
      using True by (cases e) (simp_all add: hmdfs_node_waiting_evt_sum_def)
    then show ?thesis
      using True p assms(2) wr len
      by (simp add: evt_work_next_def evt_inv_def evt_queue_def newest_evt_def due_def)
  next
    case False
    let ?q = "evt_not p"
    have sel: "pending_evt ?node = Some ?q" "dwork ?node = Work_Queued" "seq_rd_idx ?node = seq_rd_idx node"
      "seq_tbl ?node = seq_tbl node" "waiting_evt ?node = (waiting_evt node)(?q := waiting_evt node ?q - 1)"
      "seq_wr_idx ?node = seq_wr_idx node"
      using False by (simp_all add: evt_work_next_def Let_def)
    have pos: "0 < waiting_evt node ?q" using False w(1) by simp
    have sum: "hmdfs_node_waiting_evt_sum ?node = ?n - 1"
      unfolding hmdfs_node_waiting_evt_sum_def sel using pos by (cases p) simp_all
    have "due ?node ?q (Suc (?n - 1)) = due node ?q ?n" using False due_cong [of ?node node] by (simp add: sel)
    then have q: "evt_queue ?node = evt_queue node" using assms(2) p by (simp add: evt_queue_def sel sum)
    have "evt_queue node = due node ?q ?n" using assms(2) p by (simp add: evt_queue_def)
    then have lq: "length (evt_queue node) = ?n" by simp
    have w': "waiting_evt ?node p = (?n - 1 + 1) div 2" "waiting_evt ?node ?q = (?n - 1) div 2"
      "waiting_evt ?node RAW_NODE_EVT_OFF \<le> 1"
      using w False by (simp_all add: sel fun_upd_def) (cases p; simp)
    have "alt ?q (?n - 1) = alt p ?n" using False by (cases ?n) (simp_all add: alt_parity)
    then have "newest_evt ?node = newest_evt node" using p by (simp add: newest_evt_def sel sum)
    moreover have "evt_inv ?node" using w' wr len lq q by (simp add: evt_inv_def sel sum)
    ultimately show ?thesis using q by blast
  qed
  then show "evt_inv ?node" "evt_queue ?node = evt_queue node" "newest_evt ?node = newest_evt node" by blast+
qed

section \<open>What holds of every run\<close>

lemma log_app [simp]:
  "cb_log node' = cb_log node @ [(e, True, s)] \<Longrightarrow> sync_log node' = sync_log node @ [(e, s)] \<and> async_log node' = async_log node"
  "cb_log node' = cb_log node @ [(e, False, s)] \<Longrightarrow> async_log node' = async_log node @ [(e, s)] \<and> sync_log node' = sync_log node"
  by (simp_all add: sync_log_def async_log_def)

text \<open>One step of the queue as the step relation sees it.\<close>

lemma queue_step:
  fixes evt :: raw_evt
  assumes inv: "evt_inv node"
  defines "node' \<equiv> hmdfs_queue_raw_node_evt node evt"
  shows "evt_inv node'"
    and "evt_queue node' = enqueue (newest_evt node) (hmdfs_node_waiting_evt_sum node) evt (evt_seq node + 1) (evt_queue node)"
    and "cb_log node' = (if newest_evt node = Some evt then cb_log node else cb_log node @ [(evt, True, evt_seq node + 1)])"
    and "newest_evt node' = Some evt"
proof -
  have "evt_inv node' \<and> evt_queue node' = enqueue (newest_evt node) (hmdfs_node_waiting_evt_sum node) evt (evt_seq node + 1) (evt_queue node)
    \<and> cb_log node' = (if newest_evt node = Some evt then cb_log node else cb_log node @ [(evt, True, evt_seq node + 1)])"
  proof (cases "newest_evt node = Some evt")
    case True
    then show ?thesis
      using queue_duplicate [OF True] evt_inv_cong [of node' node] inv by (simp add: node'_def enqueue_def)
  next
    case new: False
    show ?thesis
    proof (cases "pending_evt node")
      case None
      have "hmdfs_node_waiting_evt_sum node = 0" "evt_queue node = []"
        using inv None by (simp_all add: evt_inv_def hmdfs_node_waiting_evt_sum_def evt_queue_def)
      then show ?thesis
        using queue_idle [OF inv None, of evt] new None by (simp add: node'_def enqueue_def newest_evt_def)
    next
      case (Some p)
      then have "evt = alt p (Suc (hmdfs_node_waiting_evt_sum node))"
        using new by (simp add: newest_evt_def) (metis evt_neq_iff)
      then show ?thesis using queue_waiting [OF inv Some, of evt] new by (simp add: node'_def)
    qed
  qed
  then show i: "evt_inv node'" and q: "evt_queue node' = enqueue (newest_evt node) (hmdfs_node_waiting_evt_sum node) evt (evt_seq node + 1) (evt_queue node)"
    and "cb_log node' = (if newest_evt node = Some evt then cb_log node else cb_log node @ [(evt, True, evt_seq node + 1)])" by blast+
  show "newest_evt node' = Some evt"
  proof (cases "newest_evt node = Some evt")
    case True
    then show ?thesis
      using queue_duplicate [OF True] by (simp add: node'_def newest_evt_def hmdfs_node_waiting_evt_sum_def split: option.splits)
  next
    case False
    then have last: "evt_queue node' \<noteq> []" "fst (List.last (evt_queue node')) = evt" using q by (auto simp: enqueue_def)
    then obtain p where p: "pending_evt node' = Some p" "dwork node' \<noteq> Work_Idle"
      using i by (cases "pending_evt node'") (auto simp: evt_inv_def evt_queue_def)
    obtain e m where f: "evt_queue node' = due node' e m" "\<And>k. alt e (m + k) = alt p (Suc (hmdfs_node_waiting_evt_sum node') + k)"
      using queue_Some_form [OF p] by metis
    from last(1) f(1) obtain m' where m': "m = Suc m'" by (cases m) (auto simp: due_def)
    have "fst (List.last (evt_queue node')) = alt e m'" unfolding f(1) m' by (simp add: due_def)
    moreover have "alt e m' = alt p (hmdfs_node_waiting_evt_sum node')" using f(2) [of 1] by (simp add: m' alt_parity)
    ultimately show ?thesis using last(2) p by (simp add: newest_evt_def)
  qed
qed

lemma subseq_enqueue:
  assumes "subseq (a @ q) s" and "newest \<noteq> Some evt"
  shows "subseq (a @ enqueue newest w evt x q) (s @ [(evt, x)])"
proof -
  have "subseq (a @ (if evt = RAW_NODE_EVT_OFF \<and> 2 \<le> w then take (length q - 2) q else q)) (a @ q)"
    by (auto intro: list_emb_append_mono prefix_imp_subseq take_is_prefix)
  then have "subseq (a @ (if evt = RAW_NODE_EVT_OFF \<and> 2 \<le> w then take (length q - 2) q else q)) s"
    using assms(1) by (rule subseq_order.trans)
  then have "subseq ((a @ (if evt = RAW_NODE_EVT_OFF \<and> 2 \<le> w then take (length q - 2) q else q)) @ [(evt, x)]) (s @ [(evt, x)])"
    by (intro list_emb_append_mono) auto
  then show ?thesis using assms(2) by (simp add: enqueue_def)
qed

lemma sync_log_empty: "cb_log node' = cb_log node \<Longrightarrow> sync_log node' = sync_log node \<and> async_log node' = async_log node"
  by (simp add: sync_log_def async_log_def)

text \<open>
  The asynchronous callbacks that have run, followed by the events that are due,
  are a subsequence of the synchronous callbacks; the newest event is that of
  the last synchronous callback, and the event whose callback ran last is known.
\<close>

definition last_cb :: "(raw_evt \<times> u32) list \<Rightarrow> raw_evt option" where
  "last_cb l = (if l = [] then None else Some (fst (last l)))"

definition work_ok :: "evt_dwork \<Rightarrow> raw_evt option \<Rightarrow> raw_evt option \<Rightarrow> raw_evt option \<Rightarrow> bool" where
  "work_ok dw pending done_evt idle \<longleftrightarrow> (case (dw, pending) of
       (Work_Queued, Some p) \<Rightarrow> done_evt \<noteq> Some p
     | (Work_Running, Some p) \<Rightarrow> done_evt = Some p
     | _ \<Rightarrow> done_evt = idle)"

definition run_inv :: "node_evts \<Rightarrow> bool" where
  "run_inv node \<longleftrightarrow> evt_inv node \<and> subseq (async_log node @ evt_queue node) (sync_log node)
     \<and> newest_evt node = last_cb (sync_log node)
     \<and> distinct_adj (map fst (sync_log node)) \<and> distinct_adj (map fst (async_log node))
     \<and> work_ok (dwork node) (pending_evt node) (last_cb (async_log node)) (last_evt node)"

lemma last_cb_app [simp]: "last_cb (l @ [(e, s)]) = Some e"
  by (simp add: last_cb_def)

lemma adj_app:
  assumes "distinct_adj (map fst l)" and "last_cb l \<noteq> Some e"
  shows "distinct_adj (map fst (l @ [(e, s)]))"
  using assms by (auto simp: distinct_adj_append_iff last_cb_def last_map split: if_splits)

lemma queue_keeps:
  assumes "evt_inv node"
  shows "pending_evt node \<noteq> None \<Longrightarrow> pending_evt (hmdfs_queue_raw_node_evt node evt) = pending_evt node
           \<and> dwork (hmdfs_queue_raw_node_evt node evt) = dwork node"
    and "pending_evt node = None \<Longrightarrow> newest_evt node \<noteq> Some evt \<Longrightarrow>
           pending_evt (hmdfs_queue_raw_node_evt node evt) = Some evt \<and> dwork (hmdfs_queue_raw_node_evt node evt) = Work_Queued"
    and "last_evt (hmdfs_queue_raw_node_evt node evt) = last_evt node"
  by (auto simp: hmdfs_queue_raw_node_evt_def newest_evt_def hmdfs_run_evt_cb_verbosely_def hmdfs_node_inc_evt_seq_def
      hmdfs_update_node_waiting_evt_def merge_waiting_def add_waiting_def Let_def split: option.splits prod.splits if_splits)

lemma run_inv_step: "evt_step node node' \<Longrightarrow> run_inv node \<Longrightarrow> run_inv node'"
proof (induction rule: evt_step.induct)
  case (queue node evt)
  then have inv: "evt_inv node" and sub: "subseq (async_log node @ evt_queue node) (sync_log node)"
    and new: "newest_evt node = last_cb (sync_log node)" and adj: "distinct_adj (map fst (sync_log node))"
    by (simp_all add: run_inv_def)
  note q = queue_step [OF inv, of evt]
  show ?case
  proof (cases "newest_evt node = Some evt")
    case True
    have eq: "pending_evt (hmdfs_queue_raw_node_evt node evt) = pending_evt node" "dwork (hmdfs_queue_raw_node_evt node evt) = dwork node"
      "last_evt (hmdfs_queue_raw_node_evt node evt) = last_evt node"
      using queue_duplicate [OF True] by simp_all
    have "cb_log (hmdfs_queue_raw_node_evt node evt) = cb_log node" using q(3) True by simp
    note l = sync_log_empty [OF this]
    show ?thesis
      using q(1,2,4) queue.prems l True unfolding run_inv_def eq by (simp add: enqueue_def)
  next
    case False
    have l: "sync_log (hmdfs_queue_raw_node_evt node evt) = sync_log node @ [(evt, evt_seq node + 1)]"
      "async_log (hmdfs_queue_raw_node_evt node evt) = async_log node"
      using q(3) False by simp_all
    have "distinct_adj (map fst (sync_log node @ [(evt, evt_seq node + 1)]))"
      by (rule adj_app [OF adj]) (use False new in simp)
    moreover have "work_ok (dwork (hmdfs_queue_raw_node_evt node evt)) (pending_evt (hmdfs_queue_raw_node_evt node evt))
        (last_cb (async_log node)) (last_evt node)"
    proof (cases "pending_evt node")
      case None
      then have "last_cb (async_log node) = last_evt node" "newest_evt node = last_evt node"
        using queue.prems by (auto simp: run_inv_def newest_evt_def evt_inv_def work_ok_def)
      then show ?thesis using queue_keeps(2) [OF inv None False] False by (simp add: work_ok_def)
    next
      case (Some p)
      then show ?thesis
        using queue_keeps(1) [OF inv, of evt] queue.prems by (simp add: run_inv_def)
    qed
    ultimately show ?thesis
      using q(1,2,4) l subseq_enqueue [OF sub False] queue.prems queue_keeps(3) [OF inv]
      unfolding run_inv_def by simp
  qed
next
  case (work_cb node p)
  note st = work_cb_step [OF _ work_cb.hyps]
  have inv: "evt_inv node" using work_cb.prems by (simp add: run_inv_def)
  have l: "async_log (evt_work_cb node p) = async_log node @ [(p, ring_at node 0)]" "sync_log (evt_work_cb node p) = sync_log node"
    using st(3) [OF inv] by simp_all
  have sel: "pending_evt (evt_work_cb node p) = Some p" "dwork (evt_work_cb node p) = Work_Running"
    using work_cb.hyps by (simp_all add: evt_work_cb_def hmdfs_run_evt_cb_verbosely_def Let_def)
  have "distinct_adj (map fst (async_log node @ [(p, ring_at node 0)]))"
    by (rule adj_app) (use work_cb in \<open>auto simp: run_inv_def work_ok_def\<close>)
  then show ?case using work_cb.prems st(1,2,4) [OF inv] unfolding run_inv_def l sel by (simp add: work_ok_def)
next
  case (work_next node p)
  note st = work_next_step [OF _ work_next.hyps]
  have inv: "evt_inv node" using work_next.prems by (simp add: run_inv_def)
  note l = sync_log_empty [OF st(3) [OF inv]]
  have "last_cb (async_log node) = Some p" using work_next by (simp add: run_inv_def work_ok_def)
  then have "work_ok (dwork (evt_work_next node p)) (pending_evt (evt_work_next node p)) (last_cb (async_log node))
      (last_evt (evt_work_next node p))"
    by (simp add: evt_work_next_def work_ok_def Let_def)
  then show ?case using work_next.prems st(1,2,4) [OF inv] l unfolding run_inv_def by simp
next
  case (inc_seq node)
  then show ?case
    using evt_inv_cong [of "snd (hmdfs_node_inc_evt_seq node)" node]
    by (simp add: run_inv_def hmdfs_node_inc_evt_seq_def sync_log_def async_log_def newest_evt_def
        hmdfs_node_waiting_evt_sum_def cong: option.case_cong)
qed

lemma run_inv_reachable: "evt_reachable node \<Longrightarrow> run_inv node"
proof (induction rule: evt_reachable.induct)
  case init
  then show ?case
    by (simp add: run_inv_def evt_inv_def alloc_peer_evts_def async_log_def sync_log_def evt_queue_def newest_evt_def last_cb_def
        work_ok_def)
qed (rule run_inv_step)

text \<open>
  C12 (refinement). The pending event, the two counters and the ring of four
  sequence numbers are a queue of events: queueing an event drops a duplicate of
  the newest one, lets an offline event replace a waiting offline and online
  event, and otherwise appends the event with its sequence number.
\<close>

theorem queue_raw_node_evt_refines:
  assumes "evt_inv node"
  shows "evt_inv (hmdfs_queue_raw_node_evt node evt)
    \<and> evt_queue (hmdfs_queue_raw_node_evt node evt) =
        enqueue (newest_evt node) (hmdfs_node_waiting_evt_sum node) evt (evt_seq node + 1) (evt_queue node)"
  using queue_step [OF assms] by blast

lemma evt_inv_init: "evt_inv alloc_peer_evts"
  by (simp add: evt_inv_def alloc_peer_evts_def evt_queue_def)

theorem queue_raw_node_evt_refines_witness:
  "evt_queue (hmdfs_queue_raw_node_evt alloc_peer_evts RAW_NODE_EVT_ON) = [(RAW_NODE_EVT_ON, 1)]"
  using queue_raw_node_evt_refines [OF evt_inv_init, of RAW_NODE_EVT_ON]
  by (simp add: enqueue_def newest_evt_def alloc_peer_evts_def evt_queue_def)

text \<open>
  C31 (bounds). In every run the ring is large enough: at most four events are
  due, the write index is that many places after the read index although both
  wrap around, and the counters of waiting events stay at most 2.
\<close>

theorem evt_ring_bounds:
  assumes "evt_reachable node"
  shows "length (evt_queue node) \<le> RAW_NODE_EVT_MAX_NR \<and> length (seq_tbl node) = RAW_NODE_EVT_MAX_NR
    \<and> seq_wr_idx node = seq_rd_idx node + of_nat (length (evt_queue node))
    \<and> waiting_evt node RAW_NODE_EVT_OFF \<le> 1 \<and> waiting_evt node RAW_NODE_EVT_ON \<le> 2"
proof -
  have inv: "evt_inv node" using run_inv_reachable [OF assms] by (simp add: run_inv_def)
  show ?thesis
  proof (cases "pending_evt node")
    case None
    then show ?thesis using inv by (simp add: evt_inv_def evt_queue_def)
  next
    case (Some p)
    let ?n = "hmdfs_node_waiting_evt_sum node"
    have w: "waiting_evt node (evt_not p) = (?n + 1) div 2" "waiting_evt node p = ?n div 2" "waiting_evt node RAW_NODE_EVT_OFF \<le> 1"
      using inv Some by (simp_all add: evt_inv_def)
    then have n: "?n \<le> 3" by (cases p) auto
    then have "waiting_evt node RAW_NODE_EVT_ON \<le> 2" using w(1,2) by (cases p) auto
    moreover have "length (evt_queue node) \<le> Suc ?n"
      using Some by (cases "dwork node") (simp_all add: evt_queue_def)
    ultimately show ?thesis using inv Some n w(3) by (simp add: evt_inv_def)
  qed
qed

lemma evt_reachable_queue: "evt_reachable node \<Longrightarrow> evt_reachable (hmdfs_queue_raw_node_evt node evt)"
  by (rule evt_reachable.step) (auto intro: evt_step.queue)

theorem evt_ring_bounds_witness:
  "length (evt_queue (hmdfs_queue_raw_node_evt alloc_peer_evts RAW_NODE_EVT_ON)) \<le> RAW_NODE_EVT_MAX_NR"
  using evt_ring_bounds [OF evt_reachable_queue [OF evt_reachable.init]] by blast

text \<open>
  C32 (safety). The order the comment in the code promises: in every run the
  asynchronous callbacks are a subsequence of the synchronous ones, with the same
  events and sequence numbers and after them, also together with the events that
  are still due; and no two consecutive callbacks of either kind are for the same
  event.
\<close>

theorem evt_callback_order:
  assumes "evt_reachable node"
  shows "subseq (async_log node @ evt_queue node) (sync_log node)
    \<and> distinct_adj (map fst (sync_log node)) \<and> distinct_adj (map fst (async_log node))"
  using run_inv_reachable [OF assms] by (simp add: run_inv_def)

theorem evt_callback_order_witness:
  "subseq (async_log (hmdfs_queue_raw_node_evt alloc_peer_evts RAW_NODE_EVT_ON) @ [(RAW_NODE_EVT_ON, 1)])
     (sync_log (hmdfs_queue_raw_node_evt alloc_peer_evts RAW_NODE_EVT_ON))"
  using evt_callback_order [OF evt_reachable_queue [OF evt_reachable.init], of RAW_NODE_EVT_ON]
    queue_step(2) [OF evt_inv_init, of RAW_NODE_EVT_ON]
  by (simp add: enqueue_def newest_evt_def alloc_peer_evts_def evt_queue_def)

lemma evt_work_once:
  assumes "evt_inv node" and "dwork node = Work_Queued"
  shows "evt_inv (hmdfs_node_evt_work node)"
    and "\<exists>x. evt_queue node = x # evt_queue (hmdfs_node_evt_work node)
           \<and> async_log (hmdfs_node_evt_work node) = async_log node @ [x]"
    and "dwork (hmdfs_node_evt_work node) = (if evt_queue (hmdfs_node_evt_work node) = [] then Work_Idle else Work_Queued)"
proof -
  obtain p where p: "pending_evt node = Some p" using assms by (cases "pending_evt node") (auto simp: evt_inv_def)
  let ?n1 = "evt_work_cb node p"
  note cb = work_cb_step [OF assms p]
  have sel: "dwork ?n1 = Work_Running" "pending_evt ?n1 = Some p"
    using p by (simp_all add: evt_work_cb_def hmdfs_run_evt_cb_verbosely_def Let_def)
  note nx = work_next_step [OF cb(1) sel]
  have w: "hmdfs_node_evt_work node = evt_work_next ?n1 p" using p by (simp add: hmdfs_node_evt_work_def)
  show "evt_inv (hmdfs_node_evt_work node)" unfolding w by (rule nx(1))
  show "\<exists>x. evt_queue node = x # evt_queue (hmdfs_node_evt_work node)
           \<and> async_log (hmdfs_node_evt_work node) = async_log node @ [x]"
    unfolding w nx(2) using cb(2,3) sync_log_empty [OF nx(3)] by simp
  have q1: "evt_queue ?n1 = due ?n1 (evt_not p) (hmdfs_node_waiting_evt_sum ?n1)" by (simp add: evt_queue_def sel)
  have "evt_queue ?n1 = [] \<longleftrightarrow> hmdfs_node_waiting_evt_sum ?n1 = 0" unfolding q1 by (simp add: due_def)
  then show "dwork (hmdfs_node_evt_work node) = (if evt_queue (hmdfs_node_evt_work node) = [] then Work_Idle else Work_Queued)"
    unfolding w nx(2) by (simp add: evt_work_next_def Let_def)
qed

text \<open>
  Every due event gets its asynchronous callback: running the work
  once per due event empties the queue, in its order, and leaves the peer idle.
\<close>

theorem evt_work_drains:
  assumes "evt_inv node" and "dwork node = Work_Queued"
  shows "let node' = (hmdfs_node_evt_work ^^ length (evt_queue node)) node in
    dwork node' = Work_Idle \<and> evt_queue node' = [] \<and> async_log node' = async_log node @ evt_queue node"
proof -
  have "\<lbrakk>evt_inv node; dwork node = Work_Queued; evt_queue node = q\<rbrakk> \<Longrightarrow>
    dwork ((hmdfs_node_evt_work ^^ length q) node) = Work_Idle \<and> evt_queue ((hmdfs_node_evt_work ^^ length q) node) = []
    \<and> async_log ((hmdfs_node_evt_work ^^ length q) node) = async_log node @ q" for q
  proof (induction q arbitrary: node)
    case Nil
    then show ?case using evt_work_once(2) [of node] by simp
  next
    case (Cons x q)
    note w = evt_work_once [OF Cons.prems(1,2)]
    have q: "evt_queue (hmdfs_node_evt_work node) = q" and l: "async_log (hmdfs_node_evt_work node) = async_log node @ [x]"
      using w(2) Cons.prems(3) by auto
    show ?case
    proof (cases "q = []")
      case True
      then show ?thesis using w(3) q l by simp
    next
      case False
      then have "dwork (hmdfs_node_evt_work node) = Work_Queued" using w(3) q by simp
      then show ?thesis using Cons.IH [OF w(1) _ q] l by (simp add: funpow_swap1)
    qed
  qed
  then show ?thesis using assms by (simp add: Let_def)
qed

theorem evt_work_drains_witness:
  "async_log (hmdfs_node_evt_work (hmdfs_queue_raw_node_evt alloc_peer_evts RAW_NODE_EVT_ON)) = [(RAW_NODE_EVT_ON, 1)]"
proof -
  let ?n = "hmdfs_queue_raw_node_evt alloc_peer_evts RAW_NODE_EVT_ON"
  have "evt_queue ?n = [(RAW_NODE_EVT_ON, 1)]" "evt_inv ?n"
    using queue_step(1,2) [OF evt_inv_init, of RAW_NODE_EVT_ON]
    by (simp_all add: enqueue_def newest_evt_def alloc_peer_evts_def evt_queue_def)
  moreover have "dwork ?n = Work_Queued" "async_log ?n = []"
    by (simp_all add: hmdfs_queue_raw_node_evt_def alloc_peer_evts_def hmdfs_node_inc_evt_seq_def
        hmdfs_run_evt_cb_verbosely_def async_log_def)
  ultimately show ?thesis using evt_work_drains [of ?n] by (simp add: Let_def)
qed

end
