(* ===== verification/Node_Cb.thy ===== *)
theory Node_Cb
  imports Node_Event
begin

text \<open>
  The callbacks of the events of a peer (\<open>src/hmdfs/comm/node_cb.c\<close>): lists by event
  and kind that the module fills once, and their calls. The callbacks themselves are
  modelled with their components; here they are functions on any state.
\<close>

abbreviation (input) NODE_EVT_ADD :: int where "NODE_EVT_ADD \<equiv> 0"
abbreviation (input) NODE_EVT_ONLINE :: int where "NODE_EVT_ONLINE \<equiv> 1"
abbreviation (input) NODE_EVT_OFFLINE :: int where "NODE_EVT_OFFLINE \<equiv> 2"
abbreviation (input) NODE_EVT_DEL :: int where "NODE_EVT_DEL \<equiv> 3"
abbreviation (input) NODE_EVT_NR :: int where "NODE_EVT_NR \<equiv> 4"

record 'f hmdfs_node_cb_desc =
  cb_evt :: int
  cb_sync :: bool
  cb_fn :: 'f

type_synonym 'f cb_heads = "int \<Rightarrow> bool \<Rightarrow> 'f list"

definition hmdfs_is_valid_node_evt :: "int \<Rightarrow> bool" where
  "hmdfs_is_valid_node_evt evt \<longleftrightarrow> 0 \<le> evt \<and> evt < NODE_EVT_NR"

definition hmdfs_node_evt_cb_init :: "'f cb_heads" where
  "hmdfs_node_evt_cb_init = (\<lambda>evt sync. [])"

fun hmdfs_node_add_evt_cb :: "'f hmdfs_node_cb_desc list \<Rightarrow> 'f cb_heads \<Rightarrow> 'f cb_heads" where
  "hmdfs_node_add_evt_cb [] heads = heads"
| "hmdfs_node_add_evt_cb (d # ds) heads =
     (if \<not> hmdfs_is_valid_node_evt (cb_evt d) then hmdfs_node_add_evt_cb ds heads
      else hmdfs_node_add_evt_cb ds
             (heads(cb_evt d := (heads (cb_evt d))(cb_sync d := heads (cb_evt d) (cb_sync d) @ [cb_fn d]))))"

definition hmdfs_node_call_evt_cb :: "('s \<Rightarrow> int \<Rightarrow> u32 \<Rightarrow> 's) cb_heads \<Rightarrow> int \<Rightarrow> bool \<Rightarrow> u32 \<Rightarrow> 's \<Rightarrow> 's" where
  "hmdfs_node_call_evt_cb heads evt sync seq conn =
     (if \<not> hmdfs_is_valid_node_evt evt then conn else fold (\<lambda>f c. f c evt seq) (heads evt sync) conn)"

text \<open>The event a raw event of the queue is reported as.\<close>

definition raw_evt_event :: "raw_evt \<Rightarrow> int" where
  "raw_evt_event raw = (if raw = RAW_NODE_EVT_OFF then NODE_EVT_OFFLINE else NODE_EVT_ONLINE)"

section \<open>Registration of the module\<close>

datatype node_callback =
    hmdfs_stash_offline_prepare_cb | hmdfs_stash_offline_do_stash_cb | hmdfs_stash_add_do_check_cb
  | hmdfs_stash_online_prepare_cb | hmdfs_stash_online_do_restore_cb | hmdfs_stash_del_do_cleanup_cb
  | hmdfs_client_offline_notify_cb | hmdfs_server_offline_notify_cb

definition stash_cb :: "node_callback hmdfs_node_cb_desc list" where
  "stash_cb =
     [\<lparr>cb_evt = NODE_EVT_OFFLINE, cb_sync = True, cb_fn = hmdfs_stash_offline_prepare_cb\<rparr>,
      \<lparr>cb_evt = NODE_EVT_OFFLINE, cb_sync = False, cb_fn = hmdfs_stash_offline_do_stash_cb\<rparr>,
      \<lparr>cb_evt = NODE_EVT_ADD, cb_sync = True, cb_fn = hmdfs_stash_add_do_check_cb\<rparr>,
      \<lparr>cb_evt = NODE_EVT_ONLINE, cb_sync = False, cb_fn = hmdfs_stash_online_prepare_cb\<rparr>,
      \<lparr>cb_evt = NODE_EVT_ONLINE, cb_sync = False, cb_fn = hmdfs_stash_online_do_restore_cb\<rparr>,
      \<lparr>cb_evt = NODE_EVT_DEL, cb_sync = True, cb_fn = hmdfs_stash_del_do_cleanup_cb\<rparr>]"

definition client_cb :: "node_callback hmdfs_node_cb_desc list" where
  "client_cb = [\<lparr>cb_evt = NODE_EVT_OFFLINE, cb_sync = True, cb_fn = hmdfs_client_offline_notify_cb\<rparr>]"

definition server_cb :: "node_callback hmdfs_node_cb_desc list" where
  "server_cb = [\<lparr>cb_evt = NODE_EVT_OFFLINE, cb_sync = True, cb_fn = hmdfs_server_offline_notify_cb\<rparr>]"

definition module_callbacks :: "node_callback cb_heads" where
  "module_callbacks = hmdfs_node_add_evt_cb server_cb (hmdfs_node_add_evt_cb client_cb
     (hmdfs_node_add_evt_cb stash_cb hmdfs_node_evt_cb_init))"

section \<open>Order of the calls\<close>

lemma add_evt_cb_at:
  "hmdfs_node_add_evt_cb ds heads evt sync =
     heads evt sync @ map cb_fn (filter (\<lambda>d. hmdfs_is_valid_node_evt evt \<and> cb_evt d = evt \<and> cb_sync d = sync) ds)"
  by (induction ds arbitrary: heads) auto

text \<open>
  A call of the callbacks of an event runs exactly those registered for the event
  and the kind, in the order of their registration; registering more of them appends
  their calls.
\<close>

lemma call_after_add:
  assumes "hmdfs_is_valid_node_evt evt"
  shows "hmdfs_node_call_evt_cb (hmdfs_node_add_evt_cb ds heads) evt sync seq conn =
    fold (\<lambda>d c. cb_fn d c evt seq) (filter (\<lambda>d. cb_evt d = evt \<and> cb_sync d = sync) ds)
      (hmdfs_node_call_evt_cb heads evt sync seq conn)"
  using assms by (simp add: hmdfs_node_call_evt_cb_def add_evt_cb_at fold_map comp_def)

text \<open>
  The module reports going offline at once to the stash, which marks the inodes,
  before the client wakes its waiters and the server closes its files, and only later
  stashes; when a peer is online again its list of stashed inodes is rebuilt before
  the files are restored.
\<close>

lemma module_callback_order:
  "module_callbacks (raw_evt_event RAW_NODE_EVT_OFF) True =
     [hmdfs_stash_offline_prepare_cb, hmdfs_client_offline_notify_cb, hmdfs_server_offline_notify_cb]"
  "module_callbacks (raw_evt_event RAW_NODE_EVT_OFF) False = [hmdfs_stash_offline_do_stash_cb]"
  "module_callbacks (raw_evt_event RAW_NODE_EVT_ON) True = []"
  "module_callbacks (raw_evt_event RAW_NODE_EVT_ON) False = [hmdfs_stash_online_prepare_cb, hmdfs_stash_online_do_restore_cb]"
  "module_callbacks NODE_EVT_ADD True = [hmdfs_stash_add_do_check_cb]"
  "module_callbacks NODE_EVT_DEL True = [hmdfs_stash_del_do_cleanup_cb]"
  by (simp_all add: module_callbacks_def add_evt_cb_at hmdfs_node_evt_cb_init_def stash_cb_def client_cb_def server_cb_def
      raw_evt_event_def hmdfs_is_valid_node_evt_def)

end
