(* ===== verification/Protocol.thy ===== *)
theory Protocol
  imports Hmdfs_Prelude
begin

text \<open>
  The wire protocol of hmdfs (\<open>src/hmdfs/comm/protocol.h\<close>): the command
  numbers, the message head and the packed request and response bodies. A
  head is a record with its byte encoding and the reading of it; a body is
  read in place by the code, so it is the layout of its fields (a trailing
  \<open>char buf[0]\<close> has size 0 and is what follows the layout). All fields are
  little-endian, and so is the machine: the code reads most body fields
  without \<open>le32_to_cpu\<close>.
\<close>

section \<open>Commands and flags\<close>

datatype CMD_FLAG = C_REQUEST | C_RESPONSE

datatype FILE_CMD =
    F_OPEN | F_RELEASE | F_READPAGE | F_WRITEPAGE | F_ITERATE
  | F_RESERVED_1 | F_RESERVED_2 | F_RESERVED_3 | F_RESERVED_4
  | F_MKDIR | F_RMDIR | F_CREATE | F_UNLINK | F_RENAME | F_SETATTR
  | F_RESERVED_5 | F_STATFS | F_CONNECT_REKEY | F_DROP_PUSH | F_RESERVED_6
  | F_GETATTR | F_FSYNC | F_SYNCFS | F_GETXATTR | F_SETXATTR | F_LISTXATTR
  | F_RESERVED_7 | F_RESERVED_8 | F_ATOMIC_OPEN

definition file_cmds :: "FILE_CMD list" where
  "file_cmds =
    [F_OPEN, F_RELEASE, F_READPAGE, F_WRITEPAGE, F_ITERATE,
     F_RESERVED_1, F_RESERVED_2, F_RESERVED_3, F_RESERVED_4,
     F_MKDIR, F_RMDIR, F_CREATE, F_UNLINK, F_RENAME, F_SETATTR,
     F_RESERVED_5, F_STATFS, F_CONNECT_REKEY, F_DROP_PUSH, F_RESERVED_6,
     F_GETATTR, F_FSYNC, F_SYNCFS, F_GETXATTR, F_SETXATTR, F_LISTXATTR,
     F_RESERVED_7, F_RESERVED_8, F_ATOMIC_OPEN]"

abbreviation (input) F_SIZE :: nat where "F_SIZE \<equiv> 29"

text \<open>The enum constant of a command number; \<open>None\<close> from \<open>F_SIZE\<close> on.\<close>

definition file_cmd :: "byte \<Rightarrow> FILE_CMD option" where
  "file_cmd c = (if unat c < F_SIZE then Some (file_cmds ! unat c) else None)"

definition cmd_flag_of :: "byte \<Rightarrow> CMD_FLAG option" where
  "cmd_flag_of f = (if f = 0 then Some C_REQUEST else if f = 1 then Some C_RESPONSE else None)"

abbreviation (input) HMDFS_MSG_MAGIC :: byte where "HMDFS_MSG_MAGIC \<equiv> 0xF7"
abbreviation (input) HMDFS_VERSION :: byte where "HMDFS_VERSION \<equiv> 0x40"
abbreviation (input) HMDFS_MAX_MESSAGE_LEN :: nat where "HMDFS_MAX_MESSAGE_LEN \<equiv> 8388608"
abbreviation (input) HMDFS_PAGE_SIZE :: nat where "HMDFS_PAGE_SIZE \<equiv> 4096"
abbreviation (input) HMDFS_XATTR_SIZE_MAX :: nat where "HMDFS_XATTR_SIZE_MAX \<equiv> 4096"
abbreviation (input) HMDFS_LISTXATTR_SIZE_MAX :: nat where "HMDFS_LISTXATTR_SIZE_MAX \<equiv> 4096"

lemma file_cmd_F_SIZE: "length file_cmds = F_SIZE"
  by (simp add: file_cmds_def)

lemma file_cmd_None_iff: "file_cmd c = None \<longleftrightarrow> F_SIZE \<le> unat c"
  by (simp add: file_cmd_def)

lemma file_cmd_inj: "file_cmd a = Some c \<Longrightarrow> file_cmd b = Some c \<Longrightarrow> a = b"
proof -
  assume a: "file_cmd a = Some c" and b: "file_cmd b = Some c"
  have "distinct file_cmds" by (simp add: file_cmds_def)
  with a b have "unat a = unat b"
    by (auto simp: file_cmd_def file_cmd_F_SIZE nth_eq_iff_index_eq split: if_splits)
  then show "a = b" by (simp only: word_unat_eq_iff)
qed

section \<open>The message head\<close>

record hmdfs_cmd =
  op_reserved :: byte
  cmd_flag :: byte
  command :: byte
  op_reserved2 :: byte

record hmdfs_head_cmd =
  magic :: byte
  version :: byte
  reserved :: u16
  data_len :: u32
  operations :: hmdfs_cmd
  ret_code :: u32
  msg_id :: u32
  reserved1 :: u32

abbreviation (input) HEAD_SIZE :: nat where "HEAD_SIZE \<equiv> 24"

definition le16 :: "u16 \<Rightarrow> byte list" where "le16 w = le_bytes 2 (unat w)"
definition le32 :: "u32 \<Rightarrow> byte list" where "le32 w = le_bytes 4 (unat w)"

definition hmdfs_cmd_bytes :: "hmdfs_cmd \<Rightarrow> byte list" where
  "hmdfs_cmd_bytes c = [op_reserved c, cmd_flag c, command c, op_reserved2 c]"

definition head_bytes :: "hmdfs_head_cmd \<Rightarrow> byte list" where
  "head_bytes h =
     [magic h, version h] @ le16 (reserved h) @ le32 (data_len h) @
     hmdfs_cmd_bytes (operations h) @ le32 (ret_code h) @ le32 (msg_id h) @ le32 (reserved1 h)"

definition cmd_at :: "byte list \<Rightarrow> nat \<Rightarrow> hmdfs_cmd" where
  "cmd_at m i = \<lparr>op_reserved = m ! i, cmd_flag = m ! (i + 1),
                 command = m ! (i + 2), op_reserved2 = m ! (i + 3)\<rparr>"

text \<open>The first 24 bytes of a buffer, read as a head.\<close>

definition read_head :: "byte list \<Rightarrow> hmdfs_head_cmd option" where
  "read_head m =
     (if length m < HEAD_SIZE then None
      else Some \<lparr>magic = m ! 0, version = m ! 1,
                 reserved = of_nat (le_val (take 2 (drop 2 m))),
                 data_len = of_nat (le_val (take 4 (drop 4 m))),
                 operations = cmd_at m 8,
                 ret_code = of_nat (le_val (take 4 (drop 12 m))),
                 msg_id = of_nat (le_val (take 4 (drop 16 m))),
                 reserved1 = of_nat (le_val (take 4 (drop 20 m)))\<rparr>)"

lemma length_le16 [simp]: "length (le16 w) = 2"
  by (simp add: le16_def)

lemma length_le32 [simp]: "length (le32 w) = 4"
  by (simp add: le32_def)

lemma le_val_le16 [simp]: "le_val (le16 w) = unat w"
  using unsigned_less [where 'a = nat, of w] by (simp add: le16_def le_val_le_bytes)

lemma le_val_le32 [simp]: "le_val (le32 w) = unat w"
  using unsigned_less [where 'a = nat, of w] by (simp add: le32_def le_val_le_bytes)

lemma length_hmdfs_cmd_bytes [simp]: "length (hmdfs_cmd_bytes c) = 4"
  by (simp add: hmdfs_cmd_bytes_def)

lemma length_head_bytes: "length (head_bytes h) = HEAD_SIZE"
  by (simp add: head_bytes_def)

lemma cmd_at_bytes: "length p = i \<Longrightarrow> cmd_at (p @ hmdfs_cmd_bytes c @ q) i = c"
  by (simp add: cmd_at_def hmdfs_cmd_bytes_def nth_append)

lemma read_head_bytes: "read_head (head_bytes h @ rest) = Some h"
proof -
  let ?m = "head_bytes h @ rest"
  have "cmd_at ?m 8 = operations h"
    using cmd_at_bytes [of "[magic h, version h] @ le16 (reserved h) @ le32 (data_len h)" 8]
    by (simp add: head_bytes_def)
  then show ?thesis
    by (simp add: read_head_def length_head_bytes) (simp add: head_bytes_def)
qed

lemma le16_of_bytes: "length bs = 2 \<Longrightarrow> le16 (of_nat (le_val bs)) = bs"
  using le_bytes_le_val [of bs] le_val_lt [of bs] by (simp add: le16_def unat_of_nat)

lemma le32_of_bytes: "length bs = 4 \<Longrightarrow> le32 (of_nat (le_val bs)) = bs"
  using le_bytes_le_val [of bs] le_val_lt [of bs] by (simp add: le32_def unat_of_nat)

lemma length_24_split:
  assumes "length m = 24"
  shows "m = [m ! 0, m ! 1] @ take 2 (drop 2 m) @ take 4 (drop 4 m) @ [m ! 8, m ! 9, m ! 10, m ! 11]
             @ take 4 (drop 12 m) @ take 4 (drop 16 m) @ take 4 (drop 20 m)"
  using assms by (simp add: list_eq_iff_nth_eq nth_append nth_Cons' less_Suc_eq numeral_eq_Suc)

lemma head_bytes_read_head:
  assumes "read_head m = Some h"
  shows "m = head_bytes h @ drop HEAD_SIZE m"
proof -
  have len: "24 \<le> length m" using assms by (simp add: read_head_def split: if_splits)
  then have parts: "length (take 2 (drop 2 m)) = 2" "length (take 4 (drop 4 m)) = 4" "length (take 4 (drop 12 m)) = 4"
    "length (take 4 (drop 16 m)) = 4" "length (take 4 (drop 20 m)) = 4" "length (take 24 m) = 24"
    by simp_all
  have "take 24 m = head_bytes h"
    using assms len length_24_split [OF parts(6)] parts(2-5) [THEN le32_of_bytes] parts(1) [THEN le16_of_bytes]
    by (auto simp: read_head_def head_bytes_def hmdfs_cmd_bytes_def cmd_at_def drop_take)
  then show ?thesis by (metis append_take_drop_id)
qed

text \<open>
  A message head survives the wire, and the encoding is exact:
  a buffer reads as a head exactly when it starts with the 24 bytes of that
  head, whatever follows them in the stream.
\<close>

theorem head_roundtrip: "read_head m = Some h \<longleftrightarrow> (\<exists>rest. m = head_bytes h @ rest)"
  using read_head_bytes head_bytes_read_head by metis

section \<open>Request and response bodies\<close>

definition slice_descriptor :: layout where
  "slice_descriptor =
    [(''num_slices'', 4), (''slice_size'', 4), (''slice_sn'', 4), (''content_size'', 4)]"

definition open_request :: layout where
  "open_request = [(''file_type'', 1), (''flags'', 4), (''path_len'', 4)]"

definition open_response :: layout where
  "open_response =
    [(''change_detect_cap'', 4), (''file_ver'', 8), (''file_id'', 4), (''file_size'', 8),
     (''ino'', 8), (''ctime'', 8), (''ctime_nsec'', 4), (''mtime'', 8), (''mtime_nsec'', 4),
     (''stable_ctime'', 8), (''stable_ctime_nsec'', 4), (''ichange_count'', 8)]"

definition atomic_open_request :: layout where
  "atomic_open_request =
    [(''open_flags'', 4), (''mode'', 2), (''reserved1'', 2), (''path_len'', 4),
     (''file_len'', 4), (''reserved2'', 4 * 8)]"

definition atomic_open_response :: layout where
  "atomic_open_response =
    [(''fno'', 4), (''i_mode'', 2), (''reserved1'', 2), (''i_flags'', 4), (''reserved2'', 4),
     (''reserved3'', 4 * 8), (''open_resp'', sizeof open_response)]"

definition release_request :: layout where
  "release_request = [(''file_ver'', 8), (''file_id'', 4)]"

definition fsync_request :: layout where
  "fsync_request =
    [(''file_ver'', 8), (''file_id'', 4), (''datasync'', 4), (''start'', 8), (''end'', 8)]"

definition readpage_request :: layout where
  "readpage_request = [(''file_ver'', 8), (''file_id'', 4), (''size'', 4), (''index'', 8)]"

definition writepage_request :: layout where
  "writepage_request = [(''file_ver'', 8), (''file_id'', 4), (''index'', 8), (''count'', 4)]"

definition writepage_response :: layout where
  "writepage_response = [(''ichange_count'', 8), (''ctime'', 8), (''ctime_nsec'', 4)]"

definition readdir_request :: layout where
  "readdir_request =
    [(''dcache_crtime'', 8), (''dcache_crtime_nsec'', 8), (''dentry_ctime'', 8),
     (''dentry_ctime_nsec'', 8), (''num'', 8), (''verify_cache'', 4), (''path_len'', 4)]"

definition hmdfs_inodeinfo_response :: layout where
  "hmdfs_inodeinfo_response =
    [(''i_size'', 8), (''i_mtime'', 8), (''i_mtime_nsec'', 4), (''fno'', 4), (''i_mode'', 2),
     (''i_ino'', 8), (''i_flags'', 4), (''i_reserved'', 4)]"

definition mkdir_request :: layout where
  "mkdir_request = [(''path_len'', 4), (''name_len'', 4), (''mode'', 2)]"

definition create_request :: layout where
  "create_request = [(''path_len'', 4), (''name_len'', 4), (''mode'', 2), (''want_excl'', 1)]"

definition rmdir_request :: layout where
  "rmdir_request = [(''path_len'', 4), (''name_len'', 4)]"

definition unlink_request :: layout where
  "unlink_request = [(''path_len'', 4), (''name_len'', 4)]"

definition rename_request :: layout where
  "rename_request =
    [(''old_path_len'', 4), (''new_path_len'', 4), (''old_name_len'', 4), (''new_name_len'', 4),
     (''flags'', 4)]"

definition drop_push_request :: layout where
  "drop_push_request = [(''path_len'', 4)]"

definition setattr_request :: layout where
  "setattr_request =
    [(''size'', 8), (''valid'', 4), (''mode'', 2), (''uid'', 4), (''gid'', 4), (''atime'', 8),
     (''atime_nsec'', 4), (''mtime'', 8), (''mtime_nsec'', 4), (''path_len'', 4)]"

definition getattr_request :: layout where
  "getattr_request = [(''lookup_flags'', 4), (''path_len'', 4)]"

definition getattr_response :: layout where
  "getattr_response =
    [(''change_detect_cap'', 4), (''result_mask'', 4), (''flags'', 4), (''fsid'', 8), (''mode'', 2),
     (''nlink'', 4), (''uid'', 4), (''gid'', 4), (''rdev'', 4), (''ino'', 8), (''size'', 8),
     (''blocks'', 8), (''blksize'', 4), (''atime'', 8), (''atime_nsec'', 4), (''mtime'', 8),
     (''mtime_nsec'', 4), (''ctime'', 8), (''ctime_nsec'', 4), (''crtime'', 8),
     (''crtime_nsec'', 4), (''ichange_count'', 8)]"

definition statfs_request :: layout where
  "statfs_request = [(''path_len'', 4)]"

definition statfs_response :: layout where
  "statfs_response =
    [(''f_type'', 8), (''f_bsize'', 8), (''f_blocks'', 8), (''f_bfree'', 8), (''f_bavail'', 8),
     (''f_files'', 8), (''f_ffree'', 8), (''f_fsid_0'', 4), (''f_fsid_1'', 4), (''f_namelen'', 8),
     (''f_frsize'', 8), (''f_flags'', 8), (''f_spare_0'', 8), (''f_spare_1'', 8),
     (''f_spare_2'', 8), (''f_spare_3'', 8)]"

definition syncfs_request :: layout where
  "syncfs_request = [(''version'', 8), (''flags'', 4)]"

definition getxattr_request :: layout where
  "getxattr_request = [(''path_len'', 4), (''name_len'', 4), (''size'', 4)]"

definition getxattr_response :: layout where
  "getxattr_response = [(''size'', 4)]"

definition setxattr_request :: layout where
  "setxattr_request =
    [(''path_len'', 4), (''name_len'', 4), (''size'', 4), (''flags'', 4), (''del'', 1)]"

definition listxattr_request :: layout where
  "listxattr_request = [(''path_len'', 4), (''size'', 4)]"

definition listxattr_response :: layout where
  "listxattr_response = [(''size'', 4)]"

definition connection_rekey_request :: layout where
  "connection_rekey_request = [(''update_request'', 4)]"

lemmas body_defs [layout_simps] =
  slice_descriptor_def open_request_def open_response_def atomic_open_request_def
  atomic_open_response_def release_request_def fsync_request_def readpage_request_def
  writepage_request_def writepage_response_def readdir_request_def hmdfs_inodeinfo_response_def
  mkdir_request_def create_request_def rmdir_request_def unlink_request_def rename_request_def
  drop_push_request_def setattr_request_def getattr_request_def getattr_response_def
  statfs_request_def statfs_response_def syncfs_request_def getxattr_request_def
  getxattr_response_def setxattr_request_def listxattr_request_def listxattr_response_def
  connection_rekey_request_def

end
