(* ===== verification/Handshake.thy ===== *)
theory Handshake
  imports Protocol
begin

text \<open>
  The handshake of two peers (\<open>src/hmdfs/comm/connection.c\<close>: \<open>hs_fill_*\<close>,
  \<open>hs_parse_*\<close>, \<open>hs_proc_msg_data\<close>, \<open>do_send_handshake\<close>,
  \<open>connection_handshake_init_tls\<close>, \<open>connection_handshake_recv_handler\<close>) and the
  keys of the TLS session (\<open>src/hmdfs/comm/crypto.c\<close>). \<open>hmac_sha256\<close>, the
  socket options and the sending of a message are parameters. Hosts are
  little-endian; encryption (\<open>CONFIG_HMDFS_FS_ENCRYPTION\<close>) is on.
\<close>

section \<open>The state of a connection\<close>

datatype connect_stat =
    CONNECT_STAT_WAIT_REQUEST | CONNECT_STAT_WAIT_RESPONSE | CONNECT_STAT_WORKING
  | CONNECT_STAT_STOP | CONNECT_STAT_WAIT_ACK | CONNECT_STAT_NEGO_FAIL

datatype node_stat = NODE_STAT_SHAKING | NODE_STAT_ONLINE | NODE_STAT_OFFLINE

record tls_info =
  tls_key :: "byte list"
  tls_iv :: "byte list"
  tls_salt :: "byte list"
  tls_rec_seq :: "byte list"

text \<open>A connection with what the handshake reads and writes of its peer and super block.\<close>

record conn =
  conn_status :: connect_stat
  conn_crypto :: u32
  master_key :: "byte list"
  send_key :: "byte list"
  recv_key :: "byte list"
  send_crypto_info :: tls_info
  recv_crypto_info :: tls_info
  node_status :: node_stat
  node_version :: byte
  node_features :: u64
  s_case_sensitive :: bool
  s_features :: u64

abbreviation (input) CONNECT_MESG_HANDSHAKE_REQUEST :: byte where "CONNECT_MESG_HANDSHAKE_REQUEST \<equiv> 1"
abbreviation (input) CONNECT_MESG_HANDSHAKE_RESPONSE :: byte where "CONNECT_MESG_HANDSHAKE_RESPONSE \<equiv> 2"
abbreviation (input) CONNECT_MESG_HANDSHAKE_ACK :: byte where "CONNECT_MESG_HANDSHAKE_ACK \<equiv> 3"
abbreviation (input) HS_EXTEND_CODE_COUNT :: nat where "HS_EXTEND_CODE_COUNT \<equiv> 3"
abbreviation (input) HMDFS_HS_CRYPTO_KTLS_AES128 :: u32 where "HMDFS_HS_CRYPTO_KTLS_AES128 \<equiv> 1"

definition crypto_body :: layout where "crypto_body = [(''crypto'', 4)]"
definition case_sense_body :: layout where "case_sense_body = [(''case_sensitive'', 1)]"
definition feature_body :: layout where "feature_body = [(''features'', 8), (''reserved'', 8)]"
definition extend_field_head :: layout where "extend_field_head = [(''code'', 2), (''len'', 2)]"
definition conn_hs_extend_head :: layout where "conn_hs_extend_head = [(''field_cn'', 4)]"
definition connection_handshake_req :: layout where "connection_handshake_req = [(''len'', 4)]"

lemmas hs_layouts [layout_simps] =
  crypto_body_def case_sense_body_def feature_body_def extend_field_head_def conn_hs_extend_head_def
  connection_handshake_req_def

section \<open>Writing the extension data\<close>

text \<open>A \<open>memcpy\<close> into a buffer.\<close>

definition put_bytes :: "byte list \<Rightarrow> nat \<Rightarrow> byte list \<Rightarrow> byte list" where
  "put_bytes buf off bs = take off buf @ bs @ drop (off + length bs) buf"

definition hs_fill_crypto_data :: "conn \<Rightarrow> byte list \<Rightarrow> byte list" where
  "hs_fill_crypto_data c body =
     (if length body < sizeof crypto_body then body
      else put_bytes body 0 (le32 (of_nat (le_val (take 4 body)) OR HMDFS_HS_CRYPTO_KTLS_AES128)))"

definition hs_fill_case_sense_data :: "conn \<Rightarrow> byte list \<Rightarrow> byte list" where
  "hs_fill_case_sense_data c body =
     (if length body < sizeof case_sense_body then body
      else put_bytes body 0 [if s_case_sensitive c then 1 else 0])"

definition hs_fill_feature_data :: "conn \<Rightarrow> byte list \<Rightarrow> byte list" where
  "hs_fill_feature_data c body =
     (if length body < sizeof feature_body then body
      else put_bytes body 0 (le_bytes 8 (unat (s_features c)) @ le_bytes 8 0))"

text \<open>The registered length and filler of an extension code (\<open>s_hs_extend_reg\<close>).\<close>

definition hs_extend_len :: "nat \<Rightarrow> nat" where
  "hs_extend_len code = [sizeof crypto_body, sizeof case_sense_body, sizeof feature_body] ! code"

definition hs_filler :: "nat \<Rightarrow> conn \<Rightarrow> byte list \<Rightarrow> byte list" where
  "hs_filler code = [hs_fill_crypto_data, hs_fill_case_sense_data, hs_fill_feature_data] ! code"

definition hs_get_extend_data_len :: nat where
  "hs_get_extend_data_len =
     sizeof conn_hs_extend_head + (\<Sum>i\<leftarrow>[0..<HS_EXTEND_CODE_COUNT]. sizeof extend_field_head + hs_extend_len i)"

text \<open>The codes from \<open>HS_EXTEND_CODE_COUNT - n\<close> on: the buffer and the number of fields.\<close>

fun fill_fields :: "conn \<Rightarrow> nat \<Rightarrow> byte list \<Rightarrow> nat \<Rightarrow> nat \<Rightarrow> byte list \<times> nat" where
  "fill_fields c 0 buf offset cn = (buf, cn)"
| "fill_fields c (Suc n) buf offset cn =
     (let i = HS_EXTEND_CODE_COUNT - Suc n; l = hs_extend_len i; body_at = offset + sizeof extend_field_head in
      if sizeof extend_field_head > length buf - offset then (buf, cn)
      else if l > length buf - body_at then (buf, cn)
      else let buf1 = put_bytes buf offset (le16 (of_nat i) @ le16 (of_nat l));
               buf2 = put_bytes buf1 body_at (hs_filler i c (take l (drop body_at buf1)))
        in fill_fields c n buf2 (body_at + l) (cn + 1))"

definition hs_fill_extend_data :: "conn \<Rightarrow> byte list \<Rightarrow> byte list" where
  "hs_fill_extend_data c buf =
     (if sizeof conn_hs_extend_head > length buf then buf
      else case fill_fields c HS_EXTEND_CODE_COUNT (put_bytes buf 0 (le32 0)) (sizeof conn_hs_extend_head) 0 of
        (buf', cn) \<Rightarrow> put_bytes buf' 0 (le32 (of_nat cn)))"

section \<open>Reading the extension data\<close>

text \<open>Results are \<open>None\<close> when a read leaves the buffer.\<close>

definition hs_parse_crypto_data :: "conn \<Rightarrow> byte list \<Rightarrow> nat \<Rightarrow> (int \<times> conn) option" where
  "hs_parse_crypto_data c body len =
     (if len < sizeof crypto_body then Some (-1, c)
      else do { v \<leftarrow> rd_le body 0 4; Some (0, c\<lparr>conn_crypto := of_nat (v mod 2 ^ 16)\<rparr>) })"

definition hs_parse_case_sense_data :: "conn \<Rightarrow> byte list \<Rightarrow> nat \<Rightarrow> (int \<times> conn) option" where
  "hs_parse_case_sense_data c body len =
     (if len < sizeof case_sense_body then Some (-1, c)
      else do { b \<leftarrow> rd8 body 0; if b \<noteq> (if s_case_sensitive c then 1 else 0) then Some (-1, c) else Some (0, c) })"

definition hs_parse_feature_data :: "conn \<Rightarrow> byte list \<Rightarrow> nat \<Rightarrow> (int \<times> conn) option" where
  "hs_parse_feature_data c body len =
     (if len < sizeof feature_body then Some (-1, c)
      else do { v \<leftarrow> rd_le body 0 8; Some (0, c\<lparr>node_features := of_nat v\<rparr>) })"

definition hs_parser :: "nat \<Rightarrow> conn \<Rightarrow> byte list \<Rightarrow> nat \<Rightarrow> (int \<times> conn) option" where
  "hs_parser code = [hs_parse_crypto_data, hs_parse_case_sense_data, hs_parse_feature_data] ! code"

fun parse_fields :: "conn \<Rightarrow> byte list \<Rightarrow> nat \<Rightarrow> nat \<Rightarrow> (int \<times> conn) option" where
  "parse_fields c data 0 offset = Some (0, c)"
| "parse_fields c data (Suc n) offset =
     (if sizeof extend_field_head > length data - offset then Some (-1, c)
      else do {
        code \<leftarrow> rd_le data offset 2;
        len \<leftarrow> rd_le data (offset + 2) 2;
        (let body_at = offset + sizeof extend_field_head in
         if len > length data - body_at then Some (-1, c)
         else do {
           (ret, c1) \<leftarrow> (if code < HS_EXTEND_CODE_COUNT then hs_parser code c (drop body_at data) len else Some (0, c));
           if ret \<noteq> 0 then Some (ret, c1) else parse_fields c1 data n (body_at + len) }) })"

definition hs_parse_extend_data :: "conn \<Rightarrow> byte list \<Rightarrow> (int \<times> conn) option" where
  "hs_parse_extend_data c data =
     (if sizeof conn_hs_extend_head > length data then Some (-1, c)
      else do { field_cnt \<leftarrow> rd_le data 0 4; parse_fields c data field_cnt (sizeof conn_hs_extend_head) })"

text \<open>A message without data has the pointer NULL: \<open>None\<close>.\<close>

definition hs_proc_msg_data :: "conn \<Rightarrow> byte list option \<Rightarrow> (int \<times> conn) option" where
  "hs_proc_msg_data c data =
     (case data of
        None \<Rightarrow> Some (-1, c)
      | Some d \<Rightarrow>
          if length d < sizeof connection_handshake_req then Some (-1, c)
          else do {
            req_len \<leftarrow> rd_le d 0 4;
            if req_len > length d - sizeof connection_handshake_req then Some (-1, c)
            else hs_parse_extend_data c (drop (sizeof connection_handshake_req + req_len) d) })"

section \<open>Keys\<close>

datatype HKDF_TYPE = HKDF_TYPE_KEY_INITIATOR | HKDF_TYPE_KEY_ACCEPTER | HKDF_TYPE_REKEY | HKDF_TYPE_IV

text \<open>
  \<open>hkdf key type\<close> is the key that \<open>hmac_sha256\<close> computes. It may fail in the kernel (no digest,
  no memory); then \<open>update_key\<close> leaves the buffer \<open>new_key\<close> as it was.
\<close>

type_synonym hkdf = "byte list \<Rightarrow> HKDF_TYPE \<Rightarrow> byte list"

definition update_key :: "hkdf \<Rightarrow> int \<Rightarrow> byte list \<Rightarrow> byte list \<Rightarrow> HKDF_TYPE \<Rightarrow> byte list" where
  "update_key hkdf err old_key new_key type = (if err < 0 then new_key else hkdf old_key type)"

definition tls_info_from :: "byte list \<Rightarrow> byte list \<Rightarrow> tls_info" where
  "tls_info_from key material =
     \<lparr>tls_key = take 16 key, tls_iv = take 8 material, tls_salt = take 4 (drop 8 material),
      tls_rec_seq = take 8 (drop 12 material)\<rparr>"

definition tls_info_of :: "hkdf \<Rightarrow> byte list \<Rightarrow> tls_info" where
  "tls_info_of hkdf key = tls_info_from key (hkdf key HKDF_TYPE_IV)"

text \<open>
  What the environment answers in a handshake: the derived keys and the results of the four calls of
  \<open>update_key\<close>, what the buffers on the stack hold before them, whether the sending of
  a handshake message succeeds (its error is negative), and the result of the last socket option.
\<close>

record hs_env =
  env_hkdf :: hkdf
  env_update :: "nat \<Rightarrow> int"
  env_stack :: "nat \<Rightarrow> byte list"
  env_send :: int
  env_setsockopt_rx :: int

text \<open>
  The results of \<open>update_key\<close> are not looked at. The result is that of the last socket option,
  the one for receiving.
\<close>

definition tls_crypto_info_init :: "hs_env \<Rightarrow> conn \<Rightarrow> int \<times> conn" where
  "tls_crypto_info_init env c =
     (let material1 = update_key (env_hkdf env) (env_update env 2) (send_key c) (env_stack env 2) HKDF_TYPE_IV;
          material2 = update_key (env_hkdf env) (env_update env 3) (recv_key c) material1 HKDF_TYPE_IV
      in (env_setsockopt_rx env, c\<lparr>send_crypto_info := tls_info_from (send_key c) material1,
                                    recv_crypto_info := tls_info_from (recv_key c) material2\<rparr>))"

definition connection_handshake_init_tls :: "hs_env \<Rightarrow> byte \<Rightarrow> conn \<Rightarrow> int \<times> conn" where
  "connection_handshake_init_tls env ops c =
     (if ops \<noteq> CONNECT_MESG_HANDSHAKE_RESPONSE \<and> ops \<noteq> CONNECT_MESG_HANDSHAKE_ACK then (- EINVAL, c)
      else let key1 = update_key (env_hkdf env) (env_update env 0) (master_key c) (env_stack env 0) HKDF_TYPE_KEY_INITIATOR;
               key2 = update_key (env_hkdf env) (env_update env 1) (master_key c) (env_stack env 1) HKDF_TYPE_KEY_ACCEPTER;
               c1 = (if ops = CONNECT_MESG_HANDSHAKE_ACK then c\<lparr>send_key := key1, recv_key := key2\<rparr>
                     else c\<lparr>send_key := key2, recv_key := key1\<rparr>)
        in tls_crypto_info_init env c1)"

text \<open>
  The rekeying of one direction. \<open>err t\<close> is the result of \<open>update_key\<close> for the
  type \<open>t\<close>; it fails in the digest of the kernel.
\<close>

definition tls_set_tx :: "hkdf \<Rightarrow> (HKDF_TYPE \<Rightarrow> int) \<Rightarrow> conn \<Rightarrow> int \<times> conn" where
  "tls_set_tx hkdf err c =
     (if err HKDF_TYPE_REKEY < 0 then (err HKDF_TYPE_REKEY, c)
      else let c1 = c\<lparr>send_key := hkdf (send_key c) HKDF_TYPE_REKEY\<rparr> in
        if err HKDF_TYPE_IV < 0 then (err HKDF_TYPE_IV, c1)
        else (0, c1\<lparr>send_crypto_info := tls_info_of hkdf (send_key c1)\<rparr>))"

definition tls_set_rx :: "hkdf \<Rightarrow> (HKDF_TYPE \<Rightarrow> int) \<Rightarrow> conn \<Rightarrow> int \<times> conn" where
  "tls_set_rx hkdf err c =
     (if err HKDF_TYPE_REKEY < 0 then (err HKDF_TYPE_REKEY, c)
      else let c1 = c\<lparr>recv_key := hkdf (recv_key c) HKDF_TYPE_REKEY\<rparr> in
        if err HKDF_TYPE_IV < 0 then (err HKDF_TYPE_IV, c1)
        else (0, c1\<lparr>recv_crypto_info := tls_info_of hkdf (recv_key c1)\<rparr>))"

section \<open>Messages and their handler\<close>

record connection_msg_head =
  mh_magic :: byte
  mh_version :: byte
  mh_operations :: byte
  mh_flags :: byte
  mh_datasize :: u32
  mh_source :: u64
  mh_msg_id :: u16
  mh_request_id :: u16
  mh_reserved1 :: u32

definition msg_head_bytes :: "connection_msg_head \<Rightarrow> byte list" where
  "msg_head_bytes h =
     [mh_magic h, mh_version h, mh_operations h, mh_flags h] @ le32 (mh_datasize h) @ le_bytes 8 (unat (mh_source h))
     @ le16 (mh_msg_id h) @ le16 (mh_request_id h) @ le32 (mh_reserved1 h)"

text \<open>The head and the data that \<open>do_send_handshake\<close> sends; the device id is the string \<open>0\<close>.\<close>

definition handshake_dev_id :: "byte list" where "handshake_dev_id = [48]"

definition do_send_handshake :: "conn \<Rightarrow> byte \<Rightarrow> u16 \<Rightarrow> connection_msg_head \<times> byte list" where
  "do_send_handshake c ops request_id =
     (let with_extend = (ops = CONNECT_MESG_HANDSHAKE_RESPONSE \<or> ops = CONNECT_MESG_HANDSHAKE_ACK);
          extend_len = (if with_extend then hs_get_extend_data_len else 0);
          send_len = HEAD_SIZE + sizeof connection_handshake_req + length handshake_dev_id + extend_len;
          hs_data = le32 (of_nat (length handshake_dev_id)) @ handshake_dev_id
                    @ (if with_extend then hs_fill_extend_data c (replicate extend_len 0) else [])
      in (\<lparr>mh_magic = HMDFS_MSG_MAGIC, mh_version = HMDFS_VERSION, mh_operations = ops, mh_flags = 1,
           mh_datasize = of_nat send_len, mh_source = 0, mh_msg_id = 0, mh_request_id = request_id, mh_reserved1 = 0\<rparr>,
          hs_data))"

datatype hs_action =
    Sent connection_msg_head "byte list"
  | Reget_Connection
  | Queue_Online
  | Notify_Offline

definition connection_send_handshake :: "hs_env \<Rightarrow> conn \<Rightarrow> byte \<Rightarrow> u16 \<Rightarrow> hs_action list" where
  "connection_send_handshake env c ops request_id =
     (case do_send_handshake c ops request_id of (h, d) \<Rightarrow>
        if env_send env \<ge> 0 then [Sent h d] else [Reget_Connection])"

definition peer_online :: "conn \<Rightarrow> conn \<times> hs_action list" where
  "peer_online c =
     (c\<lparr>node_status := NODE_STAT_ONLINE\<rparr>, if node_status c = NODE_STAT_ONLINE then [] else [Queue_Online])"

text \<open>The common end of the \<open>RESPONSE\<close> and \<open>ACK\<close> branches.\<close>

definition handshake_finish :: "hs_env \<Rightarrow> byte \<Rightarrow> conn \<Rightarrow> hs_action list \<Rightarrow> conn \<times> hs_action list" where
  "handshake_finish env ops c acts =
     (case connection_handshake_init_tls env ops c of (ret, c1) \<Rightarrow>
        if ret \<noteq> 0 then (c1, acts)
        else case peer_online (c1\<lparr>conn_status := CONNECT_STAT_WORKING\<rparr>) of (c2, on) \<Rightarrow> (c2, acts @ on))"

definition nego_err :: "conn \<Rightarrow> conn \<times> hs_action list" where
  "nego_err c = (c\<lparr>conn_status := CONNECT_STAT_NEGO_FAIL\<rparr>, [Notify_Offline])"

definition connection_handshake_recv_handler ::
  "hs_env \<Rightarrow> conn \<Rightarrow> connection_msg_head \<Rightarrow> byte list option \<Rightarrow> (conn \<times> hs_action list) option" where
  "connection_handshake_recv_handler env c head data =
     (if mh_version head \<noteq> HMDFS_VERSION then Some (c, [])
      else let c0 = c\<lparr>node_version := mh_version head\<rparr>; ops = mh_operations head in
        if ops = CONNECT_MESG_HANDSHAKE_REQUEST
        then Some (c0\<lparr>conn_status := CONNECT_STAT_WAIT_ACK, node_status := NODE_STAT_SHAKING\<rparr>,
                   connection_send_handshake env c0 CONNECT_MESG_HANDSHAKE_RESPONSE (mh_msg_id head))
        else if ops = CONNECT_MESG_HANDSHAKE_RESPONSE
        then do { (ret, c1) \<leftarrow> hs_proc_msg_data c0 data;
                  Some (if ret \<noteq> 0 then nego_err c1
                        else handshake_finish env ops c1
                               (connection_send_handshake env c1 CONNECT_MESG_HANDSHAKE_ACK (mh_msg_id head))) }
        else if ops = CONNECT_MESG_HANDSHAKE_ACK
        then do { (ret, c1) \<leftarrow> hs_proc_msg_data c0 data;
                  Some (if ret \<noteq> 0 then nego_err c1 else handshake_finish env ops c1 []) }
        else Some (c0, []))"

section \<open>Reading never leaves the message\<close>

lemma hs_parser_total:
  assumes "code < HS_EXTEND_CODE_COUNT" and "len \<le> length body"
  shows "\<exists>ret c'. hs_parser code c body len = Some (ret, c')"
proof -
  have "code = 0 \<or> code = 1 \<or> code = 2" using assms(1) by auto
  then show ?thesis
    using assms(2)
    by (auto simp: hs_parser_def hs_parse_crypto_data_def hs_parse_case_sense_data_def hs_parse_feature_data_def
        layout_simps read_simps rd8_def)
qed

lemma parse_fields_total:
  "offset \<le> length data \<Longrightarrow> \<exists>ret c'. parse_fields c data n offset = Some (ret, c')"
proof (induction n arbitrary: c offset)
  case (Suc n)
  show ?case
  proof (cases "4 > length data - offset")
    case True
    then show ?thesis by (simp add: layout_simps)
  next
    case room: False
    then have "offset + 4 \<le> length data" using Suc.prems by simp
    then obtain code len where rd: "rd_le data offset 2 = Some code" "rd_le data (offset + 2) 2 = Some len"
      by (simp add: rd_le_def)
    show ?thesis
    proof (cases "len > length data - (offset + 4)")
      case True
      then show ?thesis using room rd by (simp add: layout_simps Let_def)
    next
      case False
      have "\<exists>ret c1. (if code < HS_EXTEND_CODE_COUNT then hs_parser code c (drop (offset + 4) data) len else Some (0, c)) = Some (ret, c1)"
        using hs_parser_total [of code len "drop (offset + 4) data" c] False by auto
      then obtain ret c1 where p: "(if code < HS_EXTEND_CODE_COUNT then hs_parser code c (drop (offset + 4) data) len else Some (0, c)) = Some (ret, c1)"
        by blast
      have "offset + 4 + len \<le> length data" using False \<open>offset + 4 \<le> length data\<close> by simp
      then obtain ret' c' where "parse_fields c1 data n (offset + 4 + len) = Some (ret', c')" using Suc.IH by blast
      then show ?thesis using room rd False p by (simp add: layout_simps Let_def)
    qed
  qed
qed simp

lemma hs_proc_total: "\<exists>ret c'. hs_proc_msg_data c data = Some (ret, c')"
proof (cases data)
  case None
  then show ?thesis by (simp add: hs_proc_msg_data_def)
next
  case (Some d)
  have ext: "\<exists>ret c'. hs_parse_extend_data c e = Some (ret, c')" for e
    using parse_fields_total [of 4 e c] by (auto simp: hs_parse_extend_data_def layout_simps rd_le_def)
  show ?thesis
    using Some ext by (auto simp: hs_proc_msg_data_def layout_simps rd_le_def)
qed

text \<open>
  The handshake handler reads nothing outside the message, whatever
  bytes the peer sends: the lengths and counts in the extension data never lead
  past its end, and every message has an outcome.
\<close>

theorem handshake_handler_safe:
  "\<exists>c' acts. connection_handshake_recv_handler env c head data = Some (c', acts)"
proof -
  let ?c0 = "c\<lparr>node_version := mh_version head\<rparr>"
  obtain ret c1 where "hs_proc_msg_data ?c0 data = Some (ret, c1)" using hs_proc_total by blast
  then show ?thesis
    by (cases "connection_handshake_recv_handler env c head data")
      (auto simp: connection_handshake_recv_handler_def Let_def split: if_splits)
qed

section \<open>The extension data as bytes\<close>


lemma extend_len: "hs_get_extend_data_len = 37"
  by (simp add: hs_get_extend_data_len_def hs_extend_len_def layout_simps eval_nat_numeral)

lemma put_bytes_end: "length a = off \<Longrightarrow> length bs \<le> n \<Longrightarrow>
  put_bytes (a @ replicate n 0) off bs = (a @ bs) @ replicate (n - length bs) 0"
  by (simp add: put_bytes_def)

lemma put_bytes_front: "length bs = length a \<Longrightarrow> put_bytes (a @ b) 0 bs = bs @ b"
  by (simp add: put_bytes_def)

lemma fill_field:
  assumes "length a = offset" and "i = HS_EXTEND_CODE_COUNT - Suc n" and "hs_filler i c (replicate (hs_extend_len i) 0) = body"
    and "length body = hs_extend_len i" and "4 + hs_extend_len i \<le> k"
  shows "fill_fields c (Suc n) (a @ replicate k 0) offset cn =
    fill_fields c n ((a @ le16 (of_nat i) @ le16 (of_nat (hs_extend_len i)) @ body) @ replicate (k - (4 + hs_extend_len i)) 0)
      (offset + 4 + hs_extend_len i) (cn + 1)"
proof -
  let ?l = "hs_extend_len i"
  let ?h = "le16 (of_nat i) @ le16 (of_nat ?l)"
  have b1: "put_bytes (a @ replicate k 0) offset ?h = (a @ ?h) @ replicate (k - 4) 0"
    using put_bytes_end [of a offset ?h k] assms(1,5) by simp
  have t: "take ?l (drop (offset + 4) ((a @ ?h) @ replicate (k - 4) 0)) = replicate ?l 0"
    using assms(1,5) by simp
  have b2: "put_bytes ((a @ ?h) @ replicate (k - 4) 0) (offset + 4) body = ((a @ ?h) @ body) @ replicate (k - 4 - ?l) 0"
    using put_bytes_end [of "a @ ?h" "offset + 4" body "k - 4"] assms(1,4,5) by simp
  have r: "k - 4 - ?l = k - (4 + ?l)" by simp
  have g: "\<not> sizeof extend_field_head > length (a @ replicate k 0) - offset"
    "\<not> ?l > length (a @ replicate k 0) - (offset + sizeof extend_field_head)" "sizeof extend_field_head = 4"
    using assms(1,5) by (simp_all add: layout_simps)
  show ?thesis
    unfolding fill_fields.simps Let_def assms(2) [symmetric] if_not_P [OF g(1)] if_not_P [OF g(2)]
    unfolding g(3) b1 t assms(3) b2 r by simp
qed

definition hs_extend_bytes :: "conn \<Rightarrow> byte list" where
  "hs_extend_bytes c = le32 3 @ (le16 0 @ le16 4 @ le32 1) @ (le16 1 @ le16 1 @ [if s_case_sensitive c then 1 else 0])
     @ (le16 2 @ le16 16 @ le_bytes 8 (unat (s_features c)) @ le_bytes 8 0)"

lemma hs_extend_len_simps: "hs_extend_len 0 = 4" "hs_extend_len (Suc 0) = 1" "hs_extend_len 2 = 16"
  by (simp_all add: hs_extend_len_def layout_simps)

lemma le_val_zeros [simp]: "le_val (replicate n 0) = 0"
  by (induction n) auto

lemma hs_filler_simps:
  "hs_filler 0 c (replicate 4 0) = le32 1"
  "hs_filler (Suc 0) c [0] = [if s_case_sensitive c then 1 else 0]"
  "hs_filler 2 c (replicate 16 0) = le_bytes 8 (unat (s_features c)) @ le_bytes 8 0"
  by (simp_all add: hs_filler_def hs_fill_crypto_data_def hs_fill_case_sense_data_def hs_fill_feature_data_def
      layout_simps put_bytes_def)

lemma fill_all_fields:
  assumes f: "hs_filler 0 c (replicate 4 0) = cb" "hs_filler 1 c (replicate 1 0) = sb" "hs_filler 2 c (replicate 16 0) = fb"
    and l: "length cb = 4" "length sb = 1" "length fb = 16"
  shows "fill_fields c 3 (le32 0 @ replicate 33 0) 4 0 =
    (le32 0 @ (le16 0 @ le16 4 @ cb) @ (le16 1 @ le16 1 @ sb) @ (le16 2 @ le16 16 @ fb), 3)"
proof -
  let ?f0 = "le16 0 @ le16 4 @ cb"
  let ?f1 = "le16 1 @ le16 1 @ sb"
  let ?f2 = "le16 2 @ le16 16 @ fb"
  have n: "HS_EXTEND_CODE_COUNT - Suc 2 = 0" "HS_EXTEND_CODE_COUNT - Suc 1 = 1" "HS_EXTEND_CODE_COUNT - Suc 0 = 2" "of_nat 1 = (1 :: u16)" "of_nat 2 = (2 :: u16)"
    "of_nat 4 = (4 :: u16)" "of_nat 16 = (16 :: u16)" "of_nat 0 = (0 :: u16)"
    by simp_all
  have e: "hs_extend_len 0 = 4" "hs_extend_len 1 = 1" "hs_extend_len 2 = 16"
    using hs_extend_len_simps by simp_all
  have 0: "fill_fields c (Suc 2) (le32 0 @ replicate 33 0) 4 0 = fill_fields c 2 ((le32 0 @ ?f0) @ replicate 25 0) 12 1"
    using fill_field [of "le32 0" 4 0 2 c cb 33 0] f l unfolding e n by simp
  have 1: "fill_fields c (Suc 1) ((le32 0 @ ?f0) @ replicate 25 0) 12 1
      = fill_fields c 1 (((le32 0 @ ?f0) @ ?f1) @ replicate 20 0) 17 2"
    using fill_field [of "le32 0 @ ?f0" 12 1 1 c sb 25 1] f l unfolding e n by (simp add: numeral_2_eq_2 del: fill_fields.simps)
  have 2: "fill_fields c (Suc 0) (((le32 0 @ ?f0) @ ?f1) @ replicate 20 0) 17 2
      = fill_fields c 0 ((((le32 0 @ ?f0) @ ?f1) @ ?f2) @ replicate 0 0) 37 3"
    using fill_field [of "(le32 0 @ ?f0) @ ?f1" 17 2 0 c fb 20 2] f l unfolding e n by (simp del: fill_fields.simps)
  have "Suc 2 = 3" "Suc 1 = 2" "Suc 0 = 1" by simp_all
  then show ?thesis using 0 1 2 by (simp only: fill_fields.simps(1) append_assoc replicate_0 append_Nil2)
qed

lemma fill_extend_data: "hs_fill_extend_data c (replicate hs_get_extend_data_len 0) = hs_extend_bytes c"
proof -
  note fields = fill_all_fields [of c "le32 1" "[if s_case_sensitive c then 1 else 0]"
      "le_bytes 8 (unat (s_features c)) @ le_bytes 8 0"]
  have "put_bytes (replicate 37 0) 0 (le32 0) = le32 0 @ replicate 33 0"
    using put_bytes_end [of "[]" 0 "le32 0" 37] by simp
  then show ?thesis
    using fields hs_filler_simps [of c]
    by (simp add: hs_fill_extend_data_def extend_len layout_simps put_bytes_front hs_extend_bytes_def del: fill_fields.simps)
qed

section \<open>The receiver reads what the sender wrote\<close>

lemma rd_le_app: "length a = off \<Longrightarrow> length x = n \<Longrightarrow> rd_le (a @ x @ r) off n = Some (le_val x)"
  by (simp add: rd_le_def)

lemma parse_field:
  assumes "length a = offset" and "length body = l" and "code < 3" and "l < 65536"
  shows "parse_fields c (a @ le16 (of_nat code) @ le16 (of_nat l) @ body @ rest) (Suc n) offset =
    do { (ret, c1) \<leftarrow> hs_parser code c (body @ rest) l;
         if ret \<noteq> 0 then Some (ret, c1)
         else parse_fields c1 (a @ le16 (of_nat code) @ le16 (of_nat l) @ body @ rest) n (offset + 4 + l) }"
proof -
  let ?d = "a @ le16 (of_nat code) @ le16 (of_nat l) @ body @ rest"
  have u: "unat (of_nat code :: u16) = code" "unat (of_nat l :: u16) = l"
    using assms(3,4) by (simp_all add: unat_of_nat)
  have r: "rd_le ?d offset 2 = Some code" "rd_le ?d (offset + 2) 2 = Some l"
    using rd_le_app [of a offset "le16 (of_nat code)" 2] rd_le_app [of "a @ le16 (of_nat code)" "offset + 2" "le16 (of_nat l)" 2]
      assms(1) u by simp_all
  have d: "drop (offset + 4) ?d = body @ rest" using assms(1) by simp
  have g: "\<not> 4 > length ?d - offset" "\<not> l > length ?d - (offset + 4)" "sizeof extend_field_head = 4"
    using assms(1,2) by (simp_all add: layout_simps)
  show ?thesis
    unfolding parse_fields.simps g(3) if_not_P [OF g(1)] r Option.bind.simps Let_def if_not_P [OF g(2)] d if_P [OF assms(3)] ..
qed

definition negotiated :: "conn \<Rightarrow> conn \<Rightarrow> int \<times> conn" where
  "negotiated s c =
     (if s_case_sensitive s \<noteq> s_case_sensitive c then (-1, c\<lparr>conn_crypto := 1\<rparr>)
      else (0, c\<lparr>conn_crypto := 1, node_features := s_features s\<rparr>))"

lemma hs_parser_simps:
  "hs_parser 0 c (le32 1 @ r) 4 = Some (0, c\<lparr>conn_crypto := 1\<rparr>)"
  "hs_parser 1 c ([b] @ r) 1 = Some (if b \<noteq> (if s_case_sensitive c then 1 else 0) then -1 else 0, c)"
  "hs_parser 2 c ((le_bytes 8 (unat f) @ le_bytes 8 0) @ r) 16 = Some (0, c\<lparr>node_features := f\<rparr>)"
proof -
  have "unat f < 256 ^ 8" using unsigned_less [of f] by simp
  then have "le_val (le_bytes 8 (unat f)) = unat f" by (rule le_val_le_bytes)
  then show "hs_parser 2 c ((le_bytes 8 (unat f) @ le_bytes 8 0) @ r) 16 = Some (0, c\<lparr>node_features := f\<rparr>)"
    by (simp add: hs_parser_def hs_parse_feature_data_def layout_simps rd_le_def)
qed (simp_all add: hs_parser_def hs_parse_crypto_data_def hs_parse_case_sense_data_def layout_simps rd_le_def rd8_def)

lemma parse_extend_data: "hs_parse_extend_data c (hs_extend_bytes s) = Some (negotiated s c)"
proof -
  let ?b1 = "[if s_case_sensitive s then 1 else 0 :: byte]"
  let ?b2 = "le_bytes 8 (unat (s_features s)) @ le_bytes 8 0"
  let ?f0 = "le16 0 @ le16 4 @ le32 1"
  let ?f1 = "le16 1 @ le16 1 @ ?b1"
  let ?f2 = "le16 2 @ le16 16 @ ?b2"
  let ?d = "hs_extend_bytes s"
  let ?c1 = "c\<lparr>conn_crypto := 1\<rparr>"
  have d0: "?d = le32 3 @ le16 (of_nat 0) @ le16 (of_nat 4) @ le32 1 @ ?f1 @ ?f2"
    and d1: "?d = (le32 3 @ ?f0) @ le16 (of_nat 1) @ le16 (of_nat 1) @ ?b1 @ ?f2"
    and d2: "?d = (le32 3 @ ?f0 @ ?f1) @ le16 (of_nat 2) @ le16 (of_nat 16) @ ?b2 @ []"
    by (simp_all add: hs_extend_bytes_def)
  have 0: "parse_fields c ?d (Suc 2) 4 = parse_fields ?c1 ?d 2 12"
    using parse_field [of "le32 3" 4 "le32 1" 4 0 c "?f1 @ ?f2" 2, folded d0]
    by (simp add: hs_parser_simps del: parse_fields.simps)
  have 1: "parse_fields ?c1 ?d (Suc 1) 12 = (if s_case_sensitive s \<noteq> s_case_sensitive c then Some (-1, ?c1)
      else parse_fields ?c1 ?d 1 17)"
    using parse_field [of "le32 3 @ ?f0" 12 ?b1 1 1 ?c1 ?f2 1, folded d1]
      hs_parser_simps(2) [of ?c1 "if s_case_sensitive s then 1 else 0" ?f2]
    by (simp del: parse_fields.simps)
  have 2: "parse_fields ?c1 ?d (Suc 0) 17 = Some (0, ?c1\<lparr>node_features := s_features s\<rparr>)"
    using parse_field [of "le32 3 @ ?f0 @ ?f1" 17 ?b2 16 2 ?c1 "[]" 0, folded d2]
      hs_parser_simps(3) [of ?c1 "s_features s" "[]"]
    by (simp del: parse_fields.simps(2))
  have "rd_le ?d 0 4 = Some 3" and "4 \<le> length ?d"
    using rd_le_app [of "[]" 0 "le32 3" 4] by (simp_all add: hs_extend_bytes_def)
  then have "hs_parse_extend_data c ?d = parse_fields c ?d (Suc 2) 4"
    by (simp add: hs_parse_extend_data_def layout_simps del: parse_fields.simps)
  then show ?thesis using 0 1 2 by (simp add: negotiated_def numeral_2_eq_2 del: parse_fields.simps)
qed

lemma hs_proc_of_sent:
  assumes "ops = CONNECT_MESG_HANDSHAKE_RESPONSE \<or> ops = CONNECT_MESG_HANDSHAKE_ACK"
  shows "hs_proc_msg_data c (Some (snd (do_send_handshake s ops rid))) = Some (negotiated s c)"
proof -
  have d: "snd (do_send_handshake s ops rid) = le32 1 @ [48] @ hs_extend_bytes s"
    using assms by (auto simp: do_send_handshake_def Let_def handshake_dev_id_def fill_extend_data)
  have "rd_le (le32 1 @ [48] @ hs_extend_bytes s) 0 4 = Some 1"
    using rd_le_app [of "[]" 0 "le32 1" 4] by simp
  then show ?thesis
    unfolding d by (simp add: hs_proc_msg_data_def layout_simps parse_extend_data)
qed

text \<open>
  What \<open>do_send_handshake\<close> of one peer writes into a
  \<open>RESPONSE\<close> or \<open>ACK\<close>, \<open>hs_proc_msg_data\<close> of the other peer reads back: the
  negotiation fails exactly when the peers differ in case sensitivity, and
  otherwise the reader knows the writer's features and the agreed cipher.
\<close>

theorem handshake_data_roundtrip:
  assumes "ops = CONNECT_MESG_HANDSHAKE_RESPONSE \<or> ops = CONNECT_MESG_HANDSHAKE_ACK"
  shows "hs_proc_msg_data c (Some (snd (do_send_handshake s ops rid))) =
    Some (if s_case_sensitive s \<noteq> s_case_sensitive c then (-1, c\<lparr>conn_crypto := HMDFS_HS_CRYPTO_KTLS_AES128\<rparr>)
          else (0, c\<lparr>conn_crypto := HMDFS_HS_CRYPTO_KTLS_AES128, node_features := s_features s\<rparr>))"
  using hs_proc_of_sent [OF assms] by (simp add: negotiated_def)

definition sample_tls :: tls_info where
  "sample_tls = \<lparr>tls_key = [], tls_iv = [], tls_salt = [], tls_rec_seq = []\<rparr>"

definition sample_conn :: "u64 \<Rightarrow> conn" where
  "sample_conn f = \<lparr>conn_status = CONNECT_STAT_WAIT_REQUEST, conn_crypto = 0, master_key = [1, 2, 3],
     send_key = [], recv_key = [], send_crypto_info = sample_tls, recv_crypto_info = sample_tls,
     node_status = NODE_STAT_OFFLINE, node_version = 0, node_features = 0, s_case_sensitive = True, s_features = f\<rparr>"

definition sample_hkdf :: hkdf where
  "sample_hkdf key t = (case t of HKDF_TYPE_KEY_INITIATOR \<Rightarrow> 1 | HKDF_TYPE_KEY_ACCEPTER \<Rightarrow> 2 | HKDF_TYPE_REKEY \<Rightarrow> 3 | HKDF_TYPE_IV \<Rightarrow> 4) # key"

definition sample_env :: hs_env where
  "sample_env = \<lparr>env_hkdf = sample_hkdf, env_update = (\<lambda>_. 0), env_stack = (\<lambda>_. []), env_send = 0, env_setsockopt_rx = 0\<rparr>"

theorem handshake_data_roundtrip_witness:
  "map_option (\<lambda>(r, c). (r, conn_crypto c, node_features c))
     (hs_proc_msg_data (sample_conn 5) (Some (snd (do_send_handshake (sample_conn 7) CONNECT_MESG_HANDSHAKE_RESPONSE 0))))
   = Some (0, 1, 7)"
  using handshake_data_roundtrip [of CONNECT_MESG_HANDSHAKE_RESPONSE "sample_conn 5" "sample_conn 7" 0]
  by (simp add: sample_conn_def)

section \<open>The handler\<close>

lemma init_tls_fields:
  assumes "connection_handshake_init_tls env ops c = (ret, c')"
  shows "conn_status c' = conn_status c" "node_status c' = node_status c" "node_features c' = node_features c"
  using assms by (auto simp: connection_handshake_init_tls_def tls_crypto_info_init_def Let_def split: if_splits)

lemma parsers_keep_status:
  "hs_parser code c body len = Some (ret, c') \<Longrightarrow> code < 3 \<Longrightarrow>
   conn_status c' = conn_status c \<and> node_status c' = node_status c \<and> master_key c' = master_key c"
  by (auto simp: hs_parser_def hs_parse_crypto_data_def hs_parse_case_sense_data_def hs_parse_feature_data_def
      less_Suc_eq numeral_3_eq_3 split: if_splits bind_splits)

lemma parse_fields_keep_status:
  "parse_fields c data n offset = Some (ret, c') \<Longrightarrow>
   conn_status c' = conn_status c \<and> node_status c' = node_status c \<and> master_key c' = master_key c"
proof (induction n arbitrary: c offset)
  case (Suc n)
  then show ?case
    by (auto simp: Let_def split: if_splits bind_splits dest!: parsers_keep_status) 
qed simp

lemma hs_proc_keeps_status:
  "hs_proc_msg_data c data = Some (ret, c') \<Longrightarrow>
   conn_status c' = conn_status c \<and> node_status c' = node_status c \<and> master_key c' = master_key c"
  by (auto simp: hs_proc_msg_data_def hs_parse_extend_data_def split: option.splits if_splits bind_splits
      dest!: parse_fields_keep_status)

lemma handshake_finish_working:
  assumes "handshake_finish env ops c acts = (c', acts')" and "conn_status c \<noteq> CONNECT_STAT_WORKING"
  shows "conn_status c' = CONNECT_STAT_WORKING \<longleftrightarrow>
    env_setsockopt_rx env = 0 \<and> (ops = CONNECT_MESG_HANDSHAKE_RESPONSE \<or> ops = CONNECT_MESG_HANDSHAKE_ACK)"
    and "conn_status c' = CONNECT_STAT_WORKING \<Longrightarrow> node_status c' = NODE_STAT_ONLINE"
    and "conn_status c' = CONNECT_STAT_WORKING \<or> conn_status c' = conn_status c"
  using assms
  by (auto simp: handshake_finish_def peer_online_def connection_handshake_init_tls_def tls_crypto_info_init_def Let_def
      split: if_splits prod.splits)

lemma handshake_final_cases:
  assumes v: "mh_version head = HMDFS_VERSION"
    and ops: "mh_operations head = CONNECT_MESG_HANDSHAKE_RESPONSE \<or> mh_operations head = CONNECT_MESG_HANDSHAKE_ACK"
    and p: "hs_proc_msg_data (c\<lparr>node_version := HMDFS_VERSION\<rparr>) data = Some (ret, c1)"
  shows "\<exists>sent. connection_handshake_recv_handler env c head data =
    Some (if ret \<noteq> 0 then nego_err c1 else handshake_finish env (mh_operations head) c1 sent)"
  using ops
proof
  assume "mh_operations head = CONNECT_MESG_HANDSHAKE_RESPONSE"
  then show ?thesis
    using v p by (intro exI [of _ "connection_send_handshake env c1 CONNECT_MESG_HANDSHAKE_ACK (mh_msg_id head)"])
      (simp add: connection_handshake_recv_handler_def Let_def)
next
  assume "mh_operations head = CONNECT_MESG_HANDSHAKE_ACK"
  then show ?thesis
    using v p by (intro exI [of _ "[]"]) (simp add: connection_handshake_recv_handler_def Let_def)
qed

text \<open>
  A handshake message brings a connection into service exactly
  when it is a \<open>RESPONSE\<close> or an \<open>ACK\<close> of the right version whose data parses and
  the receiving side of the TLS session is set up; the peer is then online. When
  the data does not parse the negotiation fails and the peer is told to go
  offline; every other message leaves the connection out of service.
\<close>

theorem handshake_working_iff:
  assumes h: "connection_handshake_recv_handler env c head data = Some (c', acts)"
    and c: "conn_status c \<noteq> CONNECT_STAT_WORKING"
    and p: "hs_proc_msg_data (c\<lparr>node_version := HMDFS_VERSION\<rparr>) data = Some (ret, c1)"
  shows "(conn_status c' = CONNECT_STAT_WORKING \<longleftrightarrow>
      mh_version head = HMDFS_VERSION \<and> ret = 0 \<and> env_setsockopt_rx env = 0 \<and>
      (mh_operations head = CONNECT_MESG_HANDSHAKE_RESPONSE \<or> mh_operations head = CONNECT_MESG_HANDSHAKE_ACK)) \<and>
    (conn_status c' = CONNECT_STAT_WORKING \<longrightarrow> node_status c' = NODE_STAT_ONLINE) \<and>
    (mh_version head = HMDFS_VERSION \<and> ret \<noteq> 0 \<and>
      (mh_operations head = CONNECT_MESG_HANDSHAKE_RESPONSE \<or> mh_operations head = CONNECT_MESG_HANDSHAKE_ACK) \<longrightarrow>
      conn_status c' = CONNECT_STAT_NEGO_FAIL \<and> acts = [Notify_Offline])"
proof (cases "mh_version head = HMDFS_VERSION \<and>
    (mh_operations head = CONNECT_MESG_HANDSHAKE_RESPONSE \<or> mh_operations head = CONNECT_MESG_HANDSHAKE_ACK)")
  case False
  then show ?thesis
    using h c by (auto simp: connection_handshake_recv_handler_def Let_def split: if_splits)
next
  case True
  obtain sent where r: "Some (c', acts) = Some (if ret \<noteq> 0 then nego_err c1 else handshake_finish env (mh_operations head) c1 sent)"
    using handshake_final_cases [OF conjunct1 [OF True] conjunct2 [OF True] p, of env] h by metis
  have c1: "conn_status c1 \<noteq> CONNECT_STAT_WORKING" using hs_proc_keeps_status [OF p] c by simp
  show ?thesis
  proof (cases "ret = 0")
    case ok: True
    then have f: "handshake_finish env (mh_operations head) c1 sent = (c', acts)" using r by simp
    show ?thesis
      using True ok handshake_finish_working(1,2) [OF f c1] by blast
  next
    case False
    then show ?thesis using r True by (simp add: nego_err_def)
  qed
qed

theorem handshake_working_iff_witness:
  "\<exists>c'. connection_handshake_recv_handler sample_env (sample_conn 5)
       (fst (do_send_handshake (sample_conn 7) CONNECT_MESG_HANDSHAKE_ACK 0))
       (Some (snd (do_send_handshake (sample_conn 7) CONNECT_MESG_HANDSHAKE_ACK 0))) = Some (c', [Queue_Online])
     \<and> conn_status c' = CONNECT_STAT_WORKING"
proof -
  let ?c = "sample_conn 5" and ?s = "sample_conn 7"
  let ?h = "fst (do_send_handshake ?s CONNECT_MESG_HANDSHAKE_ACK 0)"
  let ?d = "Some (snd (do_send_handshake ?s CONNECT_MESG_HANDSHAKE_ACK 0))"
  have head: "mh_version ?h = HMDFS_VERSION" "mh_operations ?h = CONNECT_MESG_HANDSHAKE_ACK"
    by (simp_all add: do_send_handshake_def Let_def)
  have p: "hs_proc_msg_data (?c\<lparr>node_version := HMDFS_VERSION\<rparr>) ?d
      = Some (0, ?c\<lparr>node_version := HMDFS_VERSION, conn_crypto := 1, node_features := 7\<rparr>)"
    using hs_proc_of_sent [of CONNECT_MESG_HANDSHAKE_ACK "?c\<lparr>node_version := HMDFS_VERSION\<rparr>" ?s 0]
    by (simp add: negotiated_def sample_conn_def)
  obtain c' where h: "connection_handshake_recv_handler sample_env ?c ?h ?d = Some (c', [Queue_Online])"
    using head p by (simp add: connection_handshake_recv_handler_def handshake_finish_def connection_handshake_init_tls_def
        tls_crypto_info_init_def sample_env_def sample_conn_def peer_online_def Let_def)
  have "conn_status ?c \<noteq> CONNECT_STAT_WORKING" by (simp add: sample_conn_def)
  from handshake_working_iff [OF h this p] have "conn_status c' = CONNECT_STAT_WORKING"
    using head by (simp add: sample_env_def)
  then show ?thesis using h by blast
qed

section \<open>Two peers\<close>

text \<open>The keys of two ends of a connection: what one sends with, the other receives with.\<close>

definition keys_paired :: "conn \<Rightarrow> conn \<Rightarrow> bool" where
  "keys_paired a b \<longleftrightarrow> send_key a = recv_key b \<and> recv_key a = send_key b \<and>
     send_crypto_info a = recv_crypto_info b \<and> recv_crypto_info a = send_crypto_info b"

text \<open>The exchange of the three messages: the initiator's request, the response and the acknowledgement.\<close>

definition answer :: "hs_action list \<Rightarrow> (connection_msg_head \<times> byte list) option" where
  "answer acts = (case acts of Sent h d # _ \<Rightarrow> Some (h, d) | _ \<Rightarrow> None)"

definition exchange :: "hs_env \<Rightarrow> conn \<Rightarrow> conn \<Rightarrow> (conn \<times> conn) option" where
  "exchange env i a =
     (case do_send_handshake i CONNECT_MESG_HANDSHAKE_REQUEST 0 of (h0, d0) \<Rightarrow> do {
        (a1, out1) \<leftarrow> connection_handshake_recv_handler env a h0 (Some d0);
        (h1, d1) \<leftarrow> answer out1;
        (i1, out2) \<leftarrow> connection_handshake_recv_handler env i h1 (Some d1);
        (h2, d2) \<leftarrow> answer out2;
        (a2, out3) \<leftarrow> connection_handshake_recv_handler env a1 h2 (Some d2);
        Some (i1, a2) })"

lemma sent_head: "mh_version (fst (do_send_handshake c ops rid)) = HMDFS_VERSION" "mh_operations (fst (do_send_handshake c ops rid)) = ops"
  by (simp_all add: do_send_handshake_def Let_def)

lemma send_ok: "env_send env \<ge> 0 \<Longrightarrow>
  connection_send_handshake env c ops rid = [Sent (fst (do_send_handshake c ops rid)) (snd (do_send_handshake c ops rid))]"
  by (simp add: connection_send_handshake_def split: prod.split)

lemma recv_request:
  "env_send env \<ge> 0 \<Longrightarrow> \<exists>m. connection_handshake_recv_handler env a (fst (do_send_handshake i CONNECT_MESG_HANDSHAKE_REQUEST rid)) data =
    Some (a\<lparr>node_version := HMDFS_VERSION, conn_status := CONNECT_STAT_WAIT_ACK, node_status := NODE_STAT_SHAKING\<rparr>,
      [Sent (fst (do_send_handshake (a\<lparr>node_version := HMDFS_VERSION\<rparr>) CONNECT_MESG_HANDSHAKE_RESPONSE m))
            (snd (do_send_handshake (a\<lparr>node_version := HMDFS_VERSION\<rparr>) CONNECT_MESG_HANDSHAKE_RESPONSE m))])"
  using sent_head [of i CONNECT_MESG_HANDSHAKE_REQUEST rid]
  by (auto simp: connection_handshake_recv_handler_def Let_def send_ok)

text \<open>An end in service, with the keys it sends and receives with if all derivations succeed.\<close>

definition derived :: "hs_env \<Rightarrow> bool" where
  "derived env \<longleftrightarrow> (\<forall>n < 4. env_update env n \<ge> 0)"

lemma derivedD: "derived env \<Longrightarrow> \<not> env_update env 0 < 0 \<and> \<not> env_update env (Suc 0) < 0 \<and> \<not> env_update env 2 < 0 \<and> \<not> env_update env 3 < 0"
  by (auto simp: derived_def not_less)

definition in_service :: "hs_env \<Rightarrow> byte list \<Rightarrow> byte list \<Rightarrow> conn \<Rightarrow> bool" where
  "in_service env sk rk c \<longleftrightarrow> conn_status c = CONNECT_STAT_WORKING \<and> node_status c = NODE_STAT_ONLINE \<and>
     (derived env \<longrightarrow> send_key c = sk \<and> recv_key c = rk \<and>
        send_crypto_info c = tls_info_of (env_hkdf env) sk \<and> recv_crypto_info c = tls_info_of (env_hkdf env) rk)"

lemma recv_response:
  assumes "env_send env \<ge> 0" "env_setsockopt_rx env = 0" "s_case_sensitive s = s_case_sensitive c"
  shows "\<exists>c' m rest. connection_handshake_recv_handler env c (fst (do_send_handshake s CONNECT_MESG_HANDSHAKE_RESPONSE rid))
      (Some (snd (do_send_handshake s CONNECT_MESG_HANDSHAKE_RESPONSE rid))) =
      Some (c', Sent (fst (do_send_handshake (snd (negotiated s (c\<lparr>node_version := HMDFS_VERSION\<rparr>))) CONNECT_MESG_HANDSHAKE_ACK m))
                     (snd (do_send_handshake (snd (negotiated s (c\<lparr>node_version := HMDFS_VERSION\<rparr>))) CONNECT_MESG_HANDSHAKE_ACK m)) # rest) \<and>
      in_service env (env_hkdf env (master_key c) HKDF_TYPE_KEY_ACCEPTER)
        (env_hkdf env (master_key c) HKDF_TYPE_KEY_INITIATOR) c' \<and> node_features c' = s_features s"
  using assms sent_head [of s CONNECT_MESG_HANDSHAKE_RESPONSE rid]
    hs_proc_of_sent [of CONNECT_MESG_HANDSHAKE_RESPONSE "c\<lparr>node_version := HMDFS_VERSION\<rparr>" s rid]
  by (auto simp: connection_handshake_recv_handler_def Let_def send_ok negotiated_def handshake_finish_def
      connection_handshake_init_tls_def tls_crypto_info_init_def peer_online_def in_service_def update_key_def tls_info_of_def
      dest: derivedD)

lemma recv_ack:
  assumes "env_setsockopt_rx env = 0" "s_case_sensitive s = s_case_sensitive c"
  shows "\<exists>c' out. connection_handshake_recv_handler env c (fst (do_send_handshake s CONNECT_MESG_HANDSHAKE_ACK rid))
      (Some (snd (do_send_handshake s CONNECT_MESG_HANDSHAKE_ACK rid))) = Some (c', out) \<and>
      in_service env (env_hkdf env (master_key c) HKDF_TYPE_KEY_INITIATOR)
        (env_hkdf env (master_key c) HKDF_TYPE_KEY_ACCEPTER) c' \<and> node_features c' = s_features s"
  using assms sent_head [of s CONNECT_MESG_HANDSHAKE_ACK rid]
    hs_proc_of_sent [of CONNECT_MESG_HANDSHAKE_ACK "c\<lparr>node_version := HMDFS_VERSION\<rparr>" s rid]
  by (auto simp: connection_handshake_recv_handler_def Let_def negotiated_def handshake_finish_def
      connection_handshake_init_tls_def tls_crypto_info_init_def peer_online_def in_service_def update_key_def tls_info_of_def
      dest: derivedD)

lemma in_service_paired: "in_service env k1 k2 a \<Longrightarrow> in_service env k2 k1 b \<Longrightarrow> derived env \<Longrightarrow> keys_paired a b"
  by (simp add: in_service_def keys_paired_def)

text \<open>
  When a key cannot be derived the handshake does not fail: the peer sends with
  what was on its stack.
\<close>

lemma underived_key_in_service:
  assumes "env_update env 0 < 0" "env_setsockopt_rx env = 0"
  shows "\<exists>c'. handshake_finish env CONNECT_MESG_HANDSHAKE_ACK c acts = (c', acts @ snd (peer_online c)) \<and>
    conn_status c' = CONNECT_STAT_WORKING \<and> send_key c' = env_stack env 0"
  using assms by (auto simp: handshake_finish_def connection_handshake_init_tls_def tls_crypto_info_init_def update_key_def
      peer_online_def Let_def)

text \<open>
  C30 (functional). Two peers with the same master key and case sensitivity,
  whose messages arrive and whose sockets accept the TLS session, end the three
  message exchange both in service; each knows the other's features, and each sends
  with the key the other receives with, if the keys could be derived: the results of
  \<open>update_key\<close> are not looked at, so a peer that cannot derive its keys goes into service too.
\<close>

theorem handshake_pairs_keys:
  assumes ok: "env_send env \<ge> 0" "env_setsockopt_rx env = 0"
    and key: "master_key i = master_key a" and cs: "s_case_sensitive i = s_case_sensitive a"
  shows "\<exists>i' a'. exchange env i a = Some (i', a') \<and>
    conn_status i' = CONNECT_STAT_WORKING \<and> conn_status a' = CONNECT_STAT_WORKING \<and>
    node_features i' = s_features a \<and> node_features a' = s_features i \<and>
    ((\<forall>n < 4. env_update env n \<ge> 0) \<longrightarrow> keys_paired i' a')"
proof -
  let ?hk = "env_hkdf env" and ?mk = "master_key i"
  let ?a0 = "a\<lparr>node_version := HMDFS_VERSION\<rparr>" and ?i0 = "i\<lparr>node_version := HMDFS_VERSION\<rparr>"
  let ?a1 = "?a0\<lparr>conn_status := CONNECT_STAT_WAIT_ACK, node_status := NODE_STAT_SHAKING\<rparr>"
  let ?send = "\<lambda>c ops m. Sent (fst (do_send_handshake c ops m)) (snd (do_send_handshake c ops m))"
  obtain h0 d0 where q: "do_send_handshake i CONNECT_MESG_HANDSHAKE_REQUEST 0 = (h0, d0)" by fastforce
  obtain m where 1: "connection_handshake_recv_handler env a h0 (Some d0) = Some (?a1, [?send ?a0 CONNECT_MESG_HANDSHAKE_RESPONSE m])"
    using recv_request [OF ok(1), of a i 0 "Some d0"] q by auto
  have "s_case_sensitive ?a0 = s_case_sensitive i" using cs by simp
  from recv_response [OF ok this, of m]
  obtain i' m' rest where 2: "connection_handshake_recv_handler env i (fst (do_send_handshake ?a0 CONNECT_MESG_HANDSHAKE_RESPONSE m))
      (Some (snd (do_send_handshake ?a0 CONNECT_MESG_HANDSHAKE_RESPONSE m))) =
      Some (i', ?send (snd (negotiated ?a0 ?i0)) CONNECT_MESG_HANDSHAKE_ACK m' # rest)"
    and i': "in_service env (?hk ?mk HKDF_TYPE_KEY_ACCEPTER) (?hk ?mk HKDF_TYPE_KEY_INITIATOR) i'" "node_features i' = s_features ?a0"
    by blast
  let ?i1 = "snd (negotiated ?a0 ?i0)"
  have i1: "s_case_sensitive ?i1 = s_case_sensitive i" "s_features ?i1 = s_features i" by (simp_all add: negotiated_def)
  then have "s_case_sensitive ?i1 = s_case_sensitive ?a1" using cs by simp
  from recv_ack [OF ok(2) this, of m']
  obtain a' out where 3: "connection_handshake_recv_handler env ?a1 (fst (do_send_handshake ?i1 CONNECT_MESG_HANDSHAKE_ACK m'))
      (Some (snd (do_send_handshake ?i1 CONNECT_MESG_HANDSHAKE_ACK m'))) = Some (a', out)"
    and a': "in_service env (?hk (master_key ?a1) HKDF_TYPE_KEY_INITIATOR) (?hk (master_key ?a1) HKDF_TYPE_KEY_ACCEPTER) a'" "node_features a' = s_features ?i1"
    by blast
  have "exchange env i a = Some (i', a')"
    unfolding exchange_def q using 1 2 3 by (simp add: answer_def case_prod_beta)
  moreover have "keys_paired i' a'" if "derived env"
    using i'(1) a'(1) key that by (intro in_service_paired) simp_all
  ultimately show ?thesis using i' a' i1 by (auto simp: in_service_def derived_def)
qed

theorem handshake_pairs_keys_witness:
  "\<exists>i' a'. exchange sample_env (sample_conn 5) (sample_conn 7) = Some (i', a') \<and> node_features i' = 7 \<and> node_features a' = 5
     \<and> keys_paired i' a'"
proof -
  have "env_send sample_env \<ge> 0" "env_setsockopt_rx sample_env = 0" "master_key (sample_conn 5) = master_key (sample_conn 7)"
    "s_case_sensitive (sample_conn 5) = s_case_sensitive (sample_conn 7)"
    by (simp_all add: sample_env_def sample_conn_def)
  from handshake_pairs_keys [OF this] show ?thesis by (auto simp: sample_conn_def sample_env_def)
qed

end
