(* ===== verification/Message_Verify.thy ===== *)
theory Message_Verify
  imports Protocol
begin

text \<open>
  The verifier every received message passes
  (\<open>src/hmdfs/comm/message_verify.c\<close>): the length table of each command, the
  checks of the string fields of the request bodies, the response checks and
  \<open>hmdfs_message_verify\<close> with its handling of bad messages.

  A body is the buffer the receiver allocated for it. Every check returns
  \<open>None\<close> when it would read a byte outside that buffer, and \<open>Some\<close> of the C
  return value otherwise.
\<close>

section \<open>The tables of \<open>hmdfs_message_verify_init\<close>\<close>

datatype len_judge = MESSAGE_LEN_JUDGE_RANGE | MESSAGE_LEN_JUDGE_BIN

type_synonym len_entry = "nat \<times> nat \<times> len_judge"

definition need_response :: "FILE_CMD \<Rightarrow> bool" where
  "need_response c = (c \<notin> {F_RELEASE, F_CONNECT_REKEY, F_DROP_PUSH})"

definition message_length_default :: len_entry where
  "message_length_default = (1, 0, MESSAGE_LEN_JUDGE_RANGE)"

text \<open>The assignments of the table, in the order of the source.\<close>

definition message_length_file :: "((CMD_FLAG \<times> FILE_CMD) \<times> len_entry) list" where
  "message_length_file =
    [((C_REQUEST, F_OPEN),
        (sizeof open_request, sizeof open_request + PATH_MAX + 1, MESSAGE_LEN_JUDGE_RANGE)),
     ((C_RESPONSE, F_OPEN), (0, sizeof open_response, MESSAGE_LEN_JUDGE_BIN)),
     ((C_REQUEST, F_ATOMIC_OPEN),
        (sizeof atomic_open_request, sizeof atomic_open_request + PATH_MAX + NAME_MAX + 1,
         MESSAGE_LEN_JUDGE_RANGE)),
     ((C_RESPONSE, F_ATOMIC_OPEN), (0, sizeof atomic_open_response, MESSAGE_LEN_JUDGE_BIN)),
     ((C_REQUEST, F_RELEASE),
        (sizeof release_request, sizeof release_request, MESSAGE_LEN_JUDGE_BIN)),
     ((C_REQUEST, F_FSYNC), (sizeof fsync_request, sizeof fsync_request, MESSAGE_LEN_JUDGE_BIN)),
     ((C_RESPONSE, F_FSYNC), (0, 0, MESSAGE_LEN_JUDGE_BIN)),
     ((C_REQUEST, F_READPAGE),
        (sizeof readpage_request, sizeof readpage_request, MESSAGE_LEN_JUDGE_BIN)),
     ((C_RESPONSE, F_READPAGE), (0, HMDFS_PAGE_SIZE, MESSAGE_LEN_JUDGE_RANGE)),
     ((C_REQUEST, F_WRITEPAGE),
        (sizeof writepage_request + HMDFS_PAGE_SIZE, sizeof writepage_request + HMDFS_PAGE_SIZE,
         MESSAGE_LEN_JUDGE_BIN)),
     ((C_RESPONSE, F_WRITEPAGE), (0, sizeof writepage_response, MESSAGE_LEN_JUDGE_BIN)),
     ((C_REQUEST, F_ITERATE),
        (sizeof readdir_request, sizeof readdir_request + PATH_MAX + 1, MESSAGE_LEN_JUDGE_RANGE)),
     ((C_RESPONSE, F_ITERATE), (0, 8 + HMDFS_MAX_MESSAGE_LEN, MESSAGE_LEN_JUDGE_RANGE))]"

definition message_length_dir :: "((CMD_FLAG \<times> FILE_CMD) \<times> len_entry) list" where
  "message_length_dir =
    [((C_REQUEST, F_MKDIR),
        (sizeof mkdir_request, sizeof mkdir_request + PATH_MAX + NAME_MAX + 2,
         MESSAGE_LEN_JUDGE_RANGE)),
     ((C_RESPONSE, F_MKDIR),
        (sizeof hmdfs_inodeinfo_response, sizeof hmdfs_inodeinfo_response, MESSAGE_LEN_JUDGE_BIN)),
     ((C_REQUEST, F_CREATE),
        (sizeof create_request, sizeof create_request + PATH_MAX + NAME_MAX + 2,
         MESSAGE_LEN_JUDGE_RANGE)),
     ((C_RESPONSE, F_CREATE),
        (sizeof hmdfs_inodeinfo_response, sizeof hmdfs_inodeinfo_response, MESSAGE_LEN_JUDGE_BIN)),
     ((C_REQUEST, F_RMDIR),
        (sizeof rmdir_request, sizeof rmdir_request + PATH_MAX + NAME_MAX + 2,
         MESSAGE_LEN_JUDGE_RANGE)),
     ((C_RESPONSE, F_RMDIR), (0, 0, MESSAGE_LEN_JUDGE_BIN)),
     ((C_REQUEST, F_UNLINK),
        (sizeof unlink_request, sizeof unlink_request + PATH_MAX + NAME_MAX + 2,
         MESSAGE_LEN_JUDGE_RANGE)),
     ((C_RESPONSE, F_UNLINK), (0, 0, MESSAGE_LEN_JUDGE_BIN)),
     ((C_REQUEST, F_RENAME),
        (sizeof rename_request, sizeof rename_request + 4 + 4 * PATH_MAX,
         MESSAGE_LEN_JUDGE_RANGE)),
     ((C_RESPONSE, F_RENAME), (0, 0, MESSAGE_LEN_JUDGE_BIN))]"

definition message_length_attr :: "((CMD_FLAG \<times> FILE_CMD) \<times> len_entry) list" where
  "message_length_attr =
    [((C_REQUEST, F_SETATTR),
        (sizeof setattr_request, sizeof setattr_request + PATH_MAX + 1, MESSAGE_LEN_JUDGE_RANGE)),
     ((C_RESPONSE, F_SETATTR), (0, 0, MESSAGE_LEN_JUDGE_BIN)),
     ((C_REQUEST, F_GETATTR),
        (sizeof getattr_request, sizeof getattr_request + PATH_MAX + 1, MESSAGE_LEN_JUDGE_RANGE)),
     ((C_RESPONSE, F_GETATTR), (0, sizeof getattr_response, MESSAGE_LEN_JUDGE_BIN)),
     ((C_REQUEST, F_STATFS),
        (sizeof statfs_request, sizeof statfs_request + PATH_MAX + 1, MESSAGE_LEN_JUDGE_RANGE)),
     ((C_RESPONSE, F_STATFS), (0, sizeof statfs_response, MESSAGE_LEN_JUDGE_BIN)),
     ((C_REQUEST, F_SYNCFS), (sizeof syncfs_request, sizeof syncfs_request, MESSAGE_LEN_JUDGE_BIN)),
     ((C_RESPONSE, F_SYNCFS), (0, 0, MESSAGE_LEN_JUDGE_BIN)),
     ((C_REQUEST, F_GETXATTR),
        (sizeof getxattr_request, sizeof getxattr_request + PATH_MAX + XATTR_NAME_MAX + 2,
         MESSAGE_LEN_JUDGE_RANGE)),
     ((C_RESPONSE, F_GETXATTR),
        (0, sizeof getxattr_response + HMDFS_XATTR_SIZE_MAX, MESSAGE_LEN_JUDGE_RANGE)),
     ((C_REQUEST, F_SETXATTR),
        (sizeof setxattr_request,
         sizeof setxattr_request + PATH_MAX + XATTR_NAME_MAX + HMDFS_XATTR_SIZE_MAX + 2,
         MESSAGE_LEN_JUDGE_RANGE)),
     ((C_RESPONSE, F_SETXATTR), (0, 0, MESSAGE_LEN_JUDGE_BIN)),
     ((C_REQUEST, F_LISTXATTR),
        (sizeof listxattr_request, sizeof listxattr_request + PATH_MAX + 1,
         MESSAGE_LEN_JUDGE_RANGE)),
     ((C_RESPONSE, F_LISTXATTR),
        (0, sizeof listxattr_response + HMDFS_LISTXATTR_SIZE_MAX, MESSAGE_LEN_JUDGE_RANGE)),
     ((C_REQUEST, F_CONNECT_REKEY),
        (sizeof connection_rekey_request, sizeof connection_rekey_request,
         MESSAGE_LEN_JUDGE_BIN)),
     ((C_REQUEST, F_DROP_PUSH),
        (sizeof drop_push_request, sizeof drop_push_request + PATH_MAX + 1,
         MESSAGE_LEN_JUDGE_RANGE))]"

definition message_length :: "CMD_FLAG \<Rightarrow> FILE_CMD \<Rightarrow> len_entry" where
  "message_length f c =
     (case map_of (message_length_file @ message_length_dir @ message_length_attr) (f, c) of
        None \<Rightarrow> message_length_default | Some e \<Rightarrow> e)"

section \<open>The string fields of a body\<close>

fun is_str_msg_valid_from :: "byte list \<Rightarrow> nat \<Rightarrow> nat list \<Rightarrow> int option" where
  "is_str_msg_valid_from msg pos [] = Some 0"
| "is_str_msg_valid_from msg pos (l # ls) = do {
     c \<leftarrow> rd8 msg (pos + l);
     if c \<noteq> 0 then Some (- EINVAL) else do {
       n \<leftarrow> cstrnlen (drop pos msg) PATH_MAX;
       if n \<noteq> l then Some (- EINVAL)
       else is_str_msg_valid_from msg (pos + l + 1) ls } }"

definition is_str_msg_valid :: "byte list \<Rightarrow> nat list \<Rightarrow> int option" where
  "is_str_msg_valid msg str_len = is_str_msg_valid_from msg 0 str_len"

text \<open>
  The checks every string request makes, in the order of the source: the
  lengths are below \<open>PATH_MAX\<close>; the message is exactly the head of the
  body, the strings with their NULs and the payload; the additional limits
  (\<open>limits\<close>); the strings are where the lengths say.
\<close>

definition check_strs ::
  "layout \<Rightarrow> string list \<Rightarrow> (byte list \<Rightarrow> nat option) \<Rightarrow> (byte list \<Rightarrow> bool option)
   \<Rightarrow> nat \<Rightarrow> byte list \<Rightarrow> int option" where
  "check_strs L fs payload limits msg_len msg = do {
     str_len \<leftarrow> those (map (\<lambda>f. fld L f msg) fs);
     if list_ex (\<lambda>l. l \<ge> PATH_MAX) str_len then Some (- EINVAL) else do {
       extra \<leftarrow> payload msg;
       if msg_len \<noteq> sizeof L + sum_list (map Suc str_len) + extra then Some (- EINVAL) else do {
         ok \<leftarrow> limits msg;
         if \<not> ok then Some (- EINVAL) else do {
           r \<leftarrow> is_str_msg_valid (drop (sizeof L) msg) str_len;
           if r \<noteq> 0 then Some (- EINVAL) else Some 0 } } } }"

abbreviation no_payload :: "byte list \<Rightarrow> nat option" where "no_payload \<equiv> \<lambda>_. Some 0"
abbreviation no_limits :: "byte list \<Rightarrow> bool option" where "no_limits \<equiv> \<lambda>_. Some True"

definition verify_open_req :: "nat \<Rightarrow> byte list \<Rightarrow> int option" where
  "verify_open_req = check_strs open_request [''path_len''] no_payload no_limits"

definition verify_open_resp :: "nat \<Rightarrow> byte list \<Rightarrow> int option" where
  "verify_open_resp msg_len msg =
     Some (if msg_len \<noteq> sizeof open_response then - EINVAL else 0)"

definition verify_atomic_open_req :: "nat \<Rightarrow> byte list \<Rightarrow> int option" where
  "verify_atomic_open_req =
     check_strs atomic_open_request [''path_len'', ''file_len''] no_payload no_limits"

definition verify_atomic_open_resp :: "nat \<Rightarrow> byte list \<Rightarrow> int option" where
  "verify_atomic_open_resp msg_len msg =
     Some (if msg_len \<noteq> sizeof atomic_open_response then - EINVAL else 0)"

definition verify_iterate_req :: "nat \<Rightarrow> byte list \<Rightarrow> int option" where
  "verify_iterate_req = check_strs readdir_request [''path_len''] no_payload no_limits"

definition verify_mkdir_req :: "nat \<Rightarrow> byte list \<Rightarrow> int option" where
  "verify_mkdir_req = check_strs mkdir_request [''path_len'', ''name_len''] no_payload no_limits"

definition verify_mkdir_resp :: "nat \<Rightarrow> byte list \<Rightarrow> int option" where
  "verify_mkdir_resp msg_len msg =
     Some (if msg_len \<noteq> sizeof hmdfs_inodeinfo_response then - EINVAL else 0)"

definition verify_create_req :: "nat \<Rightarrow> byte list \<Rightarrow> int option" where
  "verify_create_req = check_strs create_request [''path_len'', ''name_len''] no_payload no_limits"

definition verify_create_resp :: "nat \<Rightarrow> byte list \<Rightarrow> int option" where
  "verify_create_resp msg_len msg =
     Some (if msg_len \<noteq> sizeof hmdfs_inodeinfo_response then - EINVAL else 0)"

definition verify_rmdir_req :: "nat \<Rightarrow> byte list \<Rightarrow> int option" where
  "verify_rmdir_req = check_strs rmdir_request [''path_len'', ''name_len''] no_payload no_limits"

definition verify_unlink_req :: "nat \<Rightarrow> byte list \<Rightarrow> int option" where
  "verify_unlink_req = check_strs unlink_request [''path_len'', ''name_len''] no_payload no_limits"

definition verify_rename_req :: "nat \<Rightarrow> byte list \<Rightarrow> int option" where
  "verify_rename_req =
     check_strs rename_request
       [''old_path_len'', ''new_path_len'', ''old_name_len'', ''new_name_len'']
       no_payload no_limits"

definition verify_setattr_req :: "nat \<Rightarrow> byte list \<Rightarrow> int option" where
  "verify_setattr_req = check_strs setattr_request [''path_len''] no_payload no_limits"

definition verify_getattr_req :: "nat \<Rightarrow> byte list \<Rightarrow> int option" where
  "verify_getattr_req = check_strs getattr_request [''path_len''] no_payload no_limits"

definition verify_getattr_resp :: "nat \<Rightarrow> byte list \<Rightarrow> int option" where
  "verify_getattr_resp msg_len msg =
     Some (if msg_len \<noteq> sizeof getattr_response then - EINVAL else 0)"

definition xattr_limits :: "layout \<Rightarrow> byte list \<Rightarrow> bool option" where
  "xattr_limits L msg = do {
     name_len \<leftarrow> fld L ''name_len'' msg;
     size \<leftarrow> fld L ''size'' msg;
     Some (name_len \<le> XATTR_NAME_MAX \<and> size \<le> XATTR_SIZE_MAX) }"

definition verify_getxattr_req :: "nat \<Rightarrow> byte list \<Rightarrow> int option" where
  "verify_getxattr_req =
     check_strs getxattr_request [''path_len'', ''name_len''] no_payload
       (xattr_limits getxattr_request)"

text \<open>\<open>sizeof(*resp->value)\<close> is the size of one \<open>char\<close>.\<close>

definition verify_getxattr_resp :: "nat \<Rightarrow> byte list \<Rightarrow> int option" where
  "verify_getxattr_resp msg_len msg = do {
     size \<leftarrow> fld getxattr_response ''size'' msg;
     Some (if size \<noteq> 1 then - EINVAL
           else if msg_len < sizeof getxattr_response then - EINVAL
           else if size > XATTR_SIZE_MAX then - EINVAL else 0) }"

definition verify_setxattr_req :: "nat \<Rightarrow> byte list \<Rightarrow> int option" where
  "verify_setxattr_req =
     check_strs setxattr_request [''path_len'', ''name_len'']
       (fld setxattr_request ''size'') (xattr_limits setxattr_request)"

definition verify_listxattr_req :: "nat \<Rightarrow> byte list \<Rightarrow> int option" where
  "verify_listxattr_req =
     check_strs listxattr_request [''path_len''] no_payload
       (\<lambda>msg. map_option (\<lambda>size. size \<le> XATTR_LIST_MAX) (fld listxattr_request ''size'' msg))"

definition verify_listxattr_resp :: "nat \<Rightarrow> byte list \<Rightarrow> int option" where
  "verify_listxattr_resp msg_len msg = do {
     size \<leftarrow> fld listxattr_response ''size'' msg;
     Some (if size \<noteq> 1 then - EINVAL
           else if msg_len < sizeof listxattr_response then - EINVAL
           else if size > XATTR_LIST_MAX then - EINVAL else 0) }"

definition verify_statfs_req :: "nat \<Rightarrow> byte list \<Rightarrow> int option" where
  "verify_statfs_req = check_strs statfs_request [''path_len''] no_payload no_limits"

definition verify_statfs_resp :: "nat \<Rightarrow> byte list \<Rightarrow> int option" where
  "verify_statfs_resp msg_len msg =
     Some (if msg_len \<noteq> sizeof statfs_response then - EINVAL else 0)"

definition verify_drop_push_req :: "nat \<Rightarrow> byte list \<Rightarrow> int option" where
  "verify_drop_push_req = check_strs drop_push_request [''path_len''] no_payload no_limits"

section \<open>The checks of each command\<close>

text \<open>
  The wrapper every command function has: no body and an empty body are
  accepted, a request and a response have their own checks.
\<close>

definition both_ways ::
  "(nat \<Rightarrow> byte list \<Rightarrow> int option) \<Rightarrow> (nat \<Rightarrow> byte list \<Rightarrow> int option)
   \<Rightarrow> CMD_FLAG \<Rightarrow> nat \<Rightarrow> byte list option \<Rightarrow> int option" where
  "both_ways req resp flag msg_len msg =
     (case msg of None \<Rightarrow> Some 0
      | Some m \<Rightarrow> if msg_len = 0 then Some 0
                  else if flag = C_REQUEST then req msg_len m else resp msg_len m)"

abbreviation accept :: "nat \<Rightarrow> byte list \<Rightarrow> int option" where "accept \<equiv> \<lambda>_ _. Some 0"

definition hmdfs_open_verify where "hmdfs_open_verify = both_ways verify_open_req verify_open_resp"

definition hmdfs_atomic_open_verify where
  "hmdfs_atomic_open_verify = both_ways verify_atomic_open_req verify_atomic_open_resp"

definition hmdfs_iterate_verify where "hmdfs_iterate_verify = both_ways verify_iterate_req accept"

definition hmdfs_mkdir_verify where
  "hmdfs_mkdir_verify = both_ways verify_mkdir_req verify_mkdir_resp"

definition hmdfs_create_verify where
  "hmdfs_create_verify = both_ways verify_create_req verify_create_resp"

definition hmdfs_rmdir_verify where "hmdfs_rmdir_verify = both_ways verify_rmdir_req accept"

definition hmdfs_unlink_verify where "hmdfs_unlink_verify = both_ways verify_unlink_req accept"

definition hmdfs_rename_verify where "hmdfs_rename_verify = both_ways verify_rename_req accept"

definition hmdfs_setattr_verify where "hmdfs_setattr_verify = both_ways verify_setattr_req accept"

definition hmdfs_getattr_verify where
  "hmdfs_getattr_verify = both_ways verify_getattr_req verify_getattr_resp"

definition hmdfs_getxattr_verify where
  "hmdfs_getxattr_verify = both_ways verify_getxattr_req verify_getxattr_resp"

definition hmdfs_setxattr_verify where
  "hmdfs_setxattr_verify = both_ways verify_setxattr_req accept"

definition hmdfs_listxattr_verify where
  "hmdfs_listxattr_verify = both_ways verify_listxattr_req verify_listxattr_resp"

definition hmdfs_readpage_verify where
  "hmdfs_readpage_verify =
     both_ways (\<lambda>msg_len msg. Some (if msg_len \<noteq> sizeof readpage_request then - EINVAL else 0)) accept"

definition hmdfs_writepage_verify where
  "hmdfs_writepage_verify =
     both_ways
       (\<lambda>msg_len msg. do {
          count \<leftarrow> fld writepage_request ''count'' msg;
          Some (if count = 0 \<or> count > HMDFS_PAGE_SIZE then - EINVAL
                else if msg_len \<noteq> sizeof writepage_request + HMDFS_PAGE_SIZE then - EINVAL
                else 0) })
       accept"

definition hmdfs_statfs_verify where
  "hmdfs_statfs_verify = both_ways verify_statfs_req verify_statfs_resp"

definition hmdfs_drop_push_verify where
  "hmdfs_drop_push_verify = both_ways verify_drop_push_req accept"

fun message_verify :: "FILE_CMD \<Rightarrow> (CMD_FLAG \<Rightarrow> nat \<Rightarrow> byte list option \<Rightarrow> int option) option" where
  "message_verify F_OPEN = Some hmdfs_open_verify"
| "message_verify F_READPAGE = Some hmdfs_readpage_verify"
| "message_verify F_WRITEPAGE = Some hmdfs_writepage_verify"
| "message_verify F_ITERATE = Some hmdfs_iterate_verify"
| "message_verify F_MKDIR = Some hmdfs_mkdir_verify"
| "message_verify F_RMDIR = Some hmdfs_rmdir_verify"
| "message_verify F_CREATE = Some hmdfs_create_verify"
| "message_verify F_UNLINK = Some hmdfs_unlink_verify"
| "message_verify F_RENAME = Some hmdfs_rename_verify"
| "message_verify F_SETATTR = Some hmdfs_setattr_verify"
| "message_verify F_STATFS = Some hmdfs_statfs_verify"
| "message_verify F_DROP_PUSH = Some hmdfs_drop_push_verify"
| "message_verify F_GETATTR = Some hmdfs_getattr_verify"
| "message_verify F_GETXATTR = Some hmdfs_getxattr_verify"
| "message_verify F_SETXATTR = Some hmdfs_setxattr_verify"
| "message_verify F_LISTXATTR = Some hmdfs_listxattr_verify"
| "message_verify F_ATOMIC_OPEN = Some hmdfs_atomic_open_verify"
| "message_verify _ = None"

section \<open>\<open>hmdfs_message_verify\<close>\<close>

definition is_reserved_command :: "FILE_CMD \<Rightarrow> bool" where
  "is_reserved_command c =
     (c \<in> {F_RESERVED_1, F_RESERVED_2, F_RESERVED_3, F_RESERVED_4, F_RESERVED_5, F_RESERVED_6,
           F_RESERVED_7, F_RESERVED_8})"

text \<open>
  What a check leaves behind: the return value, the head (whose return code
  may have been replaced) and the error responses sent to the peer.
\<close>

record verdict =
  v_err :: int
  v_head :: hmdfs_head_cmd
  v_sent :: "(hmdfs_head_cmd \<times> int) list"

definition handle_bad_message :: "hmdfs_head_cmd \<Rightarrow> int \<Rightarrow> verdict" where
  "handle_bad_message h err =
     (if cmd_flag (operations h) = 1
      then \<lparr>v_err = 0, v_head = h\<lparr>ret_code := of_int (- EOPNOTSUPP)\<rparr>, v_sent = []\<rparr>
      else case file_cmd (command (operations h)) of
             None \<Rightarrow> \<lparr>v_err = err, v_head = h, v_sent = []\<rparr>
           | Some c \<Rightarrow> \<lparr>v_err = err, v_head = h,
                        v_sent = (if need_response c then [(h, - EOPNOTSUPP)] else [])\<rparr>)"

text \<open>The length of the body, computed in the 64 bits of \<open>size_t\<close>.\<close>

definition body_len :: "hmdfs_head_cmd \<Rightarrow> nat" where
  "body_len h = unat (ucast (data_len h) - of_nat HEAD_SIZE :: u64)"

definition max_len :: "CMD_FLAG \<Rightarrow> FILE_CMD \<Rightarrow> nat" where
  "max_len f c = (if c = F_ITERATE \<and> f = C_RESPONSE then sizeof slice_descriptor + PAGE_SIZE
                  else fst (snd (message_length f c)))"

definition len_ok :: "CMD_FLAG \<Rightarrow> FILE_CMD \<Rightarrow> nat \<Rightarrow> bool" where
  "len_ok f c len =
     (let min_len = fst (message_length f c) in
      case snd (snd (message_length f c)) of
        MESSAGE_LEN_JUDGE_RANGE \<Rightarrow> \<not> (len < min_len \<or> len > max_len f c)
      | MESSAGE_LEN_JUDGE_BIN \<Rightarrow> \<not> (len \<noteq> min_len \<and> len \<noteq> max_len f c))"

definition hmdfs_message_verify :: "hmdfs_head_cmd \<Rightarrow> byte list option \<Rightarrow> verdict option" where
  "hmdfs_message_verify h data =
     (case cmd_flag_of (cmd_flag (operations h)) of
        None \<Rightarrow> Some \<lparr>v_err = - EINVAL, v_head = h, v_sent = []\<rparr>
      | Some f \<Rightarrow>
        (case file_cmd (command (operations h)) of
           None \<Rightarrow> Some (handle_bad_message h (- EINVAL))
         | Some c \<Rightarrow>
           if is_reserved_command c then Some (handle_bad_message h (- EINVAL))
           else if \<not> len_ok f c (body_len h) then Some (handle_bad_message h (- EINVAL))
           else do {
             err \<leftarrow> (case message_verify c of None \<Rightarrow> Some 0 | Some v \<Rightarrow> v f (body_len h) data);
             Some (if err \<noteq> 0 then handle_bad_message h err
                   else \<lparr>v_err = 0, v_head = h, v_sent = []\<rparr>) }))"

section \<open>What the string checks decide\<close>

definition nul_strings :: "byte list list \<Rightarrow> byte list" where
  "nul_strings strs = concat (map (\<lambda>s. s @ [0]) strs)"

lemma nul_strings_Cons: "nul_strings (s # strs) = s @ 0 # nul_strings strs"
  by (simp add: nul_strings_def)

lemma nul_strings_Nil [simp]: "nul_strings [] = []"
  by (simp add: nul_strings_def)

lemma length_nul_strings: "length (nul_strings strs) = sum_list (map Suc (map length strs))"
  by (induction strs) (simp_all add: nul_strings_Cons)

lemma is_str_msg_valid_from_safe:
  "pos + sum_list (map Suc ls) \<le> length msg \<Longrightarrow> \<exists>r. is_str_msg_valid_from msg pos ls = Some r"
proof (induction ls arbitrary: pos)
  case (Cons l ls)
  from Cons.prems have l: "pos + l < length msg" by simp
  have "\<exists>k. cstrnlen (drop pos msg) PATH_MAX = Some k" if "msg ! (pos + l) = 0"
  proof (rule cstrnlen_total)
    from that l have "drop pos msg ! l = 0" and "l < length (drop pos msg)" by auto
    then show "0 \<in> set (drop pos msg)" by (metis nth_mem)
  qed
  with Cons.IH [of "pos + l + 1"] Cons.prems l show ?case
    by (auto simp: rd8_Some)
qed simp

lemma is_str_msg_valid_from_iff:
  assumes "\<forall>l\<in>set ls. l < PATH_MAX"
  shows "is_str_msg_valid_from msg pos ls = Some 0 \<longleftrightarrow>
    (\<exists>strs rest. map length strs = ls \<and> (\<forall>s\<in>set strs. 0 \<notin> set s) \<and>
       drop pos msg = nul_strings strs @ rest)"
  using assms
proof (induction ls arbitrary: pos)
  case (Cons l ls)
  let ?ex = "\<lambda>p ls. \<exists>strs rest. map length strs = ls \<and> (\<forall>s\<in>set strs. 0 \<notin> set s) \<and>
       drop p msg = nul_strings strs @ rest"
  have IH: "is_str_msg_valid_from msg (pos + l + 1) ls = Some 0 \<longleftrightarrow> ?ex (pos + l + 1) ls"
    using Cons by simp
  show ?case
  proof
    assume v: "is_str_msg_valid_from msg pos (l # ls) = Some 0"
    then have n: "cstrnlen (drop pos msg) PATH_MAX = Some l"
      and r: "is_str_msg_valid_from msg (pos + l + 1) ls = Some 0"
      by (auto simp: Option.bind_eq_Some_conv split: if_splits)
    from cstrnlen_short [OF n] Cons.prems obtain s rest where
      s: "drop pos msg = s @ 0 # rest" "length s = l" "0 \<notin> set s" by auto
    from s have "drop (pos + l + 1) msg = rest"
    proof -
      have "drop (pos + l + 1) msg = drop (l + 1) (drop pos msg)"
        by (simp add: add.commute add.left_commute)
      then show ?thesis using s by simp
    qed
    with r IH obtain strs rest' where "map length strs = ls" "\<forall>s\<in>set strs. 0 \<notin> set s"
      "rest = nul_strings strs @ rest'" by auto
    with s show "?ex pos (l # ls)"
      by (intro exI [of _ "s # strs"] exI [of _ rest']) (simp add: nul_strings_Cons)
  next
    assume "?ex pos (l # ls)"
    then obtain s strs rest where
      s: "length s = l" "map length strs = ls" "0 \<notin> set s" "\<forall>s\<in>set strs. 0 \<notin> set s"
        "drop pos msg = s @ 0 # nul_strings strs @ rest"
      by (auto simp: map_eq_Cons_conv nul_strings_Cons)
    from s(5) have len: "pos + l < length msg" and z: "msg ! (pos + l) = 0"
    proof -
      have "pos \<le> length msg" using s(5) by (cases "pos \<le> length msg") auto
      moreover have "length (drop pos msg) > l" using s by simp
      ultimately show "pos + l < length msg" by simp
      have "drop pos msg ! l = 0" using s by (simp add: nth_append)
      with \<open>pos \<le> length msg\<close> show "msg ! (pos + l) = 0" by simp
    qed
    have n: "cstrnlen (drop pos msg) PATH_MAX = Some l"
      using cstrnlen_terminated [of s PATH_MAX] s Cons.prems by simp
    have "drop (pos + l + 1) msg = nul_strings strs @ rest"
    proof -
      have "drop (pos + l + 1) msg = drop (l + 1) (drop pos msg)"
        by (simp add: add.commute add.left_commute)
      then show ?thesis using s by simp
    qed
    with s have "?ex (pos + l + 1) ls" by blast
    with IH have "is_str_msg_valid_from msg (pos + l + 1) ls = Some 0" by blast
    with n z len show "is_str_msg_valid_from msg pos (l # ls) = Some 0"
      by (simp add: rd8_Some)
  qed
qed simp

lemma those_Cons_Some_iff:
  "those (x # xs) = Some vs \<longleftrightarrow> (\<exists>v ws. x = Some v \<and> those xs = Some ws \<and> vs = v # ws)"
  by (cases x) auto

lemma those_map_Some:
  "\<forall>x\<in>set xs. \<exists>v. f x = Some v \<Longrightarrow> \<exists>vs. those (map f xs) = Some vs"
  by (induction xs) (auto simp del: those.simps(2) simp add: those_Cons_Some_iff)

lemma those_Some_iff: "those xs = Some vs \<longleftrightarrow> xs = map Some vs"
  by (induction xs arbitrary: vs)
     (auto simp del: those.simps(2) simp add: those_Cons_Some_iff Cons_eq_map_conv)

text \<open>Enough bytes for the fixed part: no read of the checks leaves the buffer.\<close>

lemma check_strs_safe [verify_intros]:
  assumes fields: "set fs \<subseteq> fst ` set L" and len: "sizeof L \<le> length msg"
    and payload: "\<exists>n. payload msg = Some n" and limits: "\<exists>b. limits msg = Some b"
  shows "\<exists>r. check_strs L fs payload limits (length msg) msg = Some r"
proof -
  have "\<exists>ls. those (map (\<lambda>f. fld L f msg) fs) = Some ls"
    using fields len by (intro those_map_Some ballI fld_total) auto
  then obtain ls where ls: "those (map (\<lambda>f. fld L f msg) fs) = Some ls" by auto
  obtain n where n: "payload msg = Some n" using payload by auto
  have "\<exists>r. is_str_msg_valid (drop (sizeof L) msg) ls = Some r"
    if "length msg = sizeof L + sum_list (map Suc ls) + n"
    using that unfolding is_str_msg_valid_def by (intro is_str_msg_valid_from_safe) simp
  with ls n limits show ?thesis by (auto simp: check_strs_def)
qed

text \<open>The well-formed string bodies, and that the checks accept exactly these.\<close>

definition wf_strs ::
  "layout \<Rightarrow> string list \<Rightarrow> (byte list \<Rightarrow> nat option) \<Rightarrow> (byte list \<Rightarrow> bool option)
   \<Rightarrow> byte list \<Rightarrow> bool" where
  "wf_strs L fs payload limits msg \<longleftrightarrow>
     (\<exists>fixed strs extra.
        msg = fixed @ nul_strings strs @ extra \<and> length fixed = sizeof L \<and>
        (\<forall>s\<in>set strs. 0 \<notin> set s \<and> length s < PATH_MAX) \<and>
        map (\<lambda>f. fld L f msg) fs = map (\<lambda>s. Some (length s)) strs \<and>
        payload msg = Some (length extra) \<and> limits msg = Some True)"

lemma check_strs_iff:
  assumes "sizeof L \<le> length msg"
  shows "check_strs L fs payload limits (length msg) msg = Some 0 \<longleftrightarrow>
         wf_strs L fs payload limits msg"
proof
  assume "check_strs L fs payload limits (length msg) msg = Some 0"
  then obtain ls n where
    ls: "those (map (\<lambda>f. fld L f msg) fs) = Some ls" "\<forall>l\<in>set ls. l < PATH_MAX"
    and n: "payload msg = Some n" "length msg = sizeof L + sum_list (map Suc ls) + n"
    and lim: "limits msg = Some True"
    and v: "is_str_msg_valid (drop (sizeof L) msg) ls = Some 0"
    by (auto simp: check_strs_def Option.bind_eq_Some_conv list_ex_iff not_le split: if_splits)
  from v ls(2) obtain strs rest where
    s: "map length strs = ls" "\<forall>s\<in>set strs. 0 \<notin> set s" "drop (sizeof L) msg = nul_strings strs @ rest"
    unfolding is_str_msg_valid_def by (auto simp: is_str_msg_valid_from_iff)
  have m: "msg = take (sizeof L) msg @ nul_strings strs @ rest"
    using s(3) by (metis append_take_drop_id)
  have "length (drop (sizeof L) msg) = length (nul_strings strs) + length rest"
    using s(3) by simp
  with n(2) s(1) have "n = length rest" by (simp add: length_nul_strings)
  moreover have "map (\<lambda>f. fld L f msg) fs = map (\<lambda>s. Some (length s)) strs"
    using ls(1) s(1) by (auto simp: those_Some_iff)
  moreover have "\<forall>s\<in>set strs. length s < PATH_MAX" using ls(2) s(1) by auto
  ultimately show "wf_strs L fs payload limits msg"
    unfolding wf_strs_def using m n(1) s(2) lim assms
    by (intro exI [of _ "take (sizeof L) msg"] exI [of _ strs] exI [of _ rest]) simp
next
  assume "wf_strs L fs payload limits msg"
  then obtain fixed strs extra where
    m: "msg = fixed @ nul_strings strs @ extra" "length fixed = sizeof L"
    and s: "\<forall>s\<in>set strs. 0 \<notin> set s \<and> length s < PATH_MAX"
    and f: "map (\<lambda>f. fld L f msg) fs = map (\<lambda>s. Some (length s)) strs"
    and e: "payload msg = Some (length extra)" "limits msg = Some True"
    unfolding wf_strs_def by blast
  have ls: "those (map (\<lambda>f. fld L f msg) fs) = Some (map length strs)"
    using f by (simp add: those_Some_iff)
  have "is_str_msg_valid (drop (sizeof L) msg) (map length strs) = Some 0"
    unfolding is_str_msg_valid_def using m s
    by (subst is_str_msg_valid_from_iff) auto
  moreover have "length msg = sizeof L + sum_list (map Suc (map length strs)) + length extra"
    using m by (simp add: length_nul_strings)
  ultimately show "check_strs L fs payload limits (length msg) msg = Some 0"
    using ls e s by (auto simp: check_strs_def list_ex_iff)
qed

section \<open>Every command at once\<close>

text \<open>
  The commands whose request carries strings, with the fixed part of the body,
  its length fields, the payload after the strings and the additional limits.
\<close>

fun string_body ::
  "FILE_CMD \<Rightarrow> (layout \<times> string list \<times> (byte list \<Rightarrow> nat option) \<times> (byte list \<Rightarrow> bool option)) option"
where
  "string_body F_OPEN = Some (open_request, [''path_len''], no_payload, no_limits)"
| "string_body F_ATOMIC_OPEN =
     Some (atomic_open_request, [''path_len'', ''file_len''], no_payload, no_limits)"
| "string_body F_ITERATE = Some (readdir_request, [''path_len''], no_payload, no_limits)"
| "string_body F_MKDIR = Some (mkdir_request, [''path_len'', ''name_len''], no_payload, no_limits)"
| "string_body F_CREATE = Some (create_request, [''path_len'', ''name_len''], no_payload, no_limits)"
| "string_body F_RMDIR = Some (rmdir_request, [''path_len'', ''name_len''], no_payload, no_limits)"
| "string_body F_UNLINK = Some (unlink_request, [''path_len'', ''name_len''], no_payload, no_limits)"
| "string_body F_RENAME =
     Some (rename_request, [''old_path_len'', ''new_path_len'', ''old_name_len'', ''new_name_len''],
           no_payload, no_limits)"
| "string_body F_SETATTR = Some (setattr_request, [''path_len''], no_payload, no_limits)"
| "string_body F_GETATTR = Some (getattr_request, [''path_len''], no_payload, no_limits)"
| "string_body F_STATFS = Some (statfs_request, [''path_len''], no_payload, no_limits)"
| "string_body F_DROP_PUSH = Some (drop_push_request, [''path_len''], no_payload, no_limits)"
| "string_body F_GETXATTR =
     Some (getxattr_request, [''path_len'', ''name_len''], no_payload, xattr_limits getxattr_request)"
| "string_body F_SETXATTR =
     Some (setxattr_request, [''path_len'', ''name_len''], fld setxattr_request ''size'',
           xattr_limits setxattr_request)"
| "string_body F_LISTXATTR =
     Some (listxattr_request, [''path_len''], no_payload,
       (\<lambda>msg. map_option (\<lambda>size. size \<le> XATTR_LIST_MAX) (fld listxattr_request ''size'' msg)))"
| "string_body _ = None"

lemmas verify_req_defs =
  verify_open_req_def verify_atomic_open_req_def verify_iterate_req_def verify_mkdir_req_def
  verify_create_req_def verify_rmdir_req_def verify_unlink_req_def verify_rename_req_def
  verify_setattr_req_def verify_getattr_req_def verify_getxattr_req_def verify_setxattr_req_def
  verify_listxattr_req_def verify_statfs_req_def verify_drop_push_req_def

lemmas command_verify_defs =
  hmdfs_open_verify_def hmdfs_atomic_open_verify_def hmdfs_iterate_verify_def
  hmdfs_mkdir_verify_def hmdfs_create_verify_def hmdfs_rmdir_verify_def hmdfs_unlink_verify_def
  hmdfs_rename_verify_def hmdfs_setattr_verify_def hmdfs_getattr_verify_def
  hmdfs_getxattr_verify_def hmdfs_setxattr_verify_def hmdfs_listxattr_verify_def
  hmdfs_readpage_verify_def hmdfs_writepage_verify_def hmdfs_statfs_verify_def
  hmdfs_drop_push_verify_def

lemmas message_length_defs =
  message_length_def message_length_file_def message_length_dir_def message_length_attr_def
  message_length_default_def

lemma string_body_verify:
  "string_body c = Some (L, fs, payload, limits) \<Longrightarrow>
   \<exists>v. message_verify c = Some v \<and>
       v C_REQUEST n (Some m) = (if n = 0 then Some 0 else check_strs L fs payload limits n m)"
  by (cases c) (auto simp: command_verify_defs verify_req_defs both_ways_def)

lemma string_body_fields:
  "string_body c = Some (L, fs, payload, limits) \<Longrightarrow> set fs \<subseteq> fst ` set L \<and> 0 < sizeof L"
  by (cases c) (auto simp: layout_simps)

lemma string_body_min: "string_body c = Some (L, fs, payload, limits) \<Longrightarrow>
  fst (message_length C_REQUEST c) = sizeof L \<and>
  snd (snd (message_length C_REQUEST c)) = MESSAGE_LEN_JUDGE_RANGE"
  by (cases c) (auto simp: message_length_defs)

lemma fld_total_simp:
  assumes "sizeof L \<le> length m" and "f \<in> fst ` set L"
  obtains v where "fld L f m = Some v"
  using fld_total [OF assms(2,1)] by blast

lemma string_body_total:
  assumes "string_body c = Some (L, fs, payload, limits)" and len: "sizeof L \<le> length m"
  shows "(\<exists>n. payload m = Some n) \<and> (\<exists>b. limits m = Some b)"
proof -
  have fields: "c = F_SETXATTR \<Longrightarrow> (\<exists>v. fld L ''size'' m = Some v) \<and> (\<exists>v. fld L ''name_len'' m = Some v)"
    "c = F_GETXATTR \<Longrightarrow> (\<exists>v. fld L ''size'' m = Some v) \<and> (\<exists>v. fld L ''name_len'' m = Some v)"
    "c = F_LISTXATTR \<Longrightarrow> \<exists>v. fld L ''size'' m = Some v"
    using assms by (auto intro!: fld_total simp: layout_simps)
  show ?thesis using assms(1) fields
    by (cases c) (auto simp: xattr_limits_def)
qed

lemma len_ok_string_body:
  assumes "string_body c = Some (L, fs, payload, limits)" and "len_ok C_REQUEST c n"
  shows "sizeof L \<le> n" and "0 < n"
  using assms string_body_min [OF assms(1)] string_body_fields [OF assms(1)]
  by (auto simp: len_ok_def Let_def)

lemma hmdfs_message_verify_request:
  assumes "cmd_flag (operations h) = 0" and "file_cmd (command (operations h)) = Some c"
    and "\<not> is_reserved_command c" and "len_ok C_REQUEST c (body_len h)"
  shows "hmdfs_message_verify h data =
    do { err \<leftarrow> (case message_verify c of None \<Rightarrow> Some 0 | Some v \<Rightarrow> v C_REQUEST (body_len h) data);
         Some (if err \<noteq> 0 then handle_bad_message h err
               else \<lparr>v_err = 0, v_head = h, v_sent = []\<rparr>) }"
  using assms by (simp add: hmdfs_message_verify_def cmd_flag_of_def)

lemma string_body_not_reserved: "string_body c = Some x \<Longrightarrow> \<not> is_reserved_command c"
  by (cases c) (auto simp: is_reserved_command_def)

lemma handle_bad_message_request_err:
  "cmd_flag (operations h) = 0 \<Longrightarrow> v_err (handle_bad_message h err) = err"
  by (simp add: handle_bad_message_def split: option.split)

lemma writepage_request_count_total:
  "length m = sizeof writepage_request + HMDFS_PAGE_SIZE \<Longrightarrow>
   \<exists>v. fld writepage_request ''count'' m = Some v"
  by (rule fld_total) (auto simp: layout_simps)

lemma string_request_verdict:
  assumes flag: "cmd_flag (operations h) = 0" and buf: "length buf = body_len h"
    and c: "file_cmd (command (operations h)) = Some c"
    and sb: "string_body c = Some (L, fs, payload, limits)" and len: "len_ok C_REQUEST c (length buf)"
  shows "hmdfs_message_verify h (Some buf) =
    do { err \<leftarrow> check_strs L fs payload limits (length buf) buf;
         Some (if err \<noteq> 0 then handle_bad_message h err
               else \<lparr>v_err = 0, v_head = h, v_sent = []\<rparr>) }"
proof -
  obtain v where "message_verify c = Some v"
    "v C_REQUEST (length buf) (Some buf) = check_strs L fs payload limits (length buf) buf"
    using string_body_verify [OF sb, of "length buf" buf] len_ok_string_body [OF sb len] by auto
  then show ?thesis
    using hmdfs_message_verify_request [OF flag c string_body_not_reserved [OF sb]] len buf by simp
qed

lemma string_request_accepted:
  assumes "cmd_flag (operations h) = 0" and "length buf = body_len h"
    and "file_cmd (command (operations h)) = Some c"
    and "string_body c = Some (L, fs, payload, limits)" and "len_ok C_REQUEST c (length buf)"
    and "hmdfs_message_verify h (Some buf) = Some v" and "v_err v = 0"
  shows "wf_strs L fs payload limits buf"
proof -
  obtain err where err: "check_strs L fs payload limits (length buf) buf = Some err"
    "v = (if err \<noteq> 0 then handle_bad_message h err else \<lparr>v_err = 0, v_head = h, v_sent = []\<rparr>)"
    using assms(6) unfolding string_request_verdict [OF assms(1-5)] by (auto simp: Option.bind_eq_Some_conv)
  then have "err = 0" using assms(7) handle_bad_message_request_err [OF assms(1), of err] by (auto split: if_splits)
  then show ?thesis using check_strs_iff [OF len_ok_string_body(1) [OF assms(4,5)]] err(1) by simp
qed

text \<open>
  C11 (safety). Verifying a request never reads a byte outside the buffer the
  receiver allocated for its body, for every command number, every declared
  length and every content of the body.
\<close>

theorem request_verify_in_bounds:
  assumes flag: "cmd_flag (operations h) = 0" and buf: "length buf = body_len h"
  shows "\<exists>v. hmdfs_message_verify h (Some buf) = Some v"
proof (cases "file_cmd (command (operations h))")
  case None
  with flag show ?thesis by (simp add: hmdfs_message_verify_def cmd_flag_of_def)
next
  case (Some c)
  note c = this
  show ?thesis
  proof (cases "is_reserved_command c \<or> \<not> len_ok C_REQUEST c (body_len h)")
    case True
    with flag Some show ?thesis by (auto simp: hmdfs_message_verify_def cmd_flag_of_def)
  next
    case ok: False
    have "\<exists>r. (case message_verify c of None \<Rightarrow> Some 0
                | Some v \<Rightarrow> v C_REQUEST (body_len h) (Some buf)) = Some r"
    proof (cases "string_body c")
      case (Some x)
      then obtain L fs payload limits where x: "string_body c = Some (L, fs, payload, limits)"
        by (cases x) auto
      with ok have len: "sizeof L \<le> length buf" using len_ok_string_body buf by simp
      show ?thesis
        using string_body_verify [OF x, of "length buf" buf] string_body_fields [OF x]
          check_strs_safe [of fs L buf payload limits] string_body_total [OF x len] len buf
        by auto
    next
      case None
      then show ?thesis using ok buf writepage_request_count_total [of buf]
        by (cases c) (auto simp: command_verify_defs both_ways_def len_ok_def message_length_defs max_len_def)
    qed
    with hmdfs_message_verify_request [OF flag c] ok show ?thesis by auto
  qed
qed

text \<open>
  A string request is accepted exactly when its length is in
  the table's range and its body is the fixed part followed by NUL-terminated
  strings without inner NULs, of exactly the declared lengths, all below
  \<open>PATH_MAX\<close>, and then the declared payload; anything else is answered with
  \<open>-EINVAL\<close>.
\<close>

theorem request_accepted_iff:
  assumes flag: "cmd_flag (operations h) = 0" and buf: "length buf = body_len h"
    and c: "file_cmd (command (operations h)) = Some c"
    and sb: "string_body c = Some (L, fs, payload, limits)"
  shows "hmdfs_message_verify h (Some buf) = Some \<lparr>v_err = 0, v_head = h, v_sent = []\<rparr> \<longleftrightarrow>
         len_ok C_REQUEST c (length buf) \<and> wf_strs L fs payload limits buf"
proof (cases "len_ok C_REQUEST c (length buf)")
  case False
  then have "hmdfs_message_verify h (Some buf) = Some (handle_bad_message h (- EINVAL))"
    using flag c buf string_body_not_reserved [OF sb]
    by (simp add: hmdfs_message_verify_def cmd_flag_of_def)
  moreover have "v_err (handle_bad_message h (- EINVAL)) = - EINVAL"
    by (rule handle_bad_message_request_err [OF flag])
  ultimately show ?thesis using False by auto
next
  case True
  have len: "sizeof L \<le> length buf"
    using len_ok_string_body [OF sb True] by auto
  note string_request_verdict [OF flag buf c sb True]
  moreover have "v_err (handle_bad_message h err) = err" for err
    by (rule handle_bad_message_request_err [OF flag])
  ultimately have "hmdfs_message_verify h (Some buf) = Some \<lparr>v_err = 0, v_head = h, v_sent = []\<rparr>
      \<longleftrightarrow> check_strs L fs payload limits (length buf) buf = Some 0"
    by (auto simp: Option.bind_eq_Some_conv split: if_splits) (metis verdict.select_convs(1))
  then show ?thesis using True check_strs_iff [OF len] by simp
qed

text \<open>A concrete request for the witnesses: \<open>statfs\<close> of the path \<open>a\<close>.\<close>

definition statfs_head :: "u32 \<Rightarrow> hmdfs_head_cmd" where
  "statfs_head n =
     \<lparr>magic = HMDFS_MSG_MAGIC, version = HMDFS_VERSION, reserved = 0, data_len = n,
      operations = \<lparr>op_reserved = 0, cmd_flag = 0, command = 16, op_reserved2 = 0\<rparr>,
      ret_code = 0, msg_id = 7, reserved1 = 0\<rparr>"

definition statfs_body :: "byte list" where
  "statfs_body = [1, 0, 0, 0, 97, 0]"

lemma file_cmd_statfs [simp]: "file_cmd 16 = Some F_STATFS"
  by (simp add: file_cmd_def file_cmds_def)

lemma body_len_statfs [simp]: "body_len (statfs_head 30) = 6"
  by (simp add: body_len_def statfs_head_def)

lemma wf_statfs_body: "wf_strs statfs_request [''path_len''] no_payload no_limits statfs_body"
  unfolding wf_strs_def
  by (intro exI [of _ "[1, 0, 0, 0]"] exI [of _ "[[97]]"] exI [of _ "[]"])
     (simp add: statfs_body_def nul_strings_def layout_simps fld_def rd_le_def)

theorem request_verify_in_bounds_witness:
  "length statfs_body = body_len (statfs_head 30) \<and>
   (\<exists>v. hmdfs_message_verify (statfs_head 30) (Some statfs_body) = Some v)"
  using request_verify_in_bounds [of "statfs_head 30" statfs_body]
  by (simp add: statfs_head_def statfs_body_def body_len_def)

theorem request_accepted_iff_witness:
  "hmdfs_message_verify (statfs_head 30) (Some statfs_body) =
   Some \<lparr>v_err = 0, v_head = statfs_head 30, v_sent = []\<rparr>"
proof -
  have "len_ok C_REQUEST F_STATFS (length statfs_body)"
    by (simp add: len_ok_def message_length_defs layout_simps statfs_body_def max_len_def)
  moreover have "cmd_flag (operations (statfs_head 30)) = 0"
    and "file_cmd (command (operations (statfs_head 30))) = Some F_STATFS"
    and "length statfs_body = body_len (statfs_head 30)"
    by (simp_all add: statfs_head_def statfs_body_def body_len_def)
  ultimately show ?thesis
    using request_accepted_iff [of "statfs_head 30" statfs_body F_STATFS] wf_statfs_body by simp
qed

section \<open>Lengths, bad messages and responses\<close>

lemma max_len_bound: "fst (message_length f c) < 2 ^ 32 - 1 \<and> max_len f c < 2 ^ 32 - 1"
  by (cases f; cases c) (simp_all add: message_length_defs layout_simps max_len_def)

lemma len_ok_bound: "len_ok f c n \<Longrightarrow> n < 2 ^ 32 - 1"
  using max_len_bound [of f c] by (auto simp: len_ok_def Let_def split: len_judge.splits)

lemma body_len_cases:
  "body_len h = (if HEAD_SIZE \<le> unat (data_len h) then unat (data_len h) - HEAD_SIZE
                 else 2 ^ 64 + unat (data_len h) - HEAD_SIZE)"
proof -
  have lt: "unat (data_len h) < 2 ^ 32"
    using unsigned_less [where 'a = nat, of "data_len h"] by simp
  then have u: "unat (ucast (data_len h) :: u64) = unat (data_len h)"
    by (simp add: unsigned_ucast_eq take_bit_nat_eq_self)
  then show ?thesis using lt
    by (simp add: body_len_def unat_sub_if_size word_size)
qed

text \<open>
  The length check decides on the true body length: if it passes,
  the declared length is at least the head, the subtraction of the head did
  not wrap around, and the body is shorter than \<open>2^32 - 1\<close> bytes.
\<close>

theorem len_ok_no_wrap:
  assumes "len_ok f c (body_len h)"
  shows "HEAD_SIZE \<le> unat (data_len h) \<and> body_len h = unat (data_len h) - HEAD_SIZE
         \<and> body_len h < 2 ^ 32 - 1"
  using len_ok_bound [OF assms] body_len_cases [of h] by (auto split: if_splits)

theorem len_ok_no_wrap_witness:
  "len_ok C_REQUEST F_STATFS (body_len (statfs_head 30)) \<and> body_len (statfs_head 30) < 2 ^ 32 - 1"
proof -
  have "len_ok C_REQUEST F_STATFS (body_len (statfs_head 30))"
    by (simp add: len_ok_def message_length_defs layout_simps max_len_def)
  then show ?thesis using len_ok_no_wrap [of C_REQUEST F_STATFS "statfs_head 30"] by blast
qed

lemma v_err_handle_bad_message:
  "handle_bad_message h err =
     (if cmd_flag (operations h) = 1
      then \<lparr>v_err = 0, v_head = h\<lparr>ret_code := of_int (- EOPNOTSUPP)\<rparr>, v_sent = []\<rparr>
      else \<lparr>v_err = err, v_head = h,
             v_sent = (case file_cmd (command (operations h)) of
                         Some c \<Rightarrow> if need_response c then [(h, - EOPNOTSUPP)] else []
                       | None \<Rightarrow> [])\<rparr>)"
  by (auto simp: handle_bad_message_def split: option.splits)

text \<open>
  A verdict is one of three: the message is accepted unchanged; a
  bad response is passed on with the return code \<open>-EOPNOTSUPP\<close>, so that the
  waiting request ends with that error; a bad request is refused with an error,
  and exactly the requests that expect an answer are answered, once, with
  \<open>-EOPNOTSUPP\<close>.
\<close>

theorem verdict_cases:
  assumes "hmdfs_message_verify h data = Some v"
  shows "v = \<lparr>v_err = 0, v_head = h, v_sent = []\<rparr> \<or>
    cmd_flag (operations h) = 1 \<and>
      v = \<lparr>v_err = 0, v_head = h\<lparr>ret_code := of_int (- EOPNOTSUPP)\<rparr>, v_sent = []\<rparr> \<or>
    cmd_flag (operations h) = 0 \<and> v_err v \<noteq> 0 \<and> v_head v = h \<and>
      v_sent v = (case file_cmd (command (operations h)) of
                    Some c \<Rightarrow> if need_response c then [(h, - EOPNOTSUPP)] else []
                  | None \<Rightarrow> []) \<or>
    cmd_flag (operations h) \<notin> {0, 1} \<and> v = \<lparr>v_err = - EINVAL, v_head = h, v_sent = []\<rparr>"
  using assms
  by (auto simp: hmdfs_message_verify_def cmd_flag_of_def v_err_handle_bad_message
        Option.bind_eq_Some_conv split: if_splits option.splits)

theorem verdict_cases_witness:
  "v_err (the (hmdfs_message_verify (statfs_head 24) None)) \<noteq> 0 \<and>
   v_sent (the (hmdfs_message_verify (statfs_head 24) None)) = [(statfs_head 24, - EOPNOTSUPP)]"
proof -
  have "\<not> len_ok C_REQUEST F_STATFS (body_len (statfs_head 24))"
    by (simp add: len_ok_def message_length_defs layout_simps max_len_def body_len_def statfs_head_def)
  then have v: "hmdfs_message_verify (statfs_head 24) None = Some (handle_bad_message (statfs_head 24) (- EINVAL))"
    by (simp add: hmdfs_message_verify_def cmd_flag_of_def statfs_head_def is_reserved_command_def)
  have "v_err (handle_bad_message (statfs_head 24) (- EINVAL)) = - EINVAL"
    by (rule handle_bad_message_request_err) (simp add: statfs_head_def)
  then show ?thesis using verdict_cases [OF v] v
    by (auto simp: statfs_head_def need_response_def)
qed

text \<open>
  The check of a \<open>getxattr\<close> response compares the reported size
  of the value with \<open>sizeof(*resp->value)\<close>, which is 1: every response that
  carries a value of another size is turned into \<open>-EOPNOTSUPP\<close>.
\<close>

theorem getxattr_response_size_one:
  assumes "cmd_flag (operations h) = 1" and "command (operations h) = 23"
    and "length buf = body_len h" and "4 \<le> length buf"
    and "length buf \<le> 4 + HMDFS_XATTR_SIZE_MAX" and "le_val (take 4 buf) \<noteq> 1"
  shows "hmdfs_message_verify h (Some buf) =
    Some \<lparr>v_err = 0, v_head = h\<lparr>ret_code := of_int (- EOPNOTSUPP)\<rparr>, v_sent = []\<rparr>"
proof -
  have c: "file_cmd (command (operations h)) = Some F_GETXATTR"
    using assms(2) by (simp add: file_cmd_def file_cmds_def)
  have "len_ok C_RESPONSE F_GETXATTR (body_len h)"
    using assms(3-5) by (simp add: len_ok_def message_length_defs layout_simps max_len_def)
  moreover have "verify_getxattr_resp (body_len h) buf = Some (- EINVAL)"
    using assms(3-6) by (simp add: verify_getxattr_resp_def layout_simps fld_def rd_le_def)
  ultimately show ?thesis
    using assms(1,3,4) c
    by (simp add: hmdfs_message_verify_def cmd_flag_of_def is_reserved_command_def
          hmdfs_getxattr_verify_def both_ways_def handle_bad_message_def)
qed

definition getxattr_resp_head :: "u32 \<Rightarrow> hmdfs_head_cmd" where
  "getxattr_resp_head n = (statfs_head n)\<lparr>operations :=
     \<lparr>op_reserved = 0, cmd_flag = 1, command = 23, op_reserved2 = 0\<rparr>\<rparr>"

theorem getxattr_response_size_one_witness:
  "hmdfs_message_verify (getxattr_resp_head 30) (Some [2, 0, 0, 0, 120, 121]) =
    Some \<lparr>v_err = 0, v_head = (getxattr_resp_head 30)\<lparr>ret_code := of_int (- EOPNOTSUPP)\<rparr>, v_sent = []\<rparr>"
  by (rule getxattr_response_size_one)
     (simp_all add: getxattr_resp_head_def statfs_head_def body_len_def)

text \<open>
  (safety) The same check reads the four bytes of the size before it looks
  at the length: a \<open>getxattr\<close> response whose body has one to three bytes
  passes the length table and is read beyond its end.
\<close>

theorem getxattr_response_overread:
  assumes "cmd_flag (operations h) = 1" and "command (operations h) = 23"
    and "length buf = body_len h" and "0 < length buf" and "length buf < 4"
  shows "hmdfs_message_verify h (Some buf) = None"
proof -
  have c: "file_cmd (command (operations h)) = Some F_GETXATTR"
    using assms(2) by (simp add: file_cmd_def file_cmds_def)
  have "len_ok C_RESPONSE F_GETXATTR (body_len h)"
    using assms(3-5) by (simp add: len_ok_def message_length_defs layout_simps max_len_def)
  moreover have "verify_getxattr_resp (body_len h) buf = None"
    using assms(5) by (simp add: verify_getxattr_resp_def layout_simps fld_def rd_le_def)
  ultimately show ?thesis using assms(1,3,4) c
    by (simp add: hmdfs_message_verify_def cmd_flag_of_def is_reserved_command_def
          hmdfs_getxattr_verify_def both_ways_def)
qed

theorem getxattr_response_overread_witness:
  "hmdfs_message_verify (getxattr_resp_head 26) (Some [1, 0]) = None"
  by (rule getxattr_response_overread)
     (simp_all add: getxattr_resp_head_def statfs_head_def body_len_def)

end
