(* ===== verification/Transport.thy ===== *)
theory Transport
  imports Handshake Message_Verify
begin

text \<open>
  The TCP transport (\<open>src/hmdfs/comm/transport.c\<close>): reading heads and bodies
  from a socket, the receive path up to the handlers of \<open>connect_recv_callback\<close>,
  sending, and the rekeying of a connection (\<open>update_tls_crypto_key\<close> of
  \<open>connection.c\<close>, \<open>set_crypto_info\<close> of \<open>crypto.c\<close>).

  A socket is the byte stream the peer has sent (in the clear: TLS is the
  kernel's) and the script of how the calls of \<open>kernel_recvmsg\<close> end; when the
  script is used up the peer has closed the connection. Encryption
  (\<open>CONFIG_HMDFS_FS_ENCRYPTION\<close>) is on.
\<close>

section \<open>Sockets\<close>

text \<open>\<open>Got k\<close>: at most \<open>k + 1\<close> bytes arrive. \<open>Fail e\<close>: the call returns \<open>- e\<close>.\<close>

datatype recv_result = Got nat | Fail nat

record socket =
  sk_stream :: "byte list"
  sk_script :: "recv_result list"

definition recv_one :: "recv_result \<Rightarrow> byte list \<Rightarrow> nat \<Rightarrow> int \<times> byte list \<times> byte list" where
  "recv_one r stream n =
     (case r of
        Fail e \<Rightarrow> (- int e, [], stream)
      | Got k \<Rightarrow> let m = min (Suc k) (min n (length stream)) in (int m, take m stream, drop m stream))"

definition recvmsg_nofs :: "socket \<Rightarrow> nat \<Rightarrow> int \<times> byte list \<times> socket" where
  "recvmsg_nofs sk n =
     (case sk_script sk of
        [] \<Rightarrow> (0, [], sk)
      | r # script \<Rightarrow> (case recv_one r (sk_stream sk) n of (rc, bs, stream) \<Rightarrow>
          (rc, bs, \<lparr>sk_stream = stream, sk_script = script\<rparr>)))"

definition retry_errors :: "int set" where
  "retry_errors = {- EAGAIN, - ETIMEDOUT, - EINTR}"

definition tcp_read_head_from_socket :: "socket \<Rightarrow> nat \<Rightarrow> int \<times> byte list \<times> socket" where
  "tcp_read_head_from_socket sk to_read =
     (case recvmsg_nofs sk to_read of (rc, buf, sk') \<Rightarrow>
        if rc \<in> retry_errors \<or> rc = - EBADMSG then (- EAGAIN, [], sk')
        else if rc \<noteq> int to_read then (- ESHUTDOWN, buf, sk')
        else (0, buf, sk'))"

abbreviation (input) MAX_RECV_RETRY_TIMES :: nat where "MAX_RECV_RETRY_TIMES \<equiv> 2"

text \<open>
  The loop reads until the buffer is full, at most two reads have failed for a
  temporary reason, or the connection is broken; \<open>- EBADMSG\<close> counts for none.
\<close>

fun read_buffer_loop :: "nat \<Rightarrow> recv_result list \<Rightarrow> byte list \<Rightarrow> nat \<Rightarrow> byte list
    \<Rightarrow> int \<times> byte list \<times> socket" where
  "read_buffer_loop to_read [] stream retry buf = (- ESHUTDOWN, buf, \<lparr>sk_stream = stream, sk_script = []\<rparr>)"
| "read_buffer_loop to_read (r # script) stream retry buf =
     (case recv_one r stream (to_read - length buf) of (rc, bs, stream') \<Rightarrow>
        if rc \<noteq> - EBADMSG \<and> rc \<notin> retry_errors \<and> rc \<le> 0
        then (- ESHUTDOWN, buf, \<lparr>sk_stream = stream', sk_script = script\<rparr>)
        else let retry' = (if rc \<in> retry_errors then retry + 1 else retry); buf' = buf @ bs in
          if length buf' < to_read \<and> retry' < MAX_RECV_RETRY_TIMES
          then read_buffer_loop to_read script stream' retry' buf'
          else (if length buf' = to_read then 0 else - ESHUTDOWN, buf', \<lparr>sk_stream = stream', sk_script = script\<rparr>))"

definition tcp_read_buffer_from_socket :: "socket \<Rightarrow> nat \<Rightarrow> int \<times> byte list \<times> socket" where
  "tcp_read_buffer_from_socket sk to_read = read_buffer_loop to_read (sk_script sk) (sk_stream sk) 0 []"

section \<open>Receiving\<close>

record tcp_handle =
  tcp_sock :: "socket option"
  connect :: conn
  stat_send_bytes :: u64
  stat_recv_bytes :: u64
  stat_send_message_count :: u32
  stat_recv_message_count :: u32
  stat_rekey_time :: u64

text \<open>What \<open>hmdfs_find_msg_head\<close> and \<open>cancel_delayed_work\<close> say of the read a page response answers.\<close>

datatype async_state = No_Work | Work_Expired | Work_No_Page | Work_Page

text \<open>The environment: allocations, the authenticated decryption, and the table of pending reads.\<close>

record tcp_env =
  te_recv_cache :: bool
  te_kmalloc :: bool
  te_decrypt :: "byte list \<Rightarrow> int \<times> byte list"
  te_async :: "hmdfs_head_cmd \<Rightarrow> async_state"

text \<open>What the receive path hands over.\<close>

datatype recv_event =
    Handshake_Msg hmdfs_head_cmd "byte list option"
  | Working_Msg hmdfs_head_cmd "byte list option"
  | No_Handler hmdfs_head_cmd
  | Page_Done hmdfs_head_cmd int "byte list option"
  | Page_Dropped hmdfs_head_cmd

definition connect_recv_callback :: "connect_stat \<Rightarrow> hmdfs_head_cmd \<Rightarrow> byte list option \<Rightarrow> recv_event" where
  "connect_recv_callback st recv data =
     (case st of
        CONNECT_STAT_WAIT_REQUEST \<Rightarrow> Handshake_Msg recv data
      | CONNECT_STAT_WAIT_RESPONSE \<Rightarrow> Handshake_Msg recv data
      | CONNECT_STAT_WORKING \<Rightarrow> Working_Msg recv data
      | CONNECT_STAT_STOP \<Rightarrow> No_Handler recv
      | CONNECT_STAT_WAIT_ACK \<Rightarrow> Handshake_Msg recv data
      | CONNECT_STAT_NEGO_FAIL \<Rightarrow> No_Handler recv)"

text \<open>The length of a body, as an unsigned 32-bit number.\<close>

definition head_body_len :: "hmdfs_head_cmd \<Rightarrow> nat" where
  "head_body_len recv = unat (data_len recv - of_nat HEAD_SIZE)"

definition hmdfs_drop_readpage_buffer :: "tcp_env \<Rightarrow> socket \<Rightarrow> hmdfs_head_cmd \<Rightarrow> int \<times> socket" where
  "hmdfs_drop_readpage_buffer env sk recv =
     (let len = head_body_len recv in
      if len > HMDFS_PAGE_SIZE \<or> len = 0 then (- EINVAL, sk)
      else if \<not> te_kmalloc env then (- ESHUTDOWN, sk)
      else case tcp_read_buffer_from_socket sk len of (err, _, sk') \<Rightarrow> (err, sk'))"

definition hmdfs_get_readpage_buffer :: "socket \<Rightarrow> hmdfs_head_cmd \<Rightarrow> int \<times> byte list option \<times> socket" where
  "hmdfs_get_readpage_buffer sk recv =
     (let out_len = head_body_len recv in
      if out_len > HMDFS_PAGE_SIZE \<or> out_len = 0 then (- EINVAL, None, sk)
      else case tcp_read_buffer_from_socket sk out_len of (err, buf, sk') \<Rightarrow>
        if err \<noteq> 0 then (err, None, sk')
        else (0, Some (buf @ replicate (HMDFS_PAGE_SIZE - out_len) 0), sk'))"

definition tcp_recvpage_tls :: "tcp_env \<Rightarrow> socket \<Rightarrow> hmdfs_head_cmd \<Rightarrow> int \<times> recv_event list \<times> socket" where
  "tcp_recvpage_tls env sk recv =
     (let rd_err = sint (ret_code recv) in
      case te_async env recv of
        Work_Page \<Rightarrow>
          if rd_err = 0
          then (case hmdfs_get_readpage_buffer sk recv of (ret, page, sk') \<Rightarrow> (ret, [Page_Done recv ret page], sk'))
          else (0, [Page_Done recv rd_err None], sk)
      | _ \<Rightarrow>
          if rd_err = 0
          then (case hmdfs_drop_readpage_buffer env sk recv of (ret, sk') \<Rightarrow> (ret, [Page_Dropped recv], sk'))
          else (0, [Page_Dropped recv], sk))"

abbreviation (input) ADAPTER_MESSAGE_LENGTH :: nat where "ADAPTER_MESSAGE_LENGTH \<equiv> 1024 * 1024 + 1024"
abbreviation (input) HMDFS_IV_SIZE :: nat where "HMDFS_IV_SIZE \<equiv> 12"
abbreviation (input) HMDFS_TAG_SIZE :: nat where "HMDFS_TAG_SIZE \<equiv> 16"

definition aeadcipher_decrypt_buffer :: "tcp_env \<Rightarrow> byte list \<Rightarrow> int \<times> byte list" where
  "aeadcipher_decrypt_buffer env src =
     (if length src \<le> HMDFS_IV_SIZE + HMDFS_TAG_SIZE then (- EINVAL, []) else te_decrypt env src)"

definition tcp_recvbuffer_cipher ::
  "tcp_env \<Rightarrow> connect_stat \<Rightarrow> socket \<Rightarrow> hmdfs_head_cmd \<Rightarrow> int \<times> recv_event list \<times> socket" where
  "tcp_recvbuffer_cipher env st sk recv =
     (let recv_len = unat (data_len recv) in
      if recv_len = HEAD_SIZE then (0, [connect_recv_callback st recv None], sk)
      else if recv_len < HEAD_SIZE \<or> recv_len > ADAPTER_MESSAGE_LENGTH then (- ENOMSG, [], sk)
      else if \<not> te_kmalloc env then (- ESHUTDOWN, [], sk)
      else case tcp_read_buffer_from_socket sk (recv_len - HEAD_SIZE + HMDFS_IV_SIZE + HMDFS_TAG_SIZE) of
        (ret, cipherbuffer, sk') \<Rightarrow>
          if ret \<noteq> 0 then (ret, [], sk')
          else case aeadcipher_decrypt_buffer env cipherbuffer of (ret, outdata) \<Rightarrow>
            if ret \<noteq> 0 then (ret, [], sk') else (0, [connect_recv_callback st recv (Some outdata)], sk'))"

definition tcp_recvbuffer_tls ::
  "tcp_env \<Rightarrow> connect_stat \<Rightarrow> socket \<Rightarrow> hmdfs_head_cmd \<Rightarrow> int \<times> nat \<times> recv_event list \<times> socket" where
  "tcp_recvbuffer_tls env st sk recv =
     (let outlen = head_body_len recv in
      if outlen = 0 then (0, 0, [connect_recv_callback st recv None], sk)
      else if \<not> te_kmalloc env then (- ESHUTDOWN, 0, [], sk)
      else case tcp_read_buffer_from_socket sk outlen of (ret, outdata, sk') \<Rightarrow>
        if ret \<noteq> 0 then (ret, 0, [], sk')
        else (0, outlen, [connect_recv_callback st recv (Some outdata)], sk'))"

text \<open>The guards of \<open>tcp_receive_from_sock\<close> that drop a message.\<close>

definition head_dropped :: "hmdfs_head_cmd \<Rightarrow> bool" where
  "head_dropped recv \<longleftrightarrow> magic recv \<noteq> HMDFS_MSG_MAGIC \<or> version recv \<noteq> HMDFS_VERSION \<or>
     unat (data_len recv) > HMDFS_MAX_MESSAGE_LEN + HEAD_SIZE \<or> unat (data_len recv) < HEAD_SIZE"

definition is_page_response :: "hmdfs_head_cmd \<Rightarrow> bool" where
  "is_page_response recv \<longleftrightarrow> file_cmd (command (operations recv)) = Some F_READPAGE \<and> cmd_flag_of (cmd_flag (operations recv)) = Some C_RESPONSE"

definition tcp_receive_body ::
  "tcp_env \<Rightarrow> tcp_handle \<Rightarrow> socket \<Rightarrow> hmdfs_head_cmd \<Rightarrow> int \<times> recv_event list \<times> tcp_handle" where
  "tcp_receive_body env tcp sk recv =
     (let st = conn_status (connect tcp) in
      if head_dropped recv then (0, [], tcp\<lparr>tcp_sock := Some sk\<rparr>)
      else if st = CONNECT_STAT_WORKING \<and> is_page_response recv
      then (case tcp_recvpage_tls env sk recv of (ret, evs, sk') \<Rightarrow> (ret, evs, tcp\<lparr>tcp_sock := Some sk'\<rparr>))
      else if st = CONNECT_STAT_WORKING
      then (case tcp_recvbuffer_tls env st sk recv of (ret, n, evs, sk') \<Rightarrow>
        (ret, evs, tcp\<lparr>tcp_sock := Some sk', stat_recv_bytes := stat_recv_bytes tcp + of_nat n\<rparr>))
      else (case tcp_recvbuffer_cipher env st sk recv of (ret, evs, sk') \<Rightarrow> (ret, evs, tcp\<lparr>tcp_sock := Some sk'\<rparr>)))"

definition tcp_receive_from_sock :: "tcp_env \<Rightarrow> tcp_handle \<Rightarrow> int \<times> recv_event list \<times> tcp_handle" where
  "tcp_receive_from_sock env tcp =
     (case tcp_sock tcp of
        None \<Rightarrow> (- ESHUTDOWN, [], tcp)
      | Some sk \<Rightarrow>
          if \<not> te_recv_cache env then (- ESHUTDOWN, [], tcp)
          else case tcp_read_head_from_socket sk HEAD_SIZE of (ret, buf, sk') \<Rightarrow>
            if ret \<noteq> 0 then (ret, [], tcp\<lparr>tcp_sock := Some sk'\<rparr>)
            else (case read_head buf of
                None \<Rightarrow> (- ESHUTDOWN, [], tcp\<lparr>tcp_sock := Some sk'\<rparr>)
              | Some recv \<Rightarrow> tcp_receive_body env
                  (tcp\<lparr>stat_recv_bytes := stat_recv_bytes tcp + of_nat HEAD_SIZE,
                       stat_recv_message_count := stat_recv_message_count tcp + 1\<rparr>) sk' recv))"

section \<open>Rekeying\<close>

text \<open>
  The environment of a connection: that of the handshake, the results of
  \<open>update_key\<close>, the transport, and what \<open>sendmsg\<close> returns for a message and for
  the rekey request that may follow it.
\<close>

record conn_env =
  ce_hs :: hs_env
  ce_update_err :: "HKDF_TYPE \<Rightarrow> int"
  ce_tcp :: tcp_env
  ce_encrypt :: "byte list \<Rightarrow> int \<times> byte list"
  ce_send_msg :: int
  ce_send_rekey :: int

datatype SET_CRYPTO_TYPE = SET_CRYPTO_SEND | SET_CRYPTO_RECV

definition set_crypto_info :: "conn_env \<Rightarrow> SET_CRYPTO_TYPE \<Rightarrow> conn \<Rightarrow> int \<times> conn" where
  "set_crypto_info env set_type c =
     (case set_type of
        SET_CRYPTO_SEND \<Rightarrow> tls_set_tx (env_hkdf (ce_hs env)) (ce_update_err env) c
      | SET_CRYPTO_RECV \<Rightarrow> tls_set_rx (env_hkdf (ce_hs env)) (ce_update_err env) c)"

section \<open>Sending\<close>

record hmdfs_send_data =
  sd_head :: "byte list"
  sd_sdesc :: "byte list"
  sd_data :: "byte list"

definition send_vec :: "hmdfs_send_data \<Rightarrow> byte list" where
  "send_vec msg = sd_head msg @ sd_sdesc msg @ sd_data msg"

text \<open>The result, the bytes that enter the stream, and the handle with its counters.\<close>

definition tcp_send_message_sock_tls :: "int \<Rightarrow> tcp_handle \<Rightarrow> hmdfs_send_data \<Rightarrow> int \<times> byte list \<times> tcp_handle" where
  "tcp_send_message_sock_tls send_len tcp msg =
     (if tcp_sock tcp = None then (- ESHUTDOWN, [], tcp)
      else if send_len = - EBADMSG then (- EBADMSG, [], tcp)
      else if send_len \<le> 0 then (- ESHUTDOWN, [], tcp)
      else if send_len \<noteq> int (length (send_vec msg))
      then (- EAGAIN, take (nat send_len) (send_vec msg), tcp\<lparr>stat_send_bytes := stat_send_bytes tcp + of_int send_len\<rparr>)
      else (0, send_vec msg, tcp\<lparr>stat_send_bytes := stat_send_bytes tcp + of_int send_len,
                                stat_send_message_count := stat_send_message_count tcp + 1\<rparr>))"

text \<open>A message without data is sent with no element of the vector (\<open>TCP_KVEC_HEAD\<close> is 0).\<close>

definition tcp_send_message_sock_cipher :: "conn_env \<Rightarrow> tcp_handle \<Rightarrow> hmdfs_send_data \<Rightarrow> int \<times> byte list" where
  "tcp_send_message_sock_cipher env tcp msg =
     (if tcp_sock tcp = None then (- ESHUTDOWN, [])
      else if sd_data msg \<noteq> [] \<and> \<not> te_kmalloc (ce_tcp env) then (- ENOMEM, [])
      else case (if sd_data msg = [] then (0, []) else ce_encrypt env (sd_data msg)) of (err, outdata) \<Rightarrow>
        if err \<noteq> 0 then (err, [])
        else let vec = (if sd_data msg = [] then [] else sd_head msg @ outdata);
                 outlen = (if sd_data msg = [] then 0 else length (sd_data msg) + HMDFS_IV_SIZE + HMDFS_TAG_SIZE);
                 send_len = ce_send_msg env
          in if send_len \<le> 0 then (- ESHUTDOWN, [])
             else (if send_len \<noteq> int (length (sd_head msg) + outlen) then - EAGAIN else 0, take (nat send_len) vec))"

definition rekey_cmd :: hmdfs_cmd where
  "rekey_cmd = \<lparr>op_reserved = 0, cmd_flag = 0, command = 17, op_reserved2 = 0\<rparr>"

definition rekey_head :: hmdfs_head_cmd where
  "rekey_head = \<lparr>magic = HMDFS_MSG_MAGIC, version = HMDFS_VERSION, reserved = 0,
     data_len = of_nat (HEAD_SIZE + sizeof connection_rekey_request), operations = rekey_cmd,
     ret_code = 0, msg_id = 0, reserved1 = 0\<rparr>"

abbreviation (input) UPDATE_NOT_REQUESTED :: nat where "UPDATE_NOT_REQUESTED \<equiv> 0"
abbreviation (input) UPDATE_REQUESTED :: nat where "UPDATE_REQUESTED \<equiv> 1"

definition rekey_msg :: hmdfs_send_data where
  "rekey_msg = \<lparr>sd_head = head_bytes rekey_head, sd_sdesc = [], sd_data = le32 (of_nat UPDATE_NOT_REQUESTED)\<rparr>"

definition tcp_send_rekey_request :: "conn_env \<Rightarrow> tcp_handle \<Rightarrow> int \<times> byte list \<times> tcp_handle" where
  "tcp_send_rekey_request env tcp =
     (if \<not> te_kmalloc (ce_tcp env) then (- ENOMEM, [], tcp)
      else tcp_send_message_sock_tls (ce_send_rekey env) tcp rekey_msg)"

abbreviation (input) REKEY_LIFETIME :: "u64 \<Rightarrow> u64" where "REKEY_LIFETIME hz \<equiv> 60 * 60 * hz"

definition rekey_switch :: "conn_env \<Rightarrow> u64 \<Rightarrow> int \<Rightarrow> tcp_handle \<Rightarrow> tcp_handle" where
  "rekey_switch env nowtime ret tcp =
     tcp\<lparr>connect := (if ret = 0 then snd (set_crypto_info env SET_CRYPTO_SEND (connect tcp)) else connect tcp),
         stat_rekey_time := nowtime\<rparr>"

text \<open>
  A sender has three parts: the message, the rekey request, each under \<open>send_mutex\<close>, and the
  switch of the key, under none. Here they run in a row, for one sender; what another sender
  does between them is the composition of the parts (\<open>rekey_race\<close> below).
\<close>

definition tcp_send_message :: "conn_env \<Rightarrow> u64 \<Rightarrow> u64 \<Rightarrow> tcp_handle option \<Rightarrow> hmdfs_send_data option
    \<Rightarrow> int \<times> byte list \<times> tcp_handle option" where
  "tcp_send_message env hz nowtime con m =
     (case con of
        None \<Rightarrow> (- ESHUTDOWN, [], None)
      | Some tcp \<Rightarrow> (case m of
          None \<Rightarrow> (- EINVAL, [], con)
        | Some msg \<Rightarrow>
          let st = conn_status (connect tcp) in
          if length (sd_data msg) > HMDFS_MAX_MESSAGE_LEN then (- EINVAL, [], con)
          else if st = CONNECT_STAT_STOP then (- EAGAIN, [], con)
          else case (if st = CONNECT_STAT_WORKING then tcp_send_message_sock_tls (ce_send_msg env) tcp msg
                     else case tcp_send_message_sock_cipher env tcp msg of (ret, bs) \<Rightarrow> (ret, bs, tcp)) of
            (ret, bs, tcp1) \<Rightarrow>
              if ret \<noteq> 0 then (ret, bs, Some tcp1)
              else if nowtime - stat_rekey_time tcp1 \<ge> REKEY_LIFETIME hz \<and> st = CONNECT_STAT_WORKING
              then (case tcp_send_rekey_request env tcp1 of (ret, rbs, tcp2) \<Rightarrow>
                (ret, bs @ rbs, Some (rekey_switch env nowtime ret tcp2)))
              else (ret, bs, Some tcp1)))"

section \<open>The handlers\<close>

datatype conn_out =
    Out_Hs hs_action
  | Out_Mesg hmdfs_head_cmd "byte list option"
  | Out_Reply hmdfs_head_cmd int
  | Out_Bytes "byte list"
  | Out_Page recv_event
  | Out_Inc_Evt_Seq
  | Out_Reget

text \<open>
  The handler of a rekey message. It reads the request out of \<open>data\<close>, which is
  NULL (\<open>None\<close>) for a message without a body.
\<close>

definition update_tls_crypto_key ::
  "conn_env \<Rightarrow> tcp_handle \<Rightarrow> hmdfs_head_cmd \<Rightarrow> byte list option \<Rightarrow> (tcp_handle \<times> conn_out list) option" where
  "update_tls_crypto_key env tcp head data = do {
     v \<leftarrow> hmdfs_message_verify head data;
     (let replies = map (\<lambda>(h, e). Out_Reply h e) (v_sent v) in
      if v_err v < 0 then Some (tcp, replies)
      else let tcp1 = tcp\<lparr>connect := snd (set_crypto_info env SET_CRYPTO_RECV (connect tcp))\<rparr> in do {
        rekey_req \<leftarrow> data;
        upd \<leftarrow> fld connection_rekey_request ''update_request'' rekey_req;
        Some (if upd = UPDATE_REQUESTED
              then case tcp_send_rekey_request env tcp1 of (ret, bs, tcp2) \<Rightarrow>
                (if ret = 0 then tcp2\<lparr>connect := snd (set_crypto_info env SET_CRYPTO_SEND (connect tcp2))\<rparr> else tcp2,
                 replies @ [Out_Bytes bs])
              else (tcp1, replies)) }) }"

definition cmd_update_tls_crypto_key :: "hmdfs_head_cmd \<Rightarrow> bool" where
  "cmd_update_tls_crypto_key head \<longleftrightarrow> file_cmd (command (operations head)) = Some F_CONNECT_REKEY"

definition connection_working_recv_handler ::
  "conn_env \<Rightarrow> tcp_handle \<Rightarrow> hmdfs_head_cmd \<Rightarrow> byte list option \<Rightarrow> (tcp_handle \<times> conn_out list) option" where
  "connection_working_recv_handler env tcp head data =
     (if cmd_update_tls_crypto_key head then update_tls_crypto_key env tcp head data
      else Some (tcp, [Out_Mesg head data]))"

text \<open>The same 24 bytes as a head of the handshake.\<close>

definition read_msg_head :: "byte list \<Rightarrow> connection_msg_head" where
  "read_msg_head m =
     \<lparr>mh_magic = m ! 0, mh_version = m ! 1, mh_operations = m ! 2, mh_flags = m ! 3,
      mh_datasize = of_nat (le_val (take 4 (drop 4 m))), mh_source = of_nat (le_val (take 8 (drop 8 m))),
      mh_msg_id = of_nat (le_val (take 2 (drop 16 m))), mh_request_id = of_nat (le_val (take 2 (drop 18 m))),
      mh_reserved1 = of_nat (le_val (take 4 (drop 20 m)))\<rparr>"

definition handle_event :: "conn_env \<Rightarrow> tcp_handle \<Rightarrow> recv_event \<Rightarrow> (tcp_handle \<times> conn_out list) option" where
  "handle_event env tcp ev =
     (case ev of
        Handshake_Msg h d \<Rightarrow>
          map_option (\<lambda>(c, acts). (tcp\<lparr>connect := c\<rparr>, map Out_Hs acts))
            (connection_handshake_recv_handler (ce_hs env) (connect tcp) (read_msg_head (head_bytes h)) d)
      | Working_Msg h d \<Rightarrow> connection_working_recv_handler env tcp h d
      | No_Handler h \<Rightarrow> Some (tcp, [])
      | Page_Done h e page \<Rightarrow> Some (tcp, [Out_Page ev])
      | Page_Dropped h \<Rightarrow> Some (tcp, [Out_Page ev]))"

text \<open>A message as the receive path hands over at most one event.\<close>

definition tcp_receive_step :: "conn_env \<Rightarrow> tcp_handle \<Rightarrow> (int \<times> tcp_handle \<times> conn_out list) option" where
  "tcp_receive_step env tcp =
     (case tcp_receive_from_sock (ce_tcp env) tcp of (ret, evs, tcp1) \<Rightarrow>
        case evs of
          [] \<Rightarrow> Some (ret, tcp1, [])
        | ev # _ \<Rightarrow> map_option (\<lambda>(tcp2, out). (ret, tcp2, out)) (handle_event env tcp1 ev))"



section \<open>Reading a buffer\<close>

lemma recv_one_cases:
  obtains (fail) e where "r = Fail e" "recv_one r stream n = (- int e, [], stream)"
  | (got) k where "r = Got k" "recv_one r stream n =
      (int (min (Suc k) (min n (length stream))), take (min (Suc k) n) stream, drop (min (Suc k) n) stream)"
proof (cases r)
  case (Got k)
  have "take (min (Suc k) (min n (length stream))) stream = take (min (Suc k) n) stream"
    "drop (min (Suc k) (min n (length stream))) stream = drop (min (Suc k) n) stream"
    by (simp_all add: min_def)
  then show ?thesis using got Got by (simp add: recv_one_def Let_def)
next
  case (Fail e)
  then show ?thesis using fail by (simp add: recv_one_def)
qed

lemma int_not_retry: "int n \<notin> retry_errors" "0 \<notin> retry_errors" "- EBADMSG \<notin> retry_errors"
  by (simp_all add: retry_errors_def)

lemma loop_got:
  assumes "m = min (Suc k) (to_read - length buf)"
  shows "read_buffer_loop to_read (Got k # script) stream retry buf =
    (if to_read \<le> length buf \<or> stream = [] then (- ESHUTDOWN, buf, \<lparr>sk_stream = stream, sk_script = script\<rparr>)
     else if length buf + length (take m stream) < to_read \<and> retry < MAX_RECV_RETRY_TIMES
     then read_buffer_loop to_read script (drop m stream) retry (buf @ take m stream)
     else (if length buf + length (take m stream) = to_read then 0 else - ESHUTDOWN, buf @ take m stream,
           \<lparr>sk_stream = drop m stream, sk_script = script\<rparr>))"
proof (cases rule: recv_one_cases [of "Got k" stream "to_read - length buf"])
  case (got j)
  let ?rc = "int (min (Suc j) (min (to_read - length buf) (length stream)))"
  have z: "?rc \<le> 0 \<longleftrightarrow> to_read \<le> length buf \<or> stream = []" by (auto simp: min_def)
  have r: "recv_one (Got k) stream (to_read - length buf) = (?rc, take m stream, drop m stream)"
    using got assms by simp
  have b: "?rc \<noteq> - EBADMSG" by simp
  have e: "to_read \<le> length buf \<Longrightarrow> drop m stream = stream" "stream = [] \<Longrightarrow> drop m stream = stream" using assms by simp_all
  show ?thesis
    unfolding read_buffer_loop.simps r prod.case Let_def
    using z b e int_not_retry(1) [of "min (Suc j) (min (to_read - length buf) (length stream))"] by (simp only: length_append if_False simp_thms) auto
qed simp

lemma loop_fail:
  "read_buffer_loop to_read (Fail e # script) stream retry buf =
    (if - int e \<noteq> - EBADMSG \<and> - int e \<notin> retry_errors then (- ESHUTDOWN, buf, \<lparr>sk_stream = stream, sk_script = script\<rparr>)
     else let retry' = (if - int e \<in> retry_errors then retry + 1 else retry) in
       if length buf < to_read \<and> retry' < MAX_RECV_RETRY_TIMES then read_buffer_loop to_read script stream retry' buf
       else (if length buf = to_read then 0 else - ESHUTDOWN, buf, \<lparr>sk_stream = stream, sk_script = script\<rparr>))"
  by (simp add: recv_one_def)

lemma read_buffer_loop_exact:
  assumes "read_buffer_loop to_read script stream retry buf = (ret, buf', sk')" and "length buf < to_read"
  shows "buf' @ sk_stream sk' = buf @ stream \<and> length buf' \<le> to_read \<and> (ret = 0 \<longleftrightarrow> length buf' = to_read)
    \<and> (ret = 0 \<or> ret = - ESHUTDOWN)"
  using assms
proof (induction script arbitrary: stream retry buf)
  case (Cons r script)
  show ?case
  proof (cases r)
    case (Fail e)
    then show ?thesis using Cons.prems Cons.IH [of stream _ buf]
      by (auto simp: loop_fail Let_def simp del: read_buffer_loop.simps split: if_splits)
  next
    case (Got k)
    obtain m where m: "m = min (Suc k) (to_read - length buf)" by simp
    have t: "length buf + length (take m stream) \<le> to_read" using Cons.prems(2) m by simp
    show ?thesis
      using Cons.prems Cons.IH [of "drop m stream" retry "buf @ take m stream"] t
      unfolding Got loop_got [OF m] by (auto split: if_splits)
  qed
qed auto

text \<open>How much of the stream the reads of a script deliver, and how often they fail for a temporary reason.\<close>

fun arrives :: "recv_result list \<Rightarrow> nat" where
  "arrives [] = 0"
| "arrives (Got k # script) = Suc k + arrives script"
| "arrives (Fail e # script) = arrives script"

definition retries :: "recv_result list \<Rightarrow> nat" where
  "retries script = length (filter (\<lambda>r. case r of Fail e \<Rightarrow> - int e \<in> retry_errors | Got _ \<Rightarrow> False) script)"

definition no_fatal :: "recv_result list \<Rightarrow> bool" where
  "no_fatal script = list_all (\<lambda>r. case r of Fail e \<Rightarrow> - int e \<in> retry_errors \<or> - int e = - EBADMSG | Got _ \<Rightarrow> True) script"


lemma read_buffer_loop_complete:
  assumes "no_fatal script" "retries script + retry < MAX_RECV_RETRY_TIMES"
    and "length buf < to_read" "to_read \<le> length buf + arrives script" "to_read \<le> length buf + length stream"
  shows "fst (read_buffer_loop to_read script stream retry buf) = 0"
  using assms
proof (induction script arbitrary: stream retry buf)
  case (Cons r script)
  show ?case
  proof (cases r)
    case (Fail e)
    then show ?thesis using Cons.prems Cons.IH [of _ buf stream] int_not_retry(3)
      by (auto simp: loop_fail no_fatal_def retries_def simp del: read_buffer_loop.simps)
  next
    case (Got k)
    obtain m where m: "m = min (Suc k) (to_read - length buf)" by simp
    then have t: "length (take m stream) = m" "stream \<noteq> []" using Cons.prems(3,5) by auto
    show ?thesis
    proof (cases "length buf + m < to_read")
      case True
      then have "fst (read_buffer_loop to_read script (drop m stream) retry (buf @ take m stream)) = 0"
        using Cons.prems m t by (intro Cons.IH) (auto simp: Got no_fatal_def retries_def)
      then show ?thesis unfolding Got loop_got [OF m] using Cons.prems(2,3) True t by simp
    next
      case False
      then show ?thesis unfolding Got loop_got [OF m] using Cons.prems(3) m t by simp
    qed
  qed
qed simp

section \<open>The receiving thread\<close>

text \<open>Reading the head uses up one element of the script, and nothing puts one back.\<close>

definition script_len :: "tcp_handle \<Rightarrow> nat" where
  "script_len tcp = (case tcp_sock tcp of None \<Rightarrow> 0 | Some sk \<Rightarrow> length (sk_script sk))"

lemma read_buffer_script:
  "read_buffer_loop to_read script stream retry buf = (ret, buf', sk') \<Longrightarrow> length (sk_script sk') \<le> length script"
proof (induction script arbitrary: stream retry buf)
  case (Cons r script)
  show ?case
  proof (cases r)
    case (Fail e)
    then show ?thesis using Cons.prems Cons.IH
      by (fastforce simp: loop_fail Let_def simp del: read_buffer_loop.simps split: if_splits intro: le_SucI)
  next
    case (Got k)
    obtain m where m: "m = min (Suc k) (to_read - length buf)" by simp
    show ?thesis using Cons.prems Cons.IH
      unfolding Got loop_got [OF m] by (fastforce split: if_splits intro: le_SucI)
  qed
qed auto

lemma recvpage_script:
  "tcp_recvpage_tls env sk recv = (ret, evs, sk') \<Longrightarrow> length (sk_script sk') \<le> length (sk_script sk)"
  by (auto simp: tcp_recvpage_tls_def hmdfs_get_readpage_buffer_def hmdfs_drop_readpage_buffer_def
      tcp_read_buffer_from_socket_def Let_def dest: read_buffer_script split: async_state.splits if_splits prod.splits)

lemma recvbuffer_tls_script:
  "tcp_recvbuffer_tls env st sk recv = (ret, n, evs, sk') \<Longrightarrow> length (sk_script sk') \<le> length (sk_script sk)"
  by (auto simp: tcp_recvbuffer_tls_def tcp_read_buffer_from_socket_def Let_def dest: read_buffer_script
      split: if_splits prod.splits)

lemma recvbuffer_cipher_script:
  "tcp_recvbuffer_cipher env st sk recv = (ret, evs, sk') \<Longrightarrow> length (sk_script sk') \<le> length (sk_script sk)"
  by (auto simp: tcp_recvbuffer_cipher_def tcp_read_buffer_from_socket_def Let_def dest: read_buffer_script
      split: if_splits prod.splits)

lemma receive_body_script:
  "tcp_receive_body env tcp sk recv = (ret, evs, tcp') \<Longrightarrow> script_len tcp' \<le> length (sk_script sk)"
  by (auto simp: tcp_receive_body_def script_len_def Let_def split: if_splits prod.splits
      dest: recvpage_script recvbuffer_tls_script recvbuffer_cipher_script)

lemma read_head_script:
  assumes "tcp_read_head_from_socket sk HEAD_SIZE = (ret, buf, sk')" and "ret \<noteq> - ESHUTDOWN"
  shows "length (sk_script sk') < length (sk_script sk)"
  using assms int_not_retry(2)
  by (auto simp: tcp_read_head_from_socket_def recvmsg_nofs_def split: list.splits prod.splits if_splits)

lemma receive_script:
  assumes "tcp_receive_from_sock env tcp = (ret, evs, tcp')" and "ret \<noteq> - ESHUTDOWN"
  shows "script_len tcp' < script_len tcp"
proof -
  obtain sk where sk: "tcp_sock tcp = Some sk" "te_recv_cache env"
    using assms by (auto simp: tcp_receive_from_sock_def split: option.splits if_splits)
  obtain r buf sk' where h: "tcp_read_head_from_socket sk HEAD_SIZE = (r, buf, sk')" by (metis prod_cases3)
  have s: "script_len tcp = length (sk_script sk)" by (simp add: script_len_def sk)
  show ?thesis
  proof (cases "r = 0")
    case True
    then have "length (sk_script sk') < length (sk_script sk)" using read_head_script [OF h] by simp
    then show ?thesis
      using assms True sk h s by (auto simp: tcp_receive_from_sock_def split: option.splits dest!: receive_body_script)
  next
    case False
    then have "ret = r" "script_len tcp' = length (sk_script sk')"
      using assms sk h by (auto simp: tcp_receive_from_sock_def script_len_def)
    then show ?thesis using read_head_script [OF h] assms(2) s by simp
  qed
qed

lemma handle_event_sock:
  "handle_event env tcp ev = Some (tcp', out) \<Longrightarrow> tcp_sock tcp' = tcp_sock tcp"
  by (auto simp: handle_event_def connection_working_recv_handler_def update_tls_crypto_key_def tcp_send_rekey_request_def
      tcp_send_message_sock_tls_def Let_def split: recv_event.splits if_splits bind_splits)

lemma receive_step_script:
  assumes "tcp_receive_step env tcp = Some (ret, tcp', out)" and "ret \<noteq> - ESHUTDOWN"
  shows "script_len tcp' < script_len tcp"
proof -
  obtain r evs tcp1 where rec: "tcp_receive_from_sock (ce_tcp env) tcp = (r, evs, tcp1)" by (metis prod_cases3)
  have "r = ret" using assms rec by (auto simp: tcp_receive_step_def split: list.splits)
  then have lt: "script_len tcp1 < script_len tcp" using receive_script [OF rec] assms by simp
  have "tcp_sock tcp' = tcp_sock tcp1"
    using assms rec by (auto simp: tcp_receive_step_def split: list.splits dest: handle_event_sock)
  then show ?thesis using lt by (simp add: script_len_def)
qed

text \<open>
  The thread receives until the connection is shut down; then it marks the
  connection as stopped and asks for a new one unless the peer is offline.
  The test of the socket's state (\<open>tcp_handle_is_available\<close>) is the parameter
  \<open>available\<close>, and being told to stop is not modelled.
\<close>

definition recv_thread_stop :: "tcp_handle \<Rightarrow> tcp_handle \<times> conn_out list" where
  "recv_thread_stop tcp =
     (tcp\<lparr>connect := (connect tcp)\<lparr>conn_status := CONNECT_STAT_STOP\<rparr>\<rparr>,
      Out_Inc_Evt_Seq # (if node_status (connect tcp) \<noteq> NODE_STAT_OFFLINE then [Out_Reget] else []))"

function tcp_recv_thread :: "conn_env \<Rightarrow> (tcp_handle \<Rightarrow> bool) \<Rightarrow> tcp_handle \<Rightarrow> (tcp_handle \<times> conn_out list) option" where
  "tcp_recv_thread env available tcp =
     (if \<not> available tcp then Some (recv_thread_stop tcp)
      else case tcp_receive_step env tcp of
        None \<Rightarrow> None
      | Some (ret, tcp1, out) \<Rightarrow>
          if ret = - ESHUTDOWN then (case recv_thread_stop tcp1 of (tcp2, out') \<Rightarrow> Some (tcp2, out @ out'))
          else map_option (\<lambda>(tcp2, out'). (tcp2, out @ out')) (tcp_recv_thread env available tcp1))"
  by pat_completeness auto
termination
  by (relation "measure (\<lambda>(env, available, tcp). script_len tcp)") (auto dest: receive_step_script)

declare tcp_recv_thread.simps [simp del]

section \<open>Frames\<close>

text \<open>How the reads of one body of \<open>n\<close> bytes may go: \<open>r\<close> of them may fail for a temporary reason.\<close>

fun paced :: "nat \<Rightarrow> nat \<Rightarrow> recv_result list \<Rightarrow> bool" where
  "paced n r [] \<longleftrightarrow> n = 0"
| "paced n r (Got k # script) \<longleftrightarrow> 0 < n \<and> paced (n - Suc k) r script"
| "paced n r (Fail e # script) \<longleftrightarrow> 0 < n \<and>
     (if - int e \<in> retry_errors then 0 < r \<and> paced n (r - 1) script else - int e = - EBADMSG \<and> paced n r script)"

lemma paced_zero: "paced 0 r script \<Longrightarrow> script = []"
  by (cases "(0 :: nat, r, script)" rule: paced.cases) auto

lemma read_paced:
  assumes "paced (to_read - length buf) (1 - retry) script" "retry < MAX_RECV_RETRY_TIMES"
    and "length buf < to_read" "to_read \<le> length buf + length stream"
  shows "read_buffer_loop to_read (script @ rest) stream retry buf =
    (0, buf @ take (to_read - length buf) stream, \<lparr>sk_stream = drop (to_read - length buf) stream, sk_script = rest\<rparr>)"
  using assms
proof (induction script arbitrary: stream retry buf)
  case (Cons r script)
  show ?case
  proof (cases r)
    case (Fail e)
    show ?thesis
    proof (cases "- int e \<in> retry_errors")
      case True
      then have "paced (to_read - length buf) (1 - (retry + 1)) script" "retry + 1 < MAX_RECV_RETRY_TIMES"
        using Cons.prems Fail by auto
      from Cons.IH [OF this Cons.prems(3,4)] show ?thesis
        using True Fail Cons.prems(3) \<open>retry + 1 < _\<close> by (simp add: loop_fail del: read_buffer_loop.simps)
    next
      case False
      then have p: "paced (to_read - length buf) (1 - retry) script" "- int e = - EBADMSG"
        using Cons.prems Fail by auto
      from Cons.IH [OF this(1) Cons.prems(2-4)] show ?thesis
        using False p Fail Cons.prems(2,3) by (simp add: loop_fail del: read_buffer_loop.simps)
    qed
  next
    case (Got k)
    obtain m where m: "m = min (Suc k) (to_read - length buf)" by simp
    then have t: "length (take m stream) = m" "stream \<noteq> []" "m \<le> to_read - length buf" using Cons.prems(3,4) by auto
    show ?thesis
    proof (cases "length buf + m < to_read")
      case True
      let ?buf = "buf @ take m stream"
      have l: "to_read - length ?buf = to_read - length buf - m" "length ?buf = length buf + m" using t by simp_all
      have "m = Suc k" using m True by (auto simp: min_def split: if_splits)
      then have "paced (to_read - length ?buf) (1 - retry) script" using Cons.prems(1) l Got by simp
      from Cons.IH [OF this Cons.prems(2), of "drop m stream"]
      have "read_buffer_loop to_read (script @ rest) (drop m stream) retry ?buf =
          (0, ?buf @ take (to_read - length buf - m) (drop m stream),
           \<lparr>sk_stream = drop (to_read - length buf - m) (drop m stream), sk_script = rest\<rparr>)"
        using True t Cons.prems(4) unfolding l by simp
      moreover have "take m stream @ take (to_read - length buf - m) (drop m stream) = take (to_read - length buf) stream"
        using t(3) by (metis le_add_diff_inverse take_add)
      moreover have "drop (to_read - length buf - m) (drop m stream) = drop (to_read - length buf) stream"
        using t(3) by (simp only: drop_drop le_add_diff_inverse2)
      ultimately show ?thesis
        unfolding Got append_Cons loop_got [OF m] using Cons.prems(2,3) True t by simp
    next
      case False
      then have e: "m = to_read - length buf" using t(3) by simp
      then have "script = []" using Cons.prems(1) m Got by (intro paced_zero [of "1 - retry"]) (auto simp: min_def split: if_splits)
      then show ?thesis unfolding Got append_Cons loop_got [OF m] using Cons.prems(3) e t by simp
    qed
  qed
qed simp

text \<open>
  A frame is a head with its body. The frames that the receiving thread keeps the boundary of: the
  length in the head is that of the body; a successful page response has a body of at most a page, one with an
  error has none; a rekey message is the one \<open>tcp_send_rekey_request\<close> sends. A head that is
  refused stands alone: its body, if it has one, is read as the next head.
\<close>

definition frame :: "hmdfs_head_cmd \<times> byte list \<Rightarrow> byte list" where
  "frame m = head_bytes (fst m) @ snd m"

definition frame_ok :: "hmdfs_head_cmd \<times> byte list \<Rightarrow> bool" where
  "frame_ok m = (case m of (h, body) \<Rightarrow>
     if head_dropped h then body = []
     else unat (data_len h) = HEAD_SIZE + length body \<and>
       (if is_page_response h then (if sint (ret_code h) = 0 then body \<noteq> [] \<and> length body \<le> HMDFS_PAGE_SIZE else body = [])
        else if cmd_update_tls_crypto_key h then h = rekey_head \<and> body = le32 0 else True))"

definition plain_msg :: "hmdfs_head_cmd \<times> byte list \<Rightarrow> bool" where
  "plain_msg m \<longleftrightarrow> \<not> head_dropped (fst m) \<and> unat (data_len (fst m)) = HEAD_SIZE + length (snd m) \<and>
     \<not> is_page_response (fst m) \<and> \<not> cmd_update_tls_crypto_key (fst m)"

text \<open>The reads that bring a frame: the read of the head may fail any number of times for a temporary reason, that of the body once.\<close>

definition temporary :: "recv_result \<Rightarrow> bool" where
  "temporary r = (case r of Fail e \<Rightarrow> - int e \<in> retry_errors \<or> - int e = - EBADMSG | Got _ \<Rightarrow> False)"

definition brings :: "hmdfs_head_cmd \<times> byte list \<Rightarrow> recv_result list \<Rightarrow> bool" where
  "brings m script = (case dropWhile temporary script of
      Got k # body \<Rightarrow> HEAD_SIZE \<le> Suc k \<and> paced (length (snd m)) 1 body
    | _ \<Rightarrow> False)"

definition body_ptr :: "byte list \<Rightarrow> byte list option" where
  "body_ptr body = (if body = [] then None else Some body)"

text \<open>What the thread does with a frame: the event it hands over.\<close>

definition page_event :: "tcp_env \<Rightarrow> hmdfs_head_cmd \<Rightarrow> byte list \<Rightarrow> recv_event" where
  "page_event env h body =
     (if te_async env h \<noteq> Work_Page then Page_Dropped h
      else if sint (ret_code h) = 0 then Page_Done h 0 (Some (body @ replicate (HMDFS_PAGE_SIZE - length body) 0))
      else Page_Done h (sint (ret_code h)) None)"

definition frame_events :: "tcp_env \<Rightarrow> hmdfs_head_cmd \<times> byte list \<Rightarrow> recv_event list" where
  "frame_events env m = (case m of (h, body) \<Rightarrow>
     if head_dropped h then [] else if is_page_response h then [page_event env h body] else [Working_Msg h (body_ptr body)])"

definition is_rekey :: "hmdfs_head_cmd \<times> byte list \<Rightarrow> bool" where
  "is_rekey m \<longleftrightarrow> \<not> head_dropped (fst m) \<and> \<not> is_page_response (fst m) \<and> cmd_update_tls_crypto_key (fst m)"

definition frame_outs :: "tcp_env \<Rightarrow> hmdfs_head_cmd \<times> byte list \<Rightarrow> conn_out list" where
  "frame_outs env m =
     (if is_rekey m then []
      else map (\<lambda>ev. case ev of Working_Msg h d \<Rightarrow> Out_Mesg h d | _ \<Rightarrow> Out_Page ev) (frame_events env m))"

lemma body_len_of: "unat (data_len h) = HEAD_SIZE + n \<Longrightarrow> head_body_len h = n"
  by (simp add: head_body_len_def unat_sub_if_size word_size word_le_nat_alt)

lemma receive_head:
  assumes "tcp_sock tcp = Some \<lparr>sk_stream = head_bytes h @ later, sk_script = Got k # rest\<rparr>" "HEAD_SIZE \<le> Suc k" "te_recv_cache env"
  shows "tcp_receive_from_sock env tcp = tcp_receive_body env
    (tcp\<lparr>stat_recv_bytes := stat_recv_bytes tcp + of_nat HEAD_SIZE, stat_recv_message_count := stat_recv_message_count tcp + 1\<rparr>)
    \<lparr>sk_stream = later, sk_script = rest\<rparr> h"
proof -
  have "tcp_read_head_from_socket \<lparr>sk_stream = head_bytes h @ later, sk_script = Got k # rest\<rparr> HEAD_SIZE
      = (0, head_bytes h, \<lparr>sk_stream = later, sk_script = rest\<rparr>)"
    using assms(2) by (simp add: tcp_read_head_from_socket_def recvmsg_nofs_def recv_one_def length_head_bytes min_def
        retry_errors_def Let_def)
  then show ?thesis
    using assms(1,3) read_head_bytes [of h "[]"] by (simp add: tcp_receive_from_sock_def)
qed

lemma rekey_verified: "hmdfs_message_verify rekey_head (Some (le32 0)) = Some \<lparr>v_err = 0, v_head = rekey_head, v_sent = []\<rparr>"
  by (simp add: hmdfs_message_verify_def rekey_head_def rekey_cmd_def file_cmd_def file_cmds_def cmd_flag_of_def
      is_reserved_command_def len_ok_def message_length_def message_length_file_def message_length_dir_def
      message_length_attr_def body_len_def layout_simps)

lemma recv_rekey:
  "connection_working_recv_handler env b rekey_head (Some (le32 0)) =
    Some (b\<lparr>connect := snd (set_crypto_info env SET_CRYPTO_RECV (connect b))\<rparr>, [])"
proof -
  have "cmd_update_tls_crypto_key rekey_head"
    by (simp add: cmd_update_tls_crypto_key_def rekey_head_def rekey_cmd_def file_cmd_def file_cmds_def)
  moreover have "fld connection_rekey_request ''update_request'' (le32 0) = Some 0"
    by (simp add: fld_def layout_simps rd_le_def)
  ultimately show ?thesis
    by (simp add: connection_working_recv_handler_def update_tls_crypto_key_def rekey_verified Let_def)
qed

lemma receive_frame:
  assumes st: "conn_status (connect tcp) = CONNECT_STAT_WORKING"
    and env: "te_recv_cache env" "te_kmalloc env"
    and m: "frame_ok (h, body)" and k: "HEAD_SIZE \<le> Suc k" and p: "paced (length body) 1 bs"
    and sk: "tcp_sock tcp = Some \<lparr>sk_stream = frame (h, body) @ later, sk_script = (Got k # bs) @ rest\<rparr>"
  shows "\<exists>tcp'. tcp_receive_from_sock env tcp = (0, frame_events env (h, body), tcp') \<and>
    tcp_sock tcp' = Some \<lparr>sk_stream = later, sk_script = rest\<rparr> \<and> connect tcp' = connect tcp"
proof -
  have read: "body \<noteq> [] \<Longrightarrow> tcp_read_buffer_from_socket \<lparr>sk_stream = body @ later, sk_script = bs @ rest\<rparr> (length body)
      = (0, body, \<lparr>sk_stream = later, sk_script = rest\<rparr>)"
    using read_paced [of "length body" "[]" 0 bs "body @ later" rest] p by (simp add: tcp_read_buffer_from_socket_def)
  have empty: "body = [] \<Longrightarrow> bs = []" using p by (auto intro: paced_zero)
  have head: "tcp_sock tcp = Some \<lparr>sk_stream = head_bytes h @ (body @ later), sk_script = Got k # (bs @ rest)\<rparr>"
    using sk by (simp add: frame_def)
  note rcv = receive_head [OF head k env(1)]
  consider (dropped) "head_dropped h" "body = []" | (page) "\<not> head_dropped h" "is_page_response h" | (msg) "\<not> head_dropped h" "\<not> is_page_response h"
    using m by (auto simp: frame_ok_def split: if_splits)
  then show ?thesis
  proof cases
    case dropped
    then show ?thesis unfolding rcv using empty by (simp add: tcp_receive_body_def frame_events_def)
  next
    case page
    with m have len: "head_body_len h = length body" by (intro body_len_of) (simp add: frame_ok_def)
    have b: "if sint (ret_code h) = 0 then body \<noteq> [] \<and> length body \<le> HMDFS_PAGE_SIZE else body = []"
      using m page by (simp add: frame_ok_def)
    show ?thesis
    proof (cases "sint (ret_code h) = 0")
      case True
      then show ?thesis unfolding rcv using page st env(2) len b read
        by (cases "te_async env h") (simp_all add: tcp_receive_body_def tcp_recvpage_tls_def hmdfs_get_readpage_buffer_def
            hmdfs_drop_readpage_buffer_def frame_events_def page_event_def Let_def)
    next
      case False
      then show ?thesis unfolding rcv using page st b empty
        by (cases "te_async env h") (simp_all add: tcp_receive_body_def tcp_recvpage_tls_def frame_events_def page_event_def Let_def)
    qed
  next
    case msg
    with m have len: "head_body_len h = length body" by (intro body_len_of) (simp add: frame_ok_def)
    show ?thesis unfolding rcv using msg st len read empty env(2)
      by (cases "body = []") (simp_all add: tcp_receive_body_def tcp_recvbuffer_tls_def connect_recv_callback_def body_ptr_def
          frame_events_def Let_def)
  qed
qed

text \<open>A rekey message changes the key the connection receives with, and nothing else.\<close>

definition new_recv_key :: "conn_env \<Rightarrow> conn \<Rightarrow> conn" where
  "new_recv_key env c = snd (set_crypto_info env SET_CRYPTO_RECV c)"

lemma new_recv_key_status [simp]:
  "conn_status (new_recv_key env c) = conn_status c" "node_status (new_recv_key env c) = node_status c"
  by (simp_all add: new_recv_key_def set_crypto_info_def tls_set_rx_def Let_def)

lemma receive_step_frame:
  assumes "conn_status (connect tcp) = CONNECT_STAT_WORKING" "te_recv_cache (ce_tcp env)" "te_kmalloc (ce_tcp env)"
    and m: "frame_ok (h, body)" and "HEAD_SIZE \<le> Suc k" "paced (length body) 1 bs"
    and "tcp_sock tcp = Some \<lparr>sk_stream = frame (h, body) @ later, sk_script = (Got k # bs) @ rest\<rparr>"
  shows "\<exists>tcp'. tcp_receive_step env tcp = Some (0, tcp', frame_outs (ce_tcp env) (h, body)) \<and>
    tcp_sock tcp' = Some \<lparr>sk_stream = later, sk_script = rest\<rparr> \<and>
    connect tcp' = (if is_rekey (h, body) then new_recv_key env (connect tcp) else connect tcp)"
proof -
  obtain tcp1 where n: "tcp_receive_from_sock (ce_tcp env) tcp = (0, frame_events (ce_tcp env) (h, body), tcp1)"
      "tcp_sock tcp1 = Some \<lparr>sk_stream = later, sk_script = rest\<rparr>" "connect tcp1 = connect tcp"
    using receive_frame [OF assms] by blast
  show ?thesis
  proof (cases "is_rekey (h, body)")
    case True
    then have r: "h = rekey_head" "body = le32 0" "frame_events (ce_tcp env) (h, body) = [Working_Msg h (body_ptr body)]"
      using m by (auto simp: is_rekey_def frame_ok_def frame_events_def)
    then have "body_ptr body = Some (le32 0)" using length_le_bytes [of 4 0] by (auto simp: body_ptr_def le32_def simp del: length_le_bytes)
    then show ?thesis using True n r recv_rekey
      by (simp add: tcp_receive_step_def handle_event_def frame_outs_def new_recv_key_def)
  next
    case False
    then show ?thesis using n
      by (auto simp: tcp_receive_step_def handle_event_def connection_working_recv_handler_def
          frame_outs_def frame_events_def is_rekey_def page_event_def)
  qed
qed

lemma receive_step_retry:
  assumes "tcp_sock tcp = Some \<lparr>sk_stream = stream, sk_script = r # rest\<rparr>" "temporary r" "te_recv_cache (ce_tcp env)"
  shows "tcp_receive_step env tcp = Some (- EAGAIN, tcp\<lparr>tcp_sock := Some \<lparr>sk_stream = stream, sk_script = rest\<rparr>\<rparr>, [])"
  using assms by (cases r) (auto simp: temporary_def tcp_receive_step_def tcp_receive_from_sock_def tcp_read_head_from_socket_def
      recvmsg_nofs_def recv_one_def)

lemma thread_retries:
  assumes "\<forall>r \<in> set fails. temporary r" "te_recv_cache (ce_tcp env)"
    and "tcp_sock tcp = Some \<lparr>sk_stream = stream, sk_script = fails @ rest\<rparr>"
  shows "tcp_recv_thread env (\<lambda>_. True) tcp = tcp_recv_thread env (\<lambda>_. True) (tcp\<lparr>tcp_sock := Some \<lparr>sk_stream = stream, sk_script = rest\<rparr>\<rparr>)"
  using assms
proof (induction fails arbitrary: tcp)
  case (Cons r fails)
  let ?tcp = "tcp\<lparr>tcp_sock := Some \<lparr>sk_stream = stream, sk_script = fails @ rest\<rparr>\<rparr>"
  have "tcp_receive_step env tcp = Some (- EAGAIN, ?tcp, [])" using Cons.prems by (intro receive_step_retry) auto
  then have "tcp_recv_thread env (\<lambda>_. True) tcp = tcp_recv_thread env (\<lambda>_. True) ?tcp"
    by (subst tcp_recv_thread.simps) (simp add: option.map_ident case_prod_beta')
  also have "\<dots> = tcp_recv_thread env (\<lambda>_. True) (?tcp\<lparr>tcp_sock := Some \<lparr>sk_stream = stream, sk_script = rest\<rparr>\<rparr>)"
    using Cons.prems by (intro Cons.IH) simp_all
  finally show ?case by simp
next
  case Nil
  then have "tcp\<lparr>tcp_sock := Some \<lparr>sk_stream = stream, sk_script = rest\<rparr>\<rparr> = tcp" by simp
  then show ?case by simp
qed

text \<open>
  How the stream ends: the peer has closed it, or the body of a message cannot be read, be it for a
  second temporary failure, a fatal one or the end of the stream.
\<close>

definition ends :: "socket \<Rightarrow> bool" where
  "ends sk \<longleftrightarrow> sk_script sk = [] \<or>
     (\<exists>h later k bs. sk = \<lparr>sk_stream = head_bytes h @ later, sk_script = Got k # bs\<rparr> \<and> HEAD_SIZE \<le> Suc k \<and>
        \<not> head_dropped h \<and> \<not> is_page_response h \<and> 0 < head_body_len h \<and>
        fst (tcp_read_buffer_from_socket \<lparr>sk_stream = later, sk_script = bs\<rparr> (head_body_len h)) \<noteq> 0)"

lemma receive_step_ends:
  assumes "tcp_sock tcp = Some sk" "ends sk" "te_recv_cache (ce_tcp env)" "te_kmalloc (ce_tcp env)" "conn_status (connect tcp) = CONNECT_STAT_WORKING"
  shows "\<exists>tcp'. tcp_receive_step env tcp = Some (- ESHUTDOWN, tcp', []) \<and> connect tcp' = connect tcp"
proof (cases "sk_script sk = []")
  case True
  then show ?thesis using assms(1) int_not_retry(2)
    by (cases sk) (auto simp: tcp_receive_step_def tcp_receive_from_sock_def tcp_read_head_from_socket_def recvmsg_nofs_def)
next
  case False
  with assms(2) obtain h later k bs where sk: "sk = \<lparr>sk_stream = head_bytes h @ later, sk_script = Got k # bs\<rparr>" "HEAD_SIZE \<le> Suc k"
      "\<not> head_dropped h" "\<not> is_page_response h" "0 < head_body_len h"
      "fst (tcp_read_buffer_from_socket \<lparr>sk_stream = later, sk_script = bs\<rparr> (head_body_len h)) \<noteq> 0"
    unfolding ends_def by blast
  obtain ret buf sk' where r: "tcp_read_buffer_from_socket \<lparr>sk_stream = later, sk_script = bs\<rparr> (head_body_len h) = (ret, buf, sk')"
    by (metis prod_cases3)
  have "ret = 0 \<or> ret = - ESHUTDOWN"
    using read_buffer_loop_exact [of "head_body_len h" bs later 0 "[]"] r sk(5) by (auto simp: tcp_read_buffer_from_socket_def)
  then have "ret = - ESHUTDOWN" using sk(6) r by simp
  then show ?thesis using receive_head [OF assms(1) [unfolded sk(1)] sk(2) assms(3)] sk(3-5) r assms(4,5)
    by (simp add: tcp_receive_step_def tcp_receive_body_def tcp_recvbuffer_tls_def Let_def)
qed

lemma brings_cases:
  assumes "brings m script"
  obtains fails k bs where "script = fails @ Got k # bs" "\<forall>r \<in> set fails. temporary r" "HEAD_SIZE \<le> Suc k" "paced (length (snd m)) 1 bs"
proof -
  obtain k bs where "dropWhile temporary script = Got k # bs" "HEAD_SIZE \<le> Suc k" "paced (length (snd m)) 1 bs"
    using assms by (auto simp: brings_def split: list.splits recv_result.splits)
  then show thesis using that [of "takeWhile temporary script" k bs] takeWhile_dropWhile_id [of temporary script]
    by (auto dest: set_takeWhileD)
qed

text \<open>The keys after the rekey messages among the frames.\<close>

fun rekeyed :: "conn_env \<Rightarrow> (hmdfs_head_cmd \<times> byte list) list \<Rightarrow> conn \<Rightarrow> conn" where
  "rekeyed env [] c = c"
| "rekeyed env (m # ms) c = rekeyed env ms (if is_rekey m then new_recv_key env c else c)"

lemma recv_thread_frames:
  assumes env: "te_recv_cache (ce_tcp env)" "te_kmalloc (ce_tcp env)" and "ends sk"
    and "list_all2 (\<lambda>m s. frame_ok m \<and> brings m s) ms scripts"
    and "conn_status (connect tcp) = CONNECT_STAT_WORKING"
    and "tcp_sock tcp = Some \<lparr>sk_stream = concat (map frame ms) @ sk_stream sk, sk_script = concat scripts @ sk_script sk\<rparr>"
  shows "\<exists>tcp'. tcp_recv_thread env (\<lambda>_. True) tcp =
      Some (tcp', concat (map (frame_outs (ce_tcp env)) ms) @ snd (recv_thread_stop tcp)) \<and>
    connect tcp' = (rekeyed env ms (connect tcp))\<lparr>conn_status := CONNECT_STAT_STOP\<rparr>"
  using assms(4-6)
proof (induction ms scripts arbitrary: tcp rule: list_all2_induct)
  case Nil
  then obtain tcp' where "tcp_receive_step env tcp = Some (- ESHUTDOWN, tcp', [])" "connect tcp' = connect tcp"
    using receive_step_ends [of tcp sk env] assms(3) env by auto
  then show ?case by (simp add: tcp_recv_thread.simps recv_thread_stop_def)
next
  case (Cons m ms s scripts)
  obtain h body where m: "m = (h, body)" by (cases m)
  from Cons.hyps(1) obtain fails k bs where s: "s = fails @ Got k # bs" "\<forall>r \<in> set fails. temporary r" "HEAD_SIZE \<le> Suc k" "paced (length body) 1 bs"
    using brings_cases [of m s] m by auto
  let ?rest = "\<lparr>sk_stream = concat (map frame ms) @ sk_stream sk, sk_script = concat scripts @ sk_script sk\<rparr>"
  let ?tcp0 = "tcp\<lparr>tcp_sock := Some \<lparr>sk_stream = frame (h, body) @ sk_stream ?rest, sk_script = (Got k # bs) @ sk_script ?rest\<rparr>\<rparr>"
  have 0: "tcp_recv_thread env (\<lambda>_. True) tcp = tcp_recv_thread env (\<lambda>_. True) ?tcp0"
    using Cons.prems s m by (intro thread_retries [OF s(2) env(1)]) simp
  obtain tcp1 where step: "tcp_receive_step env ?tcp0 = Some (0, tcp1, frame_outs (ce_tcp env) (h, body))"
      and tcp1: "tcp_sock tcp1 = Some ?rest" "connect tcp1 = (if is_rekey (h, body) then new_recv_key env (connect tcp) else connect tcp)"
    using receive_step_frame [of ?tcp0 env h body k bs "sk_stream ?rest" "sk_script ?rest"] Cons.hyps(1) Cons.prems(1) m s env by auto
  have stop: "snd (recv_thread_stop tcp1) = snd (recv_thread_stop tcp)" by (simp add: tcp1 recv_thread_stop_def)
  have "conn_status (connect tcp1) = CONNECT_STAT_WORKING" using tcp1(2) Cons.prems(1) by simp
  from Cons.IH [OF this tcp1(1)] obtain tcp' where
    "tcp_recv_thread env (\<lambda>_. True) tcp1 = Some (tcp', concat (map (frame_outs (ce_tcp env)) ms) @ snd (recv_thread_stop tcp1))"
    "connect tcp' = (rekeyed env ms (connect tcp1))\<lparr>conn_status := CONNECT_STAT_STOP\<rparr>"
    by blast
  then show ?case unfolding 0
    using step m stop by (intro exI [of _ tcp']) (subst tcp_recv_thread.simps, simp add: tcp1)
qed

section \<open>Properties of the receive path\<close>

definition sample_tcp_env :: tcp_env where
  "sample_tcp_env = \<lparr>te_recv_cache = True, te_kmalloc = True, te_decrypt = (\<lambda>m. (0, drop 28 m)), te_async = (\<lambda>_. No_Work)\<rparr>"

definition sample_conn_env :: conn_env where
  "sample_conn_env = \<lparr>ce_hs = sample_env, ce_update_err = (\<lambda>_. 0), ce_tcp = sample_tcp_env,
     ce_encrypt = (\<lambda>d. (0, replicate 28 0 @ d)), ce_send_msg = 28, ce_send_rekey = 28\<rparr>"

definition sample_tcp :: "socket \<Rightarrow> tcp_handle" where
  "sample_tcp sk = \<lparr>tcp_sock = Some sk, connect = (sample_conn 0)\<lparr>conn_status := CONNECT_STAT_WORKING\<rparr>,
     stat_send_bytes = 0, stat_recv_bytes = 0, stat_send_message_count = 0, stat_recv_message_count = 0, stat_rekey_time = 0\<rparr>"

definition sample_head :: "byte \<Rightarrow> byte \<Rightarrow> nat \<Rightarrow> hmdfs_head_cmd" where
  "sample_head ver cmd n = \<lparr>magic = HMDFS_MSG_MAGIC, version = ver, reserved = 0, data_len = of_nat (HEAD_SIZE + n),
     operations = \<lparr>op_reserved = 0, cmd_flag = 0, command = cmd, op_reserved2 = 0\<rparr>, ret_code = 0, msg_id = 7, reserved1 = 0\<rparr>"

text \<open>
  \<open>tcp_read_buffer_from_socket\<close> is independent of how the body
  is cut into segments: whatever the reads deliver, the buffer is a prefix of
  the stream and the rest stays in the socket; the result is 0 exactly when the
  whole body was read, and \<open>- ESHUTDOWN\<close> otherwise.
\<close>

theorem read_buffer_exact:
  assumes "tcp_read_buffer_from_socket sk to_read = (ret, buf, sk')" and "0 < to_read"
  shows "buf @ sk_stream sk' = sk_stream sk \<and> length buf \<le> to_read \<and>
    (ret = 0 \<longleftrightarrow> length buf = to_read) \<and> (ret = 0 \<or> ret = - ESHUTDOWN)"
  using read_buffer_loop_exact [of to_read "sk_script sk" "sk_stream sk" 0 "[]"] assms
  by (auto simp: tcp_read_buffer_from_socket_def)

definition sample_sock :: socket where
  "sample_sock = \<lparr>sk_stream = [1, 2, 3, 4, 5], sk_script = [Got 0, Fail 74, Fail 11, Got 0, Got 5]\<rparr>"

lemma sample_read: "tcp_read_buffer_from_socket sample_sock 4 = (0, [1, 2, 3, 4], \<lparr>sk_stream = [5], sk_script = []\<rparr>)"
  by (simp add: tcp_read_buffer_from_socket_def sample_sock_def recv_one_def retry_errors_def)

theorem read_buffer_exact_witness: "[1, 2, 3, 4] @ [5] = sk_stream sample_sock"
  using read_buffer_exact [OF sample_read] by simp

text \<open>
  The body is read when it arrives: if no read fails fatally, at
  most one fails for a temporary reason, and the reads and the stream hold
  enough bytes, then \<open>tcp_read_buffer_from_socket\<close> returns 0.
\<close>

theorem read_buffer_complete:
  assumes "no_fatal (sk_script sk)" and "retries (sk_script sk) < MAX_RECV_RETRY_TIMES"
    and "0 < to_read" and "to_read \<le> arrives (sk_script sk)" and "to_read \<le> length (sk_stream sk)"
  shows "fst (tcp_read_buffer_from_socket sk to_read) = 0"
  using read_buffer_loop_complete [of "sk_script sk" 0 "[]" to_read "sk_stream sk"] assms
  by (simp add: tcp_read_buffer_from_socket_def)

theorem read_buffer_complete_witness: "fst (tcp_read_buffer_from_socket sample_sock 5) = 0"
  by (rule read_buffer_complete)
    (simp_all add: sample_sock_def no_fatal_def retries_def retry_errors_def)

text \<open>
  C10 (functional). The receiving thread on an established connection that has memory for its buffers:
  of the frames in the stream (messages, page responses, rekey requests, heads that are refused) it hands
  over every message with its own head and body, and every page response with its page, or with its error,
  or as dropped when nobody waits for it any more, in the order of the stream and nothing else; each rekey request
  derives the key of the receiving direction once. Reads of heads may fail for a
  temporary reason, those of each body once, and bodies may come in any segments. When the
  peer closes the stream or a body cannot be read, the thread returns, hands over nothing of that
  message, and leaves the connection stopped and a new one asked for unless the peer is offline.
\<close>

theorem recv_thread_delivers:
  assumes "te_recv_cache (ce_tcp env)" and "te_kmalloc (ce_tcp env)" and "ends sk"
    and "list_all2 (\<lambda>m s. frame_ok m \<and> brings m s) ms scripts"
    and "conn_status (connect tcp) = CONNECT_STAT_WORKING"
    and "tcp_sock tcp = Some \<lparr>sk_stream = concat (map frame ms) @ sk_stream sk, sk_script = concat scripts @ sk_script sk\<rparr>"
  shows "\<exists>tcp'. tcp_recv_thread env (\<lambda>_. True) tcp =
      Some (tcp', concat (map (frame_outs (ce_tcp env)) ms) @
                  Out_Inc_Evt_Seq # (if node_status (connect tcp) \<noteq> NODE_STAT_OFFLINE then [Out_Reget] else [])) \<and>
    connect tcp' = (rekeyed env ms (connect tcp))\<lparr>conn_status := CONNECT_STAT_STOP\<rparr>"
  using recv_thread_frames [OF assms] by (simp add: recv_thread_stop_def)

lemma sample_plain: "plain_msg (sample_head HMDFS_VERSION 20 3, [1, 2, 3])" "plain_msg (sample_head HMDFS_VERSION 22 0, [])"
  by (simp_all add: plain_msg_def head_dropped_def sample_head_def is_page_response_def cmd_update_tls_crypto_key_def
      file_cmd_def file_cmds_def)

text \<open>
  A message in three segments with a temporary failure, a late page response, a rekey request, a head of
  another version, and a message that breaks off.
\<close>

definition sample_page :: hmdfs_head_cmd where
  "sample_page = (sample_head HMDFS_VERSION 2 2)\<lparr>operations := \<lparr>op_reserved = 0, cmd_flag = 1, command = 2, op_reserved2 = 0\<rparr>\<rparr>"

definition sample_frames :: "(hmdfs_head_cmd \<times> byte list) list" where
  "sample_frames = [(sample_head HMDFS_VERSION 20 3, [1, 2, 3]), (sample_page, [7, 8]), (rekey_head, le32 0), (sample_head 0x30 20 27, [])]"

definition sample_scripts :: "recv_result list list" where
  "sample_scripts = [[Fail 11, Got 23, Got 0, Fail 11, Got 9], [Got 23, Got 9], [Got 23, Got 3], [Fail 74, Got 99]]"

definition sample_end :: socket where
  "sample_end = \<lparr>sk_stream = head_bytes (sample_head HMDFS_VERSION 20 3) @ [1, 2], sk_script = [Got 23, Got 1, Fail 11, Fail 11]\<rparr>"

lemma sample_ends: "ends sample_end"
proof -
  have "\<not> head_dropped (sample_head HMDFS_VERSION 20 3)" "\<not> is_page_response (sample_head HMDFS_VERSION 20 3)"
    using sample_plain(1) by (simp_all add: plain_msg_def)
  moreover have "head_body_len (sample_head HMDFS_VERSION 20 3) = 3" by (rule body_len_of) (simp add: sample_head_def)
  moreover have "fst (tcp_read_buffer_from_socket \<lparr>sk_stream = [1, 2], sk_script = [Got 1, Fail 11, Fail 11]\<rparr> 3) \<noteq> 0"
    by (simp add: tcp_read_buffer_from_socket_def recv_one_def retry_errors_def)
  ultimately show ?thesis unfolding ends_def sample_end_def
    by (intro disjI2 exI [of _ "sample_head HMDFS_VERSION 20 3"] exI [of _ "[1, 2]"] exI [of _ 23] exI [of _ "[Got 1, Fail 11, Fail 11]"]) simp
qed

lemma sample_frames_ok: "list_all2 (\<lambda>m s. frame_ok m \<and> brings m s) sample_frames sample_scripts"
proof -
  have "frame_ok (sample_head HMDFS_VERSION 20 3, [1, 2, 3])" using sample_plain(1) by (simp add: plain_msg_def frame_ok_def)
  moreover have "frame_ok (sample_page, [7, 8])"
    by (simp add: frame_ok_def sample_page_def sample_head_def head_dropped_def is_page_response_def file_cmd_def file_cmds_def cmd_flag_of_def)
  moreover have "frame_ok (rekey_head, le32 0)"
    by (simp add: frame_ok_def rekey_head_def rekey_cmd_def head_dropped_def is_page_response_def file_cmd_def file_cmds_def
        cmd_update_tls_crypto_key_def layout_simps)
  moreover have "frame_ok (sample_head 0x30 20 27, [])" by (simp add: frame_ok_def head_dropped_def sample_head_def)
  ultimately show ?thesis
    by (simp add: sample_frames_def sample_scripts_def brings_def temporary_def retry_errors_def)
qed

theorem recv_thread_delivers_witness:
  "\<exists>tcp'. tcp_recv_thread sample_conn_env (\<lambda>_. True) (sample_tcp \<lparr>sk_stream = concat (map frame sample_frames) @ sk_stream sample_end,
      sk_script = concat sample_scripts @ sk_script sample_end\<rparr>) =
    Some (tcp', [Out_Mesg (sample_head HMDFS_VERSION 20 3) (Some [1, 2, 3]), Out_Page (Page_Dropped sample_page), Out_Inc_Evt_Seq])"
proof -
  have "concat (map (frame_outs (ce_tcp sample_conn_env)) sample_frames) =
      [Out_Mesg (sample_head HMDFS_VERSION 20 3) (Some [1, 2, 3]), Out_Page (Page_Dropped sample_page)]"
    using sample_plain(1)
    by (simp add: sample_frames_def frame_outs_def is_rekey_def frame_events_def page_event_def body_ptr_def plain_msg_def)
       (simp add: sample_page_def sample_head_def rekey_head_def rekey_cmd_def head_dropped_def is_page_response_def file_cmd_def file_cmds_def
        cmd_flag_of_def cmd_update_tls_crypto_key_def layout_simps sample_conn_env_def sample_tcp_env_def)
  with recv_thread_delivers [OF _ _ sample_ends sample_frames_ok, of sample_conn_env "sample_tcp \<lparr>sk_stream = concat (map frame sample_frames) @ sk_stream sample_end,
      sk_script = concat sample_scripts @ sk_script sample_end\<rparr>"]
  show ?thesis by (auto simp: sample_conn_env_def sample_tcp_env_def sample_tcp_def sample_conn_def)
qed

text \<open>
  A message that \<open>tcp_receive_from_sock\<close> drops for its magic, version
  or length loses its head only: the body stays in the stream, and what the
  body looks like is received next. Here the body of a message of another
  version is itself a frame, and is handed over as a message the peer never sent.
\<close>

theorem dropped_body_is_received:
  assumes "te_recv_cache (ce_tcp env)" and "te_kmalloc (ce_tcp env)" and "conn_status (connect tcp) = CONNECT_STAT_WORKING"
    and drop: "head_dropped h0" and k: "HEAD_SIZE \<le> Suc k" and m: "plain_msg (h, body)" "HEAD_SIZE \<le> Suc j" "paced (length body) 1 bs"
    and sk: "tcp_sock tcp = Some \<lparr>sk_stream = frame (h0, frame (h, body)) @ later, sk_script = Got k # (Got j # bs) @ rest\<rparr>"
  shows "\<exists>tcp1 tcp2. tcp_receive_step env tcp = Some (0, tcp1, []) \<and>
    tcp_receive_step env tcp1 = Some (0, tcp2, [Out_Mesg h (body_ptr body)]) \<and>
    tcp_sock tcp2 = Some \<lparr>sk_stream = later, sk_script = rest\<rparr>"
proof -
  let ?tcp1 = "tcp\<lparr>stat_recv_bytes := stat_recv_bytes tcp + of_nat HEAD_SIZE, stat_recv_message_count := stat_recv_message_count tcp + 1,
      tcp_sock := Some \<lparr>sk_stream = frame (h, body) @ later, sk_script = (Got j # bs) @ rest\<rparr>\<rparr>"
  have "tcp_sock tcp = Some \<lparr>sk_stream = head_bytes h0 @ (frame (h, body) @ later), sk_script = Got k # ((Got j # bs) @ rest)\<rparr>"
    using sk by (simp add: frame_def)
  from receive_head [OF this k assms(1)] have "tcp_receive_step env tcp = Some (0, ?tcp1, [])"
    using drop by (simp add: tcp_receive_step_def tcp_receive_body_def)
  moreover have "frame_ok (h, body)" "frame_outs (ce_tcp env) (h, body) = [Out_Mesg h (body_ptr body)]"
    using m(1) by (simp_all add: frame_ok_def plain_msg_def frame_outs_def frame_events_def is_rekey_def)
  moreover from this have "\<exists>tcp2. tcp_receive_step env ?tcp1 = Some (0, tcp2, [Out_Mesg h (body_ptr body)]) \<and>
      tcp_sock tcp2 = Some \<lparr>sk_stream = later, sk_script = rest\<rparr>"
    using receive_step_frame [of ?tcp1 env h body j bs later rest] assms(1-3) m(2,3) by auto
  ultimately show ?thesis by blast
qed

definition sample_desync :: socket where
  "sample_desync = \<lparr>sk_stream = frame (sample_head 0x30 20 27, frame (sample_head HMDFS_VERSION 20 3, [1, 2, 3])) @ [],
     sk_script = Got 23 # [Got 23, Got 2] @ []\<rparr>"

theorem dropped_body_is_received_witness:
  "\<exists>tcp1 tcp2. tcp_receive_step sample_conn_env (sample_tcp sample_desync) = Some (0, tcp1, []) \<and>
    tcp_receive_step sample_conn_env tcp1 = Some (0, tcp2, [Out_Mesg (sample_head HMDFS_VERSION 20 3) (Some [1, 2, 3])])"
proof -
  have "head_dropped (sample_head 0x30 20 27)" by (simp add: head_dropped_def sample_head_def)
  from dropped_body_is_received [OF _ _ _ this, of sample_conn_env "sample_tcp sample_desync" 23
      "sample_head HMDFS_VERSION 20 3" "[1, 2, 3]" 23 "[Got 2]" "[]" "[]"] sample_plain
  show ?thesis
    by (auto simp: sample_conn_env_def sample_tcp_env_def sample_tcp_def sample_desync_def sample_conn_def body_ptr_def)
qed

section \<open>Rekeying in step\<close>

lemma rekey_pair:
  assumes "keys_paired a b" and "err1 HKDF_TYPE_REKEY \<ge> 0" "err1 HKDF_TYPE_IV \<ge> 0" "err2 HKDF_TYPE_REKEY \<ge> 0" "err2 HKDF_TYPE_IV \<ge> 0"
  shows "keys_paired (snd (tls_set_tx hkdf err1 a)) (snd (tls_set_rx hkdf err2 b))"
  using assms by (simp add: keys_paired_def tls_set_tx_def tls_set_rx_def Let_def)

lemma send_tls_ok:
  assumes "tcp_send_message_sock_tls n tcp msg = (ret, bs, tcp')"
  shows "connect tcp' = connect tcp" "ret = 0 \<Longrightarrow> bs = send_vec msg" "stat_rekey_time tcp' = stat_rekey_time tcp"
  using assms by (auto simp: tcp_send_message_sock_tls_def split: if_splits)

text \<open>
  C29 (invariant). Rekeying keeps the two ends of a connection in step. When
  \<open>tcp_send_message\<close> finds the key too old and succeeds, the stream gets the
  message and then a rekey request, and once the other end has handled that
  request the keys are paired again; in every other case, a failed or partial
  send included, the sender keeps its keys.
\<close>

theorem rekey_in_step:
  assumes send: "tcp_send_message env hz nowtime (Some a) (Some msg) = (ret, bs, Some a')"
    and st: "conn_status (connect a) = CONNECT_STAT_WORKING" and pair: "keys_paired (connect a) (connect b)"
    and hk: "env_hkdf (ce_hs env') = env_hkdf (ce_hs env)"
    and upd: "ce_update_err env HKDF_TYPE_REKEY \<ge> 0" "ce_update_err env HKDF_TYPE_IV \<ge> 0"
      "ce_update_err env' HKDF_TYPE_REKEY \<ge> 0" "ce_update_err env' HKDF_TYPE_IV \<ge> 0"
  shows "if ret = 0 \<and> nowtime - stat_rekey_time a \<ge> REKEY_LIFETIME hz
    then bs = send_vec msg @ frame (rekey_head, le32 0) \<and>
      (\<exists>b'. connection_working_recv_handler env' b rekey_head (Some (le32 0)) = Some (b', []) \<and>
            keys_paired (connect a') (connect b'))
    else connect a' = connect a"
proof -
  obtain r1 bs1 a1 where s1: "tcp_send_message_sock_tls (ce_send_msg env) a msg = (r1, bs1, a1)" by (metis prod_cases3)
  obtain r2 bs2 a2 where s2: "tcp_send_rekey_request env a1 = (r2, bs2, a2)" by (metis prod_cases3)
  note ok1 = send_tls_ok [OF s1]
  have ok2: "connect a2 = connect a1" "r2 = 0 \<Longrightarrow> bs2 = send_vec rekey_msg"
    using s2 by (auto simp: tcp_send_rekey_request_def split: if_splits dest: send_tls_ok)
  have v: "send_vec rekey_msg = frame (rekey_head, le32 0)" by (simp add: send_vec_def rekey_msg_def frame_def)
  show ?thesis
  proof (cases "ret = 0 \<and> nowtime - stat_rekey_time a \<ge> REKEY_LIFETIME hz")
    case True
    then have "bs = bs1 @ bs2" "r1 = 0" "r2 = 0"
      and a': "connect a' = snd (set_crypto_info env SET_CRYPTO_SEND (connect a2))"
      using send st s1 s2 ok1(3) by (auto simp: tcp_send_message_def rekey_switch_def Let_def split: if_splits)
    then have "bs = send_vec msg @ frame (rekey_head, le32 0)" using ok1(2) ok2(2) v by simp
    moreover have "keys_paired (connect a') (snd (set_crypto_info env' SET_CRYPTO_RECV (connect b)))"
      using rekey_pair [OF pair upd, of "env_hkdf (ce_hs env)"] a' ok1(1) ok2(1) hk by (simp add: set_crypto_info_def)
    ultimately show ?thesis using True recv_rekey by simp
  next
    case False
    then show ?thesis
      using send st s1 s2 ok1(1,3) ok2(1) by (auto simp: tcp_send_message_def rekey_switch_def Let_def split: if_splits)
  qed
qed

definition sample_msg :: hmdfs_send_data where
  "sample_msg = \<lparr>sd_head = head_bytes (sample_head HMDFS_VERSION 20 4), sd_sdesc = [], sd_data = [1, 2, 3, 4]\<rparr>"

theorem rekey_in_step_witness:
  "\<exists>bs a' b'. tcp_send_message sample_conn_env 100 360000 (Some (sample_tcp sample_sock)) (Some sample_msg) = (0, bs, Some a') \<and>
     connection_working_recv_handler sample_conn_env (sample_tcp sample_sock) rekey_head (Some (le32 0)) = Some (b', []) \<and>
     keys_paired (connect a') (connect b')"
proof -
  let ?t = "sample_tcp sample_sock"
  have l: "length (send_vec sample_msg) = 28" "length (send_vec rekey_msg) = 28"
    by (simp_all add: send_vec_def sample_msg_def rekey_msg_def length_head_bytes)
  obtain bs a' where s: "tcp_send_message sample_conn_env 100 360000 (Some ?t) (Some sample_msg) = (0, bs, Some a')"
    using l by (simp add: tcp_send_message_def rekey_switch_def tcp_send_message_sock_tls_def tcp_send_rekey_request_def sample_conn_env_def
        sample_tcp_env_def sample_tcp_def sample_msg_def Let_def)
  have "conn_status (connect ?t) = CONNECT_STAT_WORKING" "keys_paired (connect ?t) (connect ?t)" "stat_rekey_time ?t = 0"
    by (simp_all add: sample_tcp_def keys_paired_def sample_conn_def)
  with rekey_in_step [OF s, of ?t sample_conn_env] s show ?thesis by (auto simp: sample_conn_env_def)
qed

text \<open>
  Two senders are not kept in step: a message sent by another thread between the rekey request
  and the switch follows the request in the stream, under the old key, while the receiver
  takes the new one for it.
\<close>

theorem rekey_race:
  assumes request: "tcp_send_rekey_request env a = (0, rbs, a1)" and other: "tcp_send_message_sock_tls n a1 msg = (0, bs, a2)"
    and pair: "keys_paired (connect a) (connect b)"
    and upd: "ce_update_err env' HKDF_TYPE_REKEY \<ge> 0" "ce_update_err env' HKDF_TYPE_IV \<ge> 0"
    and new: "env_hkdf (ce_hs env') (send_key (connect a)) HKDF_TYPE_REKEY \<noteq> send_key (connect a)"
  shows "rbs @ bs = frame (rekey_head, le32 0) @ send_vec msg \<and>
    (\<exists>b'. connection_working_recv_handler env' b rekey_head (Some (le32 0)) = Some (b', []) \<and>
          send_key (connect a1) \<noteq> recv_key (connect b'))"
proof -
  have "rbs = send_vec rekey_msg" "connect a1 = connect a"
    using request by (auto simp: tcp_send_rekey_request_def split: if_splits dest: send_tls_ok)
  moreover have "bs = send_vec msg" using send_tls_ok(2) [OF other] by simp
  moreover have "recv_key (snd (set_crypto_info env' SET_CRYPTO_RECV (connect b))) = env_hkdf (ce_hs env') (send_key (connect a)) HKDF_TYPE_REKEY"
    using pair upd by (simp add: set_crypto_info_def tls_set_rx_def keys_paired_def Let_def)
  ultimately show ?thesis using new recv_rekey by (auto simp: send_vec_def rekey_msg_def frame_def)
qed

text \<open>
  A rekey message with the response flag gets past
  \<open>hmdfs_message_verify\<close> whatever its length is, because a bad response is turned
  into an error code for a waiter that does not exist: without a body the handler
  goes on to read the request through a NULL pointer.
\<close>

theorem rekey_response_null:
  assumes "file_cmd (command (operations h)) = Some F_CONNECT_REKEY" and "cmd_flag (operations h) = 1"
  shows "\<exists>v. hmdfs_message_verify h None = Some v \<and> v_err v = 0 \<and> connection_working_recv_handler env tcp h None = None"
proof -
  have "message_length C_RESPONSE F_CONNECT_REKEY = message_length_default"
    by (simp add: message_length_def message_length_file_def message_length_dir_def message_length_attr_def)
  then have "\<not> len_ok C_RESPONSE F_CONNECT_REKEY n" for n
    by (auto simp: len_ok_def max_len_def message_length_default_def)
  then show ?thesis
    using assms by (simp add: connection_working_recv_handler_def cmd_update_tls_crypto_key_def update_tls_crypto_key_def
        hmdfs_message_verify_def cmd_flag_of_def is_reserved_command_def handle_bad_message_def Let_def)
qed

definition sample_rekey_response :: hmdfs_head_cmd where
  "sample_rekey_response = rekey_head\<lparr>data_len := of_nat HEAD_SIZE, operations := rekey_cmd\<lparr>cmd_flag := 1\<rparr>\<rparr>"

theorem rekey_response_null_witness:
  "connection_working_recv_handler sample_conn_env (sample_tcp sample_sock) sample_rekey_response None = None"
proof -
  have "file_cmd (command (operations sample_rekey_response)) = Some F_CONNECT_REKEY" "cmd_flag (operations sample_rekey_response) = 1"
    by (simp_all add: sample_rekey_response_def rekey_cmd_def file_cmd_def file_cmds_def)
  from rekey_response_null [OF this] show ?thesis by blast
qed

section \<open>The handshake over the wire\<close>

lemma length_msg_head_bytes [simp]: "length (msg_head_bytes h) = HEAD_SIZE"
  by (simp add: msg_head_bytes_def)

lemma read_msg_head_bytes: "read_msg_head (msg_head_bytes h) = h"
proof -
  have "unat (mh_source h) < 256 ^ 8" using unsigned_less [of "mh_source h"] by simp
  then have "le_val (le_bytes 8 (unat (mh_source h))) = unat (mh_source h)" by (rule le_val_le_bytes)
  then show ?thesis by (simp add: read_msg_head_def msg_head_bytes_def)
qed

text \<open>The two structures of a head share their first fields and the data length.\<close>

lemma msg_head_as_head:
  obtains g where "head_bytes g = msg_head_bytes h" "magic g = mh_magic h" "version g = mh_version h" "data_len g = mh_datasize h"
proof -
  obtain g where g: "read_head (msg_head_bytes h) = Some g" by (simp add: read_head_def)
  then have "head_bytes g = msg_head_bytes h" using head_bytes_read_head [OF g] by simp
  moreover have "magic g = mh_magic h" "version g = mh_version h" "data_len g = mh_datasize h"
    using g by (auto simp: read_head_def) (simp_all add: msg_head_bytes_def)
  ultimately show ?thesis using that by blast
qed

definition in_handshake :: "connect_stat \<Rightarrow> bool" where
  "in_handshake st \<longleftrightarrow> st = CONNECT_STAT_WAIT_REQUEST \<or> st = CONNECT_STAT_WAIT_RESPONSE \<or> st = CONNECT_STAT_WAIT_ACK"

definition hs_send_data :: "connection_msg_head \<times> byte list \<Rightarrow> hmdfs_send_data" where
  "hs_send_data m = \<lparr>sd_head = msg_head_bytes (fst m), sd_sdesc = [], sd_data = snd m\<rparr>"

lemma handshake_data_len:
  assumes "do_send_handshake c ops rid = (h, d)"
  shows "unat (mh_datasize h) = HEAD_SIZE + length d" "d \<noteq> []" "length d \<le> 42" "mh_magic h = HMDFS_MSG_MAGIC" "mh_version h = HMDFS_VERSION"
proof -
  have "length (hs_fill_extend_data c (replicate 37 0)) = 37"
    using fill_extend_data [of c] by (simp add: extend_len hs_extend_bytes_def)
  then show "unat (mh_datasize h) = HEAD_SIZE + length d" "d \<noteq> []" "length d \<le> 42" "mh_magic h = HMDFS_MSG_MAGIC" "mh_version h = HMDFS_VERSION"
    using assms by (auto simp: do_send_handshake_def Let_def handshake_dev_id_def extend_len layout_simps split: if_splits)
qed

text \<open>
  C28 (round trip). Before the TLS session exists a handshake message travels
  encrypted by the shared cipher: given that decryption inverts encryption and
  adds the nonce and the tag, what \<open>tcp_send_message\<close> puts into the stream for a
  message of \<open>do_send_handshake\<close> is received by the other end as the same head and
  data, and handed to \<open>connection_handshake_recv_handler\<close>.
\<close>

theorem handshake_over_wire:
  assumes send: "tcp_send_message env hz nowtime (Some a) (Some (hs_send_data (do_send_handshake c ops rid))) = (0, bs, Some a')"
    and a: "in_handshake (conn_status (connect a))"
    and enc: "ce_encrypt env (snd (do_send_handshake c ops rid)) = (0, cipher)"
    and dec: "te_decrypt (ce_tcp env') cipher = (0, snd (do_send_handshake c ops rid))"
      "length cipher = length (snd (do_send_handshake c ops rid)) + HMDFS_IV_SIZE + HMDFS_TAG_SIZE"
    and b: "in_handshake (conn_status (connect b))" "te_recv_cache (ce_tcp env')" "te_kmalloc (ce_tcp env')"
    and sk: "tcp_sock b = Some \<lparr>sk_stream = bs, sk_script = Got k # body\<rparr>" "HEAD_SIZE \<le> Suc k" "paced (length cipher) 1 body"
  shows "\<exists>b'. tcp_receive_step env' b =
      map_option (\<lambda>(c', acts). (0, b'\<lparr>connect := c'\<rparr>, map Out_Hs acts))
        (connection_handshake_recv_handler (ce_hs env') (connect b)
          (fst (do_send_handshake c ops rid)) (Some (snd (do_send_handshake c ops rid)))) \<and>
    tcp_sock b' = Some \<lparr>sk_stream = [], sk_script = []\<rparr>"
proof -
  obtain h d where hd: "do_send_handshake c ops rid = (h, d)" by fastforce
  note len = handshake_data_len [OF hd]
  obtain g where g: "head_bytes g = msg_head_bytes h" "magic g = mh_magic h" "version g = mh_version h" "data_len g = mh_datasize h"
    by (rule msg_head_as_head)
  have "tcp_send_message_sock_cipher env a (hs_send_data (h, d)) = (0, bs)"
    using send a hd len(3) by (auto simp: tcp_send_message_def rekey_switch_def hs_send_data_def in_handshake_def Let_def split: if_splits prod.splits)
  then have bs: "bs = head_bytes g @ cipher"
    using enc dec(2) hd len(2) g(1) by (auto simp: tcp_send_message_sock_cipher_def hs_send_data_def Let_def split: if_splits)
  let ?b = "b\<lparr>stat_recv_bytes := stat_recv_bytes b + of_nat HEAD_SIZE, stat_recv_message_count := stat_recv_message_count b + 1\<rparr>"
  have sk': "tcp_sock b = Some \<lparr>sk_stream = head_bytes g @ cipher, sk_script = Got k # body\<rparr>" using sk(1) bs by simp
  have lc: "length cipher = length d + 28" using dec(2) hd by simp
  have rd: "tcp_read_buffer_from_socket \<lparr>sk_stream = cipher, sk_script = body\<rparr> (unat (data_len g) - HEAD_SIZE + HMDFS_IV_SIZE + HMDFS_TAG_SIZE)
      = (0, cipher, \<lparr>sk_stream = [], sk_script = []\<rparr>)"
    using read_paced [of "length cipher" "[]" 0 body cipher "[]"] sk(3) g(4) len(1) lc
    by (simp add: tcp_read_buffer_from_socket_def add.commute)
  have nd: "\<not> head_dropped g" "unat (data_len g) \<noteq> HEAD_SIZE" "\<not> unat (data_len g) < HEAD_SIZE" "\<not> unat (data_len g) > ADAPTER_MESSAGE_LENGTH"
    using g len by (auto simp: head_dropped_def)
  have de: "aeadcipher_decrypt_buffer (ce_tcp env') cipher = (0, d)"
    using dec(1) hd lc len(2) by (simp add: aeadcipher_decrypt_buffer_def)
  have "tcp_recvbuffer_cipher (ce_tcp env') (conn_status (connect b)) \<lparr>sk_stream = cipher, sk_script = body\<rparr> g
      = (0, [Handshake_Msg g (Some d)], \<lparr>sk_stream = [], sk_script = []\<rparr>)"
    using rd nd de b(1,3) by (auto simp: tcp_recvbuffer_cipher_def Let_def connect_recv_callback_def in_handshake_def)
  then have "tcp_receive_from_sock (ce_tcp env') b = (0, [Handshake_Msg g (Some d)], ?b\<lparr>tcp_sock := Some \<lparr>sk_stream = [], sk_script = []\<rparr>\<rparr>)"
    unfolding receive_head [OF sk' sk(2) b(2)] using nd(1) b(1) by (auto simp: tcp_receive_body_def Let_def in_handshake_def)
  then show ?thesis
    using hd g(1) by (intro exI [of _ "?b\<lparr>tcp_sock := Some \<lparr>sk_stream = [], sk_script = []\<rparr>\<rparr>"])
      (simp add: tcp_receive_step_def handle_event_def read_msg_head_bytes option.map_comp o_def case_prod_unfold)
qed

definition sample_shaking :: "socket \<Rightarrow> tcp_handle" where
  "sample_shaking sk = (sample_tcp sk)\<lparr>connect := sample_conn 5\<rparr>"

definition sample_wire_env :: conn_env where
  "sample_wire_env = sample_conn_env\<lparr>ce_send_msg := 57\<rparr>"

theorem handshake_over_wire_witness:
  "\<exists>bs b'. tcp_receive_step sample_wire_env (sample_shaking \<lparr>sk_stream = bs, sk_script = Got 23 # [Got 99]\<rparr>) =
      map_option (\<lambda>(c', acts). (0, b'\<lparr>connect := c'\<rparr>, map Out_Hs acts))
        (connection_handshake_recv_handler sample_env (sample_conn 5)
          (fst (do_send_handshake (sample_conn 7) CONNECT_MESG_HANDSHAKE_REQUEST 0))
          (Some (snd (do_send_handshake (sample_conn 7) CONNECT_MESG_HANDSHAKE_REQUEST 0))))"
proof -
  let ?hs = "do_send_handshake (sample_conn 7) CONNECT_MESG_HANDSHAKE_REQUEST 0"
  have d: "snd ?hs = le32 1 @ [48]" by (simp add: do_send_handshake_def handshake_dev_id_def Let_def)
  have ih: "in_handshake (conn_status (connect (sample_shaking sk)))" for sk
    by (simp add: in_handshake_def sample_shaking_def sample_conn_def)
  have "tcp_send_message_sock_cipher sample_wire_env (sample_shaking sample_sock) (hs_send_data ?hs)
      = (0, take 57 (msg_head_bytes (fst ?hs) @ replicate 28 0 @ snd ?hs))"
    by (simp add: tcp_send_message_sock_cipher_def hs_send_data_def d sample_wire_env_def sample_conn_env_def
        sample_tcp_env_def sample_shaking_def sample_tcp_def Let_def)
  then obtain bs where s: "tcp_send_message sample_wire_env 100 0 (Some (sample_shaking sample_sock)) (Some (hs_send_data ?hs))
      = (0, bs, Some (sample_shaking sample_sock))"
    using ih [of sample_sock] by (auto simp: tcp_send_message_def rekey_switch_def hs_send_data_def d in_handshake_def Let_def)
  let ?b = "sample_shaking \<lparr>sk_stream = bs, sk_script = Got 23 # [Got 99]\<rparr>"
  from handshake_over_wire [OF s, of "replicate 28 0 @ snd ?hs" sample_wire_env ?b 23 "[Got 99]"]
  obtain b' where "tcp_receive_step sample_wire_env ?b =
      map_option (\<lambda>(c', acts). (0, b'\<lparr>connect := c'\<rparr>, map Out_Hs acts))
        (connection_handshake_recv_handler (ce_hs sample_wire_env) (connect ?b) (fst ?hs) (Some (snd ?hs)))"
    using ih by (auto simp: sample_wire_env_def sample_conn_env_def sample_tcp_env_def sample_shaking_def sample_tcp_def d)
  then show ?thesis
    by (intro exI [of _ bs] exI [of _ b']) (simp add: sample_wire_env_def sample_conn_env_def sample_shaking_def)
qed

end
