(* ===== verification/Msg_Table.thy ===== *)
theory Msg_Table
  imports Message_Verify
begin

text \<open>
  The table of pending messages of a peer and the dispatch of received ones
  (\<open>src/hmdfs/comm/socket_adapter.c\<close>; \<open>hmdfs_find_msg_head\<close> and
  \<open>hmdfs_alloc_msg_idr\<close> of \<open>src/hmdfs/comm/connection.c\<close>;
  \<open>hmdfs_client_offline_notify\<close> of \<open>src/hmdfs/hmdfs_client.c\<close>).

  The body of a received message is a buffer of the kernel heap, named by a
  number; freeing one that is not allocated is \<open>None\<close>, and so is waiting for an
  event that only another thread can bring. The handlers of requests (the
  functions of \<open>hmdfs_server.c\<close>) and the callbacks of asynchronous requests are
  recorded, not run.
\<close>

section \<open>State\<close>

datatype MSG_IDR_TYPE =
    MSG_IDR_1_0_NONE | MSG_IDR_1_0_MESSAGE_SYNC | MSG_IDR_1_0_PAGE
  | MSG_IDR_MESSAGE_SYNC | MSG_IDR_MESSAGE_ASYNC | MSG_IDR_PAGE

datatype MSG_QUEUE_STATUS = MSG_Q_SEND | MSG_Q_END_RECV

datatype FILE_RECV_STATE = FILE_RECV_PROCESS | FILE_RECV_SUCC | FILE_RECV_ERR_NET | FILE_RECV_ERR_SPC

text \<open>
  An entry of the table: the common head, the fields of \<open>sendmsg_wait_queue\<close> with
  its \<open>file_recv_info\<close> (the local file is its contents), and those of
  \<open>hmdfs_msg_parasite\<close> and \<open>hmdfs_async_work\<close>, whose delayed work is pending or not.
\<close>

record msg =
  m_type :: MSG_IDR_TYPE
  m_cmd :: byte
  m_ref :: nat
  m_valid :: MSG_QUEUE_STATUS
  m_size :: u32
  m_buf :: "nat option"
  m_ret :: u32
  m_filp :: "byte list option"
  m_fslices :: nat
  m_state :: FILE_RECV_STATE
  m_wfired :: bool
  m_queued :: bool
  m_out_buf :: "nat option"
  m_out_len :: u64
  m_resp_ret :: u32

datatype work_fn = Request_Work | File_Response_Work

record work_handler_desp =
  w_fn :: work_fn
  w_head :: hmdfs_head_cmd
  w_buf :: "nat option"

text \<open>What the peer's handlers have been given: requests, woken callbacks and pages given up.\<close>

datatype served = Served hmdfs_head_cmd "byte list option" | Woken nat u32 "byte list option" | Page_Given_Up nat

record peer =
  msg_idr :: "nat \<Rightarrow> msg option"
  offline_start :: bool
  msg_idr_process :: int
  heap :: "nat \<Rightarrow> byte list option"
  works :: "work_handler_desp list"
  served :: "served list"
  replies :: "(hmdfs_head_cmd \<times> int) list"

text \<open>The environment: allocations, credentials, and the result of writing a slice to the local file.\<close>

record msg_env =
  me_alloc :: bool
  me_cred :: bool
  me_write :: "int option"

definition kfree :: "nat option \<Rightarrow> peer \<Rightarrow> peer option" where
  "kfree b p =
     (case b of
        None \<Rightarrow> Some p
      | Some x \<Rightarrow> if heap p x = None then None else Some (p\<lparr>heap := (heap p)(x := None)\<rparr>))"

definition buf_data :: "peer \<Rightarrow> nat option \<Rightarrow> byte list option" where
  "buf_data p b = (case b of None \<Rightarrow> None | Some x \<Rightarrow> heap p x)"

definition set_msg :: "nat \<Rightarrow> msg \<Rightarrow> peer \<Rightarrow> peer" where
  "set_msg mid m p = p\<lparr>msg_idr := (msg_idr p)(mid := Some m)\<rparr>"

section \<open>The table\<close>

text \<open>\<open>idr_ret\<close> is the result of \<open>idr_alloc_cyclic\<close>: a free number from 1 on, or an error.\<close>

definition hmdfs_alloc_msg_idr :: "int \<Rightarrow> msg \<Rightarrow> MSG_IDR_TYPE \<Rightarrow> hmdfs_cmd \<Rightarrow> peer \<Rightarrow> int \<times> nat \<times> peer" where
  "hmdfs_alloc_msg_idr idr_ret m type ops p =
     (let ret = (if offline_start p then - EAGAIN else idr_ret) in
      if ret \<ge> 0
      then (0, nat ret, (set_msg (nat ret) (m\<lparr>m_ref := 1, m_type := type, m_cmd := command ops\<rparr>) p)
                          \<lparr>msg_idr_process := msg_idr_process p + 1\<rparr>)
      else (ret, 0, p))"

definition hmdfs_find_msg_head :: "peer \<Rightarrow> nat \<Rightarrow> hmdfs_cmd \<Rightarrow> msg option \<times> peer" where
  "hmdfs_find_msg_head p mid ops =
     (case msg_idr p mid of
        None \<Rightarrow> (None, p)
      | Some m \<Rightarrow>
          if m_cmd m = command ops
          then (let m' = m\<lparr>m_ref := m_ref m + 1\<rparr> in (Some m', set_msg mid m' p))
          else (None, p))"

definition hmdfs_dec_msg_idr_process :: "peer \<Rightarrow> peer" where
  "hmdfs_dec_msg_idr_process p = p\<lparr>msg_idr_process := msg_idr_process p - 1\<rparr>"

text \<open>Dropping a reference; the last one releases the entry with the buffer \<open>release\<close> finds in it.\<close>

definition kref_put_lock :: "(msg \<Rightarrow> nat option) \<Rightarrow> nat \<Rightarrow> peer \<Rightarrow> peer option" where
  "kref_put_lock release mid p =
     (case msg_idr p mid of
        None \<Rightarrow> None
      | Some m \<Rightarrow>
          if m_ref m > 1 then Some (set_msg mid (m\<lparr>m_ref := m_ref m - 1\<rparr>) p)
          else kfree (release m) (p\<lparr>msg_idr := (msg_idr p)(mid := None)\<rparr>))"

definition head_put :: "nat \<Rightarrow> peer \<Rightarrow> peer option" where
  "head_put = kref_put_lock (\<lambda>_. None)"

definition msg_put :: "nat \<Rightarrow> peer \<Rightarrow> peer option" where
  "msg_put = kref_put_lock m_buf"

definition mp_put :: "nat \<Rightarrow> peer \<Rightarrow> peer option" where
  "mp_put = kref_put_lock m_out_buf"

definition asw_put :: "nat \<Rightarrow> peer \<Rightarrow> peer option" where
  "asw_put = kref_put_lock (\<lambda>_. None)"

definition asw_done :: "nat \<Rightarrow> peer \<Rightarrow> peer option" where
  "asw_done mid p = asw_put mid (p\<lparr>served := served p @ [Page_Given_Up mid]\<rparr>)"

section \<open>Requests\<close>

text \<open>The commands with an entry in \<open>s_recv_callbacks\<close>.\<close>

definition s_recv_callbacks :: "FILE_CMD \<Rightarrow> bool" where
  "s_recv_callbacks c \<longleftrightarrow> c \<in> {F_OPEN, F_READPAGE, F_RELEASE, F_WRITEPAGE, F_ITERATE, F_MKDIR, F_CREATE, F_RMDIR,
     F_UNLINK, F_RENAME, F_SETATTR, F_STATFS, F_DROP_PUSH, F_GETATTR, F_FSYNC, F_SYNCFS, F_GETXATTR, F_SETXATTR,
     F_LISTXATTR, F_ATOMIC_OPEN}"

definition hmdfs_request_handle_sync :: "msg_env \<Rightarrow> peer \<Rightarrow> hmdfs_head_cmd \<Rightarrow> nat option \<Rightarrow> peer option" where
  "hmdfs_request_handle_sync env p head buf =
     (if \<not> me_cred env then kfree buf p
      else kfree buf (p\<lparr>served := served p @ [Served head (buf_data p buf)]\<rparr>))"

definition hmdfs_msg_handle_async :: "msg_env \<Rightarrow> peer \<Rightarrow> hmdfs_head_cmd \<Rightarrow> nat option \<Rightarrow> work_fn \<Rightarrow> int \<times> peer" where
  "hmdfs_msg_handle_async env p head buf fn =
     (if \<not> me_alloc env then (- ENOMEM, p)
      else (0, p\<lparr>works := works p @ [\<lparr>w_fn = fn, w_head = head, w_buf = buf\<rparr>]\<rparr>))"

definition hmdfs_request_recv :: "msg_env \<Rightarrow> peer \<Rightarrow> hmdfs_head_cmd \<Rightarrow> nat option \<Rightarrow> (int \<times> peer) option" where
  "hmdfs_request_recv env p head buf =
     (case file_cmd (command (operations head)) of
        None \<Rightarrow> Some (- EINVAL, p)
      | Some c \<Rightarrow>
          if \<not> s_recv_callbacks c then Some (- EINVAL, p)
          else if c = F_WRITEPAGE \<or> c = F_READPAGE
          then map_option (\<lambda>p'. (0, p')) (hmdfs_request_handle_sync env p head buf)
          else Some (hmdfs_msg_handle_async env p head buf Request_Work))"

section \<open>Responses\<close>

definition hmdfs_response_wakeup :: "nat \<Rightarrow> u32 \<Rightarrow> u32 \<Rightarrow> nat option \<Rightarrow> peer \<Rightarrow> peer" where
  "hmdfs_response_wakeup mid ret len buf p =
     (case msg_idr p mid of
        None \<Rightarrow> p
      | Some m \<Rightarrow> set_msg mid (m\<lparr>m_ret := ret, m_size := len, m_buf := buf, m_valid := MSG_Q_END_RECV\<rparr>) p)"

text \<open>
  Waiting until the sender of an asynchronous request has queued its work
  (\<open>hmdfs_wait_mp_wfired\<close>) does not return while the flag is not set.
\<close>

definition response_async :: "nat \<Rightarrow> msg \<Rightarrow> hmdfs_head_cmd \<Rightarrow> nat option \<Rightarrow> peer \<Rightarrow> (bool \<times> peer) option" where
  "response_async mid m head buf p =
     (if \<not> m_wfired m then None
      else if m_queued m
      then Some (True, set_msg mid (m\<lparr>m_out_buf := buf, m_out_len := ucast (data_len head) - of_nat HEAD_SIZE,
                                    m_resp_ret := ret_code head, m_queued := True\<rparr>) p)
      else Some (False, p))"

definition hmdfs_response_handle_sync :: "peer \<Rightarrow> hmdfs_head_cmd \<Rightarrow> nat option \<Rightarrow> (int \<times> peer) option" where
  "hmdfs_response_handle_sync p head buf =
     (let mid = unat (msg_id head) in
      case hmdfs_find_msg_head p mid (operations head) of
        (None, p1) \<Rightarrow> Some (- EINVAL, p1)
      | (Some m, p1) \<Rightarrow>
          (case m_type m of
             MSG_IDR_MESSAGE_SYNC \<Rightarrow>
               if m_valid m = MSG_Q_SEND
               then map_option (\<lambda>p2. (0, p2)) (msg_put mid (hmdfs_response_wakeup mid (ret_code head) (data_len head) buf p1))
               else map_option (\<lambda>p2. (- EINVAL, p2)) (msg_put mid p1)
           | MSG_IDR_MESSAGE_ASYNC \<Rightarrow> do {
               (woke, p2) \<leftarrow> response_async mid m head buf p1;
               p3 \<leftarrow> mp_put mid p2;
               Some (if woke then 0 else - EINVAL, p3) }
           | _ \<Rightarrow> Some (- EINVAL, p1)))"

text \<open>The commands of the first group of the switch in \<open>hmdfs_response_recv\<close>.\<close>

definition response_sync_cmd :: "FILE_CMD \<Rightarrow> bool" where
  "response_sync_cmd c \<longleftrightarrow> c \<in> {F_OPEN, F_RELEASE, F_READPAGE, F_WRITEPAGE, F_MKDIR, F_RMDIR, F_CREATE, F_UNLINK,
     F_RENAME, F_SETATTR, F_STATFS, F_CONNECT_REKEY, F_DROP_PUSH, F_GETATTR, F_FSYNC, F_SYNCFS, F_GETXATTR,
     F_SETXATTR, F_LISTXATTR}"

definition hmdfs_response_recv :: "msg_env \<Rightarrow> peer \<Rightarrow> hmdfs_head_cmd \<Rightarrow> nat option \<Rightarrow> (int \<times> peer) option" where
  "hmdfs_response_recv env p head buf =
     (case file_cmd (command (operations head)) of
        None \<Rightarrow> Some (- EINVAL, p)
      | Some c \<Rightarrow>
          if response_sync_cmd c then hmdfs_response_handle_sync p head buf
          else if c = F_ITERATE then Some (hmdfs_msg_handle_async env p head buf File_Response_Work)
          else Some (- EINVAL, p))"

section \<open>Slices of a file\<close>

text \<open>
  The result and the entry; \<open>None\<close> when the descriptor or the content would be
  read outside the buffer. The offset is a product of 32-bit numbers.
\<close>

definition hmdfs_readfile_slice :: "msg_env \<Rightarrow> msg \<Rightarrow> byte list option \<Rightarrow> (int \<times> msg) option" where
  "hmdfs_readfile_slice env m data =
     (case m_filp m of
        None \<Rightarrow> Some (- EINVAL, m)
      | Some file \<Rightarrow>
          if m_state m \<noteq> FILE_RECV_PROCESS then Some (- EBUSY, m)
          else do {
            d \<leftarrow> data;
            slice_size \<leftarrow> fld slice_descriptor ''slice_size'' d;
            slice_sn \<leftarrow> fld slice_descriptor ''slice_sn'' d;
            content_size \<leftarrow> fld slice_descriptor ''content_size'' d;
            num_slices \<leftarrow> fld slice_descriptor ''num_slices'' d;
            (let slice_buf = drop (sizeof slice_descriptor) d;
                 offset = unat (of_nat slice_size * of_nat slice_sn :: u32);
                 written_size = (case me_write env of None \<Rightarrow> int content_size | Some n \<Rightarrow> n) in
             if length slice_buf < content_size then None
             else if written_size < 0 then Some (written_size, m\<lparr>m_state := FILE_RECV_ERR_SPC\<rparr>)
             else let m1 = m\<lparr>m_filp := Some (write_at file offset (take (nat written_size) (take content_size slice_buf))),
                            m_fslices := m_fslices m + 1\<rparr>
               in Some (0, if m_fslices m1 \<ge> num_slices then m1\<lparr>m_state := FILE_RECV_SUCC\<rparr> else m1)) })"

text \<open>The head of the work after a message was found: what the waiter is woken with, and the entry.\<close>

definition file_response :: "msg_env \<Rightarrow> msg \<Rightarrow> hmdfs_head_cmd \<Rightarrow> byte list option \<Rightarrow> (int option \<times> msg) option" where
  "file_response env m head data =
     (if ret_code head \<noteq> 0 \<or> data_len head = of_nat HEAD_SIZE then Some (Some (sint (ret_code head)), m)
      else do {
        (ret, m1) \<leftarrow> hmdfs_readfile_slice env m data;
        Some (if ret \<noteq> 0 \<or> m_state m1 \<noteq> FILE_RECV_PROCESS then Some ret else None, m1) })"

definition hmdfs_file_response_work_fn :: "msg_env \<Rightarrow> peer \<Rightarrow> hmdfs_head_cmd \<Rightarrow> nat option \<Rightarrow> peer option" where
  "hmdfs_file_response_work_fn env p head buf =
     (let mid = unat (msg_id head) in
      case hmdfs_find_msg_head p mid (operations head) of
        (None, p1) \<Rightarrow> kfree buf p1
      | (Some m, p1) \<Rightarrow>
          if m_valid m \<noteq> MSG_Q_SEND then do { p2 \<leftarrow> msg_put mid p1; kfree buf p2 }
          else do {
            (woken, m1) \<leftarrow> file_response env m head (buf_data p1 buf);
            (let p2 = set_msg mid m1 p1;
                 p3 = (case woken of
                         None \<Rightarrow> p2
                       | Some ret \<Rightarrow> hmdfs_response_wakeup mid (of_int ret) (of_nat HEAD_SIZE) None p2)
             in do { p4 \<leftarrow> msg_put mid p3; kfree buf p4 }) })"

definition hmdfs_request_work_fn :: "msg_env \<Rightarrow> peer \<Rightarrow> hmdfs_head_cmd \<Rightarrow> nat option \<Rightarrow> peer option" where
  "hmdfs_request_work_fn env p head buf = hmdfs_request_handle_sync env p head buf"

text \<open>A work queue runs a work, in any order.\<close>

definition run_work :: "msg_env \<Rightarrow> nat \<Rightarrow> peer \<Rightarrow> peer option" where
  "run_work env i p =
     (if i < length (works p)
      then let w = works p ! i; p1 = p\<lparr>works := take i (works p) @ drop (Suc i) (works p)\<rparr> in
        (case w_fn w of
           Request_Work \<Rightarrow> hmdfs_request_work_fn env p1 (w_head w) (w_buf w)
         | File_Response_Work \<Rightarrow> hmdfs_file_response_work_fn env p1 (w_head w) (w_buf w))
      else None)"

section \<open>Dispatch\<close>

definition hmdfs_recv_mesg_callback :: "msg_env \<Rightarrow> peer \<Rightarrow> hmdfs_head_cmd \<Rightarrow> nat option \<Rightarrow> peer option" where
  "hmdfs_recv_mesg_callback env p head buf = do {
     v \<leftarrow> hmdfs_message_verify head (buf_data p buf);
     (let p0 = p\<lparr>replies := replies p @ v_sent v\<rparr>; head' = v_head v in
      if v_err v < 0 then kfree buf p0
      else do {
        (ret, p1) \<leftarrow> (case cmd_flag_of (cmd_flag (operations head')) of
                        Some C_REQUEST \<Rightarrow> hmdfs_request_recv env p0 head' buf
                      | Some C_RESPONSE \<Rightarrow> hmdfs_response_recv env p0 head' buf
                      | None \<Rightarrow> Some (-1, p0));
        if ret < 0 then kfree buf p1 else Some p1 }) }"

section \<open>A peer goes offline\<close>

text \<open>The delayed work of an asynchronous request, which has left the queue.\<close>

definition async_request_cb_on_wakeup_fn :: "nat \<Rightarrow> peer \<Rightarrow> peer option" where
  "async_request_cb_on_wakeup_fn mid p =
     (case msg_idr p mid of
        None \<Rightarrow> None
      | Some m \<Rightarrow> mp_put mid (p\<lparr>served := served p @ [Woken mid (m_resp_ret m) (buf_data p (m_out_buf m))]\<rparr>))"

definition hmdfs_recv_page_work_fn :: "nat \<Rightarrow> peer \<Rightarrow> peer option" where
  "hmdfs_recv_page_work_fn = asw_done"

definition hmdfs_wakeup_parasite :: "nat \<Rightarrow> msg \<Rightarrow> peer \<Rightarrow> peer option" where
  "hmdfs_wakeup_parasite mid m p =
     (if \<not> m_wfired m then None
      else if \<not> m_queued m then Some p
      else async_request_cb_on_wakeup_fn mid (set_msg mid (m\<lparr>m_queued := False\<rparr>) p))"

definition hmdfs_wakeup_async_work :: "nat \<Rightarrow> msg \<Rightarrow> peer \<Rightarrow> peer option" where
  "hmdfs_wakeup_async_work mid m p =
     (if \<not> m_queued m then Some p
      else hmdfs_recv_page_work_fn mid (set_msg mid (m\<lparr>m_queued := False\<rparr>) p))"

definition offline_notify_msg :: "nat \<Rightarrow> msg \<Rightarrow> peer \<Rightarrow> peer option" where
  "offline_notify_msg mid m p =
     (case m_type m of
        MSG_IDR_1_0_NONE \<Rightarrow> do { p1 \<leftarrow> head_put mid p; head_put mid p1 }
      | MSG_IDR_MESSAGE_SYNC \<Rightarrow> msg_put mid (hmdfs_response_wakeup mid (of_int (- ETIME)) 0 None p)
      | MSG_IDR_1_0_MESSAGE_SYNC \<Rightarrow> msg_put mid (hmdfs_response_wakeup mid (of_int (- ETIME)) 0 None p)
      | MSG_IDR_MESSAGE_ASYNC \<Rightarrow> do { p1 \<leftarrow> hmdfs_wakeup_parasite mid m p; mp_put mid p1 }
      | MSG_IDR_PAGE \<Rightarrow> do { p1 \<leftarrow> hmdfs_wakeup_async_work mid m p; asw_put mid p1 }
      | MSG_IDR_1_0_PAGE \<Rightarrow> do { p1 \<leftarrow> hmdfs_wakeup_async_work mid m p; asw_put mid p1 })"

text \<open>The loop over the numbers of the table, below a bound that no entry reaches.\<close>

fun offline_notify_from :: "nat \<Rightarrow> nat \<Rightarrow> peer \<Rightarrow> peer option" where
  "offline_notify_from 0 mid p = Some p"
| "offline_notify_from (Suc n) mid p =
     (case msg_idr p mid of
        None \<Rightarrow> offline_notify_from n (mid + 1) p
      | Some m \<Rightarrow> (let m' = m\<lparr>m_ref := m_ref m + 1\<rparr> in do {
          p1 \<leftarrow> offline_notify_msg mid m' (set_msg mid m' p);
          offline_notify_from n (mid + 1) p1 }))"

definition hmdfs_client_offline_notify :: "nat \<Rightarrow> peer \<Rightarrow> peer option" where
  "hmdfs_client_offline_notify bound p = offline_notify_from bound 0 p"

section \<open>A request and its waiter\<close>

record hmdfs_send_command =
  sc_operations :: hmdfs_cmd
  sc_data :: "byte list"
  sc_filp :: "byte list option"
  sc_ret_code :: u32

text \<open>What a request meets: the peer's state, the timeout of the command, allocations, the table, the sending.\<close>

record req_env =
  re_online :: bool
  re_timeout :: u32
  re_alloc :: bool
  re_idr :: int
  re_send :: int
  re_prohibit :: bool

abbreviation (input) TIMEOUT_NONE :: u32 where "TIMEOUT_NONE \<equiv> 0"
abbreviation (input) TIMEOUT_UNINIT :: u32 where "TIMEOUT_UNINIT \<equiv> - 1"

text \<open>The sender returns, putting the local file or not, or waits for the entry.\<close>

datatype request_step = Req_Done int bool | Req_Wait nat

definition new_msg :: msg where
  "new_msg = \<lparr>m_type = MSG_IDR_1_0_NONE, m_cmd = 0, m_ref = 0, m_valid = MSG_Q_SEND, m_size = 0, m_buf = None, m_ret = 0,
     m_filp = None, m_fslices = 0, m_state = FILE_RECV_PROCESS, m_wfired = False, m_queued = False, m_out_buf = None,
     m_out_len = 0, m_resp_ret = 0\<rparr>"

definition is_iterate :: "hmdfs_cmd \<Rightarrow> bool" where
  "is_iterate ops \<longleftrightarrow> file_cmd (command ops) = Some F_ITERATE"

definition request_head :: "hmdfs_send_command \<Rightarrow> nat \<Rightarrow> hmdfs_head_cmd" where
  "request_head sm mid = \<lparr>magic = HMDFS_MSG_MAGIC, version = HMDFS_VERSION, reserved = 0,
     data_len = of_nat (length (sc_data sm) + HEAD_SIZE), operations = sc_operations sm, ret_code = sc_ret_code sm,
     msg_id = of_nat mid, reserved1 = 0\<rparr>"

definition request_registered :: "req_env \<Rightarrow> hmdfs_send_command \<Rightarrow> nat \<Rightarrow> peer \<Rightarrow> (request_step \<times> peer) option" where
  "request_registered env sm mid p =
     (if re_send env \<noteq> 0
      then map_option (\<lambda>p'. (Req_Done (re_send env) False, hmdfs_dec_msg_idr_process p')) (msg_put mid p)
      else let p1 = hmdfs_dec_msg_idr_process p in
        if is_iterate (sc_operations sm) \<and> re_prohibit env
        then (case msg_idr p1 mid of
                None \<Rightarrow> None
              | Some m \<Rightarrow> map_option (\<lambda>p'. (Req_Done (- EINTR) False, p')) (msg_put mid (set_msg mid (m\<lparr>m_state := FILE_RECV_ERR_SPC\<rparr>) p1)))
        else Some (Req_Wait mid, p1))"

definition request_send :: "req_env \<Rightarrow> hmdfs_send_command \<Rightarrow> peer \<Rightarrow> (request_step \<times> peer) option" where
  "request_send env sm p =
     (if \<not> re_online env then Some (Req_Done (- EAGAIN) True, p)
      else if re_timeout env = TIMEOUT_UNINIT then Some (Req_Done (- EINVAL) True, p)
      else if \<not> re_alloc env then Some (Req_Done (- ENOMEM) True, p)
      else if re_timeout env = TIMEOUT_NONE then Some (Req_Done (re_send env) False, p)
      else case hmdfs_alloc_msg_idr (re_idr env)
                  (new_msg\<lparr>m_filp := (if is_iterate (sc_operations sm) then sc_filp sm else None)\<rparr>)
                  MSG_IDR_MESSAGE_SYNC (sc_operations sm) p of
        (ret, mid, p1) \<Rightarrow>
          if ret \<noteq> 0 then Some (Req_Done ret True, p1) else request_registered env sm mid p1)"

text \<open>
  The waiter wakes up: \<open>time_left\<close> is the result of the wait. The result, the
  response buffer and its length, which is computed in 64 bits.
\<close>

definition request_wait_end :: "hmdfs_send_command \<Rightarrow> nat \<Rightarrow> int \<Rightarrow> peer \<Rightarrow> (int \<times> nat option \<times> u64 \<times> peer) option" where
  "request_wait_end sm mid time_left p =
     (case msg_idr p mid of
        None \<Rightarrow> None
      | Some m \<Rightarrow>
          if time_left \<le> 0
          then map_option (\<lambda>p'. (- ETIME, None, 0, p'))
                 (msg_put mid (set_msg mid (if is_iterate (sc_operations sm) then m\<lparr>m_state := FILE_RECV_ERR_NET\<rparr> else m) p))
          else map_option (\<lambda>p'. (sint (m_ret m), m_buf m, ucast (m_size m) - of_nat HEAD_SIZE, p'))
                 (msg_put mid (set_msg mid (m\<lparr>m_buf := None\<rparr>) p)))"

end
