(* ===== verification/Ref_Table.thy ===== *)
theory Ref_Table
  imports Hmdfs_Prelude
begin

text \<open>
  The interface of the tables that hand out counted references: the open files of a
  peer and the pending messages. A client of such a table takes a reference,
  works with the object and puts the reference; the locale states what the table
  promises for that and what follows for the client.
\<close>

locale ref_table =
  fixes inv :: "'s \<Rightarrow> bool"
    and find :: "'k \<Rightarrow> 's \<Rightarrow> 'e + 'f"
    and get :: "'k \<Rightarrow> 's \<Rightarrow> ('e + 'f) \<times> 's"
    and put :: "'f \<Rightarrow> 's \<Rightarrow> 's option"
  assumes get_absent: "inv s \<Longrightarrow> find k s = Inl e \<Longrightarrow> get k s = (Inl e, s)"
    and get_found: "inv s \<Longrightarrow> find k s = Inr f \<Longrightarrow> \<exists>s1. get k s = (Inr f, s1) \<and> put f s1 = Some s"
begin

text \<open>A client that only looks at the object leaves the table as it was, and its put does not fault.\<close>

lemma borrow:
  assumes "inv s"
  shows "(case get k s of
            (Inl e, s1) \<Rightarrow> Some (err e, s1)
          | (Inr f, s1) \<Rightarrow> map_option (\<lambda>s2. (work f, s2)) (put f s1))
       = Some (case find k s of Inl e \<Rightarrow> err e | Inr f \<Rightarrow> work f, s)"
proof (cases "find k s")
  case (Inl e)
  with get_absent [OF assms] show ?thesis by simp
next
  case (Inr f)
  with get_found [OF assms] show ?thesis by fastforce
qed

lemma get_cases:
  assumes "inv s"
  obtains (absent) e where "find k s = Inl e" "get k s = (Inl e, s)"
  | (found) f s1 where "find k s = Inr f" "get k s = (Inr f, s1)" "put f s1 = Some s"
  using get_absent [OF assms] get_found [OF assms] by (cases "find k s") blast+

end

end
