(* ===== verification/Msg_Life.thy ===== *)
theory Msg_Life
  imports Msg_Table Ref_Table
begin

text \<open>
  The life of a message: every received buffer has exactly one owner, from the
  receive path (\<open>hmdfs_recv_mesg_callback\<close>) through the works and the entries of
  the table to the waiter that takes it; a request gets its response; and a peer
  that goes offline leaves no one waiting. Two ways to lose a buffer are shown.
\<close>

section \<open>Every buffer has one owner\<close>

definition hold :: "msg \<Rightarrow> nat option" where
  "hold m = (case m_type m of MSG_IDR_MESSAGE_SYNC \<Rightarrow> m_buf m | MSG_IDR_MESSAGE_ASYNC \<Rightarrow> m_out_buf m | _ \<Rightarrow> None)"

definition msg_ok :: "msg \<Rightarrow> bool" where
  "msg_ok m \<longleftrightarrow> m_ref m \<ge> 1 \<and> (m_type m \<noteq> MSG_IDR_MESSAGE_SYNC \<longrightarrow> m_buf m = None) \<and>
     (m_type m \<noteq> MSG_IDR_MESSAGE_ASYNC \<longrightarrow> m_out_buf m = None) \<and> (m_valid m = MSG_Q_SEND \<longrightarrow> m_buf m = None)"

text \<open>The table of messages hands out references as the table of open files does.\<close>

definition find_msg :: "nat \<times> hmdfs_cmd \<Rightarrow> peer \<Rightarrow> unit + nat" where
  "find_msg = (\<lambda>(mid, ops) p. case msg_idr p mid of
     Some m \<Rightarrow> if m_cmd m = command ops then Inr mid else Inl () | None \<Rightarrow> Inl ())"

definition get_msg :: "nat \<times> hmdfs_cmd \<Rightarrow> peer \<Rightarrow> (unit + nat) \<times> peer" where
  "get_msg = (\<lambda>(mid, ops) p. case hmdfs_find_msg_head p mid ops of
     (None, p1) \<Rightarrow> (Inl (), p1) | (Some m, p1) \<Rightarrow> (Inr mid, p1))"

interpretation messages: ref_table "\<lambda>p. \<forall>i m. msg_idr p i = Some m \<longrightarrow> msg_ok m" find_msg get_msg msg_put
proof
  fix p k e
  assume "find_msg k p = Inl e"
  then show "get_msg k p = (Inl e, p)"
    by (cases k) (auto simp: find_msg_def get_msg_def hmdfs_find_msg_head_def split: option.splits if_splits)
next
  fix p k f
  assume "\<forall>i m. msg_idr p i = Some m \<longrightarrow> msg_ok m" and f: "find_msg k p = Inr f"
  moreover from f obtain ops m where k: "k = (f, ops)" "msg_idr p f = Some m" "m_cmd m = command ops"
    by (cases k) (auto simp: find_msg_def split: option.splits if_splits)
  ultimately have "m_ref m \<ge> 1" by (auto simp: msg_ok_def)
  moreover have "set_msg f m (set_msg f n p) = p" for n using k(2) by (simp add: set_msg_def fun_upd_idem)
  ultimately show "\<exists>p1. get_msg k p = (Inr f, p1) \<and> msg_put f p1 = Some p"
    using k by (simp add: get_msg_def hmdfs_find_msg_head_def msg_put_def kref_put_lock_def Let_def set_msg_def fun_upd_idem)
qed

text \<open>A response that comes when its message waits no more changes nothing.\<close>

lemma late_response:
  assumes "\<forall>i m. msg_idr p i = Some m \<longrightarrow> msg_ok m" "msg_idr p (unat (msg_id head)) = Some m"
    and "m_type m = MSG_IDR_MESSAGE_SYNC" "m_valid m \<noteq> MSG_Q_SEND"
  shows "hmdfs_response_handle_sync p head buf = Some (- EINVAL, p)"
proof -
  from assms(1) show ?thesis
  proof (cases rule: messages.get_cases [where k = "(unat (msg_id head), operations head)"])
    case (found f s1)
    then have "f = unat (msg_id head)" by (auto simp: find_msg_def split: option.splits if_splits)
    with found(2,3) assms(2-4) show ?thesis
      by (auto simp: hmdfs_response_handle_sync_def get_msg_def hmdfs_find_msg_head_def Let_def split: if_splits)
  qed (use assms(2) in \<open>auto simp: find_msg_def hmdfs_response_handle_sync_def hmdfs_find_msg_head_def Let_def split: if_splits\<close>)
qed

definition msg_holds :: "peer \<Rightarrow> nat \<Rightarrow> nat \<Rightarrow> bool" where
  "msg_holds p i x \<longleftrightarrow> (\<exists>m. msg_idr p i = Some m \<and> hold m = Some x)"

definition work_bufs :: "peer \<Rightarrow> nat list" where
  "work_bufs p = List.map_filter w_buf (works p)"

text \<open>
  The buffers of the heap are those of the entries, those of the queued works,
  and the one in hand; no two of them share a buffer.
\<close>

definition owned :: "peer \<Rightarrow> nat option \<Rightarrow> bool" where
  "owned p b \<longleftrightarrow>
     (\<forall>i m. msg_idr p i = Some m \<longrightarrow> msg_ok m) \<and>
     (\<forall>i j x. msg_holds p i x \<longrightarrow> msg_holds p j x \<longrightarrow> i = j) \<and>
     distinct (work_bufs p) \<and>
     (\<forall>i x. msg_holds p i x \<longrightarrow> x \<notin> set (work_bufs p) \<and> b \<noteq> Some x) \<and>
     (\<forall>x \<in> set (work_bufs p). b \<noteq> Some x) \<and>
     (\<forall>x. heap p x \<noteq> None \<longleftrightarrow> (\<exists>i. msg_holds p i x) \<or> x \<in> set (work_bufs p) \<or> b = Some x)"

lemma map_filter_append [simp]: "List.map_filter f (xs @ ys) = List.map_filter f xs @ List.map_filter f ys"
  by (simp add: List.map_filter_def)

lemma owned_same:
  assumes "owned p b" "msg_idr p' = msg_idr p" "works p' = works p" "heap p' = heap p"
  shows "owned p' b"
  using assms by (simp add: owned_def msg_holds_def work_bufs_def)

lemma owned_kfree:
  assumes "owned p b"
  shows "\<exists>p'. kfree b p = Some p' \<and> owned p' None \<and> msg_idr p' = msg_idr p"
proof (cases b)
  case None
  then show ?thesis using assms by (simp add: kfree_def)
next
  case (Some x)
  then have "heap p x \<noteq> None" using assms by (simp add: owned_def)
  moreover have "msg_holds (p\<lparr>heap := (heap p)(x := None)\<rparr>) = msg_holds p" "work_bufs (p\<lparr>heap := (heap p)(x := None)\<rparr>) = work_bufs p"
    by (simp_all add: msg_holds_def work_bufs_def fun_eq_iff)
  then have "owned (p\<lparr>heap := (heap p)(x := None)\<rparr>) None"
    using assms Some unfolding owned_def by auto
  ultimately show ?thesis using Some by (simp add: kfree_def)
qed

lemma owned_set_msg:
  assumes "owned p b" "msg_idr p i = Some m" "hold m' = hold m" "msg_ok m'"
  shows "owned (set_msg i m' p) b"
proof -
  have "msg_holds (set_msg i m' p) = msg_holds p"
    using assms(2,3) by (auto simp: msg_holds_def set_msg_def fun_eq_iff)
  then show ?thesis
    using assms unfolding owned_def by (auto simp: set_msg_def work_bufs_def)
qed

lemma owned_give:
  assumes "owned p b" "msg_idr p i = Some m" "hold m = None" "hold m' = b" "msg_ok m'"
  shows "owned (set_msg i m' p) None"
proof -
  have "msg_holds (set_msg i m' p) j x \<longleftrightarrow> msg_holds p j x \<or> (j = i \<and> b = Some x)" for j x
    using assms(2-4) by (auto simp: msg_holds_def set_msg_def)
  then show ?thesis
    using assms unfolding owned_def by (auto simp: set_msg_def work_bufs_def)
qed

lemma owned_add_work:
  assumes "owned p (w_buf w)"
  shows "owned (p\<lparr>works := works p @ [w]\<rparr>) None"
proof -
  let ?p = "p\<lparr>works := works p @ [w]\<rparr>"
  have "msg_holds ?p = msg_holds p" "heap ?p = heap p" "msg_idr ?p = msg_idr p"
    "work_bufs ?p = work_bufs p @ (case w_buf w of None \<Rightarrow> [] | Some x \<Rightarrow> [x])"
    by (simp_all add: msg_holds_def work_bufs_def fun_eq_iff List.map_filter_def split: option.split)
  then show ?thesis using assms unfolding owned_def by (cases "w_buf w") auto
qed

lemma owned_take_work:
  assumes "owned p None" "i < length (works p)"
  shows "owned (p\<lparr>works := take i (works p) @ drop (Suc i) (works p)\<rparr>) (w_buf (works p ! i))"
proof -
  let ?w = "works p ! i" and ?p = "p\<lparr>works := take i (works p) @ drop (Suc i) (works p)\<rparr>"
  have "works p = take i (works p) @ ?w # drop (Suc i) (works p)" using assms(2) by (simp add: id_take_nth_drop)
  then have wb: "work_bufs p = List.map_filter w_buf (take i (works p)) @ List.map_filter w_buf [?w] @ List.map_filter w_buf (drop (Suc i) (works p))"
    unfolding work_bufs_def by (metis append_Cons append_Nil map_filter_append)
  have eqs: "msg_holds ?p = msg_holds p" "heap ?p = heap p" "msg_idr ?p = msg_idr p"
    "work_bufs ?p = List.map_filter w_buf (take i (works p)) @ List.map_filter w_buf (drop (Suc i) (works p))"
    "List.map_filter w_buf [?w] = (case w_buf ?w of None \<Rightarrow> [] | Some x \<Rightarrow> [x])"
    by (simp_all add: msg_holds_def work_bufs_def fun_eq_iff List.map_filter_def split: option.split)
  show ?thesis
    using assms(1) unfolding owned_def eqs wb by (cases "w_buf ?w") auto
qed

lemma owned_release:
  assumes "owned p None" "msg_idr p i = Some m"
  shows "owned (p\<lparr>msg_idr := (msg_idr p)(i := None)\<rparr>) (hold m)"
proof -
  have "msg_holds (p\<lparr>msg_idr := (msg_idr p)(i := None)\<rparr>) j x \<longleftrightarrow> msg_holds p j x \<and> j \<noteq> i" for j x
    by (auto simp: msg_holds_def)
  moreover have "hold m = Some x \<longleftrightarrow> msg_holds p i x" for x using assms(2) by (simp add: msg_holds_def)
  ultimately show ?thesis
    using assms(1) unfolding owned_def by (auto simp: work_bufs_def)
qed

lemma owned_take_buf:
  assumes "owned p None" "msg_idr p i = Some m" "hold m' = None" "msg_ok m'"
  shows "owned (set_msg i m' p) (hold m)"
proof -
  have "msg_holds (set_msg i m' p) j x \<longleftrightarrow> msg_holds p j x \<and> j \<noteq> i" for j x
    using assms(3) by (auto simp: msg_holds_def set_msg_def)
  moreover have "hold m = Some x \<longleftrightarrow> msg_holds p i x" for x using assms(2) by (simp add: msg_holds_def)
  ultimately show ?thesis
    using assms unfolding owned_def by (auto simp: work_bufs_def set_msg_def)
qed

lemma owned_msg_ok: "owned p b \<Longrightarrow> msg_idr p i = Some m \<Longrightarrow> msg_ok m"
  by (simp add: owned_def)

lemma owned_ref: "owned p b \<Longrightarrow> msg_idr p i = Some m \<Longrightarrow> owned (set_msg i (m\<lparr>m_ref := Suc n\<rparr>) p) b"
  by (rule owned_set_msg) (auto simp: hold_def msg_ok_def dest: owned_msg_ok split: MSG_IDR_TYPE.split)

lemma set_msg_idr [simp]: "msg_idr (set_msg i m p) = (msg_idr p)(i := Some m)"
  "set_msg i m (set_msg i n p) = set_msg i m p" "heap (set_msg i m p) = heap p" "works (set_msg i m p) = works p"
  by (simp_all add: set_msg_def)

lemma set_msg_id: "msg_idr p i = Some m \<Longrightarrow> set_msg i m p = p"
  by (cases p) (simp add: set_msg_def fun_upd_idem)

lemma kref_put_keep:
  "msg_idr p i = Some m \<Longrightarrow> m_ref m > 1 \<Longrightarrow> kref_put_lock r i p = Some (set_msg i (m\<lparr>m_ref := m_ref m - 1\<rparr>) p)"
  by (simp add: kref_put_lock_def)

text \<open>The delayed work of an asynchronous request has been queued, and no earlier response waits in it.\<close>

definition async_ready :: "peer \<Rightarrow> hmdfs_head_cmd \<Rightarrow> bool" where
  "async_ready p head = (case msg_idr p (unat (msg_id head)) of
      None \<Rightarrow> True
    | Some m \<Rightarrow> m_type m = MSG_IDR_MESSAGE_ASYNC \<longrightarrow> m_wfired m \<and> (m_queued m \<longrightarrow> m_out_buf m = None))"

definition same_refs :: "peer \<Rightarrow> peer \<Rightarrow> nat \<Rightarrow> bool" where
  "same_refs p p' i \<longleftrightarrow> map_option m_ref (msg_idr p' i) = map_option m_ref (msg_idr p i)"

text \<open>The entry a response is for counts its references alone: requests for a page are answered elsewhere.\<close>

definition counted :: "peer \<Rightarrow> hmdfs_head_cmd \<Rightarrow> nat \<Rightarrow> bool" where
  "counted p head i \<longleftrightarrow> (i = unat (msg_id head) \<longrightarrow>
     (\<forall>m. msg_idr p i = Some m \<longrightarrow> m_type m = MSG_IDR_MESSAGE_SYNC \<or> m_type m = MSG_IDR_MESSAGE_ASYNC))"

definition accounted :: "peer \<Rightarrow> hmdfs_head_cmd \<Rightarrow> nat option \<Rightarrow> (int \<times> peer) option \<Rightarrow> bool" where
  "accounted p head b res \<longleftrightarrow> (\<exists>ret p'. res = Some (ret, p') \<and> owned p' (if ret < 0 then b else None) \<and>
     (\<forall>i. counted p head i \<longrightarrow> same_refs p p' i))"

lemma response_sync_accounts:
  assumes o: "owned p b" and r: "async_ready p head"
  shows "accounted p head b (hmdfs_response_handle_sync p head b)"
proof -
  let ?i = "unat (msg_id head)"
  show ?thesis
  proof (cases "hmdfs_find_msg_head p ?i (operations head)")
    case (Pair f p1)
    show ?thesis
    proof (cases f)
      case None
      then have "p1 = p" using Pair by (auto simp: hmdfs_find_msg_head_def Let_def split: option.splits if_splits)
      then show ?thesis using None Pair o by (auto simp: accounted_def hmdfs_response_handle_sync_def same_refs_def)
    next
      case (Some m)
      then obtain m0 where m0: "msg_idr p ?i = Some m0" "m = m0\<lparr>m_ref := m_ref m0 + 1\<rparr>" "p1 = set_msg ?i m p"
        using Pair by (auto simp: hmdfs_find_msg_head_def Let_def split: option.splits if_splits)
      have ok: "msg_ok m0" using owned_msg_ok [OF o m0(1)] .
      have eq: "m0\<lparr>m_ref := m_ref m0\<rparr> = m0" by simp
      note unf = hmdfs_response_handle_sync_def Pair Some msg_put_def mp_put_def Let_def
      show ?thesis
      proof (cases "m_type m0")
        case MSG_IDR_MESSAGE_SYNC
        show ?thesis
        proof (cases "m_valid m0 = MSG_Q_SEND")
          case True
          let ?m = "m0\<lparr>m_ret := ret_code head, m_size := data_len head, m_buf := b, m_valid := MSG_Q_END_RECV\<rparr>"
          have "hmdfs_response_handle_sync p head b = Some (0, set_msg ?i ?m p)"
            using True MSG_IDR_MESSAGE_SYNC m0 ok
            by (simp add: unf hmdfs_response_wakeup_def kref_put_lock_def msg_ok_def)
          moreover have "owned (set_msg ?i ?m p) None"
            using True MSG_IDR_MESSAGE_SYNC ok by (intro owned_give [OF o m0(1)]) (auto simp: hold_def msg_ok_def)
          ultimately show ?thesis using m0(1) by (auto simp: accounted_def same_refs_def)
        next
          case False
          then have "hmdfs_response_handle_sync p head b = Some (- EINVAL, p)"
            using MSG_IDR_MESSAGE_SYNC m0 ok by (simp add: unf kref_put_lock_def msg_ok_def set_msg_id)
          then show ?thesis using o by (auto simp: accounted_def same_refs_def)
        qed
      next
        case MSG_IDR_MESSAGE_ASYNC
        then have w: "m_wfired m0" "m_queued m0 \<longrightarrow> m_out_buf m0 = None" using r m0(1) by (auto simp: async_ready_def)
        show ?thesis
        proof (cases "m_queued m0")
          case True
          let ?m = "m0\<lparr>m_out_buf := b, m_out_len := ucast (data_len head) - of_nat HEAD_SIZE, m_resp_ret := ret_code head, m_queued := True\<rparr>"
          have "hmdfs_response_handle_sync p head b = Some (0, set_msg ?i ?m p)"
            using True MSG_IDR_MESSAGE_ASYNC m0 w ok by (simp add: unf response_async_def kref_put_lock_def msg_ok_def)
          moreover have "owned (set_msg ?i ?m p) None"
            using True MSG_IDR_MESSAGE_ASYNC ok w by (intro owned_give [OF o m0(1)]) (auto simp: hold_def msg_ok_def)
          ultimately show ?thesis using m0(1) by (auto simp: accounted_def same_refs_def)
        next
          case False
          then have "hmdfs_response_handle_sync p head b = Some (- EINVAL, p)"
            using MSG_IDR_MESSAGE_ASYNC m0 w ok by (simp add: unf response_async_def kref_put_lock_def msg_ok_def set_msg_id)
          then show ?thesis using o by (auto simp: accounted_def same_refs_def)
        qed
      qed (use m0 owned_ref [OF o m0(1), of "m_ref m0"] in \<open>auto simp: unf accounted_def same_refs_def counted_def\<close>)
    qed
  qed
qed


lemma same_refs_idr: "msg_idr p' = msg_idr p \<Longrightarrow> same_refs p p' i"
  by (simp add: same_refs_def)

lemma accounted_err: "owned p b \<Longrightarrow> ret < 0 \<Longrightarrow> accounted p head b (Some (ret, p))"
  by (simp add: accounted_def same_refs_idr)

lemma handle_async_accounts: "owned p b \<Longrightarrow> accounted p head b (Some (hmdfs_msg_handle_async env p h b fn))"
  using owned_add_work [of p "\<lparr>w_fn = fn, w_head = h, w_buf = b\<rparr>"]
  by (auto simp: accounted_def hmdfs_msg_handle_async_def same_refs_idr)

lemma request_sync_accounts:
  assumes "owned p b"
  shows "\<exists>p'. hmdfs_request_handle_sync env p head b = Some p' \<and> owned p' None \<and> msg_idr p' = msg_idr p"
  using owned_kfree [OF assms] owned_kfree [OF owned_same [OF assms], of "p\<lparr>served := served p @ [Served head (buf_data p b)]\<rparr>"]
  by (auto simp: hmdfs_request_handle_sync_def)

lemma request_recv_accounts:
  assumes "owned p b"
  shows "accounted p head b (hmdfs_request_recv env p h b)"
proof (cases "file_cmd (command (operations h))")
  case None
  then show ?thesis using assms by (simp add: hmdfs_request_recv_def accounted_def same_refs_idr)
next
  case (Some c)
  obtain p' where "hmdfs_request_handle_sync env p h b = Some p'" "owned p' None" "msg_idr p' = msg_idr p"
    using request_sync_accounts [OF assms] by blast
  then have "accounted p head b (map_option (\<lambda>p'. (0, p')) (hmdfs_request_handle_sync env p h b))"
    by (auto simp: accounted_def same_refs_idr)
  then show ?thesis
    using Some accounted_err [OF assms] handle_async_accounts [OF assms]
    by (auto simp: hmdfs_request_recv_def)
qed

lemma response_recv_accounts:
  assumes "owned p b" "async_ready p head"
  shows "accounted p head b (hmdfs_response_recv env p head b)"
  using response_sync_accounts [OF assms] handle_async_accounts [OF assms(1)] accounted_err [OF assms(1)]
  by (auto simp: hmdfs_response_recv_def split: option.split)

lemma verdict_head: "hmdfs_message_verify h d = Some v \<Longrightarrow> msg_id (v_head v) = msg_id h"
  by (auto simp: hmdfs_message_verify_def handle_bad_message_def split: option.splits if_splits bind_splits)



section \<open>Works and waiters\<close>

text \<open>The descriptor of a slice and the content it announces lie inside the buffer.\<close>

definition slice_ok :: "byte list option \<Rightarrow> bool" where
  "slice_ok data = (case data of
      None \<Rightarrow> False
    | Some d \<Rightarrow> sizeof slice_descriptor \<le> length d \<and>
        (case fld slice_descriptor ''content_size'' d of None \<Rightarrow> False | Some n \<Rightarrow> n + sizeof slice_descriptor \<le> length d))"

lemma hold_update [simp]: "hold (m\<lparr>m_state := st\<rparr>) = hold m" "hold (m\<lparr>m_filp := f\<rparr>) = hold m"
  "hold (m\<lparr>m_fslices := n\<rparr>) = hold m" "hold (m\<lparr>m_ref := n\<rparr>) = hold m"
  by (simp_all add: hold_def split: MSG_IDR_TYPE.split)

lemma readfile_slice_ok:
  assumes "slice_ok data"
  shows "\<exists>ret m'. hmdfs_readfile_slice env m data = Some (ret, m') \<and> hold m' = hold m \<and> m_ref m' = m_ref m \<and>
    m_type m' = m_type m \<and> m_valid m' = m_valid m \<and> m_buf m' = m_buf m \<and> m_out_buf m' = m_out_buf m"
proof -
  obtain d n where d: "data = Some d" "16 \<le> length d" "fld slice_descriptor ''content_size'' d = Some n" "n + 16 \<le> length d"
    using assms by (auto simp: slice_ok_def layout_simps split: option.splits)
  have f: "\<exists>v. fld slice_descriptor g d = Some v" if "g \<in> {''slice_size'', ''slice_sn'', ''num_slices''}" for g
    using that d(2) by (intro fld_total) (auto simp: layout_simps)
  obtain a b c where "fld slice_descriptor ''slice_size'' d = Some a" "fld slice_descriptor ''slice_sn'' d = Some b"
    "fld slice_descriptor ''num_slices'' d = Some c"
    using f [of "''slice_size''"] f [of "''slice_sn''"] f [of "''num_slices''"] by auto
  moreover have "sizeof slice_descriptor = 16" by (simp add: layout_simps)
  moreover have "\<not> length (drop 16 d) < n" using d(4) by simp
  ultimately have e: "hmdfs_readfile_slice env m data = (case m_filp m of None \<Rightarrow> Some (- EINVAL, m) | Some file \<Rightarrow>
      if m_state m \<noteq> FILE_RECV_PROCESS then Some (- EBUSY, m)
      else let w = (case me_write env of None \<Rightarrow> int n | Some n \<Rightarrow> n);
               m1 = m\<lparr>m_filp := Some (write_at file (unat (of_nat a * of_nat b :: u32)) (take (nat w) (take n (drop 16 d)))), m_fslices := m_fslices m + 1\<rparr>
        in if w < 0 then Some (w, m\<lparr>m_state := FILE_RECV_ERR_SPC\<rparr>)
           else Some (0, if m_fslices m1 \<ge> c then m1\<lparr>m_state := FILE_RECV_SUCC\<rparr> else m1))"
    unfolding hmdfs_readfile_slice_def Let_def d(1) by (simp only: Option.bind.simps d(3) if_False)
  show ?thesis
    unfolding e by (cases "m_filp m") (simp_all add: Let_def)
qed

definition work_readable :: "peer \<Rightarrow> work_handler_desp \<Rightarrow> bool" where
  "work_readable p w \<longleftrightarrow> w_fn w = File_Response_Work \<longrightarrow>
     ret_code (w_head w) \<noteq> 0 \<or> data_len (w_head w) = of_nat HEAD_SIZE \<or> slice_ok (buf_data p (w_buf w))"

lemma file_response_ok:
  assumes "ret_code head \<noteq> 0 \<or> data_len head = of_nat HEAD_SIZE \<or> slice_ok data"
  shows "\<exists>woken m'. file_response env m head data = Some (woken, m') \<and> hold m' = hold m \<and> m_ref m' = m_ref m \<and>
    m_type m' = m_type m \<and> m_valid m' = m_valid m \<and> m_buf m' = m_buf m \<and> m_out_buf m' = m_out_buf m"
  using assms readfile_slice_ok [of data env m] by (fastforce simp: file_response_def)

lemma file_work_accounts:
  assumes o: "owned p b" and r: "ret_code head \<noteq> 0 \<or> data_len head = of_nat HEAD_SIZE \<or> slice_ok (buf_data p b)"
  shows "\<exists>p'. hmdfs_file_response_work_fn env p head b = Some p' \<and> owned p' None \<and> (\<forall>i. same_refs p p' i)"
proof -
  let ?i = "unat (msg_id head)"
  have free: "\<exists>p'. kfree b p = Some p' \<and> owned p' None \<and> (\<forall>i. same_refs p p' i)"
    using owned_kfree [OF o] by (auto simp: same_refs_idr)
  obtain f p1 where Pair: "hmdfs_find_msg_head p ?i (operations head) = (f, p1)" by fastforce
  show ?thesis
  proof (cases f)
    case None
    then have "p1 = p" using Pair by (auto simp: hmdfs_find_msg_head_def Let_def split: option.splits if_splits)
    then show ?thesis using None Pair free by (simp add: hmdfs_file_response_work_fn_def)
  next
    case (Some m)
    then obtain m0 where m0: "msg_idr p ?i = Some m0" "m = m0\<lparr>m_ref := m_ref m0 + 1\<rparr>" "p1 = set_msg ?i m p"
      using Pair by (auto simp: hmdfs_find_msg_head_def Let_def split: option.splits if_splits)
    have ok: "msg_ok m0" using owned_msg_ok [OF o m0(1)] .
    note unf = hmdfs_file_response_work_fn_def Pair Some msg_put_def Let_def
    show ?thesis
    proof (cases "m_valid m0 = MSG_Q_SEND")
      case False
      then show ?thesis
        using free m0 ok by (simp add: unf kref_put_lock_def msg_ok_def set_msg_id)
    next
      case True
      have "buf_data p1 b = buf_data p b" using m0(3) by (simp add: buf_data_def split: option.split)
      then obtain woken m1 where fr: "file_response env m head (buf_data p1 b) = Some (woken, m1)" and
        m1: "hold m1 = hold m" "m_ref m1 = m_ref m" "m_type m1 = m_type m" "m_valid m1 = m_valid m" "m_buf m1 = m_buf m" "m_out_buf m1 = m_out_buf m"
        using file_response_ok [of head "buf_data p1 b" env m] r by auto
      define m2 where "m2 = (case woken of None \<Rightarrow> m1
        | Some ret \<Rightarrow> m1\<lparr>m_ret := of_int ret, m_size := of_nat HEAD_SIZE, m_buf := None, m_valid := MSG_Q_END_RECV\<rparr>)"
      have nb: "m_buf m0 = None" using ok True by (simp add: msg_ok_def)
      have m2: "m_ref m2 = m_ref m0 + 1" "hold (m2\<lparr>m_ref := m_ref m0\<rparr>) = hold m0" "msg_ok (m2\<lparr>m_ref := m_ref m0\<rparr>)"
        using m1 m0(2) nb ok True by (auto simp: m2_def hold_def msg_ok_def split: option.split MSG_IDR_TYPE.splits)
      let ?p = "set_msg ?i (m2\<lparr>m_ref := m_ref m0\<rparr>) p"
      have p3: "(case woken of None \<Rightarrow> set_msg ?i m1 p1
          | Some ret \<Rightarrow> hmdfs_response_wakeup ?i (of_int ret) (of_nat HEAD_SIZE) None (set_msg ?i m1 p1)) = set_msg ?i m2 p"
        using m0(3) by (simp add: m2_def hmdfs_response_wakeup_def split: option.split)
      have "msg_put ?i (set_msg ?i m2 p) = Some ?p"
        using m2(1) ok by (simp add: msg_put_def kref_put_lock_def msg_ok_def)
      then have "hmdfs_file_response_work_fn env p head b = kfree b ?p"
        using True m0(2) fr p3 unfolding hmdfs_file_response_work_fn_def Let_def Pair Some by simp
      moreover have "owned ?p b" using owned_set_msg [OF o m0(1) m2(2,3)] .
      ultimately show ?thesis using owned_kfree [of ?p b] m0(1) by (auto simp: same_refs_def)
    qed
  qed
qed

text \<open>
  Running a queued work, in whatever order the queue picks it,
  frees the buffer it carries and no other; the slice it may hold is one whose
  announced size fits the buffer.
\<close>

theorem run_work_accounts:
  assumes "owned p None" and "i < length (works p)" and "work_readable p (works p ! i)"
  shows "\<exists>p'. run_work env i p = Some p' \<and> owned p' None \<and> length (works p') = length (works p) - 1 \<and> (\<forall>k. same_refs p p' k)"
proof -
  let ?w = "works p ! i" and ?p = "p\<lparr>works := take i (works p) @ drop (Suc i) (works p)\<rparr>"
  have o: "owned ?p (w_buf ?w)" using owned_take_work [OF assms(1,2)] .
  have refs: "same_refs ?p q k = same_refs p q k" for q k by (simp add: same_refs_def)
  have len: "length (works ?p) = length (works p) - 1" using assms(2) by simp
  have wk: "kfree b q = Some q' \<Longrightarrow> works q' = works q" for b q q' by (auto simp: kfree_def split: option.splits if_splits)
  show ?thesis
  proof (cases "w_fn ?w")
    case Request_Work
    then have "run_work env i p = hmdfs_request_handle_sync env ?p (w_head ?w) (w_buf ?w)"
      using assms(2) by (simp add: run_work_def hmdfs_request_work_fn_def Let_def)
    moreover obtain q where "hmdfs_request_handle_sync env ?p (w_head ?w) (w_buf ?w) = Some q" "owned q None" "msg_idr q = msg_idr ?p"
      using request_sync_accounts [OF o] by blast
    moreover have "works q = works ?p" using calculation(2) by (auto simp: hmdfs_request_handle_sync_def dest: wk split: if_splits)
    ultimately show ?thesis using len by (auto simp: same_refs_def)
  next
    case File_Response_Work
    then have e: "run_work env i p = hmdfs_file_response_work_fn env ?p (w_head ?w) (w_buf ?w)"
      using assms(2) by (simp add: run_work_def Let_def)
    have "buf_data ?p b = buf_data p b" for b by (simp add: buf_data_def split: option.split)
    then obtain q where q: "hmdfs_file_response_work_fn env ?p (w_head ?w) (w_buf ?w) = Some q" "owned q None" "\<forall>k. same_refs ?p q k"
      using file_work_accounts [OF o, of "w_head ?w" env] assms(3) File_Response_Work by (auto simp: work_readable_def)
    moreover have "works q = works ?p"
      using q(1) by (auto simp: hmdfs_file_response_work_fn_def hmdfs_find_msg_head_def msg_put_def kref_put_lock_def
          hmdfs_response_wakeup_def set_msg_def Let_def dest!: wk split: option.splits if_splits bind_splits)
    ultimately show ?thesis using e refs len by auto
  qed
qed

lemma owned_drop_empty:
  assumes "owned p b" "msg_idr p i = Some m" "hold m = None"
  shows "owned (p\<lparr>msg_idr := (msg_idr p)(i := None)\<rparr>) b"
proof -
  have "msg_holds (p\<lparr>msg_idr := (msg_idr p)(i := None)\<rparr>) = msg_holds p"
    using assms(2,3) by (auto simp: msg_holds_def fun_eq_iff)
  then show ?thesis using assms(1) unfolding owned_def by (auto simp: work_bufs_def)
qed

lemma owned_put_msg:
  assumes "owned p None" "msg_idr p i = Some m" "m_type m = MSG_IDR_MESSAGE_SYNC"
  shows "\<exists>p'. msg_put i p = Some p' \<and> owned p' None \<and>
    (if m_ref m > 1 then msg_idr p' i = Some (m\<lparr>m_ref := m_ref m - 1\<rparr>) else msg_idr p' i = None)"
proof (cases "m_ref m > 1")
  case True
  then show ?thesis
    using owned_ref [OF assms(1,2), of "m_ref m - 2"] assms(2) by (simp add: msg_put_def kref_put_lock_def numeral_2_eq_2 Suc_diff_Suc)
next
  case False
  have "hold m = m_buf m" using assms(3) by (simp add: hold_def)
  then show ?thesis
    using False assms(2) owned_kfree [OF owned_release [OF assms(1,2)]] by (auto simp: msg_put_def kref_put_lock_def)
qed

text \<open>
  A waiter that is woken takes the response out of its entry and
  owns it; one that times out or is interrupted gets none, and what may have
  arrived stays with the entry. Either way it drops its reference, and the entry
  is gone when that was the last one.
\<close>

theorem wait_end_accounts:
  assumes o: "owned p None" and m: "msg_idr p mid = Some m" "m_type m = MSG_IDR_MESSAGE_SYNC"
  shows "\<exists>ret out_buf out_len p'. request_wait_end sm mid time_left p = Some (ret, out_buf, out_len, p') \<and> owned p' out_buf \<and>
    out_buf = (if time_left \<le> 0 then None else m_buf m) \<and> ret = (if time_left \<le> 0 then - ETIME else sint (m_ret m)) \<and>
    (msg_idr p' mid = None \<longleftrightarrow> m_ref m \<le> 1)"
proof (cases "time_left \<le> 0")
  case True
  let ?m = "if is_iterate (sc_operations sm) then m\<lparr>m_state := FILE_RECV_ERR_NET\<rparr> else m"
  have "msg_ok ?m" using owned_msg_ok [OF o m(1)] by (simp add: msg_ok_def)
  then have "owned (set_msg mid ?m p) None" using owned_set_msg [OF o m(1), of ?m] by simp
  from owned_put_msg [OF this, of mid ?m] show ?thesis
    using True m by (cases "m_ref m > 1") (auto simp: request_wait_end_def)
next
  case False
  let ?m = "m\<lparr>m_buf := None\<rparr>" and ?q = "set_msg mid (m\<lparr>m_buf := None\<rparr>) p"
  have ok: "msg_ok m" using owned_msg_ok [OF o m(1)] .
  have h: "hold m = m_buf m" "hold ?m = None" using m(2) by (simp_all add: hold_def)
  have ok': "msg_ok ?m" using ok m(2) by (simp add: msg_ok_def)
  have q: "owned ?q (m_buf m)" using owned_take_buf [OF o m(1) h(2) ok'] h(1) by simp
  show ?thesis
  proof (cases "m_ref m > 1")
    case True
    have "owned (set_msg mid (?m\<lparr>m_ref := Suc (m_ref m - 2)\<rparr>) ?q) (m_buf m)" using owned_ref [OF q, of mid ?m "m_ref m - 2"] by simp
    then show ?thesis
      using True False m by (simp add: request_wait_end_def msg_put_def kref_put_lock_def Suc_diff_Suc numeral_2_eq_2)
  next
    case gone: False
    have "owned (?q\<lparr>msg_idr := (msg_idr ?q)(mid := None)\<rparr>) (m_buf m)"
      using owned_drop_empty [OF q, of mid ?m] h(2) by simp
    then show ?thesis
      using gone False m by (simp add: request_wait_end_def msg_put_def kref_put_lock_def kfree_def)
  qed
qed

lemma owned_heap: "owned p b \<Longrightarrow> heap p x \<noteq> None \<longleftrightarrow> (\<exists>i. msg_holds p i x) \<or> x \<in> set (work_bufs p) \<or> b = Some x"
  by (simp add: owned_def)

section \<open>A request and its response\<close>

lemma response_verdict:
  assumes "hmdfs_message_verify h d = Some v" "cmd_flag (operations h) = 1"
  shows "v_err v = 0" "operations (v_head v) = operations h" "msg_id (v_head v) = msg_id h" "data_len (v_head v) = data_len h" "v_sent v = []"
  using assms by (auto simp: hmdfs_message_verify_def handle_bad_message_def cmd_flag_of_def split: option.splits if_splits bind_splits)

definition fresh_msg :: "hmdfs_send_command \<Rightarrow> msg" where
  "fresh_msg sm = new_msg\<lparr>m_filp := (if is_iterate (sc_operations sm) then sc_filp sm else None),
     m_ref := 1, m_type := MSG_IDR_MESSAGE_SYNC, m_cmd := command (sc_operations sm)\<rparr>"

lemma request_send_wait:
  assumes "request_send env sm p = Some (Req_Wait mid, p1)" "msg_idr p (nat (re_idr env)) = None"
  shows "p1 = set_msg mid (fresh_msg sm) p" "msg_idr p mid = None" "mid = nat (re_idr env)" "re_idr env \<ge> 0"
proof -
  have "hmdfs_dec_msg_idr_process ((set_msg i m p)\<lparr>msg_idr_process := msg_idr_process p + 1\<rparr>) = set_msg i m p" for i m
    by (cases p) (simp add: hmdfs_dec_msg_idr_process_def set_msg_def)
  then show "p1 = set_msg mid (fresh_msg sm) p" "msg_idr p mid = None" "mid = nat (re_idr env)" "re_idr env \<ge> 0"
    using assms by (auto simp: request_send_def request_registered_def hmdfs_alloc_msg_idr_def fresh_msg_def Let_def
        split: if_splits option.splits)
qed

lemma response_delivered:
  assumes v: "hmdfs_message_verify h (Some body) = Some v" and flag: "cmd_flag (operations h) = 1"
    and c: "file_cmd (command (operations h)) = Some c" "response_sync_cmd c"
    and m: "msg_idr p (unat (msg_id h)) = Some m" "m_cmd m = command (operations h)" "m_type m = MSG_IDR_MESSAGE_SYNC"
      "m_valid m = MSG_Q_SEND" "m_ref m \<ge> 1"
    and x: "heap p x = Some body"
  shows "\<exists>p'. hmdfs_recv_mesg_callback env p h (Some x) = Some p' \<and> heap p' = heap p \<and> works p' = works p \<and>
    msg_idr p' = (msg_idr p)(unat (msg_id h) :=
      Some (m\<lparr>m_ret := ret_code (v_head v), m_size := data_len h, m_buf := Some x, m_valid := MSG_Q_END_RECV\<rparr>))"
proof -
  note vd = response_verdict [OF v flag]
  let ?p = "p\<lparr>replies := replies p @ v_sent v\<rparr>" and ?i = "unat (msg_id h)"
  let ?m = "m\<lparr>m_ret := ret_code (v_head v), m_size := data_len h, m_buf := Some x, m_valid := MSG_Q_END_RECV\<rparr>"
  have "hmdfs_response_handle_sync ?p (v_head v) (Some x) = Some (0, set_msg ?i ?m ?p)"
    using m vd by (simp add: hmdfs_response_handle_sync_def hmdfs_find_msg_head_def hmdfs_response_wakeup_def msg_put_def
        kref_put_lock_def Let_def)
  then have "hmdfs_recv_mesg_callback env p h (Some x) = Some (set_msg ?i ?m ?p)"
    using v vd flag c x by (simp add: hmdfs_recv_mesg_callback_def buf_data_def hmdfs_response_recv_def cmd_flag_of_def Let_def)
  then show ?thesis by simp
qed

text \<open>
  C33 (functional). A request gets its response: when a request waits and a
  response with its number and command arrives, the waiter returns the code and
  the body the peer sent (or \<open>- EOPNOTSUPP\<close> for a response that fails its check),
  owns the buffer, and leaves the table as it found it.
\<close>

theorem request_response:
  assumes o: "owned p None" and s: "request_send env sm p = Some (Req_Wait mid, p1)"
    and fresh: "msg_idr p (nat (re_idr env)) = None" "re_idr env < 2 ^ 31"
    and h: "msg_id h = of_nat mid" "command (operations h) = command (sc_operations sm)" "cmd_flag (operations h) = 1"
    and c: "file_cmd (command (operations h)) = Some c" "response_sync_cmd c"
    and v: "hmdfs_message_verify h (Some body) = Some v" and x: "heap p x = None"
  shows "\<exists>p2 p3. hmdfs_recv_mesg_callback env' (p1\<lparr>heap := (heap p1)(x := Some body)\<rparr>) h (Some x) = Some p2 \<and>
    request_wait_end sm mid 1 p2 = Some (sint (ret_code (v_head v)), Some x, ucast (data_len h) - of_nat HEAD_SIZE, p3) \<and>
    owned p3 (Some x) \<and> msg_idr p3 = msg_idr p"
proof -
  note w = request_send_wait [OF s fresh(1)]
  let ?p = "p1\<lparr>heap := (heap p1)(x := Some body)\<rparr>"
  have mid: "unat (msg_id h) = mid" 
  proof -
    have "mid < 2 ^ 32" using w(3,4) fresh(2) by (simp add: nat_less_iff)
    then show ?thesis using h(1) by (simp add: unat_of_nat)
  qed
  have m: "msg_idr ?p (unat (msg_id h)) = Some (fresh_msg sm)" using w(1) mid by simp
  have fm: "m_cmd (fresh_msg sm) = command (operations h)" "m_type (fresh_msg sm) = MSG_IDR_MESSAGE_SYNC"
    "m_valid (fresh_msg sm) = MSG_Q_SEND" "m_ref (fresh_msg sm) = 1"
    using h(2) by (simp_all add: fresh_msg_def new_msg_def)
  let ?m = "(fresh_msg sm)\<lparr>m_ret := ret_code (v_head v), m_size := data_len h, m_buf := Some x, m_valid := MSG_Q_END_RECV\<rparr>"
  obtain p2 where p2: "hmdfs_recv_mesg_callback env' ?p h (Some x) = Some p2" "heap p2 = (heap p)(x := Some body)" "works p2 = works p"
    "msg_idr p2 = (msg_idr p)(mid := Some ?m)"
    using response_delivered [OF v h(3) c m fm(1-3), of x env'] fm(4) mid w(1) by auto
  let ?p3 = "p2\<lparr>msg_idr := msg_idr p\<rparr>"
  have idr: "(msg_idr p)(mid := None) = msg_idr p" using w(2) by (simp add: fun_upd_idem)
  have e: "request_wait_end sm mid 1 p2 = Some (sint (ret_code (v_head v)), Some x, ucast (data_len h) - of_nat HEAD_SIZE, ?p3)"
    using p2(4) fm(4) idr by (simp add: request_wait_end_def msg_put_def kref_put_lock_def kfree_def set_msg_def)
  have mh: "msg_holds ?p3 = msg_holds p" "work_bufs ?p3 = work_bufs p" using p2(3) by (simp_all add: msg_holds_def work_bufs_def fun_eq_iff)
  have free: "\<not> msg_holds p i x" "x \<notin> set (work_bufs p)" for i using owned_heap [OF o, of x] x by blast+
  have "owned ?p3 (Some x)" using o free p2(2) unfolding owned_def mh by auto
  then show ?thesis using p2(1) e by auto
qed


text \<open>A small peer: the number 3 is free, buffer 9 is free.\<close>

definition sample_peer :: peer where
  "sample_peer = \<lparr>msg_idr = (\<lambda>_. None), offline_start = False, msg_idr_process = 0, heap = (\<lambda>_. None), works = [], served = [], replies = []\<rparr>"

definition sample_req_env :: req_env where
  "sample_req_env = \<lparr>re_online = True, re_timeout = 4, re_alloc = True, re_idr = 3, re_send = 0, re_prohibit = False\<rparr>"

definition sample_command :: hmdfs_send_command where
  "sample_command = \<lparr>sc_operations = \<lparr>op_reserved = 0, cmd_flag = 0, command = 14, op_reserved2 = 0\<rparr>, sc_data = [1, 2], sc_filp = None, sc_ret_code = 0\<rparr>"

definition sample_response :: hmdfs_head_cmd where
  "sample_response = \<lparr>magic = HMDFS_MSG_MAGIC, version = HMDFS_VERSION, reserved = 0, data_len = 24,
     operations = \<lparr>op_reserved = 0, cmd_flag = 1, command = 14, op_reserved2 = 0\<rparr>, ret_code = of_int (- 2), msg_id = 3, reserved1 = 0\<rparr>"

definition sample_msg_env :: msg_env where
  "sample_msg_env = \<lparr>me_alloc = True, me_cred = True, me_write = None\<rparr>"

lemma sample_owned: "owned sample_peer None"
  by (simp add: owned_def sample_peer_def msg_holds_def work_bufs_def List.map_filter_def)

lemma sample_verified: "hmdfs_message_verify sample_response (Some []) = Some \<lparr>v_err = 0, v_head = sample_response, v_sent = []\<rparr>"
  by (simp add: hmdfs_message_verify_def sample_response_def file_cmd_def file_cmds_def cmd_flag_of_def
      is_reserved_command_def len_ok_def max_len_def message_length_def message_length_file_def message_length_dir_def
      message_length_attr_def body_len_def layout_simps hmdfs_setattr_verify_def both_ways_def)

lemma sample_sent: "request_send sample_req_env sample_command sample_peer = Some (Req_Wait 3, set_msg 3 (fresh_msg sample_command) sample_peer)"
  by (simp add: request_send_def sample_req_env_def hmdfs_alloc_msg_idr_def sample_peer_def request_registered_def
      sample_command_def is_iterate_def file_cmd_def file_cmds_def hmdfs_dec_msg_idr_process_def set_msg_def fresh_msg_def)

theorem request_response_witness:
  "\<exists>p2 p3. hmdfs_recv_mesg_callback sample_msg_env ((set_msg 3 (fresh_msg sample_command) sample_peer)\<lparr>heap := (\<lambda>_. None)(9 := Some [])\<rparr>) sample_response (Some 9) = Some p2 \<and>
    request_wait_end sample_command 3 1 p2 = Some (- 2, Some 9, 0, p3) \<and> msg_idr p3 = (\<lambda>_. None)"
proof -
  have "re_idr sample_req_env < 2 ^ 31" "msg_idr sample_peer (nat (re_idr sample_req_env)) = None" "msg_id sample_response = of_nat 3" "cmd_flag (operations sample_response) = 1"
    "command (operations sample_response) = command (sc_operations sample_command)"
    "file_cmd (command (operations sample_response)) = Some F_SETATTR" "response_sync_cmd F_SETATTR" "heap sample_peer 9 = None"
    by (simp_all add: sample_req_env_def sample_peer_def sample_response_def sample_command_def file_cmd_def file_cmds_def response_sync_cmd_def)
  from request_response [OF sample_owned sample_sent this(2,1,3,5,4,6,7) sample_verified this(8), of sample_msg_env]
  show ?thesis by (auto simp: sample_response_def sample_peer_def)
qed

lemma sample_ready: "async_ready (sample_peer\<lparr>heap := (\<lambda>_. None)(9 := Some [])\<rparr>) sample_response"
  by (simp add: async_ready_def sample_peer_def)

lemma sample_in_hand: "owned (sample_peer\<lparr>heap := (\<lambda>_. None)(9 := Some [])\<rparr>) (Some 9)"
  by (simp add: owned_def sample_peer_def msg_holds_def work_bufs_def List.map_filter_def)


definition sample_work_peer :: peer where
  "sample_work_peer = sample_peer\<lparr>heap := (\<lambda>_. None)(9 := Some [1]),
     works := [\<lparr>w_fn = Request_Work, w_head = sample_response, w_buf = Some 9\<rparr>]\<rparr>"

theorem run_work_accounts_witness: "\<exists>p'. run_work sample_msg_env 0 sample_work_peer = Some p' \<and> owned p' None \<and> length (works p') = 0"
proof -
  have "owned sample_work_peer None"
    by (simp add: owned_def sample_work_peer_def sample_peer_def msg_holds_def work_bufs_def List.map_filter_def)
  moreover have "0 < length (works sample_work_peer)" "work_readable sample_work_peer (works sample_work_peer ! 0)"
    "length (works sample_work_peer) = 1" by (simp_all add: sample_work_peer_def work_readable_def)
  ultimately show ?thesis using run_work_accounts [of sample_work_peer 0 sample_msg_env] by auto
qed

theorem wait_end_accounts_witness:
  "\<exists>p'. request_wait_end sample_command 3 0 (set_msg 3 (fresh_msg sample_command) sample_peer) = Some (- ETIME, None, 0, p') \<and> msg_idr p' 3 = None"
proof -
  let ?p = "set_msg 3 (fresh_msg sample_command) sample_peer"
  have "owned ?p None"
    by (auto simp: owned_def sample_peer_def msg_holds_def work_bufs_def List.map_filter_def hold_def msg_ok_def fresh_msg_def new_msg_def set_msg_def)
  from wait_end_accounts [OF this, of 3 "fresh_msg sample_command" sample_command 0] show ?thesis
    by (auto simp: fresh_msg_def new_msg_def request_wait_end_def)
qed


section \<open>Going offline\<close>

text \<open>What the notification leaves of an entry: a waiter is woken with \<open>- ETIME\<close>, and no delayed work stays queued.\<close>

definition notified :: "msg \<Rightarrow> msg option \<Rightarrow> bool" where
  "notified m res = (case m_type m of
      MSG_IDR_1_0_NONE \<Rightarrow> True
    | MSG_IDR_MESSAGE_SYNC \<Rightarrow> (\<exists>m'. res = Some m' \<and> m_valid m' = MSG_Q_END_RECV \<and> m_ret m' = of_int (- ETIME) \<and> m_ref m' = m_ref m)
    | MSG_IDR_1_0_MESSAGE_SYNC \<Rightarrow> (\<exists>m'. res = Some m' \<and> m_valid m' = MSG_Q_END_RECV \<and> m_ret m' = of_int (- ETIME) \<and> m_ref m' = m_ref m)
    | _ \<Rightarrow> (case res of None \<Rightarrow> True | Some m' \<Rightarrow> \<not> m_queued m'))"

text \<open>Dropping a reference keeps the buffers owned, whatever the release routine of the type frees.\<close>

definition releases :: "(msg \<Rightarrow> nat option) \<Rightarrow> msg \<Rightarrow> bool" where
  "releases r m \<longleftrightarrow> r m = hold m"

lemma owned_put:
  assumes "owned p None" "msg_idr p i = Some m" "releases r m"
  shows "\<exists>p'. kref_put_lock r i p = Some p' \<and> owned p' None \<and>
    msg_idr p' = (msg_idr p)(i := (if m_ref m > 1 then Some (m\<lparr>m_ref := m_ref m - 1\<rparr>) else None))"
proof (cases "m_ref m > 1")
  case True
  then show ?thesis
    using owned_ref [OF assms(1,2), of "m_ref m - 2"] assms(2)
    by (simp add: kref_put_lock_def numeral_2_eq_2 Suc_diff_Suc)
next
  case False
  then show ?thesis
    using assms(2,3) owned_kfree [OF owned_release [OF assms(1,2)]] by (auto simp: kref_put_lock_def releases_def)
qed

lemma owned_served: "owned p b \<Longrightarrow> owned (p\<lparr>served := xs\<rparr>) b"
  by (rule owned_same) simp_all

lemma releases_type:
  "m_type m = MSG_IDR_MESSAGE_SYNC \<Longrightarrow> releases m_buf m"
  "m_type m = MSG_IDR_MESSAGE_ASYNC \<Longrightarrow> releases m_out_buf m"
  "msg_ok m \<Longrightarrow> m_type m \<noteq> MSG_IDR_MESSAGE_SYNC \<Longrightarrow> m_type m \<noteq> MSG_IDR_MESSAGE_ASYNC \<Longrightarrow> releases (\<lambda>_. None) m"
  "msg_ok m \<Longrightarrow> m_type m = MSG_IDR_1_0_MESSAGE_SYNC \<Longrightarrow> releases m_buf m"
  by (auto simp: releases_def hold_def msg_ok_def split: MSG_IDR_TYPE.splits)

lemma put_twice:
  assumes o: "owned p None" "msg_idr p i = Some m" "m_ref m \<ge> 2" and r: "\<And>n. releases r (m\<lparr>m_ref := n\<rparr>)"
  shows "\<exists>p1 p2. kref_put_lock r i p = Some p1 \<and> kref_put_lock r i p1 = Some p2 \<and> owned p2 None \<and>
    msg_idr p2 = (msg_idr p)(i := (if m_ref m > 2 then Some (m\<lparr>m_ref := m_ref m - 2\<rparr>) else None))"
proof -
  let ?m = "m\<lparr>m_ref := m_ref m - 1\<rparr>"
  have "releases r m" using r [of "m_ref m"] by simp
  from owned_put [OF o(1,2) this] obtain p1 where
    p1: "kref_put_lock r i p = Some p1" "owned p1 None" "msg_idr p1 = (msg_idr p)(i := Some ?m)"
    using o(3) by auto
  then have "msg_idr p1 i = Some ?m" by simp
  from owned_put [OF p1(2) this r] p1 o(3) show ?thesis by (auto simp: numeral_2_eq_2)
qed

definition offline_ready :: "msg \<Rightarrow> bool" where
  "offline_ready m \<longleftrightarrow> m_buf m = None \<and> (m_type m = MSG_IDR_MESSAGE_ASYNC \<longrightarrow> m_wfired m)"

text \<open>The three shapes of the notification, on an entry that the loop holds a reference to.\<close>

definition others_kept :: "nat \<Rightarrow> peer \<Rightarrow> peer \<Rightarrow> bool" where
  "others_kept i p p' \<longleftrightarrow> (\<forall>j. j \<noteq> i \<longrightarrow> msg_idr p' j = msg_idr p j)"

lemma offline_wake:
  assumes o: "owned p None" "msg_idr p i = Some m" "m_ref m \<ge> 2" "m_buf m = None"
    and t: "m_type m = MSG_IDR_MESSAGE_SYNC \<or> m_type m = MSG_IDR_1_0_MESSAGE_SYNC"
  shows "\<exists>p' n. msg_put i (hmdfs_response_wakeup i (of_int (- ETIME)) 0 None p) = Some p' \<and> owned p' None \<and> others_kept i p p' \<and>
    msg_idr p' i = Some n \<and> m_valid n = MSG_Q_END_RECV \<and> m_ret n = of_int (- ETIME) \<and> m_ref n = m_ref m - 1"
proof -
  let ?m = "m\<lparr>m_ret := of_int (- ETIME), m_size := 0, m_buf := None, m_valid := MSG_Q_END_RECV\<rparr>"
  have e: "hold ?m = hold m" "msg_ok ?m" "releases m_buf ?m"
    using t o(4) owned_msg_ok [OF o(1,2)] by (auto simp: hold_def msg_ok_def releases_def)
  have w: "hmdfs_response_wakeup i (of_int (- ETIME)) 0 None p = set_msg i ?m p" using o(2) by (simp add: hmdfs_response_wakeup_def)
  have "msg_idr (set_msg i ?m p) i = Some ?m" by simp
  from owned_put [OF owned_set_msg [OF o(1,2) e(1,2)] this e(3)] show ?thesis
    unfolding w msg_put_def others_kept_def using o(3) by auto
qed

lemma releases_update: "r = m_buf \<or> r = m_out_buf \<or> r = (\<lambda>_. None) \<Longrightarrow> releases r (m\<lparr>m_queued := b, m_ref := n\<rparr>) = releases r m"
  "r = m_buf \<or> r = m_out_buf \<or> r = (\<lambda>_. None) \<Longrightarrow> releases r (m\<lparr>m_ref := n\<rparr>) = releases r m"
  by (auto simp: releases_def hold_def split: MSG_IDR_TYPE.split)

lemma offline_cancel:
  assumes o: "owned p None" "msg_idr p i = Some m" "m_ref m \<ge> 2" "releases r m" and r: "r = m_buf \<or> r = m_out_buf \<or> r = (\<lambda>_. None)"
  shows "\<exists>p1 p2. kref_put_lock r i ((set_msg i (m\<lparr>m_queued := False\<rparr>) p)\<lparr>served := xs\<rparr>) = Some p1 \<and>
    kref_put_lock r i p1 = Some p2 \<and> owned p2 None \<and> others_kept i p p2 \<and> (case msg_idr p2 i of None \<Rightarrow> True | Some n \<Rightarrow> \<not> m_queued n)"
proof -
  let ?m = "m\<lparr>m_queued := False\<rparr>" and ?p = "(set_msg i (m\<lparr>m_queued := False\<rparr>) p)\<lparr>served := xs\<rparr>"
  have h: "hold ?m = hold m" "msg_ok ?m"
    using owned_msg_ok [OF o(1,2)] by (auto simp: hold_def msg_ok_def split: MSG_IDR_TYPE.split)
  have "owned ?p None" using owned_served [OF owned_set_msg [OF o(1,2) h]] .
  moreover have "msg_idr ?p i = Some ?m" "m_ref ?m \<ge> 2" using o(3) by simp_all
  moreover have "releases r (?m\<lparr>m_ref := n\<rparr>)" for n using o(4) releases_update(1) [OF r] by simp
  ultimately show ?thesis
    using put_twice [of ?p i ?m r] unfolding others_kept_def by auto
qed

lemma offline_notify_step:
  assumes o: "owned p None" and m: "msg_idr p i = Some m" and rdy: "offline_ready m" and m': "m' = m\<lparr>m_ref := m_ref m + 1\<rparr>"
  shows "\<exists>p'. offline_notify_msg i m' (set_msg i m' p) = Some p' \<and> owned p' None \<and> others_kept i p p' \<and> notified m (msg_idr p' i)"
proof -
  let ?q = "set_msg i m' p"
  have ok: "msg_ok m" "msg_ok m'" using owned_msg_ok [OF o m] m' by (simp_all add: msg_ok_def)
  have q: "owned ?q None" "msg_idr ?q i = Some m'" using owned_ref [OF o m, of "m_ref m"] m' by simp_all
  have r: "m_ref m' \<ge> 2" "m_buf m' = None" "m_type m' = m_type m" "m_ref m' - 1 = m_ref m"
    using m' ok rdy by (auto simp: msg_ok_def offline_ready_def)
  have k: "others_kept i ?q p' = others_kept i p p'" for p' by (simp add: others_kept_def)
  have keep: "\<exists>p'. kref_put_lock rl i ?q = Some p' \<and> owned p' None \<and> others_kept i p p' \<and> msg_idr p' i = Some m" if "releases rl m'" for rl
    using owned_put [OF q that] r(1) m' by (auto simp: others_kept_def)
  have page: "\<exists>p1 p2. hmdfs_wakeup_async_work i m' ?q = Some p1 \<and> asw_put i p1 = Some p2 \<and> owned p2 None \<and> others_kept i p p2 \<and>
      (case msg_idr p2 i of None \<Rightarrow> True | Some n \<Rightarrow> \<not> m_queued n)" if "releases (\<lambda>_. None) m'"
  proof (cases "m_queued m'")
    case True
    then show ?thesis
      using offline_cancel [OF q r(1) that, unfolded k, of "served (set_msg i (m'\<lparr>m_queued := False\<rparr>) ?q) @ [Page_Given_Up i]"]
      by (simp add: hmdfs_wakeup_async_work_def hmdfs_recv_page_work_fn_def asw_done_def asw_put_def)
  next
    case False
    then show ?thesis using keep [OF that] m' by (auto simp: hmdfs_wakeup_async_work_def asw_put_def)
  qed
  note c = offline_notify_msg_def notified_def r(3)
  show ?thesis
  proof (cases "m_type m")
    case MSG_IDR_1_0_NONE
    then have "releases (\<lambda>_. None) (m'\<lparr>m_ref := n\<rparr>)" for n using ok(2) r(3) by (simp add: releases_update releases_type)
    from put_twice [OF q r(1) this] show ?thesis
      using MSG_IDR_1_0_NONE by (auto simp: c head_put_def others_kept_def)
  next
    case MSG_IDR_MESSAGE_ASYNC
    have rl: "releases m_out_buf m'" using MSG_IDR_MESSAGE_ASYNC r(3) by (simp add: releases_type)
    have wf: "m_wfired m'" using rdy MSG_IDR_MESSAGE_ASYNC m' by (simp add: offline_ready_def)
    show ?thesis
    proof (cases "m_queued m'")
      case True
      let ?s = "set_msg i (m'\<lparr>m_queued := False\<rparr>) ?q"
      obtain p1 p2 where "mp_put i (?s\<lparr>served := served ?s @ [Woken i (m_resp_ret m') (buf_data ?s (m_out_buf m'))]\<rparr>) = Some p1"
        "mp_put i p1 = Some p2" "owned p2 None" "others_kept i p p2" "case msg_idr p2 i of None \<Rightarrow> True | Some n \<Rightarrow> \<not> m_queued n"
        using offline_cancel [OF q r(1) rl, unfolded k] unfolding mp_put_def by blast
      then show ?thesis
        using True wf MSG_IDR_MESSAGE_ASYNC by (simp add: c hmdfs_wakeup_parasite_def async_request_cb_on_wakeup_fn_def)
    next
      case False
      then show ?thesis using keep [OF rl] wf MSG_IDR_MESSAGE_ASYNC m' by (auto simp: c hmdfs_wakeup_parasite_def mp_put_def)
    qed
  next
    case MSG_IDR_PAGE
    then show ?thesis using page releases_type(3) [OF ok(2)] r(3) by (auto simp: c)
  next
    case MSG_IDR_1_0_PAGE
    then show ?thesis using page releases_type(3) [OF ok(2)] r(3) by (auto simp: c)
  qed (use offline_wake [OF q r(1,2), unfolded k] r(3,4) in \<open>auto simp: c\<close>)
qed

text \<open>
  What the callbacks are given: an asynchronous request whose work is still queued
  is ended with the response it holds and that response's code, which is \<open>- ETIME\<close>
  while none has come; a page read is given up.
\<close>

definition offline_log :: "peer \<Rightarrow> nat \<Rightarrow> msg \<Rightarrow> served list" where
  "offline_log p i m = (if \<not> m_queued m then [] else case m_type m of
      MSG_IDR_MESSAGE_ASYNC \<Rightarrow> [Woken i (m_resp_ret m) (buf_data p (m_out_buf m))]
    | MSG_IDR_PAGE \<Rightarrow> [Page_Given_Up i]
    | MSG_IDR_1_0_PAGE \<Rightarrow> [Page_Given_Up i]
    | _ \<Rightarrow> [])"

definition offline_logs :: "peer \<Rightarrow> nat \<Rightarrow> nat \<Rightarrow> served list" where
  "offline_logs p k n = concat (map (\<lambda>i. case msg_idr p i of None \<Rightarrow> [] | Some m \<Rightarrow> offline_log p i m) [k ..< k + n])"

lemma kref_put_log:
  assumes "kref_put_lock r i p = Some p'"
  shows "served p' = served p" "heap p' x = None \<or> heap p' x = heap p x"
  using assms by (auto simp: kref_put_lock_def kfree_def set_msg_def split: option.splits if_splits)

lemma wakeup_log: "served (hmdfs_response_wakeup i r l b p) = served p" "heap (hmdfs_response_wakeup i r l b p) = heap p"
  by (auto simp: hmdfs_response_wakeup_def set_msg_def split: option.split)

lemma set_msg_log [simp]: "served (set_msg i m p) = served p" "buf_data (set_msg i m p) b = buf_data p b"
  by (simp_all add: set_msg_def buf_data_def split: option.split)

lemma wakeup_parasite_log:
  assumes "hmdfs_wakeup_parasite i m p = Some p'"
  shows "served p' = served p @ (if m_queued m then [Woken i (m_resp_ret m) (buf_data p (m_out_buf m))] else [])"
    "heap p' x = None \<or> heap p' x = heap p x"
proof -
  from assms have q: "m_queued m \<Longrightarrow> kref_put_lock m_out_buf i ((set_msg i (m\<lparr>m_queued := False\<rparr>) p)
      \<lparr>served := served p @ [Woken i (m_resp_ret m) (buf_data p (m_out_buf m))]\<rparr>) = Some p'" and n: "\<not> m_queued m \<Longrightarrow> p' = p"
    by (auto simp: hmdfs_wakeup_parasite_def async_request_cb_on_wakeup_fn_def mp_put_def split: if_splits)
  show "served p' = served p @ (if m_queued m then [Woken i (m_resp_ret m) (buf_data p (m_out_buf m))] else [])"
    using kref_put_log(1) [OF q] n by (cases "m_queued m") simp_all
  show "heap p' x = None \<or> heap p' x = heap p x"
    using kref_put_log(2) [OF q, of x] n by (cases "m_queued m") simp_all
qed

lemma wakeup_async_work_log:
  assumes "hmdfs_wakeup_async_work i m p = Some p'"
  shows "served p' = served p @ (if m_queued m then [Page_Given_Up i] else [])" "heap p' x = None \<or> heap p' x = heap p x"
proof -
  from assms have q: "m_queued m \<Longrightarrow> kref_put_lock (\<lambda>_. None) i ((set_msg i (m\<lparr>m_queued := False\<rparr>) p)
      \<lparr>served := served p @ [Page_Given_Up i]\<rparr>) = Some p'" and n: "\<not> m_queued m \<Longrightarrow> p' = p"
    by (auto simp: hmdfs_wakeup_async_work_def hmdfs_recv_page_work_fn_def asw_done_def asw_put_def split: if_splits)
  show "served p' = served p @ (if m_queued m then [Page_Given_Up i] else [])"
    using kref_put_log(1) [OF q] n by (cases "m_queued m") simp_all
  show "heap p' x = None \<or> heap p' x = heap p x"
    using kref_put_log(2) [OF q, of x] n by (cases "m_queued m") simp_all
qed

lemma offline_notify_msg_log:
  assumes "offline_notify_msg i m p = Some p'"
  shows "served p' = served p @ offline_log p i m \<and> (heap p' x = None \<or> heap p' x = heap p x)"
proof -
  note puts = head_put_def msg_put_def mp_put_def asw_put_def
  have two: "served p' = served p @ l \<and> (heap p' x = None \<or> heap p' x = heap p x)"
    if "kref_put_lock r i p1 = Some p'" "served p1 = served p @ l" "heap p1 x = None \<or> heap p1 x = heap p x" for r p1 l
    using kref_put_log [OF that(1)] that(2,3) by metis
  show ?thesis
  proof (cases "m_type m")
    case MSG_IDR_1_0_NONE
    then obtain p1 where "kref_put_lock (\<lambda>_. None) i p = Some p1" "kref_put_lock (\<lambda>_. None) i p1 = Some p'"
      using assms by (auto simp: offline_notify_msg_def puts split: bind_splits)
    then show ?thesis using two [of _ p1 "[]"] kref_put_log [of _ i p p1] MSG_IDR_1_0_NONE by (simp add: offline_log_def)
  next
    case MSG_IDR_MESSAGE_ASYNC
    then obtain p1 where "hmdfs_wakeup_parasite i m p = Some p1" "kref_put_lock m_out_buf i p1 = Some p'"
      using assms by (auto simp: offline_notify_msg_def puts split: bind_splits)
    then show ?thesis using two wakeup_parasite_log [of i m p p1] MSG_IDR_MESSAGE_ASYNC by (auto simp: offline_log_def)
  next
    case MSG_IDR_PAGE
    then obtain p1 where "hmdfs_wakeup_async_work i m p = Some p1" "kref_put_lock (\<lambda>_. None) i p1 = Some p'"
      using assms by (auto simp: offline_notify_msg_def puts split: bind_splits)
    then show ?thesis using two wakeup_async_work_log [of i m p p1] MSG_IDR_PAGE by (auto simp: offline_log_def)
  next
    case MSG_IDR_1_0_PAGE
    then obtain p1 where "hmdfs_wakeup_async_work i m p = Some p1" "kref_put_lock (\<lambda>_. None) i p1 = Some p'"
      using assms by (auto simp: offline_notify_msg_def puts split: bind_splits)
    then show ?thesis using two wakeup_async_work_log [of i m p p1] MSG_IDR_1_0_PAGE by (auto simp: offline_log_def)
  qed (use assms kref_put_log [of m_buf i "hmdfs_response_wakeup i (of_int (- ETIME)) 0 None p" p'] in
      \<open>auto simp: offline_notify_msg_def puts wakeup_log offline_log_def\<close>)
qed

text \<open>An entry that keeps its buffer keeps what the buffer holds.\<close>

lemma offline_log_kept:
  assumes o: "owned p' None" and m: "msg_idr p' i = Some m" and h: "\<And>x. heap p' x = None \<or> heap p' x = heap p x"
  shows "offline_log p' i m = offline_log p i m"
proof -
  have "buf_data p' (m_out_buf m) = buf_data p (m_out_buf m)" if "m_type m = MSG_IDR_MESSAGE_ASYNC"
  proof (cases "m_out_buf m")
    case (Some x)
    then have "msg_holds p' i x" using m that by (simp add: msg_holds_def hold_def)
    then have "heap p' x \<noteq> None" using o unfolding owned_def by blast
    then have "heap p' x = heap p x" using h [of x] by argo
    then show ?thesis using Some by (simp add: buf_data_def)
  qed (simp add: buf_data_def)
  then show ?thesis by (cases "m_type m") (simp_all add: offline_log_def)
qed

lemma offline_logs_Suc: "offline_logs p k (Suc n) =
    (case msg_idr p k of None \<Rightarrow> [] | Some m \<Rightarrow> offline_log p k m) @ offline_logs p (Suc k) n"
  unfolding offline_logs_def by (subst upt_conv_Cons) simp_all

lemma offline_logs_kept:
  assumes "\<And>i. k \<le> i \<Longrightarrow> msg_idr p' i = msg_idr p i" "owned p' None" "\<And>x. heap p' x = None \<or> heap p' x = heap p x"
  shows "offline_logs p' k n = offline_logs p k n"
  unfolding offline_logs_def using assms(1) offline_log_kept [OF assms(2) _ assms(3)]
  by (intro arg_cong [where f = concat]) (auto split: option.split)

lemma offline_notify_loop:
  assumes "owned p None" "\<forall>i m. k \<le> i \<longrightarrow> msg_idr p i = Some m \<longrightarrow> offline_ready m"
  shows "\<exists>p'. offline_notify_from n k p = Some p' \<and> owned p' None \<and> served p' = served p @ offline_logs p k n \<and>
    (\<forall>i. i < k \<or> k + n \<le> i \<longrightarrow> msg_idr p' i = msg_idr p i) \<and>
    (\<forall>i m. k \<le> i \<longrightarrow> i < k + n \<longrightarrow> msg_idr p i = Some m \<longrightarrow> notified m (msg_idr p' i))"
  using assms
proof (induction n arbitrary: k p)
  case (Suc n)
  show ?case
  proof (cases "msg_idr p k")
    case None
    have "\<forall>i m. Suc k \<le> i \<longrightarrow> msg_idr p i = Some m \<longrightarrow> offline_ready m" using Suc.prems(2) Suc_leD by blast
    from Suc.IH [OF Suc.prems(1) this] obtain p' where p':
      "offline_notify_from n (Suc k) p = Some p'" "owned p' None"
      "\<forall>i. i < Suc k \<or> Suc k + n \<le> i \<longrightarrow> msg_idr p' i = msg_idr p i"
      "\<forall>i m. Suc k \<le> i \<longrightarrow> i < Suc k + n \<longrightarrow> msg_idr p i = Some m \<longrightarrow> notified m (msg_idr p' i)"
      "served p' = served p @ offline_logs p (Suc k) n"
      by blast
    have e: "offline_notify_from (Suc n) k p = Some p'" using None p'(1) by simp
    have a: "msg_idr p' i = msg_idr p i" if "i < k \<or> k + Suc n \<le> i" for i using that p'(3) by auto
    have b: "notified m (msg_idr p' i)" if "k \<le> i" "i < k + Suc n" "msg_idr p i = Some m" for i m
    proof -
      have "Suc k \<le> i" using that(1,3) None by (cases "i = k") auto
      then show ?thesis using that p'(4) by simp
    qed
    have "served p' = served p @ offline_logs p k (Suc n)" using p'(5) None by (simp add: offline_logs_Suc)
    then show ?thesis using e p'(2) a b by blast
  next
    case (Some m)
    let ?m = "m\<lparr>m_ref := m_ref m + 1\<rparr>"
    obtain p1 where p1: "offline_notify_msg k ?m (set_msg k ?m p) = Some p1" "owned p1 None" "others_kept k p p1" "notified m (msg_idr p1 k)"
      using offline_notify_step [OF Suc.prems(1) Some] Suc.prems(2) Some by blast
    have "\<forall>i m'. Suc k \<le> i \<longrightarrow> msg_idr p1 i = Some m' \<longrightarrow> offline_ready m'"
      using p1(3) Suc.prems(2) Suc_leD by (metis others_kept_def not_less_eq_eq order_refl)
    from Suc.IH [OF p1(2) this] obtain p' where p':
      "offline_notify_from n (Suc k) p1 = Some p'" "owned p' None"
      "\<forall>i. i < Suc k \<or> Suc k + n \<le> i \<longrightarrow> msg_idr p' i = msg_idr p1 i"
      "\<forall>i m. Suc k \<le> i \<longrightarrow> i < Suc k + n \<longrightarrow> msg_idr p1 i = Some m \<longrightarrow> notified m (msg_idr p' i)"
      "served p' = served p1 @ offline_logs p1 (Suc k) n"
      by blast
    have e: "offline_notify_from (Suc n) k p = Some p'" using Some p1(1) p'(1) by (simp add: Let_def)
    have a: "msg_idr p' i = msg_idr p i" if "i < k \<or> k + Suc n \<le> i" for i
      using that p'(3) p1(3) by (auto simp: others_kept_def)
    have b: "notified m' (msg_idr p' i)" if "k \<le> i" "i < k + Suc n" "msg_idr p i = Some m'" for i m'
    proof (cases "i = k")
      case True
      then show ?thesis using that(3) Some p'(3) p1(4) by simp
    next
      case False
      then show ?thesis using that p'(4) p1(3) by (auto simp: others_kept_def)
    qed
    have "offline_logs p1 (Suc k) n = offline_logs p (Suc k) n"
      using p1(2,3) offline_notify_msg_log [OF p1(1)] by (intro offline_logs_kept) (auto simp: others_kept_def)
    moreover have "offline_log (set_msg k ?m p) k ?m = offline_log p k m"
      by (simp add: offline_log_def split: MSG_IDR_TYPE.split)
    ultimately have "served p' = served p @ offline_logs p k (Suc n)"
      using p'(5) Some offline_notify_msg_log [OF p1(1)] by (simp add: offline_logs_Suc)
    then show ?thesis using e p'(2) a b by blast
  qed
qed (simp add: offline_logs_def)

text \<open>
  C15 (liveness). When a peer goes offline no one is left waiting for it. Every
  waiter whose response has not come is woken with \<open>- ETIME\<close>; the callback of
  every asynchronous request whose work is still queued is run once, with the
  response the entry holds and its code (\<open>- ETIME\<close> as long as none has come); every
  page read whose work is queued is given up once; nothing else is run, no such
  work stays queued, and no buffer is lost or freed twice. The notification runs
  after the works of the sent asynchronous requests have been queued and
  before a response has reached a synchronous entry that has not been
  taken by its waiter: such a response is overwritten (\<open>offline_loses_response\<close>).
\<close>

theorem offline_wakes_all:
  assumes o: "owned p None" and r: "\<forall>i m. msg_idr p i = Some m \<longrightarrow> offline_ready m"
    and b: "\<forall>i m. msg_idr p i = Some m \<longrightarrow> i < bound"
  shows "\<exists>p'. hmdfs_client_offline_notify bound p = Some p' \<and> owned p' None \<and>
    (\<forall>i m. msg_idr p i = Some m \<longrightarrow> notified m (msg_idr p' i)) \<and>
    served p' = served p @ concat (map (\<lambda>i. case msg_idr p i of None \<Rightarrow> [] | Some m \<Rightarrow> offline_log p i m) [0 ..< bound])"
proof -
  from offline_notify_loop [OF o, of 0 bound] r obtain p' where p': "offline_notify_from bound 0 p = Some p'" "owned p' None"
    "served p' = served p @ offline_logs p 0 bound"
    "\<forall>i m. 0 \<le> i \<longrightarrow> i < 0 + bound \<longrightarrow> msg_idr p i = Some m \<longrightarrow> notified m (msg_idr p' i)"
    by blast
  have "\<forall>i m. msg_idr p i = Some m \<longrightarrow> notified m (msg_idr p' i)" using p'(4) b by auto
  then show ?thesis using p'(1-3) unfolding hmdfs_client_offline_notify_def offline_logs_def by auto
qed

text \<open>A waiting reader, an asynchronous request with its answer, one without, and a page read.\<close>

definition sample_pending :: "MSG_IDR_TYPE \<Rightarrow> nat option \<Rightarrow> u32 \<Rightarrow> msg" where
  "sample_pending t b r = new_msg\<lparr>m_ref := 1, m_type := t, m_cmd := 14, m_wfired := True, m_queued := True, m_out_buf := b, m_resp_ret := r\<rparr>"

definition sample_waiting :: peer where
  "sample_waiting = sample_peer\<lparr>msg_idr := [3 \<mapsto> fresh_msg sample_command, 4 \<mapsto> sample_pending MSG_IDR_MESSAGE_ASYNC (Some 8) 0,
     5 \<mapsto> sample_pending MSG_IDR_MESSAGE_ASYNC None (of_int (- ETIME)), 6 \<mapsto> sample_pending MSG_IDR_PAGE None 0],
     heap := (\<lambda>_. None)(8 := Some [7])\<rparr>"

lemma sample_waiting_owned: "owned sample_waiting None"
proof -
  have h: "msg_holds sample_waiting i x \<longleftrightarrow> i = 4 \<and> x = 8" for i x
    by (auto simp: sample_waiting_def sample_peer_def msg_holds_def hold_def fresh_msg_def new_msg_def sample_pending_def split: if_splits)
  have "\<forall>i m. msg_idr sample_waiting i = Some m \<longrightarrow> msg_ok m"
    by (auto simp: sample_waiting_def msg_ok_def fresh_msg_def new_msg_def sample_pending_def split: if_splits)
  then show ?thesis unfolding owned_def h by (auto simp: sample_waiting_def sample_peer_def work_bufs_def List.map_filter_def)
qed

theorem offline_wakes_all_witness:
  "\<exists>p'. hmdfs_client_offline_notify 7 sample_waiting = Some p' \<and> notified (fresh_msg sample_command) (msg_idr p' 3) \<and>
     served p' = [Woken 4 0 (Some [7]), Woken 5 (of_int (- ETIME)) None, Page_Given_Up 6]"
proof -
  have r: "\<forall>i m. msg_idr sample_waiting i = Some m \<longrightarrow> offline_ready m"
    by (auto simp: sample_waiting_def sample_pending_def offline_ready_def fresh_msg_def new_msg_def split: if_splits)
  have b: "\<forall>i m. msg_idr sample_waiting i = Some m \<longrightarrow> i < 7"
    by (auto simp: sample_waiting_def split: if_splits)
  have l: "served sample_waiting @ concat (map (\<lambda>i. case msg_idr sample_waiting i of None \<Rightarrow> [] | Some m \<Rightarrow>
      offline_log sample_waiting i m) [0 ..< 7]) = [Woken 4 0 (Some [7]), Woken 5 (of_int (- ETIME)) None, Page_Given_Up 6]"
    by (simp add: upt_rec sample_waiting_def sample_peer_def sample_pending_def offline_log_def buf_data_def fresh_msg_def new_msg_def)
  have e: "msg_idr sample_waiting 3 = Some (fresh_msg sample_command)" by (simp add: sample_waiting_def)
  show ?thesis using offline_wakes_all [OF sample_waiting_owned r b, unfolded l] e by blast
qed

section \<open>Buffers that are lost\<close>

definition lost :: "peer \<Rightarrow> nat \<Rightarrow> bool" where
  "lost p x \<longleftrightarrow> heap p x \<noteq> None \<and> (\<forall>i. \<not> msg_holds p i x) \<and> x \<notin> set (work_bufs p)"

text \<open>
  A second response to an asynchronous request that arrives before the
  work of the first has run cancels that work again and overwrites its buffer:
  the first response is lost and never freed.
\<close>

theorem duplicate_response_leaks:
  assumes o: "owned p (Some y)" and m: "msg_idr p (unat (msg_id head)) = Some m" "m_type m = MSG_IDR_MESSAGE_ASYNC"
      "m_cmd m = command (operations head)" "m_wfired m" "m_queued m" "m_out_buf m = Some x"
  shows "\<exists>p'. hmdfs_response_handle_sync p head (Some y) = Some (0, p') \<and> lost p' x"
proof -
  let ?i = "unat (msg_id head)"
  let ?m = "m\<lparr>m_out_buf := Some y, m_out_len := ucast (data_len head) - of_nat HEAD_SIZE, m_resp_ret := ret_code head, m_queued := True\<rparr>"
  have ok: "msg_ok m" using owned_msg_ok [OF o m(1)] .
  have e: "hmdfs_response_handle_sync p head (Some y) = Some (0, set_msg ?i ?m p)"
    using m ok by (simp add: hmdfs_response_handle_sync_def hmdfs_find_msg_head_def response_async_def mp_put_def kref_put_lock_def
        msg_ok_def Let_def)
  have x: "msg_holds p ?i x" using m by (simp add: msg_holds_def hold_def)
  then have y: "x \<noteq> y" "x \<notin> set (work_bufs p)" "heap p x \<noteq> None" using o unfolding owned_def by blast+
  have "\<not> msg_holds (set_msg ?i ?m p) j x" for j
    using o x y(1) m(2) unfolding owned_def by (auto simp: msg_holds_def hold_def split: if_splits)
  then show ?thesis using e y by (auto simp: lost_def work_bufs_def)
qed

definition sample_async :: peer where
  "sample_async = (set_msg 3 (new_msg\<lparr>m_ref := 1, m_type := MSG_IDR_MESSAGE_ASYNC, m_cmd := 14, m_wfired := True, m_queued := True,
     m_out_buf := Some 8\<rparr>) sample_peer)\<lparr>heap := (\<lambda>_. None)(8 := Some [1], 9 := Some [2])\<rparr>"

theorem duplicate_response_leaks_witness: "\<exists>p'. hmdfs_response_handle_sync sample_async sample_response (Some 9) = Some (0, p') \<and> lost p' 8"
proof -
  have "owned sample_async (Some 9)"
    by (auto simp: owned_def sample_async_def sample_peer_def msg_holds_def work_bufs_def List.map_filter_def hold_def
        msg_ok_def new_msg_def set_msg_def split: if_splits)
  from duplicate_response_leaks [OF this, of sample_response] show ?thesis
    by (auto simp: sample_async_def sample_response_def new_msg_def)
qed

text \<open>
  A peer that goes offline after a response has arrived, but before its
  waiter has run, overwrites the response: the code becomes \<open>- ETIME\<close> and the body
  is lost and never freed.
\<close>

theorem offline_loses_response:
  assumes o: "owned p None" and m: "msg_idr p = Map.empty(mid \<mapsto> m)" "m_type m = MSG_IDR_MESSAGE_SYNC" "m_buf m = Some x"
    and b: "mid < bound"
  shows "\<exists>p' m'. hmdfs_client_offline_notify bound p = Some p' \<and> msg_idr p' mid = Some m' \<and> m_ret m' = of_int (- ETIME) \<and> lost p' x"
proof -
  let ?m = "m\<lparr>m_ret := of_int (- ETIME), m_size := 0, m_buf := None, m_valid := MSG_Q_END_RECV\<rparr>" and ?p' = "set_msg mid (m\<lparr>m_ret := of_int (- ETIME), m_size := 0, m_buf := None, m_valid := MSG_Q_END_RECV\<rparr>) p"
  have skip: "offline_notify_from n k q = Some q" if "\<And>i. k \<le> i \<Longrightarrow> i < k + n \<Longrightarrow> msg_idr q i = None" for n k q
    using that by (induction n arbitrary: k) auto
  have ok: "msg_ok m" using owned_msg_ok [OF o, of mid m] m(1) by simp
  have reach: "offline_notify_from (k + n) j q = offline_notify_from n (j + k) q" if "\<And>i. j \<le> i \<Longrightarrow> i < j + k \<Longrightarrow> msg_idr q i = None" for n k j q
    using that by (induction k arbitrary: j) auto
  have step: "offline_notify_from (Suc n) mid p = offline_notify_from n (Suc mid) ?p'" for n
    using m ok by (simp add: offline_notify_msg_def hmdfs_response_wakeup_def msg_put_def kref_put_lock_def msg_ok_def Let_def)
  have "bound = mid + Suc (bound - Suc mid)" using b by simp
  then have "hmdfs_client_offline_notify bound p = offline_notify_from (Suc (bound - Suc mid)) (0 + mid) p"
    unfolding hmdfs_client_offline_notify_def using reach [of 0 mid p "Suc (bound - Suc mid)"] m(1) by simp
  also have "\<dots> = Some ?p'" using step skip [of "Suc mid" "bound - Suc mid" ?p'] m(1) by simp
  finally have e: "hmdfs_client_offline_notify bound p = Some ?p'" .
  have "msg_holds p mid x" using m by (simp add: msg_holds_def hold_def)
  then have x: "x \<notin> set (work_bufs p)" "heap p x \<noteq> None" using o unfolding owned_def by blast+
  have "\<not> msg_holds ?p' j x" for j using m by (simp add: msg_holds_def hold_def)
  then show ?thesis using e x by (auto simp: lost_def work_bufs_def)
qed

definition sample_answered :: peer where
  "sample_answered = (set_msg 3 ((fresh_msg sample_command)\<lparr>m_valid := MSG_Q_END_RECV, m_buf := Some 9\<rparr>) sample_peer)
     \<lparr>heap := (\<lambda>_. None)(9 := Some [2])\<rparr>"

theorem offline_loses_response_witness: "\<exists>p'. hmdfs_client_offline_notify 4 sample_answered = Some p' \<and> lost p' 9"
proof -
  have "owned sample_answered None"
    by (auto simp: owned_def sample_answered_def sample_peer_def msg_holds_def work_bufs_def List.map_filter_def hold_def
        msg_ok_def fresh_msg_def new_msg_def set_msg_def split: if_splits)
  moreover have "msg_idr sample_answered = Map.empty(3 \<mapsto> (fresh_msg sample_command)\<lparr>m_valid := MSG_Q_END_RECV, m_buf := Some 9\<rparr>)"
    by (simp add: sample_answered_def sample_peer_def)
  ultimately show ?thesis
    using offline_loses_response [of sample_answered 3 _ 9 4] by (fastforce simp: fresh_msg_def new_msg_def)
qed

end
