(* ===== verification/File_Transfer.thy ===== *)
theory File_Transfer
  imports Msg_Table "HOL-Library.Multiset"
begin

text \<open>
  The transfer of a dentry file in slices: \<open>hmdfs_readfile_response\<close> and
  \<open>hmdfs_send_slice\<close> of the serving side, \<open>hmdfs_readfile_slice\<close> of the receiving
  one (\<open>src/hmdfs/comm/socket_adapter.c\<close>). The works of the receiving side run in
  any order.
\<close>

section \<open>The serving side\<close>

abbreviation (input) slice_size :: nat where "slice_size \<equiv> PAGE_SIZE"

definition slice_body :: "nat \<Rightarrow> nat \<Rightarrow> byte list \<Rightarrow> byte list" where
  "slice_body num sn content =
     le32 (of_nat num) @ le32 (of_nat slice_size) @ le32 (of_nat sn) @ le32 (of_nat (length content)) @ content"

definition response_head :: "hmdfs_head_cmd \<Rightarrow> nat \<Rightarrow> int \<Rightarrow> hmdfs_head_cmd" where
  "response_head cmd len ret =
     cmd\<lparr>magic := HMDFS_MSG_MAGIC, version := HMDFS_VERSION, operations := (operations cmd)\<lparr>cmd_flag := 1\<rparr>,
         data_len := of_nat len, ret_code := of_int ret\<rparr>"

definition hmdfs_send_slice :: "hmdfs_head_cmd \<Rightarrow> nat \<Rightarrow> nat \<Rightarrow> byte list \<Rightarrow> hmdfs_head_cmd \<times> byte list" where
  "hmdfs_send_slice cmd num sn content =
     (response_head cmd (HEAD_SIZE + length content + sizeof slice_descriptor) 0, slice_body num sn content)"

definition hmdfs_sendmessage_response :: "hmdfs_head_cmd \<Rightarrow> byte list \<Rightarrow> int \<Rightarrow> hmdfs_head_cmd \<times> byte list" where
  "hmdfs_sendmessage_response cmd buf ret = (response_head cmd (length buf + HEAD_SIZE) ret, buf)"

text \<open>
  The loop over the file: \<open>rd sn\<close> is the error of reading a slice, if any, and
  \<open>snd_ret sn\<close> the result of sending it. The messages that were sent and the result.
\<close>

function readfile_loop :: "(nat \<Rightarrow> int) \<Rightarrow> (nat \<Rightarrow> int) \<Rightarrow> hmdfs_head_cmd \<Rightarrow> nat \<Rightarrow> byte list \<Rightarrow> nat \<Rightarrow> nat
    \<Rightarrow> (hmdfs_head_cmd \<times> byte list) list \<times> int" where
  "readfile_loop rd snd_ret cmd num file sn offset =
     (let content = take slice_size (drop offset file) in
      if rd sn < 0 then ([], rd sn)
      else if snd_ret sn \<noteq> 0 then ([], snd_ret sn)
      else let msg = hmdfs_send_slice cmd num sn content; offset' = offset + length content in
        if offset' \<ge> length file then ([msg], 0)
        else (case readfile_loop rd snd_ret cmd num file (sn + 1) offset' of (msgs, ret) \<Rightarrow> (msg # msgs, ret)))"
  by pat_completeness auto
termination
  by (relation "measure (\<lambda>(rd, snd_ret, cmd, num, file, sn, offset). length file - offset)") (auto simp: Let_def)

declare readfile_loop.simps [simp del]

definition hmdfs_readfile_response :: "(nat \<Rightarrow> int) \<Rightarrow> (nat \<Rightarrow> int) \<Rightarrow> bool \<Rightarrow> hmdfs_head_cmd \<Rightarrow> byte list option
    \<Rightarrow> (hmdfs_head_cmd \<times> byte list) list \<times> int" where
  "hmdfs_readfile_response rd snd_ret alloc cmd filp =
     (case filp of
        None \<Rightarrow> ([hmdfs_sendmessage_response cmd [] 0], 0)
      | Some file \<Rightarrow>
          (case (if \<not> alloc then ([], - ENOMEM)
                 else readfile_loop rd snd_ret cmd ((length file + (slice_size - 1)) div slice_size) file 0 0) of
             (msgs, ret) \<Rightarrow> (if ret \<noteq> 0 then msgs @ [hmdfs_sendmessage_response cmd [] ret] else msgs, ret)))"

section \<open>The receiving side\<close>

text \<open>The bodies of the slices, in the order the works run.\<close>

fun deliver :: "msg_env \<Rightarrow> msg \<Rightarrow> byte list list \<Rightarrow> msg option" where
  "deliver env m [] = Some m"
| "deliver env m (b # bs) = do {
     (ret, m') \<leftarrow> hmdfs_readfile_slice env m (Some b);
     if ret \<noteq> 0 then None else deliver env m' bs }"

section \<open>Writing chunks in any order\<close>

definition chunk :: "byte list \<Rightarrow> nat \<Rightarrow> byte list" where
  "chunk file sn = take slice_size (drop (sn * slice_size) file)"

text \<open>The local file after the slices of the set \<open>S\<close> have been written.\<close>

definition partial :: "byte list \<Rightarrow> nat set \<Rightarrow> byte list \<Rightarrow> bool" where
  "partial file S loc \<longleftrightarrow> length loc \<le> length file \<and>
     (\<forall>s \<in> S. min (Suc s * slice_size) (length file) \<le> length loc) \<and>
     (\<forall>i < length loc. loc ! i = (if i div slice_size \<in> S then file ! i else 0))"

lemma partial_write:
  assumes p: "partial file S loc" and s: "s * slice_size < length file"
  shows "partial file (insert s S) (write_at loc (s * slice_size) (chunk file s))"
proof -
  let ?off = "s * slice_size" and ?c = "chunk file s"
  have c: "?c \<noteq> []" "length ?c = min slice_size (length file - ?off)" using s by (auto simp: chunk_def)
  then have e: "?off + length ?c = min (Suc s * slice_size) (length file)" using s by (auto simp: min_def)
  have l: "length (write_at loc ?off ?c) = max (length loc) (min (Suc s * slice_size) (length file))"
    using length_write_at [OF c(1), of loc ?off] e by simp
  have nth: "write_at loc ?off ?c ! i = (if i div slice_size \<in> insert s S then file ! i else 0)"
    if i: "i < length (write_at loc ?off ?c)" for i
  proof (cases "?off \<le> i \<and> i < ?off + length ?c")
    case True
    then have "i div slice_size = s" using e by (auto simp: div_nat_eqI)
    moreover have "write_at loc ?off ?c ! i = file ! i"
      using nth_write_at [OF c(1), of i loc ?off] i l e True by (auto simp: chunk_def)
    ultimately show ?thesis by simp
  next
    case False
    have "i < max (length loc) (?off + length ?c)" using i length_write_at [OF c(1)] by simp
    note at = nth_write_at [OF c(1) this]
    have w: "write_at loc ?off ?c ! i = (if i < length loc then loc ! i else 0)"
      unfolding at if_not_P [OF False] by (rule refl)
    show ?thesis
    proof (cases "i < length loc")
      case True
      then have "i < length file" using p by (simp add: partial_def)
      then have "i div slice_size \<noteq> s" using False e by (auto simp: dividend_less_times_div min_def split: if_splits)
      then show ?thesis using True w p by (simp add: partial_def)
    next
      case out: False
      then have "i < ?off" using False i l e by (auto simp: max_def split: if_splits)
      then have "i div slice_size < s" by (simp add: less_mult_imp_div_less)
      moreover have "i div slice_size \<notin> S"
      proof
        assume "i div slice_size \<in> S"
        then have "min (Suc (i div slice_size) * slice_size) (length file) \<le> length loc" using p unfolding partial_def by blast
        moreover have "i < Suc (i div slice_size) * slice_size" using dividend_less_div_times [of slice_size i] by simp
        moreover have "i < length file" using \<open>i < ?off\<close> s by simp
        ultimately show False using out by simp
      qed
      ultimately show ?thesis using w out by simp
    qed
  qed
  show ?thesis
    unfolding partial_def using nth p l by (auto simp: partial_def)
qed

lemma partial_all:
  assumes "partial file {..<n} loc" "length file \<le> n * slice_size"
  shows "loc = file"
proof -
  have "length file \<le> length loc"
  proof (cases n)
    case (Suc k)
    then have "min (Suc k * slice_size) (length file) \<le> length loc" using assms(1) unfolding partial_def by blast
    then show ?thesis using assms(2) Suc by simp
  qed (use assms in simp)
  then have "length loc = length file" using assms(1) by (simp add: partial_def)
  moreover have "loc ! i = file ! i" if "i < length loc" for i
  proof -
    have "i div slice_size < n" using that assms(2) calculation by (simp add: less_mult_imp_div_less)
    then show ?thesis using that assms(1) by (simp add: partial_def)
  qed
  ultimately show ?thesis by (simp add: list_eq_iff_nth_eq)
qed

section \<open>Slices on the wire\<close>

lemma slice_fields:
  assumes "num < 2 ^ 32" "sn < 2 ^ 32" "length content < 2 ^ 32"
  shows "fld slice_descriptor ''num_slices'' (slice_body num sn content) = Some num"
    "fld slice_descriptor ''slice_size'' (slice_body num sn content) = Some slice_size"
    "fld slice_descriptor ''slice_sn'' (slice_body num sn content) = Some sn"
    "fld slice_descriptor ''content_size'' (slice_body num sn content) = Some (length content)"
    "drop (sizeof slice_descriptor) (slice_body num sn content) = content"
proof -
  let ?h = "le32 (of_nat num)" and ?z = "le32 (of_nat slice_size)" and ?s = "le32 (of_nat sn)" and ?l = "le32 (of_nat (length content))"
  have u: "unat (of_nat num :: u32) = num" "unat (of_nat sn :: u32) = sn" "unat (of_nat (length content) :: u32) = length content"
    using assms by (simp_all add: unat_of_nat)
  have b: "slice_body num sn content = ?h @ ?z @ ?s @ ?l @ content" by (simp add: slice_body_def)
  show "fld slice_descriptor ''num_slices'' (slice_body num sn content) = Some num"
    "fld slice_descriptor ''slice_size'' (slice_body num sn content) = Some slice_size"
    "fld slice_descriptor ''slice_sn'' (slice_body num sn content) = Some sn"
    "fld slice_descriptor ''content_size'' (slice_body num sn content) = Some (length content)"
    unfolding b using u by (simp_all add: fld_def layout_simps rd_le_def)
  show "drop (sizeof slice_descriptor) (slice_body num sn content) = content"
    unfolding b by (simp add: layout_simps)
qed

lemma readfile_slice_body:
  assumes "num < 2 ^ 32" "sn * slice_size < 2 ^ 32" "length content < 2 ^ 32"
    and m: "m_filp m = Some loc" "m_state m = FILE_RECV_PROCESS" and env: "me_write env = None"
  shows "hmdfs_readfile_slice env m (Some (slice_body num sn content)) =
    Some (0, let m1 = m\<lparr>m_filp := Some (write_at loc (sn * slice_size) content), m_fslices := m_fslices m + 1\<rparr>
             in if m_fslices m + 1 \<ge> num then m1\<lparr>m_state := FILE_RECV_SUCC\<rparr> else m1)"
proof -
  have "sn < 2 ^ 32" using assms(2) by simp
  note f = slice_fields [OF assms(1) this assms(3)]
  have o: "unat (of_nat slice_size * of_nat sn :: u32) = sn * slice_size"
  proof -
    have "(of_nat slice_size * of_nat sn :: u32) = of_nat (sn * slice_size)" by (simp add: mult.commute)
    then show ?thesis using assms(2) by (simp only: unat_of_nat) simp
  qed
  show ?thesis
    unfolding hmdfs_readfile_slice_def m env f o option.case Option.bind.simps Let_def using f(5) by simp
qed

text \<open>What the server sends: one slice per chunk, and one empty slice for an empty file.\<close>

lemma readfile_loop_slices:
  assumes "\<And>i. rd i \<ge> 0" "\<And>i. snd_ret i = 0" "n > 0" "sn < n" "(n - 1) * slice_size < length file" "length file \<le> n * slice_size"
  shows "readfile_loop rd snd_ret cmd num file sn (sn * slice_size) = (map (\<lambda>i. hmdfs_send_slice cmd num i (chunk file i)) [sn..<n], 0)"
  using assms(4)
proof (induction "n - sn" arbitrary: sn)
  case (Suc k)
  let ?c = "take slice_size (drop (sn * slice_size) file)"
  have ok: "\<not> rd sn < 0" "snd_ret sn = 0" using assms(1,2) by (simp_all add: not_less)
  show ?case
  proof (cases "Suc sn = n")
    case True
    then have "sn * slice_size + length ?c \<ge> length file" using assms(6) by (auto simp: min_def)
    then have "readfile_loop rd snd_ret cmd num file sn (sn * slice_size) = ([hmdfs_send_slice cmd num sn ?c], 0)"
      using ok by (subst readfile_loop.simps) (simp only: Let_def if_False if_True simp_thms)
    moreover have "[sn..<n] = [sn]" using True by auto
    ultimately show ?thesis by (simp add: chunk_def)
  next
    case False
    then have lt: "Suc sn < n" using Suc.prems by simp
    then have "Suc sn * slice_size \<le> (n - 1) * slice_size" by (intro mult_le_mono1) simp
    then have c: "length ?c = slice_size" "sn * slice_size + length ?c = Suc sn * slice_size" "\<not> Suc sn * slice_size \<ge> length file"
      using assms(5) by auto
    have "readfile_loop rd snd_ret cmd num file (Suc sn) (Suc sn * slice_size) = (map (\<lambda>i. hmdfs_send_slice cmd num i (chunk file i)) [Suc sn..<n], 0)"
      using Suc.hyps lt by (intro Suc.hyps(1)) simp_all
    moreover have "[sn..<n] = sn # [Suc sn..<n]" using Suc.prems by (simp add: upt_conv_Cons)
    ultimately show ?thesis
      using ok c by (subst readfile_loop.simps) (simp add: chunk_def Let_def del: mult_Suc)
  qed
qed simp

section \<open>Delivery in any order\<close>

lemma mset_map_ex: "mset ys = mset (map f xs) \<Longrightarrow> \<exists>zs. ys = map f zs \<and> mset zs = mset xs"
proof (induction ys arbitrary: xs)
  case (Cons y ys)
  have "y \<in> set (map f xs)" using Cons.prems by (metis list.set_intros(1) set_mset_mset)
  then obtain x where x: "x \<in> set xs" "y = f x" by auto
  then have "mset xs = add_mset x (mset (remove1 x xs))" by simp
  then have "mset (map f xs) = add_mset y (mset (map f (remove1 x xs)))" using x(2) by (metis image_mset_add_mset mset_map)
  then have "mset ys = mset (map f (remove1 x xs))" using Cons.prems by simp
  from Cons.IH [OF this] obtain zs where "ys = map f zs" "mset zs = mset (remove1 x xs)" by blast
  then show ?case using x by (intro exI [of _ "x # zs"]) simp
qed auto

lemma deliver_slices:
  assumes env: "me_write env = None" and n: "num > 0" "(num - 1) * slice_size < length file" "length file < 2 ^ 32"
    and sns: "distinct sns" "set sns \<inter> S = {}" "set sns \<union> S = {..<num}" "finite S" "sns \<noteq> []"
    and m: "m_filp m = Some loc" "partial file S loc" "m_state m = FILE_RECV_PROCESS" "m_fslices m = card S"
  shows "\<exists>m' loc'. deliver env m (map (\<lambda>i. slice_body num i (chunk file i)) sns) = Some m' \<and>
    m_filp m' = Some loc' \<and> partial file {..<num} loc' \<and> m_state m' = FILE_RECV_SUCC \<and> m_fslices m' = num"
  using sns m
proof (induction sns arbitrary: S m loc)
  case (Cons sn sns)
  have sn: "sn < num" "sn \<notin> S" using Cons.prems by auto
  then have "sn * slice_size \<le> (num - 1) * slice_size" by (intro mult_le_mono1) simp
  then have off: "sn * slice_size < length file" using n(2) by simp
  have lens: "num < 2 ^ 32" "sn * slice_size < 2 ^ 32" "length (chunk file sn) < 2 ^ 32" using off n by (auto simp: chunk_def)
  let ?S = "insert sn S" and ?loc = "write_at loc (sn * slice_size) (chunk file sn)"
  let ?m = "m\<lparr>m_filp := Some ?loc, m_fslices := m_fslices m + 1\<rparr>"
  have card: "card ?S = card S + 1" using sn Cons.prems(4) by simp
  have pw: "partial file ?S ?loc" using partial_write [OF Cons.prems(7) off] .
  have step: "hmdfs_readfile_slice env m (Some (slice_body num sn (chunk file sn))) =
      Some (0, if card ?S \<ge> num then ?m\<lparr>m_state := FILE_RECV_SUCC\<rparr> else ?m)"
    using readfile_slice_body [OF lens Cons.prems(6,8) env] Cons.prems(9) card by (simp add: Let_def)
  have cover: "set sns \<union> ?S = {..<num}" "set sns \<inter> ?S = {}" "finite ?S" using Cons.prems by auto
  show ?case
  proof (cases "sns = []")
    case True
    then have all: "?S = {..<num}" using cover by simp
    then have "card ?S = num" by simp
    then have "deliver env m (map (\<lambda>i. slice_body num i (chunk file i)) (sn # sns)) = Some (?m\<lparr>m_state := FILE_RECV_SUCC\<rparr>)"
      using step True by simp
    moreover have "partial file {..<num} ?loc" "m_fslices ?m = num" using pw all \<open>card ?S = num\<close> card Cons.prems(9) by simp_all
    ultimately show ?thesis by simp
  next
    case False
    have "card (set sns) > 0" using False by (simp add: card_gt_0_iff)
    moreover have "card (set sns \<union> ?S) = card (set sns) + card ?S" using cover by (intro card_Un_disjoint) auto
    ultimately have "card ?S < num" using cover(1) by simp
    then have "deliver env m (map (\<lambda>i. slice_body num i (chunk file i)) (sn # sns)) = deliver env ?m (map (\<lambda>i. slice_body num i (chunk file i)) sns)"
      using step by simp
    moreover have "\<exists>m' loc'. deliver env ?m (map (\<lambda>i. slice_body num i (chunk file i)) sns) = Some m' \<and>
        m_filp m' = Some loc' \<and> partial file {..<num} loc' \<and> m_state m' = FILE_RECV_SUCC \<and> m_fslices m' = num"
      using Cons.prems(1,8,9) False cover pw card by (intro Cons.IH [where S = ?S and loc = ?loc]) auto
    ultimately show ?thesis by simp
  qed
qed simp

text \<open>
  C14 (round trip). A dentry file travels in slices and arrives whole: whatever the
  order in which the receiving side's works store the slices that
  \<open>hmdfs_readfile_response\<close> sent, when all are stored the local file has the
  contents of the file served, and the transfer is marked as complete with the
  last slice and not before. The size is below 4 GiB, where the product of slice
  size and number does not wrap.
\<close>

theorem file_transfer_roundtrip:
  assumes env: "me_write env = None" and ok: "\<forall>i. rd i \<ge> 0" "\<forall>i. snd_ret i = 0" and len: "length file < 2 ^ 32" "file \<noteq> []"
    and m: "m_filp m = Some []" "m_state m = FILE_RECV_PROCESS" "m_fslices m = 0"
    and sent: "hmdfs_readfile_response rd snd_ret True cmd (Some file) = (msgs, 0)"
    and perm: "mset bodies = mset (map snd msgs)"
  shows "\<exists>m'. deliver env m bodies = Some m' \<and> m_filp m' = Some file \<and> m_state m' = FILE_RECV_SUCC \<and>
    m_fslices m' = length bodies"
proof -
  define num where "num = (length file + (slice_size - 1)) div slice_size"
  have n: "num > 0" "(num - 1) * slice_size < length file" "length file \<le> num * slice_size"
    using len(2) unfolding num_def by (auto simp: length_greater_0_conv [symmetric] simp del: length_greater_0_conv)
  have loop: "readfile_loop rd snd_ret cmd num file 0 (0 * slice_size) = (map (\<lambda>i. hmdfs_send_slice cmd num i (chunk file i)) [0..<num], 0)"
    using ok n by (intro readfile_loop_slices) simp_all
  then have "msgs = map (\<lambda>i. hmdfs_send_slice cmd num i (chunk file i)) [0..<num]"
    using sent by (simp add: hmdfs_readfile_response_def num_def)
  then have "mset bodies = mset (map (\<lambda>i. slice_body num i (chunk file i)) [0..<num])" using perm by (simp add: hmdfs_send_slice_def comp_def)
  then obtain sns where sns: "bodies = map (\<lambda>i. slice_body num i (chunk file i)) sns" "mset sns = mset [0..<num]"
    using mset_map_ex [of bodies "\<lambda>i. slice_body num i (chunk file i)" "[0..<num]"] by blast
  have d: "distinct sns" "set sns = {..<num}" "length sns = num"
    using sns(2) by (metis distinct_upt mset_eq_imp_distinct_iff, metis atLeast_upt set_mset_mset, metis length_upt diff_zero size_mset)
  have "\<exists>m' loc'. deliver env m bodies = Some m' \<and> m_filp m' = Some loc' \<and> partial file {..<num} loc' \<and> m_state m' = FILE_RECV_SUCC \<and> m_fslices m' = num"
    unfolding sns(1)
  proof (rule deliver_slices [OF env n(1,2) len(1) d(1) _ _ _ _ m(1) _ m(2)])
    show "set sns \<inter> {} = {}" "set sns \<union> {} = {..<num}" "finite ({} :: nat set)" "m_fslices m = card ({} :: nat set)"
      using d(2) m(3) by simp_all
    show "sns \<noteq> []" using d(3) n(1) by auto
    show "partial file {} []" by (simp add: partial_def)
  qed
  then show ?thesis using partial_all [OF _ n(3)] sns(1) d(3) by auto
qed

definition sample_local :: msg where
  "sample_local = \<lparr>m_type = MSG_IDR_MESSAGE_SYNC, m_cmd = 4, m_ref = 1, m_valid = MSG_Q_SEND, m_size = 0, m_buf = None, m_ret = 0,
     m_filp = Some [], m_fslices = 0, m_state = FILE_RECV_PROCESS, m_wfired = False, m_queued = False, m_out_buf = None,
     m_out_len = 0, m_resp_ret = 0\<rparr>"

definition sample_iterate :: hmdfs_head_cmd where
  "sample_iterate = \<lparr>magic = HMDFS_MSG_MAGIC, version = HMDFS_VERSION, reserved = 0, data_len = 24,
     operations = \<lparr>op_reserved = 0, cmd_flag = 0, command = 4, op_reserved2 = 0\<rparr>, ret_code = 0, msg_id = 3, reserved1 = 0\<rparr>"

text \<open>A file of two slices, stored in the opposite order.\<close>

theorem file_transfer_roundtrip_witness:
  "\<exists>m'. deliver \<lparr>me_alloc = True, me_cred = True, me_write = None\<rparr> sample_local
      (rev (map snd (fst (hmdfs_readfile_response (\<lambda>_. 0) (\<lambda>_. 0) True sample_iterate (Some (replicate 5000 7)))))) = Some m' \<and>
    m_filp m' = Some (replicate 5000 7) \<and> m_state m' = FILE_RECV_SUCC"
proof -
  let ?f = "replicate 5000 (7 :: byte)"
  obtain msgs ret where s: "hmdfs_readfile_response (\<lambda>_. 0) (\<lambda>_. 0) True sample_iterate (Some ?f) = (msgs, ret)" by fastforce
  have "readfile_loop (\<lambda>_. 0) (\<lambda>_. 0) sample_iterate 2 ?f 0 (0 * slice_size) =
      (map (\<lambda>i. hmdfs_send_slice sample_iterate 2 i (chunk ?f i)) [0..<2], 0)"
    by (intro readfile_loop_slices) simp_all
  then have "ret = 0" using s by (simp add: hmdfs_readfile_response_def)
  from file_transfer_roundtrip [OF _ _ _ _ _ _ _ _ s [unfolded this], of "\<lparr>me_alloc = True, me_cred = True, me_write = None\<rparr>" sample_local "rev (map snd msgs)"]
  show ?thesis using s by (auto simp: sample_local_def)
qed

text \<open>
  The content size of a slice comes from the peer and nothing checks
  it against the body: a slice that announces more bytes than it carries is
  written from beyond the received buffer.
\<close>

theorem slice_content_overread:
  assumes "m_filp m = Some loc" "m_state m = FILE_RECV_PROCESS"
    and "n < 2 ^ 32" "num < 2 ^ 32" "sn < 2 ^ 32" "length content < n"
  shows "hmdfs_readfile_slice env m (Some (le32 (of_nat num) @ le32 (of_nat slice_size) @ le32 (of_nat sn) @ le32 (of_nat n) @ content)) = None"
proof -
  let ?d = "le32 (of_nat num) @ le32 (of_nat slice_size) @ le32 (of_nat sn) @ le32 (of_nat n) @ content"
  have "unat (of_nat n :: u32) = n" using assms(3) by (simp add: unat_of_nat)
  then have f: "fld slice_descriptor ''content_size'' ?d = Some n" "length (drop (sizeof slice_descriptor) ?d) < n"
    using assms(6) by (simp_all add: fld_def layout_simps rd_le_def)
  have "\<exists>v. fld slice_descriptor g ?d = Some v" if "g = ''slice_size'' \<or> g = ''slice_sn'' \<or> g = ''num_slices''" for g
    using that by (intro fld_total) (auto simp: layout_simps)
  from this [of "''slice_size''"] this [of "''slice_sn''"] this [of "''num_slices''"] obtain a b c
    where "fld slice_descriptor ''slice_size'' ?d = Some a" "fld slice_descriptor ''slice_sn'' ?d = Some b" "fld slice_descriptor ''num_slices'' ?d = Some c"
    by auto
  then show ?thesis
    unfolding hmdfs_readfile_slice_def assms(1,2) using f by (simp only: option.case Option.bind.simps Let_def if_True simp_thms if_False)
qed

theorem slice_content_overread_witness:
  "hmdfs_readfile_slice \<lparr>me_alloc = True, me_cred = True, me_write = None\<rparr> sample_local
     (Some (le32 (of_nat 1) @ le32 (of_nat slice_size) @ le32 (of_nat 0) @ le32 (of_nat 100) @ [1, 2, 3])) = None"
  by (rule slice_content_overread [of _ "[]"]) (simp_all add: sample_local_def)

end
