(* ===== verification/Server_Path.thy ===== *)
theory Server_Path
  imports Protocol
begin

text \<open>
  The check of the paths a peer sends (\<open>path_contain_dotdot\<close> of
  \<open>src/hmdfs/hmdfs_server.c\<close>): a path with a \<open>..\<close> component is refused. A string
  and its length are the list of its bytes.
\<close>

abbreviation (input) slash :: byte where "slash \<equiv> 47"
abbreviation (input) dot_char :: byte where "dot_char \<equiv> 46"

fun find_first_no_slash :: "byte list \<Rightarrow> byte list" where
  "find_first_no_slash [] = []"
| "find_first_no_slash (c # s) = (if c = slash then find_first_no_slash s else c # s)"

fun find_first_slash :: "byte list \<Rightarrow> byte list" where
  "find_first_slash [] = []"
| "find_first_slash (c # s) = (if c \<noteq> slash then find_first_slash s else c # s)"

definition dotdot_here :: "byte list \<Rightarrow> bool" where
  "dotdot_here s \<longleftrightarrow> length s \<ge> 2 \<and> s ! 0 = dot_char \<and> s ! 1 = dot_char \<and> (length s = 2 \<or> s ! 2 = slash)"

lemma length_no_slash: "length (find_first_no_slash s) \<le> length s"
  by (induction s rule: find_first_no_slash.induct) auto

lemma length_slash: "length (find_first_slash s) \<le> length s"
  by (induction s rule: find_first_slash.induct) auto

lemma no_slash_head: "find_first_no_slash s = c # r \<Longrightarrow> c \<noteq> slash"
  by (induction s rule: find_first_no_slash.induct) (auto split: if_splits)

text \<open>Each round of the loop leaves a component behind.\<close>

function path_contain_dotdot :: "byte list \<Rightarrow> bool" where
  "path_contain_dotdot name =
     (let s = find_first_no_slash name in
      if s = [] then False
      else if dotdot_here s then True
      else path_contain_dotdot (find_first_slash s))"
  by pat_completeness auto

termination
proof (relation "measure length")
  fix name s
  assume s: "s = find_first_no_slash name" "s \<noteq> []"
  obtain c r where cr: "s = c # r" using s(2) by (meson neq_Nil_conv)
  have "c \<noteq> slash" using cr s(1) no_slash_head [of name c r] by simp
  then have "length (find_first_slash s) < length s" using cr length_slash [of r] by auto
  then show "(find_first_slash s, name) \<in> measure length" using length_no_slash [of name] s by simp
qed simp

declare path_contain_dotdot.simps [simp del]

section \<open>What it decides\<close>

text \<open>The components of a path: what is between the slashes, empty components included.\<close>

fun components :: "byte list \<Rightarrow> byte list list" where
  "components [] = [[]]"
| "components (c # s) = (if c = slash then [] # components s else (c # hd (components s)) # tl (components s))"

lemma components_ne [simp]: "components s \<noteq> []"
  by (cases s) auto

lemma components_no_slash: "(\<exists>p \<in> set (components s). p = [dot_char, dot_char]) \<longleftrightarrow>
    (\<exists>p \<in> set (components (find_first_no_slash s)). p = [dot_char, dot_char])"
  by (induction s rule: find_first_no_slash.induct) auto

lemma components_split:
  "components s = takeWhile (\<lambda>c. c \<noteq> slash) s #
     (case find_first_slash s of [] \<Rightarrow> [] | _ # r \<Rightarrow> components r)"
  by (induction s rule: find_first_slash.induct) (auto split: list.splits)

lemma slash_head: "find_first_slash s = c # r \<Longrightarrow> c = slash"
  by (induction s rule: find_first_slash.induct) (auto split: if_splits)

lemma dotdot_here_iff: "dotdot_here s \<longleftrightarrow> takeWhile (\<lambda>c. c \<noteq> slash) s = [dot_char, dot_char]"
proof (cases s)
  case (Cons a r)
  then show ?thesis
  proof (cases r)
    case r: (Cons b q)
    then show ?thesis using Cons by (cases q) (auto simp: dotdot_here_def)
  qed (auto simp: dotdot_here_def)
qed (simp add: dotdot_here_def)

text \<open>
  C26 (equivalence). The check of a path is exact: it refuses a path exactly when
  one of the components between its slashes is \<open>..\<close>, wherever it stands and however
  many slashes are around it.
\<close>

theorem dotdot_exact: "path_contain_dotdot s \<longleftrightarrow> [dot_char, dot_char] \<in> set (components s)"
proof (induction s rule: path_contain_dotdot.induct)
  case (1 name)
  let ?s = "find_first_no_slash name"
  have eq: "[dot_char, dot_char] \<in> set (components name) \<longleftrightarrow> [dot_char, dot_char] \<in> set (components ?s)"
    using components_no_slash [of name] by auto
  show ?case
  proof (cases "?s = [] \<or> dotdot_here ?s")
    case True
    then show ?thesis
      unfolding eq path_contain_dotdot.simps [of name] using components_split [of ?s]
      by (auto simp: dotdot_here_iff Let_def)
  next
    case False
    let ?r = "find_first_slash ?s"
    have "path_contain_dotdot name \<longleftrightarrow> [dot_char, dot_char] \<in> set (components ?r)"
      using 1 [OF refl] False by (simp add: path_contain_dotdot.simps [of name] Let_def)
    also have "\<dots> \<longleftrightarrow> [dot_char, dot_char] \<in> set (case ?r of [] \<Rightarrow> [] | _ # r \<Rightarrow> components r)"
      using slash_head [of ?s] by (cases ?r) auto
    also have "\<dots> \<longleftrightarrow> [dot_char, dot_char] \<in> set (components ?s)"
      using False by (subst components_split) (auto simp: dotdot_here_iff)
    finally show ?thesis by (simp only: eq)
  qed
qed

end
