(* ===== verification/Client_Req.thy ===== *)
theory Client_Req
  imports Msg_Table Dentry_File
begin

text \<open>
  The requests of the client side (\<open>src/hmdfs/hmdfs_client.c\<close>): the bodies it
  builds and what it makes of the answers. The exchange itself,
  \<open>hmdfs_sendmessage_request\<close>, is the argument \<open>ask\<close>: the return code, the body of
  the response, if there is one, and its length. \<open>None\<close> is a read outside the body
  of the response.
\<close>

section \<open>Commands\<close>

definition cmd_number :: "FILE_CMD \<Rightarrow> byte" where
  "cmd_number c = of_nat (length (takeWhile (\<lambda>d. d \<noteq> c) file_cmds))"

definition hmdfs_init_cmd :: "FILE_CMD \<Rightarrow> hmdfs_cmd" where
  "hmdfs_init_cmd c = \<lparr>op_reserved = 0, cmd_flag = 0, command = cmd_number c, op_reserved2 = 0\<rparr>"

record hmdfs_fid =
  fid_ver :: u64
  fid_id :: u32

definition send_command :: "FILE_CMD \<Rightarrow> byte list \<Rightarrow> hmdfs_send_command" where
  "send_command c body = \<lparr>sc_operations = hmdfs_init_cmd c, sc_data = body, sc_filp = None, sc_ret_code = 0\<rparr>"

section \<open>The bodies\<close>

definition open_command :: "byte list \<Rightarrow> byte \<Rightarrow> hmdfs_send_command" where
  "open_command path file_type = send_command F_OPEN
     (struct_bytes open_request [(''file_type'', unat file_type), (''path_len'', length path)] @ nul_strings [path])"

definition close_command :: "hmdfs_fid \<Rightarrow> hmdfs_send_command" where
  "close_command fid = send_command F_RELEASE
     (struct_bytes release_request [(''file_ver'', unat (fid_ver fid)), (''file_id'', unat (fid_id fid))])"

definition fsync_command :: "hmdfs_fid \<Rightarrow> u64 \<Rightarrow> u64 \<Rightarrow> u32 \<Rightarrow> hmdfs_send_command" where
  "fsync_command fid start end_pos datasync = send_command F_FSYNC
     (struct_bytes fsync_request
        [(''file_ver'', unat (fid_ver fid)), (''file_id'', unat (fid_id fid)), (''datasync'', unat datasync),
         (''start'', unat start), (''end'', unat end_pos)])"

definition readpage_command :: "hmdfs_fid \<Rightarrow> u64 \<Rightarrow> hmdfs_send_command" where
  "readpage_command fid index = send_command F_READPAGE
     (struct_bytes readpage_request
        [(''file_ver'', unat (fid_ver fid)), (''file_id'', unat (fid_id fid)), (''size'', HMDFS_PAGE_SIZE),
         (''index'', unat index)])"

text \<open>The page is a buffer of \<open>HMDFS_PAGE_SIZE\<close> bytes, copied whole.\<close>

definition writepage_command :: "hmdfs_fid \<Rightarrow> u64 \<Rightarrow> u32 \<Rightarrow> byte list \<Rightarrow> hmdfs_send_command" where
  "writepage_command fid index count page = send_command F_WRITEPAGE
     (struct_bytes writepage_request
        [(''file_ver'', unat (fid_ver fid)), (''file_id'', unat (fid_id fid)), (''index'', unat index),
         (''count'', unat count)] @ take HMDFS_PAGE_SIZE page)"

record hmdfs_dcache_header =
  dcache_crtime :: u64
  dcache_crtime_nsec :: u64
  dentry_ctime :: u64
  dentry_ctime_nsec :: u64
  dcache_num :: u64

text \<open>\<open>strncpy\<close> stops at the end of the source and pads with zeros.\<close>

definition strncpy :: "byte list \<Rightarrow> nat \<Rightarrow> byte list" where
  "strncpy src n = take n src @ replicate (n - length src) 0"

definition readdir_command :: "byte list \<Rightarrow> byte list \<Rightarrow> nat \<Rightarrow> hmdfs_dcache_header option \<Rightarrow> hmdfs_send_command" where
  "readdir_command filp path path_len header = (send_command F_ITERATE
     (struct_bytes readdir_request
        ((''path_len'', path_len) #
         (case header of None \<Rightarrow> []
          | Some h \<Rightarrow> [(''dcache_crtime'', unat (dcache_crtime h)), (''dcache_crtime_nsec'', unat (dcache_crtime_nsec h)),
                      (''dentry_ctime'', unat (dentry_ctime h)), (''dentry_ctime_nsec'', unat (dentry_ctime_nsec h)),
                      (''num'', unat (dcache_num h)), (''verify_cache'', 1)]))
      @ strncpy path path_len @ [0]))\<lparr>sc_filp := Some filp\<rparr>"

definition mkdir_command :: "byte list \<Rightarrow> byte list \<Rightarrow> u16 \<Rightarrow> hmdfs_send_command" where
  "mkdir_command path name mode = send_command F_MKDIR
     (struct_bytes mkdir_request
        [(''path_len'', length path), (''name_len'', length name), (''mode'', unat mode)] @ nul_strings [path, name])"

definition create_command :: "byte list \<Rightarrow> byte list \<Rightarrow> u16 \<Rightarrow> bool \<Rightarrow> hmdfs_send_command" where
  "create_command path name mode want_excl = send_command F_CREATE
     (struct_bytes create_request
        [(''path_len'', length path), (''name_len'', length name), (''mode'', unat mode),
         (''want_excl'', if want_excl then 1 else 0)] @ nul_strings [path, name])"

definition rmdir_command :: "byte list \<Rightarrow> byte list \<Rightarrow> hmdfs_send_command" where
  "rmdir_command path name = send_command F_RMDIR
     (struct_bytes rmdir_request [(''path_len'', length path), (''name_len'', length name)] @ nul_strings [path, name])"

definition unlink_command :: "byte list \<Rightarrow> byte list \<Rightarrow> hmdfs_send_command" where
  "unlink_command path name = send_command F_UNLINK
     (struct_bytes unlink_request [(''path_len'', length path), (''name_len'', length name)] @ nul_strings [path, name])"

definition rename_command :: "byte list \<Rightarrow> byte list \<Rightarrow> byte list \<Rightarrow> byte list \<Rightarrow> u32 \<Rightarrow> hmdfs_send_command" where
  "rename_command old_path old_name new_path new_name flags = send_command F_RENAME
     (struct_bytes rename_request
        [(''old_path_len'', length old_path), (''new_path_len'', length new_path), (''old_name_len'', length old_name),
         (''new_name_len'', length new_name), (''flags'', unat flags)]
      @ nul_strings [old_path, new_path, old_name, new_name])"

record setattr_info =
  sa_size :: u64
  sa_valid :: u32
  sa_mtime :: u64
  sa_mtime_nsec :: u32

definition setattr_command :: "byte list \<Rightarrow> setattr_info \<Rightarrow> hmdfs_send_command" where
  "setattr_command path a = send_command F_SETATTR
     (struct_bytes setattr_request
        [(''path_len'', length path), (''valid'', unat (sa_valid a)), (''size'', unat (sa_size a)),
         (''mtime'', unat (sa_mtime a)), (''mtime_nsec'', unat (sa_mtime_nsec a))] @ nul_strings [path])"

definition getattr_command :: "byte list \<Rightarrow> u32 \<Rightarrow> hmdfs_send_command" where
  "getattr_command path lookup_flags = send_command F_GETATTR
     (struct_bytes getattr_request [(''path_len'', length path), (''lookup_flags'', unat lookup_flags)] @ nul_strings [path])"

definition statfs_command :: "byte list \<Rightarrow> hmdfs_send_command" where
  "statfs_command path = send_command F_STATFS
     (struct_bytes statfs_request [(''path_len'', length path)] @ nul_strings [path])"

definition syncfs_command :: "u64 \<Rightarrow> hmdfs_send_command" where
  "syncfs_command ver = send_command F_SYNCFS (struct_bytes syncfs_request [(''version'', unat ver)])"

definition getxattr_command :: "byte list \<Rightarrow> byte list \<Rightarrow> nat \<Rightarrow> hmdfs_send_command" where
  "getxattr_command path name sz = send_command F_GETXATTR
     (struct_bytes getxattr_request
        [(''path_len'', length path), (''name_len'', length name), (''size'', sz)] @ nul_strings [path, name])"

text \<open>A value to remove is \<open>NULL\<close>: the buffer keeps \<open>sz\<close> zero bytes and the request says \<open>del\<close>.\<close>

definition setxattr_command :: "byte list \<Rightarrow> byte list \<Rightarrow> byte list option \<Rightarrow> nat \<Rightarrow> u32 \<Rightarrow> hmdfs_send_command" where
  "setxattr_command path name val sz flags = send_command F_SETXATTR
     (struct_bytes setxattr_request
        [(''path_len'', length path), (''name_len'', length name), (''size'', sz), (''flags'', unat flags),
         (''del'', case val of None \<Rightarrow> 1 | Some _ \<Rightarrow> 0)]
      @ nul_strings [path, name] @ (case val of None \<Rightarrow> replicate sz 0 | Some v \<Rightarrow> take sz v))"

definition listxattr_command :: "byte list \<Rightarrow> nat \<Rightarrow> hmdfs_send_command" where
  "listxattr_command path sz = send_command F_LISTXATTR
     (struct_bytes listxattr_request [(''path_len'', length path), (''size'', sz)] @ nul_strings [path])"

definition drop_push_command :: "byte list \<Rightarrow> hmdfs_send_command" where
  "drop_push_command path = send_command F_DROP_PUSH
     (struct_bytes drop_push_request [(''path_len'', length path)] @ nul_strings [path])"

section \<open>The answers\<close>

text \<open>
  What a function of the client leaves behind: its return value, what it filled
  in, and whether it forgot the buffer of the response.
\<close>

type_synonym reply = "int \<times> byte list option \<times> u64"

record 'a client_result =
  cr_ret :: int
  cr_out :: "'a option"
  cr_leaked :: bool

text \<open>\<open>free_sm_outbuf\<close> frees a buffer unless its length is 0.\<close>

definition free_sm_outbuf :: "int \<Rightarrow> 'a option \<Rightarrow> byte list option \<Rightarrow> u64 \<Rightarrow> 'a client_result" where
  "free_sm_outbuf ret out buf len = \<lparr>cr_ret = ret, cr_out = out, cr_leaked = (buf \<noteq> None \<and> len = 0)\<rparr>"

definition no_buffer :: "int \<Rightarrow> 'a client_result" where
  "no_buffer ret = \<lparr>cr_ret = ret, cr_out = None, cr_leaked = False\<rparr>"

definition keep_outbuf :: "int \<Rightarrow> byte list option \<Rightarrow> unit client_result" where
  "keep_outbuf ret buf = \<lparr>cr_ret = ret, cr_out = None, cr_leaked = (buf \<noteq> None)\<rparr>"

text \<open>No error but no body either.\<close>

definition empty_is_enoent :: "int \<Rightarrow> byte list option \<Rightarrow> u64 \<Rightarrow> int" where
  "empty_is_enoent ret buf len = (if ret = 0 \<and> (len = 0 \<or> buf = None) then - ENOENT else ret)"

record hmdfs_open_ret =
  or_fid :: hmdfs_fid
  or_file_size :: u64
  or_ino :: u64
  or_remote_ctime :: "u64 \<times> u32"
  or_stable_ctime :: "u64 \<times> u32"

definition open_ret_of :: "byte list \<Rightarrow> hmdfs_open_ret option" where
  "open_ret_of resp = do {
     ino \<leftarrow> fld open_response ''ino'' resp;
     ver \<leftarrow> fld open_response ''file_ver'' resp;
     fid \<leftarrow> fld open_response ''file_id'' resp;
     file_size \<leftarrow> fld open_response ''file_size'' resp;
     ctime \<leftarrow> fld open_response ''ctime'' resp;
     ctime_nsec \<leftarrow> fld open_response ''ctime_nsec'' resp;
     stable_ctime \<leftarrow> fld open_response ''stable_ctime'' resp;
     stable_ctime_nsec \<leftarrow> fld open_response ''stable_ctime_nsec'' resp;
     Some \<lparr>or_fid = \<lparr>fid_ver = of_nat ver, fid_id = of_nat fid\<rparr>, or_file_size = of_nat file_size, or_ino = of_nat ino,
           or_remote_ctime = (of_nat ctime, of_nat ctime_nsec),
           or_stable_ctime = (of_nat stable_ctime, of_nat stable_ctime_nsec)\<rparr> }"

definition hmdfs_send_open ::
  "bool \<Rightarrow> (hmdfs_send_command \<Rightarrow> reply) \<Rightarrow> byte list \<Rightarrow> byte \<Rightarrow> hmdfs_open_ret client_result option" where
  "hmdfs_send_open alloc ask path file_type =
     (if \<not> alloc then Some (no_buffer (- ENOMEM))
      else case ask (open_command path file_type) of (ret, buf, len) \<Rightarrow>
        let ret1 = empty_is_enoent ret buf len in
        if ret1 \<noteq> 0 then Some (free_sm_outbuf ret1 None buf len)
        else do { resp \<leftarrow> buf; out \<leftarrow> open_ret_of resp; Some (free_sm_outbuf 0 (Some out) buf len) })"

definition hmdfs_send_close :: "bool \<Rightarrow> (hmdfs_send_command \<Rightarrow> reply) \<Rightarrow> hmdfs_fid \<Rightarrow> unit client_result" where
  "hmdfs_send_close alloc ask fid =
     (if \<not> alloc then no_buffer 0
      else case ask (close_command fid) of (ret, buf, len) \<Rightarrow> keep_outbuf 0 buf)"

definition hmdfs_send_fsync ::
  "bool \<Rightarrow> (hmdfs_send_command \<Rightarrow> reply) \<Rightarrow> hmdfs_fid \<Rightarrow> u64 \<Rightarrow> u64 \<Rightarrow> u32 \<Rightarrow> unit client_result" where
  "hmdfs_send_fsync alloc ask fid start end_pos datasync =
     (if \<not> alloc then no_buffer (- ENOMEM)
      else case ask (fsync_command fid start end_pos datasync) of (ret, buf, len) \<Rightarrow> free_sm_outbuf ret None buf len)"

text \<open>The file of the transfer is passed on; its response is stored by the works of the receiver.\<close>

definition hmdfs_client_start_readdir ::
  "bool \<Rightarrow> (hmdfs_send_command \<Rightarrow> reply) \<Rightarrow> byte list \<Rightarrow> byte list \<Rightarrow> nat \<Rightarrow> hmdfs_dcache_header option
   \<Rightarrow> unit client_result" where
  "hmdfs_client_start_readdir alloc ask filp path path_len header =
     (if \<not> alloc then no_buffer (- ENOMEM)
      else case ask (readdir_command filp path path_len header) of (ret, buf, len) \<Rightarrow> keep_outbuf ret buf)"

definition lookup_ret_of_resp :: "byte list \<Rightarrow> hmdfs_lookup_ret option" where
  "lookup_ret_of_resp resp = do {
     i_mode \<leftarrow> fld hmdfs_inodeinfo_response ''i_mode'' resp;
     i_size \<leftarrow> fld hmdfs_inodeinfo_response ''i_size'' resp;
     i_mtime \<leftarrow> fld hmdfs_inodeinfo_response ''i_mtime'' resp;
     i_mtime_nsec \<leftarrow> fld hmdfs_inodeinfo_response ''i_mtime_nsec'' resp;
     i_ino \<leftarrow> fld hmdfs_inodeinfo_response ''i_ino'' resp;
     Some \<lparr>lr_size = of_nat i_size, lr_mtime = of_nat i_mtime, lr_mtime_nsec = of_nat i_mtime_nsec,
           lr_mode = of_nat i_mode, lr_ino = of_nat i_ino\<rparr> }"

text \<open>
  The end of \<open>mkdir\<close> and \<open>create\<close>: three errors return, all other answers are read
  as a successful one.
\<close>

definition inode_answer :: "reply \<Rightarrow> hmdfs_lookup_ret client_result option" where
  "inode_answer r =
     (case r of (ret, buf, len) \<Rightarrow>
        if ret \<in> {- ENOENT, - ETIME, - EOPNOTSUPP} then Some (free_sm_outbuf ret None buf len)
        else case buf of
          None \<Rightarrow> Some (free_sm_outbuf (- ENOENT) None buf len)
        | Some resp \<Rightarrow> do { out \<leftarrow> lookup_ret_of_resp resp; Some (free_sm_outbuf ret (Some out) buf len) })"

definition hmdfs_client_start_mkdir ::
  "bool \<Rightarrow> (hmdfs_send_command \<Rightarrow> reply) \<Rightarrow> byte list \<Rightarrow> byte list \<Rightarrow> u16 \<Rightarrow> hmdfs_lookup_ret client_result option" where
  "hmdfs_client_start_mkdir alloc ask path name mode =
     (if \<not> alloc then Some (no_buffer (- ENOMEM)) else inode_answer (ask (mkdir_command path name mode)))"

definition hmdfs_client_start_create ::
  "bool \<Rightarrow> (hmdfs_send_command \<Rightarrow> reply) \<Rightarrow> byte list \<Rightarrow> byte list \<Rightarrow> u16 \<Rightarrow> bool
   \<Rightarrow> hmdfs_lookup_ret client_result option" where
  "hmdfs_client_start_create alloc ask path name mode want_excl =
     (if \<not> alloc then Some (no_buffer (- ENOMEM)) else inode_answer (ask (create_command path name mode want_excl)))"

definition hmdfs_client_start_rmdir ::
  "bool \<Rightarrow> (hmdfs_send_command \<Rightarrow> reply) \<Rightarrow> byte list \<Rightarrow> byte list \<Rightarrow> unit client_result" where
  "hmdfs_client_start_rmdir alloc ask path name =
     (if \<not> alloc then no_buffer (- ENOMEM)
      else case ask (rmdir_command path name) of (ret, buf, len) \<Rightarrow> free_sm_outbuf ret None buf len)"

definition hmdfs_client_start_unlink ::
  "bool \<Rightarrow> (hmdfs_send_command \<Rightarrow> reply) \<Rightarrow> byte list \<Rightarrow> byte list \<Rightarrow> unit client_result" where
  "hmdfs_client_start_unlink alloc ask path name =
     (if \<not> alloc then no_buffer (- ENOMEM)
      else case ask (unlink_command path name) of (ret, buf, len) \<Rightarrow> free_sm_outbuf ret None buf len)"

definition hmdfs_client_start_rename ::
  "bool \<Rightarrow> (hmdfs_send_command \<Rightarrow> reply) \<Rightarrow> byte list \<Rightarrow> byte list \<Rightarrow> byte list \<Rightarrow> byte list \<Rightarrow> u32
   \<Rightarrow> unit client_result" where
  "hmdfs_client_start_rename alloc ask old_path old_name new_path new_name flags =
     (if \<not> alloc then no_buffer (- ENOMEM)
      else case ask (rename_command old_path old_name new_path new_name flags) of (ret, buf, len) \<Rightarrow>
        free_sm_outbuf ret None buf len)"

definition hmdfs_send_setattr ::
  "bool \<Rightarrow> (hmdfs_send_command \<Rightarrow> reply) \<Rightarrow> byte list \<Rightarrow> setattr_info \<Rightarrow> unit client_result" where
  "hmdfs_send_setattr alloc ask path a =
     (if \<not> alloc then no_buffer (- ENOMEM)
      else case ask (setattr_command path a) of (ret, buf, len) \<Rightarrow> keep_outbuf ret buf)"

record kstat =
  st_result_mask :: u32
  st_ino :: u64
  st_mode :: u16
  st_nlink :: u32
  st_uid :: u32
  st_gid :: u32
  st_size :: u64
  st_blocks :: u64
  st_blksize :: u32
  st_atime :: "u64 \<times> u32"
  st_mtime :: "u64 \<times> u32"
  st_ctime :: "u64 \<times> u32"
  st_btime :: "u64 \<times> u32"
  st_fsid :: u64

definition time_of :: "byte list \<Rightarrow> string \<Rightarrow> string \<Rightarrow> (u64 \<times> u32) option" where
  "time_of resp sec nsec = do {
     s \<leftarrow> fld getattr_response sec resp; n \<leftarrow> fld getattr_response nsec resp; Some (of_nat s, of_nat n) }"

text \<open>\<open>stat\<close> is what the caller passed in; a result without a mask fills in only the mask.\<close>

definition hmdfs_update_getattr_ret :: "byte list \<Rightarrow> kstat \<Rightarrow> kstat option" where
  "hmdfs_update_getattr_ret resp stat = do {
     mask \<leftarrow> fld getattr_response ''result_mask'' resp;
     if mask = 0 then Some (stat\<lparr>st_result_mask := 0\<rparr>) else do {
       ino \<leftarrow> fld getattr_response ''ino'' resp;
       mode \<leftarrow> fld getattr_response ''mode'' resp;
       nlink \<leftarrow> fld getattr_response ''nlink'' resp;
       uid \<leftarrow> fld getattr_response ''uid'' resp;
       gid \<leftarrow> fld getattr_response ''gid'' resp;
       sz \<leftarrow> fld getattr_response ''size'' resp;
       blocks \<leftarrow> fld getattr_response ''blocks'' resp;
       blksize \<leftarrow> fld getattr_response ''blksize'' resp;
       atime \<leftarrow> time_of resp ''atime'' ''atime_nsec'';
       mtime \<leftarrow> time_of resp ''mtime'' ''mtime_nsec'';
       ctime \<leftarrow> time_of resp ''ctime'' ''ctime_nsec'';
       btime \<leftarrow> time_of resp ''crtime'' ''crtime_nsec'';
       fsid \<leftarrow> fld getattr_response ''fsid'' resp;
       Some \<lparr>st_result_mask = of_nat mask, st_ino = of_nat ino, st_mode = of_nat mode, st_nlink = of_nat nlink,
             st_uid = of_nat uid, st_gid = of_nat gid, st_size = of_nat sz, st_blocks = of_nat blocks,
             st_blksize = of_nat blksize, st_atime = atime, st_mtime = mtime, st_ctime = ctime, st_btime = btime,
             st_fsid = of_nat fsid\<rparr> } }"

definition hmdfs_send_getattr ::
  "bool \<Rightarrow> (hmdfs_send_command \<Rightarrow> reply) \<Rightarrow> byte list \<Rightarrow> u32 \<Rightarrow> kstat \<Rightarrow> kstat client_result option" where
  "hmdfs_send_getattr alloc ask path lookup_flags stat =
     (if \<not> alloc then Some (no_buffer (- ENOMEM))
      else case ask (getattr_command path lookup_flags) of (ret, buf, len) \<Rightarrow>
        let ret1 = empty_is_enoent ret buf len in
        if ret1 \<noteq> 0 then Some (free_sm_outbuf ret1 None buf len)
        else do { resp \<leftarrow> buf; out \<leftarrow> hmdfs_update_getattr_ret resp stat; Some (free_sm_outbuf 0 (Some out) buf len) })"

text \<open>The fields of \<open>kstatfs\<close> in the order of the response, which has the same.\<close>

definition statfs_fields :: "string list" where
  "statfs_fields = [''f_type'', ''f_bsize'', ''f_blocks'', ''f_bfree'', ''f_bavail'', ''f_files'', ''f_ffree'',
     ''f_fsid_0'', ''f_fsid_1'', ''f_namelen'', ''f_frsize'', ''f_flags'', ''f_spare_0'', ''f_spare_1'', ''f_spare_2'', ''f_spare_3'']"

definition hmdfs_update_statfs_ret :: "byte list \<Rightarrow> nat list option" where
  "hmdfs_update_statfs_ret resp = those (map (\<lambda>f. fld statfs_response f resp) statfs_fields)"

definition hmdfs_send_statfs :: "bool \<Rightarrow> (hmdfs_send_command \<Rightarrow> reply) \<Rightarrow> byte list \<Rightarrow> nat list client_result option" where
  "hmdfs_send_statfs alloc ask path =
     (if \<not> alloc then Some (no_buffer (- ENOMEM))
      else case ask (statfs_command path) of (ret, buf, len) \<Rightarrow>
        let ret1 = empty_is_enoent (if ret = - ETIME then - EIO else ret) buf len in
        if ret1 \<noteq> 0 then Some (free_sm_outbuf ret1 None buf len)
        else do { resp \<leftarrow> buf; out \<leftarrow> hmdfs_update_statfs_ret resp; Some (free_sm_outbuf 0 (Some out) buf len) })"

text \<open>
  The value or list of an extended attribute: the return value is its size; with
  a buffer of the caller (\<open>o_size\<close> bytes) it is copied.
\<close>

definition hmdfs_update_getxattr_ret :: "byte list \<Rightarrow> nat \<Rightarrow> (int \<times> byte list option) option" where
  "hmdfs_update_getxattr_ret resp o_size = do {
     sz \<leftarrow> fld getxattr_response ''size'' resp;
     if o_size \<noteq> 0 \<and> o_size < sz then Some (- ERANGE, None)
     else if o_size \<noteq> 0
     then if sizeof getxattr_response + sz \<le> length resp
          then Some (int sz, Some (take sz (drop (sizeof getxattr_response) resp))) else None
     else Some (int sz, None) }"

definition hmdfs_send_getxattr ::
  "bool \<Rightarrow> (hmdfs_send_command \<Rightarrow> reply) \<Rightarrow> byte list \<Rightarrow> byte list \<Rightarrow> nat \<Rightarrow> byte list client_result option" where
  "hmdfs_send_getxattr alloc ask path name o_size =
     (if \<not> alloc then Some (no_buffer (- ENOMEM))
      else case ask (getxattr_command path name o_size) of (ret, buf, len) \<Rightarrow>
        let ret1 = empty_is_enoent ret buf len in
        if ret1 \<noteq> 0 then Some (free_sm_outbuf ret1 None buf len)
        else do { resp \<leftarrow> buf; (r, out) \<leftarrow> hmdfs_update_getxattr_ret resp o_size; Some (free_sm_outbuf r out buf len) })"

definition hmdfs_send_setxattr ::
  "bool \<Rightarrow> (hmdfs_send_command \<Rightarrow> reply) \<Rightarrow> byte list \<Rightarrow> byte list \<Rightarrow> byte list option \<Rightarrow> nat \<Rightarrow> u32 \<Rightarrow> unit client_result" where
  "hmdfs_send_setxattr alloc ask path name val sz flags =
     (if \<not> alloc then no_buffer (- ENOMEM)
      else case ask (setxattr_command path name val sz flags) of (ret, buf, len) \<Rightarrow> keep_outbuf ret buf)"

definition hmdfs_update_listxattr_ret :: "byte list \<Rightarrow> nat \<Rightarrow> (int \<times> byte list option) option" where
  "hmdfs_update_listxattr_ret resp o_size = do {
     sz \<leftarrow> fld listxattr_response ''size'' resp;
     if o_size \<noteq> 0 \<and> o_size < sz then Some (- ERANGE, None)
     else if o_size \<noteq> 0
     then if sizeof listxattr_response + sz \<le> length resp
          then Some (int sz, Some (take sz (drop (sizeof listxattr_response) resp))) else None
     else Some (int sz, None) }"

definition hmdfs_send_listxattr ::
  "bool \<Rightarrow> (hmdfs_send_command \<Rightarrow> reply) \<Rightarrow> byte list \<Rightarrow> nat \<Rightarrow> byte list client_result option" where
  "hmdfs_send_listxattr alloc ask path o_size =
     (if \<not> alloc then Some (no_buffer (- ENOMEM))
      else case ask (listxattr_command path o_size) of (ret, buf, len) \<Rightarrow>
        let ret1 = empty_is_enoent ret buf len in
        if ret1 \<noteq> 0 then Some (free_sm_outbuf ret1 None buf len)
        else do { resp \<leftarrow> buf; (r, out) \<leftarrow> hmdfs_update_listxattr_ret resp o_size; Some (free_sm_outbuf r out buf len) })"

definition hmdfs_send_drop_push :: "bool \<Rightarrow> (hmdfs_send_command \<Rightarrow> reply) \<Rightarrow> byte list \<Rightarrow> unit client_result" where
  "hmdfs_send_drop_push alloc ask path =
     (if \<not> alloc then no_buffer 0
      else case ask (drop_push_command path) of (ret, buf, len) \<Rightarrow> keep_outbuf 0 buf)"

section \<open>Every request passes the verification of the peer\<close>

text \<open>The calls of the client, with the limits the VFS keeps for their arguments.\<close>

datatype client_call =
    Open "byte list" byte
  | Close hmdfs_fid
  | Fsync hmdfs_fid u64 u64 u32
  | Readpage hmdfs_fid u64
  | Writepage hmdfs_fid u64 u32 "byte list"
  | Readdir "byte list" "byte list" "hmdfs_dcache_header option"
  | Mkdir "byte list" "byte list" u16
  | Create "byte list" "byte list" u16 bool
  | Rmdir "byte list" "byte list"
  | Unlink "byte list" "byte list"
  | Rename "byte list" "byte list" "byte list" "byte list" u32
  | Setattr "byte list" setattr_info
  | Getattr "byte list" u32
  | Statfs "byte list"
  | Syncfs u64
  | Getxattr "byte list" "byte list" nat
  | Setxattr "byte list" "byte list" "byte list option" nat u32
  | Listxattr "byte list" nat
  | Drop_push "byte list"

fun call_command :: "client_call \<Rightarrow> hmdfs_send_command" where
  "call_command (Open path t) = open_command path t"
| "call_command (Close fid) = close_command fid"
| "call_command (Fsync fid s e d) = fsync_command fid s e d"
| "call_command (Readpage fid i) = readpage_command fid i"
| "call_command (Writepage fid i n page) = writepage_command fid i n page"
| "call_command (Readdir filp path h) = readdir_command filp path (length path) h"
| "call_command (Mkdir path name m) = mkdir_command path name m"
| "call_command (Create path name m x) = create_command path name m x"
| "call_command (Rmdir path name) = rmdir_command path name"
| "call_command (Unlink path name) = unlink_command path name"
| "call_command (Rename op on np nn fl) = rename_command op on np nn fl"
| "call_command (Setattr path a) = setattr_command path a"
| "call_command (Getattr path fl) = getattr_command path fl"
| "call_command (Statfs path) = statfs_command path"
| "call_command (Syncfs v) = syncfs_command v"
| "call_command (Getxattr path name n) = getxattr_command path name n"
| "call_command (Setxattr path name v n fl) = setxattr_command path name v n fl"
| "call_command (Listxattr path n) = listxattr_command path n"
| "call_command (Drop_push path) = drop_push_command path"

definition path_ok :: "byte list \<Rightarrow> bool" where
  "path_ok s \<longleftrightarrow> 0 \<notin> set s \<and> length s < PATH_MAX"

definition comp_ok :: "byte list \<Rightarrow> bool" where
  "comp_ok s \<longleftrightarrow> 0 \<notin> set s \<and> length s \<le> NAME_MAX"

fun call_ok :: "client_call \<Rightarrow> bool" where
  "call_ok (Open path t) = path_ok path"
| "call_ok (Writepage fid i n page) = (0 < n \<and> n \<le> 4096 \<and> length page = HMDFS_PAGE_SIZE)"
| "call_ok (Readdir filp path h) = path_ok path"
| "call_ok (Mkdir path name m) = (path_ok path \<and> comp_ok name)"
| "call_ok (Create path name m x) = (path_ok path \<and> comp_ok name)"
| "call_ok (Rmdir path name) = (path_ok path \<and> comp_ok name)"
| "call_ok (Unlink path name) = (path_ok path \<and> comp_ok name)"
| "call_ok (Rename op on np nn fl) = (path_ok op \<and> comp_ok on \<and> path_ok np \<and> comp_ok nn)"
| "call_ok (Setattr path a) = path_ok path"
| "call_ok (Getattr path fl) = path_ok path"
| "call_ok (Statfs path) = path_ok path"
| "call_ok (Getxattr path name n) = (path_ok path \<and> comp_ok name \<and> n \<le> XATTR_SIZE_MAX)"
| "call_ok (Setxattr path name v n fl) =
     (path_ok path \<and> comp_ok name \<and> n \<le> HMDFS_XATTR_SIZE_MAX \<and> (case v of None \<Rightarrow> True | Some x \<Rightarrow> length x = n))"
| "call_ok (Listxattr path n) = (path_ok path \<and> n \<le> XATTR_LIST_MAX)"
| "call_ok (Drop_push path) = path_ok path"
| "call_ok _ = True"

end
