(* ===== verification/Server_Ops.thy ===== *)
theory Server_Ops
  imports Server_Path Client_Req File_Transfer
begin

text \<open>
  The server side of the requests on names and attributes
  (\<open>src/hmdfs/hmdfs_server.c\<close>). A handler gets the head and the body of a verified
  request; it reads the strings of the body, refuses \<open>..\<close> components, calls the
  file system and answers. The file system below, with the wrappers \<open>hmdfs_root_*\<close>
  around it, is a record of functions that give the result of each call; the
  calls are recorded. \<open>None\<close> is a read outside the body, or a response whose
  bytes are taken from \<open>NULL\<close>.
\<close>

section \<open>The file system below\<close>

record iattr =
  ia_valid :: u32
  ia_size :: u64
  ia_mtime :: "u64 \<times> u32"

text \<open>
  Where the attributes of a path are read and set: at the path below the root, or
  at the file a symbolic link leads to outside of this file system.
\<close>

datatype dst_path =
    Below_root "byte list"
  | Link_target "byte list"

text \<open>What \<open>kern_path\<close> arrives at when it follows a path: where, is it a regular file, is it in hmdfs.\<close>

record link_path =
  lp_path :: "byte list"
  lp_isreg :: bool
  lp_hmdfs :: bool

datatype vfs_op =
    Vfs_mkdir "byte list" "byte list" u16
  | Vfs_create "byte list" "byte list" u16 bool
  | Vfs_rmdir "byte list" "byte list"
  | Vfs_unlink "byte list" "byte list"
  | Vfs_rename "byte list" "byte list" "byte list" "byte list" u32
  | Vfs_lookup "byte list" u32
  | Vfs_follow "byte list" "byte list"
  | Vfs_setattr dst_path iattr
  | Vfs_getattr dst_path
  | Vfs_statfs "byte list"
  | Vfs_getxattr "byte list" "byte list" nat
  | Vfs_setxattr "byte list" "byte list" "byte list" u32
  | Vfs_removexattr "byte list" "byte list"
  | Vfs_listxattr "byte list" nat
  | Vfs_lookup_view "byte list"
  | Vfs_drop_cache "byte list"

record vfs =
  vfs_alloc :: bool
  vfs_root :: int
  vfs_mkdir :: "byte list \<Rightarrow> byte list \<Rightarrow> u16 \<Rightarrow> int + inode_attr"
  vfs_create :: "byte list \<Rightarrow> byte list \<Rightarrow> u16 \<Rightarrow> bool \<Rightarrow> int + inode_attr"
  vfs_rmdir :: "byte list \<Rightarrow> byte list \<Rightarrow> int"
  vfs_unlink :: "byte list \<Rightarrow> byte list \<Rightarrow> int"
  vfs_rename :: "byte list \<Rightarrow> byte list \<Rightarrow> byte list \<Rightarrow> byte list \<Rightarrow> u32 \<Rightarrow> int"
  vfs_lookup :: "byte list \<Rightarrow> u32 \<Rightarrow> int"
  vfs_inode :: "byte list \<Rightarrow> inode_attr option"
  vfs_local_dst :: "byte list"
  vfs_follow :: "byte list \<Rightarrow> int + link_path"
  vfs_notify_change :: "dst_path \<Rightarrow> iattr \<Rightarrow> int"
  vfs_stat :: "dst_path \<Rightarrow> int \<times> kstat"
  vfs_statfs :: "byte list \<Rightarrow> int \<times> nat list"
  vfs_get_xattr :: "byte list \<Rightarrow> byte list \<Rightarrow> nat \<Rightarrow> int \<times> byte list"
  vfs_set_xattr :: "byte list \<Rightarrow> byte list \<Rightarrow> byte list \<Rightarrow> u32 \<Rightarrow> int"
  vfs_remove_xattr :: "byte list \<Rightarrow> byte list \<Rightarrow> int"
  vfs_list_xattr :: "byte list \<Rightarrow> nat \<Rightarrow> int \<times> byte list"
  vfs_cid :: "byte list"

type_synonym outcome = "vfs_op list \<times> (hmdfs_head_cmd \<times> byte list) list"

section \<open>Reading the body\<close>

definition bytes_at :: "byte list \<Rightarrow> nat \<Rightarrow> nat \<Rightarrow> byte list option" where
  "bytes_at m off n = (if off + n \<le> length m then Some (take n (drop off m)) else None)"

definition cstr_at :: "byte list \<Rightarrow> nat \<Rightarrow> byte list option" where
  "cstr_at m off = (if 0 \<in> set (drop off m) then Some (takeWhile (\<lambda>b. b \<noteq> 0) (drop off m)) else None)"

text \<open>The checks of the strings at some positions, in order, up to the first that fails.\<close>

fun any_dotdot :: "byte list \<Rightarrow> (nat \<times> nat) list \<Rightarrow> bool option" where
  "any_dotdot m [] = Some False"
| "any_dotdot m ((off, n) # rest) = do {
     s \<leftarrow> bytes_at m off n;
     if path_contain_dotdot s then Some True else any_dotdot m rest }"

definition hmdfs_send_err_response :: "hmdfs_head_cmd \<Rightarrow> int \<Rightarrow> hmdfs_head_cmd \<times> byte list" where
  "hmdfs_send_err_response cmd err = hmdfs_sendmessage_response cmd [] err"

section \<open>Names\<close>

definition inode_response :: "inode_attr \<Rightarrow> u64 \<Rightarrow> byte list" where
  "inode_response i ino = struct_bytes hmdfs_inodeinfo_response
     [(''i_mode'', unat (i_mode i)), (''i_size'', unat (i_size i)), (''i_mtime'', unat (i_mtime i)),
      (''i_mtime_nsec'', unat (i_mtime_nsec i)), (''i_ino'', unat ino)]"

definition no_inode_response :: "byte list" where
  "no_inode_response = struct_bytes hmdfs_inodeinfo_response []"

definition hmdfs_server_mkdir :: "vfs \<Rightarrow> hmdfs_head_cmd \<Rightarrow> byte list \<Rightarrow> outcome option" where
  "hmdfs_server_mkdir v cmd data = do {
     path_len \<leftarrow> fld mkdir_request ''path_len'' data;
     name_len \<leftarrow> fld mkdir_request ''name_len'' data;
     mode \<leftarrow> fld mkdir_request ''mode'' data;
     (let base = sizeof mkdir_request; name_at = base + path_len + 1 in
      if \<not> vfs_alloc v then None
      else do {
        bad \<leftarrow> any_dotdot data [(base, path_len), (name_at, name_len)];
        if bad then Some ([], [hmdfs_sendmessage_response cmd no_inode_response (- EINVAL)])
        else do {
          dir \<leftarrow> cstr_at data base;
          name \<leftarrow> cstr_at data name_at;
          Some ([Vfs_mkdir dir name (of_nat mode)],
                [case vfs_mkdir v dir name (of_nat mode) of
                   Inl err \<Rightarrow> hmdfs_sendmessage_response cmd no_inode_response err
                 | Inr i \<Rightarrow> hmdfs_sendmessage_response cmd (inode_response i (i_ino i)) 0]) } }) }"

text \<open>The number of a created file is made from its lower inode, as \<open>open\<close> does.\<close>

definition hmdfs_server_create :: "vfs \<Rightarrow> hmdfs_head_cmd \<Rightarrow> byte list \<Rightarrow> outcome option" where
  "hmdfs_server_create v cmd data = do {
     path_len \<leftarrow> fld create_request ''path_len'' data;
     name_len \<leftarrow> fld create_request ''name_len'' data;
     mode \<leftarrow> fld create_request ''mode'' data;
     excl \<leftarrow> fld create_request ''want_excl'' data;
     (let base = sizeof create_request; name_at = base + path_len + 1 in
      if \<not> vfs_alloc v then None
      else do {
        bad \<leftarrow> any_dotdot data [(base, path_len), (name_at, name_len)];
        if bad then Some ([], [hmdfs_sendmessage_response cmd no_inode_response (- EINVAL)])
        else do {
          dir \<leftarrow> cstr_at data base;
          name \<leftarrow> cstr_at data name_at;
          Some ([Vfs_create dir name (of_nat mode) (excl \<noteq> 0)],
                [case vfs_create v dir name (of_nat mode) (excl \<noteq> 0) of
                   Inl err \<Rightarrow> hmdfs_sendmessage_response cmd no_inode_response err
                 | Inr i \<Rightarrow> hmdfs_sendmessage_response cmd (inode_response i (generate_u64_ino (i_ino i) (i_generation i))) 0]) } }) }"

definition hmdfs_server_rmdir :: "vfs \<Rightarrow> hmdfs_head_cmd \<Rightarrow> byte list \<Rightarrow> outcome option" where
  "hmdfs_server_rmdir v cmd data = do {
     path_len \<leftarrow> fld rmdir_request ''path_len'' data;
     name_len \<leftarrow> fld rmdir_request ''name_len'' data;
     (let base = sizeof rmdir_request; name_at = base + path_len + 1 in do {
        bad \<leftarrow> any_dotdot data [(base, path_len), (name_at, name_len)];
        if bad then Some ([], [hmdfs_send_err_response cmd (- EINVAL)])
        else if vfs_root v \<noteq> 0 then Some ([], [hmdfs_send_err_response cmd (vfs_root v)])
        else do {
          path \<leftarrow> cstr_at data base;
          name \<leftarrow> cstr_at data name_at;
          Some ([Vfs_rmdir path name], [hmdfs_send_err_response cmd (vfs_rmdir v path name)]) } }) }"

definition hmdfs_server_unlink :: "vfs \<Rightarrow> hmdfs_head_cmd \<Rightarrow> byte list \<Rightarrow> outcome option" where
  "hmdfs_server_unlink v cmd data = do {
     path_len \<leftarrow> fld unlink_request ''path_len'' data;
     name_len \<leftarrow> fld unlink_request ''name_len'' data;
     (let base = sizeof unlink_request; name_at = base + path_len + 1 in do {
        bad \<leftarrow> any_dotdot data [(base, path_len), (name_at, name_len)];
        if bad then Some ([], [hmdfs_send_err_response cmd (- EINVAL)])
        else if vfs_root v \<noteq> 0 then Some ([], [hmdfs_send_err_response cmd (vfs_root v)])
        else do {
          path \<leftarrow> cstr_at data base;
          name \<leftarrow> cstr_at data name_at;
          Some ([Vfs_unlink path name], [hmdfs_send_err_response cmd (vfs_unlink v path name)]) } }) }"

definition hmdfs_server_rename :: "vfs \<Rightarrow> hmdfs_head_cmd \<Rightarrow> byte list \<Rightarrow> outcome option" where
  "hmdfs_server_rename v cmd data = do {
     old_path_len \<leftarrow> fld rename_request ''old_path_len'' data;
     new_path_len \<leftarrow> fld rename_request ''new_path_len'' data;
     old_name_len \<leftarrow> fld rename_request ''old_name_len'' data;
     new_name_len \<leftarrow> fld rename_request ''new_name_len'' data;
     flags \<leftarrow> fld rename_request ''flags'' data;
     (let path_old = sizeof rename_request;
          path_new = path_old + old_path_len + 1;
          name_old = path_new + new_path_len + 1;
          name_new = name_old + old_name_len + 1 in do {
        bad \<leftarrow> any_dotdot data [(path_old, old_path_len), (path_new, new_path_len), (name_old, old_name_len), (name_new, new_name_len)];
        if bad then Some ([], [hmdfs_send_err_response cmd (- EINVAL)])
        else do {
          op \<leftarrow> cstr_at data path_old;
          on \<leftarrow> cstr_at data name_old;
          np \<leftarrow> cstr_at data path_new;
          nn \<leftarrow> cstr_at data name_new;
          Some ([Vfs_rename op on np nn (of_nat flags)],
                [hmdfs_send_err_response cmd (vfs_rename v op on np nn (of_nat flags))]) } }) }"

section \<open>Attributes\<close>

abbreviation (input) ATTR_SIZE :: u32 where "ATTR_SIZE \<equiv> 8"
abbreviation (input) ATTR_MTIME :: u32 where "ATTR_MTIME \<equiv> 32"
abbreviation (input) ATTR_MTIME_SET :: u32 where "ATTR_MTIME_SET \<equiv> 256"

definition setattr_attrs :: "byte list \<Rightarrow> iattr option" where
  "setattr_attrs data = do {
     v \<leftarrow> fld setattr_request ''valid'' data;
     sz \<leftarrow> fld setattr_request ''size'' data;
     mtime \<leftarrow> fld setattr_request ''mtime'' data;
     mtime_nsec \<leftarrow> fld setattr_request ''mtime_nsec'' data;
     (let valid = of_nat v :: u32 in
      Some \<lparr>ia_valid = (if valid AND (ATTR_SIZE OR ATTR_MTIME) \<noteq> 0
                        then valid AND (ATTR_MTIME OR ATTR_MTIME_SET OR ATTR_SIZE) else 0),
            ia_size = of_nat sz, ia_mtime = (of_nat mtime, of_nat mtime_nsec)\<rparr>) }"

text \<open>
  A path is looked up below the root. If it is a symbolic link, the mount point and
  the path are followed anew (\<open>LOOKUP_FOLLOW\<close>), wherever the link leads; a regular file of
  another file system takes the place of the link. A link that dangles is used itself.
\<close>

definition hmdfs_lookup_symlink :: "vfs \<Rightarrow> byte list \<Rightarrow> int + link_path" where
  "hmdfs_lookup_symlink v path =
     (if \<not> vfs_alloc v then Inl (- ENOMEM)
      else if length path \<ge> PATH_MAX then Inl (- ENAMETOOLONG)
      else case vfs_follow v path of
        Inl e \<Rightarrow> Inl e
      | Inr l \<Rightarrow> if \<not> lp_isreg l then Inl (- EOPNOTSUPP) else Inr l)"

definition hmdfs_lookup_linkpath :: "vfs \<Rightarrow> byte list \<Rightarrow> int \<times> dst_path" where
  "hmdfs_lookup_linkpath v path_name =
     (case hmdfs_lookup_symlink v (vfs_local_dst v @ [47] @ path_name) of
        Inl e \<Rightarrow> (e, Below_root path_name)
      | Inr l \<Rightarrow> (0, if \<not> lp_hmdfs l then Link_target (lp_path l) else Below_root path_name))"

text \<open>The destination of a path found below the root, with the call that follows a link.\<close>

definition follow_link :: "vfs \<Rightarrow> inode_attr \<Rightarrow> byte list \<Rightarrow> vfs_op list \<times> int \<times> dst_path" where
  "follow_link v i path =
     (if S_ISLNK (i_mode i)
      then (if vfs_alloc v \<and> length (vfs_local_dst v @ [47] @ path) < PATH_MAX then [Vfs_follow (vfs_local_dst v) path] else [],
            hmdfs_lookup_linkpath v path)
      else ([], 0, Below_root path))"

definition hmdfs_server_setattr :: "vfs \<Rightarrow> hmdfs_head_cmd \<Rightarrow> byte list \<Rightarrow> outcome option" where
  "hmdfs_server_setattr v cmd data = do {
     path_len \<leftarrow> fld setattr_request ''path_len'' data;
     attr \<leftarrow> setattr_attrs data;
     bad \<leftarrow> any_dotdot data [(sizeof setattr_request, path_len)];
     if bad then Some ([], [hmdfs_send_err_response cmd (- EINVAL)])
     else if vfs_root v \<noteq> 0 then Some ([], [hmdfs_send_err_response cmd (vfs_root v)])
     else do {
       path \<leftarrow> cstr_at data (sizeof setattr_request);
       if vfs_lookup v path 0 \<noteq> 0
       then Some ([Vfs_lookup path 0], [hmdfs_send_err_response cmd (vfs_lookup v path 0)])
       else (case vfs_inode v path of
               None \<Rightarrow> Some ([Vfs_lookup path 0], [hmdfs_send_err_response cmd (- ENOENT)])
             | Some i \<Rightarrow>
                 (case follow_link v i path of (ops, err, dst) \<Rightarrow>
                    if err \<noteq> 0 \<and> err \<noteq> - ENOENT
                    then Some (Vfs_lookup path 0 # ops, [hmdfs_send_err_response cmd err])
                    else Some (Vfs_lookup path 0 # ops @ [Vfs_setattr dst attr],
                               [hmdfs_send_err_response cmd (vfs_notify_change v dst attr)]))) } }"

abbreviation (input) HMDFS_LOOKUP_REVAL :: u32 where "HMDFS_LOOKUP_REVAL \<equiv> 1"
abbreviation (input) LOOKUP_REVAL :: u32 where "LOOKUP_REVAL \<equiv> 32"

definition hmdfs_convert_lookup_flags :: "u32 \<Rightarrow> int \<times> u32" where
  "hmdfs_convert_lookup_flags flags =
     (if flags AND (NOT HMDFS_LOOKUP_REVAL) \<noteq> 0 then (- EINVAL, 0)
      else if flags AND HMDFS_LOOKUP_REVAL \<noteq> 0 then (0, LOOKUP_REVAL) else (0, 0))"

abbreviation (input) STATX_MASK :: nat where "STATX_MASK \<equiv> 4095"

definition update_getattr_response :: "inode_attr \<Rightarrow> kstat \<Rightarrow> byte list" where
  "update_getattr_response i ks = struct_bytes getattr_response
     [(''ino'', unat (generate_u64_ino (i_ino i) (i_generation i))), (''mode'', unat (i_mode i)), (''result_mask'', STATX_MASK),
      (''fsid'', unat (st_fsid ks)), (''nlink'', unat (st_nlink ks)), (''uid'', unat (st_uid ks)), (''gid'', unat (st_gid ks)),
      (''size'', unat (st_size ks)), (''blocks'', unat (st_blocks ks)), (''blksize'', unat (st_blksize ks)),
      (''atime'', unat (fst (st_atime ks))), (''atime_nsec'', unat (snd (st_atime ks))),
      (''mtime'', unat (fst (st_mtime ks))), (''mtime_nsec'', unat (snd (st_mtime ks))),
      (''ctime'', unat (fst (st_ctime ks))), (''ctime_nsec'', unat (snd (st_ctime ks))),
      (''crtime'', unat (fst (st_btime ks))), (''crtime_nsec'', unat (snd (st_btime ks)))]"

text \<open>A failed lookup is answered with a body whose \<open>result_mask\<close> is 0.\<close>

definition hmdfs_server_getattr :: "vfs \<Rightarrow> hmdfs_head_cmd \<Rightarrow> byte list \<Rightarrow> outcome option" where
  "hmdfs_server_getattr v cmd data = do {
     path_len \<leftarrow> fld getattr_request ''path_len'' data;
     recv_flags \<leftarrow> fld getattr_request ''lookup_flags'' data;
     bad \<leftarrow> any_dotdot data [(sizeof getattr_request, path_len)];
     if bad then Some ([], [hmdfs_send_err_response cmd (- EINVAL)])
     else case hmdfs_convert_lookup_flags (of_nat recv_flags) of (err, flags) \<Rightarrow>
       if err \<noteq> 0 then Some ([], [hmdfs_send_err_response cmd err])
       else if \<not> vfs_alloc v then Some ([], [hmdfs_send_err_response cmd (- ENOMEM)])
       else if vfs_root v \<noteq> 0 then Some ([], [hmdfs_send_err_response cmd (vfs_root v)])
       else do {
         path \<leftarrow> cstr_at data (sizeof getattr_request);
         (let no_result = struct_bytes getattr_response [] in
          if vfs_lookup v path flags \<noteq> 0
          then Some ([Vfs_lookup path flags], [hmdfs_sendmessage_response cmd no_result (vfs_lookup v path flags)])
          else case vfs_inode v path of
            None \<Rightarrow> Some ([Vfs_lookup path flags], [hmdfs_sendmessage_response cmd no_result (- ENOENT)])
          | Some i \<Rightarrow>
              (case follow_link v i path of (ops, link_err, dst) \<Rightarrow>
                 if link_err \<noteq> 0 \<and> link_err \<noteq> - ENOENT
                 then Some (Vfs_lookup path flags # ops, [hmdfs_sendmessage_response cmd no_result link_err])
                 else case vfs_stat v dst of (err, ks) \<Rightarrow>
                   Some (Vfs_lookup path flags # ops @ [Vfs_getattr dst],
                         [if err \<noteq> 0 then hmdfs_send_err_response cmd err
                          else hmdfs_sendmessage_response cmd (update_getattr_response i ks) 0]))) } }"

abbreviation (input) HMDFS_SUPER_MAGIC :: nat where "HMDFS_SUPER_MAGIC \<equiv> 0x20200302"

text \<open>\<open>st\<close> has the fields of \<open>statfs_fields\<close>; the type is the one of hmdfs.\<close>

definition init_statfs_response :: "nat list \<Rightarrow> byte list" where
  "init_statfs_response st = struct_bytes statfs_response ((''f_type'', HMDFS_SUPER_MAGIC) # tl (zip statfs_fields st))"

definition hmdfs_server_statfs :: "vfs \<Rightarrow> hmdfs_head_cmd \<Rightarrow> byte list \<Rightarrow> outcome option" where
  "hmdfs_server_statfs v cmd data = do {
     path_len \<leftarrow> fld statfs_request ''path_len'' data;
     bad \<leftarrow> any_dotdot data [(sizeof statfs_request, path_len)];
     if bad then Some ([], [hmdfs_send_err_response cmd (- EINVAL)])
     else if \<not> vfs_alloc v then Some ([], [hmdfs_send_err_response cmd (- ENOMEM)])
     else if vfs_root v \<noteq> 0 then Some ([], [hmdfs_send_err_response cmd (vfs_root v)])
     else do {
       path \<leftarrow> cstr_at data (sizeof statfs_request);
       if vfs_lookup v path 0 \<noteq> 0
       then Some ([Vfs_lookup path 0], [hmdfs_send_err_response cmd (vfs_lookup v path 0)])
       else case vfs_statfs v path of (err, st) \<Rightarrow>
         Some ([Vfs_lookup path 0, Vfs_statfs path],
               [if err \<noteq> 0 then hmdfs_send_err_response cmd err
                else hmdfs_sendmessage_response cmd (init_statfs_response st) 0]) } }"

definition hmdfs_server_syncfs :: "vfs \<Rightarrow> hmdfs_head_cmd \<Rightarrow> byte list \<Rightarrow> outcome option" where
  "hmdfs_server_syncfs v cmd data = Some ([], [hmdfs_send_err_response cmd 0])"

section \<open>Extended attributes\<close>

text \<open>The size and a buffer of the requested size, which the value fills from its start.\<close>

definition xattr_response :: "nat \<Rightarrow> int \<Rightarrow> byte list \<Rightarrow> byte list" where
  "xattr_response sz ret val = le32 (of_int ret) @ take sz (val @ replicate sz 0)"

definition hmdfs_server_getxattr :: "vfs \<Rightarrow> hmdfs_head_cmd \<Rightarrow> byte list \<Rightarrow> outcome option" where
  "hmdfs_server_getxattr v cmd data = do {
     sz \<leftarrow> fld getxattr_request ''size'' data;
     path_len \<leftarrow> fld getxattr_request ''path_len'' data;
     name_len \<leftarrow> fld getxattr_request ''name_len'' data;
     (let base = sizeof getxattr_request; name_at = base + path_len + 1 in do {
        bad \<leftarrow> any_dotdot data [(base, path_len), (name_at, name_len)];
        if bad then Some ([], [hmdfs_send_err_response cmd (- EINVAL)])
        else if \<not> vfs_alloc v then Some ([], [hmdfs_send_err_response cmd (- ENOMEM)])
        else if vfs_root v \<noteq> 0 then Some ([], [hmdfs_send_err_response cmd (vfs_root v)])
        else do {
          path \<leftarrow> cstr_at data base;
          name \<leftarrow> cstr_at data name_at;
          if vfs_lookup v path 0 \<noteq> 0
          then Some ([Vfs_lookup path 0], [hmdfs_send_err_response cmd (vfs_lookup v path 0)])
          else case vfs_get_xattr v path name sz of (err, val) \<Rightarrow>
            Some ([Vfs_lookup path 0, Vfs_getxattr path name sz],
                  [if err < 0 then hmdfs_send_err_response cmd err
                   else hmdfs_sendmessage_response cmd (xattr_response sz err val) 0]) } }) }"

definition hmdfs_server_setxattr :: "vfs \<Rightarrow> hmdfs_head_cmd \<Rightarrow> byte list \<Rightarrow> outcome option" where
  "hmdfs_server_setxattr v cmd data = do {
     sz \<leftarrow> fld setxattr_request ''size'' data;
     flags \<leftarrow> fld setxattr_request ''flags'' data;
     del \<leftarrow> fld setxattr_request ''del'' data;
     path_len \<leftarrow> fld setxattr_request ''path_len'' data;
     name_len \<leftarrow> fld setxattr_request ''name_len'' data;
     (let base = sizeof setxattr_request; name_at = base + path_len + 1; value_at = name_at + name_len + 1 in do {
        bad \<leftarrow> any_dotdot data [(base, path_len), (name_at, name_len)];
        if bad then Some ([], [hmdfs_send_err_response cmd (- EINVAL)])
        else if vfs_root v \<noteq> 0 then Some ([], [hmdfs_send_err_response cmd (vfs_root v)])
        else do {
          path \<leftarrow> cstr_at data base;
          name \<leftarrow> cstr_at data name_at;
          if vfs_lookup v path 0 \<noteq> 0
          then Some ([Vfs_lookup path 0], [hmdfs_send_err_response cmd (vfs_lookup v path 0)])
          else if del \<noteq> 0
          then Some ([Vfs_lookup path 0, Vfs_removexattr path name],
                     [hmdfs_send_err_response cmd (vfs_remove_xattr v path name)])
          else do {
            val \<leftarrow> bytes_at data value_at sz;
            Some ([Vfs_lookup path 0, Vfs_setxattr path name val (of_nat flags)],
                  [hmdfs_send_err_response cmd (vfs_set_xattr v path name val (of_nat flags))]) } } }) }"

definition hmdfs_server_listxattr :: "vfs \<Rightarrow> hmdfs_head_cmd \<Rightarrow> byte list \<Rightarrow> outcome option" where
  "hmdfs_server_listxattr v cmd data = do {
     sz \<leftarrow> fld listxattr_request ''size'' data;
     path_len \<leftarrow> fld listxattr_request ''path_len'' data;
     bad \<leftarrow> any_dotdot data [(sizeof listxattr_request, path_len)];
     if bad then Some ([], [hmdfs_send_err_response cmd (- EINVAL)])
     else if \<not> vfs_alloc v then Some ([], [hmdfs_send_err_response cmd (- ENOMEM)])
     else if vfs_root v \<noteq> 0 then Some ([], [hmdfs_send_err_response cmd (vfs_root v)])
     else do {
       path \<leftarrow> cstr_at data (sizeof listxattr_request);
       if vfs_lookup v path 0 \<noteq> 0
       then Some ([Vfs_lookup path 0], [hmdfs_send_err_response cmd (vfs_lookup v path 0)])
       else case vfs_list_xattr v path sz of (err, val) \<Rightarrow>
         Some ([Vfs_lookup path 0, Vfs_listxattr path sz],
               [if err < 0 then hmdfs_send_err_response cmd err
                else hmdfs_sendmessage_response cmd (xattr_response sz err val) 0]) } }"

section \<open>Dropping a cached directory\<close>

text \<open>
  The path of the directory in the view of the peer's device, cut by \<open>snprintf\<close>:
  \<open>/device_view/\<close>, the id of the peer, and the path of the request.
\<close>

definition drop_push_path :: "byte list \<Rightarrow> byte list \<Rightarrow> byte list" where
  "drop_push_path cid path =
     take (PATH_MAX - 1) ([47, 100, 101, 118, 105, 99, 101, 95, 118, 105, 101, 119, 47] @ cid @ path)"

definition hmdfs_server_get_drop_push :: "vfs \<Rightarrow> hmdfs_head_cmd \<Rightarrow> byte list \<Rightarrow> outcome option" where
  "hmdfs_server_get_drop_push v cmd data = do {
     path_len \<leftarrow> fld drop_push_request ''path_len'' data;
     bad \<leftarrow> any_dotdot data [(sizeof drop_push_request, path_len)];
     if bad \<or> vfs_root v \<noteq> 0 \<or> \<not> vfs_alloc v then Some ([], [])
     else do {
       path \<leftarrow> cstr_at data (sizeof drop_push_request);
       (let tmp_path = drop_push_path (vfs_cid v) path in
        if vfs_lookup v tmp_path 0 \<noteq> 0 then Some ([Vfs_lookup_view tmp_path], [])
        else Some ([Vfs_lookup_view tmp_path, Vfs_drop_cache tmp_path], [])) } }"

text \<open>The entries of \<open>s_recv_callbacks\<close> for these handlers.\<close>

fun server_handler :: "FILE_CMD \<Rightarrow> (vfs \<Rightarrow> hmdfs_head_cmd \<Rightarrow> byte list \<Rightarrow> outcome option) option" where
  "server_handler F_MKDIR = Some hmdfs_server_mkdir"
| "server_handler F_CREATE = Some hmdfs_server_create"
| "server_handler F_RMDIR = Some hmdfs_server_rmdir"
| "server_handler F_UNLINK = Some hmdfs_server_unlink"
| "server_handler F_RENAME = Some hmdfs_server_rename"
| "server_handler F_SETATTR = Some hmdfs_server_setattr"
| "server_handler F_GETATTR = Some hmdfs_server_getattr"
| "server_handler F_STATFS = Some hmdfs_server_statfs"
| "server_handler F_SYNCFS = Some hmdfs_server_syncfs"
| "server_handler F_GETXATTR = Some hmdfs_server_getxattr"
| "server_handler F_SETXATTR = Some hmdfs_server_setxattr"
| "server_handler F_LISTXATTR = Some hmdfs_server_listxattr"
| "server_handler F_DROP_PUSH = Some hmdfs_server_get_drop_push"
| "server_handler _ = None"

end
