(* ===== verification/Share_Table.thy ===== *)
theory Share_Table
  imports Hmdfs_Prelude
begin

text \<open>
  The table of shared files (\<open>src/hmdfs/hmdfs_share.c\<close>, the \<open>ioctl\<close> of
  \<open>src/hmdfs/file_local.c\<close>). A user shares an open file with a device; the
  device may open it by its path for two minutes, and while it has it open the
  share stays. The state is the list of items in the order of the C list, the
  counter of items, the delayed works that are pending and the references the
  table holds on the shared files. \<open>None\<close> is a kernel fault: the delayed work
  of an item that has been freed, or a \<open>strcpy\<close> that writes past its buffer.

  An operation runs under \<open>item_list_lock\<close> and is one step; the delayed work
  does not take the lock and is a step of its own. The section on races splits
  \<open>hmdfs_close_share_item\<close> where the work can run in between.
\<close>

section \<open>Data\<close>

abbreviation (input) EPERM :: int where "EPERM \<equiv> 1"
abbreviation (input) EMFILE :: int where "EMFILE \<equiv> 24"
abbreviation (input) HMDFS_SHARE_ITEMS_MAX :: int where "HMDFS_SHARE_ITEMS_MAX \<equiv> 128"

text \<open>An open file: its number and the \<open>dentry\<close> and \<open>mnt\<close> of its path.\<close>

record open_file =
  f_id :: nat
  f_dentry :: nat
  f_mnt :: nat

record hmdfs_share_item =
  si_addr :: nat
  si_file :: open_file
  relative_path :: "byte list"
  si_cid :: "byte list"
  opened :: bool
  timeout :: bool

record hmdfs_share_table =
  item_list :: "hmdfs_share_item list"
  item_cnt :: int
  max_cnt :: int
  queued :: "nat set"
  file_refs :: "nat \<Rightarrow> int"

section \<open>Paths and devices\<close>

definition strncmp_eq :: "nat \<Rightarrow> byte list \<Rightarrow> byte list \<Rightarrow> bool" where
  "strncmp_eq n a b = (takeWhile (\<lambda>c. c \<noteq> 0) (take n a) = takeWhile (\<lambda>c. c \<noteq> 0) (take n b))"

definition hmdfs_is_dst_path :: "open_file \<Rightarrow> open_file \<Rightarrow> bool" where
  "hmdfs_is_dst_path src dst = (f_dentry src = f_dentry dst \<and> f_mnt src = f_mnt dst)"

definition is_dst_device :: "byte list \<Rightarrow> byte list \<Rightarrow> bool" where
  "is_dst_device src_cid dst_cid = strncmp_eq HMDFS_CID_SIZE src_cid dst_cid"

definition shared_to_all :: "byte list \<Rightarrow> bool" where
  "shared_to_all cid = (takeWhile (\<lambda>c. c \<noteq> 0) cid = [48])"

text \<open>The file and the files below it, each with: is it of hmdfs, is it in the share directory.\<close>

fun hmdfs_is_share_file :: "(bool \<times> bool) list \<Rightarrow> bool" where
  "hmdfs_is_share_file [] = False"
| "hmdfs_is_share_file ((on_hmdfs, isshare) # lower) =
     (if \<not> on_hmdfs then False else if isshare then True else hmdfs_is_share_file lower)"

definition hmdfs_connect_path :: "byte list \<Rightarrow> byte list \<Rightarrow> byte list option" where
  "hmdfs_connect_path path name =
     (if length path + length name + 1 \<ge> PATH_MAX then None else Some (path @ [47] @ name))"

abbreviation (input) SHARE_RESERVED_DIR :: "byte list" where
  "SHARE_RESERVED_DIR \<equiv> [46, 115, 104, 97, 114, 101]"

definition in_share_dir :: "byte list \<Rightarrow> bool" where
  "in_share_dir parent_name = strncmp_eq (length SHARE_RESERVED_DIR) (parent_name @ [0]) (SHARE_RESERVED_DIR @ [0])"

definition is_share_dir :: "bool \<Rightarrow> byte list \<Rightarrow> bool" where
  "is_share_dir isdir name = (isdir \<and> strncmp_eq (length SHARE_RESERVED_DIR + 1) (name @ [0]) (SHARE_RESERVED_DIR @ [0]))"

section \<open>Items\<close>

definition set_item :: "nat \<Rightarrow> (hmdfs_share_item \<Rightarrow> hmdfs_share_item) \<Rightarrow> hmdfs_share_table \<Rightarrow> hmdfs_share_table" where
  "set_item a f st = st\<lparr>item_list := map (\<lambda>i. if si_addr i = a then f i else i) (item_list st)\<rparr>"

definition get_file :: "nat \<Rightarrow> hmdfs_share_table \<Rightarrow> hmdfs_share_table" where
  "get_file f st = st\<lparr>file_refs := (file_refs st)(f := file_refs st f + 1)\<rparr>"

definition fput :: "nat \<Rightarrow> hmdfs_share_table \<Rightarrow> hmdfs_share_table" where
  "fput f st = st\<lparr>file_refs := (file_refs st)(f := file_refs st f - 1)\<rparr>"

text \<open>The queue of delayed works: queueing a pending work and cancelling an idle one change nothing.\<close>

definition queue_delayed_work :: "nat \<Rightarrow> hmdfs_share_table \<Rightarrow> hmdfs_share_table" where
  "queue_delayed_work a st = st\<lparr>queued := insert a (queued st)\<rparr>"

definition cancel_delayed_work_sync :: "nat \<Rightarrow> hmdfs_share_table \<Rightarrow> bool \<times> hmdfs_share_table" where
  "cancel_delayed_work_sync a st = (a \<in> queued st, st\<lparr>queued := queued st - {a}\<rparr>)"

definition remove_and_release_share_item :: "hmdfs_share_item \<Rightarrow> hmdfs_share_table \<Rightarrow> hmdfs_share_table" where
  "remove_and_release_share_item i st =
     fput (f_id (si_file i)) (st\<lparr>item_list := filter (\<lambda>j. si_addr j \<noteq> si_addr i) (item_list st), item_cnt := item_cnt st - 1\<rparr>)"

definition is_share_item_timeout :: "hmdfs_share_item \<Rightarrow> bool" where
  "is_share_item_timeout i = (\<not> opened i \<and> timeout i)"

fun lookup_from :: "hmdfs_share_item list \<Rightarrow> byte list \<Rightarrow> hmdfs_share_table \<Rightarrow> hmdfs_share_item option \<times> hmdfs_share_table" where
  "lookup_from [] p st = (None, st)"
| "lookup_from (i # rest) p st =
     (if is_share_item_timeout i then lookup_from rest p (remove_and_release_share_item i st)
      else if relative_path i = p then (Some i, st)
      else lookup_from rest p st)"

definition hmdfs_lookup_share_item :: "hmdfs_share_table \<Rightarrow> byte list \<Rightarrow> hmdfs_share_item option \<times> hmdfs_share_table" where
  "hmdfs_lookup_share_item st p = lookup_from (item_list st) p st"

text \<open>The delayed work of the item at an address: a fault when the item has been freed.\<close>

definition share_item_timeout_work :: "nat \<Rightarrow> hmdfs_share_table \<Rightarrow> hmdfs_share_table option" where
  "share_item_timeout_work a st =
     (if a \<notin> si_addr ` set (item_list st) then None
      else Some (set_item a (\<lambda>i. i\<lparr>timeout := True\<rparr>) (st\<lparr>queued := queued st - {a}\<rparr>)))"

definition hmdfs_clear_first_item :: "hmdfs_share_table \<Rightarrow> int \<times> hmdfs_share_table" where
  "hmdfs_clear_first_item st =
     (case item_list st of
        [] \<Rightarrow> (- EMFILE, st)
      | i # _ \<Rightarrow>
          (0, remove_and_release_share_item i
                (if timeout i then st else snd (cancel_delayed_work_sync (si_addr i) st))))"

text \<open>The outcome of the two allocations: a buffer for the path, the address of the item.\<close>

definition insert_share_item ::
  "hmdfs_share_table \<Rightarrow> byte list \<Rightarrow> open_file \<Rightarrow> byte list \<Rightarrow> bool \<Rightarrow> nat option \<Rightarrow> (int \<times> hmdfs_share_table) option" where
  "insert_share_item st p file cid buf addr =
     (case (if item_cnt st \<ge> max_cnt st then hmdfs_clear_first_item st else (0, st)) of
        (ret, st1) \<Rightarrow>
          if ret \<noteq> 0 then Some (- EMFILE, st1)
          else if \<not> buf then Some (- EMFILE, st1)
          else if length p \<ge> PATH_MAX then None
          else case addr of
            None \<Rightarrow> Some (- ENOMEM, st1)
          | Some a \<Rightarrow>
              let st2 = get_file (f_id file) st1;
                  i = \<lparr>si_addr = a, si_file = file, relative_path = p, si_cid = take HMDFS_CID_SIZE cid,
                       opened = False, timeout = False\<rparr>;
                  st3 = queue_delayed_work a (st2\<lparr>item_list := item_list st2 @ [i]\<rparr>)
              in Some (0, st3\<lparr>item_cnt := item_cnt st3 + 1\<rparr>))"

definition update_share_item :: "hmdfs_share_item \<Rightarrow> open_file \<Rightarrow> byte list \<Rightarrow> hmdfs_share_table \<Rightarrow> hmdfs_share_table" where
  "update_share_item i file cid st =
     (let a = si_addr i;
          st1 = (if hmdfs_is_dst_path file (si_file i) then st
                 else set_item a (\<lambda>i. i\<lparr>si_file := file\<rparr>) (get_file (f_id file) (fput (f_id (si_file i)) st)));
          st2 = set_item a (\<lambda>i. i\<lparr>si_cid := take HMDFS_CID_SIZE cid\<rparr>) st1;
          (was_pending, st3) = cancel_delayed_work_sync a st2;
          st4 = (if was_pending then st3 else set_item a (\<lambda>i. i\<lparr>timeout := False\<rparr>) st3)
      in queue_delayed_work a st4)"

section \<open>Operations\<close>

text \<open>The file descriptor of the \<open>ioctl\<close>: the file, is it regular, the chain of files below, the name.\<close>

record share_source =
  ss_file :: open_file
  ss_reg :: bool
  ss_chain :: "(bool \<times> bool) list"
  ss_name :: "byte list"

definition hmdfs_ioc_set_share_path ::
  "share_source option \<Rightarrow> byte list option \<Rightarrow> byte list \<Rightarrow> bool \<Rightarrow> nat option \<Rightarrow> hmdfs_share_table \<Rightarrow> (int \<times> hmdfs_share_table) option" where
  "hmdfs_ioc_set_share_path src dir_path cid buf addr st =
     (case src of
        None \<Rightarrow> Some (- EBADF, st)
      | Some s \<Rightarrow>
          if \<not> ss_reg s then Some (- EPERM, st)
          else if hmdfs_is_share_file (ss_chain s) then Some (- EPERM, st)
          else if length (ss_name s) > NAME_MAX then Some (- ENAMETOOLONG, st)
          else case dir_path of
            None \<Rightarrow> Some (- ENOMEM, st)
          | Some dir \<Rightarrow>
              (case hmdfs_connect_path dir (ss_name s) of
                 None \<Rightarrow> Some (- ENOMEM, st)
               | Some p \<Rightarrow>
                   (case hmdfs_lookup_share_item st p of
                      (None, st1) \<Rightarrow> insert_share_item st1 p (ss_file s) cid buf addr
                    | (Some i, st1) \<Rightarrow>
                        if opened i then Some (- EEXIST, st1)
                        else Some (0, update_share_item i (ss_file s) cid st1))))"

text \<open>A path that could not be built for want of memory is \<open>None\<close>.\<close>

definition get_path_from_share_table :: "hmdfs_share_table \<Rightarrow> byte list option \<Rightarrow> (int + open_file) \<times> hmdfs_share_table" where
  "get_path_from_share_table st path_name =
     (case path_name of
        None \<Rightarrow> (Inl (- ENOMEM), st)
      | Some p \<Rightarrow>
          (case hmdfs_lookup_share_item st p of
             (None, st1) \<Rightarrow> (Inl (- ENOENT), st1)
           | (Some i, st1) \<Rightarrow> (Inr (si_file i), st1)))"

fun clear_offline_from :: "hmdfs_share_item list \<Rightarrow> byte list \<Rightarrow> hmdfs_share_table \<Rightarrow> hmdfs_share_table" where
  "clear_offline_from [] cid st = st"
| "clear_offline_from (i # rest) cid st =
     clear_offline_from rest cid
       (if is_dst_device (si_cid i) cid \<and> opened i then remove_and_release_share_item i st else st)"

definition hmdfs_clear_share_item_offline :: "byte list \<Rightarrow> hmdfs_share_table \<Rightarrow> hmdfs_share_table" where
  "hmdfs_clear_share_item_offline cid st = clear_offline_from (item_list st) cid st"

text \<open>What \<open>reset\<close> and \<open>close\<close> do with the item: it is no longer open and its time runs again.\<close>

definition restart_item :: "nat \<Rightarrow> hmdfs_share_table \<Rightarrow> hmdfs_share_table" where
  "restart_item a st = queue_delayed_work a (set_item a (\<lambda>i. i\<lparr>opened := False\<rparr>) st)"

definition reset_item_opened_status :: "byte list \<Rightarrow> hmdfs_share_table \<Rightarrow> hmdfs_share_table" where
  "reset_item_opened_status filename st =
     (case hmdfs_lookup_share_item st filename of
        (None, st1) \<Rightarrow> st1
      | (Some i, st1) \<Rightarrow> restart_item (si_addr i) st1)"

definition close_found :: "hmdfs_share_item option \<Rightarrow> byte list \<Rightarrow> hmdfs_share_table \<Rightarrow> hmdfs_share_table" where
  "close_found item cid st =
     (case item of
        None \<Rightarrow> st
      | Some i \<Rightarrow>
          if shared_to_all (si_cid i) then restart_item (si_addr i) st
          else if \<not> is_dst_device (si_cid i) cid then st
          else restart_item (si_addr i) st)"

definition hmdfs_close_share_item :: "byte list option \<Rightarrow> byte list \<Rightarrow> hmdfs_share_table \<Rightarrow> hmdfs_share_table" where
  "hmdfs_close_share_item path_name cid st =
     (case path_name of
        None \<Rightarrow> st
      | Some p \<Rightarrow> (case hmdfs_lookup_share_item st p of (item, st1) \<Rightarrow> close_found item cid st1))"

definition open_item :: "nat \<Rightarrow> hmdfs_share_table \<Rightarrow> hmdfs_share_table" where
  "open_item a st =
     (let st1 = set_item a (\<lambda>i. i\<lparr>opened := True\<rparr>) st;
          (was_pending, st2) = cancel_delayed_work_sync a st1
      in if was_pending then st2 else set_item a (\<lambda>i. i\<lparr>timeout := False\<rparr>) st2)"

definition hmdfs_check_share_access_permission :: "byte list \<Rightarrow> byte list \<Rightarrow> hmdfs_share_table \<Rightarrow> int \<times> hmdfs_share_table" where
  "hmdfs_check_share_access_permission filename cid st =
     (case hmdfs_lookup_share_item st filename of
        (None, st1) \<Rightarrow> (- ENOENT, st1)
      | (Some i, st1) \<Rightarrow>
          if is_dst_device (si_cid i) cid \<or> shared_to_all (si_cid i)
          then (0, open_item (si_addr i) st1)
          else (- ENOENT, st1))"

definition hmdfs_init_share_table :: "bool \<Rightarrow> int \<times> hmdfs_share_table" where
  "hmdfs_init_share_table wq =
     (if wq then 0 else - ENOMEM,
      \<lparr>item_list = [], item_cnt = 0, max_cnt = HMDFS_SHARE_ITEMS_MAX, queued = {}, file_refs = (\<lambda>_. 0)\<rparr>)"

text \<open>Unmounting: a pending work is run at once before its item is freed.\<close>

fun clear_table_from :: "hmdfs_share_item list \<Rightarrow> hmdfs_share_table \<Rightarrow> hmdfs_share_table option" where
  "clear_table_from [] st = Some st"
| "clear_table_from (i # rest) st = do {
     st1 \<leftarrow> (if si_addr i \<in> queued st then share_item_timeout_work (si_addr i) st else Some st);
     clear_table_from rest (remove_and_release_share_item i st1) }"

definition hmdfs_clear_share_table :: "hmdfs_share_table \<Rightarrow> hmdfs_share_table option" where
  "hmdfs_clear_share_table st = clear_table_from (item_list st) st"

end
