(* ===== verification/Server_Files.thy ===== *)
theory Server_Files
  imports Server_Ops Share_Table
begin

text \<open>
  The files a peer has open on the server (\<open>src/hmdfs/hmdfs_server.c\<close>): the table
  from file numbers to open files, the version that makes old numbers stale, the
  check of the security level, and the handlers that open, release, sync, read
  and write. The state has the references on every open file; putting a reference
  that is not there is a fault (\<open>None\<close>). The calls of the kernel are a record of
  their results.
\<close>

section \<open>Times\<close>

type_synonym timespec = "int \<times> int"

abbreviation (input) NSEC_PER_SEC :: int where "NSEC_PER_SEC \<equiv> 1000000000"

definition hmdfs_time_add :: "timespec \<Rightarrow> timespec \<Rightarrow> timespec" where
  "hmdfs_time_add a b =
     (fst a + fst b + (snd a + snd b) div NSEC_PER_SEC, (snd a + snd b) mod NSEC_PER_SEC)"

definition hmdfs_time_compare :: "timespec \<Rightarrow> timespec \<Rightarrow> int" where
  "hmdfs_time_compare a b =
     (if fst a < fst b then - 1 else if fst a > fst b then 1 else snd a - snd b)"

definition msec_to_timespec :: "u32 \<Rightarrow> timespec" where
  "msec_to_timespec msec = (uint msec div 1000, uint msec mod 1000 * 1000000)"

section \<open>State\<close>

record server =
  file_id_idr :: "(nat \<times> nat) list"
  fid_cookie :: u16
  boot_cookie :: u64
  f_count :: "nat \<Rightarrow> int"
  share_tbl :: hmdfs_share_table

record server_inode =
  sn_ino :: u64
  sn_gen :: u32
  sn_mode :: u16
  sn_ctime :: timespec
  sn_size :: u64

datatype file_sb = On_hmdfs | On_lower | On_other

datatype child_state = Negative | Positive bool bool bool

text \<open>
  Results of the kernel: allocations, the device's security level, the path
  lookups, the label of a file, the opened file, the number from
  \<open>idr_alloc_cyclic\<close>, the inodes and attributes of the file, the transport.
\<close>

record open_env =
  oe_alloc :: bool
  oe_devsl :: int
  oe_local_dst :: "byte list"
  oe_root :: int
  oe_lookup :: "byte list \<Rightarrow> int"
  oe_label :: "byte list \<Rightarrow> int \<times> byte list"
  oe_open :: "byte list \<Rightarrow> int + nat"
  oe_idr :: int
  oe_sb :: file_sb
  oe_inode :: server_inode
  oe_lower :: server_inode
  oe_getattr :: "int \<times> server_inode"
  oe_dst :: "bool \<times> server_inode \<times> server_inode"
  oe_child :: "byte list \<Rightarrow> byte list \<Rightarrow> int + child_state"
  oe_create :: int
  oe_truncate :: int
  oe_send :: int
  oe_now :: timespec
  oe_precision :: u32
  oe_cid :: "byte list"

section \<open>The table of files\<close>

definition hmdfs_close_path :: "nat \<Rightarrow> server \<Rightarrow> server option" where
  "hmdfs_close_path f s = (if f_count s f \<le> 0 then None else Some (s\<lparr>f_count := (f_count s)(f := f_count s f - 1)\<rparr>))"

definition server_get_file :: "nat \<Rightarrow> server \<Rightarrow> server" where
  "server_get_file f s = s\<lparr>f_count := (f_count s)(f := f_count s f + 1)\<rparr>"

definition insert_file_into_conn :: "int \<Rightarrow> nat \<Rightarrow> server \<Rightarrow> int \<times> server" where
  "insert_file_into_conn idr_ret f s =
     (idr_ret, if idr_ret < 0 then s else s\<lparr>file_id_idr := (nat idr_ret, f) # file_id_idr s\<rparr>)"

definition get_file_from_conn :: "nat \<Rightarrow> server \<Rightarrow> nat option \<times> server" where
  "get_file_from_conn file_id s =
     (case map_of (file_id_idr s) file_id of
        None \<Rightarrow> (None, s)
      | Some f \<Rightarrow> if f_count s f \<le> 0 then (None, s) else (Some f, server_get_file f s))"

definition remove_file_from_conn :: "nat \<Rightarrow> server \<Rightarrow> int \<times> server" where
  "remove_file_from_conn file_id s =
     (if map_of (file_id_idr s) file_id = None then (- ENOENT, s)
      else (0, s\<lparr>file_id_idr := filter (\<lambda>e. fst e \<noteq> file_id) (file_id_idr s)\<rparr>))"

definition hmdfs_server_pack_fid_ver :: "server \<Rightarrow> u64" where
  "hmdfs_server_pack_fid_ver s = (boot_cookie s OR (ucast (fid_cookie s) AND mask 15))"

definition get_file_by_fid_and_ver :: "nat \<Rightarrow> u64 \<Rightarrow> server \<Rightarrow> (int + nat) \<times> server" where
  "get_file_by_fid_and_ver file_id file_ver s =
     (if file_ver \<noteq> hmdfs_server_pack_fid_ver s then (Inl (- EBADF), s)
      else case get_file_from_conn file_id s of
        (None, s1) \<Rightarrow> (Inl (- EBADF), s1)
      | (Some f, s1) \<Rightarrow> (Inr f, s1))"

fun close_all :: "(nat \<times> nat) list \<Rightarrow> server \<Rightarrow> server option" where
  "close_all [] s = Some s"
| "close_all ((i, f) # rest) s = do { s1 \<leftarrow> hmdfs_close_path f s; close_all rest s1 }"

definition hmdfs_server_offline_notify :: "byte list \<Rightarrow> server \<Rightarrow> server option" where
  "hmdfs_server_offline_notify cid s = do {
     s1 \<leftarrow> close_all (file_id_idr s) s;
     Some (s1\<lparr>share_tbl := hmdfs_clear_share_item_offline cid (share_tbl s1), file_id_idr := [], fid_cookie := fid_cookie s1 + 1\<rparr>) }"

text \<open>The boot cookie: a time in milliseconds and a random number above the bits of the connection.\<close>

definition hmdfs_gen_boot_cookie :: "u64 \<Rightarrow> u16 \<Rightarrow> u64" where
  "hmdfs_gen_boot_cookie now rand = push_bit 15 ((now AND mask 33) OR push_bit 33 (ucast rand))"

section \<open>Security levels\<close>

text \<open>\<open>s0\<close> to \<open>s4\<close>; any other label is level 3.\<close>

fun sec_level_from :: "byte list \<Rightarrow> int list \<Rightarrow> int" where
  "sec_level_from v [] = 3"
| "sec_level_from v (i # is) = (if strncmp_eq 2 v [115, 48 + of_int i] then i else sec_level_from v is)"

definition parse_data_sec_level :: "byte list \<Rightarrow> int" where
  "parse_data_sec_level v = sec_level_from v [0, 1, 2, 3, 4]"

definition check_sec_level :: "open_env \<Rightarrow> byte list \<Rightarrow> int" where
  "check_sec_level env file_name =
     (if oe_devsl env \<le> 0 then - EACCES
      else if \<not> oe_alloc env then - ENOMEM
      else if oe_root env \<noteq> 0 then oe_root env
      else if oe_lookup env file_name \<noteq> 0 then oe_lookup env file_name
      else case oe_label env file_name of (err, value) \<Rightarrow>
        if err \<le> 0 \<and> oe_devsl env \<ge> 3 then 0
        else if err > 0 \<and> oe_devsl env \<ge> parse_data_sec_level value then 0
        else - EACCES)"

section \<open>Opening\<close>

abbreviation (input) EISDIR :: int where "EISDIR \<equiv> 21"
abbreviation (input) HM_REG :: nat where "HM_REG \<equiv> 0"

definition hm_islnk :: "nat \<Rightarrow> bool" where
  "hm_islnk file_type = (file_type = 1)"

definition hm_isshare :: "nat \<Rightarrow> bool" where
  "hm_isshare file_type = (file_type = 2)"

definition hmdfs_open_link :: "open_env \<Rightarrow> byte list \<Rightarrow> int + nat" where
  "hmdfs_open_link env path =
     (if length (oe_local_dst env) + length path + 2 > PATH_MAX then Inl (- EINVAL)
      else if \<not> oe_alloc env then Inl (- ENOMEM)
      else oe_open env (oe_local_dst env @ path))"

definition hmdfs_open_path :: "open_env \<Rightarrow> byte list \<Rightarrow> int + nat" where
  "hmdfs_open_path env path = (if oe_root env \<noteq> 0 then Inl (oe_root env) else oe_open env path)"

text \<open>A file from the kernel comes with one reference; the table gets a second one.\<close>

definition new_file :: "nat \<Rightarrow> server \<Rightarrow> server" where
  "new_file f s = s\<lparr>f_count := (f_count s)(f := 1)\<rparr>"

definition reset_share :: "byte list \<Rightarrow> server \<Rightarrow> server" where
  "reset_share file_name s = s\<lparr>share_tbl := reset_item_opened_status file_name (share_tbl s)\<rparr>"

definition hmdfs_open_file :: "open_env \<Rightarrow> byte list \<Rightarrow> nat \<Rightarrow> server \<Rightarrow> ((int + nat \<times> nat) \<times> server) option" where
  "hmdfs_open_file env file_name file_type s =
     (if check_sec_level env file_name \<noteq> 0 then Some (Inl (- EACCES), s)
      else case (if hm_isshare file_type then hmdfs_check_share_access_permission file_name (oe_cid env) (share_tbl s) else (0, share_tbl s)) of
        (err, tbl) \<Rightarrow>
          let s1 = s\<lparr>share_tbl := tbl\<rparr> in
          if err \<noteq> 0 then Some (Inl err, s1)
          else case (if hm_islnk file_type then hmdfs_open_link env file_name else hmdfs_open_path env file_name) of
            Inl e \<Rightarrow> Some (Inl e, reset_share file_name s1)
          | Inr f \<Rightarrow>
              (case insert_file_into_conn (oe_idr env) f (server_get_file f (new_file f s1)) of
                 (fid, s2) \<Rightarrow>
                   if fid < 0 then do {
                     s3 \<leftarrow> hmdfs_close_path f (reset_share file_name s2);
                     s4 \<leftarrow> hmdfs_close_path f s3;
                     Some (Inl fid, s4) }
                   else Some (Inr (f, nat fid), s2)))"

record hmdfs_open_info =
  oi_ino :: u64
  oi_ctime :: timespec
  oi_size :: u64

definition hmdfs_get_inode_by_name :: "open_env \<Rightarrow> byte list \<Rightarrow> int + u64" where
  "hmdfs_get_inode_by_name env file_name =
     (if oe_root env \<noteq> 0 then Inl (oe_root env)
      else if oe_lookup env file_name \<noteq> 0 then Inl (oe_lookup env file_name)
      else case oe_dst env of (on_hmdfs, i, lower) \<Rightarrow>
        let n = (if on_hmdfs then lower else i) in Inr (generate_u64_ino (sn_ino n) (sn_gen n)))"

definition hmdfs_get_open_info :: "open_env \<Rightarrow> nat \<Rightarrow> byte list \<Rightarrow> int + hmdfs_open_info" where
  "hmdfs_get_open_info env file_type file_name =
     (let i = (if oe_sb env = On_hmdfs then oe_lower env else oe_inode env) in
      case (if oe_sb env = On_other
            then (if fst (oe_getattr env) \<noteq> 0 then Inl (fst (oe_getattr env)) else Inr (snd (oe_getattr env)))
            else Inr i) of
        Inl e \<Rightarrow> Inl e
      | Inr attr \<Rightarrow>
          (case (if hm_islnk file_type then hmdfs_get_inode_by_name env file_name
                 else Inr (generate_u64_ino (sn_ino i) (sn_gen i))) of
             Inl e \<Rightarrow> Inl e
           | Inr ino \<Rightarrow> Inr \<lparr>oi_ino = ino, oi_ctime = sn_ctime attr, oi_size = sn_size attr\<rparr>))"

definition stable_ctime :: "timespec \<Rightarrow> timespec \<Rightarrow> u32 \<Rightarrow> timespec" where
  "stable_ctime now ctime precision =
     (let limit = hmdfs_time_add ctime (msec_to_timespec precision) in
      if hmdfs_time_compare now ctime < 0 then (0, 0)
      else if hmdfs_time_compare now ctime \<ge> 0 \<and> hmdfs_time_compare now limit < 0 then ctime
      else limit)"

text \<open>A number of seconds or nanoseconds in a field of the response.\<close>

abbreviation (input) le64_of :: "int \<Rightarrow> nat" where "le64_of x \<equiv> nat (x mod 2 ^ 64)"
abbreviation (input) le32_of :: "int \<Rightarrow> nat" where "le32_of x \<equiv> nat (x mod 2 ^ 32)"

definition hmdfs_update_open_response :: "open_env \<Rightarrow> server \<Rightarrow> hmdfs_open_info \<Rightarrow> nat \<Rightarrow> byte list" where
  "hmdfs_update_open_response env s info file_id =
     (let stable = stable_ctime (oe_now env) (oi_ctime info) (oe_precision env) in
      struct_bytes open_response
        [(''ino'', unat (oi_ino info)), (''file_ver'', unat (hmdfs_server_pack_fid_ver s)), (''file_id'', file_id),
         (''file_size'', unat (oi_size info)), (''ctime'', le64_of (fst (oi_ctime info))),
         (''ctime_nsec'', le32_of (snd (oi_ctime info))), (''stable_ctime'', le64_of (fst stable)),
         (''stable_ctime_nsec'', le32_of (snd stable))])"

type_synonym answer = "((hmdfs_head_cmd \<times> byte list) list \<times> server) option"

definition open_failed :: "nat \<Rightarrow> nat \<Rightarrow> server \<Rightarrow> server option" where
  "open_failed f fid s = do {
     s1 \<leftarrow> hmdfs_close_path f s;
     hmdfs_close_path f (snd (remove_file_from_conn fid s1)) }"

definition hmdfs_server_open :: "open_env \<Rightarrow> hmdfs_head_cmd \<Rightarrow> byte list \<Rightarrow> server \<Rightarrow> answer" where
  "hmdfs_server_open env cmd data s = do {
     path_len \<leftarrow> fld open_request ''path_len'' data;
     file_type \<leftarrow> fld open_request ''file_type'' data;
     if \<not> oe_alloc env then Some ([hmdfs_send_err_response cmd (- ENOMEM)], s)
     else do {
       bad \<leftarrow> any_dotdot data [(sizeof open_request, path_len)];
       if bad then Some ([hmdfs_send_err_response cmd (- EINVAL)], s)
       else do {
         path \<leftarrow> cstr_at data (sizeof open_request);
         (r, s1) \<leftarrow> hmdfs_open_file env path file_type s;
         case r of
           Inl e \<Rightarrow> Some ([hmdfs_send_err_response cmd e], s1)
         | Inr (f, fid) \<Rightarrow>
             (case hmdfs_get_open_info env file_type path of
                Inl e \<Rightarrow> do { s2 \<leftarrow> open_failed f fid s1; Some ([hmdfs_send_err_response cmd e], s2) }
              | Inr info \<Rightarrow>
                  if oe_send env \<noteq> 0 then do {
                    s2 \<leftarrow> hmdfs_close_path f (snd (remove_file_from_conn fid s1));
                    s3 \<leftarrow> hmdfs_close_path f s2;
                    Some ([], s3) }
                  else do {
                    s2 \<leftarrow> hmdfs_close_path f s1;
                    Some ([hmdfs_sendmessage_response cmd (hmdfs_update_open_response env s1 info fid) 0], s2) }) } } }"

section \<open>Opening with creation\<close>

abbreviation (input) HMDFS_O_EXCL :: nat where "HMDFS_O_EXCL \<equiv> 128"
abbreviation (input) HMDFS_O_TRUNC :: nat where "HMDFS_O_TRUNC \<equiv> 512"

text \<open>The child is regular, of a link's type, a directory.\<close>

definition hmdfs_check_and_create :: "open_env \<Rightarrow> child_state \<Rightarrow> bool \<Rightarrow> int" where
  "hmdfs_check_and_create env child is_excl =
     (case child of
        Negative \<Rightarrow> oe_create env
      | Positive isreg islnk isdir \<Rightarrow>
          if is_excl then - EEXIST else if isreg \<and> islnk then - EINVAL else if isdir then - EISDIR else 0)"

definition hmdfs_lookup_create :: "open_env \<Rightarrow> byte list \<Rightarrow> byte list \<Rightarrow> nat \<Rightarrow> int + bool" where
  "hmdfs_lookup_create env path name open_flags =
     (if oe_root env \<noteq> 0 then Inl (oe_root env)
      else if oe_lookup env path \<noteq> 0 then Inl (oe_lookup env path)
      else case oe_child env path name of
        Inl e \<Rightarrow> Inl e
      | Inr child \<Rightarrow>
          (let trunc = (open_flags AND HMDFS_O_TRUNC \<noteq> 0 \<and> child \<noteq> Negative);
               err = hmdfs_check_and_create env child (open_flags AND HMDFS_O_EXCL \<noteq> 0)
           in if err \<noteq> 0 then Inl err else Inr trunc))"

definition hmdfs_dentry_open :: "open_env \<Rightarrow> byte list \<Rightarrow> server \<Rightarrow> ((int + nat \<times> nat) \<times> server) option" where
  "hmdfs_dentry_open env child_path s =
     (case oe_open env child_path of
        Inl e \<Rightarrow> Some (Inl e, s)
      | Inr f \<Rightarrow>
          (case insert_file_into_conn (oe_idr env) f (server_get_file f (new_file f s)) of
             (fid, s1) \<Rightarrow>
               if fid < 0 then do {
                 s2 \<leftarrow> hmdfs_close_path f s1;
                 s3 \<leftarrow> hmdfs_close_path f s2;
                 Some (Inl fid, s3) }
               else Some (Inr (f, nat fid), s1)))"

definition atomic_open_failed :: "nat \<Rightarrow> nat \<Rightarrow> server \<Rightarrow> server option" where
  "atomic_open_failed f fid s = do {
     s1 \<leftarrow> hmdfs_close_path f (snd (remove_file_from_conn fid s));
     hmdfs_close_path f s1 }"

definition hmdfs_server_do_atomic_open ::
  "open_env \<Rightarrow> byte list \<Rightarrow> byte list \<Rightarrow> nat \<Rightarrow> server \<Rightarrow> ((int + nat \<times> nat \<times> byte list) \<times> server) option" where
  "hmdfs_server_do_atomic_open env path name open_flags s =
     (case hmdfs_lookup_create env path name open_flags of
        Inl e \<Rightarrow> Some (Inl e, s)
      | Inr trunc \<Rightarrow> do {
          (r, s1) \<leftarrow> hmdfs_dentry_open env (path @ [47] @ name) s;
          case r of
            Inl e \<Rightarrow> Some (Inl e, s1)
          | Inr (f, fid) \<Rightarrow>
              (case hmdfs_get_open_info env HM_REG [] of
                 Inl e \<Rightarrow> do { s2 \<leftarrow> atomic_open_failed f fid s1; Some (Inl e, s2) }
               | Inr info \<Rightarrow>
                   if trunc \<and> oe_truncate env \<noteq> 0
                   then do { s2 \<leftarrow> atomic_open_failed f fid s1; Some (Inl (oe_truncate env), s2) }
                   else Some (Inr (f, fid, struct_bytes atomic_open_response
                          [(''i_mode'', unat (sn_mode (oe_inode env))),
                           (''open_resp'', le_val (hmdfs_update_open_response env s1 info fid))]), s1)) })"

text \<open>The reference of the opener is not put when the answer has been sent.\<close>

definition hmdfs_server_atomic_open :: "open_env \<Rightarrow> hmdfs_head_cmd \<Rightarrow> byte list \<Rightarrow> server \<Rightarrow> answer" where
  "hmdfs_server_atomic_open env cmd data s = do {
     path_len \<leftarrow> fld atomic_open_request ''path_len'' data;
     file_len \<leftarrow> fld atomic_open_request ''file_len'' data;
     open_flags \<leftarrow> fld atomic_open_request ''open_flags'' data;
     let base = sizeof atomic_open_request;
     let file_at = base + path_len + 1;
     bad \<leftarrow> any_dotdot data [(base, path_len), (file_at, file_len)];
     if bad then Some ([hmdfs_send_err_response cmd (- EINVAL)], s)
     else if \<not> oe_alloc env then Some ([hmdfs_send_err_response cmd (- ENOMEM)], s)
     else do {
       path \<leftarrow> cstr_at data base;
       name \<leftarrow> cstr_at data file_at;
       (r, s1) \<leftarrow> hmdfs_server_do_atomic_open env path name open_flags s;
       case r of
         Inl e \<Rightarrow> Some ([hmdfs_send_err_response cmd e], s1)
       | Inr (f, fid, resp) \<Rightarrow>
           if oe_send env \<noteq> 0 then do {
             s2 \<leftarrow> hmdfs_close_path f (snd (remove_file_from_conn fid s1));
             Some ([], s2) }
           else Some ([hmdfs_sendmessage_response cmd resp 0], s1) } }"

section \<open>Using and closing files\<close>

text \<open>
  What the kernel does with an open file: is it in the share directory and under
  which path, the results of syncing, reading and writing it, and whether the
  buffer of a read can be allocated.
\<close>

record io_env =
  io_share :: "nat \<Rightarrow> (bool \<times> bool) list"
  io_path :: "nat \<Rightarrow> byte list option"
  io_cid :: "byte list"
  io_fsync :: "nat \<Rightarrow> u64 \<Rightarrow> u64 \<Rightarrow> u32 \<Rightarrow> int"
  io_read :: "nat \<Rightarrow> u64 \<Rightarrow> nat \<Rightarrow> int \<times> byte list"
  io_write :: "nat \<Rightarrow> u64 \<Rightarrow> byte list \<Rightarrow> int"
  io_kmalloc :: "nat \<Rightarrow> bool"

definition hmdfs_server_release :: "io_env \<Rightarrow> byte list \<Rightarrow> server \<Rightarrow> server option" where
  "hmdfs_server_release env data s = do {
     file_id \<leftarrow> fld release_request ''file_id'' data;
     file_ver \<leftarrow> fld release_request ''file_ver'' data;
     case get_file_by_fid_and_ver file_id (of_nat file_ver) s of
       (Inl e, s1) \<Rightarrow> Some s1
     | (Inr f, s1) \<Rightarrow> do {
         let s2 = (if hmdfs_is_share_file (io_share env f)
                   then s1\<lparr>share_tbl := hmdfs_close_share_item (io_path env f) (io_cid env) (share_tbl s1)\<rparr> else s1);
         s3 \<leftarrow> hmdfs_close_path f s2;
         case remove_file_from_conn file_id s3 of (ret, s4) \<Rightarrow>
           if ret \<noteq> 0 then Some s4 else hmdfs_close_path f s4 } }"

definition hmdfs_server_fsync :: "io_env \<Rightarrow> hmdfs_head_cmd \<Rightarrow> byte list \<Rightarrow> server \<Rightarrow> answer" where
  "hmdfs_server_fsync env cmd data s = do {
     datasync \<leftarrow> fld fsync_request ''datasync'' data;
     start \<leftarrow> fld fsync_request ''start'' data;
     end_pos \<leftarrow> fld fsync_request ''end'' data;
     file_id \<leftarrow> fld fsync_request ''file_id'' data;
     file_ver \<leftarrow> fld fsync_request ''file_ver'' data;
     case get_file_by_fid_and_ver file_id (of_nat file_ver) s of
       (Inl e, s1) \<Rightarrow> Some ([hmdfs_send_err_response cmd e], s1)
     | (Inr f, s1) \<Rightarrow> do {
         s2 \<leftarrow> hmdfs_close_path f s1;
         Some ([hmdfs_send_err_response cmd (io_fsync env f (of_nat start) (of_nat end_pos) (of_nat datasync))], s2) } }"

definition page_pos :: "nat \<Rightarrow> u64" where
  "page_pos index = push_bit 12 (of_nat index)"

definition hmdfs_server_readpage :: "io_env \<Rightarrow> hmdfs_head_cmd \<Rightarrow> byte list \<Rightarrow> server \<Rightarrow> answer" where
  "hmdfs_server_readpage env cmd data s = do {
     file_id \<leftarrow> fld readpage_request ''file_id'' data;
     file_ver \<leftarrow> fld readpage_request ''file_ver'' data;
     read_len \<leftarrow> fld readpage_request ''size'' data;
     index \<leftarrow> fld readpage_request ''index'' data;
     case get_file_by_fid_and_ver file_id (of_nat file_ver) s of
       (Inl e, s1) \<Rightarrow> Some ([hmdfs_send_err_response cmd e], s1)
     | (Inr f, s1) \<Rightarrow> do {
         s2 \<leftarrow> hmdfs_close_path f s1;
         if read_len = 0 then Some ([hmdfs_send_err_response cmd 0], s2)
         else if \<not> io_kmalloc env read_len then Some ([hmdfs_send_err_response cmd (- ENOMEM)], s2)
         else case io_read env f (page_pos index) read_len of (ret, content) \<Rightarrow>
           Some (if ret < 0 then [hmdfs_send_err_response cmd (- EIO)]
                 else [hmdfs_sendmessage_response cmd
                         (take (nat ret) content @ replicate (read_len - nat ret) 0) 0], s2) } }"

definition hmdfs_server_writepage :: "io_env \<Rightarrow> hmdfs_head_cmd \<Rightarrow> byte list \<Rightarrow> server \<Rightarrow> answer" where
  "hmdfs_server_writepage env cmd data s = do {
     file_id \<leftarrow> fld writepage_request ''file_id'' data;
     file_ver \<leftarrow> fld writepage_request ''file_ver'' data;
     index \<leftarrow> fld writepage_request ''index'' data;
     count \<leftarrow> fld writepage_request ''count'' data;
     case get_file_by_fid_and_ver file_id (of_nat file_ver) s of
       (Inl e, s1) \<Rightarrow> Some ([hmdfs_send_err_response cmd e], s1)
     | (Inr f, s1) \<Rightarrow> do {
         buf \<leftarrow> bytes_at data (sizeof writepage_request) count;
         s2 \<leftarrow> hmdfs_close_path f s1;
         Some ([hmdfs_send_err_response cmd (if io_write env f (page_pos index) buf \<noteq> int count then - EIO else 0)], s2) } }"

end
