(* ===== verification/Share_Spec.thy ===== *)
theory Share_Spec
  imports Share_Table
begin

text \<open>
  What the table of shared files promises: a bounded queue of shares, each with
  its path, its device, its file and whether it is open. The counter of items, the
  delayed works, the references on files and the expired items that are still
  in the list do not show. \<open>share_refines\<close> states that every operation of
  \<open>Share_Table\<close>, run in a state that satisfies the invariant, does not fault,
  keeps the invariant and does on the queue what \<open>share_spec\<close> says.
\<close>

section \<open>The invariant\<close>

text \<open>
  The table is determined by its items: an item is either open, or expired, or
  it waits and then its delayed work is pending; the table holds one reference
  for every item.
\<close>

definition waiting :: "hmdfs_share_item \<Rightarrow> bool" where
  "waiting i = (\<not> opened i \<and> \<not> timeout i)"

definition table_of :: "hmdfs_share_item list \<Rightarrow> int \<Rightarrow> hmdfs_share_table" where
  "table_of xs mx =
     \<lparr>item_list = xs, item_cnt = int (length xs), max_cnt = mx, queued = si_addr ` set (filter waiting xs),
      file_refs = (\<lambda>f. int (length (filter (\<lambda>i. f_id (si_file i) = f) xs)))\<rparr>"

definition items_ok :: "hmdfs_share_item list \<Rightarrow> bool" where
  "items_ok xs = (distinct (map si_addr xs) \<and> distinct (map relative_path xs) \<and> (\<forall>i \<in> set xs. \<not> (opened i \<and> timeout i)))"

definition share_inv :: "hmdfs_share_table \<Rightarrow> bool" where
  "share_inv st = (st = table_of (item_list st) (max_cnt st) \<and> items_ok (item_list st)
     \<and> item_cnt st \<le> max_cnt st \<and> 0 < max_cnt st)"

lemma share_inv_table_of [simp]:
  "share_inv (table_of xs mx) = (items_ok xs \<and> int (length xs) \<le> mx \<and> 0 < mx)"
  by (simp add: share_inv_def table_of_def)

lemma item_list_table_of [simp]: "item_list (table_of xs mx) = xs"
  and max_cnt_table_of [simp]: "max_cnt (table_of xs mx) = mx"
  and item_cnt_table_of [simp]: "item_cnt (table_of xs mx) = int (length xs)"
  and queued_table_of [simp]: "queued (table_of xs mx) = si_addr ` set (filter waiting xs)"
  by (simp_all add: table_of_def)

lemma share_inv_cases:
  assumes "share_inv st"
  obtains xs mx where "st = table_of xs mx" "items_ok xs" "int (length xs) \<le> mx" "0 < mx"
  using assms by (metis share_inv_def share_inv_table_of)

section \<open>One item in its place\<close>

lemma set_item_split:
  assumes "distinct (map si_addr (ys @ i # zs))"
  shows "map (\<lambda>j. if si_addr j = si_addr i then f j else j) (ys @ i # zs) = ys @ f i # zs"
proof -
  from assms have "\<And>j. j \<in> set ys \<Longrightarrow> si_addr j \<noteq> si_addr i" "\<And>j. j \<in> set zs \<Longrightarrow> si_addr j \<noteq> si_addr i"
    by (auto simp: image_iff)
  then show ?thesis by (simp add: map_idI)
qed

lemma filter_split:
  assumes "distinct (map si_addr (ys @ i # zs))"
  shows "filter (\<lambda>j. si_addr j \<noteq> si_addr i) (ys @ i # zs) = ys @ zs"
proof -
  from assms have "\<And>j. j \<in> set ys \<Longrightarrow> si_addr j \<noteq> si_addr i" "\<And>j. j \<in> set zs \<Longrightarrow> si_addr j \<noteq> si_addr i"
    by (auto simp: image_iff)
  then show ?thesis by (simp add: filter_id_conv)
qed

lemma remove_split:
  assumes "distinct (map si_addr (ys @ i # zs))"
  shows "remove_and_release_share_item i ((table_of (ys @ i # zs) mx)\<lparr>queued := si_addr ` set (filter waiting (ys @ zs))\<rparr>)
       = table_of (ys @ zs) mx"
  by (simp only: remove_and_release_share_item_def table_of_def fput_def hmdfs_share_table.simps filter_split [OF assms])
     (simp add: fun_eq_iff)

lemma remove_not_waiting:
  assumes "distinct (map si_addr (ys @ i # zs))" "\<not> waiting i"
  shows "remove_and_release_share_item i (table_of (ys @ i # zs) mx) = table_of (ys @ zs) mx"
proof -
  have "(table_of (ys @ i # zs) mx)\<lparr>queued := si_addr ` set (filter waiting (ys @ zs))\<rparr> = table_of (ys @ i # zs) mx"
    using assms(2) by (simp add: table_of_def)
  with remove_split [OF assms(1)] show ?thesis by metis
qed

text \<open>Changing an item and the state of its work together.\<close>

definition work_set :: "bool \<Rightarrow> nat \<Rightarrow> nat set \<Rightarrow> nat set" where
  "work_set on a q = (if on then insert a (q - {a}) else q - {a})"

lemma change_split:
  assumes "distinct (map si_addr (ys @ i # zs))" "si_addr j = si_addr i"
  shows "(table_of (ys @ i # zs) mx)\<lparr>item_list := ys @ j # zs,
            queued := work_set (waiting j) (si_addr i) (queued (table_of (ys @ i # zs) mx)),
            file_refs := file_refs (table_of (ys @ j # zs) mx)\<rparr> = table_of (ys @ j # zs) mx"
proof -
  from assms have "si_addr i \<notin> si_addr ` set (filter waiting (ys @ zs))" by auto
  then have "work_set (waiting j) (si_addr i) (queued (table_of (ys @ i # zs) mx)) = queued (table_of (ys @ j # zs) mx)"
    using assms(2) by (auto simp: work_set_def)
  then show ?thesis by (simp add: table_of_def)
qed

lemma items_ok_split:
  assumes "items_ok (ys @ i # zs)"
    and "si_addr j = si_addr i" "relative_path j = relative_path i" "\<not> (opened j \<and> timeout j)"
  shows "items_ok (ys @ j # zs)"
  using assms by (auto simp: items_ok_def)

lemma items_ok_other: "items_ok (ys @ i # zs) \<Longrightarrow> k \<in> set ys \<union> set zs \<Longrightarrow> si_addr k \<noteq> si_addr i"
  by (auto simp: items_ok_def image_iff)

lemma items_ok_sublist: "items_ok (ys @ i # zs) \<Longrightarrow> items_ok (ys @ zs)"
  by (auto simp: items_ok_def)

section \<open>Lookup\<close>

fun purge :: "byte list \<Rightarrow> hmdfs_share_item list \<Rightarrow> hmdfs_share_item list" where
  "purge p [] = []"
| "purge p (i # rest) =
     (if is_share_item_timeout i then purge p rest
      else if relative_path i = p then i # rest
      else i # purge p rest)"

definition live :: "hmdfs_share_item \<Rightarrow> bool" where
  "live i = (\<not> is_share_item_timeout i)"

lemma lookup_from_purge:
  "items_ok (ys @ zs) \<Longrightarrow>
   lookup_from zs p (table_of (ys @ zs) mx) = (find (\<lambda>i. live i \<and> relative_path i = p) zs, table_of (ys @ purge p zs) mx)"
proof (induction zs arbitrary: ys)
  case (Cons i zs)
  show ?case
  proof (cases "is_share_item_timeout i")
    case True
    from Cons.prems have d: "distinct (map si_addr (ys @ i # zs))" by (simp add: items_ok_def)
    have "\<not> waiting i" using True by (simp add: waiting_def is_share_item_timeout_def)
    with d have "remove_and_release_share_item i (table_of (ys @ i # zs) mx) = table_of (ys @ zs) mx"
      by (rule remove_not_waiting)
    with True Cons.IH [OF items_ok_sublist [OF Cons.prems]] show ?thesis by (simp add: live_def)
  next
    case False
    with Cons.IH [of "ys @ [i]"] Cons.prems show ?thesis by (simp add: live_def)
  qed
qed simp

lemma lookup_table_of:
  "items_ok xs \<Longrightarrow>
   hmdfs_lookup_share_item (table_of xs mx) p = (find (\<lambda>i. live i \<and> relative_path i = p) xs, table_of (purge p xs) mx)"
  using lookup_from_purge [of "[]" xs p mx] by (simp add: hmdfs_lookup_share_item_def)

lemma set_purge: "set (purge p xs) \<subseteq> set xs"
  by (induction xs) auto

lemma length_purge: "length (purge p xs) \<le> length xs"
  by (induction xs) auto

lemma distinct_purge: "distinct (map f xs) \<Longrightarrow> distinct (map f (purge p xs))"
proof (induction xs)
  case (Cons i xs)
  with set_purge [of p xs] show ?case by auto
qed simp

lemma items_ok_purge: "items_ok xs \<Longrightarrow> items_ok (purge p xs)"
  using set_purge [of p xs] by (auto simp: items_ok_def distinct_purge)

lemma filter_live_purge [simp]: "filter live (purge p xs) = filter live xs"
  by (induction xs) (auto simp: live_def)

lemma purge_not_found:
  "find (\<lambda>i. live i \<and> relative_path i = p) xs = None \<Longrightarrow> purge p xs = filter live xs"
  by (induction xs) (auto simp: live_def split: if_splits)

lemma purge_found:
  assumes "find (\<lambda>i. live i \<and> relative_path i = p) xs = Some i"
  obtains ys zs where "purge p xs = ys @ i # zs" "live i" "relative_path i = p"
proof -
  have "\<exists>ys zs. purge p xs = ys @ i # zs" using assms
  proof (induction xs)
    case (Cons j xs)
    then show ?case by (auto simp: live_def split: if_splits) (metis append_Cons append_Nil)+
  qed simp
  with assms that show ?thesis by (auto simp: find_Some_iff)
qed

section \<open>The queue of shares\<close>

record share =
  sh_addr :: nat
  sh_path :: "byte list"
  sh_cid :: "byte list"
  sh_file :: open_file
  sh_open :: bool

definition share_of :: "hmdfs_share_item \<Rightarrow> share" where
  "share_of i = \<lparr>sh_addr = si_addr i, sh_path = relative_path i, sh_cid = si_cid i, sh_file = si_file i, sh_open = opened i\<rparr>"

definition shares :: "hmdfs_share_table \<Rightarrow> share list" where
  "shares st = map share_of (filter live (item_list st))"

definition find_share :: "byte list \<Rightarrow> share list \<Rightarrow> share option" where
  "find_share p S = find (\<lambda>s. sh_path s = p) S"

definition change_share :: "byte list \<Rightarrow> (share \<Rightarrow> share) \<Rightarrow> share list \<Rightarrow> share list" where
  "change_share p f S = map (\<lambda>s. if sh_path s = p then f s else s) S"

definition may_open :: "byte list \<Rightarrow> share \<Rightarrow> bool" where
  "may_open cid s = (is_dst_device (sh_cid s) cid \<or> shared_to_all (sh_cid s))"

definition spec_open :: "byte list \<Rightarrow> byte list \<Rightarrow> share list \<Rightarrow> int \<times> share list" where
  "spec_open p cid S =
     (case find_share p S of
        Some s \<Rightarrow> if may_open cid s then (0, change_share p (\<lambda>s. s\<lparr>sh_open := True\<rparr>) S) else (- ENOENT, S)
      | None \<Rightarrow> (- ENOENT, S))"

definition spec_reset :: "byte list \<Rightarrow> share list \<Rightarrow> share list" where
  "spec_reset p S = change_share p (\<lambda>s. s\<lparr>sh_open := False\<rparr>) S"

definition spec_close :: "byte list \<Rightarrow> byte list \<Rightarrow> share list \<Rightarrow> share list" where
  "spec_close p cid S =
     (case find_share p S of
        Some s \<Rightarrow> if may_open cid s then spec_reset p S else S
      | None \<Rightarrow> S)"

definition spec_offline :: "byte list \<Rightarrow> share list \<Rightarrow> share list" where
  "spec_offline cid S = filter (\<lambda>s. \<not> (is_dst_device (sh_cid s) cid \<and> sh_open s)) S"

definition spec_share ::
  "byte list \<Rightarrow> open_file \<Rightarrow> byte list \<Rightarrow> bool \<Rightarrow> nat option \<Rightarrow> int \<Rightarrow> share list \<Rightarrow> int \<times> share list" where
  "spec_share p file cid buf addr mx S =
     (case find_share p S of
        Some s \<Rightarrow>
          if sh_open s then (- EEXIST, S)
          else (0, change_share p (\<lambda>s. s\<lparr>sh_cid := take HMDFS_CID_SIZE cid,
                      sh_file := (if hmdfs_is_dst_path file (sh_file s) then sh_file s else file)\<rparr>) S)
      | None \<Rightarrow>
          let S' = (if int (length S) \<ge> mx then tl S else S) in
          if \<not> buf then (- EMFILE, S')
          else case addr of
            None \<Rightarrow> (- ENOMEM, S')
          | Some a \<Rightarrow> (0, S' @ [\<lparr>sh_addr = a, sh_path = p, sh_cid = take HMDFS_CID_SIZE cid, sh_file = file, sh_open = False\<rparr>]))"

section \<open>Operations as steps\<close>

datatype share_op =
    Op_Share "share_source option" "byte list option" "byte list" bool "nat option"
  | Op_Open "byte list" "byte list"
  | Op_Close "byte list option" "byte list"
  | Op_Reset "byte list"
  | Op_Path "byte list option"
  | Op_Offline "byte list"
  | Op_Timer nat

text \<open>A timer that is not pending does not fire.\<close>

definition share_exec :: "share_op \<Rightarrow> hmdfs_share_table \<Rightarrow> (int \<times> hmdfs_share_table) option" where
  "share_exec c st =
     (case c of
        Op_Share src dir cid buf addr \<Rightarrow> hmdfs_ioc_set_share_path src dir cid buf addr st
      | Op_Open p cid \<Rightarrow> Some (hmdfs_check_share_access_permission p cid st)
      | Op_Close p cid \<Rightarrow> Some (0, hmdfs_close_share_item p cid st)
      | Op_Reset p \<Rightarrow> Some (0, reset_item_opened_status p st)
      | Op_Path p \<Rightarrow> (case get_path_from_share_table st p of (r, st1) \<Rightarrow> Some (case_sum (\<lambda>e. e) (\<lambda>_. 0) r, st1))
      | Op_Offline cid \<Rightarrow> Some (0, hmdfs_clear_share_item_offline cid st)
      | Op_Timer a \<Rightarrow> if a \<in> queued st then map_option (\<lambda>st1. (0, st1)) (share_item_timeout_work a st) else Some (0, st))"

definition source_error :: "share_source option \<Rightarrow> byte list option \<Rightarrow> int + (share_source \<times> byte list)" where
  "source_error src dir =
     (case src of
        None \<Rightarrow> Inl (- EBADF)
      | Some s \<Rightarrow>
          if \<not> ss_reg s \<or> hmdfs_is_share_file (ss_chain s) then Inl (- EPERM)
          else if length (ss_name s) > NAME_MAX then Inl (- ENAMETOOLONG)
          else case Option.bind dir (\<lambda>d. hmdfs_connect_path d (ss_name s)) of
            None \<Rightarrow> Inl (- ENOMEM)
          | Some p \<Rightarrow> Inr (s, p))"

definition share_spec :: "share_op \<Rightarrow> int \<Rightarrow> share list \<Rightarrow> int \<times> share list" where
  "share_spec c mx S =
     (case c of
        Op_Share src dir cid buf addr \<Rightarrow>
          (case source_error src dir of
             Inl e \<Rightarrow> (e, S)
           | Inr (s, p) \<Rightarrow> spec_share p (ss_file s) cid buf addr mx S)
      | Op_Open p cid \<Rightarrow> spec_open p cid S
      | Op_Close p cid \<Rightarrow> (0, case p of None \<Rightarrow> S | Some p \<Rightarrow> spec_close p cid S)
      | Op_Reset p \<Rightarrow> (0, spec_reset p S)
      | Op_Path p \<Rightarrow>
          (case p of None \<Rightarrow> (- ENOMEM, S) | Some p \<Rightarrow> (if find_share p S = None then - ENOENT else 0, S))
      | Op_Offline cid \<Rightarrow> (0, spec_offline cid S)
      | Op_Timer a \<Rightarrow> (0, filter (\<lambda>s. \<not> (sh_addr s = a \<and> \<not> sh_open s)) S))"

text \<open>The allocator gives an address that no item has.\<close>

fun op_fresh :: "share_op \<Rightarrow> hmdfs_share_table \<Rightarrow> bool" where
  "op_fresh (Op_Share src dir cid buf (Some a)) st = (a \<notin> si_addr ` set (item_list st))"
| "op_fresh c st = True"

inductive share_reach :: "hmdfs_share_table \<Rightarrow> bool" where
  init: "hmdfs_init_share_table True = (0, st) \<Longrightarrow> share_reach st"
| step: "share_reach st \<Longrightarrow> op_fresh c st \<Longrightarrow> share_exec c st = Some (r, st') \<Longrightarrow> share_reach st'"

section \<open>Finding a share\<close>

lemma shares_table_of [simp]: "shares (table_of xs mx) = map share_of (filter live xs)"
  by (simp add: shares_def)

lemma share_of_simps [simp]:
  "sh_addr (share_of i) = si_addr i" "sh_path (share_of i) = relative_path i" "sh_cid (share_of i) = si_cid i"
  "sh_file (share_of i) = si_file i" "sh_open (share_of i) = opened i"
  by (simp_all add: share_of_def)

lemma find_share_of:
  "find_share p (map share_of (filter live xs)) = map_option share_of (find (\<lambda>i. live i \<and> relative_path i = p) xs)"
  by (induction xs) (auto simp: find_share_def)

lemma change_share_split:
  assumes "items_ok (ys @ i # zs)" "live i" "live j" "relative_path i = p" "share_of j = f (share_of i)"
  shows "map share_of (filter live (ys @ j # zs)) = change_share p f (map share_of (filter live (ys @ i # zs)))"
proof -
  from assms have "\<And>k. k \<in> set ys \<Longrightarrow> relative_path k \<noteq> p" "\<And>k. k \<in> set zs \<Longrightarrow> relative_path k \<noteq> p"
    by (auto simp: items_ok_def image_iff)
  with assms show ?thesis by (auto simp: change_share_def intro: map_idI)
qed

lemma change_share_absent: "find_share p S = None \<Longrightarrow> change_share p f S = S"
  by (induction S) (auto simp: change_share_def find_share_def split: if_splits)

section \<open>Each change of an item\<close>

lemma live_no_timeout: "items_ok (ys @ i # zs) \<Longrightarrow> live i \<Longrightarrow> \<not> timeout i"
  by (auto simp: items_ok_def live_def is_share_item_timeout_def)

lemma distinct_addr: "items_ok xs \<Longrightarrow> distinct (map si_addr xs)"
  by (simp add: items_ok_def)

lemma file_refs_same:
  "f_id (si_file j) = f_id (si_file i) \<Longrightarrow> file_refs (table_of (ys @ j # zs) mx) = file_refs (table_of (ys @ i # zs) mx)"
  by (simp add: table_of_def fun_eq_iff)

lemmas item_ops = set_item_def queue_delayed_work_def cancel_delayed_work_sync_def get_file_def fput_def

lemma table_of_eqI:
  assumes "item_list st = xs" "item_cnt st = int (length xs)" "max_cnt st = mx" "queued st = si_addr ` set (filter waiting xs)"
    and "\<And>f. file_refs st f = int (length (filter (\<lambda>i. f_id (si_file i) = f) xs))"
  shows "st = table_of xs mx"
  using assms by (cases st) (auto simp: table_of_def)

lemma queued_split:
  assumes "items_ok (ys @ i # zs)" "si_addr j = si_addr i"
  shows "si_addr ` set (filter waiting (ys @ j # zs)) = work_set (waiting j) (si_addr i) (si_addr ` set (filter waiting (ys @ i # zs)))"
proof -
  from assms(1) have "si_addr i \<notin> si_addr ` set (filter waiting (ys @ zs))" by (auto simp: items_ok_def)
  then show ?thesis using assms(2) by (auto simp: work_set_def)
qed

lemma set_item_list:
  assumes "items_ok (ys @ i # zs)" "item_list st = ys @ j # zs" "si_addr j = si_addr i"
  shows "item_list (set_item (si_addr i) f st) = ys @ f j # zs"
proof -
  from assms have "distinct (map si_addr (ys @ j # zs))" by (simp add: items_ok_def)
  from set_item_split [OF this, of f] assms(2,3) show ?thesis by (simp add: set_item_def)
qed

lemma set_item_rest [simp]:
  "item_cnt (set_item a f st) = item_cnt st" "max_cnt (set_item a f st) = max_cnt st" "queued (set_item a f st) = queued st"
  "file_refs (set_item a f st) = file_refs st"
  by (simp_all add: set_item_def)

lemma restart_split:
  assumes "items_ok (ys @ i # zs)" "live i"
  shows "restart_item (si_addr i) (table_of (ys @ i # zs) mx) = table_of (ys @ i\<lparr>opened := False\<rparr> # zs) mx"
proof (rule table_of_eqI)
  have "waiting (i\<lparr>opened := False\<rparr>)" using live_no_timeout [OF assms] by (simp add: waiting_def)
  then show "queued (restart_item (si_addr i) (table_of (ys @ i # zs) mx)) = si_addr ` set (filter waiting (ys @ i\<lparr>opened := False\<rparr> # zs))"
    by (subst queued_split [OF assms(1)]) (auto simp: restart_item_def queue_delayed_work_def work_set_def)
qed (simp_all add: restart_item_def queue_delayed_work_def set_item_list [OF assms(1)], simp add: table_of_def)

lemma timer_split:
  assumes "items_ok (ys @ i # zs)" "waiting i"
  shows "share_item_timeout_work (si_addr i) (table_of (ys @ i # zs) mx) = Some (table_of (ys @ i\<lparr>timeout := True\<rparr> # zs) mx)"
proof -
  let ?st = "set_item (si_addr i) (\<lambda>i. i\<lparr>timeout := True\<rparr>) ((table_of (ys @ i # zs) mx)\<lparr>queued := queued (table_of (ys @ i # zs) mx) - {si_addr i}\<rparr>)"
  have "?st = table_of (ys @ i\<lparr>timeout := True\<rparr> # zs) mx"
  proof (rule table_of_eqI)
    have "\<not> waiting (i\<lparr>timeout := True\<rparr>)" by (simp add: waiting_def)
    then show "queued ?st = si_addr ` set (filter waiting (ys @ i\<lparr>timeout := True\<rparr> # zs))"
      by (subst queued_split [OF assms(1)]) (auto simp: work_set_def)
  qed (simp_all add: set_item_list [OF assms(1)], simp add: table_of_def)
  then show ?thesis by (simp add: share_item_timeout_work_def)
qed

text \<open>An item that is let open: its work is cancelled.\<close>

lemma permit_split:
  assumes "items_ok (ys @ i # zs)" "live i"
  shows "open_item (si_addr i) (table_of (ys @ i # zs) mx) = table_of (ys @ i\<lparr>opened := True\<rparr> # zs) mx" (is "?st = _")
proof (rule table_of_eqI)
  have nt: "i\<lparr>opened := True, timeout := False\<rparr> = i\<lparr>opened := True\<rparr>"
    using live_no_timeout [OF assms] by simp
  show "item_list ?st = ys @ i\<lparr>opened := True\<rparr> # zs"
    using nt by (simp add: open_item_def cancel_delayed_work_sync_def Let_def set_item_list [OF assms(1)])
  have "\<not> waiting (i\<lparr>opened := True\<rparr>)" by (simp add: waiting_def)
  then show "queued ?st = si_addr ` set (filter waiting (ys @ i\<lparr>opened := True\<rparr> # zs))"
    by (subst queued_split [OF assms(1)]) (auto simp: open_item_def cancel_delayed_work_sync_def Let_def work_set_def)
qed (simp_all add: open_item_def cancel_delayed_work_sync_def Let_def, simp add: table_of_def)

text \<open>A waiting item that is shared anew.\<close>

definition reshared :: "open_file \<Rightarrow> byte list \<Rightarrow> hmdfs_share_item \<Rightarrow> hmdfs_share_item" where
  "reshared file cid i = i\<lparr>si_file := (if hmdfs_is_dst_path file (si_file i) then si_file i else file),
                          si_cid := take HMDFS_CID_SIZE cid\<rparr>"

lemma update_split:
  assumes "items_ok (ys @ i # zs)" "waiting i"
  shows "update_share_item i file cid (table_of (ys @ i # zs) mx) = table_of (ys @ reshared file cid i # zs) mx"
    (is "?st = _")
proof (rule table_of_eqI)
  let ?a = "si_addr i"
  have w: "waiting (reshared file cid i)" "si_addr (reshared file cid i) = ?a"
    using assms(2) by (simp_all add: reshared_def waiting_def)
  have q: "?a \<in> si_addr ` set (filter waiting (ys @ i # zs))" using assms(2) by simp
  show "item_list ?st = ys @ reshared file cid i # zs"
    using q by (simp add: update_share_item_def Let_def item_ops(2-) set_item_list [OF assms(1)] reshared_def)
  show "queued ?st = si_addr ` set (filter waiting (ys @ reshared file cid i # zs))"
    using q w(1) by (subst queued_split [OF assms(1) w(2)])
      (auto simp: update_share_item_def Let_def item_ops(2-) work_set_def)
  show "file_refs ?st f = int (length (filter (\<lambda>i. f_id (si_file i) = f) (ys @ reshared file cid i # zs)))" for f
    using q by (simp add: update_share_item_def Let_def item_ops(2-) reshared_def) (simp add: table_of_def)
qed (simp_all add: update_share_item_def Let_def item_ops(2-))

section \<open>Every operation refines its specification\<close>

definition represents :: "int \<Rightarrow> share list \<Rightarrow> hmdfs_share_table \<Rightarrow> bool" where
  "represents mx S st = (share_inv st \<and> max_cnt st = mx \<and> shares st = S)"

lemma represents_table_of:
  "represents mx S (table_of xs mx') =
     (mx' = mx \<and> items_ok xs \<and> int (length xs) \<le> mx \<and> 0 < mx \<and> S = map share_of (filter live xs))"
  by (auto simp: represents_def)

lemma lookup_cases:
  assumes "represents mx S st"
  obtains (absent) xs where "find_share p S = None" "hmdfs_lookup_share_item st p = (None, table_of xs mx)"
      "represents mx S (table_of xs mx)" "\<forall>i \<in> set xs. live i" "set xs \<subseteq> set (item_list st)" "\<forall>i \<in> set xs. relative_path i \<noteq> p"
  | (present) ys i zs where "find_share p S = Some (share_of i)" "hmdfs_lookup_share_item st p = (Some i, table_of (ys @ i # zs) mx)"
      "represents mx S (table_of (ys @ i # zs) mx)" "items_ok (ys @ i # zs)" "live i" "relative_path i = p"
proof -
  from assms obtain xs where st: "st = table_of xs mx" "items_ok xs" "int (length xs) \<le> mx" "0 < mx"
    and S: "S = map share_of (filter live xs)"
    by (metis represents_def share_inv_cases max_cnt_table_of shares_table_of)
  have l: "hmdfs_lookup_share_item st p = (find (\<lambda>i. live i \<and> relative_path i = p) xs, table_of (purge p xs) mx)"
    using lookup_table_of st(1,2) by simp
  have r: "represents mx S (table_of (purge p xs) mx)"
    using st S length_purge [of p xs] by (simp add: represents_table_of items_ok_purge)
  show thesis
  proof (cases "find (\<lambda>i. live i \<and> relative_path i = p) xs")
    case None
    then have pu: "purge p xs = filter live xs" by (rule purge_not_found)
    show ?thesis
    proof (rule absent)
      show "find_share p S = None" using None S by (simp add: find_share_of)
      show "hmdfs_lookup_share_item st p = (None, table_of (filter live xs) mx)" using l None pu by simp
      show "represents mx S (table_of (filter live xs) mx)" using r pu by simp
      show "set (filter live xs) \<subseteq> set (item_list st)" using st(1) by auto
      show "\<forall>i \<in> set (filter live xs). relative_path i \<noteq> p" using None by (auto simp: find_None_iff)
    qed simp
  next
    case (Some i)
    then obtain ys zs where "purge p xs = ys @ i # zs" "live i" "relative_path i = p" by (rule purge_found)
    with Some l r items_ok_purge [OF st(2), of p] S show ?thesis using present [of i ys zs] by (simp add: find_share_of)
  qed
qed

lemma represents_split:
  assumes "represents mx S (table_of (ys @ i # zs) mx)" "live i" "relative_path i = p"
    and "si_addr j = si_addr i" "relative_path j = p" "\<not> timeout j" "share_of j = f (share_of i)"
  shows "represents mx (change_share p f S) (table_of (ys @ j # zs) mx)"
proof -
  have ok: "items_ok (ys @ i # zs)" using assms(1) by (simp add: represents_table_of)
  have "live j" using assms(6) by (simp add: live_def is_share_item_timeout_def)
  then show ?thesis
    using assms(1) items_ok_split [OF ok, of j] change_share_split [OF ok assms(2), of j p f] assms(3-7)
    by (simp add: represents_table_of)
qed

lemma open_refines:
  assumes "represents mx S st"
  shows "\<exists>st'. hmdfs_check_share_access_permission p cid st = (fst (spec_open p cid S), st') \<and> represents mx (snd (spec_open p cid S)) st'"
  using assms
proof (cases rule: lookup_cases [where p = p])
  case (present ys i zs)
  have "represents mx (change_share p (\<lambda>s. s\<lparr>sh_open := True\<rparr>) S) (table_of (ys @ i\<lparr>opened := True\<rparr> # zs) mx)"
    using present(3-6) live_no_timeout [OF present(4,5)] by (intro represents_split) (auto simp: share_of_def)
  with present permit_split [OF present(4,5), of mx] show ?thesis
    by (simp add: hmdfs_check_share_access_permission_def spec_open_def may_open_def)
qed (simp add: hmdfs_check_share_access_permission_def spec_open_def)

lemma restart_refines:
  assumes "represents mx S (table_of (ys @ i # zs) mx)" "live i"
  shows "represents mx (spec_reset (relative_path i) S) (restart_item (si_addr i) (table_of (ys @ i # zs) mx))"
proof -
  have ok: "items_ok (ys @ i # zs)" using assms(1) by (simp add: represents_table_of)
  show ?thesis unfolding restart_split [OF ok assms(2)] spec_reset_def
    using assms live_no_timeout [OF ok assms(2)] by (intro represents_split) (auto simp: share_of_def)
qed

lemma reset_refines:
  assumes "represents mx S st"
  shows "represents mx (spec_reset p S) (reset_item_opened_status p st)"
  using assms
proof (cases rule: lookup_cases [where p = p])
  case (present ys i zs)
  with restart_refines [of mx S ys i zs] show ?thesis by (simp add: reset_item_opened_status_def)
qed (simp add: reset_item_opened_status_def spec_reset_def change_share_absent)

lemma close_refines:
  assumes "represents mx S st"
  shows "represents mx (spec_close p cid S) (hmdfs_close_share_item (Some p) cid st)"
  using assms
proof (cases rule: lookup_cases [where p = p])
  case (present ys i zs)
  with restart_refines [of mx S ys i zs] show ?thesis
    by (simp add: hmdfs_close_share_item_def close_found_def spec_close_def may_open_def)
qed (simp add: hmdfs_close_share_item_def close_found_def spec_close_def)

lemma path_refines:
  assumes "represents mx S st"
  shows "\<exists>r st'. get_path_from_share_table st (Some p) = (r, st') \<and> represents mx S st'
    \<and> r = (case find_share p S of None \<Rightarrow> Inl (- ENOENT) | Some s \<Rightarrow> Inr (sh_file s))"
  using assms
proof (cases rule: lookup_cases [where p = p])
  case (present ys i zs)
  then show ?thesis by (simp add: get_path_from_share_table_def)
qed (simp add: get_path_from_share_table_def)

lemma offline_from:
  "items_ok (ys @ zs) \<Longrightarrow>
   clear_offline_from zs cid (table_of (ys @ zs) mx) =
     table_of (ys @ filter (\<lambda>i. \<not> (is_dst_device (si_cid i) cid \<and> opened i)) zs) mx"
proof (induction zs arbitrary: ys)
  case (Cons i zs)
  show ?case
  proof (cases "is_dst_device (si_cid i) cid \<and> opened i")
    case True
    then have "remove_and_release_share_item i (table_of (ys @ i # zs) mx) = table_of (ys @ zs) mx"
      using Cons.prems by (intro remove_not_waiting) (auto simp: items_ok_def waiting_def)
    with True Cons.IH [OF items_ok_sublist [OF Cons.prems]] show ?thesis by simp
  next
    case False
    with Cons.IH [of "ys @ [i]"] Cons.prems show ?thesis by auto
  qed
qed simp

lemma items_ok_filter: "items_ok xs \<Longrightarrow> items_ok (filter P xs)"
  by (simp add: items_ok_def distinct_map_filter)

lemma offline_refines:
  assumes "represents mx S st"
  shows "represents mx (spec_offline cid S) (hmdfs_clear_share_item_offline cid st)"
proof -
  from assms obtain xs where st: "st = table_of xs mx" "items_ok xs" "int (length xs) \<le> mx" "0 < mx"
    and S: "S = map share_of (filter live xs)"
    by (metis represents_def share_inv_cases max_cnt_table_of shares_table_of)
  let ?keep = "\<lambda>i. \<not> (is_dst_device (si_cid i) cid \<and> opened i)"
  have "hmdfs_clear_share_item_offline cid st = table_of (filter ?keep xs) mx"
    using offline_from [of "[]" xs cid mx] st(1,2) by (simp add: hmdfs_clear_share_item_offline_def)
  moreover have "int (length (filter ?keep xs)) \<le> mx"
    using st(3) length_filter_le [of ?keep xs] by linarith
  moreover have "spec_offline cid S = map share_of (filter live (filter ?keep xs))"
    by (simp add: S spec_offline_def filter_map comp_def conj_commute)
  ultimately show ?thesis using st(2,4) items_ok_filter [of xs ?keep] by (simp add: represents_table_of)
qed

lemma timer_refines:
  assumes "represents mx S st" "a \<in> queued st"
  shows "\<exists>st'. share_item_timeout_work a st = Some st' \<and> represents mx (filter (\<lambda>s. \<not> (sh_addr s = a \<and> \<not> sh_open s)) S) st'"
proof -
  from assms(1) obtain xs where st: "st = table_of xs mx" "items_ok xs" "int (length xs) \<le> mx" "0 < mx"
    and S: "S = map share_of (filter live xs)"
    by (metis represents_def share_inv_cases max_cnt_table_of shares_table_of)
  from assms(2) st(1) obtain i where i: "i \<in> set xs" "waiting i" "si_addr i = a" by auto
  then obtain ys zs where xs: "xs = ys @ i # zs" by (meson split_list)
  let ?j = "i\<lparr>timeout := True\<rparr>"
  have no: "\<not> opened i" using i(2) by (simp add: waiting_def)
  have "live i" "\<not> live ?j" using i(2) by (simp_all add: waiting_def live_def is_share_item_timeout_def)
  moreover have "filter (\<lambda>x. live x \<and> (si_addr x = a \<longrightarrow> opened x)) ys = filter live ys"
    using items_ok_other [of ys i zs] st(2) i(3) by (intro filter_cong) (auto simp: xs)
  moreover have "filter (\<lambda>x. live x \<and> (si_addr x = a \<longrightarrow> opened x)) zs = filter live zs"
    using items_ok_other [of ys i zs] st(2) i(3) by (intro filter_cong) (auto simp: xs)
  ultimately have "filter (\<lambda>s. \<not> (sh_addr s = a \<and> \<not> sh_open s)) S = map share_of (filter live (ys @ ?j # zs))"
    using no by (simp add: S xs filter_map comp_def i(3))
  moreover have "items_ok (ys @ ?j # zs)"
    using no by (intro items_ok_split [OF st(2) [unfolded xs]]) simp_all
  moreover have "share_item_timeout_work a st = Some (table_of (ys @ ?j # zs) mx)"
    using timer_split [of ys i zs mx] st(1,2) xs i(2,3) by metis
  ultimately show ?thesis using st(3,4) xs by (simp add: represents_table_of)
qed

lemma clear_first_refines:
  assumes "represents mx S (table_of xs mx)" "\<forall>i \<in> set xs. live i" "int (length xs) \<ge> mx"
  shows "hmdfs_clear_first_item (table_of xs mx) = (0, table_of (tl xs) mx)"
proof -
  from assms obtain i ys where xs: "xs = i # ys" by (cases xs) (auto simp: represents_table_of)
  have ok: "items_ok ([] @ i # ys)" and nt: "\<not> timeout i"
    using assms live_no_timeout [of "[]" i ys] xs by (auto simp: represents_table_of)
  have "snd (cancel_delayed_work_sync (si_addr i) (table_of ([] @ i # ys) mx)) = (table_of ([] @ i # ys) mx)\<lparr>queued := si_addr ` set (filter waiting ([] @ ys))\<rparr>"
  proof -
    from ok have "si_addr i \<notin> si_addr ` set (filter waiting ys)" by (auto simp: items_ok_def)
    then have "queued (table_of (i # ys) mx) - {si_addr i} = si_addr ` set (filter waiting ys)" by auto
    then show ?thesis by (simp add: cancel_delayed_work_sync_def del: queued_table_of set_filter)
  qed
  with remove_split [OF distinct_addr [OF ok], of mx] nt xs show ?thesis by (simp add: hmdfs_clear_first_item_def)
qed

lemma insert_refines:
  assumes "represents mx S (table_of xs mx)" "\<forall>i \<in> set xs. live i" "\<forall>i \<in> set xs. relative_path i \<noteq> p"
    and "find_share p S = None" "length p < PATH_MAX"
    and "\<And>a. addr = Some a \<Longrightarrow> a \<notin> si_addr ` set xs"
  shows "\<exists>st'. insert_share_item (table_of xs mx) p file cid buf addr = Some (fst (spec_share p file cid buf addr mx S), st')
    \<and> represents mx (snd (spec_share p file cid buf addr mx S)) st'"
proof -
  define ys where "ys = (if int (length xs) \<ge> mx then tl xs else xs)"
  define S' where "S' = (if int (length S) \<ge> mx then tl S else S)"
  have S: "S = map share_of xs" and ok: "items_ok xs" "int (length xs) \<le> mx" "0 < mx"
    using assms(1,2) by (auto simp: represents_table_of filter_id_conv)
  have sub: "set ys \<subseteq> set xs" by (cases xs) (auto simp: ys_def)
  have ysok: "items_ok ys" using ok(1) by (cases xs) (auto simp: ys_def items_ok_def)
  have len: "int (length ys) < mx" using ok(2,3) by (auto simp: ys_def)
  have S': "S' = map share_of ys" by (simp add: S'_def ys_def S map_tl)
  have first: "(if item_cnt (table_of xs mx) \<ge> max_cnt (table_of xs mx) then hmdfs_clear_first_item (table_of xs mx) else (0, table_of xs mx))
      = (0, table_of ys mx)"
    using clear_first_refines [OF assms(1,2)] by (simp add: ys_def)
  have "filter live ys = ys" using assms(2) sub by (auto simp: filter_id_conv)
  then have rep: "represents mx S' (table_of ys mx)"
    using ysok len ok(3) S' by (simp add: represents_table_of)
  show ?thesis
  proof (cases "buf \<and> addr \<noteq> None")
    case False
    then show ?thesis unfolding insert_share_item_def first
      using rep assms(4,5) by (auto simp: spec_share_def S'_def [symmetric] split: option.splits)
  next
    case True
    then obtain a where a: "addr = Some a" by auto
    from assms(6) [OF this] sub have fresh: "a \<notin> si_addr ` set ys" by blast
    let ?i = "\<lparr>si_addr = a, si_file = file, relative_path = p, si_cid = take HMDFS_CID_SIZE cid, opened = False, timeout = False\<rparr>"
    have "insert_share_item (table_of xs mx) p file cid buf addr = Some (0, table_of (ys @ [?i]) mx)"
      unfolding insert_share_item_def first
      using True a fresh assms(5) by (simp add: Let_def get_file_def queue_delayed_work_def table_of_def waiting_def fun_eq_iff)
    moreover have "represents mx (S' @ [share_of ?i]) (table_of (ys @ [?i]) mx)"
      using rep len fresh assms(3) sub
      by (auto simp: represents_table_of items_ok_def live_def is_share_item_timeout_def)
    ultimately show ?thesis using True a assms(4) by (simp add: spec_share_def S'_def [symmetric] share_of_def)
  qed
qed

lemma connect_path_length: "hmdfs_connect_path d n = Some p \<Longrightarrow> length p < PATH_MAX"
  by (auto simp: hmdfs_connect_path_def split: if_splits)

lemma share_refined:
  assumes "represents mx S st" "\<And>a. addr = Some a \<Longrightarrow> a \<notin> si_addr ` set (item_list st)"
  shows "\<exists>st'. hmdfs_ioc_set_share_path src dir cid buf addr st = Some (fst (share_spec (Op_Share src dir cid buf addr) mx S), st')
    \<and> represents mx (snd (share_spec (Op_Share src dir cid buf addr) mx S)) st'"
proof (cases "source_error src dir")
  case (Inl e)
  then have "hmdfs_ioc_set_share_path src dir cid buf addr st = Some (e, st)"
    by (auto simp: source_error_def hmdfs_ioc_set_share_path_def split: option.splits if_splits)
  with Inl assms(1) show ?thesis by (simp add: share_spec_def)
next
  case (Inr sp)
  obtain s p where sp: "sp = (s, p)" by (cases sp)
  with Inr have ioc: "hmdfs_ioc_set_share_path src dir cid buf addr st =
      (case hmdfs_lookup_share_item st p of
         (None, st1) \<Rightarrow> insert_share_item st1 p (ss_file s) cid buf addr
       | (Some i, st1) \<Rightarrow> if opened i then Some (- EEXIST, st1) else Some (0, update_share_item i (ss_file s) cid st1))"
    and p: "length p < PATH_MAX"
    by (auto simp: source_error_def hmdfs_ioc_set_share_path_def bind_eq_Some_conv connect_path_length split: option.splits if_splits)
  have spec: "share_spec (Op_Share src dir cid buf addr) mx S = spec_share p (ss_file s) cid buf addr mx S"
    using Inr sp by (simp add: share_spec_def)
  from assms(1) show ?thesis unfolding ioc spec
  proof (cases rule: lookup_cases [where p = p])
    case (absent xs)
    have "\<And>a. addr = Some a \<Longrightarrow> a \<notin> si_addr ` set xs" using assms(2) absent(5) by blast
    with insert_refines [OF absent(3,4,6,1) p] absent(2) show
      "\<exists>st'. (case hmdfs_lookup_share_item st p of (None, st1) \<Rightarrow> insert_share_item st1 p (ss_file s) cid buf addr
        | (Some i, st1) \<Rightarrow> if opened i then Some (- EEXIST, st1) else Some (0, update_share_item i (ss_file s) cid st1))
        = Some (fst (spec_share p (ss_file s) cid buf addr mx S), st') \<and> represents mx (snd (spec_share p (ss_file s) cid buf addr mx S)) st'"
      by simp
  next
    case (present ys i zs)
    have "represents mx (change_share p (\<lambda>s'. s'\<lparr>sh_cid := take HMDFS_CID_SIZE cid,
        sh_file := (if hmdfs_is_dst_path (ss_file s) (sh_file s') then sh_file s' else ss_file s)\<rparr>) S) (table_of (ys @ reshared (ss_file s) cid i # zs) mx)"
      using present(3-6) live_no_timeout [OF present(4,5)]
      by (intro represents_split) (auto simp: share_of_def reshared_def)
    moreover have "\<not> opened i \<Longrightarrow> waiting i" using live_no_timeout [OF present(4,5)] by (simp add: waiting_def)
    ultimately show
      "\<exists>st'. (case hmdfs_lookup_share_item st p of (None, st1) \<Rightarrow> insert_share_item st1 p (ss_file s) cid buf addr
        | (Some i, st1) \<Rightarrow> if opened i then Some (- EEXIST, st1) else Some (0, update_share_item i (ss_file s) cid st1))
        = Some (fst (spec_share p (ss_file s) cid buf addr mx S), st') \<and> represents mx (snd (spec_share p (ss_file s) cid buf addr mx S)) st'"
      using present update_split [OF present(4)] by (simp add: spec_share_def)
  qed
qed

lemma exec_refines:
  assumes "represents mx S st" "op_fresh c st"
  shows "\<exists>st'. share_exec c st = Some (fst (share_spec c mx S), st') \<and> represents mx (snd (share_spec c mx S)) st'"
proof (cases c)
  case (Op_Share src dir cid buf addr)
  with assms(2) have "addr = Some a \<Longrightarrow> a \<notin> si_addr ` set (item_list st)" for a by simp
  from share_refined [OF assms(1) this] Op_Share show ?thesis by (simp add: share_exec_def)
next
  case (Op_Open p cid)
  with open_refines [OF assms(1), of p cid] show ?thesis by (auto simp: share_exec_def share_spec_def)
next
  case (Op_Close p cid)
  with close_refines [OF assms(1)] assms(1) show ?thesis
    by (cases p) (simp_all add: share_exec_def share_spec_def hmdfs_close_share_item_def)
next
  case (Op_Reset p)
  with reset_refines [OF assms(1)] show ?thesis by (simp add: share_exec_def share_spec_def)
next
  case (Op_Path p)
  show ?thesis
  proof (cases p)
    case None
    with Op_Path assms(1) show ?thesis by (simp add: share_exec_def share_spec_def get_path_from_share_table_def)
  next
    case (Some q)
    with path_refines [OF assms(1), of q] Op_Path show ?thesis
      by (cases "find_share q S") (auto simp: share_exec_def share_spec_def)
  qed
next
  case (Op_Offline cid)
  with offline_refines [OF assms(1)] show ?thesis by (simp add: share_exec_def share_spec_def)
next
  case (Op_Timer a)
  show ?thesis
  proof (cases "a \<in> queued st")
    case True
    with timer_refines [OF assms(1) True] Op_Timer show ?thesis by (auto simp: share_exec_def share_spec_def)
  next
    case False
    from assms(1) obtain xs where st: "st = table_of xs mx" and S: "S = map share_of (filter live xs)"
      by (metis represents_def share_inv_cases max_cnt_table_of shares_table_of)
    have "filter (\<lambda>s. \<not> (sh_addr s = a \<and> \<not> sh_open s)) S = S"
      using False st by (auto simp: S filter_id_conv live_def is_share_item_timeout_def waiting_def)
    with False Op_Timer assms(1) show ?thesis by (simp add: share_exec_def share_spec_def)
  qed
qed

lemma reach_represents: "share_reach st \<Longrightarrow> represents HMDFS_SHARE_ITEMS_MAX (shares st) st"
proof (induction rule: share_reach.induct)
  case (init st)
  then have "st = table_of [] HMDFS_SHARE_ITEMS_MAX" by (simp add: hmdfs_init_share_table_def table_of_def)
  then show ?case by (simp add: represents_table_of items_ok_def)
next
  case (step st c r st')
  from exec_refines [OF step.IH step.hyps(2)] step.hyps(3)
  have "represents HMDFS_SHARE_ITEMS_MAX (snd (share_spec c HMDFS_SHARE_ITEMS_MAX (shares st))) st'" by auto
  then show ?case by (simp add: represents_def)
qed


text \<open>A file \<open>a\<close> of the share directory, shared with the device \<open>7\<close>.\<close>

definition sample_source :: share_source where
  "sample_source = \<lparr>ss_file = \<lparr>f_id = 3, f_dentry = 30, f_mnt = 1\<rparr>, ss_reg = True, ss_chain = [(False, False)], ss_name = [97]\<rparr>"

definition sample_table :: hmdfs_share_table where
  "sample_table = \<lparr>item_list = [\<lparr>si_addr = 16, si_file = ss_file sample_source, relative_path = [115, 47, 97], si_cid = [55],
      opened = False, timeout = False\<rparr>], item_cnt = 1, max_cnt = HMDFS_SHARE_ITEMS_MAX, queued = {16},
      file_refs = (\<lambda>f. if f = 3 then 1 else 0)\<rparr>"

lemmas share_defs = hmdfs_ioc_set_share_path_def hmdfs_connect_path_def hmdfs_lookup_share_item_def insert_share_item_def
  hmdfs_init_share_table_def get_file_def queue_delayed_work_def sample_source_def sample_table_def

lemma sample_shared:
  "hmdfs_ioc_set_share_path (Some sample_source) (Some [115]) [55] True (Some 16) (snd (hmdfs_init_share_table True)) = Some (0, sample_table)"
  by (simp add: share_defs fun_eq_iff)

lemma sample_reach: "share_reach sample_table"
proof -
  have "share_reach (snd (hmdfs_init_share_table True))"
    by (rule share_reach.init) (simp add: hmdfs_init_share_table_def)
  moreover have "op_fresh (Op_Share (Some sample_source) (Some [115]) [55] True (Some 16)) (snd (hmdfs_init_share_table True))"
    by (simp add: hmdfs_init_share_table_def)
  ultimately show ?thesis
    using share_reach.step sample_shared by (fastforce simp: share_exec_def)
qed

lemma sample_shares: "shares sample_table = [\<lparr>sh_addr = 16, sh_path = [115, 47, 97], sh_cid = [55], sh_file = ss_file sample_source, sh_open = False\<rparr>]"
  by (simp add: shares_def sample_table_def live_def is_share_item_timeout_def share_of_def)


section \<open>Who may open a shared file\<close>

lemma open_result:
  assumes "share_reach st"
  shows "fst (hmdfs_check_share_access_permission p cid st) =
     (case find_share p (shares st) of Some s \<Rightarrow> if may_open cid s then 0 else - ENOENT | None \<Rightarrow> - ENOENT)"
  using open_refines [OF reach_represents [OF assms], of p cid] by (auto simp: spec_open_def split: option.splits)

lemma find_change_share:
  "(\<And>s. sh_path s = p \<Longrightarrow> sh_path (f s) = p) \<Longrightarrow> find_share p (change_share p f S) = map_option f (find_share p S)"
  by (induction S) (auto simp: find_share_def change_share_def)

lemma find_share_append:
  "find_share p (S @ T) = (case find_share p S of Some s \<Rightarrow> Some s | None \<Rightarrow> find_share p T)"
  by (induction S) (auto simp: find_share_def)

lemma find_share_tl: "find_share p S = None \<Longrightarrow> find_share p (tl S) = None"
  by (cases S) (auto simp: find_share_def split: if_splits)

lemma spec_share_found:
  assumes "spec_share p file cid buf addr mx S = (0, S')"
  shows "\<exists>s. find_share p S' = Some s \<and> sh_cid s = take HMDFS_CID_SIZE cid"
proof (cases "find_share p S")
  case None
  with assms find_share_tl [OF None] show ?thesis
    by (auto simp: spec_share_def Let_def find_share_append split: if_splits option.splits) (simp_all add: find_share_def)
next
  case (Some s)
  with assms show ?thesis by (auto simp: spec_share_def find_change_share split: if_splits)
qed

lemma find_share_expired:
  assumes "distinct (map sh_path S)" "find_share p S = Some s" "\<not> sh_open s"
  shows "find_share p (filter (\<lambda>t. \<not> (sh_addr t = sh_addr s \<and> \<not> sh_open t)) S) = None"
  using assms
proof (induction S)
  case (Cons t S)
  show ?case
  proof (cases "sh_path t = p")
    case True
    with Cons.prems have "s = t" "\<forall>u \<in> set S. sh_path u \<noteq> p" by (auto simp: find_share_def image_iff)
    with Cons.prems(3) show ?thesis by (auto simp: find_share_def find_None_iff)
  next
    case False
    with Cons show ?thesis by (simp add: find_share_def)
  qed
qed (simp add: find_share_def)

text \<open>
  After a file has been shared with a device, a device may open it by its path exactly
  if it is that device or the file is shared with every device; the device is compared as C
  compares the 64 bytes of its identifier.
\<close>

theorem share_then_open:
  assumes "share_reach st" "op_fresh (Op_Share src dir cid buf addr) st" "source_error src dir = Inr (s, p)"
    and "hmdfs_ioc_set_share_path src dir cid buf addr st = Some (0, st1)"
  shows "fst (hmdfs_check_share_access_permission p cid' st1) =
     (if is_dst_device (take HMDFS_CID_SIZE cid) cid' \<or> shared_to_all (take HMDFS_CID_SIZE cid) then 0 else - ENOENT)"
proof -
  have x: "share_exec (Op_Share src dir cid buf addr) st = Some (0, st1)" using assms(4) by (simp add: share_exec_def)
  have r: "share_reach st1" using share_reach.step [OF assms(1,2) x] .
  from exec_refines [OF reach_represents [OF assms(1)] assms(2)] x assms(3)
  have "spec_share p (ss_file s) cid buf addr HMDFS_SHARE_ITEMS_MAX (shares st) = (0, shares st1)"
    by (auto simp: share_spec_def represents_def prod_eq_iff)
  from spec_share_found [OF this] show ?thesis using open_result [OF r] by (auto simp: may_open_def)
qed

text \<open>
  (functional). When the time of a share that nobody has open has run out, no device can open the
  file by its path any more.
\<close>

theorem share_expires:
  assumes "share_reach st" "find_share p (shares st) = Some s" "\<not> sh_open s" "share_exec (Op_Timer (sh_addr s)) st = Some (r, st1)"
  shows "fst (hmdfs_check_share_access_permission p cid st1) = - ENOENT"
proof -
  have re: "share_reach st1" using share_reach.step [OF assms(1) _ assms(4)] by simp
  from exec_refines [OF reach_represents [OF assms(1)], of "Op_Timer (sh_addr s)"] assms(4)
  have S1: "shares st1 = filter (\<lambda>t. \<not> (sh_addr t = sh_addr s \<and> \<not> sh_open t)) (shares st)"
    by (auto simp: share_spec_def represents_def)
  have "distinct (map sh_path (shares st))"
    using reach_represents [OF assms(1)]
    by (auto simp: represents_def share_inv_def items_ok_def shares_def comp_def distinct_map_filter)
  then have "find_share p (shares st1) = None" unfolding S1 using assms(2,3) by (rule find_share_expired)
  with open_result [OF re] show ?thesis by simp
qed

theorem share_then_open_witness:
  "hmdfs_ioc_set_share_path (Some sample_source) (Some [115]) [55] True (Some 16) (snd (hmdfs_init_share_table True)) = Some (0, sample_table)
   \<and> fst (hmdfs_check_share_access_permission [115, 47, 97] [55] sample_table) = 0
   \<and> fst (hmdfs_check_share_access_permission [115, 47, 97] [56] sample_table) = - ENOENT"
proof -
  have i: "share_reach (snd (hmdfs_init_share_table True))"
    by (rule share_reach.init) (simp add: hmdfs_init_share_table_def)
  have e: "source_error (Some sample_source) (Some [115]) = Inr (sample_source, [115, 47, 97])"
    by (simp add: source_error_def sample_source_def hmdfs_connect_path_def)
  show ?thesis
    using sample_shared share_then_open [OF i _ e sample_shared, of "[55]"] share_then_open [OF i _ e sample_shared, of "[56]"]
    by (simp add: hmdfs_init_share_table_def is_dst_device_def strncmp_eq_def shared_to_all_def)
qed

theorem share_expires_witness:
  "fst (hmdfs_check_share_access_permission [115, 47, 97] [55] (the (share_item_timeout_work 16 sample_table))) = - ENOENT"
proof -
  have "share_exec (Op_Timer 16) sample_table = Some (0, the (share_item_timeout_work 16 sample_table))"
    by (simp add: share_exec_def share_item_timeout_work_def sample_table_def)
  with share_expires [OF sample_reach, of "[115, 47, 97]"] show ?thesis by (simp add: sample_shares find_share_def)
qed

section \<open>The timer between lookup and restart\<close>

lemma lookup_from_queued:
  "lookup_from xs p (st\<lparr>queued := q\<rparr>) = (fst (lookup_from xs p st), (snd (lookup_from xs p st))\<lparr>queued := q\<rparr>)"
proof (induction xs arbitrary: st)
  case (Cons i xs)
  have "remove_and_release_share_item i (st\<lparr>queued := q\<rparr>) = (remove_and_release_share_item i st)\<lparr>queued := q\<rparr>"
    by (simp add: remove_and_release_share_item_def fput_def)
  with Cons show ?case by simp
qed simp

text \<open>
  C37 (error). The delayed work does not take the lock. If it runs between the lookup of
  \<open>hmdfs_close_share_item\<close> and the end of the function, on a share that waits (a device that had
  the file open twice closes it the second time), the item is both expired and queued: the next
  lookup frees it while its work is pending, and the work then runs on freed memory.
\<close>

theorem close_timer_race:
  assumes "share_reach st" "find_share p (shares st) = Some s" "\<not> sh_open s" "may_open cid s"
  shows "\<exists>item st1 st2 st3. hmdfs_lookup_share_item st p = (item, st1)
    \<and> share_item_timeout_work (sh_addr s) st1 = Some st2
    \<and> hmdfs_lookup_share_item (close_found item cid st2) p = (None, st3)
    \<and> sh_addr s \<in> queued st3 \<and> share_item_timeout_work (sh_addr s) st3 = None"
proof -
  from reach_represents [OF assms(1)] show ?thesis
  proof (cases rule: lookup_cases [where p = p])
    case absent
    with assms(2) show ?thesis by simp
  next
    case (present ys i zs)
    have s: "s = share_of i" using present(1) assms(2) by simp
    have w: "waiting i" using assms(3) s live_no_timeout [OF present(4,5)] by (simp add: waiting_def)
    let ?j = "i\<lparr>timeout := True\<rparr>"
    let ?t = "table_of (ys @ ?j # zs) HMDFS_SHARE_ITEMS_MAX"
    have ok: "items_ok (ys @ ?j # zs)"
      using assms(3) s by (intro items_ok_split [OF present(4)]) simp_all
    have "\<not> live ?j" using assms(3) s by (simp add: live_def is_share_item_timeout_def)
    moreover have "k \<in> set ys \<union> set zs \<Longrightarrow> relative_path k \<noteq> p" for k
      using present(4,6) by (auto simp: items_ok_def image_iff)
    ultimately have none: "find (\<lambda>i. live i \<and> relative_path i = p) (ys @ ?j # zs) = None"
      by (auto simp: find_None_iff)
    let ?q = "insert (si_addr i) (queued ?t)"
    have closed: "close_found (Some i) cid ?t = ?t\<lparr>queued := ?q\<rparr>"
    proof -
      have "set_item (si_addr i) (\<lambda>i. i\<lparr>opened := False\<rparr>) ?t = ?t"
        using set_item_list [OF ok, of ?t ?j "\<lambda>i. i\<lparr>opened := False\<rparr>"] assms(3) s by (simp add: set_item_def)
      then show ?thesis
        using assms(4) s by (auto simp: close_found_def may_open_def restart_item_def queue_delayed_work_def)
    qed
    let ?st3 = "(table_of (filter live (ys @ ?j # zs)) HMDFS_SHARE_ITEMS_MAX)\<lparr>queued := ?q\<rparr>"
    have look: "hmdfs_lookup_share_item (close_found (Some i) cid ?t) p = (None, ?st3)"
      unfolding closed
      using lookup_table_of [OF ok, of HMDFS_SHARE_ITEMS_MAX p] none purge_not_found [OF none]
      by (simp add: hmdfs_lookup_share_item_def lookup_from_queued)
    have "si_addr i \<notin> si_addr ` set (filter live (ys @ ?j # zs))"
    proof -
      have "\<forall>k \<in> set ys \<union> set zs. si_addr k \<noteq> si_addr i" using items_ok_other [OF present(4)] by blast
      with \<open>\<not> live ?j\<close> show ?thesis by auto
    qed
    then have "share_item_timeout_work (sh_addr s) ?st3 = None"
      unfolding share_item_timeout_work_def s by (simp del: filter.simps filter_append set_filter)
    moreover have "sh_addr s \<in> queued ?st3" using s by simp
    moreover have "share_item_timeout_work (sh_addr s) (table_of (ys @ i # zs) HMDFS_SHARE_ITEMS_MAX) = Some ?t"
      using timer_split [OF present(4) w] s by simp
    ultimately show ?thesis using present(2) look by blast
  qed
qed

theorem close_timer_race_witness:
  "\<exists>item st1 st2 st3. hmdfs_lookup_share_item sample_table [115, 47, 97] = (item, st1)
    \<and> share_item_timeout_work 16 st1 = Some st2
    \<and> hmdfs_lookup_share_item (close_found item [55] st2) [115, 47, 97] = (None, st3)
    \<and> 16 \<in> queued st3 \<and> share_item_timeout_work 16 st3 = None"
  using close_timer_race [OF sample_reach, of "[115, 47, 97]" _ "[55]"]
  by (simp add: sample_shares find_share_def may_open_def is_dst_device_def strncmp_eq_def)

section \<open>Clearing the table\<close>

lemma clear_from: "items_ok xs \<Longrightarrow> clear_table_from xs (table_of xs mx) = Some (table_of [] mx)"
proof (induction xs)
  case (Cons i xs)
  have ok: "items_ok ([] @ i # xs)" using Cons.prems by simp
  have IH: "clear_table_from xs (table_of xs mx) = Some (table_of [] mx)"
    using Cons.IH items_ok_sublist [OF ok] by simp
  show ?case
  proof (cases "waiting i")
    case True
    let ?j = "i\<lparr>timeout := True\<rparr>"
    have ok': "items_ok ([] @ ?j # xs)"
      using True by (intro items_ok_split [OF ok]) (simp_all add: waiting_def)
    have "remove_and_release_share_item i (table_of ([] @ ?j # xs) mx) = remove_and_release_share_item ?j (table_of ([] @ ?j # xs) mx)"
      by (simp add: remove_and_release_share_item_def)
    also have "\<dots> = table_of ([] @ xs) mx"
      by (rule remove_not_waiting [OF distinct_addr [OF ok']]) (simp add: waiting_def)
    finally show ?thesis using timer_split [OF ok True] IH True by simp
  next
    case False
    have "si_addr i \<notin> queued (table_of (i # xs) mx)"
      using ok False by (auto simp: items_ok_def)
    with remove_not_waiting [OF distinct_addr [OF ok] False, of mx] IH show ?thesis by simp
  qed
qed simp

text \<open>
  (safety). Clearing the table of a file system that is unmounted, in any state it can reach, leaves
  no item, no pending delayed work and no reference on a shared file.
\<close>

theorem clear_share_table_releases:
  assumes "share_reach st"
  shows "\<exists>st'. hmdfs_clear_share_table st = Some st' \<and> item_list st' = [] \<and> item_cnt st' = 0 \<and> queued st' = {} \<and> (\<forall>f. file_refs st' f = 0)"
proof -
  from reach_represents [OF assms] obtain xs where "st = table_of xs HMDFS_SHARE_ITEMS_MAX" "items_ok xs"
    by (metis represents_def share_inv_cases max_cnt_table_of)
  then show ?thesis by (simp add: hmdfs_clear_share_table_def clear_from) (simp add: table_of_def)
qed

theorem clear_share_table_releases_witness:
  "\<exists>st'. hmdfs_clear_share_table sample_table = Some st' \<and> queued st' = {} \<and> file_refs st' 3 = 0"
  using clear_share_table_releases [OF sample_reach] by blast

section \<open>The share directory\<close>

text \<open>
  The two tests for the share directory differ: a directory whose name only begins with
  \<open>.share\<close>, such as \<open>.shared\<close>, is taken for it when a file below it is looked up.
\<close>

lemma share_dir_tests:
  assumes "0 \<notin> set name"
  shows "in_share_dir name = (take 6 name = SHARE_RESERVED_DIR)" "is_share_dir True name = (name = SHARE_RESERVED_DIR)"
proof -
  have t: "takeWhile (\<lambda>c. c \<noteq> 0) (take n (name @ [0])) = take n name" for n
  proof -
    have "takeWhile (\<lambda>c. c \<noteq> 0) (take n name @ take (n - length name) [0]) = take n name @ takeWhile (\<lambda>c. c \<noteq> 0) (take (n - length name) [0])"
      using assms by (intro takeWhile_append2) (auto dest: in_set_takeD)
    moreover have "takeWhile (\<lambda>c. c \<noteq> 0) (take k [0::byte]) = []" for k by (cases k) auto
    ultimately show ?thesis by simp
  qed
  have l: "length SHARE_RESERVED_DIR = 6" "length SHARE_RESERVED_DIR + 1 = 7" by simp_all
  have d: "takeWhile (\<lambda>c. c \<noteq> 0) (take 6 (SHARE_RESERVED_DIR @ [0])) = SHARE_RESERVED_DIR"
    "takeWhile (\<lambda>c. c \<noteq> 0) (take 7 (SHARE_RESERVED_DIR @ [0])) = SHARE_RESERVED_DIR" by simp_all
  show "in_share_dir name = (take 6 name = SHARE_RESERVED_DIR)"
    unfolding in_share_dir_def strncmp_eq_def l t d ..
  have "take 7 name = SHARE_RESERVED_DIR \<longleftrightarrow> name = SHARE_RESERVED_DIR"
  proof
    assume a: "take 7 name = SHARE_RESERVED_DIR"
    then have "length (take 7 name) = 6" by simp
    then have "length name \<le> 7" by (simp only: length_take)
    with a show "name = SHARE_RESERVED_DIR" by (simp only: take_all)
  qed simp
  then show "is_share_dir True name = (name = SHARE_RESERVED_DIR)"
    unfolding is_share_dir_def strncmp_eq_def l(2) t d(2) by blast
qed

end
