(* ===== verification/Open_Files.thy ===== *)
theory Open_Files
  imports Ref_Table Server_Files Share_Spec
begin

text \<open>
  The references on the open files of a peer: between two requests every open file
  has exactly the references of the table of file numbers, but for those that
  \<open>hmdfs_server_atomic_open\<close> has lost.
\<close>

section \<open>The invariant\<close>

definition entries :: "(nat \<times> nat) list \<Rightarrow> nat \<Rightarrow> nat" where
  "entries idr f = length (filter (\<lambda>e. snd e = f) idr)"

definition holds :: "(nat \<Rightarrow> nat) \<Rightarrow> server \<Rightarrow> bool" where
  "holds lost s = (distinct (map fst (file_id_idr s)) \<and>
     (\<forall>f. f_count s f = int (entries (file_id_idr s) f) + int (lost f)))"

abbreviation files_ok :: "server \<Rightarrow> bool" where
  "files_ok s \<equiv> \<exists>lost. holds lost s"

lemma entries_pos: "map_of idr i = Some f \<Longrightarrow> 0 < entries idr f"
  using map_of_SomeD [of idr i f] by (force simp: entries_def filter_empty_conv)

lemma entries_remove:
  assumes "distinct (map fst idr)" "map_of idr i = Some f"
  shows "entries idr g = entries (filter (\<lambda>e. fst e \<noteq> i) idr) g + (if g = f then 1 else 0)"
  using assms
proof (induction idr)
  case (Cons e idr)
  show ?case
  proof (cases "fst e = i")
    case True
    with Cons.prems have "snd e = f" "\<forall>d \<in> set idr. fst d \<noteq> i" by (auto simp: rev_image_eqI)
    with True show ?thesis by (auto simp: entries_def filter_id_conv)
  next
    case False
    with Cons show ?thesis by (auto simp: entries_def)
  qed
qed simp

lemma count_pos:
  assumes "holds lost s" "map_of (file_id_idr s) i = Some f"
  shows "0 < f_count s f"
  using assms entries_pos [OF assms(2)] by (simp add: holds_def)

section \<open>Taking and putting a file\<close>

definition fid_file :: "nat \<times> u64 \<Rightarrow> server \<Rightarrow> int + nat" where
  "fid_file = (\<lambda>(file_id, file_ver) s.
     if file_ver \<noteq> hmdfs_server_pack_fid_ver s then Inl (- EBADF)
     else case map_of (file_id_idr s) file_id of None \<Rightarrow> Inl (- EBADF) | Some f \<Rightarrow> Inr f)"

interpretation files: ref_table files_ok fid_file "\<lambda>(i, ver). get_file_by_fid_and_ver i ver" hmdfs_close_path
proof
  fix s k e
  assume "files_ok s" "fid_file k s = Inl e"
  then show "(case k of (i, ver) \<Rightarrow> get_file_by_fid_and_ver i ver) s = (Inl e, s)"
    by (cases k) (auto simp: fid_file_def get_file_by_fid_and_ver_def get_file_from_conn_def split: if_splits option.splits)
next
  fix s k f
  assume ok: "files_ok s" and f: "fid_file k s = Inr f"
  obtain i ver where k: "k = (i, ver)" by (cases k)
  with f have v: "ver = hmdfs_server_pack_fid_ver s" and m: "map_of (file_id_idr s) i = Some f"
    by (auto simp: fid_file_def split: if_splits option.splits)
  from ok m have "0 < f_count s f" using count_pos by blast
  then show "\<exists>s1. (case k of (i, ver) \<Rightarrow> get_file_by_fid_and_ver i ver) s = (Inr f, s1) \<and> hmdfs_close_path f s1 = Some s"
    using k v m by (simp add: get_file_by_fid_and_ver_def get_file_from_conn_def server_get_file_def hmdfs_close_path_def)
qed

text \<open>The handlers that only borrow a file, over the table.\<close>

lemma fsync_table:
  assumes "files_ok s" "fld fsync_request ''datasync'' data = Some d" "fld fsync_request ''start'' data = Some a"
    "fld fsync_request ''end'' data = Some b" "fld fsync_request ''file_id'' data = Some i" "fld fsync_request ''file_ver'' data = Some ver"
  shows "hmdfs_server_fsync env cmd data s = Some ([hmdfs_send_err_response cmd
    (case fid_file (i, of_nat ver) s of Inl e \<Rightarrow> e | Inr f \<Rightarrow> io_fsync env f (of_nat a) (of_nat b) (of_nat d))], s)"
  using assms(1)
proof (cases rule: files.get_cases [where k = "(i, of_nat ver)"])
  case (found f s1)
  then show ?thesis using assms by (simp add: hmdfs_server_fsync_def)
qed (use assms in \<open>simp add: hmdfs_server_fsync_def\<close>)

definition page_answer :: "io_env \<Rightarrow> hmdfs_head_cmd \<Rightarrow> nat \<Rightarrow> nat \<Rightarrow> nat \<Rightarrow> hmdfs_head_cmd \<times> byte list" where
  "page_answer env cmd f index n =
     (if n = 0 then hmdfs_send_err_response cmd 0
      else if \<not> io_kmalloc env n then hmdfs_send_err_response cmd (- ENOMEM)
      else case io_read env f (page_pos index) n of (ret, content) \<Rightarrow>
        if ret < 0 then hmdfs_send_err_response cmd (- EIO)
        else hmdfs_sendmessage_response cmd (take (nat ret) content @ replicate (n - nat ret) 0) 0)"

lemma readpage_table:
  assumes "files_ok s" "fld readpage_request ''file_id'' data = Some i" "fld readpage_request ''file_ver'' data = Some ver"
    "fld readpage_request ''size'' data = Some n" "fld readpage_request ''index'' data = Some x"
  shows "hmdfs_server_readpage env cmd data s = Some ([
    case fid_file (i, of_nat ver) s of Inl e \<Rightarrow> hmdfs_send_err_response cmd e | Inr f \<Rightarrow> page_answer env cmd f x n], s)"
  using assms(1)
proof (cases rule: files.get_cases [where k = "(i, of_nat ver)"])
  case (found f s1)
  then show ?thesis using assms by (simp add: hmdfs_server_readpage_def page_answer_def split: prod.splits)
qed (use assms in \<open>simp add: hmdfs_server_readpage_def\<close>)

lemma writepage_table:
  assumes "files_ok s" "fld writepage_request ''file_id'' data = Some i" "fld writepage_request ''file_ver'' data = Some ver"
    "fld writepage_request ''count'' data = Some n" "fld writepage_request ''index'' data = Some x"
    "bytes_at data (sizeof writepage_request) n = Some buf"
  shows "hmdfs_server_writepage env cmd data s = Some ([hmdfs_send_err_response cmd
    (case fid_file (i, of_nat ver) s of Inl e \<Rightarrow> e | Inr f \<Rightarrow> if io_write env f (page_pos x) buf \<noteq> int n then - EIO else 0)], s)"
  using assms(1)
proof (cases rule: files.get_cases [where k = "(i, of_nat ver)"])
  case (found f s1)
  then show ?thesis using assms by (simp add: hmdfs_server_writepage_def)
qed (use assms in \<open>simp add: hmdfs_server_writepage_def\<close>)

section \<open>Closing\<close>

lemma holds_share [simp]: "holds lost (s\<lparr>share_tbl := t\<rparr>) = holds lost s"
  by (simp add: holds_def)

lemma close_remove:
  assumes "holds lost s" "map_of (file_id_idr s) i = Some f"
  shows "\<exists>s'. hmdfs_close_path f (snd (remove_file_from_conn i s)) = Some s' \<and> holds lost s'
    \<and> file_id_idr s' = filter (\<lambda>e. fst e \<noteq> i) (file_id_idr s) \<and> fid_cookie s' = fid_cookie s \<and> boot_cookie s' = boot_cookie s \<and> share_tbl s' = share_tbl s"
proof -
  have d: "distinct (map fst (file_id_idr s))" using assms(1) by (simp add: holds_def)
  have "0 < f_count s f" by (rule count_pos [OF assms])
  moreover have "holds lost (s\<lparr>file_id_idr := filter (\<lambda>e. fst e \<noteq> i) (file_id_idr s), f_count := (f_count s)(f := f_count s f - 1)\<rparr>)"
    using assms(1) entries_remove [OF d assms(2)] distinct_map_filter [OF d] by (simp add: holds_def)
  ultimately show ?thesis using assms(2) by (simp add: remove_file_from_conn_def hmdfs_close_path_def)
qed

lemma release_table:
  assumes "holds lost s" "fld release_request ''file_id'' data = Some i" "fld release_request ''file_ver'' data = Some ver"
  shows "\<exists>s'. hmdfs_server_release env data s = Some s' \<and> holds lost s' \<and> fid_cookie s' = fid_cookie s \<and> boot_cookie s' = boot_cookie s \<and>
    file_id_idr s' = (case fid_file (i, of_nat ver) s of Inl _ \<Rightarrow> file_id_idr s | Inr _ \<Rightarrow> filter (\<lambda>e. fst e \<noteq> i) (file_id_idr s))"
proof -
  from assms(1) have "files_ok s" by blast
  then show ?thesis
  proof (cases rule: files.get_cases [where k = "(i, of_nat ver)"])
    case (absent e)
    then show ?thesis using assms by (simp add: hmdfs_server_release_def)
  next
    case (found f s1)
    have m: "map_of (file_id_idr s) i = Some f"
      using found(1) by (auto simp: fid_file_def split: if_splits option.splits)
    define t where "t = (if hmdfs_is_share_file (io_share env f)
        then hmdfs_close_share_item (io_path env f) (io_cid env) (share_tbl s) else share_tbl s)"
    have s1: "s1 = server_get_file f s"
      using found(2) by (auto simp: get_file_by_fid_and_ver_def get_file_from_conn_def split: if_splits option.splits)
    have c: "hmdfs_close_path f (s1\<lparr>share_tbl := t\<rparr>) = Some (s\<lparr>share_tbl := t\<rparr>)"
      using found(3) s1 by (auto simp: hmdfs_close_path_def server_get_file_def split: if_splits)
    have "holds lost (s\<lparr>share_tbl := t\<rparr>)" using assms(1) by simp
    moreover have "map_of (file_id_idr (s\<lparr>share_tbl := t\<rparr>)) i = Some f" using m by simp
    ultimately obtain s' where s': "hmdfs_close_path f (snd (remove_file_from_conn i (s\<lparr>share_tbl := t\<rparr>))) = Some s'" "holds lost s'"
      "file_id_idr s' = filter (\<lambda>e. fst e \<noteq> i) (file_id_idr s)" "fid_cookie s' = fid_cookie s" "boot_cookie s' = boot_cookie s"
      using close_remove by fastforce
    have r: "fst (remove_file_from_conn i (s\<lparr>share_tbl := t\<rparr>)) = 0" using m by (simp add: remove_file_from_conn_def)
    have "hmdfs_server_release env data s = Some s'"
      using assms(2,3) found(2) c r s'(1) s1
      by (cases "hmdfs_is_share_file (io_share env f)")
         (simp_all add: hmdfs_server_release_def Let_def case_prod_beta' t_def server_get_file_def)
    with s' found(1) show ?thesis by simp
  qed
qed

lemma close_all_ok:
  assumes "\<And>f. f_count s f = int (entries idr f) + int (lost f)"
  shows "\<exists>s'. close_all idr s = Some s' \<and> (\<forall>f. f_count s' f = int (lost f)) \<and> file_id_idr s' = file_id_idr s
    \<and> fid_cookie s' = fid_cookie s \<and> boot_cookie s' = boot_cookie s \<and> share_tbl s' = share_tbl s"
  using assms
proof (induction idr arbitrary: s)
  case (Cons e idr)
  obtain i f where e: "e = (i, f)" by (cases e)
  have "f_count s f > 0" using Cons.prems [of f] e by (simp add: entries_def)
  moreover have "f_count (s\<lparr>f_count := (f_count s)(f := f_count s f - 1)\<rparr>) g = int (entries idr g) + int (lost g)" for g
    using Cons.prems [of g] e by (auto simp: entries_def split: if_splits)
  ultimately show ?case using Cons.IH e by (fastforce simp: hmdfs_close_path_def)
qed (simp add: entries_def)

lemma offline_table:
  assumes "holds lost s"
  shows "\<exists>s'. hmdfs_server_offline_notify cid s = Some s' \<and> holds lost s' \<and> file_id_idr s' = [] \<and> fid_cookie s' = fid_cookie s + 1
    \<and> boot_cookie s' = boot_cookie s \<and> share_tbl s' = hmdfs_clear_share_item_offline cid (share_tbl s)"
proof -
  from assms have "\<And>f. f_count s f = int (entries (file_id_idr s) f) + int (lost f)" by (simp add: holds_def)
  from close_all_ok [OF this] show ?thesis by (auto simp: hmdfs_server_offline_notify_def holds_def entries_def)
qed

section \<open>Opening\<close>

text \<open>The kernel gives a file that is new and a number that is free.\<close>

definition fresh_open :: "open_env \<Rightarrow> server \<Rightarrow> bool" where
  "fresh_open env s = ((\<forall>p f. oe_open env p = Inr f \<longrightarrow> f_count s f = 0) \<and>
     (oe_idr env \<ge> 0 \<longrightarrow> nat (oe_idr env) \<notin> fst ` set (file_id_idr s)))"

text \<open>The state after a file has been opened, before the opener puts its reference.\<close>

definition with_file :: "nat \<Rightarrow> nat \<Rightarrow> hmdfs_share_table \<Rightarrow> server \<Rightarrow> server" where
  "with_file f fid t s = s\<lparr>share_tbl := t, file_id_idr := (fid, f) # file_id_idr s, f_count := (f_count s)(f := 2)\<rparr>"

lemma close_with_file:
  assumes "holds lost s" "f_count s f = 0" "fid \<notin> fst ` set (file_id_idr s)"
  shows "hmdfs_close_path f (with_file f fid t s) = Some ((with_file f fid t s)\<lparr>f_count := (f_count s)(f := 1)\<rparr>)"
    and "holds lost ((with_file f fid t s)\<lparr>f_count := (f_count s)(f := 1)\<rparr>)"
    and "holds (lost(f := 1)) (with_file f fid t s)"
proof -
  have "entries (file_id_idr s) f = 0" "lost f = 0" using assms(1,2) by (simp_all add: holds_def)
  with assms show "hmdfs_close_path f (with_file f fid t s) = Some ((with_file f fid t s)\<lparr>f_count := (f_count s)(f := 1)\<rparr>)"
    and "holds lost ((with_file f fid t s)\<lparr>f_count := (f_count s)(f := 1)\<rparr>)"
    and "holds (lost(f := 1)) (with_file f fid t s)"
    by (auto simp: with_file_def hmdfs_close_path_def holds_def entries_def)
qed

lemma failed_with_file:
  assumes "holds lost s" "f_count s f = 0" "fid \<notin> fst ` set (file_id_idr s)"
  shows "open_failed f fid (with_file f fid t s) = Some (s\<lparr>share_tbl := t\<rparr>)"
    and "do { s1 \<leftarrow> hmdfs_close_path f (snd (remove_file_from_conn fid (with_file f fid t s))); hmdfs_close_path f s1 } = Some (s\<lparr>share_tbl := t\<rparr>)"
proof -
  have r: "filter (\<lambda>e. fst e \<noteq> fid) (file_id_idr s) = file_id_idr s"
    using assms(3) by (auto simp: filter_id_conv)
  have z: "(f_count s)(f := 0) = f_count s" using assms(2) by auto
  show "open_failed f fid (with_file f fid t s) = Some (s\<lparr>share_tbl := t\<rparr>)"
    and "do { s1 \<leftarrow> hmdfs_close_path f (snd (remove_file_from_conn fid (with_file f fid t s))); hmdfs_close_path f s1 } = Some (s\<lparr>share_tbl := t\<rparr>)"
    by (simp_all add: open_failed_def with_file_def hmdfs_close_path_def remove_file_from_conn_def r z)
qed

text \<open>What \<open>hmdfs_open_file\<close> leaves: an error and the old table, or the file with two references.\<close>

lemma open_file_cases:
  assumes "holds lost s" "fresh_open env s"
  obtains (failed) e t where "hmdfs_open_file env p ty s = Some (Inl e, s\<lparr>share_tbl := t\<rparr>)"
  | (opened) f t where "hmdfs_open_file env p ty s = Some (Inr (f, nat (oe_idr env)), with_file f (nat (oe_idr env)) t s)"
      "oe_open env (if hm_islnk ty then oe_local_dst env @ p else p) = Inr f"
      "f_count s f = 0" "nat (oe_idr env) \<notin> fst ` set (file_id_idr s)" "check_sec_level env p = 0" "0 \<le> oe_idr env"
      "t = (if hm_isshare ty then snd (hmdfs_check_share_access_permission p (oe_cid env) (share_tbl s)) else share_tbl s)"
      "hm_isshare ty \<Longrightarrow> fst (hmdfs_check_share_access_permission p (oe_cid env) (share_tbl s)) = 0"
proof (cases "check_sec_level env p = 0")
  case False
  then show ?thesis using failed [of "- EACCES" "share_tbl s"] by (simp add: hmdfs_open_file_def)
next
  case sec: True
  define c where "c = (if hm_isshare ty then hmdfs_check_share_access_permission p (oe_cid env) (share_tbl s) else (0, share_tbl s))"
  define r where "r = (if hm_islnk ty then hmdfs_open_link env p else hmdfs_open_path env p)"
  have o: "hmdfs_open_file env p ty s = (let s1 = s\<lparr>share_tbl := snd c\<rparr> in
      if fst c \<noteq> 0 then Some (Inl (fst c), s1)
      else case r of Inl e \<Rightarrow> Some (Inl e, reset_share p s1)
      | Inr f \<Rightarrow> (case insert_file_into_conn (oe_idr env) f (server_get_file f (new_file f s1)) of (fid, s2) \<Rightarrow>
          if fid < 0 then do { s3 \<leftarrow> hmdfs_close_path f (reset_share p s2); s4 \<leftarrow> hmdfs_close_path f s3; Some (Inl fid, s4) }
          else Some (Inr (f, nat fid), s2)))"
    unfolding hmdfs_open_file_def c_def [symmetric] r_def [symmetric] using sec by (cases c) (simp add: Let_def)
  show ?thesis
  proof (cases "fst c = 0")
    case False
    then show ?thesis using failed [of "fst c" "snd c"] o by simp
  next
    case c0: True
    show ?thesis
    proof (cases r)
      case (Inl e)
      then show ?thesis using failed [of e "reset_item_opened_status p (snd c)"] o c0 by (simp add: reset_share_def)
    next
      case (Inr f)
      then have path: "oe_open env (if hm_islnk ty then oe_local_dst env @ p else p) = Inr f"
        by (auto simp: r_def hmdfs_open_link_def hmdfs_open_path_def split: if_splits)
      then have f: "f_count s f = 0" using assms(2) by (simp add: fresh_open_def)
      have z: "(f_count s)(f := 0) = f_count s" using f by auto
      show ?thesis
      proof (cases "oe_idr env < 0")
        case True
        then show ?thesis using failed [of "oe_idr env" "reset_item_opened_status p (snd c)"] o c0 Inr z
          by (simp add: insert_file_into_conn_def server_get_file_def new_file_def reset_share_def hmdfs_close_path_def)
      next
        case False
        then have "hmdfs_open_file env p ty s = Some (Inr (f, nat (oe_idr env)), with_file f (nat (oe_idr env)) (snd c) s)"
          using o c0 Inr by (simp add: insert_file_into_conn_def server_get_file_def new_file_def with_file_def)
        then show ?thesis
        proof (rule opened)
          show "snd c = (if hm_isshare ty then snd (hmdfs_check_share_access_permission p (oe_cid env) (share_tbl s)) else share_tbl s)"
            by (simp add: c_def)
          show "hm_isshare ty \<Longrightarrow> fst (hmdfs_check_share_access_permission p (oe_cid env) (share_tbl s)) = 0"
            using c0 by (simp add: c_def)
          show "oe_open env (if hm_islnk ty then oe_local_dst env @ p else p) = Inr f" by (rule path)
        qed (use f False assms(2) sec in \<open>simp_all add: fresh_open_def\<close>)
      qed
    qed
  qed
qed

lemma dentry_open_cases:
  assumes "holds lost s" "fresh_open env s"
  obtains (failed) e where "hmdfs_dentry_open env p s = Some (Inl e, s)"
  | (opened) f where "hmdfs_dentry_open env p s = Some (Inr (f, nat (oe_idr env)), with_file f (nat (oe_idr env)) (share_tbl s) s)"
      "f_count s f = 0" "nat (oe_idr env) \<notin> fst ` set (file_id_idr s)"
proof (cases "oe_open env p")
  case (Inl e)
  then show ?thesis using failed by (simp add: hmdfs_dentry_open_def)
next
  case (Inr f)
  then have f: "f_count s f = 0" using assms(2) by (simp add: fresh_open_def)
  have z: "(f_count s)(f := 0) = f_count s" using f by auto
  show ?thesis
  proof (cases "oe_idr env < 0")
    case True
    then show ?thesis using failed [of "oe_idr env"] Inr z
      by (simp add: hmdfs_dentry_open_def insert_file_into_conn_def server_get_file_def new_file_def hmdfs_close_path_def)
  next
    case False
    then show ?thesis using opened [of f] Inr f assms(2)
      by (simp add: hmdfs_dentry_open_def insert_file_into_conn_def server_get_file_def new_file_def with_file_def fresh_open_def)
  qed
qed

lemma update_open_response_count [simp]:
  "hmdfs_update_open_response env (s\<lparr>f_count := g\<rparr>) info i = hmdfs_update_open_response env s info i"
  by (simp add: hmdfs_update_open_response_def hmdfs_server_pack_fid_ver_def)

text \<open>At most one answer, one if it can be sent.\<close>

definition one_answer :: "open_env \<Rightarrow> hmdfs_head_cmd \<Rightarrow> (hmdfs_head_cmd \<times> byte list) list \<Rightarrow> bool" where
  "one_answer env cmd out = (length out \<le> 1 \<and> (oe_send env = 0 \<longrightarrow> length out = 1)
     \<and> (\<forall>r \<in> set out. \<exists>body ret. r = hmdfs_sendmessage_response cmd body ret))"

lemma err_body [simp]: "snd (hmdfs_send_err_response cmd e) = []"
  by (simp add: hmdfs_send_err_response_def hmdfs_sendmessage_response_def)

lemma one_answerI [simp]: "one_answer env cmd [hmdfs_sendmessage_response cmd body ret]"
  "one_answer env cmd [hmdfs_send_err_response cmd e]" "oe_send env \<noteq> 0 \<Longrightarrow> one_answer env cmd []"
  by (auto simp: one_answer_def hmdfs_send_err_response_def)

text \<open>
  The answer to an open request whose strings are there: the state keeps its
  references, and a positive answer carries the number of a new entry.
\<close>

lemma open_table:
  assumes "holds lost s" "fresh_open env s"
    and "fld open_request ''path_len'' data = Some (length p)" "fld open_request ''file_type'' data = Some ty"
    and "bytes_at data (sizeof open_request) (length p) = Some p" "cstr_at data (sizeof open_request) = Some p"
  shows "\<exists>out s'. hmdfs_server_open env cmd data s = Some (out, s') \<and> holds lost s' \<and> one_answer env cmd out
    \<and> fid_cookie s' = fid_cookie s \<and> boot_cookie s' = boot_cookie s
    \<and> ((file_id_idr s' = file_id_idr s \<and> (\<forall>r \<in> set out. snd r = [])) \<or>
       (\<exists>f info. oe_idr env \<ge> 0 \<and> file_id_idr s' = (nat (oe_idr env), f) # file_id_idr s \<and> \<not> path_contain_dotdot p
          \<and> oe_open env (if hm_islnk ty then oe_local_dst env @ p else p) = Inr f
          \<and> check_sec_level env p = 0 \<and> hmdfs_get_open_info env ty p = Inr info
          \<and> (hm_isshare ty \<longrightarrow> fst (hmdfs_check_share_access_permission p (oe_cid env) (share_tbl s)) = 0)
          \<and> out = [hmdfs_sendmessage_response cmd (hmdfs_update_open_response env s' info (nat (oe_idr env))) 0]))"
proof (cases "oe_alloc env \<and> \<not> path_contain_dotdot p")
  case False
  then show ?thesis using assms by (auto simp: hmdfs_server_open_def)
next
  case True
  from assms(1,2) show ?thesis
  proof (cases rule: open_file_cases [where p = p and ty = ty])
    case (failed e t)
    with True assms show ?thesis by (auto simp: hmdfs_server_open_def)
  next
    case (opened f t)
    let ?s1 = "with_file f (nat (oe_idr env)) t s"
    note c = close_with_file [OF assms(1) opened(3,4), of t] and x = failed_with_file [OF assms(1) opened(3,4), of t]
    show ?thesis
    proof (cases "hmdfs_get_open_info env ty p")
      case (Inl e)
      with True assms opened(1) x(1) show ?thesis by (auto simp: hmdfs_server_open_def)
    next
      case (Inr info)
      show ?thesis
      proof (cases "oe_send env = 0")
        case False
        with True Inr assms opened(1) x(2) show ?thesis
          by (auto simp: hmdfs_server_open_def bind_eq_Some_conv)
      next
        case send: True
        let ?s2 = "?s1\<lparr>f_count := (f_count s)(f := 1)\<rparr>"
        have "hmdfs_server_open env cmd data s = Some ([hmdfs_sendmessage_response cmd
            (hmdfs_update_open_response env ?s2 info (nat (oe_idr env))) 0], ?s2)"
          using True Inr send assms(3-) opened(1) c(1) by (simp add: hmdfs_server_open_def)
        moreover have "file_id_idr ?s2 = (nat (oe_idr env), f) # file_id_idr s" "fid_cookie ?s2 = fid_cookie s" "boot_cookie ?s2 = boot_cookie s"
          by (simp_all add: with_file_def)
        ultimately show ?thesis using c(2) opened(2,5-) True Inr one_answerI(1) by blast
      qed
    qed
  qed
qed

end
