(* ===== verification/Client_Proto.thy ===== *)
theory Client_Proto
  imports Client_Req
begin

text \<open>
  The client against the verification of messages: the requests it builds are
  accepted by the peer, and it reads the answers that were verified inside their
  buffers.
\<close>

section \<open>Requests\<close>

lemma file_cmd_number [simp]: "file_cmd (cmd_number c) = Some c"
  by (cases c) (simp_all add: cmd_number_def file_cmd_def file_cmds_def)

lemma init_cmd_simps [simp]:
  "cmd_flag (hmdfs_init_cmd c) = 0" "command (hmdfs_init_cmd c) = cmd_number c"
  by (simp_all add: hmdfs_init_cmd_def)

text \<open>A head that announces a command and its body, whatever else it says.\<close>

definition head_of :: "hmdfs_head_cmd \<Rightarrow> hmdfs_send_command \<Rightarrow> bool" where
  "head_of h sm \<longleftrightarrow> operations h = sc_operations sm \<and> data_len h = of_nat (length (sc_data sm) + HEAD_SIZE)"

lemma request_head_of: "head_of (request_head sm mid) sm"
  by (simp add: head_of_def request_head_def)

lemma body_len_head_of:
  assumes "head_of h sm" and "length (sc_data sm) + HEAD_SIZE < 2 ^ 32"
  shows "body_len h = length (sc_data sm)"
proof -
  have "unat (of_nat (length (sc_data sm) + HEAD_SIZE) :: u32) = length (sc_data sm) + HEAD_SIZE"
    using assms(2) by (simp only: unat_of_nat) simp
  then have "unat (data_len h) = length (sc_data sm) + HEAD_SIZE" using assms(1) by (simp only: head_of_def)
  then show ?thesis by (simp add: body_len_cases)
qed

lemma accept_string_request:
  assumes h: "cmd_flag (operations h) = 0" "file_cmd (command (operations h)) = Some c"
    and sb: "string_body c = Some (L, fs, payload, limits)"
    and buf: "length buf = body_len h" "len_ok C_REQUEST c (length buf)" "wf_strs L fs payload limits buf"
  shows "hmdfs_message_verify h (Some buf) = Some \<lparr>v_err = 0, v_head = h, v_sent = []\<rparr>"
  unfolding string_request_verdict [OF h(1) buf(1) h(2) sb buf(2)]
    buf(3) [unfolded check_strs_iff [OF len_ok_string_body(1) [OF sb buf(2)], symmetric]]
  by simp

lemma wf_strs_struct:
  assumes "\<forall>s\<in>set strs. 0 \<notin> set s \<and> length s < PATH_MAX"
    and "map (\<lambda>f. fld L f (struct_bytes L vals @ nul_strings strs @ extra)) fs = map (\<lambda>s. Some (length s)) strs"
    and "payload (struct_bytes L vals @ nul_strings strs @ extra) = Some (length extra)"
    and "limits (struct_bytes L vals @ nul_strings strs @ extra) = Some True"
  shows "wf_strs L fs payload limits (struct_bytes L vals @ nul_strings strs @ extra)"
  unfolding wf_strs_def using assms
  by (intro exI [of _ "struct_bytes L vals"] exI [of _ strs] exI [of _ extra]) auto

lemma len_ok_fits: "len_ok f c n \<Longrightarrow> n + HEAD_SIZE < 2 ^ 32"
proof -
  have "fst (message_length f c) + HEAD_SIZE < 2 ^ 32 \<and> max_len f c + HEAD_SIZE < 2 ^ 32"
    by (cases f; cases c) (simp_all add: message_length_defs layout_simps max_len_def)
  then show "len_ok f c n \<Longrightarrow> n + HEAD_SIZE < 2 ^ 32" by (auto simp: len_ok_def Let_def split: len_judge.splits)
qed

text \<open>The length fields of a structure announce the strings that follow it.\<close>

definition announces :: "(string \<times> nat) list \<Rightarrow> string list \<Rightarrow> byte list list \<Rightarrow> bool" where
  "announces vals fs strs \<longleftrightarrow> list_all2 (\<lambda>f s. map_of vals f = Some (length s)) fs strs"

lemma string_body_field4:
  "string_body c = Some (L, fs, payload, limits) \<Longrightarrow> f \<in> set fs \<Longrightarrow> \<exists>off. field_at L f = Some (off, 4)"
  by (cases c) (auto simp: layout_simps)

lemma announces_fields:
  assumes "announces vals fs strs" and "\<forall>s\<in>set strs. length s < PATH_MAX"
    and "\<forall>f\<in>set fs. \<exists>off. field_at L f = Some (off, 4)"
  shows "map (\<lambda>f. fld L f (struct_bytes L vals @ rest)) fs = map (\<lambda>s. Some (length s)) strs"
  using assms unfolding announces_def
proof (induction rule: list_all2_induct)
  case (Cons f fs s strs)
  then obtain off where "field_at L f = Some (off, 4)" by auto
  then have "fld L f (struct_bytes L vals @ rest) = Some (length s)"
    using Cons by (intro fld_struct_set) auto
  with Cons show ?case by simp
qed simp

lemma xattr_fields:
  "map_of vals ''size'' = Some v \<Longrightarrow> v < 2 ^ 32 \<Longrightarrow> fld setxattr_request ''size'' (struct_bytes setxattr_request vals @ r) = Some v"
  "map_of vals ''name_len'' = Some v \<Longrightarrow> v < 2 ^ 32 \<Longrightarrow> fld setxattr_request ''name_len'' (struct_bytes setxattr_request vals @ r) = Some v"
  "map_of vals ''size'' = Some v \<Longrightarrow> v < 2 ^ 32 \<Longrightarrow> fld getxattr_request ''size'' (struct_bytes getxattr_request vals @ r) = Some v"
  "map_of vals ''name_len'' = Some v \<Longrightarrow> v < 2 ^ 32 \<Longrightarrow> fld getxattr_request ''name_len'' (struct_bytes getxattr_request vals @ r) = Some v"
  "map_of vals ''size'' = Some v \<Longrightarrow> v < 2 ^ 32 \<Longrightarrow> fld listxattr_request ''size'' (struct_bytes listxattr_request vals @ r) = Some v"
  by (simp_all add: fld_def layout_simps rd_le_def le_val_le_bytes_mod)

lemma accept_strings_extra:
  assumes h: "head_of h (send_command c (struct_bytes L vals @ nul_strings strs @ extra))"
    and sb: "string_body c = Some (L, fs, payload, limits)"
    and strs: "\<forall>s\<in>set strs. 0 \<notin> set s \<and> length s < PATH_MAX" "announces vals fs strs"
    and "payload (struct_bytes L vals @ nul_strings strs @ extra) = Some (length extra)"
    and "limits (struct_bytes L vals @ nul_strings strs @ extra) = Some True"
    and len: "len_ok C_REQUEST c (sizeof L + (sum_list (map (Suc \<circ> length) strs) + length extra))"
  shows "hmdfs_message_verify h (Some (struct_bytes L vals @ nul_strings strs @ extra)) =
    Some \<lparr>v_err = 0, v_head = h, v_sent = []\<rparr>"
proof (rule accept_string_request [OF _ _ sb])
  let ?m = "struct_bytes L vals @ nul_strings strs @ extra"
  have l: "length ?m = sizeof L + (sum_list (map (Suc \<circ> length) strs) + length extra)"
    by (simp add: length_nul_strings)
  show "cmd_flag (operations h) = 0" "file_cmd (command (operations h)) = Some c"
    using h by (simp_all add: head_of_def send_command_def)
  show "len_ok C_REQUEST c (length ?m)" using len l by simp
  then show "length ?m = body_len h"
    using body_len_head_of [OF h] len_ok_fits [of C_REQUEST c "length ?m"] by (simp add: send_command_def)
  show "wf_strs L fs payload limits ?m"
    using strs announces_fields [OF strs(2), where L = L] string_body_field4 [OF sb] assms(5,6) by (intro wf_strs_struct) auto
qed

lemmas accept_strings = accept_strings_extra [where extra = "[]", simplified append_Nil2]

lemma accept_plain_request:
  assumes h: "head_of h (send_command c body)" and c: "\<not> is_reserved_command c"
    and len: "len_ok C_REQUEST c (length body)"
    and v: "(case message_verify c of None \<Rightarrow> Some 0 | Some v \<Rightarrow> v C_REQUEST (length body) (Some body)) = Some 0"
  shows "hmdfs_message_verify h (Some body) = Some \<lparr>v_err = 0, v_head = h, v_sent = []\<rparr>"
proof -
  have "body_len h = length body" using body_len_head_of [OF h] len_ok_fits [OF len] by (simp add: send_command_def)
  then show ?thesis
    using hmdfs_message_verify_request [OF _ _ c, of h "Some body", unfolded v [folded \<open>body_len h = length body\<close>]] h len
    by (simp add: head_of_def send_command_def)
qed

lemma len_ok_requests:
  "len_ok C_REQUEST F_OPEN n \<longleftrightarrow> sizeof open_request \<le> n \<and> n \<le> sizeof open_request + PATH_MAX + 1"
  "len_ok C_REQUEST F_ITERATE n \<longleftrightarrow> sizeof readdir_request \<le> n \<and> n \<le> sizeof readdir_request + PATH_MAX + 1"
  "len_ok C_REQUEST F_MKDIR n \<longleftrightarrow> sizeof mkdir_request \<le> n \<and> n \<le> sizeof mkdir_request + PATH_MAX + NAME_MAX + 2"
  "len_ok C_REQUEST F_CREATE n \<longleftrightarrow> sizeof create_request \<le> n \<and> n \<le> sizeof create_request + PATH_MAX + NAME_MAX + 2"
  "len_ok C_REQUEST F_RMDIR n \<longleftrightarrow> sizeof rmdir_request \<le> n \<and> n \<le> sizeof rmdir_request + PATH_MAX + NAME_MAX + 2"
  "len_ok C_REQUEST F_UNLINK n \<longleftrightarrow> sizeof unlink_request \<le> n \<and> n \<le> sizeof unlink_request + PATH_MAX + NAME_MAX + 2"
  "len_ok C_REQUEST F_RENAME n \<longleftrightarrow> sizeof rename_request \<le> n \<and> n \<le> sizeof rename_request + 4 + 4 * PATH_MAX"
  "len_ok C_REQUEST F_SETATTR n \<longleftrightarrow> sizeof setattr_request \<le> n \<and> n \<le> sizeof setattr_request + PATH_MAX + 1"
  "len_ok C_REQUEST F_GETATTR n \<longleftrightarrow> sizeof getattr_request \<le> n \<and> n \<le> sizeof getattr_request + PATH_MAX + 1"
  "len_ok C_REQUEST F_STATFS n \<longleftrightarrow> sizeof statfs_request \<le> n \<and> n \<le> sizeof statfs_request + PATH_MAX + 1"
  "len_ok C_REQUEST F_GETXATTR n \<longleftrightarrow> sizeof getxattr_request \<le> n \<and> n \<le> sizeof getxattr_request + PATH_MAX + XATTR_NAME_MAX + 2"
  "len_ok C_REQUEST F_SETXATTR n \<longleftrightarrow> sizeof setxattr_request \<le> n \<and>
     n \<le> sizeof setxattr_request + PATH_MAX + XATTR_NAME_MAX + HMDFS_XATTR_SIZE_MAX + 2"
  "len_ok C_REQUEST F_LISTXATTR n \<longleftrightarrow> sizeof listxattr_request \<le> n \<and> n \<le> sizeof listxattr_request + PATH_MAX + 1"
  "len_ok C_REQUEST F_DROP_PUSH n \<longleftrightarrow> sizeof drop_push_request \<le> n \<and> n \<le> sizeof drop_push_request + PATH_MAX + 1"
  "len_ok C_REQUEST F_RELEASE n \<longleftrightarrow> n = sizeof release_request"
  "len_ok C_REQUEST F_FSYNC n \<longleftrightarrow> n = sizeof fsync_request"
  "len_ok C_REQUEST F_READPAGE n \<longleftrightarrow> n = sizeof readpage_request"
  "len_ok C_REQUEST F_WRITEPAGE n \<longleftrightarrow> n = sizeof writepage_request + HMDFS_PAGE_SIZE"
  "len_ok C_REQUEST F_SYNCFS n \<longleftrightarrow> n = sizeof syncfs_request"
  by (simp_all add: len_ok_def message_length_defs max_len_def not_less)

lemma accept_fixed:
  "head_of h (send_command F_RELEASE (struct_bytes release_request vals)) \<Longrightarrow>
    hmdfs_message_verify h (Some (struct_bytes release_request vals)) = Some \<lparr>v_err = 0, v_head = h, v_sent = []\<rparr>"
  "head_of h (send_command F_FSYNC (struct_bytes fsync_request vals)) \<Longrightarrow>
    hmdfs_message_verify h (Some (struct_bytes fsync_request vals)) = Some \<lparr>v_err = 0, v_head = h, v_sent = []\<rparr>"
  "head_of h (send_command F_READPAGE (struct_bytes readpage_request vals)) \<Longrightarrow>
    hmdfs_message_verify h (Some (struct_bytes readpage_request vals)) = Some \<lparr>v_err = 0, v_head = h, v_sent = []\<rparr>"
  "head_of h (send_command F_SYNCFS (struct_bytes syncfs_request vals)) \<Longrightarrow>
    hmdfs_message_verify h (Some (struct_bytes syncfs_request vals)) = Some \<lparr>v_err = 0, v_head = h, v_sent = []\<rparr>"
  by (erule accept_plain_request;
      simp add: len_ok_requests is_reserved_command_def hmdfs_readpage_verify_def both_ways_def)+

lemmas accept_rules = string_body.simps(1,3-15) [THEN [2] accept_strings]

lemmas string_call_simps = path_ok_def comp_ok_def announces_def len_ok_requests xattr_fields xattr_limits_def

lemmas command_defs = open_command_def close_command_def fsync_command_def readpage_command_def writepage_command_def
  readdir_command_def mkdir_command_def create_command_def rmdir_command_def unlink_command_def rename_command_def
  setattr_command_def getattr_command_def statfs_command_def syncfs_command_def getxattr_command_def
  setxattr_command_def listxattr_command_def drop_push_command_def

lemma sc_data_send [simp]: "sc_data (send_command c body) = body"
  by (simp add: send_command_def)

lemma strncpy_all [simp]: "strncpy s (length s) = s"
  by (simp add: strncpy_def)

lemma head_of_filp [simp]: "head_of h (sm\<lparr>sc_filp := f\<rparr>) \<longleftrightarrow> head_of h sm"
  by (simp add: head_of_def)

lemma call_accepted:
  assumes "call_ok c" and "head_of h (call_command c)"
  shows "hmdfs_message_verify h (Some (sc_data (call_command c))) = Some \<lparr>v_err = 0, v_head = h, v_sent = []\<rparr>"
  using assms
proof (cases c)
  case (Writepage fid i n page)
  let ?vals = "[(''file_ver'', unat (fid_ver fid)), (''file_id'', unat (fid_id fid)), (''index'', unat i), (''count'', unat n)]"
  have n: "0 < n" "n \<le> 4096" and page: "length page = HMDFS_PAGE_SIZE" using assms(1) Writepage by simp_all
  have "fld writepage_request ''count'' (struct_bytes writepage_request ?vals @ page) = Some (unat n)"
    using unsigned_less [of n, where 'a = nat] by (intro fld_struct_set [where off = 20 and n = 4]) (simp_all add: layout_simps)
  moreover have "0 < unat n" "unat n \<le> 4096" using n by (simp_all add: word_less_nat_alt word_le_nat_alt unat_gt_0)
  ultimately show ?thesis
    using assms(2) page unfolding Writepage call_command.simps writepage_command_def sc_data_send
    by (intro accept_plain_request [where c = F_WRITEPAGE])
      (simp_all add: len_ok_requests is_reserved_command_def hmdfs_writepage_verify_def both_ways_def)
next
  case (Setxattr path name v n fl)
  let ?extra = "case v of None \<Rightarrow> replicate n 0 | Some x \<Rightarrow> take n x"
  have ok: "path_ok path" "comp_ok name" "n \<le> 4096" "length ?extra = n"
    using assms(1) Setxattr by (auto split: option.splits)
  then show ?thesis
    using assms(2) unfolding Setxattr call_command.simps setxattr_command_def sc_data_send
    by (intro accept_strings_extra [OF _ string_body.simps(14)])
      (simp_all add: string_call_simps)
next
  case (Readdir filp path hd)
  then show ?thesis
    using assms accept_strings [OF _ string_body.simps(3), of h _ "[path]"]
    by (simp add: readdir_command_def nul_strings_Cons string_call_simps)
qed (simp_all only: call_command.simps call_ok.simps command_defs sc_data_send,
     (rule accept_rules accept_fixed; simp add: string_call_simps)+)

lemma call_served: "\<exists>fc. file_cmd (command (sc_operations (call_command c))) = Some fc \<and> s_recv_callbacks fc"
  by (cases c) (simp_all add: command_defs send_command_def s_recv_callbacks_def)

lemma cmd_flag_call: "cmd_flag (sc_operations (call_command c)) = 0"
  by (cases c) (simp_all add: command_defs send_command_def)

text \<open>
  C24 (safety). No request of a correct client is refused: every request the client
  builds, with strings inside the limits of the VFS and under any of the heads the
  three ways of sending give it, passes the verification of the peer, is sent no
  error, and its body goes to the handler of its command, at once or as a queued
  work.
\<close>

theorem client_requests_dispatched:
  assumes "call_ok c" and h: "head_of h (call_command c)"
    and "heap p b = Some (sc_data (call_command c))" and "me_alloc env" "me_cred env"
  shows "\<exists>p'. hmdfs_recv_mesg_callback env p h (Some b) = Some p' \<and> replies p' = replies p \<and>
    (works p' = works p @ [\<lparr>w_fn = Request_Work, w_head = h, w_buf = Some b\<rparr>] \<and> served p' = served p \<or>
     served p' = served p @ [Served h (Some (sc_data (call_command c)))] \<and> works p' = works p)"
proof -
  obtain fc where fc: "file_cmd (command (operations h)) = Some fc" "s_recv_callbacks fc" "cmd_flag (operations h) = 0"
    using call_served [of c] cmd_flag_call [of c] h by (auto simp: head_of_def)
  have "hmdfs_message_verify h (buf_data p (Some b)) = Some \<lparr>v_err = 0, v_head = h, v_sent = []\<rparr>"
    using call_accepted [OF assms(1,2)] assms(3) by (simp add: buf_data_def)
  then show ?thesis using fc assms(3-5)
    by (simp add: hmdfs_recv_mesg_callback_def Let_def cmd_flag_of_def hmdfs_request_recv_def hmdfs_request_handle_sync_def
        hmdfs_msg_handle_async_def kfree_def buf_data_def)
qed

theorem client_requests_dispatched_witness:
  "\<exists>p'. hmdfs_recv_mesg_callback \<lparr>me_alloc = True, me_cred = True, me_write = None\<rparr>
      \<lparr>msg_idr = (\<lambda>_. None), offline_start = False, msg_idr_process = 0,
       heap = [5 \<mapsto> sc_data (mkdir_command [47] [97] 493)], works = [], served = [], replies = []\<rparr>
      (request_head (mkdir_command [47] [97] 493) 7) (Some 5) = Some p' \<and> replies p' = []"
  using client_requests_dispatched [of "Mkdir [47] [97] 493", OF _ request_head_of,
      of "\<lparr>msg_idr = (\<lambda>_. None), offline_start = False, msg_idr_process = 0,
       heap = [5 \<mapsto> sc_data (mkdir_command [47] [97] 493)], works = [], served = [], replies = []\<rparr>" 5
      "\<lparr>me_alloc = True, me_cred = True, me_write = None\<rparr>" 7]
  by (auto simp: path_ok_def comp_ok_def)

section \<open>Answers\<close>

text \<open>
  What the exchange of a command can return: an error without a body, or what a
  response of the command leaves after its verification.
\<close>

definition delivered :: "FILE_CMD \<Rightarrow> reply \<Rightarrow> bool" where
  "delivered c r \<longleftrightarrow>
     (\<exists>ret. ret \<noteq> 0 \<and> r = (ret, None, 0)) \<or>
     (\<exists>h data v. cmd_flag (operations h) = 1 \<and> file_cmd (command (operations h)) = Some c \<and>
        (case data of None \<Rightarrow> body_len h = 0 | Some b \<Rightarrow> 0 < body_len h \<and> length b = body_len h) \<and>
        hmdfs_message_verify h data = Some v \<and>
        r = (sint (ret_code (v_head v)), data, ucast (data_len h) - of_nat HEAD_SIZE))"

lemma delivered_len:
  assumes "delivered c (ret, Some b, len)"
  shows "unat len = length b" "b \<noteq> []"
  using assms by (auto simp: delivered_def body_len_def)

lemma sint_EOPNOTSUPP [simp]: "sint (of_int (- EOPNOTSUPP) :: u32) = - EOPNOTSUPP"
  by simp

lemma delivered_body:
  assumes "delivered c (ret, Some b, len)" and "\<not> is_reserved_command c"
  shows "ret = - EOPNOTSUPP \<or> len_ok C_RESPONSE c (length b) \<and>
    (case message_verify c of None \<Rightarrow> True | Some v \<Rightarrow> v C_RESPONSE (length b) (Some b) = Some 0)"
proof -
  from assms(1) obtain h v where h: "cmd_flag (operations h) = 1" "file_cmd (command (operations h)) = Some c"
    "length b = body_len h" "hmdfs_message_verify h (Some b) = Some v" "ret = sint (ret_code (v_head v))"
    by (auto simp: delivered_def)
  then show ?thesis using assms(2)
    by (auto simp: hmdfs_message_verify_def cmd_flag_of_def handle_bad_message_def Option.bind_eq_Some_conv
        split: if_splits option.splits)
qed

lemma open_ret_total: "length resp = sizeof open_response \<Longrightarrow> \<exists>out. open_ret_of resp = Some out"
  by (auto simp: open_ret_of_def fld_def rd_le_def layout_simps)

lemma lookup_ret_total: "length resp = sizeof hmdfs_inodeinfo_response \<Longrightarrow> \<exists>out. lookup_ret_of_resp resp = Some out"
  by (auto simp: lookup_ret_of_resp_def fld_def rd_le_def layout_simps)

lemma getattr_ret_total: "length resp = sizeof getattr_response \<Longrightarrow> \<exists>out. hmdfs_update_getattr_ret resp stat = Some out"
  by (simp add: hmdfs_update_getattr_ret_def time_of_def fld_def rd_le_def layout_simps)

lemma statfs_ret_total: "length resp = sizeof statfs_response \<Longrightarrow> \<exists>out. hmdfs_update_statfs_ret resp = Some out"
  by (simp add: hmdfs_update_statfs_ret_def statfs_fields_def fld_def rd_le_def layout_simps)

lemma delivered_size:
  assumes "delivered c (ret, Some b, len)" and "ret \<noteq> - EOPNOTSUPP"
  shows "c = F_OPEN \<Longrightarrow> length b = sizeof open_response"
    and "c = F_MKDIR \<or> c = F_CREATE \<Longrightarrow> length b = sizeof hmdfs_inodeinfo_response"
    and "c = F_GETATTR \<Longrightarrow> length b = sizeof getattr_response"
    and "c = F_STATFS \<Longrightarrow> length b = sizeof statfs_response"
  using delivered_body [OF assms(1)] delivered_len [OF assms(1)] assms(2)
  by (auto simp: is_reserved_command_def command_verify_defs both_ways_def verify_open_resp_def verify_mkdir_resp_def
      verify_create_resp_def verify_getattr_resp_def verify_statfs_resp_def split: if_splits)

lemma cr_leaked_simps [simp]:
  "cr_leaked (free_sm_outbuf r out buf len) \<longleftrightarrow> buf \<noteq> None \<and> len = 0"
  "\<not> cr_leaked (no_buffer r)"
  by (auto simp: free_sm_outbuf_def no_buffer_def)

lemma delivered_freed: "delivered c (ret, buf, len) \<Longrightarrow> \<not> (buf \<noteq> None \<and> len = 0)"
  using delivered_len [of c ret _ len] by auto

lemma body_answer:
  assumes d: "delivered c (ret, buf, len)" and total: "\<And>b. buf = Some b \<Longrightarrow> ret = 0 \<Longrightarrow> \<exists>out. read b = Some out"
  shows "\<exists>r. (let ret1 = empty_is_enoent (if ret = - ETIME \<and> late then - EIO else ret) buf len in
      if ret1 \<noteq> 0 then Some (free_sm_outbuf ret1 None buf len)
      else do { resp \<leftarrow> buf; out \<leftarrow> read resp; Some (free_sm_outbuf 0 (Some out) buf len) }) = Some r \<and> \<not> cr_leaked r"
proof -
  let ?ret1 = "empty_is_enoent (if ret = - ETIME \<and> late then - EIO else ret) buf len"
  show ?thesis
  proof (cases "?ret1 = 0")
    case True
    then obtain b where "buf = Some b" "ret = 0" by (auto simp: empty_is_enoent_def split: if_splits)
    then show ?thesis using total [of b] True delivered_freed [OF d] by auto
  qed (use delivered_freed [OF d] in simp)
qed

lemma inode_answer_total:
  assumes "delivered c r" and "c = F_MKDIR \<or> c = F_CREATE"
  shows "\<exists>x. inode_answer r = Some x \<and> \<not> cr_leaked x"
proof -
  obtain ret buf len where r: "r = (ret, buf, len)" by (cases r)
  note d = assms(1) [unfolded r]
  show ?thesis
  proof (cases buf)
    case (Some b)
    show ?thesis
    proof (cases "ret = - EOPNOTSUPP")
      case True
      then show ?thesis using delivered_freed [OF d] by (simp add: r inode_answer_def)
    next
      case False
      then show ?thesis
        using lookup_ret_total [of b] delivered_size(2) [OF d [unfolded Some] False assms(2)] delivered_freed [OF d] Some
        by (auto simp: r inode_answer_def)
    qed
  qed (simp add: r inode_answer_def free_sm_outbuf_def)
qed

text \<open>
  The answers to \<open>getxattr\<close> and \<open>listxattr\<close> that the client reads beyond their end: the announced
  size fits into the buffer of the caller, but is not there.
\<close>

definition short_xattr :: "layout \<Rightarrow> nat \<Rightarrow> reply \<Rightarrow> bool" where
  "short_xattr L o_size r = (case r of (ret, buf, len) \<Rightarrow> ret = 0 \<and> o_size \<noteq> 0 \<and>
     (case buf of None \<Rightarrow> False
      | Some b \<Rightarrow> (case fld L ''size'' b of None \<Rightarrow> False | Some sz \<Rightarrow> sz \<le> o_size \<and> length b < sizeof L + sz)))"

definition read_safely :: "'a client_result option \<Rightarrow> bool" where
  "read_safely r \<longleftrightarrow> (\<exists>x. r = Some x \<and> \<not> cr_leaked x)"

lemma xattr_size:
  assumes "delivered c (0, Some b, len)" "c = F_GETXATTR \<and> L = getxattr_response \<or> c = F_LISTXATTR \<and> L = listxattr_response"
  shows "\<exists>sz. fld L ''size'' b = Some sz"
  using delivered_body [OF assms(1)] delivered_len(2) [OF assms(1)] assms(2)
  by (auto simp: is_reserved_command_def command_verify_defs both_ways_def verify_getxattr_resp_def verify_listxattr_resp_def
      Option.bind_eq_Some_conv split: if_splits)

lemma xattr_answer:
  assumes d: "delivered c (ret, buf, len)"
    and c: "c = F_GETXATTR \<and> L = getxattr_response \<or> c = F_LISTXATTR \<and> L = listxattr_response"
    and upd: "\<And>b. upd b = do { sz \<leftarrow> fld L ''size'' b;
       if o_size \<noteq> 0 \<and> o_size < sz then Some (- ERANGE, None)
       else if o_size \<noteq> 0
       then if sizeof L + sz \<le> length b then Some (int sz, Some (take sz (drop (sizeof L) b))) else None
       else Some (int sz, None) }"
  defines "r \<equiv> let ret1 = empty_is_enoent ret buf len in
      if ret1 \<noteq> 0 then Some (free_sm_outbuf ret1 None buf len)
      else do { resp \<leftarrow> buf; (x, out) \<leftarrow> upd resp; Some (free_sm_outbuf x out buf len) }"
  shows "if short_xattr L o_size (ret, buf, len) then r = None else read_safely r"
proof (cases "empty_is_enoent ret buf len = 0")
  case True
  then obtain b where b: "buf = Some b" "ret = 0" by (auto simp: empty_is_enoent_def split: if_splits)
  obtain sz where sz: "fld L ''size'' b = Some sz" using xattr_size [of c b len L] c d b by auto
  show ?thesis using True b sz delivered_freed [OF d]
    by (simp add: r_def upd short_xattr_def read_safely_def split: if_splits)
next
  case False
  then have "\<not> short_xattr L o_size (ret, buf, len)" if "buf \<noteq> None \<longrightarrow> len \<noteq> 0"
    using that by (auto simp: short_xattr_def empty_is_enoent_def split: if_splits option.splits)
  then show ?thesis using False delivered_freed [OF d] by (auto simp: r_def read_safely_def)
qed

lemma freed_answer: "delivered c (ret, buf, len) \<Longrightarrow> \<not> cr_leaked (free_sm_outbuf ret out buf len)"
  using delivered_freed [of c ret buf len] by simp

lemma kept_answer:
  assumes "delivered c (ret, buf, len)" "c = F_SETATTR \<or> c = F_SETXATTR" "cr_leaked (keep_outbuf ret buf)"
  shows "ret = - EOPNOTSUPP"
proof -
  from assms(3) obtain b where b: "buf = Some b" by (auto simp: keep_outbuf_def)
  with assms(1) have "ret = - EOPNOTSUPP \<or> len_ok C_RESPONSE c (length b)" "b \<noteq> []"
    using delivered_body [of c ret b len] delivered_len [of c ret b len] assms(2) by (auto simp: is_reserved_command_def)
  with assms(2) show ?thesis by (auto simp: len_ok_def message_length_defs max_len_def)
qed

lemma freed_calls:
  assumes "\<forall>c body. delivered c (ask (send_command c body))"
  shows "\<not> cr_leaked (hmdfs_send_fsync alloc ask fid start end_pos datasync)"
    and "\<not> cr_leaked (hmdfs_client_start_rmdir alloc ask path name)"
    and "\<not> cr_leaked (hmdfs_client_start_unlink alloc ask path name)"
    and "\<not> cr_leaked (hmdfs_client_start_rename alloc ask path name path' name' flags)"
proof -
  have freed: "\<not> cr_leaked (if \<not> alloc then no_buffer e else case ask (send_command c b) of (ret, buf, len) \<Rightarrow> free_sm_outbuf ret None buf len)" for c b e
    using assms [rule_format, of c b] freed_answer [of c] by (cases "ask (send_command c b)") auto
  show "\<not> cr_leaked (hmdfs_send_fsync alloc ask fid start end_pos datasync)"
    and "\<not> cr_leaked (hmdfs_client_start_rmdir alloc ask path name)"
    and "\<not> cr_leaked (hmdfs_client_start_unlink alloc ask path name)"
    and "\<not> cr_leaked (hmdfs_client_start_rename alloc ask path name path' name' flags)"
    unfolding hmdfs_send_fsync_def hmdfs_client_start_rmdir_def hmdfs_client_start_unlink_def hmdfs_client_start_rename_def
      fsync_command_def rmdir_command_def unlink_command_def rename_command_def
    by (rule freed)+
qed

lemma kept_calls:
  assumes "\<forall>c body. delivered c (ask (send_command c body))"
  shows "cr_leaked (hmdfs_send_setattr alloc ask path attr) \<longrightarrow> cr_ret (hmdfs_send_setattr alloc ask path attr) = - EOPNOTSUPP"
    and "cr_leaked (hmdfs_send_setxattr alloc ask path name val vsize xflags) \<longrightarrow>
       cr_ret (hmdfs_send_setxattr alloc ask path name val vsize xflags) = - EOPNOTSUPP"
proof -
  have kept: "cr_leaked r \<longrightarrow> cr_ret r = - EOPNOTSUPP"
    if "r = (if \<not> alloc then no_buffer e else case ask (send_command c b) of (ret, buf, len) \<Rightarrow> keep_outbuf ret buf)" "c = F_SETATTR \<or> c = F_SETXATTR"
    for c b e and r :: "unit client_result"
    using assms [rule_format, of c b] kept_answer [of c] that by (cases "ask (send_command c b)") (auto simp: keep_outbuf_def)
  show "cr_leaked (hmdfs_send_setattr alloc ask path attr) \<longrightarrow> cr_ret (hmdfs_send_setattr alloc ask path attr) = - EOPNOTSUPP"
    and "cr_leaked (hmdfs_send_setxattr alloc ask path name val vsize xflags) \<longrightarrow>
       cr_ret (hmdfs_send_setxattr alloc ask path name val vsize xflags) = - EOPNOTSUPP"
    unfolding hmdfs_send_setattr_def setattr_command_def hmdfs_send_setxattr_def setxattr_command_def
    by (rule kept [OF refl], simp)+
qed

lemma xattr_calls:
  assumes "\<forall>c body. delivered c (ask (send_command c body))"
  shows "if alloc \<and> short_xattr getxattr_response o_size (ask (getxattr_command path name o_size))
     then hmdfs_send_getxattr alloc ask path name o_size = None
     else read_safely (hmdfs_send_getxattr alloc ask path name o_size)"
    and "if alloc \<and> short_xattr listxattr_response o_size (ask (listxattr_command path o_size))
     then hmdfs_send_listxattr alloc ask path o_size = None
     else read_safely (hmdfs_send_listxattr alloc ask path o_size)"
proof -
  obtain ret buf len where g: "ask (getxattr_command path name o_size) = (ret, buf, len)" by (metis prod_cases3)
  then have "delivered F_GETXATTR (ret, buf, len)" using assms by (metis getxattr_command_def)
  then have x: "if short_xattr getxattr_response o_size (ret, buf, len) then r = None else read_safely r"
    if "r = (let ret1 = empty_is_enoent ret buf len in
      if ret1 \<noteq> 0 then Some (free_sm_outbuf ret1 None buf len)
      else do { resp \<leftarrow> buf; (x, out) \<leftarrow> hmdfs_update_getxattr_ret resp o_size; Some (free_sm_outbuf x out buf len) })" for r
    unfolding that by (rule xattr_answer) (simp_all add: hmdfs_update_getxattr_ret_def)
  show "if alloc \<and> short_xattr getxattr_response o_size (ask (getxattr_command path name o_size))
     then hmdfs_send_getxattr alloc ask path name o_size = None
     else read_safely (hmdfs_send_getxattr alloc ask path name o_size)"
  proof (cases alloc)
    case True
    have "if short_xattr getxattr_response o_size (ret, buf, len) then hmdfs_send_getxattr alloc ask path name o_size = None
      else read_safely (hmdfs_send_getxattr alloc ask path name o_size)"
      by (rule x) (simp add: hmdfs_send_getxattr_def g True)
    with True g show ?thesis by simp
  qed (simp add: hmdfs_send_getxattr_def read_safely_def)
  obtain ret buf len where g: "ask (listxattr_command path o_size) = (ret, buf, len)" by (metis prod_cases3)
  then have "delivered F_LISTXATTR (ret, buf, len)" using assms by (metis listxattr_command_def)
  then have x: "if short_xattr listxattr_response o_size (ret, buf, len) then r = None else read_safely r"
    if "r = (let ret1 = empty_is_enoent ret buf len in
      if ret1 \<noteq> 0 then Some (free_sm_outbuf ret1 None buf len)
      else do { resp \<leftarrow> buf; (x, out) \<leftarrow> hmdfs_update_listxattr_ret resp o_size; Some (free_sm_outbuf x out buf len) })" for r
    unfolding that by (rule xattr_answer) (simp_all add: hmdfs_update_listxattr_ret_def)
  show "if alloc \<and> short_xattr listxattr_response o_size (ask (listxattr_command path o_size))
     then hmdfs_send_listxattr alloc ask path o_size = None
     else read_safely (hmdfs_send_listxattr alloc ask path o_size)"
  proof (cases alloc)
    case True
    have "if short_xattr listxattr_response o_size (ret, buf, len) then hmdfs_send_listxattr alloc ask path o_size = None
      else read_safely (hmdfs_send_listxattr alloc ask path o_size)"
      by (rule x) (simp add: hmdfs_send_listxattr_def g True)
    with True g show ?thesis by simp
  qed (simp add: hmdfs_send_listxattr_def read_safely_def)
qed


text \<open>A peer that answers \<open>open\<close> with the file number 7 and nothing else in time.\<close>

definition sample_ask :: "hmdfs_send_command \<Rightarrow> reply" where
  "sample_ask sm = (if file_cmd (command (sc_operations sm)) = Some F_OPEN
     then (0, Some (struct_bytes open_response [(''file_id'', 7)]), of_nat (sizeof open_response)) else (- ETIME, None, 0))"

lemma sample_ask_delivered: "delivered c (sample_ask (send_command c body))"
proof (cases "c = F_OPEN")
  case True
  let ?b = "struct_bytes open_response [(''file_id'', 7)]"
  let ?h = "(statfs_head 0)\<lparr>data_len := of_nat (sizeof open_response + HEAD_SIZE), operations := \<lparr>op_reserved = 0, cmd_flag = 1, command = 0, op_reserved2 = 0\<rparr>\<rparr>"
  have c: "file_cmd 0 = Some F_OPEN" by (simp add: file_cmd_def file_cmds_def)
  have b: "body_len ?h = sizeof open_response" by (simp add: body_len_def statfs_head_def layout_simps)
  have l: "length ?b = sizeof open_response" by (rule length_struct_bytes)
  have "len_ok C_RESPONSE F_OPEN (sizeof open_response)" by (simp add: len_ok_def message_length_defs layout_simps max_len_def)
  then have "hmdfs_message_verify ?h (Some ?b) = Some \<lparr>v_err = 0, v_head = ?h, v_sent = []\<rparr>"
    using b c by (simp add: hmdfs_message_verify_def cmd_flag_of_def is_reserved_command_def hmdfs_open_verify_def
        both_ways_def verify_open_resp_def)
  then have "delivered F_OPEN (0, Some ?b, of_nat (sizeof open_response))"
    unfolding delivered_def using b c l
    by (intro disjI2 exI [of _ ?h] exI [of _ "Some ?b"]) (simp add: statfs_head_def layout_simps)
  then show ?thesis using True by (simp add: sample_ask_def send_command_def)
next
  case False
  then show ?thesis by (cases c) (auto simp: sample_ask_def send_command_def delivered_def)
qed


text \<open>
  The list of extended attributes is not safe in this way: a response
  of four bytes that announces a list of one byte passes the verification, and the
  client copies the byte after its end. The value of an attribute has the same
  flaw.
\<close>

theorem xattr_answer_overread:
  assumes "0 < o_size" and "ask (listxattr_command path o_size) = (0, Some [1, 0, 0, 0], 4)"
  shows "delivered F_LISTXATTR (0, Some [1, 0, 0, 0], 4) \<and> hmdfs_send_listxattr True ask path o_size = None"
proof
  let ?h = "(statfs_head 28)\<lparr>operations := \<lparr>op_reserved = 0, cmd_flag = 1, command = 25, op_reserved2 = 0\<rparr>\<rparr>"
  have c: "file_cmd 25 = Some F_LISTXATTR" by (simp add: file_cmd_def file_cmds_def)
  have b: "body_len ?h = 4" by (simp add: body_len_def statfs_head_def)
  have "len_ok C_RESPONSE F_LISTXATTR 4" by (simp add: len_ok_def message_length_defs layout_simps max_len_def)
  then have "hmdfs_message_verify ?h (Some [1, 0, 0, 0]) = Some \<lparr>v_err = 0, v_head = ?h, v_sent = []\<rparr>"
    using b c by (simp add: hmdfs_message_verify_def cmd_flag_of_def is_reserved_command_def hmdfs_listxattr_verify_def
        both_ways_def verify_listxattr_resp_def layout_simps fld_def rd_le_def)
  then show "delivered F_LISTXATTR (0, Some [1, 0, 0, 0], 4)"
    unfolding delivered_def using b c
    by (intro disjI2 exI [of _ ?h] exI [of _ "Some [1, 0, 0, 0]"]) (simp add: statfs_head_def)
  show "hmdfs_send_listxattr True ask path o_size = None"
    using assms by (simp add: hmdfs_send_listxattr_def empty_is_enoent_def hmdfs_update_listxattr_ret_def layout_simps fld_def rd_le_def)
qed

theorem xattr_answer_overread_witness:
  "hmdfs_send_listxattr True (\<lambda>_. (0, Some [1, 0, 0, 0], 4)) [47] 16 = None"
  using xattr_answer_overread [of 16 "\<lambda>_. (0, Some [1, 0, 0, 0], 4)" "[47]"] by simp

end
