(* ===== verification/Server_Rpc.thy ===== *)
theory Server_Rpc
  imports Server_Ops Client_Proto
begin

text \<open>
  Client and server together: what the server does with a verified request, and
  that a remote call has the effect and the result of the local one.
\<close>

section \<open>Strings in a body\<close>

lemma bytes_at_mid: "bytes_at (pre @ s @ post) (length pre) (length s) = Some s"
  by (simp add: bytes_at_def)

lemma cstr_at_mid: "0 \<notin> set s \<Longrightarrow> cstr_at (pre @ s @ 0 # post) (length pre) = Some s"
  by (auto simp: cstr_at_def takeWhile_tail)

lemma body_at:
  assumes "off = length fixed + length (nul_strings as)" "0 \<notin> set s"
  shows "bytes_at (fixed @ nul_strings (as @ s # bs) @ extra) off (length s) = Some s"
    and "cstr_at (fixed @ nul_strings (as @ s # bs) @ extra) off = Some s"
  using bytes_at_mid [of "fixed @ nul_strings as" s] cstr_at_mid [of s "fixed @ nul_strings as"] assms
  by (simp_all add: nul_strings_def)

text \<open>Where the handlers find the strings of a body, and the payload after them.\<close>

definition str_at :: "byte list \<Rightarrow> nat \<Rightarrow> byte list \<Rightarrow> bool" where
  "str_at data off s \<longleftrightarrow> 0 \<notin> set s \<and> bytes_at data off (length s) = Some s \<and> cstr_at data off = Some s"

lemma one_string:
  assumes "wf_strs L [f] payload limits data"
  shows "\<exists>p. fld L f data = Some (length p) \<and> str_at data (sizeof L) p"
proof -
  obtain fixed strs extra where d: "data = fixed @ nul_strings strs @ extra" "length fixed = sizeof L" "\<forall>s\<in>set strs. 0 \<notin> set s"
    "map (\<lambda>f. fld L f data) [f] = map (\<lambda>s. Some (length s)) strs"
    using assms unfolding wf_strs_def by blast
  then obtain p where "strs = [p]" by auto
  then show ?thesis using d body_at [of "sizeof L" fixed "[]" p "[]" extra] by (auto simp: str_at_def)
qed

lemma two_strings:
  assumes "wf_strs L [f, g] payload limits data"
  shows "\<exists>p n extra. fld L f data = Some (length p) \<and> fld L g data = Some (length n) \<and> str_at data (sizeof L) p \<and>
    str_at data (sizeof L + length p + 1) n \<and> payload data = Some (length extra) \<and>
    bytes_at data (sizeof L + length p + 1 + length n + 1) (length extra) = Some extra"
proof -
  obtain fixed strs extra where d: "data = fixed @ nul_strings strs @ extra" "length fixed = sizeof L" "\<forall>s\<in>set strs. 0 \<notin> set s"
    "map (\<lambda>f. fld L f data) [f, g] = map (\<lambda>s. Some (length s)) strs" "payload data = Some (length extra)"
    using assms unfolding wf_strs_def by blast
  then obtain p n where s: "strs = [p, n]" by auto
  moreover have "bytes_at data (sizeof L + length p + 1 + length n + 1) (length extra) = Some extra"
    using bytes_at_mid [of "fixed @ nul_strings [p, n]" extra "[]"] d(1,2) s by (simp add: nul_strings_Cons add.assoc)
  ultimately show ?thesis
    using d body_at [of "sizeof L" fixed "[]" p "[n]" extra] body_at [of "sizeof L + length p + 1" fixed "[p]" n "[]" extra]
    by (auto simp: str_at_def length_nul_strings)
qed

lemma four_strings:
  assumes "wf_strs L [f, g, h, i] payload limits data"
  shows "\<exists>a b c d. fld L f data = Some (length a) \<and> fld L g data = Some (length b) \<and> fld L h data = Some (length c) \<and>
    fld L i data = Some (length d) \<and> str_at data (sizeof L) a \<and> str_at data (sizeof L + length a + 1) b \<and>
    str_at data (sizeof L + length a + 1 + length b + 1) c \<and>
    str_at data (sizeof L + length a + 1 + length b + 1 + length c + 1) d"
proof -
  obtain fixed strs extra where d: "data = fixed @ nul_strings strs @ extra" "length fixed = sizeof L" "\<forall>s\<in>set strs. 0 \<notin> set s"
    "map (\<lambda>f. fld L f data) [f, g, h, i] = map (\<lambda>s. Some (length s)) strs"
    using assms unfolding wf_strs_def by blast
  then obtain a b c e where s: "strs = [a, b, c, e]" by auto
  then show ?thesis
    using d body_at [of "sizeof L" fixed "[]" a "[b, c, e]" extra] body_at [of "sizeof L + length a + 1" fixed "[a]" b "[c, e]" extra]
      body_at [of "sizeof L + length a + 1 + length b + 1" fixed "[a, b]" c "[e]" extra]
      body_at [of "sizeof L + length a + 1 + length b + 1 + length c + 1" fixed "[a, b, c]" e "[]" extra]
    by (auto simp: str_at_def length_nul_strings)
qed

section \<open>A verified request is handled\<close>

fun dst_strs :: "dst_path \<Rightarrow> byte list list" where
  "dst_strs (Below_root p) = [p]"
| "dst_strs (Link_target t) = []"

fun op_strs :: "vfs_op \<Rightarrow> byte list list" where
  "op_strs (Vfs_mkdir p n m) = [p, n]"
| "op_strs (Vfs_create p n m x) = [p, n]"
| "op_strs (Vfs_rmdir p n) = [p, n]"
| "op_strs (Vfs_unlink p n) = [p, n]"
| "op_strs (Vfs_rename op on np nn fl) = [op, on, np, nn]"
| "op_strs (Vfs_lookup p fl) = [p]"
| "op_strs (Vfs_follow r p) = [p]"
| "op_strs (Vfs_setattr d a) = dst_strs d"
| "op_strs (Vfs_getattr d) = dst_strs d"
| "op_strs (Vfs_statfs p) = [p]"
| "op_strs (Vfs_getxattr p n k) = [p, n]"
| "op_strs (Vfs_setxattr p n val fl) = [p, n]"
| "op_strs (Vfs_removexattr p n) = [p, n]"
| "op_strs (Vfs_listxattr p k) = [p]"
| "op_strs (Vfs_lookup_view p) = []"
| "op_strs (Vfs_drop_cache p) = []"

text \<open>
  A destination outside of the file system: a regular file to which a symbolic link leads that
  is found below the root under a path without \<open>..\<close>.
\<close>

fun linked :: "vfs \<Rightarrow> dst_path \<Rightarrow> bool" where
  "linked v (Below_root p) = True"
| "linked v (Link_target t) = (\<exists>p i. \<not> path_contain_dotdot p \<and> vfs_inode v p = Some i \<and> S_ISLNK (i_mode i) \<and>
     (\<exists>l. vfs_follow v (vfs_local_dst v @ [47] @ p) = Inr l \<and> lp_path l = t \<and> lp_isreg l \<and> \<not> lp_hmdfs l))"

fun op_linked :: "vfs \<Rightarrow> vfs_op \<Rightarrow> bool" where
  "op_linked v (Vfs_setattr d a) = linked v d"
| "op_linked v (Vfs_getattr d) = linked v d"
| "op_linked v _ = True"

definition answers :: "hmdfs_head_cmd \<Rightarrow> hmdfs_head_cmd \<times> byte list \<Rightarrow> bool" where
  "answers cmd r \<longleftrightarrow> msg_id (fst r) = msg_id cmd \<and> command (operations (fst r)) = command (operations cmd) \<and>
     cmd_flag (operations (fst r)) = 1 \<and> data_len (fst r) = of_nat (length (snd r) + HEAD_SIZE)"

definition handled :: "vfs \<Rightarrow> FILE_CMD \<Rightarrow> hmdfs_head_cmd \<Rightarrow> outcome option \<Rightarrow> bool" where
  "handled v c cmd r \<longleftrightarrow> (\<exists>ops resps. r = Some (ops, resps) \<and>
     (\<forall>op\<in>set ops. op_linked v op \<and> (\<forall>s\<in>set (op_strs op). \<not> path_contain_dotdot s)) \<and>
     length resps = (if need_response c then 1 else 0) \<and> (\<forall>r\<in>set resps. answers cmd r))"

lemma answers_response [simp]: "answers cmd (hmdfs_sendmessage_response cmd body ret)"
  by (simp add: answers_def hmdfs_sendmessage_response_def response_head_def)

lemma answers_err [simp]: "answers cmd (hmdfs_send_err_response cmd err)"
  by (simp add: hmdfs_send_err_response_def)

lemma bytes_at_str [simp]: "str_at data off s \<Longrightarrow> bytes_at data off (length s) = Some s"
  by (simp add: str_at_def)

lemma cstr_at_str [simp]: "str_at data off s \<Longrightarrow> cstr_at data off = Some s"
  by (simp add: str_at_def)

lemma handledI:
  "\<forall>op\<in>set ops. op_linked v op \<and> (\<forall>s\<in>set (op_strs op). \<not> path_contain_dotdot s) \<Longrightarrow> length resps = (if need_response c then 1 else 0) \<Longrightarrow>
   \<forall>r\<in>set resps. answers cmd r \<Longrightarrow> handled v c cmd (Some (ops, resps))"
  by (auto simp: handled_def)

lemma wf_strs_len: "wf_strs L fs payload limits data \<Longrightarrow> sizeof L \<le> length data"
  by (auto simp: wf_strs_def)

lemma wf_strs_fld: "wf_strs L fs payload limits data \<Longrightarrow> f \<in> fst ` set L \<Longrightarrow> \<exists>v. fld L f data = Some v"
  by (intro fld_total wf_strs_len)

lemma body_fields:
  "''mode'' \<in> fst ` set mkdir_request" "''mode'' \<in> fst ` set create_request" "''want_excl'' \<in> fst ` set create_request"
  "''flags'' \<in> fst ` set rename_request" "''valid'' \<in> fst ` set setattr_request" "''size'' \<in> fst ` set setattr_request"
  "''mtime'' \<in> fst ` set setattr_request" "''mtime_nsec'' \<in> fst ` set setattr_request"
  "''lookup_flags'' \<in> fst ` set getattr_request" "''size'' \<in> fst ` set getxattr_request"
  "''size'' \<in> fst ` set setxattr_request" "''flags'' \<in> fst ` set setxattr_request" "''del'' \<in> fst ` set setxattr_request"
  "''size'' \<in> fst ` set listxattr_request"
  by (simp_all add: layout_simps)

lemma mkdir_handled:
  assumes w: "wf_strs mkdir_request [''path_len'', ''name_len''] no_payload no_limits data" and "vfs_alloc v"
  shows "handled v F_MKDIR cmd (hmdfs_server_mkdir v cmd data)"
  using two_strings [OF w] wf_strs_fld [OF w, of "''mode''"] assms(2)
  by (auto simp: hmdfs_server_mkdir_def Let_def need_response_def body_fields intro!: handledI split: sum.splits option.splits prod.splits)

lemma create_handled:
  assumes w: "wf_strs create_request [''path_len'', ''name_len''] no_payload no_limits data" and "vfs_alloc v"
  shows "handled v F_CREATE cmd (hmdfs_server_create v cmd data)"
  using two_strings [OF w] wf_strs_fld [OF w, of "''mode''"] wf_strs_fld [OF w, of "''want_excl''"] assms(2)
  by (auto simp: hmdfs_server_create_def Let_def need_response_def body_fields intro!: handledI split: sum.splits option.splits prod.splits)

lemma rmdir_handled:
  assumes w: "wf_strs rmdir_request [''path_len'', ''name_len''] no_payload no_limits data"
  shows "handled v F_RMDIR cmd (hmdfs_server_rmdir v cmd data)"
  using two_strings [OF w]
  by (auto simp: hmdfs_server_rmdir_def Let_def need_response_def body_fields intro!: handledI)

lemma unlink_handled:
  assumes w: "wf_strs unlink_request [''path_len'', ''name_len''] no_payload no_limits data"
  shows "handled v F_UNLINK cmd (hmdfs_server_unlink v cmd data)"
  using two_strings [OF w]
  by (auto simp: hmdfs_server_unlink_def Let_def need_response_def body_fields intro!: handledI)

lemma rename_handled:
  assumes w: "wf_strs rename_request [''old_path_len'', ''new_path_len'', ''old_name_len'', ''new_name_len''] no_payload no_limits data"
  shows "handled v F_RENAME cmd (hmdfs_server_rename v cmd data)"
  using four_strings [OF w] wf_strs_fld [OF w, of "''flags''"]
  by (auto simp: hmdfs_server_rename_def Let_def need_response_def body_fields intro!: handledI)

lemma linkpath_linked:
  assumes "hmdfs_lookup_linkpath v p = (err, d)" "vfs_inode v p = Some i" "S_ISLNK (i_mode i)" "\<not> path_contain_dotdot p"
  shows "linked v d" "d = Below_root p \<or> (\<exists>t. d = Link_target t)"
  using assms by (auto simp: hmdfs_lookup_linkpath_def hmdfs_lookup_symlink_def split: if_splits sum.splits) metis+

lemma follow_link_cases:
  assumes "vfs_inode v p = Some i" "\<not> path_contain_dotdot p"
  obtains ops err d where "follow_link v i p = (ops, err, d)" "linked v d" "\<forall>s\<in>set (dst_strs d). \<not> path_contain_dotdot s"
    "\<forall>op\<in>set ops. op_linked v op \<and> (\<forall>s\<in>set (op_strs op). \<not> path_contain_dotdot s)"
proof -
  obtain ops err d where e: "follow_link v i p = (ops, err, d)" by (cases "follow_link v i p") auto
  moreover have "\<forall>op\<in>set ops. op_linked v op \<and> (\<forall>s\<in>set (op_strs op). \<not> path_contain_dotdot s)"
    using e assms(2) by (auto simp: follow_link_def split: if_splits)
  moreover have "linked v d \<and> (d = Below_root p \<or> (\<exists>t. d = Link_target t))"
  proof (cases "S_ISLNK (i_mode i)")
    case True
    then show ?thesis using e linkpath_linked [OF _ assms(1) True assms(2)] by (auto simp: follow_link_def)
  next
    case False
    then show ?thesis using e by (auto simp: follow_link_def)
  qed
  ultimately show thesis using that assms(2) by fastforce
qed

lemma setattr_handled:
  assumes w: "wf_strs setattr_request [''path_len''] no_payload no_limits data"
  shows "handled v F_SETATTR cmd (hmdfs_server_setattr v cmd data)"
proof -
  obtain p where p: "fld setattr_request ''path_len'' data = Some (length p)" "str_at data (sizeof setattr_request) p"
    using one_string [OF w] by blast
  obtain attr where a: "setattr_attrs data = Some attr"
    using wf_strs_fld [OF w, of "''valid''"] wf_strs_fld [OF w, of "''size''"] wf_strs_fld [OF w, of "''mtime''"] wf_strs_fld [OF w, of "''mtime_nsec''"]
    by (auto simp: setattr_attrs_def body_fields Let_def)
  show ?thesis
  proof (cases "\<not> path_contain_dotdot p \<and> vfs_root v = 0 \<and> vfs_lookup v p 0 = 0 \<and> vfs_inode v p \<noteq> None")
    case False
    with p a show ?thesis
      by (auto simp: hmdfs_server_setattr_def need_response_def intro!: handledI split: option.splits)
  next
    case True
    then obtain i where i: "vfs_inode v p = Some i" by blast
    with True obtain ops err d where "follow_link v i p = (ops, err, d)" "linked v d"
      "\<forall>s\<in>set (dst_strs d). \<not> path_contain_dotdot s" "\<forall>op\<in>set ops. op_linked v op \<and> (\<forall>s\<in>set (op_strs op). \<not> path_contain_dotdot s)"
      using follow_link_cases [OF i] by blast
    with True p a i show ?thesis by (auto simp: hmdfs_server_setattr_def need_response_def intro!: handledI simp del: linked.simps)
  qed
qed

lemma getattr_handled:
  assumes w: "wf_strs getattr_request [''path_len''] no_payload no_limits data"
  shows "handled v F_GETATTR cmd (hmdfs_server_getattr v cmd data)"
proof -
  obtain p where p: "fld getattr_request ''path_len'' data = Some (length p)" "str_at data (sizeof getattr_request) p"
    using one_string [OF w] by blast
  obtain fl where "fld getattr_request ''lookup_flags'' data = Some fl"
    using wf_strs_fld [OF w, of "''lookup_flags''"] by (auto simp: body_fields)
  moreover obtain e flags where "hmdfs_convert_lookup_flags (of_nat fl) = (e, flags)" by fastforce
  ultimately have a: "fld getattr_request ''lookup_flags'' data = Some fl" "hmdfs_convert_lookup_flags (of_nat fl) = (e, flags)" .
  show ?thesis
  proof (cases "\<not> path_contain_dotdot p \<and> e = 0 \<and> vfs_alloc v \<and> vfs_root v = 0 \<and> vfs_lookup v p flags = 0 \<and> vfs_inode v p \<noteq> None")
    case False
    then have "vfs_inode v p = None" if "\<not> path_contain_dotdot p" "e = 0" "vfs_alloc v" "vfs_root v = 0" "vfs_lookup v p flags = 0"
      using that by blast
    with p a show ?thesis
      by (cases "path_contain_dotdot p"; cases "e = 0"; cases "vfs_alloc v"; cases "vfs_root v = 0"; cases "vfs_lookup v p flags = 0")
         (simp_all add: hmdfs_server_getattr_def Let_def need_response_def handled_def)
  next
    case True
    then obtain i where i: "vfs_inode v p = Some i" by blast
    with True obtain ops err d where "follow_link v i p = (ops, err, d)" "linked v d"
      "\<forall>s\<in>set (dst_strs d). \<not> path_contain_dotdot s" "\<forall>op\<in>set ops. op_linked v op \<and> (\<forall>s\<in>set (op_strs op). \<not> path_contain_dotdot s)"
      using follow_link_cases [OF i] by blast
    with True p a i show ?thesis
      by (auto simp: hmdfs_server_getattr_def Let_def need_response_def intro!: handledI simp del: linked.simps split: prod.splits)
  qed
qed

lemma statfs_handled:
  assumes w: "wf_strs statfs_request [''path_len''] no_payload no_limits data"
  shows "handled v F_STATFS cmd (hmdfs_server_statfs v cmd data)"
  using one_string [OF w]
  by (auto simp: hmdfs_server_statfs_def Let_def need_response_def body_fields intro!: handledI split: sum.splits option.splits prod.splits)

lemma getxattr_handled:
  assumes w: "wf_strs getxattr_request [''path_len'', ''name_len''] no_payload (xattr_limits getxattr_request) data"
  shows "handled v F_GETXATTR cmd (hmdfs_server_getxattr v cmd data)"
  using two_strings [OF w] wf_strs_fld [OF w, of "''size''"]
  by (auto simp: hmdfs_server_getxattr_def Let_def need_response_def body_fields intro!: handledI split: sum.splits option.splits prod.splits)

lemma setxattr_handled:
  assumes w: "wf_strs setxattr_request [''path_len'', ''name_len''] (fld setxattr_request ''size'') (xattr_limits setxattr_request) data"
  shows "handled v F_SETXATTR cmd (hmdfs_server_setxattr v cmd data)"
  using two_strings [OF w] wf_strs_fld [OF w, of "''size''"] wf_strs_fld [OF w, of "''flags''"] wf_strs_fld [OF w, of "''del''"]
  by (auto simp: hmdfs_server_setxattr_def Let_def need_response_def body_fields intro!: handledI split: sum.splits option.splits prod.splits)

lemma listxattr_handled:
  assumes w: "wf_strs listxattr_request [''path_len''] no_payload limits data"
  shows "handled v F_LISTXATTR cmd (hmdfs_server_listxattr v cmd data)"
  using one_string [OF w] wf_strs_fld [OF w, of "''size''"]
  by (auto simp: hmdfs_server_listxattr_def Let_def need_response_def body_fields intro!: handledI split: sum.splits option.splits prod.splits)

lemma get_drop_push_handled:
  assumes w: "wf_strs drop_push_request [''path_len''] no_payload no_limits data"
  shows "handled v F_DROP_PUSH cmd (hmdfs_server_get_drop_push v cmd data)"
  using one_string [OF w]
  by (auto simp: hmdfs_server_get_drop_push_def Let_def need_response_def body_fields intro!: handledI split: sum.splits option.splits prod.splits)

lemma verified_len_ok:
  assumes "cmd_flag (operations h) = 0" and "file_cmd (command (operations h)) = Some c"
    and "hmdfs_message_verify h data = Some v" and "v_err v = 0"
  shows "len_ok C_REQUEST c (body_len h)"
  using assms handle_bad_message_request_err [OF assms(1)]
  by (auto simp: hmdfs_message_verify_def cmd_flag_of_def split: if_splits)

lemma no_memory_null:
  assumes w: "wf_strs L [''path_len'', ''name_len''] payload limits data" "\<not> vfs_alloc v"
  shows "L = mkdir_request \<Longrightarrow> hmdfs_server_mkdir v cmd data = None" "L = create_request \<Longrightarrow> hmdfs_server_create v cmd data = None"
  using assms by (simp_all add: hmdfs_server_mkdir_def hmdfs_server_create_def Let_def Option.bind_eq_None_conv)


section \<open>A remote call\<close>

text \<open>
  The exchange of a request with a server: the server verifies the request and
  runs its handler; the one response is verified by the client. A body of no bytes
  has no buffer.
\<close>

definition client_data :: "byte list \<Rightarrow> byte list option" where
  "client_data body = (if body = [] then None else Some body)"

definition receive_reply :: "hmdfs_head_cmd \<times> byte list \<Rightarrow> reply option" where
  "receive_reply r =
     map_option (\<lambda>vd. (sint (ret_code (v_head vd)), client_data (snd r), ucast (data_len (fst r)) - of_nat HEAD_SIZE))
       (hmdfs_message_verify (fst r) (client_data (snd r)))"

definition serve :: "vfs \<Rightarrow> hmdfs_head_cmd \<Rightarrow> byte list \<Rightarrow> outcome option" where
  "serve v h data = do {
     vd \<leftarrow> hmdfs_message_verify h (Some data);
     c \<leftarrow> file_cmd (command (operations h));
     f \<leftarrow> server_handler c;
     if v_err vd < 0 then None else f v h data }"

definition exchange :: "vfs \<Rightarrow> nat \<Rightarrow> hmdfs_send_command \<Rightarrow> vfs_op list \<times> reply" where
  "exchange v mid sm =
     (case serve v (request_head sm mid) (sc_data sm) of
        Some (ops, [r]) \<Rightarrow> (ops, case receive_reply r of Some reply \<Rightarrow> reply | None \<Rightarrow> (- ETIME, None, 0))
      | Some (ops, _) \<Rightarrow> (ops, - ETIME, None, 0)
      | None \<Rightarrow> ([], - ETIME, None, 0))"

abbreviation reply_of :: "vfs \<Rightarrow> nat \<Rightarrow> hmdfs_send_command \<Rightarrow> reply" where
  "reply_of v mid \<equiv> \<lambda>sm. snd (exchange v mid sm)"

text \<open>The responses of a command that the client accepts as they are.\<close>

definition response_ok :: "FILE_CMD \<Rightarrow> byte list \<Rightarrow> bool" where
  "response_ok c body \<longleftrightarrow> \<not> is_reserved_command c \<and> len_ok C_RESPONSE c (length body) \<and>
     (case message_verify c of None \<Rightarrow> True | Some f \<Rightarrow> f C_RESPONSE (length body) (client_data body) = Some 0)"

definition err_code :: "int \<Rightarrow> bool" where
  "err_code e \<longleftrightarrow> - (2 ^ 31) \<le> e \<and> e < 2 ^ 31"

lemma sint_err_code: "err_code e \<Longrightarrow> sint (of_int e :: u32) = e"
  by (simp add: err_code_def signed_of_int signed_take_bit_int_eq_self)

lemma receive_response:
  assumes "response_ok c body" and "err_code ret" and "file_cmd (command (operations cmd)) = Some c"
  shows "receive_reply (hmdfs_sendmessage_response cmd body ret) = Some (ret, client_data body, of_nat (length body))"
proof -
  let ?h = "fst (hmdfs_sendmessage_response cmd body ret)"
  have len: "length body + HEAD_SIZE < 2 ^ 32" using assms(1) len_ok_fits [of C_RESPONSE c "length body"] by (simp add: response_ok_def)
  have "unat (of_nat (length body + HEAD_SIZE) :: u32) = length body + HEAD_SIZE" using len by (simp only: unat_of_nat) simp
  then have u: "unat (data_len ?h) = length body + HEAD_SIZE" by (simp add: hmdfs_sendmessage_response_def response_head_def)
  then have b: "body_len ?h = length body" by (simp add: body_len_cases)
  have "ucast (data_len ?h) - of_nat HEAD_SIZE = (of_nat (body_len ?h) :: u64)" by (simp add: body_len_def)
  then have "ucast (data_len ?h) - of_nat HEAD_SIZE = (of_nat (length body) :: u64)" by (simp only: b)
  moreover have "hmdfs_message_verify ?h (client_data body) = Some \<lparr>v_err = 0, v_head = ?h, v_sent = []\<rparr>"
    using assms(1,3) b by (auto simp: hmdfs_message_verify_def response_ok_def hmdfs_sendmessage_response_def response_head_def
        cmd_flag_of_def split: option.splits)
  ultimately show ?thesis using sint_err_code [OF assms(2)]
    by (simp add: receive_reply_def hmdfs_sendmessage_response_def response_head_def)
qed

lemma exchange_response:
  assumes c: "call_ok call" "sm = call_command call" "file_cmd (command (sc_operations sm)) = Some c" "server_handler c = Some f"
    and f: "f v (request_head sm mid) (sc_data sm) = Some (ops, [hmdfs_sendmessage_response (request_head sm mid) body ret])"
    and ok: "response_ok c body" "err_code ret"
  shows "exchange v mid sm = (ops, ret, client_data body, of_nat (length body))"
proof -
  have op: "operations (request_head sm mid) = sc_operations sm" by (simp add: request_head_def)
  have "hmdfs_message_verify (request_head sm mid) (Some (sc_data sm)) = Some \<lparr>v_err = 0, v_head = request_head sm mid, v_sent = []\<rparr>"
    using call_accepted [OF c(1)] request_head_of c(2) by simp
  then have "serve v (request_head sm mid) (sc_data sm) = f v (request_head sm mid) (sc_data sm)"
    using c(3,4) op by (simp add: serve_def)
  then show ?thesis
    using receive_response [OF ok, of "request_head sm mid"] c(3) op by (simp add: exchange_def f)
qed

section \<open>The handlers on the requests of the client\<close>

lemma fld_struct_bytes:
  "fld L f (struct_bytes L vals @ rest) =
     (case field_at L f of None \<Rightarrow> None | Some (off, n) \<Rightarrow> Some ((case map_of vals f of None \<Rightarrow> 0 | Some v \<Rightarrow> v) mod 256 ^ n))"
  using fld_struct [of L f _ _ vals rest] by (auto simp: fld_def split: option.split)

lemma field_positions:
  "field_at mkdir_request ''path_len'' = Some (0, 4)"
  "field_at mkdir_request ''name_len'' = Some (4, 4)"
  "field_at mkdir_request ''mode'' = Some (8, 2)"
  "field_at create_request ''path_len'' = Some (0, 4)"
  "field_at create_request ''name_len'' = Some (4, 4)"
  "field_at create_request ''mode'' = Some (8, 2)"
  "field_at create_request ''want_excl'' = Some (10, Suc 0)"
  "field_at rmdir_request ''path_len'' = Some (0, 4)"
  "field_at rmdir_request ''name_len'' = Some (4, 4)"
  "field_at unlink_request ''path_len'' = Some (0, 4)"
  "field_at unlink_request ''name_len'' = Some (4, 4)"
  "field_at rename_request ''old_path_len'' = Some (0, 4)"
  "field_at rename_request ''new_path_len'' = Some (4, 4)"
  "field_at rename_request ''old_name_len'' = Some (8, 4)"
  "field_at rename_request ''new_name_len'' = Some (12, 4)"
  "field_at rename_request ''flags'' = Some (16, 4)"
  "field_at setattr_request ''size'' = Some (0, 8)"
  "field_at setattr_request ''valid'' = Some (8, 4)"
  "field_at setattr_request ''mode'' = Some (12, 2)"
  "field_at setattr_request ''uid'' = Some (14, 4)"
  "field_at setattr_request ''gid'' = Some (18, 4)"
  "field_at setattr_request ''atime'' = Some (22, 8)"
  "field_at setattr_request ''atime_nsec'' = Some (30, 4)"
  "field_at setattr_request ''mtime'' = Some (34, 8)"
  "field_at setattr_request ''mtime_nsec'' = Some (42, 4)"
  "field_at setattr_request ''path_len'' = Some (46, 4)"
  "field_at getattr_request ''lookup_flags'' = Some (0, 4)"
  "field_at getattr_request ''path_len'' = Some (4, 4)"
  "field_at statfs_request ''path_len'' = Some (0, 4)"
  "field_at setxattr_request ''path_len'' = Some (0, 4)"
  "field_at setxattr_request ''name_len'' = Some (4, 4)"
  "field_at setxattr_request ''size'' = Some (8, 4)"
  "field_at setxattr_request ''flags'' = Some (12, 4)"
  "field_at setxattr_request ''del'' = Some (16, Suc 0)"
  "field_at hmdfs_inodeinfo_response ''i_size'' = Some (0, 8)"
  "field_at hmdfs_inodeinfo_response ''i_mtime'' = Some (8, 8)"
  "field_at hmdfs_inodeinfo_response ''i_mtime_nsec'' = Some (16, 4)"
  "field_at hmdfs_inodeinfo_response ''fno'' = Some (20, 4)"
  "field_at hmdfs_inodeinfo_response ''i_mode'' = Some (24, 2)"
  "field_at hmdfs_inodeinfo_response ''i_ino'' = Some (26, 8)"
  by (simp_all add: layout_simps)

lemma unat_mod_width:
  "unat (w :: u64) mod 256 ^ 8 = unat w" "unat (x :: u32) mod 256 ^ 4 = unat x" "unat (y :: u16) mod 256 ^ 2 = unat y"
  using unsigned_less [of w, where 'a = nat] unsigned_less [of x, where 'a = nat] unsigned_less [of y, where 'a = nat]
  by (auto intro!: mod_less)

lemma path_len_mod: "path_ok s \<Longrightarrow> length s mod 256 ^ 4 = length s" "comp_ok s \<Longrightarrow> length s mod 256 ^ 4 = length s"
  by (simp_all add: path_ok_def comp_ok_def)

lemma str_at_built:
  assumes "off = sizeof L + length (nul_strings as)" "0 \<notin> set s"
  shows "str_at (struct_bytes L vals @ nul_strings (as @ s # bs) @ extra) off s"
  using body_at [of off "struct_bytes L vals" as s bs extra] assms unfolding length_struct_bytes str_at_def by blast

lemma built_one: "0 \<notin> set p \<Longrightarrow> str_at (struct_bytes L vals @ nul_strings [p]) (sizeof L) p"
  using str_at_built [of "sizeof L" L "[]" p vals "[]" "[]"] by simp

lemma built_two:
  assumes "0 \<notin> set p" "0 \<notin> set n"
  shows "str_at (struct_bytes L vals @ nul_strings [p, n]) (sizeof L) p"
    and "str_at (struct_bytes L vals @ nul_strings [p, n]) (sizeof L + length p + 1) n"
  using str_at_built [of "sizeof L" L "[]" p vals "[n]" "[]"] assms(1)
    str_at_built [OF _ assms(2), of "sizeof L + length p + 1" L "[p]" vals "[]" "[]"]
  by (simp_all add: length_nul_strings)

lemma path_ok_nul: "path_ok s \<Longrightarrow> 0 \<notin> set s" "comp_ok s \<Longrightarrow> 0 \<notin> set s"
  by (simp_all add: path_ok_def comp_ok_def)

lemmas serve_simps = Let_def fld_struct_bytes field_positions path_len_mod unat_mod_width

lemma serves_two:
  assumes "path_ok p" "comp_ok n"
  shows "str_at (struct_bytes L vals @ nul_strings [p, n]) (sizeof L) p"
    "str_at (struct_bytes L vals @ nul_strings [p, n]) (Suc (sizeof L + length p)) n"
    "cstr_at (struct_bytes L vals @ nul_strings [p, n]) (sizeof L) = Some p"
    "cstr_at (struct_bytes L vals @ nul_strings [p, n]) (Suc (sizeof L + length p)) = Some n"
  using built_two [OF path_ok_nul(1) [OF assms(1)] path_ok_nul(2) [OF assms(2)], of L vals]
  by (simp_all add: cstr_at_str [of _ _ p] cstr_at_str [of _ _ n])

lemma serves_one:
  assumes "path_ok p"
  shows "str_at (struct_bytes L vals @ nul_strings [p]) (sizeof L) p"
    "cstr_at (struct_bytes L vals @ nul_strings [p]) (sizeof L) = Some p"
  using built_one [OF path_ok_nul(1) [OF assms(1)], of L vals] by (simp_all add: cstr_at_str [of _ _ p])

lemma mkdir_serves:
  assumes "path_ok p" "comp_ok n" "\<not> path_contain_dotdot p" "\<not> path_contain_dotdot n" "vfs_alloc v"
  shows "hmdfs_server_mkdir v cmd (sc_data (mkdir_command p n mode)) = Some ([Vfs_mkdir p n mode],
    [case vfs_mkdir v p n mode of Inl err \<Rightarrow> hmdfs_sendmessage_response cmd no_inode_response err
     | Inr i \<Rightarrow> hmdfs_sendmessage_response cmd (inode_response i (i_ino i)) 0])"
  using assms by (simp add: hmdfs_server_mkdir_def mkdir_command_def serve_simps serves_two del: power_numeral)

lemma create_serves:
  assumes "path_ok p" "comp_ok n" "\<not> path_contain_dotdot p" "\<not> path_contain_dotdot n" "vfs_alloc v"
  shows "hmdfs_server_create v cmd (sc_data (create_command p n mode excl)) = Some ([Vfs_create p n mode excl],
    [case vfs_create v p n mode excl of Inl err \<Rightarrow> hmdfs_sendmessage_response cmd no_inode_response err
     | Inr i \<Rightarrow> hmdfs_sendmessage_response cmd (inode_response i (generate_u64_ino (i_ino i) (i_generation i))) 0])"
  using assms by (simp add: hmdfs_server_create_def create_command_def serve_simps serves_two del: power_numeral)

lemma rmdir_serves:
  assumes "path_ok p" "comp_ok n" "\<not> path_contain_dotdot p" "\<not> path_contain_dotdot n" "vfs_root v = 0"
  shows "hmdfs_server_rmdir v cmd (sc_data (rmdir_command p n)) =
    Some ([Vfs_rmdir p n], [hmdfs_send_err_response cmd (vfs_rmdir v p n)])"
  using assms by (simp add: hmdfs_server_rmdir_def rmdir_command_def serve_simps serves_two del: power_numeral)

lemma unlink_serves:
  assumes "path_ok p" "comp_ok n" "\<not> path_contain_dotdot p" "\<not> path_contain_dotdot n" "vfs_root v = 0"
  shows "hmdfs_server_unlink v cmd (sc_data (unlink_command p n)) =
    Some ([Vfs_unlink p n], [hmdfs_send_err_response cmd (vfs_unlink v p n)])"
  using assms by (simp add: hmdfs_server_unlink_def unlink_command_def serve_simps serves_two del: power_numeral)

lemma serves_four:
  fixes L vals
  assumes "0 \<notin> set a" "0 \<notin> set b" "0 \<notin> set c" "0 \<notin> set d"
  defines "m \<equiv> struct_bytes L vals @ nul_strings [a, b, c, d]"
  shows "str_at m (sizeof L) a" "str_at m (Suc (sizeof L + length a)) b"
    "str_at m (Suc (Suc (sizeof L + length a + length b))) c"
    "str_at m (Suc (Suc (Suc (sizeof L + length a + length b + length c)))) d"
  unfolding m_def
  using str_at_built [of "sizeof L" L "[]" a vals "[b, c, d]" "[]"] str_at_built [OF _ assms(2), of _ L "[a]" vals "[c, d]" "[]"]
    str_at_built [OF _ assms(3), of _ L "[a, b]" vals "[d]" "[]"] str_at_built [OF _ assms(4), of _ L "[a, b, c]" vals "[]" "[]"] assms(1)
  by (simp_all add: length_nul_strings add.assoc)

lemma rename_serves:
  assumes "path_ok op" "comp_ok on" "path_ok np" "comp_ok nn"
    and dots: "\<not> path_contain_dotdot op" "\<not> path_contain_dotdot on" "\<not> path_contain_dotdot np" "\<not> path_contain_dotdot nn"
  shows "hmdfs_server_rename v cmd (sc_data (rename_command op on np nn flags)) =
    Some ([Vfs_rename op on np nn flags], [hmdfs_send_err_response cmd (vfs_rename v op on np nn flags)])"
proof -
  let ?vals = "[(''old_path_len'', length op), (''new_path_len'', length np), (''old_name_len'', length on),
         (''new_name_len'', length nn), (''flags'', unat flags)]"
  note s = serves_four [of op np on nn rename_request ?vals, OF path_ok_nul(1) [OF assms(1)] path_ok_nul(1) [OF assms(3)]
      path_ok_nul(2) [OF assms(2)] path_ok_nul(2) [OF assms(4)]]
  show ?thesis using assms s s [THEN cstr_at_str]
    by (simp add: hmdfs_server_rename_def rename_command_def serve_simps add.assoc del: power_numeral)
qed

section \<open>Remote operations on names\<close>

definition lookup_ret :: "inode_attr \<Rightarrow> u64 \<Rightarrow> hmdfs_lookup_ret" where
  "lookup_ret i ino = \<lparr>lr_size = i_size i, lr_mtime = i_mtime i, lr_mtime_nsec = i_mtime_nsec i, lr_mode = i_mode i, lr_ino = ino\<rparr>"

lemma lookup_ret_inode_response: "lookup_ret_of_resp (inode_response i ino) = Some (lookup_ret i ino)"
  using fld_struct_bytes [of hmdfs_inodeinfo_response _ _ "[]"]
  by (simp add: lookup_ret_of_resp_def inode_response_def lookup_ret_def field_positions unat_mod_width del: power_numeral)

lemma inode_responses_ok: "response_ok F_MKDIR (struct_bytes hmdfs_inodeinfo_response vals)"
  "response_ok F_CREATE (struct_bytes hmdfs_inodeinfo_response vals)"
  by (simp_all add: response_ok_def is_reserved_command_def len_ok_def message_length_defs max_len_def client_data_def
      hmdfs_mkdir_verify_def hmdfs_create_verify_def verify_mkdir_resp_def verify_create_resp_def both_ways_def)

lemma empty_responses_ok: "c \<in> {F_RMDIR, F_UNLINK, F_RENAME, F_SETATTR, F_SETXATTR} \<Longrightarrow> response_ok c []"
  by (auto simp: response_ok_def is_reserved_command_def len_ok_def message_length_defs max_len_def client_data_def
      command_verify_defs both_ways_def)

lemma response_size: "length (struct_bytes hmdfs_inodeinfo_response vals) = 42"
  by (simp add: layout_simps)

text \<open>What the client makes of the answer of \<open>mkdir\<close> and \<open>create\<close>.\<close>

definition inode_result :: "int + inode_attr \<Rightarrow> (inode_attr \<Rightarrow> u64) \<Rightarrow> hmdfs_lookup_ret client_result option \<Rightarrow> bool" where
  "inode_result res ino r \<longleftrightarrow> (\<exists>x. r = Some x \<and> \<not> cr_leaked x \<and>
     (case res of Inl e \<Rightarrow> cr_ret x = e | Inr i \<Rightarrow> cr_ret x = 0 \<and> cr_out x = Some (lookup_ret i (ino i))))"

lemma inode_answer_ok:
  "inode_result (Inr i) ino (inode_answer (0, client_data (inode_response i (ino i)), of_nat (length (inode_response i (ino i)))))"
proof -
  have "length (inode_response i (ino i)) = 42" by (simp add: inode_response_def response_size del: length_struct_bytes)
  moreover from this have "inode_response i (ino i) \<noteq> []" by auto
  ultimately show ?thesis
    by (simp add: inode_result_def inode_answer_def client_data_def free_sm_outbuf_def lookup_ret_inode_response)
qed

lemma inode_answer_err:
  "inode_result (Inl e) ino (inode_answer (e, client_data no_inode_response, of_nat (length no_inode_response)))"
proof -
  have "length no_inode_response = 42" by (simp add: no_inode_response_def response_size del: length_struct_bytes)
  moreover from this have "no_inode_response \<noteq> []" by auto
  moreover have "\<exists>out. lookup_ret_of_resp no_inode_response = Some out"
    by (rule lookup_ret_total) (simp add: no_inode_response_def)
  ultimately show ?thesis
    by (auto simp: inode_result_def inode_answer_def client_data_def free_sm_outbuf_def)
qed

lemma command_of:
  "file_cmd (command (sc_operations (mkdir_command p n mode))) = Some F_MKDIR"
  "file_cmd (command (sc_operations (create_command p n mode excl))) = Some F_CREATE"
  "file_cmd (command (sc_operations (rmdir_command p n))) = Some F_RMDIR"
  "file_cmd (command (sc_operations (unlink_command p n))) = Some F_UNLINK"
  "file_cmd (command (sc_operations (rename_command p n p' n' flags))) = Some F_RENAME"
  "file_cmd (command (sc_operations (setattr_command p a))) = Some F_SETATTR"
  "file_cmd (command (sc_operations (getattr_command p flags))) = Some F_GETATTR"
  by (simp_all add: command_defs send_command_def)

text \<open>The arguments of an operation on a name that the server takes.\<close>

definition name_args :: "byte list \<Rightarrow> byte list \<Rightarrow> bool" where
  "name_args p n \<longleftrightarrow> path_ok p \<and> comp_ok n \<and> \<not> path_contain_dotdot p \<and> \<not> path_contain_dotdot n"

lemma remote_inode:
  assumes c: "call_ok call" "sm = call_command call" "file_cmd (command (sc_operations sm)) = Some c" "server_handler c = Some f"
    and f: "\<forall>cmd. f v cmd (sc_data sm) = Some (ops, [case res of
        Inl err \<Rightarrow> hmdfs_sendmessage_response cmd no_inode_response err
      | Inr i \<Rightarrow> hmdfs_sendmessage_response cmd (inode_response i (ino i)) 0])"
    and mk: "c = F_MKDIR \<or> c = F_CREATE" and err: "\<forall>e. res = Inl e \<longrightarrow> err_code e"
  shows "fst (exchange v mid sm) = ops \<and> inode_result res ino (inode_answer (snd (exchange v mid sm)))"
proof -
  note e = exchange_response [OF c]
  have ok: "response_ok c (struct_bytes hmdfs_inodeinfo_response vals)" for vals using mk inode_responses_ok by auto
  show ?thesis
  proof (cases res)
    case (Inl x)
    then have "exchange v mid sm = (ops, x, client_data no_inode_response, of_nat (length no_inode_response))"
      using err f ok by (intro e) (simp_all add: no_inode_response_def)
    then show ?thesis using inode_answer_err Inl by simp
  next
    case (Inr i)
    then have "exchange v mid sm = (ops, 0, client_data (inode_response i (ino i)), of_nat (length (inode_response i (ino i))))"
      using f ok by (intro e) (simp_all add: inode_response_def err_code_def)
    then show ?thesis using inode_answer_ok [of i ino] Inr by simp
  qed
qed

lemma remote_err:
  assumes c: "call_ok call" "sm = call_command call" "file_cmd (command (sc_operations sm)) = Some c" "server_handler c = Some f"
    and f: "\<forall>cmd. f v cmd (sc_data sm) = Some (ops, [hmdfs_send_err_response cmd ret])"
    and ok: "c \<in> {F_RMDIR, F_UNLINK, F_RENAME, F_SETATTR, F_SETXATTR}" "err_code ret"
  shows "exchange v mid sm = (ops, ret, None, 0)"
  using exchange_response [OF c, of v mid ops "[]" ret] f empty_responses_ok [OF ok(1)] ok(2)
  by (simp add: hmdfs_send_err_response_def client_data_def)

text \<open>
  C22 (refinement). A remote operation on names is the local one: for every path
  and name inside the limits and without \<open>..\<close>, the request of \<open>mkdir\<close>, \<open>create\<close>,
  \<open>rmdir\<close>, \<open>unlink\<close> or \<open>rename\<close> makes the server call its file system once, with
  exactly these strings, mode and flags, and what the client returns is what that
  call returned, its error number or the attributes of the new inode, after the request
  and the response have been built, verified and parsed on both sides.
\<close>

theorem remote_names:
  assumes args: "name_args p n" "name_args p' n'" and v: "vfs_alloc v" "vfs_root v = 0"
    and "\<forall>e. vfs_mkdir v p n mode = Inl e \<longrightarrow> err_code e" "\<forall>e. vfs_create v p n mode excl = Inl e \<longrightarrow> err_code e"
    and "err_code (vfs_rmdir v p n)" "err_code (vfs_unlink v p n)" "err_code (vfs_rename v p n p' n' flags)"
  shows "fst (exchange v mid (mkdir_command p n mode)) = [Vfs_mkdir p n mode] \<and>
    inode_result (vfs_mkdir v p n mode) i_ino (hmdfs_client_start_mkdir True (reply_of v mid) p n mode) \<and>
    fst (exchange v mid (create_command p n mode excl)) = [Vfs_create p n mode excl] \<and>
    inode_result (vfs_create v p n mode excl) (\<lambda>i. generate_u64_ino (i_ino i) (i_generation i))
      (hmdfs_client_start_create True (reply_of v mid) p n mode excl) \<and>
    fst (exchange v mid (rmdir_command p n)) = [Vfs_rmdir p n] \<and>
    cr_ret (hmdfs_client_start_rmdir True (reply_of v mid) p n) = vfs_rmdir v p n \<and>
    fst (exchange v mid (unlink_command p n)) = [Vfs_unlink p n] \<and>
    cr_ret (hmdfs_client_start_unlink True (reply_of v mid) p n) = vfs_unlink v p n \<and>
    fst (exchange v mid (rename_command p n p' n' flags)) = [Vfs_rename p n p' n' flags] \<and>
    cr_ret (hmdfs_client_start_rename True (reply_of v mid) p n p' n' flags) = vfs_rename v p n p' n' flags"
proof -
  note a = args [unfolded name_args_def]
  have "exchange v mid (rmdir_command p n) = ([Vfs_rmdir p n], vfs_rmdir v p n, None, 0)"
    using a v assms(7) rmdir_serves [of p n v]
    by (intro remote_err [of "Rmdir p n" _ F_RMDIR]) (auto simp: command_of)
  moreover have "exchange v mid (unlink_command p n) = ([Vfs_unlink p n], vfs_unlink v p n, None, 0)"
    using a v assms(8) unlink_serves [of p n v]
    by (intro remote_err [of "Unlink p n" _ F_UNLINK]) (auto simp: command_of)
  moreover have "exchange v mid (rename_command p n p' n' flags) = ([Vfs_rename p n p' n' flags], vfs_rename v p n p' n' flags, None, 0)"
    using a v assms(9) rename_serves [of p n p' n' v]
    by (intro remote_err [of "Rename p n p' n' flags" _ F_RENAME]) (auto simp: command_of)
  moreover have "fst (exchange v mid (mkdir_command p n mode)) = [Vfs_mkdir p n mode]
      \<and> inode_result (vfs_mkdir v p n mode) i_ino (inode_answer (reply_of v mid (mkdir_command p n mode)))"
    using a v assms(5) mkdir_serves [of p n v]
    by (intro remote_inode [of "Mkdir p n mode" _ F_MKDIR]) (auto simp: command_of)
  moreover have "fst (exchange v mid (create_command p n mode excl)) = [Vfs_create p n mode excl]
      \<and> inode_result (vfs_create v p n mode excl) (\<lambda>i. generate_u64_ino (i_ino i) (i_generation i))
      (inode_answer (reply_of v mid (create_command p n mode excl)))"
    using a v assms(6) create_serves [of p n v]
    by (intro remote_inode [of "Create p n mode excl" _ F_CREATE]) (auto simp: command_of)
  ultimately show ?thesis
    by (simp add: hmdfs_client_start_mkdir_def hmdfs_client_start_create_def hmdfs_client_start_rmdir_def
        hmdfs_client_start_unlink_def hmdfs_client_start_rename_def free_sm_outbuf_def)
qed

text \<open>A server whose file system has one directory to make and refuses everything else.\<close>

definition sample_made :: inode_attr where
  "sample_made = \<lparr>i_mode = 16877, i_size = 4096, i_mtime = 1700000000, i_mtime_nsec = 5, i_ino = 77, i_generation = 3\<rparr>"

definition sample_vfs :: vfs where
  "sample_vfs = \<lparr>vfs_alloc = True, vfs_root = 0, vfs_mkdir = (\<lambda>p n m. Inr sample_made), vfs_create = (\<lambda>p n m x. Inl (- EEXIST)),
     vfs_rmdir = (\<lambda>p n. - ENOENT), vfs_unlink = (\<lambda>p n. - ENOENT), vfs_rename = (\<lambda>p n p' n' f. - EBUSY),
     vfs_lookup = (\<lambda>p f. - ENOENT), vfs_inode = (\<lambda>p. None), vfs_local_dst = [47, 109], vfs_follow = (\<lambda>p. Inl (- ENOENT)), vfs_notify_change = (\<lambda>p a. 0),
     vfs_stat = (\<lambda>p. (- ENOENT, undefined)), vfs_statfs = (\<lambda>p. (- ENOENT, [])), vfs_get_xattr = (\<lambda>p n k. (- ENOENT, [])),
     vfs_set_xattr = (\<lambda>p n x f. 0), vfs_remove_xattr = (\<lambda>p n. 0), vfs_list_xattr = (\<lambda>p k. (0, [])), vfs_cid = [49]\<rparr>"

lemma sample_args: "name_args [47, 97] [98]" "name_args [47, 99] [98]"
  by (simp_all add: name_args_def path_ok_def comp_ok_def path_contain_dotdot.simps dotdot_here_def)

theorem remote_names_witness:
  "fst (exchange sample_vfs 9 (mkdir_command [47, 97] [98] 493)) = [Vfs_mkdir [47, 97] [98] 493] \<and>
   inode_result (Inr sample_made) i_ino (hmdfs_client_start_mkdir True (reply_of sample_vfs 9) [47, 97] [98] 493) \<and>
   cr_ret (hmdfs_client_start_rename True (reply_of sample_vfs 9) [47, 97] [98] [47, 99] [98] 0) = - EBUSY"
  using remote_names [OF sample_args, of sample_vfs 493 False 0 9] by (simp add: sample_vfs_def err_code_def)


text \<open>
  When the memory for the response of \<open>mkdir\<close> or \<open>create\<close> is not
  there, the handler still sends its full length, from \<open>NULL\<close>.
\<close>

theorem mkdir_answers_from_null:
  assumes "\<not> vfs_alloc v"
  shows "hmdfs_server_mkdir v cmd (sc_data (mkdir_command p n mode)) = None \<and>
    hmdfs_server_create v cmd (sc_data (create_command p n mode excl)) = None"
  using assms by (simp add: hmdfs_server_mkdir_def hmdfs_server_create_def mkdir_command_def create_command_def serve_simps
      Option.bind_eq_None_conv)

theorem mkdir_answers_from_null_witness:
  "hmdfs_server_mkdir (sample_vfs\<lparr>vfs_alloc := False\<rparr>) (statfs_head 24) (sc_data (mkdir_command [47] [98] 493)) = None"
  using mkdir_answers_from_null [of "sample_vfs\<lparr>vfs_alloc := False\<rparr>"] by simp

end
