(* ===== verification/File_Rpc.thy ===== *)
theory File_Rpc
  imports Open_Files Server_Rpc
begin

text \<open>
  Requests on open files, from the bytes a peer sends to the file: every verified
  request is handled without a fault and keeps the references balanced; what a
  client gets from \<open>open\<close> names the file in its later requests until the
  connection goes offline.
\<close>

section \<open>Verified requests\<close>

fun file_handler :: "FILE_CMD \<Rightarrow> (open_env \<Rightarrow> io_env \<Rightarrow> hmdfs_head_cmd \<Rightarrow> byte list \<Rightarrow> server \<Rightarrow> answer) option" where
  "file_handler F_OPEN = Some (\<lambda>env io. hmdfs_server_open env)"
| "file_handler F_ATOMIC_OPEN = Some (\<lambda>env io. hmdfs_server_atomic_open env)"
| "file_handler F_RELEASE = Some (\<lambda>env io cmd data s. map_option (\<lambda>s'. ([], s')) (hmdfs_server_release io data s))"
| "file_handler F_FSYNC = Some (\<lambda>env io. hmdfs_server_fsync io)"
| "file_handler F_READPAGE = Some (\<lambda>env io. hmdfs_server_readpage io)"
| "file_handler F_WRITEPAGE = Some (\<lambda>env io. hmdfs_server_writepage io)"
| "file_handler _ = None"

definition verified :: "FILE_CMD \<Rightarrow> hmdfs_head_cmd \<Rightarrow> byte list \<Rightarrow> bool" where
  "verified c cmd data = (cmd_flag (operations cmd) = 0 \<and> file_cmd (command (operations cmd)) = Some c \<and> length data = body_len cmd
     \<and> (case hmdfs_message_verify cmd (Some data) of Some v \<Rightarrow> v_err v = 0 | None \<Rightarrow> False))"

lemma verifiedD:
  assumes "verified c cmd data"
  obtains v where "cmd_flag (operations cmd) = 0" "file_cmd (command (operations cmd)) = Some c" "length data = body_len cmd"
    "hmdfs_message_verify cmd (Some data) = Some v" "v_err v = 0" "len_ok C_REQUEST c (length data)"
  using assms verified_len_ok [of cmd c "Some data"] by (auto simp: verified_def split: option.splits)

lemma verified_fixed:
  assumes "verified c cmd data" "c \<in> {F_RELEASE, F_FSYNC, F_READPAGE}"
  shows "length data = (if c = F_RELEASE then sizeof release_request else if c = F_FSYNC then sizeof fsync_request else sizeof readpage_request)"
  using assms(1)
proof (cases rule: verifiedD)
  case (1 v)
  then show ?thesis using assms(2)
    by (auto simp: len_ok_def message_length_defs max_len_def layout_simps)
qed

lemma verified_open:
  assumes "verified F_OPEN cmd data"
  obtains p ty where "fld open_request ''path_len'' data = Some (length p)" "fld open_request ''file_type'' data = Some ty" "str_at data (sizeof open_request) p"
  using assms
proof (cases rule: verifiedD)
  case (1 v)
  have w: "wf_strs open_request [''path_len''] no_payload no_limits data"
    by (rule string_request_accepted [OF 1(1,3,2) _ 1(6,4,5)]) simp
  obtain ty where "fld open_request ''file_type'' data = Some ty"
    using wf_strs_fld [OF w, of "''file_type''"] by (auto simp: layout_simps)
  with one_string [OF w] that show ?thesis by blast
qed

lemma verified_atomic_open:
  assumes "verified F_ATOMIC_OPEN cmd data"
  obtains p n flags where "fld atomic_open_request ''path_len'' data = Some (length p)" "fld atomic_open_request ''file_len'' data = Some (length n)"
    "fld atomic_open_request ''open_flags'' data = Some flags"
    "str_at data (sizeof atomic_open_request) p" "str_at data (sizeof atomic_open_request + length p + 1) n"
  using assms
proof (cases rule: verifiedD)
  case (1 v)
  have w: "wf_strs atomic_open_request [''path_len'', ''file_len''] no_payload no_limits data"
    by (rule string_request_accepted [OF 1(1,3,2) _ 1(6,4,5)]) simp
  obtain flags where "fld atomic_open_request ''open_flags'' data = Some flags"
    using wf_strs_fld [OF w, of "''open_flags''"] by (auto simp: layout_simps)
  with two_strings [OF w] that show ?thesis by blast
qed

lemma verified_writepage:
  assumes "verified F_WRITEPAGE cmd data"
  obtains n where "fld writepage_request ''count'' data = Some n" "0 < n" "n \<le> HMDFS_PAGE_SIZE"
    "length data = sizeof writepage_request + HMDFS_PAGE_SIZE"
  using assms
proof (cases rule: verifiedD)
  case (1 v)
  have len: "length data = sizeof writepage_request + HMDFS_PAGE_SIZE"
    using 1(6) by (auto simp: len_ok_def message_length_defs max_len_def layout_simps)
  obtain n where n: "fld writepage_request ''count'' data = Some n"
    using fld_total [of "''count''" writepage_request data] len by (auto simp: layout_simps)
  have "data \<noteq> []" using len by auto
  then have "\<not> (n = 0 \<or> n > HMDFS_PAGE_SIZE)"
    using 1 n handle_bad_message_request_err [OF 1(1)]
    by (auto simp: hmdfs_message_verify_def cmd_flag_of_def hmdfs_writepage_verify_def both_ways_def split: if_splits)
  with n len that show ?thesis by auto
qed

lemma request_fields:
  "f \<in> {''file_id'', ''file_ver''} \<Longrightarrow> f \<in> fst ` set release_request"
  "f \<in> {''file_id'', ''file_ver'', ''datasync'', ''start'', ''end''} \<Longrightarrow> f \<in> fst ` set fsync_request"
  "f \<in> {''file_id'', ''file_ver'', ''size'', ''index''} \<Longrightarrow> f \<in> fst ` set readpage_request"
  "f \<in> {''file_id'', ''file_ver'', ''count'', ''index''} \<Longrightarrow> f \<in> fst ` set writepage_request"
  by (auto simp: layout_simps)

section \<open>References stay balanced\<close>

lemma one_answer_answers: "one_answer env cmd out \<Longrightarrow> r \<in> set out \<Longrightarrow> answers cmd r"
  by (auto simp: one_answer_def)

lemma do_atomic_cases:
  assumes "holds lost s" "fresh_open env s"
  obtains (failed) e where "hmdfs_server_do_atomic_open env path name flags s = Some (Inl e, s)"
  | (opened) f resp where "hmdfs_server_do_atomic_open env path name flags s
        = Some (Inr (f, nat (oe_idr env), resp), with_file f (nat (oe_idr env)) (share_tbl s) s)"
      "f_count s f = 0" "nat (oe_idr env) \<notin> fst ` set (file_id_idr s)"
proof (cases "hmdfs_lookup_create env path name flags")
  case (Inl e)
  then show ?thesis using failed by (simp add: hmdfs_server_do_atomic_open_def)
next
  case trunc: (Inr trunc)
  from assms show ?thesis
  proof (cases rule: dentry_open_cases [where p = "path @ [47] @ name"])
    case (failed e)
    then show ?thesis using trunc that(1) by (simp add: hmdfs_server_do_atomic_open_def)
  next
    case (opened f)
    have x: "atomic_open_failed f (nat (oe_idr env)) (with_file f (nat (oe_idr env)) (share_tbl s) s) = Some s"
      using failed_with_file(2) [OF assms(1) opened(2,3), of "share_tbl s"] by (simp add: atomic_open_failed_def)
    show ?thesis
    proof (cases "hmdfs_get_open_info env HM_REG []")
      case (Inl e)
      then show ?thesis using trunc opened(1) x that(1) [of e] by (simp add: hmdfs_server_do_atomic_open_def)
    next
      case (Inr info)
      then show ?thesis
        using trunc opened x that(1) [of "oe_truncate env"] that(2)
        by (cases "trunc \<and> oe_truncate env \<noteq> 0") (simp_all add: hmdfs_server_do_atomic_open_def)
    qed
  qed
qed

text \<open>
  The file an atomic open opens for the strings of the request: \<open>hmdfs_server_atomic_open\<close>
  never puts the reference it has from \<open>dentry_open\<close>, whether its answer is sent or not.
\<close>

definition atomic_file :: "open_env \<Rightarrow> byte list \<Rightarrow> server \<Rightarrow> nat option" where
  "atomic_file env data s = do {
     path_len \<leftarrow> fld atomic_open_request ''path_len'' data;
     flags \<leftarrow> fld atomic_open_request ''open_flags'' data;
     path \<leftarrow> cstr_at data (sizeof atomic_open_request);
     name \<leftarrow> cstr_at data (sizeof atomic_open_request + path_len + 1);
     if path_contain_dotdot path \<or> path_contain_dotdot name \<or> \<not> oe_alloc env then None
     else case hmdfs_server_do_atomic_open env path name flags s of
       Some (Inr (f, _), _) \<Rightarrow> Some f
     | _ \<Rightarrow> None }"

definition add_lost :: "FILE_CMD \<Rightarrow> open_env \<Rightarrow> byte list \<Rightarrow> server \<Rightarrow> (nat \<Rightarrow> nat) \<Rightarrow> nat \<Rightarrow> nat" where
  "add_lost c env data s lost f = lost f + (if c = F_ATOMIC_OPEN \<and> atomic_file env data s = Some f then 1 else 0)"

lemma add_lost_other [simp]: "c \<noteq> F_ATOMIC_OPEN \<Longrightarrow> add_lost c env data s lost = lost"
  by (simp add: add_lost_def fun_eq_iff)

lemma remove_with_file:
  assumes "holds lost s" "f_count s f = 0" "fid \<notin> fst ` set (file_id_idr s)"
  shows "\<exists>s'. hmdfs_close_path f (snd (remove_file_from_conn fid (with_file f fid t s))) = Some s' \<and> holds (lost(f := 1)) s'
    \<and> fid_cookie s' = fid_cookie s \<and> boot_cookie s' = boot_cookie s"
  using close_remove [OF close_with_file(3) [OF assms, of t], of fid f] by (auto simp: with_file_def)

lemma atomic_open_table:
  assumes "holds lost s" "fresh_open env s"
    and "fld atomic_open_request ''path_len'' data = Some (length p)" "fld atomic_open_request ''file_len'' data = Some (length n)"
    and "fld atomic_open_request ''open_flags'' data = Some flags"
    and "str_at data (sizeof atomic_open_request) p" "str_at data (sizeof atomic_open_request + length p + 1) n"
  shows "\<exists>out s'. hmdfs_server_atomic_open env cmd data s = Some (out, s') \<and> holds (add_lost F_ATOMIC_OPEN env data s lost) s'
    \<and> one_answer env cmd out \<and> fid_cookie s' = fid_cookie s \<and> boot_cookie s' = boot_cookie s"
proof -
  have dd: "any_dotdot data [(sizeof atomic_open_request, length p), (sizeof atomic_open_request + length p + 1, length n)]
      = Some (path_contain_dotdot p \<or> path_contain_dotdot n)"
    using bytes_at_str [OF assms(6)] bytes_at_str [OF assms(7)] by simp
  note defs = hmdfs_server_atomic_open_def Let_def assms(3-5) bind.bind_lunit dd cstr_at_str [OF assms(6)] cstr_at_str [OF assms(7)]
  have opened_file: "atomic_file env data s = (if path_contain_dotdot p \<or> path_contain_dotdot n \<or> \<not> oe_alloc env then None
      else case hmdfs_server_do_atomic_open env p n flags s of Some (Inr (f, _), _) \<Rightarrow> Some f | _ \<Rightarrow> None)"
    unfolding atomic_file_def defs ..
  show ?thesis
  proof (cases "path_contain_dotdot p \<or> path_contain_dotdot n \<or> \<not> oe_alloc env")
    case True
    then have "add_lost F_ATOMIC_OPEN env data s lost = lost" using opened_file by (simp add: add_lost_def fun_eq_iff)
    with True assms(1) show ?thesis unfolding defs by auto
  next
    case False
    from assms(1,2) show ?thesis
    proof (cases rule: do_atomic_cases [where path = p and name = n and flags = flags])
      case (failed e)
      then have "add_lost F_ATOMIC_OPEN env data s lost = lost" using opened_file by (simp add: add_lost_def fun_eq_iff)
      with failed False assms(1) show ?thesis unfolding defs by auto
    next
      case (opened f resp)
      have "lost f = 0" using assms(1) opened(2) by (simp add: holds_def)
      then have l: "add_lost F_ATOMIC_OPEN env data s lost = lost(f := 1)"
        using opened_file False opened(1) by (auto simp: add_lost_def fun_eq_iff)
      show ?thesis
      proof (cases "oe_send env = 0")
        case True
        with opened(1) False close_with_file(3) [OF assms(1) opened(2,3), of "share_tbl s"] show ?thesis
          unfolding defs l by (auto simp: with_file_def)
      next
        case sent: False
        with opened(1) False remove_with_file [OF assms(1) opened(2,3), of "share_tbl s"] show ?thesis
          unfolding defs l by auto
      qed
    qed
  qed
qed

text \<open>One verified request, in any state with balanced references.\<close>

lemma file_request:
  assumes "verified c cmd data" "file_handler c = Some h" "holds lost s" "fresh_open env s"
  shows "\<exists>out s'. h env io cmd data s = Some (out, s') \<and> holds (add_lost c env data s lost) s' \<and> fid_cookie s' = fid_cookie s \<and> boot_cookie s' = boot_cookie s
    \<and> (\<forall>r \<in> set out. answers cmd r)
    \<and> length out \<le> (if need_response c then 1 else 0) \<and> (oe_send env = 0 \<longrightarrow> length out = (if need_response c then 1 else 0))"
proof -
  from assms(3) have ok: "files_ok s" by blast
  consider "c = F_OPEN" | "c = F_RELEASE" | "c = F_FSYNC" | "c = F_READPAGE" | "c = F_WRITEPAGE" | "c = F_ATOMIC_OPEN"
    using assms(2) by (cases c) auto
  then show ?thesis
  proof cases
    case 3
    then have len: "sizeof fsync_request \<le> length data" using verified_fixed [OF assms(1)] by simp
    note t = fld_total [OF request_fields(2) len]
    obtain i ver d a b where "fld fsync_request ''file_id'' data = Some i" "fld fsync_request ''file_ver'' data = Some ver"
      "fld fsync_request ''datasync'' data = Some d" "fld fsync_request ''start'' data = Some a" "fld fsync_request ''end'' data = Some b"
      using t [of "''file_id''"] t [of "''file_ver''"] t [of "''datasync''"] t [of "''start''"] t [of "''end''"] by auto
    from fsync_table [OF ok this(3-5,1,2)] 3 assms(2,3) show ?thesis by (auto simp: need_response_def)
  next
    case 4
    then have len: "sizeof readpage_request \<le> length data" using verified_fixed [OF assms(1)] by simp
    note t = fld_total [OF request_fields(3) len]
    obtain i ver n x where "fld readpage_request ''file_id'' data = Some i" "fld readpage_request ''file_ver'' data = Some ver"
      "fld readpage_request ''size'' data = Some n" "fld readpage_request ''index'' data = Some x"
      using t [of "''file_id''"] t [of "''file_ver''"] t [of "''size''"] t [of "''index''"] by auto
    from readpage_table [OF ok this] 4 assms(2,3) show ?thesis
      by (auto simp: need_response_def page_answer_def split: sum.splits prod.splits)
  next
    case 5
    with assms(1) obtain n where n: "fld writepage_request ''count'' data = Some n" "n \<le> HMDFS_PAGE_SIZE"
      "length data = sizeof writepage_request + HMDFS_PAGE_SIZE" using verified_writepage by blast
    then have len: "sizeof writepage_request \<le> length data" by simp
    note t = fld_total [OF request_fields(4) len]
    obtain i ver x where "fld writepage_request ''file_id'' data = Some i" "fld writepage_request ''file_ver'' data = Some ver"
      "fld writepage_request ''index'' data = Some x"
      using t [of "''file_id''"] t [of "''file_ver''"] t [of "''index''"] by auto
    moreover have "bytes_at data (sizeof writepage_request) n = Some (take n (drop (sizeof writepage_request) data))"
      using n by (simp add: bytes_at_def)
    ultimately show ?thesis using writepage_table [OF ok _ _ n(1)] 5 assms(2,3) by (fastforce simp: need_response_def)
  next
    case 2
    then have len: "sizeof release_request \<le> length data" using verified_fixed [OF assms(1)] by simp
    note t = fld_total [OF request_fields(1) len]
    obtain i ver where "fld release_request ''file_id'' data = Some i" "fld release_request ''file_ver'' data = Some ver"
      using t [of "''file_id''"] t [of "''file_ver''"] by auto
    from release_table [OF assms(3) this, of io] 2 assms(2) show ?thesis by (auto simp: need_response_def)
  next
    case 1
    with assms(1) obtain p ty where p: "fld open_request ''path_len'' data = Some (length p)" "fld open_request ''file_type'' data = Some ty"
      "str_at data (sizeof open_request) p" using verified_open by blast
    from p(3) have "bytes_at data (sizeof open_request) (length p) = Some p" "cstr_at data (sizeof open_request) = Some p" by simp_all
    from open_table [OF assms(3,4) p(1,2) this, of cmd] obtain out s' where "hmdfs_server_open env cmd data s = Some (out, s')"
      "holds lost s'" "one_answer env cmd out" "fid_cookie s' = fid_cookie s" "boot_cookie s' = boot_cookie s" by blast
    with 1 assms(2) one_answer_answers [of env cmd out] show ?thesis by (auto simp: need_response_def one_answer_def)
  next
    case 6
    with assms(1) obtain p n flags where "fld atomic_open_request ''path_len'' data = Some (length p)"
      "fld atomic_open_request ''file_len'' data = Some (length n)" "fld atomic_open_request ''open_flags'' data = Some flags"
      "str_at data (sizeof atomic_open_request) p" "str_at data (sizeof atomic_open_request + length p + 1) n"
      using verified_atomic_open by blast
    from atomic_open_table [OF assms(3,4) this, of cmd] obtain out s' where "hmdfs_server_atomic_open env cmd data s = Some (out, s')"
      "holds (add_lost F_ATOMIC_OPEN env data s lost) s'" "one_answer env cmd out" "fid_cookie s' = fid_cookie s" "boot_cookie s' = boot_cookie s" by blast
    with 6 assms(2) one_answer_answers [of env cmd out] show ?thesis by (auto simp: need_response_def one_answer_def)
  qed
qed

text \<open>
  Any verified requests of the peer on files, and offline events, which are counted; beside the
  state goes, for every file, how many atomic opens have opened it.
\<close>

inductive file_run :: "nat \<Rightarrow> (nat \<Rightarrow> nat) \<Rightarrow> server \<Rightarrow> server \<Rightarrow> bool" where
  none: "file_run 0 (\<lambda>_. 0) s s"
| request: "file_run n lost s s1 \<Longrightarrow> verified c cmd data \<Longrightarrow> file_handler c = Some h \<Longrightarrow> fresh_open env s1 \<Longrightarrow>
    h env io cmd data s1 = Some (out, s2) \<Longrightarrow> file_run n (add_lost c env data s1 lost) s s2"
| offline: "file_run n lost s s1 \<Longrightarrow> hmdfs_server_offline_notify cid s1 = Some s2 \<Longrightarrow> file_run (Suc n) lost s s2"

lemma file_run_keeps:
  assumes "file_run n lost s s'" "holds l0 s"
  shows "holds (\<lambda>f. l0 f + lost f) s' \<and> fid_cookie s' = fid_cookie s + of_nat n \<and> boot_cookie s' = boot_cookie s"
  using assms
proof (induction rule: file_run.induct)
  case (request n lost s s1 c cmd data h env io out s2)
  have "add_lost c env data s1 (\<lambda>f. l0 f + lost f) = (\<lambda>f. l0 f + add_lost c env data s1 lost f)"
    by (simp add: add_lost_def fun_eq_iff)
  then show ?case using request file_request [OF request.hyps(2,3) _ request.hyps(4), of "\<lambda>f. l0 f + lost f" io] by auto
next
  case (offline n lost s s1 cid s2)
  then show ?case using offline_table [of "\<lambda>f. l0 f + lost f" s1 cid] by (auto simp: algebra_simps)
qed simp

definition server_start :: "u64 \<Rightarrow> hmdfs_share_table \<Rightarrow> server" where
  "server_start boot t = \<lparr>file_id_idr = [], fid_cookie = 0, boot_cookie = boot, f_count = (\<lambda>_. 0), share_tbl = t\<rparr>"

lemma holds_start: "holds (\<lambda>_. 0) (server_start boot t)"
  by (simp add: holds_def server_start_def entries_def)


section \<open>File numbers of old connections\<close>

lemma boot_cookie_low: "hmdfs_gen_boot_cookie now rand AND mask 15 = 0"
  by (rule bit_eqI) (auto simp: hmdfs_gen_boot_cookie_def bit_simps)

lemma fid_ver_low:
  assumes "boot_cookie s AND mask 15 = 0"
  shows "hmdfs_server_pack_fid_ver s AND mask 15 = ucast (fid_cookie s) AND mask 15"
  using assms by (simp add: hmdfs_server_pack_fid_ver_def bit.conj_disj_distrib2 and.assoc)

lemma cookie_low: "unat (ucast (c :: u16) AND mask 15 :: u64) = unat c mod 2 ^ 15"
proof -
  have "unat c < 2 ^ 64" using unsigned_less [of c, where 'a = nat] by simp
  then have "unat (ucast c :: u64) = unat c" by (simp add: unsigned_ucast_eq take_bit_nat_eq_self)
  then show ?thesis by (simp add: take_bit_eq_mask [symmetric] unsigned_take_bit_eq take_bit_eq_mod del: unsigned_take_bit_eq) (simp add: unat_mod_distrib)
qed

lemma fid_ver_eq:
  assumes "boot_cookie s AND mask 15 = 0" "boot_cookie s' = boot_cookie s" "fid_cookie s' = fid_cookie s + of_nat n"
  shows "(hmdfs_server_pack_fid_ver s' = hmdfs_server_pack_fid_ver s) = (n mod 2 ^ 15 = 0)"
proof -
  have "(hmdfs_server_pack_fid_ver s' = hmdfs_server_pack_fid_ver s) =
      ((ucast (fid_cookie s') AND mask 15 :: u64) = ucast (fid_cookie s) AND mask 15)"
    using fid_ver_low [of s] fid_ver_low [of s'] assms(1,2) by (auto simp: hmdfs_server_pack_fid_ver_def)
  also have "\<dots> = (unat (fid_cookie s') mod 2 ^ 15 = unat (fid_cookie s) mod 2 ^ 15)"
    by (simp only: cookie_low [symmetric] word_unat_eq_iff)
  also have "unat (fid_cookie s') mod 2 ^ 15 = (unat (fid_cookie s) + n) mod 2 ^ 15"
  proof -
    have "unat (fid_cookie s') = (unat (fid_cookie s) + n) mod 2 ^ 16"
      by (simp add: assms(3) unat_word_ariths unat_of_nat mod_add_right_eq)
    also have "\<dots> mod 2 ^ 15 = (unat (fid_cookie s) + n) mod 2 ^ 15"
      by (rule mod_mod_cancel) (simp add: le_imp_power_dvd)
    finally show ?thesis .
  qed
  also have "((unat (fid_cookie s) + n) mod 2 ^ 15 = unat (fid_cookie s) mod 2 ^ 15) = (n mod 2 ^ 15 = 0)"
    using mod_eq_dvd_iff_nat [of "unat (fid_cookie s)" "unat (fid_cookie s) + n" "2 ^ 15"] by (simp add: dvd_eq_mod_eq_0)
  finally show ?thesis .
qed

text \<open>
  C34 (functional). A file version given to a client is valid again exactly after a multiple of 32768
  offline events of the connection: until then no number of an earlier connection names a file,
  whatever the peer has opened and closed since.
\<close>

theorem stale_fid:
  assumes "file_run m lost (server_start (hmdfs_gen_boot_cookie now rand) t) s" "file_run n lost' s s'"
  shows "((hmdfs_server_pack_fid_ver s' = hmdfs_server_pack_fid_ver s) = (n mod 32768 = 0))
    \<and> (n mod 32768 \<noteq> 0 \<longrightarrow> get_file_by_fid_and_ver i (hmdfs_server_pack_fid_ver s) s' = (Inl (- EBADF), s'))"
proof -
  have s: "holds lost s" "boot_cookie s = hmdfs_gen_boot_cookie now rand"
    using file_run_keeps [OF assms(1) holds_start] by (simp_all add: server_start_def)
  have "(hmdfs_server_pack_fid_ver s' = hmdfs_server_pack_fid_ver s) = (n mod 32768 = 0)"
    using file_run_keeps [OF assms(2) s(1)] fid_ver_eq [of s s' n] s(2) boot_cookie_low by simp
  then show ?thesis
    by (auto simp: get_file_by_fid_and_ver_def)
qed

section \<open>From open to read\<close>

lemma file_field_positions:
  "field_at open_response ''file_ver'' = Some (4, 8)" "field_at open_response ''file_id'' = Some (12, 4)"
  "field_at open_response ''file_size'' = Some (16, 8)" "field_at open_response ''ino'' = Some (24, 8)"
  "field_at open_response ''ctime'' = Some (32, 8)" "field_at open_response ''ctime_nsec'' = Some (40, 4)"
  "field_at open_response ''stable_ctime'' = Some (56, 8)" "field_at open_response ''stable_ctime_nsec'' = Some (64, 4)"
  "field_at readpage_request ''file_ver'' = Some (0, 8)" "field_at readpage_request ''file_id'' = Some (8, 4)"
  "field_at readpage_request ''size'' = Some (12, 4)" "field_at readpage_request ''index'' = Some (16, 8)"
  by (simp_all add: layout_simps)

lemma fld_struct_whole:
  "fld L f (struct_bytes L vals) =
     (case field_at L f of None \<Rightarrow> None | Some (off, n) \<Rightarrow> Some ((case map_of vals f of None \<Rightarrow> 0 | Some v \<Rightarrow> v) mod 256 ^ n))"
  using fld_struct_bytes [of L f vals "[]"] by simp

lemma unat_mod_bounds:
  "unat (w :: u64) mod 18446744073709551616 = unat w" "unat (x :: u32) mod 4294967296 = unat x"
  using unat_mod_width(1) [of w] unat_mod_width(2) [of x] by simp_all

lemma open_response_fid:
  assumes "fid < 2 ^ 32"
  shows "\<exists>r. open_ret_of (hmdfs_update_open_response env s info fid) = Some r
    \<and> or_fid r = \<lparr>fid_ver = hmdfs_server_pack_fid_ver s, fid_id = of_nat fid\<rparr>
    \<and> or_file_size r = oi_size info \<and> or_ino r = oi_ino info"
  using assms unfolding open_ret_of_def hmdfs_update_open_response_def Let_def fld_struct_whole
  by (simp add: file_field_positions unat_mod_bounds)

lemma readpage_serves:
  assumes "files_ok s"
  shows "hmdfs_server_readpage io cmd (sc_data (readpage_command fid index)) s =
    Some ([case fid_file (unat (fid_id fid), fid_ver fid) s of Inl e \<Rightarrow> hmdfs_send_err_response cmd e
           | Inr f \<Rightarrow> page_answer io cmd f (unat index) HMDFS_PAGE_SIZE], s)"
  using readpage_table [OF assms, of "sc_data (readpage_command fid index)" "unat (fid_id fid)" "unat (fid_ver fid)" HMDFS_PAGE_SIZE "unat index" io cmd]
  by (simp add: readpage_command_def send_command_def fld_struct_whole file_field_positions unat_mod_bounds)

text \<open>
  C2 (round trip). When the server has answered an open request with a body, the client that decodes
  the answer and asks for a page of the file it got is given the page of the very file the kernel
  opened for the path in the request, under the mount point of the peer's own files if the client
  asked for a link; and that file was opened only after the security level of the device had
  been checked and, if the client asked for a shared file, its share.
\<close>

theorem open_then_read:
  assumes "holds lost s" "fresh_open env s" "oe_idr env < 2 ^ 31" "verified F_OPEN cmd data"
    and "hmdfs_server_open env cmd data s = Some ([r], s')" "snd r \<noteq> []"
  shows "\<exists>ret f p ty. open_ret_of (snd r) = Some ret \<and> file_id_idr s' = (nat (oe_idr env), f) # file_id_idr s
    \<and> hmdfs_server_readpage io cmd' (sc_data (readpage_command (or_fid ret) index)) s'
        = Some ([page_answer io cmd' f (unat index) HMDFS_PAGE_SIZE], s')
    \<and> fld open_request ''file_type'' data = Some ty \<and> str_at data (sizeof open_request) p
    \<and> oe_open env (if hm_islnk ty then oe_local_dst env @ p else p) = Inr f
    \<and> \<not> path_contain_dotdot p \<and> check_sec_level env p = 0
    \<and> (hm_isshare ty \<longrightarrow> fst (hmdfs_check_share_access_permission p (oe_cid env) (share_tbl s)) = 0)"
proof -
  from verified_open [OF assms(4)] obtain p ty where p: "fld open_request ''path_len'' data = Some (length p)"
    "fld open_request ''file_type'' data = Some ty" "str_at data (sizeof open_request) p" .
  have "bytes_at data (sizeof open_request) (length p) = Some p" "cstr_at data (sizeof open_request) = Some p" using p(3) by simp_all
  from open_table [OF assms(1,2) p(1,2) this, of cmd] assms(5,6) obtain f info where h: "holds lost s'"
    and i: "0 \<le> oe_idr env" "file_id_idr s' = (nat (oe_idr env), f) # file_id_idr s"
    and c: "oe_open env (if hm_islnk ty then oe_local_dst env @ p else p) = Inr f" "\<not> path_contain_dotdot p" "check_sec_level env p = 0"
      "hm_isshare ty \<longrightarrow> fst (hmdfs_check_share_access_permission p (oe_cid env) (share_tbl s)) = 0"
    and r: "r = hmdfs_sendmessage_response cmd (hmdfs_update_open_response env s' info (nat (oe_idr env))) 0" by auto
  have b: "nat (oe_idr env) < 2 ^ 32" using assms(3) i(1) by simp
  obtain ret where ret: "open_ret_of (snd r) = Some ret"
    "or_fid ret = \<lparr>fid_ver = hmdfs_server_pack_fid_ver s', fid_id = of_nat (nat (oe_idr env))\<rparr>"
    using open_response_fid [OF b, of env s' info] r by (auto simp: hmdfs_sendmessage_response_def)
  have u: "unat (of_nat (nat (oe_idr env)) :: u32) = nat (oe_idr env)" using b by (simp add: unat_of_nat)
  have "fid_file (unat (fid_id (or_fid ret)), fid_ver (or_fid ret)) s' = Inr f"
    by (simp add: ret(2) u fid_file_def i(2))
  with readpage_serves [of s' io cmd' "or_fid ret" index] h
  have "hmdfs_server_readpage io cmd' (sc_data (readpage_command (or_fid ret) index)) s' = Some ([page_answer io cmd' f (unat index) HMDFS_PAGE_SIZE], s')"
    by auto
  with ret(1) i(2) p(2,3) c show ?thesis by blast
qed

section \<open>Lost references and shares\<close>

text \<open>
  C36 (error). A file opened by \<open>hmdfs_server_atomic_open\<close> keeps a reference nobody puts: when the
  answer has been sent, and the connection goes offline, which closes every file of the peer, the
  table is empty and the file still has a reference.
\<close>

theorem atomic_open_leaks:
  assumes "holds lost s" "fresh_open env s" "hmdfs_server_atomic_open env cmd data s = Some ([r], s')" "snd r \<noteq> []"
  shows "\<exists>f s2. file_id_idr s' = (nat (oe_idr env), f) # file_id_idr s \<and> hmdfs_server_offline_notify cid s' = Some s2
    \<and> file_id_idr s2 = [] \<and> f_count s2 f = 1"
proof -
  note def = assms(3) [unfolded hmdfs_server_atomic_open_def Let_def]
  obtain pl where pl: "fld atomic_open_request ''path_len'' data = Some pl" using def by (cases "fld atomic_open_request ''path_len'' data") simp_all
  obtain fl where fl: "fld atomic_open_request ''file_len'' data = Some fl" using def pl by (cases "fld atomic_open_request ''file_len'' data") simp_all
  obtain flags where flags: "fld atomic_open_request ''open_flags'' data = Some flags"
    using def pl fl by (cases "fld atomic_open_request ''open_flags'' data") simp_all
  note def = def [unfolded pl fl flags bind.bind_lunit]
  have ok: "any_dotdot data [(sizeof atomic_open_request, pl), (sizeof atomic_open_request + pl + 1, fl)] = Some False" "oe_alloc env"
    using def assms(4) by (cases "any_dotdot data [(sizeof atomic_open_request, pl), (sizeof atomic_open_request + pl + 1, fl)]", auto split: if_splits)+
  note def = def [unfolded ok bind.bind_lunit]
  obtain path where path: "cstr_at data (sizeof atomic_open_request) = Some path"
    using def ok(2) by (cases "cstr_at data (sizeof atomic_open_request)") simp_all
  obtain name where name: "cstr_at data (sizeof atomic_open_request + pl + 1) = Some name"
    using def ok(2) path by (cases "cstr_at data (sizeof atomic_open_request + pl + 1)") simp_all
  from assms(1,2) show ?thesis
  proof (cases rule: do_atomic_cases [where path = path and name = name and flags = flags])
    case (failed e)
    then have "r = hmdfs_send_err_response cmd e" using def ok(2) path name by simp
    with assms(4) show ?thesis by simp
  next
    case (opened f resp)
    then have f: "s' = with_file f (nat (oe_idr env)) (share_tbl s) s"
      using def ok(2) path name by (cases "oe_send env = 0") (auto simp: bind_eq_Some_conv)
    with opened(2,3) close_with_file(3) [OF assms(1), of f] have "holds (lost(f := 1)) s'" by simp
    from offline_table [OF this, of cid] obtain s2 where s2: "hmdfs_server_offline_notify cid s' = Some s2" "holds (lost(f := 1)) s2" "file_id_idr s2 = []"
      by blast
    then have "f_count s2 f = 1" by (simp add: holds_def entries_def)
    with s2 f show ?thesis by (auto simp: with_file_def)
  qed
qed

text \<open>
  When the attributes of a shared file cannot be read after it has been opened, the server
  closes the file and answers with the error, but leaves the share marked open: its time does not
  run, and the user cannot share the path anew.
\<close>

theorem failed_open_keeps_share:
  assumes "share_reach (share_tbl s)" "find_share p (shares (share_tbl s)) = Some sh" "may_open (oe_cid env) sh"
    and "holds lost s" "fresh_open env s" "verified F_OPEN cmd data" "str_at data (sizeof open_request) p" "fld open_request ''file_type'' data = Some 2"
    and "oe_alloc env" "\<not> path_contain_dotdot p" "check_sec_level env p = 0" "oe_root env = 0" "oe_open env p = Inr f" "0 \<le> oe_idr env"
    and "hmdfs_get_open_info env 2 p = Inl e"
  shows "\<exists>s' sh'. hmdfs_server_open env cmd data s = Some ([hmdfs_send_err_response cmd e], s') \<and> file_id_idr s' = file_id_idr s
    \<and> find_share p (shares (share_tbl s')) = Some sh' \<and> sh_open sh'"
proof -
  obtain q ty where q: "fld open_request ''path_len'' data = Some (length q)" "str_at data (sizeof open_request) q"
    using verified_open [OF assms(6)] by blast
  have "q = p" using q(2) assms(7) unfolding str_at_def by simp
  obtain t where t: "hmdfs_check_share_access_permission p (oe_cid env) (share_tbl s) = (0, t)"
    "shares t = change_share p (\<lambda>s. s\<lparr>sh_open := True\<rparr>) (shares (share_tbl s))"
    using open_refines [OF reach_represents [OF assms(1)], of p "oe_cid env"] assms(2,3)
    by (auto simp: spec_open_def represents_def)
  have fresh: "f_count s f = 0" "nat (oe_idr env) \<notin> fst ` set (file_id_idr s)" using assms(5,13,14) by (simp_all add: fresh_open_def)
  have "hmdfs_open_file env p 2 s = Some (Inr (f, nat (oe_idr env)), with_file f (nat (oe_idr env)) t s)"
    using assms(11-14) t(1) by (simp add: hmdfs_open_file_def hm_isshare_def hm_islnk_def hmdfs_open_path_def insert_file_into_conn_def
        server_get_file_def new_file_def with_file_def)
  with assms(7-10,15) q(1) \<open>q = p\<close> failed_with_file(1) [OF assms(4) fresh, of t]
  have "hmdfs_server_open env cmd data s = Some ([hmdfs_send_err_response cmd e], s\<lparr>share_tbl := t\<rparr>)"
    by (simp add: hmdfs_server_open_def)
  moreover have "find_share p (shares t) = Some (sh\<lparr>sh_open := True\<rparr>)"
    using t(2) assms(2) by (simp add: find_change_share)
  ultimately show ?thesis by auto
qed

section \<open>Examples\<close>

text \<open>The requests a client builds are verified requests.\<close>

lemma client_verified:
  assumes "call_ok call" "file_cmd (command (sc_operations (call_command call))) = Some c"
    and "length (sc_data (call_command call)) + HEAD_SIZE < 2 ^ 32"
  shows "verified c (request_head (call_command call) mid) (sc_data (call_command call))"
proof -
  have h: "head_of (request_head (call_command call) mid) (call_command call)" by (rule request_head_of)
  have "cmd_flag (operations (request_head (call_command call) mid)) = 0"
    using cmd_flag_call [of call] h by (simp add: head_of_def)
  moreover have "length (sc_data (call_command call)) = body_len (request_head (call_command call) mid)"
    using body_len_head_of [OF h assms(3)] by simp
  moreover have "operations (request_head (call_command call) mid) = sc_operations (call_command call)"
    by (simp add: request_head_def)
  ultimately show ?thesis unfolding verified_def call_accepted [OF assms(1) h] using assms(2) by simp
qed

text \<open>A server with the share of \<open>Share_Spec.sample_table\<close>, and a file system that opens every path as file 5.\<close>

definition sample_inode :: server_inode where
  "sample_inode = \<lparr>sn_ino = 12, sn_gen = 1, sn_mode = 33188, sn_ctime = (50, 0), sn_size = 3\<rparr>"

definition sample_env :: "file_sb \<Rightarrow> open_env" where
  "sample_env sb = \<lparr>oe_alloc = True, oe_devsl = 4, oe_local_dst = [47, 109], oe_root = 0, oe_lookup = (\<lambda>_. 0),
     oe_label = (\<lambda>_. (2, [115, 49])), oe_open = (\<lambda>_. Inr 5), oe_idr = 7, oe_sb = sb, oe_inode = sample_inode,
     oe_lower = sample_inode, oe_getattr = (- EIO, sample_inode), oe_dst = (False, sample_inode, sample_inode),
     oe_child = (\<lambda>_ _. Inr Negative), oe_create = 0, oe_truncate = 0, oe_send = 0, oe_now = (100, 0), oe_precision = 1000,
     oe_cid = [55]\<rparr>"

definition sample_server :: server where
  "sample_server = server_start (hmdfs_gen_boot_cookie 1000 3) sample_table"

abbreviation (input) sample_open :: hmdfs_send_command where
  "sample_open \<equiv> open_command [115, 47, 97] 2"

lemma sample_open_verified: "verified F_OPEN (request_head sample_open 9) (sc_data sample_open)"
  using client_verified [of "Open [115, 47, 97] 2" F_OPEN 9] by (simp add: path_ok_def open_command_def send_command_def nul_strings_def layout_simps)

lemma sample_fresh: "fresh_open (sample_env sb) sample_server"
  by (simp add: fresh_open_def sample_env_def sample_server_def server_start_def)


lemma sample_server_boot: "sample_server = server_start (hmdfs_gen_boot_cookie 1000 3) sample_table"
  by (simp add: sample_server_def)

theorem stale_fid_witness:
  "\<exists>s'. hmdfs_server_offline_notify [55] sample_server = Some s'
    \<and> get_file_by_fid_and_ver 7 (hmdfs_server_pack_fid_ver sample_server) s' = (Inl (- EBADF), s')"
proof -
  have h: "holds (\<lambda>_. 0) sample_server" unfolding sample_server_def by (rule holds_start)
  from offline_table [OF h, of "[55]"] obtain s' where s': "hmdfs_server_offline_notify [55] sample_server = Some s'" by blast
  have "file_run 0 (\<lambda>_. 0) (server_start (hmdfs_gen_boot_cookie 1000 3) sample_table) sample_server"
    using file_run.none by (simp add: sample_server_def)
  moreover have "file_run 1 (\<lambda>_. 0) sample_server s'" using file_run.offline [OF file_run.none s'] by simp
  ultimately show ?thesis using stale_fid [of 0 "\<lambda>_. 0" 1000 3 sample_table sample_server 1 "\<lambda>_. 0" s' 7] s' by simp
qed

lemma sample_str: "str_at (sc_data sample_open) (sizeof open_request) [115, 47, 97]"
  using built_one [of "[115, 47, 97]"] by (simp add: open_command_def send_command_def)

lemma open_fields: "field_at open_request ''file_type'' = Some (0, 1)" "field_at open_request ''path_len'' = Some (5, 4)"
  by (simp_all add: layout_simps)

lemma sample_type: "fld open_request ''file_type'' (sc_data sample_open) = Some 2"
  by (simp add: open_command_def send_command_def fld_struct_bytes open_fields)

lemma sample_len: "fld open_request ''path_len'' (sc_data sample_open) = Some 3"
  by (simp add: open_command_def send_command_def fld_struct_bytes open_fields)

lemma sample_path: "\<not> path_contain_dotdot [115, 47, 97]" "check_sec_level (sample_env sb) p = 0"
  by (simp_all add: path_contain_dotdot.simps dotdot_here_def check_sec_level_def sample_env_def parse_data_sec_level_def strncmp_eq_def)

lemma sample_holds: "holds (\<lambda>_. 0) sample_server"
  unfolding sample_server_def by (rule holds_start)

lemma sample_may_open:
  "find_share [115, 47, 97] (shares (share_tbl sample_server)) = Some \<lparr>sh_addr = 16, sh_path = [115, 47, 97], sh_cid = [55],
     sh_file = ss_file sample_source, sh_open = False\<rparr>"
  "share_reach (share_tbl sample_server)"
  using sample_reach by (simp_all add: sample_server_def server_start_def sample_shares find_share_def)

theorem failed_open_keeps_share_witness:
  "\<exists>s' sh'. hmdfs_server_open (sample_env On_other) (request_head sample_open 9) (sc_data sample_open) sample_server
        = Some ([hmdfs_send_err_response (request_head sample_open 9) (- EIO)], s')
    \<and> file_id_idr s' = file_id_idr sample_server
    \<and> find_share [115, 47, 97] (shares (share_tbl s')) = Some sh' \<and> sh_open sh'"
  by (rule failed_open_keeps_share [OF sample_may_open(2,1) _ sample_holds sample_fresh sample_open_verified sample_str sample_type _ sample_path])
     (simp_all add: sample_env_def may_open_def is_dst_device_def strncmp_eq_def hmdfs_get_open_info_def)

lemma open_response_body: "hmdfs_update_open_response env s info i \<noteq> []"
proof -
  have "length (hmdfs_update_open_response env s info i) = sizeof open_response"
    unfolding hmdfs_update_open_response_def Let_def by (rule length_struct_bytes)
  then show ?thesis by (auto simp: layout_simps)
qed

text \<open>The same request where the attributes can be read.\<close>

lemma sample_opened:
  "\<exists>r s'. hmdfs_server_open (sample_env On_lower) (request_head sample_open 9) (sc_data sample_open) sample_server = Some ([r], s') \<and> snd r \<noteq> []"
proof -
  let ?env = "sample_env On_lower" and ?p = "[115, 47, 97]"
  have t: "fst (hmdfs_check_share_access_permission ?p (oe_cid ?env) (share_tbl sample_server)) = 0"
    unfolding open_result [OF sample_may_open(2)] sample_may_open(1)
    by (simp add: may_open_def is_dst_device_def strncmp_eq_def sample_env_def)
  obtain t' where t': "hmdfs_check_share_access_permission ?p (oe_cid ?env) (share_tbl sample_server) = (0, t')"
    using t by (metis prod.collapse)
  have "hmdfs_open_file ?env ?p 2 sample_server = Some (Inr (5, 7), with_file 5 7 t' sample_server)"
    using t' sample_path(2) [of On_lower ?p]
    by (simp add: hmdfs_open_file_def hm_isshare_def hm_islnk_def hmdfs_open_path_def insert_file_into_conn_def
        server_get_file_def new_file_def with_file_def sample_env_def)
  moreover have "hmdfs_get_open_info ?env 2 ?p = Inr \<lparr>oi_ino = generate_u64_ino 12 1, oi_ctime = (50, 0), oi_size = 3\<rparr>"
    by (simp add: hmdfs_get_open_info_def sample_env_def sample_inode_def hm_islnk_def)
  moreover have "f_count sample_server 5 = 0" "7 \<notin> fst ` set (file_id_idr sample_server)"
    by (simp_all add: sample_server_def server_start_def)
  note c = close_with_file(1) [OF sample_holds this, of t']
  have e: "oe_alloc ?env" "oe_send ?env = 0" by (simp_all add: sample_env_def)
  have b: "bytes_at (sc_data sample_open) (sizeof open_request) 3 = Some ?p" "cstr_at (sc_data sample_open) (sizeof open_request) = Some ?p"
    using bytes_at_str [OF sample_str] cstr_at_str [OF sample_str] by (simp_all add: numeral_3_eq_3)
  have "any_dotdot (sc_data sample_open) [(sizeof open_request, 3)] = Some False" using b(1) sample_path(1) by simp
  ultimately show ?thesis
    unfolding hmdfs_server_open_def sample_type sample_len b
    by (simp add: e c hmdfs_sendmessage_response_def open_response_body del: any_dotdot.simps)
qed

theorem open_then_read_witness:
  "\<exists>r s' ret f. hmdfs_server_open (sample_env On_lower) (request_head sample_open 9) (sc_data sample_open) sample_server = Some ([r], s')
    \<and> open_ret_of (snd r) = Some ret \<and> map_of (file_id_idr s') 7 = Some f
    \<and> (\<forall>io cmd'. \<exists>a. hmdfs_server_readpage io cmd' (sc_data (readpage_command (or_fid ret) 0)) s' = Some ([a], s'))"
proof -
  obtain r s' where o: "hmdfs_server_open (sample_env On_lower) (request_head sample_open 9) (sc_data sample_open) sample_server = Some ([r], s')" "snd r \<noteq> []"
    using sample_opened by blast
  have i: "oe_idr (sample_env On_lower) < 2 ^ 31" "nat (oe_idr (sample_env On_lower)) = 7" by (simp_all add: sample_env_def)
  note t = open_then_read [OF sample_holds sample_fresh i(1) sample_open_verified o, unfolded i(2)]
  obtain ret f where r: "open_ret_of (snd r) = Some ret" "file_id_idr s' = (7, f) # file_id_idr sample_server"
    using t [of undefined undefined 0] by blast
  have "\<exists>a. hmdfs_server_readpage io cmd' (sc_data (readpage_command (or_fid ret) 0)) s' = Some ([a], s')" for io cmd'
    using t [of io cmd' 0] r(1) by auto
  with o(1) r show ?thesis by fastforce
qed

text \<open>Creating and opening \<open>b\<close> in the directory \<open>/a\<close>.\<close>

definition sample_atomic :: "byte list" where
  "sample_atomic = struct_bytes atomic_open_request [(''path_len'', 2), (''file_len'', 1)] @ nul_strings [[47, 97], [98]]"

lemma sample_atomic_opened:
  "\<exists>r s'. hmdfs_server_atomic_open (sample_env On_lower) cmd sample_atomic sample_server = Some ([r], s') \<and> snd r \<noteq> []"
proof -
  let ?env = "sample_env On_lower"
  have at: "field_at atomic_open_request ''open_flags'' = Some (0, 4)" "field_at atomic_open_request ''path_len'' = Some (8, 4)"
    "field_at atomic_open_request ''file_len'' = Some (12, 4)" by (simp_all add: layout_simps)
  have f: "fld atomic_open_request ''path_len'' sample_atomic = Some 2" "fld atomic_open_request ''file_len'' sample_atomic = Some 1"
    "fld atomic_open_request ''open_flags'' sample_atomic = Some 0"
    by (simp_all add: sample_atomic_def fld_struct_bytes at)
  have "str_at sample_atomic (sizeof atomic_open_request) [47, 97]"
    "str_at sample_atomic (sizeof atomic_open_request + length [47, 97 :: byte] + 1) [98]"
    unfolding sample_atomic_def by (rule built_two; simp)+
  from bytes_at_str [OF this(1)] bytes_at_str [OF this(2)] cstr_at_str [OF this(1)] cstr_at_str [OF this(2)]
  have st: "bytes_at sample_atomic (sizeof atomic_open_request) 2 = Some [47, 97]"
    "bytes_at sample_atomic (sizeof atomic_open_request + 2 + 1) 1 = Some [98]"
    "cstr_at sample_atomic (sizeof atomic_open_request) = Some [47, 97]" "cstr_at sample_atomic (sizeof atomic_open_request + 2 + 1) = Some [98]"
    by (simp_all add: numeral_2_eq_2)
  have dd: "any_dotdot sample_atomic [(sizeof atomic_open_request, 2), (sizeof atomic_open_request + 2 + 1, 1)] = Some False"
    unfolding any_dotdot.simps st by (simp add: path_contain_dotdot.simps dotdot_here_def)
  obtain resp where "hmdfs_server_do_atomic_open ?env [47, 97] [98] 0 sample_server = Some (Inr (5, 7, resp), with_file 5 7 (share_tbl sample_server) sample_server)"
    "length resp = sizeof atomic_open_response"
    by (simp add: hmdfs_server_do_atomic_open_def hmdfs_lookup_create_def hmdfs_check_and_create_def hmdfs_dentry_open_def
        hmdfs_get_open_info_def hm_islnk_def insert_file_into_conn_def server_get_file_def new_file_def with_file_def sample_env_def)
  moreover have "oe_alloc ?env" "oe_send ?env = 0" by (simp_all add: sample_env_def)
  moreover have "0 < sizeof atomic_open_response" by (simp add: layout_simps)
  ultimately show ?thesis
    unfolding hmdfs_server_atomic_open_def Let_def f bind.bind_lunit dd st
    by (auto simp: hmdfs_sendmessage_response_def)
qed

theorem atomic_open_leaks_witness:
  "\<exists>r s' f s2. hmdfs_server_atomic_open (sample_env On_lower) (request_head sample_open 9) sample_atomic sample_server = Some ([r], s')
    \<and> hmdfs_server_offline_notify [55] s' = Some s2 \<and> file_id_idr s2 = [] \<and> f_count s2 f = 1"
proof -
  obtain r s' where o: "hmdfs_server_atomic_open (sample_env On_lower) (request_head sample_open 9) sample_atomic sample_server = Some ([r], s')" "snd r \<noteq> []"
    using sample_atomic_opened by blast
  from atomic_open_leaks [OF sample_holds sample_fresh o, of "[55]"] o(1) show ?thesis by blast
qed

end
