(* ===== verification/Stash_File.thy ===== *)
theory Stash_File
  imports Hmdfs_Prelude
begin

text \<open>
  The stash file of an inode (\<open>stash.c\<close>, \<open>inode.h\<close>): while a peer is
  offline, the dirty pages of a file that was open for writing go to a local
  file, behind a head and the path of the remote file. This theory has the layout
  of the file, the writing of pages and metadata, and the reading of the metadata
  when the peer is back.

  The lower file system is modelled by the content of a file and by the set of its
  4096-byte blocks that were written; every result of \<open>kernel_write\<close>,
  \<open>kernel_read\<close>, \<open>vfs_fsync\<close> and of the name operations is an argument. The
  checksum \<open>crc32\<close> of the kernel is a parameter.
\<close>

section \<open>Layout\<close>

definition HMDFS_STASH_FILE_HEAD_MAGIC :: nat where "HMDFS_STASH_FILE_HEAD_MAGIC = 0xF7AB06C3"

abbreviation (input) HMDFS_STASH_BLK_SIZE :: nat where "HMDFS_STASH_BLK_SIZE \<equiv> 4096"
abbreviation (input) HMDFS_STASH_BLK_SHIFT :: nat where "HMDFS_STASH_BLK_SHIFT \<equiv> 12"
abbreviation (input) HMDFS_STASH_PAGE_TO_SECTOR_SHIFT :: nat where "HMDFS_STASH_PAGE_TO_SECTOR_SHIFT \<equiv> 3"

definition hmdfs_cache_file_head :: layout where
  "hmdfs_cache_file_head =
     [(''magic'', 4), (''crc_offset'', 4), (''ino'', 8), (''size'', 8), (''blocks'', 8),
      (''last_write_pos'', 8), (''ctime'', 8), (''ctime_nsec'', 4), (''change_detect_cap'', 4),
      (''ichange_count'', 8), (''path_offs'', 4), (''path_len'', 4), (''path_cnt'', 4),
      (''data_offs'', 4), (''crc32'', 4)]"

abbreviation (input) head_size :: nat where "head_size \<equiv> 84"
abbreviation (input) head_crc_offset :: nat where "head_crc_offset \<equiv> 80"

text \<open>A file below: its content and the blocks that were written; the others are holes.\<close>

record lower_file =
  f_data :: "byte list"
  f_blks :: "nat set"

definition new_lower_file :: lower_file where "new_lower_file = \<lparr>f_data = [], f_blks = {}\<rparr>"

text \<open>
  \<open>kernel_write\<close> of \<open>bs\<close> at \<open>pos\<close> that returns \<open>ret\<close>: a negative result
  writes nothing, a short one a prefix.
\<close>

definition kernel_write :: "lower_file \<Rightarrow> byte list \<Rightarrow> nat \<Rightarrow> int \<Rightarrow> lower_file" where
  "kernel_write f bs pos ret =
     (let b = take (nat ret) bs in
      if b = [] then f
      else f\<lparr>f_data := write_at (f_data f) pos b,
             f_blks := f_blks f \<union> {pos div 4096 .. (pos + length b - 1) div 4096}\<rparr>)"

record hmdfs_cache_info =
  c_path_offs :: u32
  c_path_len :: u32
  c_path_cnt :: u32
  c_path :: "byte list"
  c_data_offs :: u32
  to_write_pgs :: nat
  written_pgs :: nat
  cache_file :: lower_file

section \<open>Creating the stash file\<close>

datatype lookup_result = Lookup_Error int | Negative | Directory | Regular | Other_File

text \<open>The result is the error or 0; the directory exists afterwards exactly when it is 0.\<close>

definition hmdfs_do_vfs_mkdir :: "lookup_result \<Rightarrow> int \<Rightarrow> int" where
  "hmdfs_do_vfs_mkdir child mkdir_ret =
     (case child of
        Lookup_Error e \<Rightarrow> e
      | Directory \<Rightarrow> 0
      | Regular \<Rightarrow> - EINVAL
      | Other_File \<Rightarrow> - EINVAL
      | Negative \<Rightarrow> mkdir_ret)"

definition hmdfs_stash_new_work_dir :: "lookup_result \<Rightarrow> int \<Rightarrow> lookup_result \<Rightarrow> int \<Rightarrow> int" where
  "hmdfs_stash_new_work_dir base base_ret work work_ret =
     (let e = hmdfs_do_vfs_mkdir base base_ret in
      if e \<noteq> 0 then e else hmdfs_do_vfs_mkdir work work_ret)"

definition hmdfs_new_stash_file :: "lookup_result \<Rightarrow> int \<Rightarrow> int \<Rightarrow> int + lower_file" where
  "hmdfs_new_stash_file parent mkdir_ret open_ret =
     (let e = hmdfs_do_vfs_mkdir parent mkdir_ret in
      if e \<noteq> 0 then Inl e
      else if open_ret \<noteq> 0 then Inl open_ret
      else Inr new_lower_file)"

text \<open>
  The environment of \<open>hmdfs_new_file_cache\<close>: the two allocations, the path of an
  alias of the inode (none when the dentry is gone, an error when the path does
  not fit), the stash directory and the temporary file.
\<close>

record cache_env =
  a_cache :: bool
  a_buf :: bool
  d_alias :: "(int + byte list) option"
  d_parent :: lookup_result
  d_mkdir :: int
  d_open :: int

definition hmdfs_new_file_cache :: "cache_env \<Rightarrow> int + hmdfs_cache_info" where
  "hmdfs_new_file_cache env =
     (if \<not> a_cache env then Inl (- ENOMEM)
      else if \<not> a_buf env then Inl (- ENOMEM)
      else (case (case d_alias env of None \<Rightarrow> Inr [] | Some p \<Rightarrow> p) of
          Inl e \<Rightarrow> Inl e
        | Inr path \<Rightarrow>
            (let len = length path + 1;
                 path_offs = (head_size + 4095) div HMDFS_STASH_BLK_SIZE;
                 data_offs = path_offs + (len + 4095) div HMDFS_STASH_BLK_SIZE
             in (case hmdfs_new_stash_file (d_parent env) (d_mkdir env) (d_open env) of
                   Inl e \<Rightarrow> Inl e
                 | Inr f \<Rightarrow> Inr \<lparr>c_path_offs = of_nat path_offs, c_path_len = of_nat len, c_path_cnt = 1,
                     c_path = path, c_data_offs = of_nat data_offs, to_write_pgs = 0, written_pgs = 0,
                     cache_file = f\<rparr>))))"

section \<open>Writing a page\<close>

record hmdfs_writepage_context =
  pg_index :: nat
  pg_data :: "byte list"
  pg_count :: nat

text \<open>The position of the data is shifted as a 32-bit number before it is added.\<close>

definition hmdfs_stash_write_local_file ::
  "hmdfs_writepage_context \<Rightarrow> int \<Rightarrow> hmdfs_cache_info \<Rightarrow> int \<times> hmdfs_cache_info" where
  "hmdfs_stash_write_local_file ctx written cache =
     (let pos = pg_index ctx * 4096 + unat (push_bit HMDFS_STASH_BLK_SHIFT (c_data_offs cache));
          f = kernel_write (cache_file cache) (take (pg_count ctx) (pg_data ctx)) pos written
      in (if written \<noteq> int (pg_count ctx) then - EIO else 0, cache\<lparr>cache_file := f\<rparr>))"

definition hmdfs_stash_writepage ::
  "hmdfs_writepage_context \<Rightarrow> int \<Rightarrow> hmdfs_cache_info option \<Rightarrow> int \<times> hmdfs_cache_info option" where
  "hmdfs_stash_writepage ctx written cache =
     (case cache of
        None \<Rightarrow> (- EIO, None)
      | Some c \<Rightarrow>
          (case hmdfs_stash_write_local_file ctx written c of
             (err, c1) \<Rightarrow>
               (let c2 = (if err = 0 then c1\<lparr>written_pgs := written_pgs c1 + 1\<rparr> else c1)
                in (err, Some (c2\<lparr>to_write_pgs := to_write_pgs c2 + 1\<rparr>)))))"

section \<open>Metadata\<close>

definition stash_head_fields :: "hmdfs_cache_info \<Rightarrow> nat \<Rightarrow> (string \<times> nat) list" where
  "stash_head_fields cache ino =
     [(''magic'', HMDFS_STASH_FILE_HEAD_MAGIC), (''ino'', ino),
      (''size'', length (f_data (cache_file cache))),
      (''blocks'', written_pgs cache * 2 ^ HMDFS_STASH_PAGE_TO_SECTOR_SHIFT),
      (''path_offs'', unat (c_path_offs cache)), (''path_len'', unat (c_path_len cache)),
      (''path_cnt'', unat (c_path_cnt cache)), (''data_offs'', unat (c_data_offs cache)),
      (''crc_offset'', head_crc_offset)]"

definition hmdfs_set_stash_file_head :: "(byte list \<Rightarrow> u32) \<Rightarrow> hmdfs_cache_info \<Rightarrow> nat \<Rightarrow> byte list" where
  "hmdfs_set_stash_file_head crc32 cache ino =
     (let vals = stash_head_fields cache ino;
          head = struct_bytes hmdfs_cache_file_head vals
      in struct_bytes hmdfs_cache_file_head
           (vals @ [(''crc32'', unat (crc32 (take head_crc_offset head)))]))"

definition hmdfs_flush_stash_file_metadata ::
  "(byte list \<Rightarrow> u32) \<Rightarrow> nat \<Rightarrow> int \<Rightarrow> int \<Rightarrow> hmdfs_cache_info option \<Rightarrow> int \<times> hmdfs_cache_info option" where
  "hmdfs_flush_stash_file_metadata crc32 ino wr_head wr_path cache =
     (case cache of
        None \<Rightarrow> (- EINVAL, None)
      | Some c \<Rightarrow>
          if c_path c = [] then (if to_write_pgs c = 0 then 0 else - EINVAL, Some c)
          else
            (let c1 = c\<lparr>cache_file := kernel_write (cache_file c) (hmdfs_set_stash_file_head crc32 c ino) 0 wr_head\<rparr>
             in if wr_head \<noteq> int head_size then (- EIO, Some c1)
                else
                  (let c2 = c1\<lparr>cache_file := kernel_write (cache_file c1) (take (unat (c_path_len c)) (c_path c @ [0]))
                                (unat (c_path_offs c) * 4096) wr_path\<rparr>
                   in (if wr_path \<noteq> int (unat (c_path_len c)) then - EIO else 0, Some c2))))"

text \<open>
  \<open>filemap_write_and_wait\<close> calls \<open>hmdfs_stash_writepage\<close> for the dirty pages of
  the mapping; a pass is the list of these calls, each with the result of its
  \<open>kernel_write\<close>, and the result of the pass.
\<close>

type_synonym flush_pass = "(hmdfs_writepage_context \<times> int) list \<times> int"

fun stash_pages :: "(hmdfs_writepage_context \<times> int) list \<Rightarrow> hmdfs_cache_info option \<Rightarrow> hmdfs_cache_info option" where
  "stash_pages [] cache = cache"
| "stash_pages ((ctx, w) # ps) cache = stash_pages ps (snd (hmdfs_stash_writepage ctx w cache))"

fun flush_passes :: "flush_pass list \<Rightarrow> hmdfs_cache_info option \<Rightarrow> int \<times> hmdfs_cache_info option" where
  "flush_passes [] cache = (0, cache)"
| "flush_passes ((ps, err) # more_passes) cache =
     (let c = stash_pages ps cache in if err \<noteq> 0 then (err, c) else flush_passes more_passes c)"

definition hmdfs_flush_stash_file_data ::
  "bool \<Rightarrow> flush_pass \<Rightarrow> flush_pass \<Rightarrow> hmdfs_cache_info option \<Rightarrow> int \<times> hmdfs_cache_info option" where
  "hmdfs_flush_stash_file_data all_clean pass1 pass2 cache =
     (if all_clean then (0, cache) else flush_passes [pass1, pass2] cache)"

record flush_env =
  fl_clean :: bool
  fl_pass1 :: flush_pass
  fl_pass2 :: flush_pass
  fl_head :: int
  fl_path :: int

definition hmdfs_flush_stash_file ::
  "(byte list \<Rightarrow> u32) \<Rightarrow> nat \<Rightarrow> flush_env \<Rightarrow> hmdfs_cache_info option \<Rightarrow> int \<times> hmdfs_cache_info option" where
  "hmdfs_flush_stash_file crc32 ino env cache =
     (case hmdfs_flush_stash_file_data (fl_clean env) (fl_pass1 env) (fl_pass2 env) cache of
        (err, c) \<Rightarrow> if err \<noteq> 0 then (err, c)
                    else hmdfs_flush_stash_file_metadata crc32 ino (fl_head env) (fl_path env) c)"

section \<open>The directory of stash files\<close>

text \<open>The names of the directory of a peer are \<open>0x%llx\<close> of the inode numbers.\<close>

fun hex_digits :: "nat \<Rightarrow> nat \<Rightarrow> byte list" where
  "hex_digits 0 n = []"
| "hex_digits (Suc k) n =
     (if n < 16 then [] else hex_digits k (n div 16)) @ [of_nat (if n mod 16 < 10 then 48 + n mod 16 else 87 + n mod 16)]"

definition stash_file_name :: "u64 \<Rightarrow> byte list" where
  "stash_file_name ino = [48, 120] @ hex_digits 16 (unat ino)"

type_synonym stash_dir = "byte list \<rightharpoonup> lower_file"

record link_env =
  ln_lookup :: "bool \<Rightarrow> int"
  ln_unlink :: int
  ln_link :: int

text \<open>From the label \<open>lookup_again\<close>; the flag is \<open>retried\<close>.\<close>

function lookup_again :: "link_env \<Rightarrow> byte list \<Rightarrow> lower_file \<Rightarrow> bool \<Rightarrow> stash_dir \<Rightarrow> int \<times> stash_dir" where
  "lookup_again env name f retried dir =
     (if ln_lookup env retried \<noteq> 0 then (ln_lookup env retried, dir)
      else if dir name \<noteq> None then
        (if ln_unlink env \<noteq> 0 then (ln_unlink env, dir)
         else if retried then (- EEXIST, dir(name := None))
         else lookup_again env name f True (dir(name := None)))
      else if ln_link env \<noteq> 0 then (ln_link env, dir)
      else (0, dir(name \<mapsto> f)))"
  by pat_completeness auto

termination
  by (relation "measure (\<lambda>(env, name, f, retried, dir). if retried then 0 else 1)") simp_all

declare lookup_again.simps [simp del]

definition hmdfs_enable_stash_file :: "link_env \<Rightarrow> u64 \<Rightarrow> lower_file \<Rightarrow> stash_dir \<Rightarrow> int \<times> stash_dir" where
  "hmdfs_enable_stash_file env ino f dir = lookup_again env (stash_file_name ino) f False dir"

definition hmdfs_close_stash_file ::
  "link_env \<Rightarrow> int \<Rightarrow> u64 \<Rightarrow> hmdfs_cache_info \<Rightarrow> stash_dir \<Rightarrow> int \<times> stash_dir" where
  "hmdfs_close_stash_file env fsync_ret ino cache dir =
     (if to_write_pgs cache = 0 then (0, dir)
      else if fsync_ret \<noteq> 0 then (if fsync_ret < 0 then fsync_ret else 1, dir)
      else (case hmdfs_enable_stash_file env ino (cache_file cache) dir of
              (err, dir1) \<Rightarrow> (if err < 0 then err else 1, dir1)))"

end
