(* ===== verification/Stash_Copy.thy ===== *)
theory Stash_Copy
  imports Stash_File
begin

text \<open>
  Restoring one stash file (\<open>stash.c\<close>): the check of its head, the path of the
  remote file, and the loop that seeks the data of the file and copies it page by
  page to the remote file. The loop calls \<open>vfs_llseek\<close> with \<open>SEEK_DATA\<close>, a
  function of the lower file system, which is an argument; the loop is a
  \<open>partial_function\<close> because it ends only when seeking makes progress.
\<close>

section \<open>Metadata\<close>

text \<open>
  \<open>kernel_read\<close>: a negative limit is the error it returns, another one bounds
  the number of bytes; a read past the end of the file is short.
\<close>

definition kernel_read :: "lower_file \<Rightarrow> nat \<Rightarrow> nat \<Rightarrow> int \<Rightarrow> int + byte list" where
  "kernel_read f pos len lim =
     (if lim < 0 then Inl lim else Inr (take (nat lim) (take len (drop pos (f_data f)))))"

text \<open>A read of exactly \<open>len\<close> bytes, with the error the callers make of a short one.\<close>

definition read_exact :: "lower_file \<Rightarrow> nat \<Rightarrow> nat \<Rightarrow> int \<Rightarrow> int + byte list" where
  "read_exact f pos len lim =
     (case kernel_read f pos len lim of
        Inl e \<Rightarrow> Inl e
      | Inr bs \<Rightarrow> if length bs = len then Inr bs else Inl (- ENODATA))"

record hmdfs_file_restore_ctx =
  r_inum :: u64
  r_src :: lower_file
  r_seq :: u32
  r_dst :: "byte list"
  r_pages :: nat
  r_data_offs :: nat
  r_keep :: bool

definition hmdfs_is_node_offlined :: "u32 \<Rightarrow> u32 \<Rightarrow> bool" where
  "hmdfs_is_node_offlined evt_seq seq \<longleftrightarrow> evt_seq \<noteq> seq"

text \<open>\<open>None\<close> is a read outside the head.\<close>

definition hmdfs_verify_restore_file_head ::
  "(byte list \<Rightarrow> u32) \<Rightarrow> hmdfs_file_restore_ctx \<Rightarrow> byte list \<Rightarrow> int option" where
  "hmdfs_verify_restore_file_head crc32 ctx head = do {
     magic \<leftarrow> fld hmdfs_cache_file_head ''magic'' head;
     crc_offset \<leftarrow> fld hmdfs_cache_file_head ''crc_offset'' head;
     if magic \<noteq> HMDFS_STASH_FILE_HEAD_MAGIC then Some (- EUCLEAN)
     else do {
       read_crc \<leftarrow> rd_le head crc_offset 4;
       ino \<leftarrow> fld hmdfs_cache_file_head ''ino'' head;
       po \<leftarrow> fld hmdfs_cache_file_head ''path_offs'' head;
       doffs \<leftarrow> fld hmdfs_cache_file_head ''data_offs'' head;
       isize \<leftarrow> fld hmdfs_cache_file_head ''size'' head;
       path_cnt \<leftarrow> fld hmdfs_cache_file_head ''path_cnt'' head;
       let i_size = length (f_data (r_src ctx));
           path_offs = po * 2 ^ HMDFS_STASH_BLK_SHIFT;
           data_offs = doffs * 2 ^ HMDFS_STASH_BLK_SHIFT
       in if read_crc \<noteq> unat (crc32 (take crc_offset head)) then Some (- EUCLEAN)
          else if ino \<noteq> unat (r_inum ctx) then Some (- EUCLEAN)
          else if path_offs \<le> 0 \<or> path_offs \<ge> i_size then Some (- EUCLEAN)
          else if path_offs \<ge> data_offs then Some (- EUCLEAN)
          else if data_offs \<le> 0 \<or> data_offs \<ge> i_size then Some (- EUCLEAN)
          else if isize \<noteq> i_size then Some (- EUCLEAN)
          else if path_cnt < 1 then Some (- EUCLEAN)
          else Some 0 } }"

text \<open>
  The head is a local structure cleared first; what is read lands at its start.
  The three numbers are the limits of the three reads.
\<close>

definition hmdfs_get_restore_file_metadata ::
  "(byte list \<Rightarrow> u32) \<Rightarrow> int \<times> int \<times> int \<Rightarrow> hmdfs_file_restore_ctx \<Rightarrow> (int \<times> hmdfs_file_restore_ctx) option" where
  "hmdfs_get_restore_file_metadata crc32 lims ctx =
     (case lims of (l1, l2, l3) \<Rightarrow>
      (case read_exact (r_src ctx) 0 8 l1 of
         Inl e \<Rightarrow> Some (e, ctx)
       | Inr part \<Rightarrow> do {
           crc_offset \<leftarrow> fld hmdfs_cache_file_head ''crc_offset'' (part @ replicate (head_size - 8) 0);
           if crc_offset + 4 > head_size then Some (- EUCLEAN, ctx)
           else (case read_exact (r_src ctx) 0 (crc_offset + 4) l2 of
               Inl e \<Rightarrow> Some (e, ctx)
             | Inr full \<Rightarrow> do {
                 let head = full @ drop (length full) (part @ replicate (head_size - 8) 0);
                 err \<leftarrow> hmdfs_verify_restore_file_head crc32 ctx head;
                 if err \<noteq> 0 then Some (err, ctx)
                 else do {
                   blocks \<leftarrow> fld hmdfs_cache_file_head ''blocks'' head;
                   data_offs \<leftarrow> fld hmdfs_cache_file_head ''data_offs'' head;
                   path_len \<leftarrow> fld hmdfs_cache_file_head ''path_len'' head;
                   path_offs \<leftarrow> fld hmdfs_cache_file_head ''path_offs'' head;
                   let ctx1 = ctx\<lparr>r_pages := blocks div 2 ^ HMDFS_STASH_PAGE_TO_SECTOR_SHIFT, r_data_offs := data_offs\<rparr>;
                       read_size = min path_len PATH_MAX
                   in (case read_exact (r_src ctx) (path_offs * 2 ^ HMDFS_STASH_BLK_SHIFT) read_size l3 of
                         Inl e \<Rightarrow> Some (e, ctx1)
                       | Inr dst \<Rightarrow> do {
                           n \<leftarrow> cstrnlen dst read_size;
                           if n \<ge> read_size then Some (- EUCLEAN, ctx1\<lparr>r_dst := dst\<rparr>)
                           else Some (0, ctx1\<lparr>r_dst := dst\<rparr>) }) } }) }))"

section \<open>Copying\<close>

text \<open>
  The environment of the copy: \<open>vfs_llseek\<close> with \<open>SEEK_DATA\<close>, the limit of the
  read at a position, the result of the write of some bytes at a position, the
  event sequence number of the peer when it is read after a failed write, the
  result of \<open>vfs_fsync\<close> with the sequence number read after it, and what
  \<open>truncate_inode_pages\<close> leaves of the destination after an error.
\<close>

record copy_env =
  seek_data :: "nat \<Rightarrow> int"
  read_lim :: "nat \<Rightarrow> int"
  write_ret :: "int \<Rightarrow> nat \<Rightarrow> int"
  seq_after :: "int \<Rightarrow> u32"
  fsync_ret :: int
  fsync_seq :: u32
  drop_pages :: "byte list \<Rightarrow> byte list \<Rightarrow> byte list"

definition hmdfs_write_dst :: "byte list \<Rightarrow> byte list \<Rightarrow> int \<Rightarrow> int \<Rightarrow> int \<times> byte list" where
  "hmdfs_write_dst dst buf pos wr =
     (if wr \<noteq> int (length buf) then (if wr < 0 then wr else - EFAULT) else 0,
      write_at dst (nat pos) (take (nat wr) buf))"

text \<open>The result, \<open>copied\<close>, \<open>eof\<close> and the destination.\<close>

definition hmdfs_rd_src_wr_dst ::
  "copy_env \<Rightarrow> u32 \<Rightarrow> lower_file \<Rightarrow> nat \<Rightarrow> int \<Rightarrow> byte list \<Rightarrow> int \<times> nat \<times> bool \<times> byte list" where
  "hmdfs_rd_src_wr_dst env seq src src_pos dst_pos dst =
     (case kernel_read src src_pos PAGE_SIZE (read_lim env src_pos) of
        Inl e \<Rightarrow> (e, 0, False, dst)
      | Inr buf \<Rightarrow>
          if buf = [] then (0, 0, True, dst)
          else (case hmdfs_write_dst dst buf dst_pos (write_ret env dst_pos (length buf)) of
                  (err, dst1) \<Rightarrow>
                    if err = 0 then (0, length buf, False, dst1)
                    else (if hmdfs_is_node_offlined (seq_after env dst_pos) seq then - ESHUTDOWN else err, 0, False, dst1)))"

partial_function (option) copy_loop ::
  "copy_env \<Rightarrow> u32 \<Rightarrow> lower_file \<Rightarrow> nat \<Rightarrow> nat \<Rightarrow> byte list \<Rightarrow> (int \<times> byte list) option" where
  "copy_loop env seq src data_init_pos seek_pos dst =
     (let data_pos = seek_data env seek_pos in
      if data_pos > int seek_pos then copy_loop env seq src data_init_pos (nat data_pos) dst
      else if data_pos < 0 then Some (if data_pos = - ENXIO then 0 else data_pos, dst)
      else (case hmdfs_rd_src_wr_dst env seq src (nat data_pos) (data_pos - int data_init_pos) dst of
              (err, copied, eof, dst1) \<Rightarrow>
                if err \<noteq> 0 \<or> eof then Some (err, dst1)
                else if seek_pos + copied \<ge> length (f_data src) then Some (0, dst1)
                else copy_loop env seq src data_init_pos (seek_pos + copied) dst1))"

definition hmdfs_copy_src_to_dst ::
  "copy_env \<Rightarrow> u32 \<Rightarrow> lower_file \<Rightarrow> nat \<Rightarrow> byte list \<Rightarrow> (int \<times> byte list) option" where
  "hmdfs_copy_src_to_dst env seq src data_offs dst =
     copy_loop env seq src (data_offs * 2 ^ HMDFS_STASH_BLK_SHIFT) (data_offs * 2 ^ HMDFS_STASH_BLK_SHIFT) dst"

definition hmdfs_restore_src_to_dst ::
  "copy_env \<Rightarrow> hmdfs_file_restore_ctx \<Rightarrow> byte list \<Rightarrow> (int \<times> byte list) option" where
  "hmdfs_restore_src_to_dst env ctx dst = do {
     (err, dst1) \<leftarrow> hmdfs_copy_src_to_dst env (r_seq ctx) (r_src ctx) (r_data_offs ctx) dst;
     let err1 = (if err \<noteq> 0 then err
                 else if fsync_ret env \<noteq> 0 then
                   (if hmdfs_is_node_offlined (fsync_seq env) (r_seq ctx) then - ESHUTDOWN else fsync_ret env)
                 else 0)
     in Some (err1, if err1 \<noteq> 0 then drop_pages env dst dst1 else dst1) }"

section \<open>Reading any stash file stays inside its buffers\<close>

lemma cstrnlen_within: "n \<le> length m \<Longrightarrow> \<exists>k. cstrnlen m n = Some k"
  by (induction m n rule: cstrnlen.induct) auto

lemma sizeof_stash_head [layout_simps]: "sizeof hmdfs_cache_file_head = 84"
  by (simp add: hmdfs_cache_file_head_def)

lemma stash_head_field:
  "f \<in> {''magic'', ''crc_offset'', ''ino'', ''size'', ''blocks'', ''path_offs'', ''path_len'', ''path_cnt'', ''data_offs''}
   \<Longrightarrow> length head = 84 \<Longrightarrow> \<exists>v. fld hmdfs_cache_file_head f head = Some v"
  by (rule fld_total) (auto simp: hmdfs_cache_file_head_def)

lemma verify_head_total:
  assumes "length head = 84" and "fld hmdfs_cache_file_head ''crc_offset'' head = Some off" and "off + 4 \<le> 84"
  shows "\<exists>e. hmdfs_verify_restore_file_head crc32 ctx head = Some e"
proof -
  note f = stash_head_field [OF _ assms(1)]
  obtain magic ino po dof isz pc where
    "fld hmdfs_cache_file_head ''magic'' head = Some magic" "fld hmdfs_cache_file_head ''ino'' head = Some ino"
    "fld hmdfs_cache_file_head ''path_offs'' head = Some po" "fld hmdfs_cache_file_head ''data_offs'' head = Some dof"
    "fld hmdfs_cache_file_head ''size'' head = Some isz" "fld hmdfs_cache_file_head ''path_cnt'' head = Some pc"
    using f by (metis insertCI)
  moreover have "rd_le head off 4 = Some (le_val (take 4 (drop off head)))"
    using assms(1,3) by (simp add: rd_le_Some)
  ultimately show ?thesis using assms(2) by (simp add: hmdfs_verify_restore_file_head_def Let_def)
qed

lemma read_exact_Inr: "read_exact f pos len lim = Inr bs \<Longrightarrow> bs = take len (drop pos (f_data f)) \<and> length bs = len"
  by (auto simp: read_exact_def kernel_read_def min_def split: if_splits)

lemma fld_crc_offset_take:
  "take 8 h = take 8 h' \<Longrightarrow> 8 \<le> length h \<Longrightarrow> 8 \<le> length h' \<Longrightarrow>
     fld hmdfs_cache_file_head ''crc_offset'' h = fld hmdfs_cache_file_head ''crc_offset'' h'"
  by (simp add: fld_def hmdfs_cache_file_head_def rd_le_def) (metis numeral_Bit0 take_drop)

text \<open>The second read of the head finds the \<open>crc_offset\<close> the first one has found.\<close>

lemma full_head:
  assumes "read_exact f 0 8 l1 = Inr part" and "read_exact f 0 (off + 4) l2 = Inr full" and "off + 4 \<le> 84"
  shows "length (full @ drop (length full) (part @ replicate (84 - 8) 0)) = 84"
    and "fld hmdfs_cache_file_head ''crc_offset'' (full @ drop (length full) (part @ replicate (84 - 8) 0)) =
         fld hmdfs_cache_file_head ''crc_offset'' (part @ replicate (84 - 8) 0)"
proof -
  have p: "part = take 8 (f_data f)" "length part = 8" using read_exact_Inr [OF assms(1)] by auto
  have u: "full = take (off + 4) (f_data f)" "length full = off + 4" using read_exact_Inr [OF assms(2)] by auto
  show l: "length (full @ drop (length full) (part @ replicate (84 - 8) 0)) = 84" using p u assms(3) by auto
  have "take 8 (full @ drop (length full) (part @ replicate (84 - 8) 0)) = part"
  proof (cases "off + 4 \<le> 8")
    case True
    then have "full = take (length full) part" using p u by (simp add: min_def)
    then have "full @ drop (length full) (part @ replicate (84 - 8) 0) = part @ replicate (84 - 8) 0"
      using True u(2) p(2) by (metis append.assoc append_take_drop_id diff_is_0_eq drop0 drop_append)
    then show ?thesis using p(2) by simp
  next
    case False
    then have "take 8 full = part" using p u by (simp add: min_def)
    then show ?thesis using False u(2) by simp
  qed
  then show "fld hmdfs_cache_file_head ''crc_offset'' (full @ drop (length full) (part @ replicate (84 - 8) 0)) =
         fld hmdfs_cache_file_head ''crc_offset'' (part @ replicate (84 - 8) 0)"
    using p l by (intro fld_crc_offset_take) auto
qed

text \<open>The head as both reads leave it, and the start of the data it names.\<close>

definition stash_head_of :: "lower_file \<Rightarrow> byte list" where
  "stash_head_of f =
     (let part = take 8 (f_data f) @ replicate (head_size - 8) 0;
          full = take (the (fld hmdfs_cache_file_head ''crc_offset'' part) + 4) (f_data f)
      in full @ drop (length full) part)"

definition data_offs_of :: "lower_file \<Rightarrow> nat" where
  "data_offs_of f = the (fld hmdfs_cache_file_head ''data_offs'' (stash_head_of f))"

text \<open>Every read stays inside its buffer, and what is found depends on the file only.\<close>

lemma metadata_total:
  "\<exists>err ctx1. hmdfs_get_restore_file_metadata crc32 lims ctx = Some (err, ctx1) \<and>
     r_src ctx1 = r_src ctx \<and> r_seq ctx1 = r_seq ctx \<and> r_inum ctx1 = r_inum ctx \<and>
     (err = 0 \<longrightarrow> r_data_offs ctx1 = data_offs_of (r_src ctx))"
proof -
  obtain l1 l2 l3 where lims: "lims = (l1, l2, l3)" by (cases lims)
  show ?thesis
  proof (cases "read_exact (r_src ctx) 0 8 l1")
    case (Inl e)
    then have "e \<noteq> 0" by (auto simp: read_exact_def kernel_read_def split: if_splits)
    with Inl show ?thesis by (simp add: hmdfs_get_restore_file_metadata_def lims)
  next
    case (Inr part)
    let ?h = "part @ replicate (84 - 8) 0"
    have part: "part = take 8 (f_data (r_src ctx))" "length part = 8" using read_exact_Inr [OF Inr] by auto
    then have lh: "length ?h = 84" by simp
    obtain off where off: "fld hmdfs_cache_file_head ''crc_offset'' ?h = Some off"
      using stash_head_field [OF _ lh] by auto
    show ?thesis
    proof (cases "off + 4 > 84 \<or> (\<exists>e. read_exact (r_src ctx) 0 (off + 4) l2 = Inl e)")
      case True
      moreover have "e \<noteq> 0" if "read_exact (r_src ctx) 0 (off + 4) l2 = Inl e" for e
        using that by (auto simp: read_exact_def kernel_read_def split: if_splits)
      ultimately show ?thesis using Inr off by (auto simp: hmdfs_get_restore_file_metadata_def lims)
    next
      case False
      then obtain full where full: "read_exact (r_src ctx) 0 (off + 4) l2 = Inr full"
        by (cases "read_exact (r_src ctx) 0 (off + 4) l2") auto
      let ?f = "full @ drop (length full) ?h"
      have le: "off + 4 \<le> 84" using False by auto
      note h = full_head [OF Inr full le]
      have "fld hmdfs_cache_file_head ''crc_offset'' ?f = Some off" using h(2) off by (simp only:)
      then obtain e where e: "hmdfs_verify_restore_file_head crc32 ctx ?f = Some e"
        using verify_head_total [OF h(1) _ le] by blast
      obtain bl dof pl po where fs: "fld hmdfs_cache_file_head ''blocks'' ?f = Some bl"
        "fld hmdfs_cache_file_head ''data_offs'' ?f = Some dof" "fld hmdfs_cache_file_head ''path_len'' ?f = Some pl"
        "fld hmdfs_cache_file_head ''path_offs'' ?f = Some po"
        using stash_head_field [OF _ h(1)] by (metis insertCI)
      have "full = take (off + 4) (f_data (r_src ctx))" using read_exact_Inr [OF full] by simp
      then have "stash_head_of (r_src ctx) = ?f"
        using off by (simp only: stash_head_of_def Let_def part(1) [symmetric] option.sel)
      then have d: "data_offs_of (r_src ctx) = dof" using fs(2) by (simp only: data_offs_of_def option.sel)
      have "\<exists>n. cstrnlen dst (min pl 4096) = Some n"
        if "read_exact (r_src ctx) (po * 2 ^ 12) (min pl 4096) l3 = Inr dst" for dst
        by (rule cstrnlen_within) (use read_exact_Inr [OF that] in linarith)
      with fs show ?thesis using Inr off full e False d
        by (cases "read_exact (r_src ctx) (po * 2 ^ 12) (min pl 4096) l3")
           (auto simp: hmdfs_get_restore_file_metadata_def lims Let_def)
    qed
  qed
qed

section \<open>The copy ends\<close>

text \<open>
  What \<open>lseek(2)\<close> documents of \<open>SEEK_DATA\<close>: an error, or an offset not before
  the one it was given and inside the file.
\<close>

definition seek_progress :: "copy_env \<Rightarrow> lower_file \<Rightarrow> bool" where
  "seek_progress env src \<longleftrightarrow>
     (\<forall>pos. seek_data env pos < 0 \<or> int pos \<le> seek_data env pos \<and> seek_data env pos < int (length (f_data src)))"

lemma copied_nonzero:
  "hmdfs_rd_src_wr_dst env seq src sp dp dst = (err, copied, eof, dst1) \<Longrightarrow> err = 0 \<Longrightarrow> \<not> eof \<Longrightarrow> 0 < copied"
  by (auto simp: hmdfs_rd_src_wr_dst_def kernel_read_def split: if_splits prod.splits)

lemma copy_loop_ends:
  assumes "seek_progress env src"
  shows "\<exists>r. copy_loop env seq src init pos dst = Some r"
proof (induction "length (f_data src) - pos" arbitrary: pos dst rule: less_induct)
  case less
  let ?d = "seek_data env pos" and ?n = "length (f_data src)"
  consider (err) "?d < 0" | (skip) "int pos < ?d" "?d < int ?n" | (here) "?d = int pos" "pos < ?n"
    using assms by (auto simp: seek_progress_def) (metis le_less zle_int of_nat_less_iff)
  then show ?case
  proof cases
    case err
    then show ?thesis by (subst copy_loop.simps) (simp add: Let_def)
  next
    case skip
    then have "?n - nat ?d < ?n - pos" by (simp add: diff_less_mono2 zless_nat_eq_int_zless)
    from less [OF this] skip show ?thesis by (subst copy_loop.simps) (simp add: Let_def)
  next
    case here
    obtain err copied eof dst1 where
      r: "hmdfs_rd_src_wr_dst env seq src pos (int pos - int init) dst = (err, copied, eof, dst1)"
      by (metis prod_cases4)
    have "\<exists>r. copy_loop env seq src init (pos + copied) dst1 = Some r" if "err = 0" "\<not> eof"
      using less [of "pos + copied" dst1] copied_nonzero [OF r that] here(2) by simp
    with here r show ?thesis by (subst copy_loop.simps) (auto simp: Let_def)
  qed
qed

section \<open>The copy is exact\<close>

text \<open>
  \<open>SEEK_DATA\<close> on a file system that tracks holes in blocks of 4096 bytes: the
  first written block at or after a block boundary, \<open>ENXIO\<close> behind the last one.
\<close>

definition seeks_blocks :: "copy_env \<Rightarrow> lower_file \<Rightarrow> bool" where
  "seeks_blocks env src \<longleftrightarrow>
     (\<forall>b. (\<exists>k \<in> f_blks src. b \<le> k \<and> seek_data env (b * 4096) = int (k * 4096) \<and> (\<forall>j. b \<le> j \<and> j < k \<longrightarrow> j \<notin> f_blks src)) \<or>
          (\<forall>k \<in> f_blks src. k < b) \<and> seek_data env (b * 4096) = - ENXIO)"

definition blocks_inside :: "lower_file \<Rightarrow> bool" where
  "blocks_inside src \<longleftrightarrow> (\<forall>k \<in> f_blks src. k * 4096 < length (f_data src))"

definition io_succeeds :: "copy_env \<Rightarrow> bool" where
  "io_succeeds env \<longleftrightarrow> (\<forall>pos. 4096 \<le> read_lim env pos) \<and> (\<forall>pos n. write_ret env pos n = int n) \<and> fsync_ret env = 0"

text \<open>
  The destination after the blocks from \<open>b\<close> on have been copied, the data
  starting at block \<open>d\<close> of the stash file.
\<close>

definition copied_from :: "lower_file \<Rightarrow> nat \<Rightarrow> nat \<Rightarrow> byte list \<Rightarrow> byte list \<Rightarrow> bool" where
  "copied_from src d b dst dst' \<longleftrightarrow>
     (\<forall>i. byte_at dst' i =
        (if b \<le> d + i div 4096 \<and> d + i div 4096 \<in> f_blks src \<and> d * 4096 + i < length (f_data src)
         then byte_at (f_data src) (d * 4096 + i) else byte_at dst i))"

lemma take_all_min: "take (min n (length xs - k)) (drop k xs) = take n (drop k xs)"
  by (simp add: min_def)

lemma copy_block:
  assumes "io_succeeds env" and "k * 4096 < length (f_data src)"
  shows "hmdfs_rd_src_wr_dst env seq src (k * 4096) p dst =
    (0, min 4096 (length (f_data src) - k * 4096), False,
     write_at dst (nat p) (take 4096 (drop (k * 4096) (f_data src))))"
proof -
  have l: "4096 \<le> read_lim env (k * 4096)" using assms(1) by (simp add: io_succeeds_def)
  then have "4096 \<le> nat (read_lim env (k * 4096))" by linarith
  then have "kernel_read src (k * 4096) 4096 (read_lim env (k * 4096)) = Inr (take 4096 (drop (k * 4096) (f_data src)))"
    using l by (simp add: kernel_read_def min_absorb2)
  then show ?thesis
    using assms by (simp add: hmdfs_rd_src_wr_dst_def hmdfs_write_dst_def io_succeeds_def take_all_min min.commute)
qed

lemma copied_from_none: "\<forall>k \<in> f_blks src. k < b \<Longrightarrow> copied_from src d b dst dst"
  by (auto simp: copied_from_def)

lemma copied_from_skip:
  "copied_from src d k dst dst' \<Longrightarrow> \<forall>j. b \<le> j \<and> j < k \<longrightarrow> j \<notin> f_blks src \<Longrightarrow> b \<le> k \<Longrightarrow> copied_from src d b dst dst'"
  unfolding copied_from_def by (auto simp: not_le split: if_splits)

lemma copied_from_block:
  assumes "d \<le> b" "b \<in> f_blks src"
    and "copied_from src d (Suc b) (write_at dst ((b - d) * 4096) (take 4096 (drop (b * 4096) (f_data src)))) dst'"
  shows "copied_from src d b dst dst'"
  unfolding copied_from_def
proof
  fix i
  let ?n = "length (f_data src)"
  have w: "byte_at (write_at dst ((b - d) * 4096) (take 4096 (drop (b * 4096) (f_data src)))) i =
      (if d + i div 4096 = b \<and> d * 4096 + i < ?n then byte_at (f_data src) (d * 4096 + i) else byte_at dst i)"
  proof (cases "d + i div 4096 = b")
    case True
    then have "(b - d) * 4096 \<le> i" "i < (b - d) * 4096 + 4096" "b * 4096 + (i - (b - d) * 4096) = d * 4096 + i"
      by auto
    then show ?thesis using True unfolding byte_at_write_at by (auto simp: byte_at_def)
  next
    case False
    then have "i < (b - d) * 4096 \<or> (b - d) * 4096 + 4096 \<le> i" using assms(1) by linarith
    then show ?thesis using False by (auto simp: byte_at_write_at)
  qed
  show "byte_at dst' i =
        (if b \<le> d + i div 4096 \<and> d + i div 4096 \<in> f_blks src \<and> d * 4096 + i < ?n
         then byte_at (f_data src) (d * 4096 + i) else byte_at dst i)"
    using assms(2,3) w by (auto simp: copied_from_def Suc_le_eq)
qed

lemma copy_loop_stop:
  "seek_data env pos = - ENXIO \<Longrightarrow> copy_loop env seq src d pos dst = Some (0, dst)"
  by (subst copy_loop.simps) (simp add: Let_def)

lemma copy_loop_skip:
  "int pos < seek_data env pos \<Longrightarrow> copy_loop env seq src d pos dst = copy_loop env seq src d (nat (seek_data env pos)) dst"
  by (subst copy_loop.simps) (simp add: Let_def)

lemma copy_loop_here:
  "seek_data env pos = int pos \<Longrightarrow>
   hmdfs_rd_src_wr_dst env seq src pos (int pos - int d) dst = (0, copied, False, dst1) \<Longrightarrow>
   copy_loop env seq src d pos dst =
     (if length (f_data src) \<le> pos + copied then Some (0, dst1) else copy_loop env seq src d (pos + copied) dst1)"
  by (subst copy_loop.simps) (simp add: Let_def)

lemma copy_loop_exact:
  assumes "seeks_blocks env src" "blocks_inside src" "io_succeeds env" "d \<le> b"
  shows "\<exists>dst'. copy_loop env seq src (d * 4096) (b * 4096) dst = Some (0, dst') \<and> copied_from src d b dst dst'"
  using assms(4)
proof (induction "length (f_data src) - b * 4096" arbitrary: b dst rule: less_induct)
  case less
  let ?n = "length (f_data src)" and ?s = "seek_data env (b * 4096)"
  consider (data) k where "k \<in> f_blks src" "b \<le> k" "?s = int (k * 4096)" "\<forall>j. b \<le> j \<and> j < k \<longrightarrow> j \<notin> f_blks src"
    | (stop) "\<forall>k \<in> f_blks src. k < b" "?s = - 6"
    using assms(1) unfolding seeks_blocks_def by blast
  then show ?case
  proof cases
    case stop
    then show ?thesis using copied_from_none [OF stop(1)] copy_loop_stop by fastforce
  next
    case data
    have k: "k * 4096 < ?n" using assms(2) data(1) by (simp add: blocks_inside_def)
    show ?thesis
    proof (cases "k = b")
      case False
      with data k have "?n - k * 4096 < ?n - b * 4096" "d \<le> k" using less.prems by auto
      from less.hyps [OF this, of dst] obtain dst' where
        "copy_loop env seq src (d * 4096) (k * 4096) dst = Some (0, dst')" "copied_from src d k dst dst'" by blast
      moreover from this(2) data have "copied_from src d b dst dst'" using copied_from_skip by blast
      moreover have "int (b * 4096) < ?s" "nat ?s = k * 4096" using data(2,3) False by auto
      ultimately show ?thesis using copy_loop_skip [of "b * 4096" env] by auto
    next
      case True
      let ?w = "write_at dst ((b - d) * 4096) (take 4096 (drop (b * 4096) (f_data src)))"
      have p: "nat (int (b * 4096) - int (d * 4096)) = (b - d) * 4096" using less.prems by (simp add: nat_diff_distrib' diff_mult_distrib)
      have s: "?s = int (b * 4096)" using data(3) True by simp
      note r = copy_loop_here [OF s copy_block [OF assms(3) k [unfolded True], of seq "int (b * 4096) - int (d * 4096)" dst, unfolded p]]
      show ?thesis
      proof (cases "?n \<le> b * 4096 + 4096")
        case True
        then have "\<forall>k \<in> f_blks src. k < Suc b" using assms(2) by (fastforce simp: blocks_inside_def)
        then have "copied_from src d b dst ?w"
          using copied_from_none copied_from_block less.prems data(1) \<open>k = b\<close> by blast
        moreover have "?n \<le> b * 4096 + min 4096 (?n - b * 4096)" using True by simp
        ultimately show ?thesis using r by (metis (no_types, lifting))
      next
        case False
        then have "?n - Suc b * 4096 < ?n - b * 4096" "d \<le> Suc b" using less.prems by auto
        from less.hyps [OF this, of ?w] obtain dst' where
          c: "copy_loop env seq src (d * 4096) (Suc b * 4096) ?w = Some (0, dst')" "copied_from src d (Suc b) ?w dst'" by blast
        have "copied_from src d b dst dst'" using copied_from_block [OF less.prems _ c(2)] data(1) \<open>k = b\<close> by blast
        moreover have "b * 4096 + min 4096 (?n - b * 4096) = Suc b * 4096" "\<not> ?n \<le> Suc b * 4096" using False by simp_all
        ultimately show ?thesis using r c(1) by (metis (no_types, lifting))
      qed
    qed
  qed
qed

section \<open>A copy that is cut short\<close>

text \<open>
  Whatever the writes return, a byte of the destination is its old one or the one
  of the stash file, and the latter only in a page that was stashed.
\<close>

definition partly_copied :: "lower_file \<Rightarrow> nat \<Rightarrow> byte list \<Rightarrow> byte list \<Rightarrow> bool" where
  "partly_copied src d dst dst' \<longleftrightarrow>
     (\<forall>i. byte_at dst' i = byte_at dst i \<or>
          d + i div 4096 \<in> f_blks src \<and> d * 4096 + i < length (f_data src) \<and>
          byte_at dst' i = byte_at (f_data src) (d * 4096 + i))"

definition reads_succeed :: "copy_env \<Rightarrow> bool" where
  "reads_succeed env \<longleftrightarrow> (\<forall>pos. 4096 \<le> read_lim env pos)"

lemma partly_copied_refl [simp]: "partly_copied src d dst dst"
  by (simp add: partly_copied_def)

lemma partly_copied_trans: "partly_copied src d a b \<Longrightarrow> partly_copied src d b c \<Longrightarrow> partly_copied src d a c"
  unfolding partly_copied_def by metis

lemma nth_take_take_drop: "j < length (take m (take n (drop k xs))) \<Longrightarrow> take m (take n (drop k xs)) ! j = xs ! (k + j)"
  by (auto simp: nth_drop)

lemma partly_copied_block:
  assumes "d \<le> b" "b \<in> f_blks src"
  shows "partly_copied src d dst (write_at dst ((b - d) * 4096) (take m (take 4096 (drop (b * 4096) (f_data src)))))"
  unfolding partly_copied_def
proof
  fix i
  let ?buf = "take m (take 4096 (drop (b * 4096) (f_data src)))"
  show "byte_at (write_at dst ((b - d) * 4096) ?buf) i = byte_at dst i \<or>
      d + i div 4096 \<in> f_blks src \<and> d * 4096 + i < length (f_data src) \<and>
      byte_at (write_at dst ((b - d) * 4096) ?buf) i = byte_at (f_data src) (d * 4096 + i)"
  proof (cases "(b - d) * 4096 \<le> i \<and> i < (b - d) * 4096 + length ?buf")
    case True
    then have at: "d + i div 4096 = b" "b * 4096 + (i - (b - d) * 4096) = d * 4096 + i" "d * 4096 + i < length (f_data src)"
      using assms(1) by auto
    have "?buf ! (i - (b - d) * 4096) = f_data src ! (b * 4096 + (i - (b - d) * 4096))"
      by (rule nth_take_take_drop) (use True in linarith)
    with at True assms(2) show ?thesis unfolding byte_at_write_at by (simp add: byte_at_def)
  qed (auto simp: byte_at_write_at)
qed

text \<open>A retry after a part of the copy leaves the destination as one uninterrupted copy would.\<close>

lemma copied_from_retry:
  "partly_copied src d dst dst1 \<Longrightarrow> copied_from src d d dst1 dst2 \<Longrightarrow> copied_from src d d dst dst2"
  unfolding partly_copied_def copied_from_def by (metis le_add1)

lemma partly_copied_mix:
  "partly_copied src d dst dst1 \<Longrightarrow> \<forall>i. byte_at dst2 i = byte_at dst i \<or> byte_at dst2 i = byte_at dst1 i \<Longrightarrow>
     partly_copied src d dst dst2"
  unfolding partly_copied_def by metis

lemma rd_src_wr_dst_buf:
  assumes "kernel_read src sp 4096 (read_lim env sp) = Inr buf" and "buf \<noteq> []"
    and "hmdfs_rd_src_wr_dst env seq src sp p dst = (err, copied, eof, dst1)"
  shows "dst1 = write_at dst (nat p) (take (nat (write_ret env p (length buf))) buf) \<and>
         (err = 0 \<longrightarrow> \<not> eof \<and> copied = length buf)"
  using assms by (auto simp: hmdfs_rd_src_wr_dst_def hmdfs_write_dst_def split: if_splits)

lemma copy_block_cases:
  assumes "reads_succeed env" and "k * 4096 < length (f_data src)"
    and r: "hmdfs_rd_src_wr_dst env seq src (k * 4096) p dst = (err, copied, eof, dst1)"
  shows "\<exists>m. dst1 = write_at dst (nat p) (take m (take 4096 (drop (k * 4096) (f_data src))))"
    and "err = 0 \<Longrightarrow> \<not> eof \<and> copied = min 4096 (length (f_data src) - k * 4096)"
proof -
  let ?buf = "take 4096 (drop (k * 4096) (f_data src))"
  have "4096 \<le> read_lim env (k * 4096)" using assms(1) by (simp add: reads_succeed_def)
  then have rd: "kernel_read src (k * 4096) 4096 (read_lim env (k * 4096)) = Inr ?buf"
    by (simp add: kernel_read_def min_absorb2)
  have "?buf \<noteq> []" using assms(2) by simp
  note d = rd_src_wr_dst_buf [OF rd this r]
  show "\<exists>m. dst1 = write_at dst (nat p) (take m ?buf)" using d by blast
  show "err = 0 \<Longrightarrow> \<not> eof \<and> copied = min 4096 (length (f_data src) - k * 4096)"
    using d by (simp add: min.commute)
qed

lemma copy_loop_partly:
  assumes "seeks_blocks env src" "blocks_inside src" "reads_succeed env" "d \<le> b"
    and "copy_loop env seq src (d * 4096) (b * 4096) dst = Some (err, dst')"
  shows "partly_copied src d dst dst'"
  using assms(4,5)
proof (induction "length (f_data src) - b * 4096" arbitrary: b dst rule: less_induct)
  case less
  let ?n = "length (f_data src)" and ?s = "seek_data env (b * 4096)"
  consider (data) k where "k \<in> f_blks src" "b \<le> k" "?s = int (k * 4096)" | (stop) "?s = - 6"
    using assms(1) unfolding seeks_blocks_def by blast
  then show ?case
  proof cases
    case stop
    then show ?thesis using less.prems(2) copy_loop_stop by simp
  next
    case data
    have k: "k * 4096 < ?n" using assms(2) data(1) by (simp add: blocks_inside_def)
    show ?thesis
    proof (cases "k = b")
      case False
      with data k have m: "?n - k * 4096 < ?n - b * 4096" "d \<le> k" using less.prems by auto
      have "int (b * 4096) < ?s" "nat ?s = k * 4096" using data(2,3) False by auto
      with less.prems(2) copy_loop_skip [of "b * 4096" env]
      have "copy_loop env seq src (d * 4096) (k * 4096) dst = Some (err, dst')" by simp
      from less.hyps [OF m this] show ?thesis .
    next
      case True
      obtain e c eof dst1 where r: "hmdfs_rd_src_wr_dst env seq src (b * 4096) (int (b * 4096) - int (d * 4096)) dst = (e, c, eof, dst1)"
        by (metis prod_cases4)
      note cb = copy_block_cases [OF assms(3) k [unfolded True] r]
      have p: "nat (int (b * 4096) - int (d * 4096)) = (b - d) * 4096"
        using less.prems by (simp add: nat_diff_distrib' diff_mult_distrib)
      obtain m where "dst1 = write_at dst ((b - d) * 4096) (take m (take 4096 (drop (b * 4096) (f_data src))))"
        using cb(1) p by auto
      then have part: "partly_copied src d dst dst1"
        using partly_copied_block less.prems(1) data(1) True by simp
      have step: "(if e \<noteq> 0 \<or> eof then Some (e, dst1) else if ?n \<le> b * 4096 + c then Some (0, dst1)
           else copy_loop env seq src (d * 4096) (b * 4096 + c) dst1) = Some (err, dst')"
        using less.prems(2) r data(3) True by (subst (asm) copy_loop.simps) (simp add: Let_def nat_mult_distrib)
      show ?thesis
      proof (cases "e \<noteq> 0 \<or> eof \<or> ?n \<le> b * 4096 + c")
        case True
        then show ?thesis using step part by (auto split: if_splits)
      next
        case False
        then have "c = 4096" using cb(2) by (auto simp: min_def split: if_splits)
        with False step have n: "copy_loop env seq src (d * 4096) (Suc b * 4096) dst1 = Some (err, dst')"
          by (simp add: add.commute)
        have "?n - Suc b * 4096 < ?n - b * 4096" "d \<le> Suc b" using k True \<open>k = b\<close> less.prems(1) by auto
        from less.hyps [OF this n] part show ?thesis by (rule partly_copied_trans [rotated])
      qed
    qed
  qed
qed

end
