(* ===== verification/Stash_Round.thy ===== *)
theory Stash_Round
  imports Stash_Copy
begin

text \<open>
  From the pages of a file to the stash file and back: what the stash file holds
  after any number of pages, that its metadata passes the check when the peer is
  back, and that the copy puts exactly the stashed pages into the remote file.
\<close>

section \<open>The pages a stash file holds\<close>

text \<open>The stashed bytes of the remote file, the last write to a position winning.\<close>

definition put_page :: "hmdfs_writepage_context \<Rightarrow> (nat \<rightharpoonup> byte) \<Rightarrow> (nat \<rightharpoonup> byte)" where
  "put_page w v = (\<lambda>i. if pg_index w * 4096 \<le> i \<and> i < pg_index w * 4096 + pg_count w
                      then Some (pg_data w ! (i - pg_index w * 4096)) else v i)"

definition stash_view :: "hmdfs_writepage_context list \<Rightarrow> (nat \<rightharpoonup> byte)" where
  "stash_view ws = fold put_page ws (\<lambda>_. None)"

definition good_page :: "hmdfs_writepage_context \<Rightarrow> bool" where
  "good_page w \<longleftrightarrow> 0 < pg_count w \<and> pg_count w \<le> 4096 \<and> pg_count w \<le> length (pg_data w)"

text \<open>The file holds the bytes \<open>v\<close> from block \<open>d\<close> on, and only their blocks are written there.\<close>

definition file_holds :: "nat \<Rightarrow> (nat \<rightharpoonup> byte) \<Rightarrow> lower_file \<Rightarrow> bool" where
  "file_holds d v f \<longleftrightarrow>
     (\<forall>i. byte_at (f_data f) (d * 4096 + i) = (case v i of None \<Rightarrow> 0 | Some b \<Rightarrow> b)) \<and>
     (\<forall>k \<ge> d. k \<in> f_blks f \<longleftrightarrow> (\<exists>i. v i \<noteq> None \<and> d + i div 4096 = k)) \<and>
     (\<forall>i. v i \<noteq> None \<longrightarrow> d * 4096 + i < length (f_data f)) \<and>
     blocks_inside f"

lemma kernel_write_all:
  "bs \<noteq> [] \<Longrightarrow> kernel_write f bs pos (int (length bs)) =
     f\<lparr>f_data := write_at (f_data f) pos bs, f_blks := f_blks f \<union> {pos div 4096 .. (pos + length bs - 1) div 4096}\<rparr>"
  by (simp add: kernel_write_def Let_def)

lemma blocks_inside_write:
  assumes "blocks_inside f" "bs \<noteq> []"
  shows "blocks_inside (kernel_write f bs pos (int (length bs)))"
proof -
  have "k * 4096 < pos + length bs" if "k \<le> (pos + length bs - 1) div 4096" for k
  proof -
    have "k * 4096 \<le> pos + length bs - 1" using that by (simp add: less_eq_div_iff_mult_less_eq)
    then show ?thesis using assms(2) by (cases bs) auto
  qed
  then show ?thesis using assms
    by (auto simp: blocks_inside_def kernel_write_all length_write_at less_max_iff_disj)
qed

lemma file_holds_page:
  assumes "file_holds d v f" and w: "good_page w"
  shows "file_holds d (put_page w v) (kernel_write f (take (pg_count w) (pg_data w)) ((pg_index w + d) * 4096) (int (pg_count w)))"
proof -
  let ?bs = "take (pg_count w) (pg_data w)"
  obtain p where p: "p = (pg_index w + d) * 4096" by simp
  let ?g = "kernel_write f ?bs p (int (pg_count w))"
  have l: "length ?bs = pg_count w" and ne: "?bs \<noteq> []" using w by (auto simp: good_page_def)
  have g: "?g = f\<lparr>f_data := write_at (f_data f) p ?bs, f_blks := f_blks f \<union> {pg_index w + d}\<rparr>"
  proof -
    have "p div 4096 = pg_index w + d" "(p + pg_count w - 1) div 4096 = pg_index w + d"
      using w by (auto simp: good_page_def p)
    then show ?thesis using kernel_write_all [OF ne, of f p] l by simp
  qed
  have gd: "f_data ?g = write_at (f_data f) p ?bs" by (simp add: g)
  have at: "pg_index w * 4096 \<le> i \<and> i < pg_index w * 4096 + pg_count w \<longleftrightarrow> p \<le> d * 4096 + i \<and> d * 4096 + i < p + pg_count w" for i
    by (auto simp: p)
  have "byte_at (f_data ?g) (d * 4096 + i) = (case put_page w v i of None \<Rightarrow> 0 | Some b \<Rightarrow> b)" for i
  proof (cases "pg_index w * 4096 \<le> i \<and> i < pg_index w * 4096 + pg_count w")
    case True
    moreover have "d * 4096 + i - p = i - pg_index w * 4096" using True by (simp add: p algebra_simps)
    ultimately have "byte_at (f_data ?g) (d * 4096 + i) = ?bs ! (i - pg_index w * 4096)"
      using at [of i] by (simp add: gd byte_at_write_at l del: length_take)
    moreover have "?bs ! (i - pg_index w * 4096) = pg_data w ! (i - pg_index w * 4096)"
      by (rule nth_take) (use True in linarith)
    ultimately show ?thesis using True by (simp add: put_page_def)
  next
    case False
    then have "byte_at (f_data ?g) (d * 4096 + i) = byte_at (f_data f) (d * 4096 + i)"
      using at [of i] by (auto simp: gd byte_at_write_at l simp del: length_take)
    with False assms(1) show ?thesis unfolding put_page_def file_holds_def by (simp only: if_False)
  qed
  moreover have "k \<in> f_blks ?g \<longleftrightarrow> (\<exists>i. put_page w v i \<noteq> None \<and> d + i div 4096 = k)" if k: "d \<le> k" for k
  proof -
    have "k = pg_index w + d \<longleftrightarrow> (\<exists>i. pg_index w * 4096 \<le> i \<and> i < pg_index w * 4096 + pg_count w \<and> d + i div 4096 = k)"
    proof
      assume "k = pg_index w + d"
      then show "\<exists>i. pg_index w * 4096 \<le> i \<and> i < pg_index w * 4096 + pg_count w \<and> d + i div 4096 = k"
        using w by (intro exI [of _ "pg_index w * 4096"]) (simp add: good_page_def)
    next
      assume "\<exists>i. pg_index w * 4096 \<le> i \<and> i < pg_index w * 4096 + pg_count w \<and> d + i div 4096 = k"
      then obtain i where i: "pg_index w * 4096 \<le> i" "i < pg_index w * 4096 + pg_count w" "d + i div 4096 = k" by blast
      then have "i div 4096 = pg_index w" using w by (simp add: good_page_def) linarith
      with i(3) show "k = pg_index w + d" by simp
    qed
    moreover have "k \<in> f_blks f \<longleftrightarrow> (\<exists>i. v i \<noteq> None \<and> d + i div 4096 = k)"
      using assms(1) k by (simp add: file_holds_def)
    ultimately show ?thesis by (auto simp: g put_page_def)
  qed
  moreover have "d * 4096 + i < length (f_data ?g)" if "put_page w v i \<noteq> None" for i
  proof -
    have "length (f_data ?g) = max (length (f_data f)) (p + pg_count w)"
      using length_write_at [OF ne, of "f_data f" p] l by (simp add: g)
    then show ?thesis using assms(1) that by (auto simp: p put_page_def file_holds_def less_max_iff_disj split: if_splits)
  qed
  moreover have "blocks_inside ?g"
    using blocks_inside_write [OF _ ne, of f p] assms(1) l by (simp add: file_holds_def)
  ultimately show ?thesis unfolding file_holds_def p by blast
qed

text \<open>The cache of an inode that holds \<open>v\<close> behind a path of at most \<open>PATH_MAX\<close> bytes.\<close>

definition cache_holds :: "byte list \<Rightarrow> nat \<Rightarrow> (nat \<rightharpoonup> byte) \<Rightarrow> hmdfs_cache_info \<Rightarrow> bool" where
  "cache_holds path n v c \<longleftrightarrow> c_path_offs c = 1 \<and> c_path_len c = of_nat (length path + 1) \<and> c_path_cnt c = 1 \<and>
     c_path c = path \<and> c_data_offs c = 2 \<and> to_write_pgs c = n \<and> written_pgs c = n \<and> file_holds 2 v (cache_file c)"

lemma new_file_cache_holds:
  assumes "hmdfs_new_file_cache env = Inr c" "d_alias env = Some (Inr path)" "length path < 4096"
  shows "cache_holds path 0 (stash_view []) c"
proof -
  have "(84 + 4095) div 4096 = (1 :: nat)" "(length path + 1 + 4095) div 4096 = 1" using assms(3) by auto
  then show ?thesis using assms
    by (auto simp: hmdfs_new_file_cache_def hmdfs_new_stash_file_def cache_holds_def stash_view_def new_lower_file_def
        file_holds_def byte_at_def blocks_inside_def Let_def split: if_splits sum.splits)
qed

lemma writepage_holds:
  assumes "cache_holds path n v c" "good_page w"
  shows "\<exists>c'. hmdfs_stash_writepage w (int (pg_count w)) (Some c) = (0, Some c') \<and> cache_holds path (Suc n) (put_page w v) c'"
proof -
  have sh: "pg_index w * 4096 + unat (push_bit 12 (c_data_offs c)) = (pg_index w + 2) * 4096"
    using assms(1) by (simp add: cache_holds_def push_bit_eq_mult)
  obtain f where f: "f = kernel_write (cache_file c) (take (pg_count w) (pg_data w)) ((pg_index w + 2) * 4096) (int (pg_count w))"
    by simp
  then have h: "file_holds 2 (put_page w v) f"
    using file_holds_page [OF _ assms(2)] assms(1) by (simp only: cache_holds_def)
  have "hmdfs_stash_writepage w (int (pg_count w)) (Some c) =
      (0, Some (c\<lparr>cache_file := f, written_pgs := written_pgs c + 1, to_write_pgs := to_write_pgs c + 1\<rparr>))"
    by (simp only: hmdfs_stash_writepage_def hmdfs_stash_write_local_file_def sh f [symmetric] Let_def option.case prod.case) simp
  with h assms(1) show ?thesis by (simp add: cache_holds_def)
qed

lemma stash_pages_hold:
  assumes "cache_holds path n v c" "\<forall>w \<in> set ws. good_page w"
  shows "\<exists>c'. stash_pages (map (\<lambda>w. (w, int (pg_count w))) ws) (Some c) = Some c' \<and>
     cache_holds path (n + length ws) (fold put_page ws v) c'"
  using assms
proof (induction ws arbitrary: c n v)
  case (Cons w ws)
  obtain c' where c': "hmdfs_stash_writepage w (int (pg_count w)) (Some c) = (0, Some c')"
    "cache_holds path (Suc n) (put_page w v) c'" using writepage_holds [OF Cons.prems(1)] Cons.prems(2) by auto
  with Cons.IH [OF c'(2)] Cons.prems(2) show ?case by simp
qed simp

section \<open>The metadata\<close>

lemma struct_bytes_append: "struct_bytes (L @ M) vals = struct_bytes L vals @ struct_bytes M vals"
  by (induction L vals rule: struct_bytes.induct) simp_all

lemma struct_bytes_cong:
  "\<forall>f \<in> fst ` set L. map_of vals f = map_of vals' f \<Longrightarrow> struct_bytes L vals = struct_bytes L vals'"
  by (induction L vals rule: struct_bytes.induct) auto

lemma map_of_snoc_other: "f \<noteq> k \<Longrightarrow> map_of (xs @ [(k, v)]) f = map_of xs f"
  by (simp add: map_add_def split: option.split)

lemma head_crc_prefix:
  "take 80 (hmdfs_set_stash_file_head crc32 c ino) = take 80 (struct_bytes hmdfs_cache_file_head (stash_head_fields c ino))"
proof -
  let ?L = "butlast hmdfs_cache_file_head"
  have split: "hmdfs_cache_file_head = ?L @ [(''crc32'', 4)]" by (simp add: hmdfs_cache_file_head_def)
  have "sizeof ?L = 80" by (simp add: hmdfs_cache_file_head_def)
  then have t: "take 80 (struct_bytes hmdfs_cache_file_head vals) = struct_bytes ?L vals" for vals
    using arg_cong [OF split, of "\<lambda>L. struct_bytes L vals"] by (simp add: struct_bytes_append)
  have nc: "''crc32'' \<notin> fst ` set ?L" by (simp add: hmdfs_cache_file_head_def)
  have "struct_bytes ?L (stash_head_fields c ino @ [(''crc32'', v)]) = struct_bytes ?L (stash_head_fields c ino)" for v
    by (intro struct_bytes_cong ballI map_of_snoc_other) (use nc in blast)
  then show ?thesis by (simp add: hmdfs_set_stash_file_head_def Let_def t)
qed

lemma length_stash_head [simp]: "length (hmdfs_set_stash_file_head crc32 c ino) = 84"
  by (simp add: hmdfs_set_stash_file_head_def Let_def sizeof_stash_head)

lemma stash_head_read:
  assumes "field_at hmdfs_cache_file_head f = Some (off, n)"
    and "map_of (stash_head_fields c ino @ [(''crc32'', unat (crc32 (take 80 (hmdfs_set_stash_file_head crc32 c ino))))]) f = Some v"
    and "v < 256 ^ n"
  shows "fld hmdfs_cache_file_head f (hmdfs_set_stash_file_head crc32 c ino) = Some v"
  using fld_struct_set [OF assms(1) _ assms(3), of _ "[]"] assms(2)
  unfolding head_crc_prefix by (simp add: hmdfs_set_stash_file_head_def Let_def)

lemma stash_head_crc:
  "rd_le (hmdfs_set_stash_file_head crc32 c ino) 80 4 = Some (unat (crc32 (take 80 (hmdfs_set_stash_file_head crc32 c ino))))"
proof -
  let ?v = "unat (crc32 (take 80 (hmdfs_set_stash_file_head crc32 c ino)))"
  have at: "field_at hmdfs_cache_file_head ''crc32'' = Some (80, 4)" by (simp add: hmdfs_cache_file_head_def)
  have "?v < 256 ^ 4" using unsigned_less [of "crc32 (take 80 (hmdfs_set_stash_file_head crc32 c ino))", where 'a = nat] by simp
  moreover have "map_of (stash_head_fields c ino @ [(''crc32'', ?v)]) ''crc32'' = Some ?v"
    by (simp add: stash_head_fields_def)
  ultimately have "fld hmdfs_cache_file_head ''crc32'' (hmdfs_set_stash_file_head crc32 c ino) = Some ?v"
    by (rule stash_head_read [OF at, rotated])
  then show ?thesis by (simp add: fld_def at)
qed

lemma stash_head_at:
  shows "field_at hmdfs_cache_file_head ''magic'' = Some (0, 4)"
    and "field_at hmdfs_cache_file_head ''crc_offset'' = Some (4, 4)"
    and "field_at hmdfs_cache_file_head ''ino'' = Some (8, 8)"
    and "field_at hmdfs_cache_file_head ''size'' = Some (16, 8)"
    and "field_at hmdfs_cache_file_head ''blocks'' = Some (24, 8)"
    and "field_at hmdfs_cache_file_head ''path_offs'' = Some (64, 4)"
    and "field_at hmdfs_cache_file_head ''path_len'' = Some (68, 4)"
    and "field_at hmdfs_cache_file_head ''path_cnt'' = Some (72, 4)"
    and "field_at hmdfs_cache_file_head ''data_offs'' = Some (76, 4)"
  by (simp_all add: hmdfs_cache_file_head_def)

text \<open>The head of a cache, field by field.\<close>

lemma stash_head_fields_read:
  fixes ino :: u64 and crc32 :: "byte list \<Rightarrow> u32"
  assumes "cache_holds path n v c" "length path < 4096" "length (f_data (cache_file c)) < 2 ^ 63" "n < 2 ^ 61"
  defines "h \<equiv> hmdfs_set_stash_file_head crc32 c (unat ino)"
  shows "fld hmdfs_cache_file_head ''magic'' h = Some HMDFS_STASH_FILE_HEAD_MAGIC"
    and "fld hmdfs_cache_file_head ''crc_offset'' h = Some 80"
    and "fld hmdfs_cache_file_head ''ino'' h = Some (unat ino)"
    and "fld hmdfs_cache_file_head ''size'' h = Some (length (f_data (cache_file c)))"
    and "fld hmdfs_cache_file_head ''blocks'' h = Some (n * 8)"
    and "fld hmdfs_cache_file_head ''path_offs'' h = Some 1"
    and "fld hmdfs_cache_file_head ''path_len'' h = Some (length path + 1)"
    and "fld hmdfs_cache_file_head ''path_cnt'' h = Some 1"
    and "fld hmdfs_cache_file_head ''data_offs'' h = Some 2"
proof -
  have w: "unat ino < 2 ^ 64" using unsigned_less [of ino, where 'a = nat] by simp
  have u: "unat (of_nat (length path + 1) :: u32) = length path + 1"
    unfolding unat_of_nat using assms(2) by simp
  note r = stash_head_read [where c = c and ino = "unat ino" and ?crc32.0 = crc32, folded h_def]
  note defs = stash_head_fields_def HMDFS_STASH_FILE_HEAD_MAGIC_def
  show "fld hmdfs_cache_file_head ''magic'' h = Some HMDFS_STASH_FILE_HEAD_MAGIC"
    by (rule r [OF stash_head_at(1)]) (simp_all add: defs)
  show "fld hmdfs_cache_file_head ''crc_offset'' h = Some 80"
    by (rule r [OF stash_head_at(2)]) (simp_all add: defs)
  show "fld hmdfs_cache_file_head ''ino'' h = Some (unat ino)"
    by (rule r [OF stash_head_at(3)]) (use w in \<open>simp_all add: defs cache_holds_def\<close>)
  show "fld hmdfs_cache_file_head ''size'' h = Some (length (f_data (cache_file c)))"
    by (rule r [OF stash_head_at(4)]) (use assms(3) in \<open>simp_all add: defs cache_holds_def\<close>)
  show "fld hmdfs_cache_file_head ''blocks'' h = Some (n * 8)"
    by (rule r [OF stash_head_at(5)]) (use assms(1,4) in \<open>simp_all add: defs cache_holds_def\<close>)
  show "fld hmdfs_cache_file_head ''path_offs'' h = Some 1"
    by (rule r [OF stash_head_at(6)]) (use assms(1) in \<open>simp_all add: defs cache_holds_def\<close>)
  show "fld hmdfs_cache_file_head ''path_len'' h = Some (length path + 1)"
    by (rule r [OF stash_head_at(7)]) (use assms(1,2) u in \<open>simp_all add: defs cache_holds_def\<close>)
  show "fld hmdfs_cache_file_head ''path_cnt'' h = Some 1"
    by (rule r [OF stash_head_at(8)]) (use assms(1) in \<open>simp_all add: defs cache_holds_def\<close>)
  show "fld hmdfs_cache_file_head ''data_offs'' h = Some 2"
    by (rule r [OF stash_head_at(9)]) (use assms(1) in \<open>simp_all add: defs cache_holds_def\<close>)
qed

lemma take_drop_eqI:
  assumes "k + length ys \<le> length xs" "\<And>j. j < length ys \<Longrightarrow> byte_at xs (k + j) = ys ! j"
  shows "take (length ys) (drop k xs) = ys"
  using assms by (intro nth_equalityI) (auto simp: byte_at_def)

text \<open>A write below the data of a file that has data.\<close>

lemma file_holds_meta:
  assumes "file_holds d v f" "bs \<noteq> []" "pos + length bs \<le> d * 4096" "d * 4096 < length (f_data f)"
  defines "g \<equiv> kernel_write f bs pos (int (length bs))"
  shows "file_holds d v g" and "length (f_data g) = length (f_data f)"
    and "take (length bs) (drop pos (f_data g)) = bs"
    and "\<And>i. i < pos \<or> pos + length bs \<le> i \<Longrightarrow> byte_at (f_data g) i = byte_at (f_data f) i"
proof -
  have g: "f_data g = write_at (f_data f) pos bs" "f_blks g = f_blks f \<union> {pos div 4096 .. (pos + length bs - 1) div 4096}"
    using kernel_write_all [OF assms(2)] by (simp_all add: g_def)
  show l: "length (f_data g) = length (f_data f)"
    using length_write_at [OF assms(2), of "f_data f" pos] assms(3,4) by (simp add: g)
  show b: "byte_at (f_data g) i = byte_at (f_data f) i" if "i < pos \<or> pos + length bs \<le> i" for i
    using that by (auto simp: g byte_at_write_at)
  have "(pos + length bs - 1) div 4096 < d"
    using assms(2,3) by (cases bs) (simp_all add: div_less_iff_less_mult)
  then have k: "k \<in> f_blks g \<longleftrightarrow> k \<in> f_blks f" if "d \<le> k" for k using that by (auto simp: g)
  have "blocks_inside g" using blocks_inside_write [OF _ assms(2), of f pos] assms(1) by (simp add: file_holds_def g_def)
  moreover have "byte_at (f_data g) (d * 4096 + i) = byte_at (f_data f) (d * 4096 + i)" for i
    by (rule b) (use assms(3) in linarith)
  ultimately show "file_holds d v g" using assms(1) k l unfolding file_holds_def by simp
  show "take (length bs) (drop pos (f_data g)) = bs"
    by (rule take_drop_eqI) (use assms(3,4) l in \<open>auto simp: g byte_at_write_at\<close>)
qed

definition flushed_file :: "(byte list \<Rightarrow> u32) \<Rightarrow> nat \<Rightarrow> hmdfs_cache_info \<Rightarrow> lower_file" where
  "flushed_file crc32 ino c =
     kernel_write (kernel_write (cache_file c) (hmdfs_set_stash_file_head crc32 c ino) 0 84)
       (c_path c @ [0]) 4096 (int (length (c_path c @ [0])))"

lemma flushed_file_meta:
  assumes "cache_holds path n v c" "length path < 4096" "v i \<noteq> None"
  shows "file_holds 2 v (flushed_file crc32 ino c)"
    and "length (f_data (flushed_file crc32 ino c)) = length (f_data (cache_file c))"
    and "take 84 (f_data (flushed_file crc32 ino c)) = hmdfs_set_stash_file_head crc32 c ino"
    and "take (length path + 1) (drop 4096 (f_data (flushed_file crc32 ino c))) = path @ [0]"
proof -
  let ?h = "hmdfs_set_stash_file_head crc32 c ino" and ?g = "kernel_write (cache_file c) (hmdfs_set_stash_file_head crc32 c ino) 0 84"
  have c: "file_holds 2 v (cache_file c)" "c_path c = path" using assms(1) by (auto simp: cache_holds_def)
  have "2 * 4096 + i < length (f_data (cache_file c))" using c(1) assms(3) by (simp add: file_holds_def)
  then have l: "2 * 4096 < length (f_data (cache_file c))" by simp
  have h: "?h \<noteq> []" using length_stash_head [of crc32 c ino] by (metis list.size(3) zero_neq_numeral)
  have le: "0 + length ?h \<le> 2 * 4096" by simp
  have g: "kernel_write (cache_file c) ?h 0 (int (length ?h)) = ?g" by simp
  note one = file_holds_meta [OF c(1) h le l, unfolded g]
  have le2: "4096 + length (path @ [0]) \<le> 2 * 4096" using assms(2) by simp
  have l2: "2 * 4096 < length (f_data ?g)" using one(2) l by simp
  have f: "kernel_write ?g (path @ [0]) 4096 (int (length (path @ [0]))) = flushed_file crc32 ino c"
    by (simp only: flushed_file_def c(2))
  note two = file_holds_meta [OF one(1) _ le2 l2, unfolded f]
  show "file_holds 2 v (flushed_file crc32 ino c)" by (rule two(1)) simp
  show lf: "length (f_data (flushed_file crc32 ino c)) = length (f_data (cache_file c))" using two(2) one(2) by simp
  show "take (length path + 1) (drop 4096 (f_data (flushed_file crc32 ino c))) = path @ [0]" using two(3) by simp
  have "take (length ?h) (drop 0 (f_data (flushed_file crc32 ino c))) = ?h"
  proof (rule take_drop_eqI)
    show "0 + length ?h \<le> length (f_data (flushed_file crc32 ino c))" using l lf by simp
    fix j assume j: "j < length ?h"
    have "byte_at (f_data (flushed_file crc32 ino c)) (0 + j) = byte_at (f_data ?g) (0 + j)"
      by (rule two(4)) (use j in auto)
    also have "\<dots> = ?h ! j" using j one(3) l2 by (metis byte_at_take_drop length_take min_less_iff_conj drop0)
    finally show "byte_at (f_data (flushed_file crc32 ino c)) (0 + j) = ?h ! j" .
  qed
  then show "take 84 (f_data (flushed_file crc32 ino c)) = ?h" by simp
qed

lemma flush_metadata_ok:
  assumes "cache_holds path n v c" "length path < 4096" "path \<noteq> []"
  shows "hmdfs_flush_stash_file_metadata crc32 ino 84 (int (length path + 1)) (Some c) =
           (0, Some (c\<lparr>cache_file := flushed_file crc32 ino c\<rparr>))"
proof -
  have u: "unat (of_nat (length path + 1) :: u32) = length path + 1"
    unfolding unat_of_nat using assms(2) by simp
  have c: "c_path c = path" "unat (c_path_len c) = length path + 1" "unat (c_path_offs c) = 1"
    using assms(1) u by (simp_all add: cache_holds_def)
  then have "take (unat (c_path_len c)) (c_path c @ [0]) = path @ [0]" by simp
  with c assms(3) show ?thesis
    by (simp add: hmdfs_flush_stash_file_metadata_def flushed_file_def Let_def)
qed

lemma read_exact_ok:
  "k + length ys \<le> length (f_data f) \<Longrightarrow> take (length ys) (drop k (f_data f)) = ys \<Longrightarrow> int (length ys) \<le> lim \<Longrightarrow>
     read_exact f k (length ys) lim = Inr ys"
  by (simp add: read_exact_def kernel_read_def)

text \<open>The metadata of a flushed stash file passes the check and names the path, the pages and the data.\<close>

lemma metadata_ok:
  assumes c: "cache_holds path n v c" "length path < 4096" "v i \<noteq> None" "0 \<notin> set path"
    and sz: "length (f_data (cache_file c)) < 2 ^ 63" "n < 2 ^ 61"
    and src: "r_src ctx = flushed_file crc32 (unat (r_inum ctx)) c"
    and lims: "4096 \<le> l1" "4096 \<le> l2" "4096 \<le> l3"
  shows "hmdfs_get_restore_file_metadata crc32 (l1, l2, l3) ctx =
           Some (0, ctx\<lparr>r_pages := n, r_data_offs := 2, r_dst := path @ [0]\<rparr>)"
proof -
  let ?h = "hmdfs_set_stash_file_head crc32 c (unat (r_inum ctx))" and ?d = "f_data (r_src ctx)"
  note m = flushed_file_meta [OF c(1-3), of crc32 "unat (r_inum ctx)", folded src]
  note f = stash_head_fields_read [OF c(1,2) sz, of crc32 "r_inum ctx"]
  have "2 * 4096 + i < length ?d" using m(1) c(3) by (simp add: file_holds_def)
  then have l: "8192 < length ?d" by simp
  have "take 8 ?d = take 8 ?h" using arg_cong [OF m(3), of "take 8"] by simp
  then have r1: "read_exact (r_src ctx) 0 8 l1 = Inr (take 8 ?h)"
    using read_exact_ok [of 0 "take 8 ?h" "r_src ctx" l1] l lims(1) by simp
  have r2: "read_exact (r_src ctx) 0 (80 + 4) l2 = Inr ?h"
    using read_exact_ok [of 0 ?h "r_src ctx" l2] l lims(2) m(3) by simp
  have r3: "read_exact (r_src ctx) 4096 (length path + 1) l3 = Inr (path @ [0])"
    using read_exact_ok [of 4096 "path @ [0]" "r_src ctx" l3] l lims(3) m(4) c(2) by simp
  have off: "fld hmdfs_cache_file_head ''crc_offset'' (take 8 ?h @ replicate 76 0) = Some 80"
    using fld_crc_offset_take [of "take 8 ?h @ replicate 76 0" ?h] f(2) by simp
  have head: "?h @ drop (length ?h) (take 8 ?h @ replicate 76 0) = ?h" by simp
  have v: "hmdfs_verify_restore_file_head crc32 ctx ?h = Some 0"
    using f stash_head_crc [of crc32 c "unat (r_inum ctx)"] l m(2)
    by (simp add: hmdfs_verify_restore_file_head_def Let_def)
  have s: "cstrnlen (path @ [0]) (length path + 1) = Some (length path)"
    using cstrnlen_terminated [OF c(4), of "length path + 1" "[]"] by simp
  have mn: "min (length path + 1) 4096 = length path + 1" using c(2) by simp
  show ?thesis
    using r1 off r2 head v f(5,6,7,9) mn r3 s
    by (simp add: hmdfs_get_restore_file_metadata_def Let_def)
qed

end
