(* ===== verification/Stash_Peer.thy ===== *)
theory Stash_Peer
  imports Stash_Round
begin

text \<open>
  The inodes of a peer that are stashed and restored (\<open>stash.c\<close>, the list of
  inodes open for writing in \<open>file_remote.c\<close>): the callbacks of the events
  offline, online, add and del, with the status of each inode, the references they
  hold and the directory of stash files.

  Inodes are numbers; the two lists of the peer are lists of them, and an inode is
  on at most one of the lists that \<open>stash_node\<close> links. The callbacks run one
  after the other (\<open>offline_cb_lock\<close>, the work of the events), so each is one
  function on the state; opening and closing files, pages and new inodes come
  between them.
\<close>

section \<open>State\<close>

datatype hmdfs_remote_inode_status =
  HMDFS_REMOTE_INODE_NONE | HMDFS_REMOTE_INODE_STASHING | HMDFS_REMOTE_INODE_RESTORING

text \<open>\<open>i_refs\<close> counts the references of \<open>ihold\<close> the stash code holds.\<close>

record stash_inode =
  remote_ino :: u64
  stash_status :: hmdfs_remote_inode_status
  i_cache :: "hmdfs_cache_info option"
  wr_opened_cnt :: nat
  i_refs :: nat
  fid_need_open :: bool

record hmdfs_stash_stats =
  ss_succeed :: u32
  ss_donothing :: u32
  ss_fail :: u32
  ss_ok_pages :: u64
  ss_fail_pages :: u64

record hmdfs_stash_statistics =
  st_cur_ok :: u32
  st_cur_nothing :: u32
  st_cur_fail :: u32
  st_total_ok :: u32
  st_total_nothing :: u32
  st_total_fail :: u32
  st_ok_pages :: u64
  st_fail_pages :: u64

record hmdfs_restore_stats =
  rs_succeed :: u32
  rs_fail :: u32
  rs_keep :: u32
  rs_ok_pages :: u64
  rs_fail_pages :: u64

record hmdfs_restore_statistics =
  re_cur_ok :: u32
  re_cur_fail :: u32
  re_cur_keep :: u32
  re_total_ok :: u32
  re_total_fail :: u32
  re_total_keep :: u32
  re_ok_pages :: u64
  re_fail_pages :: u64

record hmdfs_rebuild_stats =
  rb_succeed :: u32
  rb_total :: u32
  rb_fail :: u32
  rb_invalid :: u32

record hmdfs_rebuild_statistics =
  rb_cur_ok :: u32
  rb_cur_fail :: u32
  rb_cur_invalid :: u32
  rb_total_ok :: u32
  rb_total_fail :: u32
  rb_total_invalid :: u32
  rb_time :: u32

text \<open>
  The parts of \<open>struct hmdfs_peer\<close> the stash code uses; \<open>remote_data\<close> is the
  content of the remote file behind an inode, \<open>live_inodes\<close> the inodes in memory.
\<close>

record stash_peer =
  inode :: "nat \<Rightarrow> stash_inode"
  wr_opened_list :: "nat list"
  stashed_list :: "nat list"
  stashed_nr :: u32
  stash_files :: stash_dir
  need_rebuild :: bool
  live_inodes :: "nat set"
  remote_data :: "nat \<Rightarrow> byte list"
  stash_statistics :: hmdfs_stash_statistics
  restore_statistics :: hmdfs_restore_statistics
  rebuild_statistics :: hmdfs_rebuild_statistics

definition upd_inode :: "nat \<Rightarrow> (stash_inode \<Rightarrow> stash_inode) \<Rightarrow> stash_peer \<Rightarrow> stash_peer" where
  "upd_inode i f p = p\<lparr>inode := (inode p)(i := f (inode p i))\<rparr>"

abbreviation (input) status_of :: "stash_peer \<Rightarrow> nat \<Rightarrow> hmdfs_remote_inode_status" where
  "status_of p i \<equiv> stash_status (inode p i)"

definition ihold :: "nat \<Rightarrow> stash_peer \<Rightarrow> stash_peer" where
  "ihold i = upd_inode i (\<lambda>n. n\<lparr>i_refs := i_refs n + 1\<rparr>)"

definition iput :: "nat \<Rightarrow> stash_peer \<Rightarrow> stash_peer" where
  "iput i = upd_inode i (\<lambda>n. n\<lparr>i_refs := i_refs n - 1\<rparr>)"

section \<open>Inodes open for writing\<close>

definition hmdfs_remote_add_wr_opened_inode_nolock :: "nat \<Rightarrow> stash_peer \<Rightarrow> stash_peer" where
  "hmdfs_remote_add_wr_opened_inode_nolock i p =
     (if i \<notin> set (wr_opened_list p) then
        upd_inode i (\<lambda>n. n\<lparr>wr_opened_cnt := 1\<rparr>) (p\<lparr>wr_opened_list := wr_opened_list p @ [i]\<rparr>)
      else upd_inode i (\<lambda>n. n\<lparr>wr_opened_cnt := wr_opened_cnt n + 1\<rparr>) p)"

definition hmdfs_remote_del_wr_opened_inode :: "nat \<Rightarrow> stash_peer \<Rightarrow> stash_peer" where
  "hmdfs_remote_del_wr_opened_inode i p =
     (let p1 = upd_inode i (\<lambda>n. n\<lparr>wr_opened_cnt := wr_opened_cnt n - 1\<rparr>) p
      in if wr_opened_cnt (inode p1 i) = 0 then p1\<lparr>wr_opened_list := remove1 i (wr_opened_list p1)\<rparr> else p1)"

definition hmdfs_remote_need_track_file :: "bool \<Rightarrow> bool \<Rightarrow> bool" where
  "hmdfs_remote_need_track_file s_offline_stash fmode_write \<longleftrightarrow> s_offline_stash \<and> fmode_write"

section \<open>Going offline\<close>

definition hmdfs_init_stash_file_cache :: "cache_env \<Rightarrow> nat \<Rightarrow> stash_peer \<Rightarrow> stash_peer" where
  "hmdfs_init_stash_file_cache env i =
     upd_inode i (\<lambda>n. n\<lparr>i_cache := (case hmdfs_new_file_cache env of Inl e \<Rightarrow> None | Inr c \<Rightarrow> Some c),
                         stash_status := HMDFS_REMOTE_INODE_STASHING\<rparr>)"

fun hmdfs_init_cache_for_stash_files :: "(nat \<Rightarrow> cache_env) \<Rightarrow> nat list \<Rightarrow> stash_peer \<Rightarrow> stash_peer" where
  "hmdfs_init_cache_for_stash_files env [] p = p"
| "hmdfs_init_cache_for_stash_files env (i # is) p =
     hmdfs_init_cache_for_stash_files env is (hmdfs_init_stash_file_cache (env i) i p)"

text \<open>The inodes without a stash among those open for writing, and the peer with a reference to each.\<close>

fun fetch_ready_from :: "nat list \<Rightarrow> stash_peer \<Rightarrow> nat list \<times> stash_peer" where
  "fetch_ready_from [] p = ([], p)"
| "fetch_ready_from (i # is) p =
     (if status_of p i = HMDFS_REMOTE_INODE_NONE then
        (case fetch_ready_from is (ihold i (hmdfs_remote_add_wr_opened_inode_nolock i p)) of
           (l, p1) \<Rightarrow> (i # l, p1))
      else fetch_ready_from is p)"

definition hmdfs_stash_fetch_ready_files :: "stash_peer \<Rightarrow> nat list \<times> stash_peer" where
  "hmdfs_stash_fetch_ready_files p = fetch_ready_from (wr_opened_list p) p"

definition hmdfs_stash_offline_prepare :: "bool \<Rightarrow> (nat \<Rightarrow> cache_env) \<Rightarrow> stash_peer \<Rightarrow> stash_peer" where
  "hmdfs_stash_offline_prepare s_offline_stash env p =
     (if \<not> s_offline_stash then p
      else (case hmdfs_stash_fetch_ready_files p of
              (preparing, p1) \<Rightarrow> hmdfs_init_cache_for_stash_files env preparing p1))"

definition hmdfs_update_stash_stats :: "hmdfs_cache_info option \<Rightarrow> int \<Rightarrow> hmdfs_stash_stats \<Rightarrow> hmdfs_stash_stats" where
  "hmdfs_update_stash_stats cache err s =
     (let s1 = (case cache of
          None \<Rightarrow> s
        | Some c \<Rightarrow>
            (let ok_pages = (if err > 0 then of_nat (written_pgs c) else 0);
                 fail_pages = of_nat (to_write_pgs c) - ok_pages
             in s\<lparr>ss_ok_pages := ss_ok_pages s + ok_pages, ss_fail_pages := ss_fail_pages s + fail_pages\<rparr>))
      in if err > 0 then s1\<lparr>ss_succeed := ss_succeed s1 + 1\<rparr>
         else if err = 0 then s1\<lparr>ss_donothing := ss_donothing s1 + 1\<rparr>
         else s1\<lparr>ss_fail := ss_fail s1 + 1\<rparr>)"

text \<open>The environment of stashing one inode: the flush, \<open>vfs_fsync\<close> and the link into the directory.\<close>

record stash_env =
  e_flush :: flush_env
  e_fsync :: int
  e_link :: link_env

definition hmdfs_stash_remote_inode ::
  "(byte list \<Rightarrow> u32) \<Rightarrow> stash_env \<Rightarrow> nat \<Rightarrow> stash_peer \<Rightarrow> hmdfs_stash_stats \<Rightarrow> int \<times> stash_peer \<times> hmdfs_stash_stats" where
  "hmdfs_stash_remote_inode crc32 env i p stats =
     (case hmdfs_flush_stash_file crc32 (unat (remote_ino (inode p i))) (e_flush env) (i_cache (inode p i)) of
        (ferr, cache) \<Rightarrow>
          (case (case cache of
                   Some c \<Rightarrow> if ferr = 0 then hmdfs_close_stash_file (e_link env) (e_fsync env) (remote_ino (inode p i)) c (stash_files p)
                              else (ferr, stash_files p)
                 | None \<Rightarrow> (ferr, stash_files p)) of
             (err, dir) \<Rightarrow>
               (err,
                upd_inode i (\<lambda>n. n\<lparr>fid_need_open := fid_need_open n \<or> err \<le> 0, i_cache := None,
                    stash_status := (if err > 0 then HMDFS_REMOTE_INODE_RESTORING else HMDFS_REMOTE_INODE_NONE)\<rparr>)
                  (p\<lparr>stash_files := dir\<rparr>),
                hmdfs_update_stash_stats cache err stats)))"

definition hmdfs_track_inode_locked :: "nat \<Rightarrow> stash_peer \<Rightarrow> stash_peer" where
  "hmdfs_track_inode_locked i p = p\<lparr>stashed_list := stashed_list p @ [i], stashed_nr := stashed_nr p + 1\<rparr>"

definition hmdfs_update_peer_stash_stats :: "hmdfs_stash_stats \<Rightarrow> hmdfs_stash_statistics \<Rightarrow> hmdfs_stash_statistics" where
  "hmdfs_update_peer_stash_stats s t =
     \<lparr>st_cur_ok = ss_succeed s, st_cur_nothing = ss_donothing s, st_cur_fail = ss_fail s,
      st_total_ok = st_total_ok t + ss_succeed s, st_total_nothing = st_total_nothing t + ss_donothing s,
      st_total_fail = st_total_fail t + ss_fail s,
      st_ok_pages = st_ok_pages t + ss_ok_pages s, st_fail_pages = st_fail_pages t + ss_fail_pages s\<rparr>"

fun stash_inodes_loop ::
  "(byte list \<Rightarrow> u32) \<Rightarrow> (nat \<Rightarrow> stash_env) \<Rightarrow> nat list \<Rightarrow> stash_peer \<Rightarrow> hmdfs_stash_stats \<Rightarrow> stash_peer \<times> hmdfs_stash_stats" where
  "stash_inodes_loop crc32 env [] p stats = (p, stats)"
| "stash_inodes_loop crc32 env (i # is) p stats =
     (case hmdfs_stash_remote_inode crc32 (env i) i p stats of
        (err, p1, stats1) \<Rightarrow>
          (let p2 = (if err > 0 then hmdfs_track_inode_locked i p1 else p1);
               p3 = hmdfs_remote_del_wr_opened_inode i p2;
               p4 = (if err \<le> 0 then iput i p3 else p3)
           in stash_inodes_loop crc32 env is p4 stats1))"

definition hmdfs_stash_remote_inodes ::
  "(byte list \<Rightarrow> u32) \<Rightarrow> (nat \<Rightarrow> stash_env) \<Rightarrow> nat list \<Rightarrow> stash_peer \<Rightarrow> stash_peer" where
  "hmdfs_stash_remote_inodes crc32 env l p =
     (case stash_inodes_loop crc32 env l p
        \<lparr>ss_succeed = 0, ss_donothing = 0, ss_fail = 0, ss_ok_pages = 0, ss_fail_pages = 0\<rparr> of
        (p1, stats) \<Rightarrow> p1\<lparr>stash_statistics := hmdfs_update_peer_stash_stats stats (stash_statistics p1)\<rparr>)"

definition hmdfs_stash_offline_do_stash ::
  "(byte list \<Rightarrow> u32) \<Rightarrow> bool \<Rightarrow> (nat \<Rightarrow> cache_env) \<Rightarrow> (nat \<Rightarrow> stash_env) \<Rightarrow> stash_peer \<Rightarrow> stash_peer" where
  "hmdfs_stash_offline_do_stash crc32 s_offline_stash cenv env p =
     (if \<not> s_offline_stash then p
      else (case hmdfs_stash_fetch_ready_files p of
              (preparing, p1) \<Rightarrow>
                (let p2 = hmdfs_init_cache_for_stash_files cenv preparing p1;
                     stashing = filter (\<lambda>i. status_of p2 i = HMDFS_REMOTE_INODE_STASHING) (wr_opened_list p2)
                 in if stashing = [] then p2 else hmdfs_stash_remote_inodes crc32 env stashing p2)))"

section \<open>Stashed inodes\<close>

definition hmdfs_lookup_stash_inode :: "u64 \<Rightarrow> stash_peer \<Rightarrow> nat option" where
  "hmdfs_lookup_stash_inode inum p = find (\<lambda>i. remote_ino (inode p i) = inum) (stashed_list p)"

definition hmdfs_untrack_stashed_inode :: "nat \<Rightarrow> stash_peer \<Rightarrow> stash_peer" where
  "hmdfs_untrack_stashed_inode i p =
     (let p1 = iput i (p\<lparr>stashed_list := remove1 i (stashed_list p)\<rparr>)
      in p1\<lparr>stashed_nr := stashed_nr p1 - 1\<rparr>)"

definition hmdfs_reset_stashed_inode :: "nat \<Rightarrow> stash_peer \<Rightarrow> stash_peer" where
  "hmdfs_reset_stashed_inode i p =
     iput i (upd_inode i (\<lambda>n. n\<lparr>stash_status := HMDFS_REMOTE_INODE_NONE\<rparr>)
       (hmdfs_untrack_stashed_inode i (ihold i p)))"

fun reset_each :: "nat list \<Rightarrow> stash_peer \<Rightarrow> stash_peer" where
  "reset_each [] p = p"
| "reset_each (i # is) p = reset_each is (hmdfs_reset_stashed_inode i p)"

definition hmdfs_drop_stashed_inodes :: "stash_peer \<Rightarrow> stash_peer" where
  "hmdfs_drop_stashed_inodes p = reset_each (stashed_list p) p"

section \<open>Restoring\<close>

text \<open>
  The environment of restoring one file: the limits of the reads of the metadata,
  the result of \<open>file_open_root\<close> with the sequence number read after a failure, the
  inode it found and whether it is one of another device, and the copy.
\<close>

record restore_env =
  e_lims :: "int \<times> int \<times> int"
  e_open :: int
  e_open_seq :: u32
  e_opened :: nat
  e_other_remote :: bool
  e_copy :: copy_env

definition hmdfs_open_restore_dst_file ::
  "(byte list \<Rightarrow> u32) \<Rightarrow> restore_env \<Rightarrow> hmdfs_file_restore_ctx \<Rightarrow> (int \<times> hmdfs_file_restore_ctx) option" where
  "hmdfs_open_restore_dst_file crc32 env ctx = do {
     (err, ctx1) \<leftarrow> hmdfs_get_restore_file_metadata crc32 (e_lims env) ctx;
     if err \<noteq> 0 then Some (err, ctx1)
     else if e_open env \<noteq> 0 then
       Some (if hmdfs_is_node_offlined (e_open_seq env) (r_seq ctx1) then - ESHUTDOWN else e_open env, ctx1)
     else Some (0, ctx1) }"

definition hmdfs_need_abort_restore :: "restore_env \<Rightarrow> nat \<Rightarrow> bool" where
  "hmdfs_need_abort_restore env pinned \<longleftrightarrow> \<not> e_other_remote env \<or> e_opened env \<noteq> pinned"

text \<open>The result, the context with its output \<open>keep\<close>, and the peer.\<close>

definition hmdfs_restore_file ::
  "(byte list \<Rightarrow> u32) \<Rightarrow> restore_env \<Rightarrow> hmdfs_file_restore_ctx \<Rightarrow> stash_peer \<Rightarrow> (int \<times> hmdfs_file_restore_ctx \<times> stash_peer) option" where
  "hmdfs_restore_file crc32 env ctx p =
     (case hmdfs_lookup_stash_inode (r_inum ctx) p of
        None \<Rightarrow> Some (- EINVAL, ctx\<lparr>r_keep := False\<rparr>, p)
      | Some i \<Rightarrow>
          if status_of p i \<noteq> HMDFS_REMOTE_INODE_RESTORING then
            Some (- EINVAL, ctx\<lparr>r_keep := False\<rparr>, hmdfs_reset_stashed_inode i p)
          else do {
            let p1 = upd_inode i (\<lambda>n. n\<lparr>fid_need_open := True\<rparr>) p;
            (err, ctx1) \<leftarrow> hmdfs_open_restore_dst_file crc32 env ctx;
            if err \<noteq> 0 then
              Some (err, ctx1\<lparr>r_keep := (err = - ESHUTDOWN)\<rparr>, if err = - ESHUTDOWN then p1 else hmdfs_reset_stashed_inode i p1)
            else if hmdfs_need_abort_restore env i then
              Some (0, ctx1\<lparr>r_keep := False\<rparr>, hmdfs_reset_stashed_inode i p1)
            else do {
              (err1, dst1) \<leftarrow> hmdfs_restore_src_to_dst (e_copy env) ctx1 (remote_data p1 i);
              let p2 = p1\<lparr>remote_data := (remote_data p1)(i := dst1)\<rparr>
              in Some (err1, ctx1\<lparr>r_keep := (err1 = - ESHUTDOWN)\<rparr>,
                       if err1 = - ESHUTDOWN then p2 else hmdfs_reset_stashed_inode i p2) } })"

definition hmdfs_update_restore_stats :: "bool \<Rightarrow> nat \<Rightarrow> int \<Rightarrow> hmdfs_restore_stats \<Rightarrow> hmdfs_restore_stats" where
  "hmdfs_update_restore_stats keep pages err s =
     (if err = 0 then s\<lparr>rs_succeed := rs_succeed s + 1, rs_ok_pages := rs_ok_pages s + of_nat pages\<rparr>
      else if keep then s\<lparr>rs_keep := rs_keep s + 1\<rparr>
      else s\<lparr>rs_fail := rs_fail s + 1, rs_fail_pages := rs_fail_pages s + of_nat pages\<rparr>)"

text \<open>
  \<open>hmdfs_open_stash_file\<close>: a lookup error, or what the name is; a regular file is
  opened with a result of its own.
\<close>

record dir_env =
  o_lookup :: "u64 \<Rightarrow> int"
  o_reg :: "u64 \<Rightarrow> bool"
  o_open :: "u64 \<Rightarrow> int"
  o_unlink :: "u64 \<Rightarrow> int"

definition hmdfs_open_stash_file :: "dir_env \<Rightarrow> stash_dir \<Rightarrow> u64 \<Rightarrow> int + lower_file" where
  "hmdfs_open_stash_file env dir inum =
     (if o_lookup env inum \<noteq> 0 then Inl (o_lookup env inum)
      else (case dir (stash_file_name inum) of
              None \<Rightarrow> Inl (- ENOENT)
            | Some f \<Rightarrow>
                if \<not> o_reg env inum then Inl (- EINVAL)
                else if o_open env inum \<noteq> 0 then Inl (o_open env inum)
                else Inr f))"

definition hmdfs_del_stash_file :: "dir_env \<Rightarrow> u64 \<Rightarrow> stash_peer \<Rightarrow> stash_peer" where
  "hmdfs_del_stash_file env inum p =
     (if o_unlink env inum \<noteq> 0 then p else p\<lparr>stash_files := (stash_files p)(stash_file_name inum := None)\<rparr>)"

definition init_ctx :: "u32 \<Rightarrow> u64 \<Rightarrow> lower_file \<Rightarrow> hmdfs_file_restore_ctx" where
  "init_ctx seq inum f = \<lparr>r_inum = inum, r_src = f, r_seq = seq, r_dst = [], r_pages = 0, r_data_offs = 0, r_keep = False\<rparr>"

text \<open>The loop over the table; \<open>err\<close> is 0 at the start of every round.\<close>

fun restore_files_loop ::
  "(byte list \<Rightarrow> u32) \<Rightarrow> dir_env \<Rightarrow> (u64 \<Rightarrow> restore_env) \<Rightarrow> u32 \<Rightarrow> u64 list \<Rightarrow> stash_peer \<Rightarrow> hmdfs_restore_stats
   \<Rightarrow> (int \<times> stash_peer \<times> hmdfs_restore_stats) option" where
  "restore_files_loop crc32 denv env seq [] p stats = Some (0, p, stats)"
| "restore_files_loop crc32 denv env seq (inum # tbl) p stats =
     (case hmdfs_open_stash_file denv (stash_files p) inum of
        Inl e \<Rightarrow> restore_files_loop crc32 denv env seq tbl p (stats\<lparr>rs_fail := rs_fail stats + 1\<rparr>)
      | Inr f \<Rightarrow> do {
          (err, ctx, p1) \<leftarrow> hmdfs_restore_file crc32 (env inum) (init_ctx seq inum f) p;
          let stats1 = hmdfs_update_restore_stats (r_keep ctx) (r_pages ctx) err stats;
              p2 = (if r_keep ctx then p1 else hmdfs_del_stash_file denv inum p1)
          in if err = - ESHUTDOWN then Some (err, p2, stats1)
             else restore_files_loop crc32 denv env seq tbl p2 stats1 })"

text \<open>\<open>init_ret\<close> is the result of \<open>hmdfs_init_file_restore_ctx\<close>: the path lookup and two allocations.\<close>

definition hmdfs_init_file_restore_ctx :: "int \<Rightarrow> bool \<Rightarrow> bool \<Rightarrow> int" where
  "hmdfs_init_file_restore_ctx path_ret a_dst a_page =
     (if path_ret \<noteq> 0 then path_ret else if \<not> a_dst then - ENOMEM else if \<not> a_page then - ENOMEM else 0)"

definition hmdfs_restore_files ::
  "(byte list \<Rightarrow> u32) \<Rightarrow> int \<Rightarrow> dir_env \<Rightarrow> (u64 \<Rightarrow> restore_env) \<Rightarrow> u32 \<Rightarrow> u64 list \<Rightarrow> stash_peer \<times> hmdfs_restore_stats
   \<Rightarrow> (int \<times> stash_peer \<times> hmdfs_restore_stats) option" where
  "hmdfs_restore_files crc32 init_ret denv env seq tbl st =
     (if init_ret \<noteq> 0 then Some (init_ret, st)
      else restore_files_loop crc32 denv env seq tbl (fst st) (snd st))"

section \<open>Iterating the directory\<close>

text \<open>An entry of the directory: its name and whether its type may be a regular file.\<close>

datatype dir_entry = Dir_Entry "byte list" bool

text \<open>\<open>kstrtoull\<close> of the kernel is a parameter; \<open>None\<close> is its error.\<close>

definition hmdfs_parse_stash_file_name :: "(byte list \<Rightarrow> u64 option) \<Rightarrow> dir_entry \<Rightarrow> u64 option" where
  "hmdfs_parse_stash_file_name kstrtoull e =
     (case e of Dir_Entry name maybe_reg \<Rightarrow>
        if \<not> maybe_reg then None
        else if length name > NAME_MAX then None
        else kstrtoull name)"

definition inode_tbl_max :: nat where "inode_tbl_max = (PAGE_SIZE - 8) div 8"

text \<open>
  The actor of \<open>iterate_dir\<close>: the table, and whether to go on; an entry at which
  it stops is seen again by the next call.
\<close>

definition hmdfs_fill_stash_file :: "(byte list \<Rightarrow> u64 option) \<Rightarrow> dir_entry \<Rightarrow> u64 list \<Rightarrow> u64 list \<times> bool" where
  "hmdfs_fill_stash_file kstrtoull e tbl =
     (case hmdfs_parse_stash_file_name kstrtoull e of
        None \<Rightarrow> (tbl, True)
      | Some inum \<Rightarrow> if length tbl \<ge> inode_tbl_max then (tbl, False) else (tbl @ [inum], True))"

definition hmdfs_has_stash_file :: "(byte list \<Rightarrow> u64 option) \<Rightarrow> dir_entry \<Rightarrow> nat \<Rightarrow> nat \<times> bool" where
  "hmdfs_has_stash_file kstrtoull e cnt =
     (case hmdfs_parse_stash_file_name kstrtoull e of
        None \<Rightarrow> (cnt, True)
      | Some inum \<Rightarrow> (cnt + 1, False))"

fun iterate_dir :: "(dir_entry \<Rightarrow> 'a \<Rightarrow> 'a \<times> bool) \<Rightarrow> dir_entry list \<Rightarrow> 'a \<Rightarrow> 'a \<times> dir_entry list" where
  "iterate_dir actor [] a = (a, [])"
| "iterate_dir actor (e # es) a = (case actor e a of (a1, go_on) \<Rightarrow> if go_on then iterate_dir actor es a1 else (a1, e # es))"

lemma iterate_fill_length:
  "iterate_dir (hmdfs_fill_stash_file k) es tbl = (tbl', rest) \<Longrightarrow> length rest + length tbl' \<le> length es + length tbl"
  by (induction es arbitrary: tbl)
     (auto simp: hmdfs_fill_stash_file_def split: option.splits if_splits, fastforce+)

lemma iterate_fill_rest:
  "iterate_dir (hmdfs_fill_stash_file k) es [] = (tbl, rest) \<Longrightarrow> tbl \<noteq> [] \<Longrightarrow> length rest < length es"
  using iterate_fill_length [of k es "[]" tbl rest] by (cases tbl) auto

text \<open>
  The rounds of \<open>hmdfs_iter_stash_file\<close> over the entries left; \<open>iter_ret\<close> is the
  result of \<open>iterate_dir\<close> in each round, \<open>op\<close> the operation on a table.
\<close>

function iter_stash_rounds ::
  "(byte list \<Rightarrow> u64 option) \<Rightarrow> (dir_entry list \<Rightarrow> int) \<Rightarrow> (u64 list \<Rightarrow> 's \<Rightarrow> (int \<times> 's) option) \<Rightarrow> dir_entry list \<Rightarrow> 's
   \<Rightarrow> (int \<times> 's) option" where
  "iter_stash_rounds k iter_ret operation es st =
     (case iterate_dir (hmdfs_fill_stash_file k) es [] of
        (tbl, rest) \<Rightarrow>
          if iter_ret es \<noteq> 0 \<or> tbl = [] then Some (iter_ret es, st)
          else (case operation tbl st of
                  None \<Rightarrow> None
                | Some (err, st1) \<Rightarrow> if err \<noteq> 0 then Some (err, st1) else iter_stash_rounds k iter_ret operation rest st1))"
  by pat_completeness auto

termination
  by (relation "measure (\<lambda>(k, iter_ret, operation, es, st). length es)") (auto dest!: iterate_fill_rest [OF sym])

declare iter_stash_rounds.simps [simp del]

definition hmdfs_iter_stash_file ::
  "bool \<Rightarrow> (byte list \<Rightarrow> u64 option) \<Rightarrow> (dir_entry list \<Rightarrow> int) \<Rightarrow> (u64 list \<Rightarrow> 's \<Rightarrow> (int \<times> 's) option) \<Rightarrow> dir_entry list \<Rightarrow> 's
   \<Rightarrow> (int \<times> 's) option" where
  "hmdfs_iter_stash_file alloc k iter_ret operation es st =
     (if \<not> alloc then Some (- ENOMEM, st) else iter_stash_rounds k iter_ret operation es st)"

section \<open>Rebuilding the list of stashed inodes\<close>

definition HMDFS_STASH_PATH_LEN :: nat where "HMDFS_STASH_PATH_LEN = HMDFS_CID_SIZE + 20 + 1"

text \<open>The environment of a new inode: the allocation, \<open>vfs_path_lookup\<close>, and whether a found file is regular.\<close>

record rebuild_env =
  b_alloc :: bool
  b_lookup :: int
  b_reg :: bool

definition hmdfs_stash_rebuild_status :: "rebuild_env \<Rightarrow> byte list \<Rightarrow> nat \<Rightarrow> stash_peer \<Rightarrow> stash_peer" where
  "hmdfs_stash_rebuild_status env cid i p =
     (if \<not> b_alloc env then p
      else if length (cid @ [47] @ stash_file_name (remote_ino (inode p i))) \<ge> HMDFS_STASH_PATH_LEN then p
      else if b_lookup env \<noteq> 0 \<or> stash_files p (stash_file_name (remote_ino (inode p i))) = None then p
      else if b_reg env then
        hmdfs_track_inode_locked i
          (ihold i (upd_inode i (\<lambda>n. n\<lparr>stash_status := HMDFS_REMOTE_INODE_RESTORING\<rparr>) p))
      else p)"

definition hmdfs_need_rebuild_inode_stash_status :: "bool \<Rightarrow> bool \<Rightarrow> stash_peer \<Rightarrow> bool" where
  "hmdfs_need_rebuild_inode_stash_status s_offline_stash reg_or_lnk p \<longleftrightarrow>
     s_offline_stash \<and> need_rebuild p \<and> reg_or_lnk"

definition hmdfs_remote_init_stash_status :: "rebuild_env \<Rightarrow> byte list \<Rightarrow> bool \<Rightarrow> bool \<Rightarrow> nat \<Rightarrow> stash_peer \<Rightarrow> stash_peer" where
  "hmdfs_remote_init_stash_status env cid s_offline_stash reg_or_lnk i p =
     (if \<not> hmdfs_need_rebuild_inode_stash_status s_offline_stash reg_or_lnk p then p
      else hmdfs_stash_rebuild_status env cid i p)"

definition hmdfs_is_valid_stash_status :: "bool \<Rightarrow> stash_inode \<Rightarrow> u64 \<Rightarrow> bool" where
  "hmdfs_is_valid_stash_status other_remote n ino \<longleftrightarrow>
     other_remote \<and> stash_status n = HMDFS_REMOTE_INODE_RESTORING \<and> remote_ino n = ino"

text \<open>\<open>fill_inode_remote\<close> gives an inode that is not in memory its stash status.\<close>

definition new_inode_stash_status :: "rebuild_env \<Rightarrow> byte list \<Rightarrow> bool \<Rightarrow> bool \<Rightarrow> nat \<Rightarrow> stash_peer \<Rightarrow> stash_peer" where
  "new_inode_stash_status env cid s_offline_stash reg_or_lnk i p =
     (if i \<in> live_inodes p then p
      else hmdfs_remote_init_stash_status env cid s_offline_stash reg_or_lnk i (p\<lparr>live_inodes := insert i (live_inodes p)\<rparr>))"

text \<open>Opening the destination may create its inode, in the environment \<open>fresh inum\<close>.\<close>

fun rebuild_loop ::
  "(byte list \<Rightarrow> u32) \<Rightarrow> dir_env \<Rightarrow> (u64 \<Rightarrow> restore_env) \<Rightarrow> (u64 \<Rightarrow> rebuild_env) \<Rightarrow> byte list \<Rightarrow> bool \<Rightarrow> u32 \<Rightarrow> u64 list
   \<Rightarrow> stash_peer \<Rightarrow> hmdfs_rebuild_stats \<Rightarrow> (int \<times> stash_peer \<times> hmdfs_rebuild_stats) option" where
  "rebuild_loop crc32 denv env fresh cid enabled seq [] p stats = Some (0, p, stats)"
| "rebuild_loop crc32 denv env fresh cid enabled seq (inum # tbl) p stats =
     (case hmdfs_open_stash_file denv (stash_files p) inum of
        Inl e \<Rightarrow> rebuild_loop crc32 denv env fresh cid enabled seq tbl p (stats\<lparr>rb_fail := rb_fail stats + 1\<rparr>)
      | Inr f \<Rightarrow> do {
          (err, ctx) \<leftarrow> hmdfs_open_restore_dst_file crc32 (env inum) (init_ctx seq inum f);
          if err = - ESHUTDOWN then Some (err, p, stats)
          else if err \<noteq> 0 then rebuild_loop crc32 denv env fresh cid enabled seq tbl p (stats\<lparr>rb_fail := rb_fail stats + 1\<rparr>)
          else do {
            let i = e_opened (env inum);
            let p1 = new_inode_stash_status (fresh inum) cid enabled True i p;
            let stats1 = (if hmdfs_is_valid_stash_status (e_other_remote (env inum)) (inode p1 i) inum
                          then stats\<lparr>rb_succeed := rb_succeed stats + 1\<rparr> else stats\<lparr>rb_invalid := rb_invalid stats + 1\<rparr>);
            rebuild_loop crc32 denv env fresh cid enabled seq tbl p1 stats1 } })"

definition hmdfs_rebuild_stash_list ::
  "(byte list \<Rightarrow> u32) \<Rightarrow> int \<Rightarrow> dir_env \<Rightarrow> (u64 \<Rightarrow> restore_env) \<Rightarrow> (u64 \<Rightarrow> rebuild_env) \<Rightarrow> byte list \<Rightarrow> bool \<Rightarrow> u32 \<Rightarrow> u64 list
   \<Rightarrow> stash_peer \<times> hmdfs_rebuild_stats \<Rightarrow> (int \<times> stash_peer \<times> hmdfs_rebuild_stats) option" where
  "hmdfs_rebuild_stash_list crc32 init_ret denv env fresh cid enabled seq tbl st =
     (if init_ret \<noteq> 0 then Some (init_ret, st)
      else rebuild_loop crc32 denv env fresh cid enabled seq tbl (fst st)
             ((snd st)\<lparr>rb_total := rb_total (snd st) + of_nat (length tbl)\<rparr>))"

section \<open>The callbacks\<close>

definition hmdfs_open_stash_dir :: "lookup_result \<Rightarrow> int \<Rightarrow> int" where
  "hmdfs_open_stash_dir child open_ret =
     (case child of
        Lookup_Error e \<Rightarrow> e
      | Directory \<Rightarrow> open_ret
      | Negative \<Rightarrow> - ENOENT
      | Regular \<Rightarrow> - EINVAL
      | Other_File \<Rightarrow> - EINVAL)"

record online_env =
  n_dir :: lookup_result
  n_open :: int
  n_alloc :: bool
  n_iter :: "dir_entry list \<Rightarrow> int"
  n_init :: int
  n_denv :: dir_env
  n_env :: "u64 \<Rightarrow> restore_env"

text \<open>\<open>hmdfs_stash_add_do_check\<close> runs the work and waits for it.\<close>

definition hmdfs_rebuild_check_work_fn ::
  "(byte list \<Rightarrow> u64 option) \<Rightarrow> online_env \<Rightarrow> dir_entry list \<Rightarrow> stash_peer \<Rightarrow> stash_peer" where
  "hmdfs_rebuild_check_work_fn k env es p =
     (if hmdfs_open_stash_dir (n_dir env) (n_open env) \<noteq> 0 then p
      else if n_iter env es = 0 \<and> fst (iterate_dir (hmdfs_has_stash_file k) es 0) > 0 then p\<lparr>need_rebuild := True\<rparr>
      else p)"

definition hmdfs_stash_add_do_check ::
  "(byte list \<Rightarrow> u64 option) \<Rightarrow> bool \<Rightarrow> online_env \<Rightarrow> dir_entry list \<Rightarrow> stash_peer \<Rightarrow> stash_peer" where
  "hmdfs_stash_add_do_check k s_offline_stash env es p =
     (if \<not> s_offline_stash then p else hmdfs_rebuild_check_work_fn k env es p)"

definition hmdfs_update_peer_rebuild_stats :: "hmdfs_rebuild_stats \<Rightarrow> hmdfs_rebuild_statistics \<Rightarrow> hmdfs_rebuild_statistics" where
  "hmdfs_update_peer_rebuild_stats s t =
     t\<lparr>rb_cur_ok := rb_succeed s, rb_cur_fail := rb_fail s, rb_cur_invalid := rb_invalid s,
       rb_total_ok := rb_total_ok t + rb_succeed s, rb_total_fail := rb_total_fail t + rb_fail s,
       rb_total_invalid := rb_total_invalid t + rb_invalid s\<rparr>"

definition rebuild_timed :: "stash_peer \<Rightarrow> stash_peer" where
  "rebuild_timed p = p\<lparr>rebuild_statistics := (rebuild_statistics p)\<lparr>rb_time := rb_time (rebuild_statistics p) + 1\<rparr>\<rparr>"

definition hmdfs_stash_online_prepare ::
  "(byte list \<Rightarrow> u32) \<Rightarrow> (byte list \<Rightarrow> u64 option) \<Rightarrow> bool \<Rightarrow> online_env \<Rightarrow> (u64 \<Rightarrow> rebuild_env) \<Rightarrow> byte list \<Rightarrow> u32
   \<Rightarrow> dir_entry list \<Rightarrow> stash_peer \<Rightarrow> stash_peer option" where
  "hmdfs_stash_online_prepare crc32 k s_offline_stash env fresh cid seq es p =
     (if \<not> s_offline_stash \<or> \<not> need_rebuild p then Some p
      else if hmdfs_open_stash_dir (n_dir env) (n_open env) \<noteq> 0 then Some (rebuild_timed p)
      else do {
        (err, p1, stats) \<leftarrow> hmdfs_iter_stash_file (n_alloc env) k (n_iter env)
          (hmdfs_rebuild_stash_list crc32 (n_init env) (n_denv env) (n_env env) fresh cid s_offline_stash seq) es
          (p, \<lparr>rb_succeed = 0, rb_total = 0, rb_fail = 0, rb_invalid = 0\<rparr>);
        let p2 = (if err = - ESHUTDOWN then p1 else p1\<lparr>need_rebuild := False\<rparr>);
        Some (rebuild_timed (p2\<lparr>rebuild_statistics := hmdfs_update_peer_rebuild_stats stats (rebuild_statistics p2)\<rparr>)) })"

definition hmdfs_update_peer_restore_stats :: "hmdfs_restore_stats \<Rightarrow> hmdfs_restore_statistics \<Rightarrow> hmdfs_restore_statistics" where
  "hmdfs_update_peer_restore_stats s t =
     \<lparr>re_cur_ok = rs_succeed s, re_cur_fail = rs_fail s, re_cur_keep = rs_keep s,
      re_total_ok = re_total_ok t + rs_succeed s, re_total_fail = re_total_fail t + rs_fail s,
      re_total_keep = re_total_keep t + rs_keep s,
      re_ok_pages = re_ok_pages t + rs_ok_pages s, re_fail_pages = re_fail_pages t + rs_fail_pages s\<rparr>"

definition hmdfs_stash_online_do_restore ::
  "(byte list \<Rightarrow> u32) \<Rightarrow> (byte list \<Rightarrow> u64 option) \<Rightarrow> bool \<Rightarrow> online_env \<Rightarrow> u32 \<Rightarrow> dir_entry list \<Rightarrow> stash_peer \<Rightarrow> stash_peer option" where
  "hmdfs_stash_online_do_restore crc32 k s_offline_stash env seq es p =
     (if \<not> s_offline_stash \<or> need_rebuild p then Some p
      else do {
        let derr = hmdfs_open_stash_dir (n_dir env) (n_open env);
        let stats0 = \<lparr>rs_succeed = 0, rs_fail = 0, rs_keep = 0, rs_ok_pages = 0, rs_fail_pages = 0\<rparr>;
        (err, p1, stats) \<leftarrow>
          (if derr \<noteq> 0 then Some (derr, p, stats0)
           else hmdfs_iter_stash_file (n_alloc env) k (n_iter env)
                  (hmdfs_restore_files crc32 (n_init env) (n_denv env) (n_env env) seq) es (p, stats0));
        let p2 = (if err \<noteq> - ESHUTDOWN then hmdfs_drop_stashed_inodes p1 else p1);
        Some (p2\<lparr>restore_statistics := hmdfs_update_peer_restore_stats stats (restore_statistics p2)\<rparr>) })"

fun cleanup_preparing :: "nat list \<Rightarrow> stash_peer \<Rightarrow> stash_peer" where
  "cleanup_preparing [] p = p"
| "cleanup_preparing (i # is) p =
     cleanup_preparing is
       (if status_of p i = HMDFS_REMOTE_INODE_STASHING then
          iput i (hmdfs_remote_del_wr_opened_inode i
            (upd_inode i (\<lambda>n. n\<lparr>i_cache := None, stash_status := HMDFS_REMOTE_INODE_NONE\<rparr>) p))
        else p)"

fun untrack_each :: "nat list \<Rightarrow> stash_peer \<Rightarrow> stash_peer" where
  "untrack_each [] p = p"
| "untrack_each (i # is) p = untrack_each is (hmdfs_untrack_stashed_inode i p)"

definition hmdfs_stash_del_do_cleanup :: "bool \<Rightarrow> stash_peer \<Rightarrow> stash_peer" where
  "hmdfs_stash_del_do_cleanup s_offline_stash p =
     (if \<not> s_offline_stash then p
      else (let p1 = cleanup_preparing (wr_opened_list p) p in untrack_each (stashed_list p1) p1))"

end
