(* ===== verification/Stash_Inv.thy ===== *)
theory Stash_Inv
  imports Stash_Peer
begin

text \<open>
  The invariant of the inodes of a peer over every sequence of opens, closes,
  pages, new inodes and callbacks of the stash code: the lists, the status, the
  counter of writers and the references agree.
\<close>

section \<open>The invariant\<close>

text \<open>
  \<open>opens\<close> is the number of files open for writing of each inode; \<open>X\<close> are the
  inodes a callback has fetched and not yet initialised.
\<close>

definition inode_ok :: "nat set \<Rightarrow> (nat \<Rightarrow> nat) \<Rightarrow> stash_peer \<Rightarrow> nat \<Rightarrow> bool" where
  "inode_ok X opens p i \<longleftrightarrow>
     (i \<in> set (wr_opened_list p) \<longleftrightarrow> 0 < wr_opened_cnt (inode p i)) \<and>
     (i \<in> set (stashed_list p) \<longleftrightarrow> status_of p i = HMDFS_REMOTE_INODE_RESTORING) \<and>
     wr_opened_cnt (inode p i) = opens i + (if status_of p i = HMDFS_REMOTE_INODE_STASHING \<or> i \<in> X then 1 else 0) \<and>
     i_refs (inode p i) = (if status_of p i \<noteq> HMDFS_REMOTE_INODE_NONE \<or> i \<in> X then 1 else 0) \<and>
     (i \<in> X \<longrightarrow> status_of p i = HMDFS_REMOTE_INODE_NONE) \<and>
     (i_cache (inode p i) \<noteq> None \<longrightarrow> status_of p i = HMDFS_REMOTE_INODE_STASHING) \<and>
     (i \<notin> live_inodes p \<longrightarrow> opens i = 0 \<and> status_of p i = HMDFS_REMOTE_INODE_NONE \<and> i \<notin> X)"

definition stash_inv :: "nat set \<Rightarrow> (nat \<Rightarrow> nat) \<Rightarrow> stash_peer \<Rightarrow> bool" where
  "stash_inv X opens p \<longleftrightarrow> distinct (wr_opened_list p) \<and> distinct (stashed_list p) \<and>
     stashed_nr p = of_nat (length (stashed_list p)) \<and> (\<forall>i. inode_ok X opens p i)"

lemma stash_invI:
  assumes "distinct (wr_opened_list p)" "distinct (stashed_list p)" "stashed_nr p = of_nat (length (stashed_list p))"
    "\<And>i. inode_ok X opens p i"
  shows "stash_inv X opens p"
  using assms by (simp add: stash_inv_def)

lemma stash_invD:
  assumes "stash_inv X opens p"
  shows "distinct (wr_opened_list p)" "distinct (stashed_list p)" "stashed_nr p = of_nat (length (stashed_list p))"
    "inode_ok X opens p i"
  using assms by (simp_all add: stash_inv_def)

lemma inode_upd_inode [simp]: "inode (upd_inode i f p) j = (if j = i then f (inode p i) else inode p j)"
  by (simp add: upd_inode_def)

lemma upd_inode_other [simp]:
  "wr_opened_list (upd_inode i f p) = wr_opened_list p" "stashed_list (upd_inode i f p) = stashed_list p"
  "stashed_nr (upd_inode i f p) = stashed_nr p" "live_inodes (upd_inode i f p) = live_inodes p"
  "stash_files (upd_inode i f p) = stash_files p" "need_rebuild (upd_inode i f p) = need_rebuild p"
  "remote_data (upd_inode i f p) = remote_data p"
  by (simp_all add: upd_inode_def)

text \<open>An update of one inode and of its places in the lists.\<close>

lemma stash_inv_one:
  assumes "stash_inv X opens p"
    and "distinct (wr_opened_list p')" "distinct (stashed_list p')" "stashed_nr p' = of_nat (length (stashed_list p'))"
    and "inode_ok X' opens' p' i"
    and "\<And>j. j \<noteq> i \<Longrightarrow> inode p' j = inode p j \<and> (j \<in> set (wr_opened_list p') \<longleftrightarrow> j \<in> set (wr_opened_list p)) \<and>
            (j \<in> set (stashed_list p') \<longleftrightarrow> j \<in> set (stashed_list p)) \<and> (j \<in> X' \<longleftrightarrow> j \<in> X) \<and> opens' j = opens j \<and>
            (j \<in> live_inodes p' \<longleftrightarrow> j \<in> live_inodes p)"
  shows "stash_inv X' opens' p'"
proof (rule stash_invI [OF assms(2-4)])
  fix j
  show "inode_ok X' opens' p' j"
    using assms(5) assms(6) [of j] stash_invD(4) [OF assms(1), of j] by (cases "j = i") (simp_all add: inode_ok_def)
qed

section \<open>The operations keep it\<close>

lemma inv_open:
  assumes "stash_inv X opens p" "i \<in> live_inodes p"
  shows "stash_inv X (opens(i := opens i + 1)) (hmdfs_remote_add_wr_opened_inode_nolock i p)"
  by (rule stash_inv_one [OF assms(1), where i = i])
     (use stash_invD(1-3) [OF assms(1)] stash_invD(4) [OF assms(1), of i] assms(2) in
       \<open>auto simp: hmdfs_remote_add_wr_opened_inode_nolock_def inode_ok_def\<close>)

lemma inv_close:
  assumes "stash_inv X opens p" "0 < opens i"
  shows "stash_inv X (opens(i := opens i - 1)) (hmdfs_remote_del_wr_opened_inode i p)"
  by (rule stash_inv_one [OF assms(1), where i = i])
     (use stash_invD(1-3) [OF assms(1)] stash_invD(4) [OF assms(1), of i] assms(2) in
       \<open>auto simp: hmdfs_remote_del_wr_opened_inode_def Let_def inode_ok_def\<close>)

lemma inv_fetch:
  assumes "stash_inv X opens p" "i \<in> set (wr_opened_list p)" "status_of p i = HMDFS_REMOTE_INODE_NONE" "i \<notin> X"
  shows "stash_inv (insert i X) opens (ihold i (hmdfs_remote_add_wr_opened_inode_nolock i p))"
  by (rule stash_inv_one [OF assms(1), where i = i])
     (use stash_invD(1-3) [OF assms(1)] stash_invD(4) [OF assms(1), of i] assms(2-4) in
       \<open>auto simp: hmdfs_remote_add_wr_opened_inode_nolock_def ihold_def inode_ok_def\<close>)

lemma inv_init_cache:
  assumes "stash_inv X opens p" "i \<in> X"
  shows "stash_inv (X - {i}) opens (hmdfs_init_stash_file_cache env i p)"
  by (rule stash_inv_one [OF assms(1), where i = i])
     (use stash_invD(1-3) [OF assms(1)] stash_invD(4) [OF assms(1), of i] assms(2) in
       \<open>auto simp: hmdfs_init_stash_file_cache_def inode_ok_def\<close>)

lemma fetch_step_other:
  "wr_opened_list (ihold i (hmdfs_remote_add_wr_opened_inode_nolock i p)) =
     (if i \<in> set (wr_opened_list p) then wr_opened_list p else wr_opened_list p @ [i])"
  by (simp add: ihold_def hmdfs_remote_add_wr_opened_inode_nolock_def)

lemma inv_fetch_ready:
  assumes "stash_inv X opens p" "set l \<subseteq> set (wr_opened_list p)" "distinct l" "set l \<inter> X = {}"
    and "fetch_ready_from l p = (l', p')"
  shows "stash_inv (X \<union> set l') opens p' \<and> distinct l' \<and> set l' \<inter> X = {} \<and> set l' \<subseteq> set l"
  using assms
proof (induction l arbitrary: p X l')
  case (Cons i l)
  show ?case
  proof (cases "status_of p i = HMDFS_REMOTE_INODE_NONE")
    case True
    let ?p = "ihold i (hmdfs_remote_add_wr_opened_inode_nolock i p)"
    obtain l1 where l1: "fetch_ready_from l ?p = (l1, p')" "l' = i # l1"
      using Cons.prems(5) True by (auto split: prod.splits)
    have inv: "stash_inv (insert i X) opens ?p"
      by (rule inv_fetch [OF Cons.prems(1)]) (use Cons.prems(2,4) True in auto)
    have "stash_inv (insert i X \<union> set l1) opens p' \<and> distinct l1 \<and> set l1 \<inter> insert i X = {} \<and> set l1 \<subseteq> set l"
      by (rule Cons.IH [OF inv _ _ _ l1(1)]) (use Cons.prems in \<open>auto simp: fetch_step_other\<close>)
    then show ?thesis using Cons.prems(4) by (auto simp: l1(2))
  next
    case False
    have "stash_inv (X \<union> set l') opens p' \<and> distinct l' \<and> set l' \<inter> X = {} \<and> set l' \<subseteq> set l"
      by (rule Cons.IH [OF Cons.prems(1)]) (use Cons.prems False in auto)
    then show ?thesis by auto
  qed
qed simp

lemma inv_init_caches:
  "stash_inv X opens p \<Longrightarrow> distinct l \<Longrightarrow> set l \<subseteq> X \<Longrightarrow> stash_inv (X - set l) opens (hmdfs_init_cache_for_stash_files env l p)"
proof (induction l arbitrary: X p)
  case (Cons i l)
  from Cons.prems have inv: "stash_inv (X - {i}) opens (hmdfs_init_stash_file_cache (env i) i p)" by (auto intro: inv_init_cache)
  have "stash_inv (X - {i} - set l) opens (hmdfs_init_cache_for_stash_files env l (hmdfs_init_stash_file_cache (env i) i p))"
    by (rule Cons.IH [OF inv]) (use Cons.prems in auto)
  then show ?case by (simp add: Diff_insert2 [symmetric])
qed simp

lemma inv_fetch_init:
  assumes "stash_inv {} opens p" "hmdfs_stash_fetch_ready_files p = (l, p1)"
  shows "stash_inv {} opens (hmdfs_init_cache_for_stash_files env l p1)"
proof -
  have "stash_inv ({} \<union> set l) opens p1 \<and> distinct l \<and> set l \<inter> {} = {} \<and> set l \<subseteq> set (wr_opened_list p)"
    by (rule inv_fetch_ready [OF assms(1)]) (use stash_invD(1) [OF assms(1)] assms(2) in \<open>auto simp: hmdfs_stash_fetch_ready_files_def\<close>)
  then show ?thesis using inv_init_caches [of "set l" opens p1 l env] by simp
qed

lemma inv_offline_prepare: "stash_inv {} opens p \<Longrightarrow> stash_inv {} opens (hmdfs_stash_offline_prepare en env p)"
  by (auto simp: hmdfs_stash_offline_prepare_def inv_fetch_init split: prod.splits)

lemma stash_remote_inode_state:
  assumes "hmdfs_stash_remote_inode crc32 env i p stats = (err, p1, stats1)"
  shows "\<exists>dir. p1 = upd_inode i (\<lambda>n. n\<lparr>fid_need_open := fid_need_open n \<or> err \<le> 0, i_cache := None,
       stash_status := (if err > 0 then HMDFS_REMOTE_INODE_RESTORING else HMDFS_REMOTE_INODE_NONE)\<rparr>) (p\<lparr>stash_files := dir\<rparr>)"
  using assms by (auto simp: hmdfs_stash_remote_inode_def Let_def split: prod.splits)

lemma inv_stash_one:
  assumes "stash_inv {} opens p" "status_of p i = HMDFS_REMOTE_INODE_STASHING"
    and "hmdfs_stash_remote_inode crc32 env i p stats = (err, p1, stats1)"
  defines "p2 \<equiv> (if err > 0 then hmdfs_track_inode_locked i p1 else p1)"
  defines "p3 \<equiv> hmdfs_remote_del_wr_opened_inode i p2"
  shows "stash_inv {} opens (if err \<le> 0 then iput i p3 else p3)"
    and "\<And>j. j \<noteq> i \<Longrightarrow> inode (if err \<le> 0 then iput i p3 else p3) j = inode p j"
proof -
  obtain dir where p1: "p1 = upd_inode i (\<lambda>n. n\<lparr>fid_need_open := fid_need_open n \<or> err \<le> 0, i_cache := None,
       stash_status := (if err > 0 then HMDFS_REMOTE_INODE_RESTORING else HMDFS_REMOTE_INODE_NONE)\<rparr>) (p\<lparr>stash_files := dir\<rparr>)"
    using stash_remote_inode_state [OF assms(3)] by blast
  note defs = p3_def p2_def p1 hmdfs_track_inode_locked_def hmdfs_remote_del_wr_opened_inode_def iput_def Let_def
  show "stash_inv {} opens (if err \<le> 0 then iput i p3 else p3)"
    by (rule stash_inv_one [OF assms(1), where i = i])
       (use stash_invD(1-3) [OF assms(1)] stash_invD(4) [OF assms(1), of i] assms(2) in \<open>auto simp: defs inode_ok_def\<close>)
  show "\<And>j. j \<noteq> i \<Longrightarrow> inode (if err \<le> 0 then iput i p3 else p3) j = inode p j"
    by (auto simp: defs)
qed

lemma inv_stash_loop:
  "stash_inv {} opens p \<Longrightarrow> distinct l \<Longrightarrow> \<forall>i \<in> set l. status_of p i = HMDFS_REMOTE_INODE_STASHING \<Longrightarrow>
     stash_inv {} opens (fst (stash_inodes_loop crc32 env l p stats))"
proof (induction l arbitrary: p stats)
  case (Cons i l)
  obtain err p1 s1 where r: "hmdfs_stash_remote_inode crc32 (env i) i p stats = (err, p1, s1)" by (metis prod_cases3)
  let ?p = "if err \<le> 0 then iput i (hmdfs_remote_del_wr_opened_inode i (if err > 0 then hmdfs_track_inode_locked i p1 else p1))
     else hmdfs_remote_del_wr_opened_inode i (if err > 0 then hmdfs_track_inode_locked i p1 else p1)"
  have st: "status_of p i = HMDFS_REMOTE_INODE_STASHING" using Cons.prems(3) by simp
  note one = inv_stash_one [OF Cons.prems(1) st r]
  have "\<forall>j \<in> set l. status_of ?p j = HMDFS_REMOTE_INODE_STASHING"
    using one(2) Cons.prems(2,3) by (metis distinct.simps(2) list.set_intros(2))
  with Cons.IH [OF one(1)] Cons.prems(2) show ?case by (simp only: stash_inodes_loop.simps r prod.case Let_def distinct.simps)
qed simp

lemma stash_inv_stats [simp]:
  "stash_inv X opens (p\<lparr>stash_statistics := t\<rparr>) = stash_inv X opens p"
  "stash_inv X opens (p\<lparr>restore_statistics := t'\<rparr>) = stash_inv X opens p"
  "stash_inv X opens (p\<lparr>rebuild_statistics := t''\<rparr>) = stash_inv X opens p"
  "stash_inv X opens (p\<lparr>need_rebuild := b\<rparr>) = stash_inv X opens p"
  "stash_inv X opens (p\<lparr>stash_files := d\<rparr>) = stash_inv X opens p"
  "stash_inv X opens (p\<lparr>remote_data := r\<rparr>) = stash_inv X opens p"
  by (simp_all add: stash_inv_def inode_ok_def)

lemma inv_remote_inodes:
  assumes "stash_inv {} opens p" "distinct l" "\<forall>i \<in> set l. status_of p i = HMDFS_REMOTE_INODE_STASHING"
  shows "stash_inv {} opens (hmdfs_stash_remote_inodes crc32 env l p)"
  using inv_stash_loop [OF assms] by (simp add: hmdfs_stash_remote_inodes_def split_beta)

lemma inv_do_stash:
  assumes "stash_inv {} opens p"
  shows "stash_inv {} opens (hmdfs_stash_offline_do_stash crc32 en cenv env p)"
proof (cases en)
  case True
  obtain l p1 where f: "hmdfs_stash_fetch_ready_files p = (l, p1)" by fastforce
  let ?p = "hmdfs_init_cache_for_stash_files cenv l p1"
  have inv: "stash_inv {} opens ?p" by (rule inv_fetch_init [OF assms f])
  let ?l = "filter (\<lambda>i. status_of ?p i = HMDFS_REMOTE_INODE_STASHING) (wr_opened_list ?p)"
  have "stash_inv {} opens (hmdfs_stash_remote_inodes crc32 env ?l ?p)"
    by (rule inv_remote_inodes [OF inv]) (use stash_invD(1) [OF inv] in auto)
  with True f inv show ?thesis by (simp add: hmdfs_stash_offline_do_stash_def Let_def)
qed (simp add: hmdfs_stash_offline_do_stash_def assms)

lemma nr_remove1: "i \<in> set l \<Longrightarrow> of_nat (length l) - 1 = (of_nat (length (remove1 i l)) :: u32)"
  using length_pos_if_in_set [of i l] by (cases "length l") (simp_all add: length_remove1)

lemma inv_reset:
  assumes "stash_inv X opens p" "i \<in> set (stashed_list p)"
  shows "stash_inv X opens (hmdfs_reset_stashed_inode i p)"
proof -
  note defs = hmdfs_reset_stashed_inode_def hmdfs_untrack_stashed_inode_def ihold_def iput_def Let_def
  show ?thesis
    by (rule stash_inv_one [OF assms(1), where i = i])
       (use stash_invD(1-3) [OF assms(1)] stash_invD(4) [OF assms(1), of i] assms(2) nr_remove1 [OF assms(2)] in
         \<open>auto simp: defs inode_ok_def\<close>)
qed

lemma stashed_reset [simp]: "stashed_list (hmdfs_reset_stashed_inode i p) = remove1 i (stashed_list p)"
  by (simp add: hmdfs_reset_stashed_inode_def hmdfs_untrack_stashed_inode_def ihold_def iput_def Let_def)

lemma inv_reset_each:
  "stash_inv X opens p \<Longrightarrow> distinct l \<Longrightarrow> set l \<subseteq> set (stashed_list p) \<Longrightarrow> stash_inv X opens (reset_each l p)"
proof (induction l arbitrary: p)
  case (Cons i l)
  then have inv: "stash_inv X opens (hmdfs_reset_stashed_inode i p)" by (auto intro: inv_reset)
  show ?case by (simp, rule Cons.IH [OF inv]) (use Cons.prems stash_invD(2) [OF Cons.prems(1)] in auto)
qed simp

lemma inv_drop: "stash_inv X opens p \<Longrightarrow> stash_inv X opens (hmdfs_drop_stashed_inodes p)"
  by (simp add: hmdfs_drop_stashed_inodes_def inv_reset_each stash_invD(2))

lemma inv_need_open [simp]: "stash_inv X opens (upd_inode i (\<lambda>n. n\<lparr>fid_need_open := b\<rparr>) p) = stash_inv X opens p"
proof -
  have "inode_ok X opens (upd_inode i (\<lambda>n. n\<lparr>fid_need_open := b\<rparr>) p) j = inode_ok X opens p j" for j
    by (simp add: inode_ok_def)
  then show ?thesis by (simp add: stash_inv_def)
qed

lemma lookup_stash_inode_in: "hmdfs_lookup_stash_inode inum p = Some i \<Longrightarrow> i \<in> set (stashed_list p) \<and> remote_ino (inode p i) = inum"
  by (auto simp: hmdfs_lookup_stash_inode_def find_Some_iff)

lemma inv_restore_file:
  assumes "stash_inv X opens p" "hmdfs_restore_file crc32 env ctx p = Some (err, ctx1, p1)"
  shows "stash_inv X opens p1"
proof (cases "hmdfs_lookup_stash_inode (r_inum ctx) p")
  case None
  with assms show ?thesis by (simp add: hmdfs_restore_file_def)
next
  case (Some i)
  have i: "i \<in> set (stashed_list p)" using lookup_stash_inode_in [OF Some] by blast
  have r: "stash_inv X opens (hmdfs_reset_stashed_inode i q)" if "stash_inv X opens q" "stashed_list q = stashed_list p" for q
    using inv_reset [OF that(1)] i that(2) by simp
  let ?q = "upd_inode i (\<lambda>n. n\<lparr>fid_need_open := True\<rparr>) p"
  have q: "stash_inv X opens ?q" "stashed_list ?q = stashed_list p" using assms(1) by simp_all
  show ?thesis
  proof (cases "status_of p i = HMDFS_REMOTE_INODE_RESTORING")
    case False
    with assms Some r [OF assms(1) refl] show ?thesis by (simp add: hmdfs_restore_file_def)
  next
    case st: True
    then obtain e c where o: "hmdfs_open_restore_dst_file crc32 env ctx = Some (e, c)"
      using assms(2) Some by (auto simp: hmdfs_restore_file_def Let_def bind_eq_Some_conv)
    note d = assms(2) [unfolded hmdfs_restore_file_def Let_def, simplified Some o st, simplified]
    show ?thesis
    proof (cases "e \<noteq> 0 \<or> hmdfs_need_abort_restore env i")
      case True
      with d q(1) r [OF q] st show ?thesis by (auto split: if_splits)
    next
      case False
      with d st obtain dst1 where "p1 = (if err = - 108 then ?q\<lparr>remote_data := (remote_data ?q)(i := dst1)\<rparr>
          else hmdfs_reset_stashed_inode i (?q\<lparr>remote_data := (remote_data ?q)(i := dst1)\<rparr>))"
        by (auto simp: bind_eq_Some_conv)
      moreover have "stash_inv X opens (?q\<lparr>remote_data := (remote_data ?q)(i := dst1)\<rparr>)" using q(1) by simp
      ultimately show ?thesis using r [of "?q\<lparr>remote_data := (remote_data ?q)(i := dst1)\<rparr>"] by simp
    qed
  qed
qed

lemma inv_del_stash_file [simp]: "stash_inv X opens (hmdfs_del_stash_file denv inum p) = stash_inv X opens p"
  by (simp add: hmdfs_del_stash_file_def)

lemma inv_restore_loop:
  "stash_inv X opens p \<Longrightarrow> restore_files_loop crc32 denv env seq tbl p stats = Some (err, p1, stats1) \<Longrightarrow> stash_inv X opens p1"
proof (induction tbl arbitrary: p stats)
  case (Cons inum tbl)
  show ?case
  proof (cases "hmdfs_open_stash_file denv (stash_files p) inum")
    case (Inl e)
    with Cons.prems show ?thesis by (auto intro: Cons.IH)
  next
    case (Inr f)
    with Cons.prems(2) obtain e c q where
      r: "hmdfs_restore_file crc32 (env inum) (init_ctx seq inum f) p = Some (e, c, q)" by (auto simp: bind_eq_Some_conv)
    have "stash_inv X opens q" by (rule inv_restore_file [OF Cons.prems(1) r])
    then have q: "stash_inv X opens (if r_keep c then q else hmdfs_del_stash_file denv inum q)" by simp
    show ?thesis
    proof (cases "e = - 108")
      case True
      with Cons.prems(2) Inr r q show ?thesis by (auto simp: Let_def)
    next
      case False
      with Cons.prems(2) Inr r Cons.IH [OF q] show ?thesis by (simp add: Let_def)
    qed
  qed
qed simp

text \<open>What the operation on a table keeps, the rounds over the directory keep.\<close>

lemma iter_rounds_keep:
  assumes "P st" "\<And>tbl s err s1. P s \<Longrightarrow> operation tbl s = Some (err, s1) \<Longrightarrow> P s1"
    and "iter_stash_rounds k iter_ret operation es st = Some (err, st1)"
  shows "P st1"
  using assms
proof (induction k iter_ret operation es st rule: iter_stash_rounds.induct)
  case (1 k iter_ret operation es st)
  obtain tbl rest where t: "iterate_dir (hmdfs_fill_stash_file k) es [] = (tbl, rest)" by fastforce
  show ?case
  proof (cases "iter_ret es \<noteq> 0 \<or> tbl = []")
    case True
    with "1.prems"(1,3) t show ?thesis by (subst (asm) iter_stash_rounds.simps) auto
  next
    case False
    with "1.prems"(3) t obtain e s1 where o: "operation tbl st = Some (e, s1)"
      by (subst (asm) iter_stash_rounds.simps) (auto split: option.splits)
    have p1: "P s1" using "1.prems"(2) [OF "1.prems"(1) o] .
    show ?thesis
    proof (cases "e = 0")
      case True
      have "iter_stash_rounds k iter_ret operation rest s1 = Some (err, st1)"
        using "1.prems"(3) t False o True by (subst (asm) iter_stash_rounds.simps) simp
      from "1.IH" [OF t [symmetric] False o refl _ p1 _ this] show ?thesis using True "1.prems"(2) by auto
    next
      case nz: False
      with "1.prems"(3) t False o p1 show ?thesis by (subst (asm) iter_stash_rounds.simps) auto
    qed
  qed
qed

lemma inv_online_do_restore:
  assumes "stash_inv X opens p" "hmdfs_stash_online_do_restore crc32 k en env seq es p = Some p'"
  shows "stash_inv X opens p'"
proof (cases "\<not> en \<or> need_rebuild p")
  case True
  with assms show ?thesis by (simp add: hmdfs_stash_online_do_restore_def)
next
  case False
  let ?s0 = "\<lparr>rs_succeed = 0, rs_fail = 0, rs_keep = 0, rs_ok_pages = 0, rs_fail_pages = 0\<rparr>"
  have keep: "stash_inv X opens (fst s1)"
    if "stash_inv X opens (fst s)" "hmdfs_restore_files crc32 (n_init env) (n_denv env) (n_env env) seq tbl s = Some (err, s1)"
    for tbl s err s1
    using that inv_restore_loop [OF that(1)] by (cases s1) (auto simp: hmdfs_restore_files_def split: if_splits)
  have it: "stash_inv X opens (fst s1)"
    if "hmdfs_iter_stash_file (n_alloc env) k (n_iter env) (hmdfs_restore_files crc32 (n_init env) (n_denv env) (n_env env) seq) es (p, ?s0) = Some (err, s1)" for err s1
  proof (cases "n_alloc env")
    case True
    with that have r: "iter_stash_rounds k (n_iter env) (hmdfs_restore_files crc32 (n_init env) (n_denv env) (n_env env) seq) es (p, ?s0) = Some (err, s1)"
      by (simp add: hmdfs_iter_stash_file_def)
    show ?thesis
      by (rule iter_rounds_keep [where P = "\<lambda>s. stash_inv X opens (fst s)", OF _ keep r]) (simp_all add: assms(1))
  next
    case False
    with that assms(1) show ?thesis by (auto simp: hmdfs_iter_stash_file_def)
  qed
  obtain err p1 st where
    r: "(if hmdfs_open_stash_dir (n_dir env) (n_open env) \<noteq> 0 then Some (hmdfs_open_stash_dir (n_dir env) (n_open env), p, ?s0)
         else hmdfs_iter_stash_file (n_alloc env) k (n_iter env) (hmdfs_restore_files crc32 (n_init env) (n_denv env) (n_env env) seq) es (p, ?s0))
         = Some (err, p1, st)"
    and p': "p' = (let p2 = (if err \<noteq> - 108 then hmdfs_drop_stashed_inodes p1 else p1)
        in p2\<lparr>restore_statistics := hmdfs_update_peer_restore_stats st (restore_statistics p2)\<rparr>)"
    using assms(2) False by (auto simp: hmdfs_stash_online_do_restore_def Let_def bind_eq_Some_conv)
  have "stash_inv X opens p1" using r it [of err "(p1, st)"] assms(1) by (simp split: if_splits)
  then show ?thesis using inv_drop by (simp add: p' Let_def)
qed

lemma inv_new_inode:
  assumes "stash_inv X opens p"
  shows "stash_inv X opens (new_inode_stash_status env cid en reg i p)"
proof (cases "i \<in> live_inodes p")
  case True
  then show ?thesis by (simp add: new_inode_stash_status_def assms)
next
  case False
  note defs = new_inode_stash_status_def hmdfs_remote_init_stash_status_def hmdfs_stash_rebuild_status_def
    hmdfs_track_inode_locked_def ihold_def Let_def
  show ?thesis
    by (rule stash_inv_one [OF assms, where i = i])
       (use stash_invD(1-3) [OF assms] stash_invD(4) [OF assms, of i] False in \<open>auto simp: defs inode_ok_def\<close>)
qed

lemma inv_rebuild_loop:
  "stash_inv X opens p \<Longrightarrow> rebuild_loop crc32 denv env fresh cid en seq tbl p stats = Some (err, p1, stats1) \<Longrightarrow> stash_inv X opens p1"
proof (induction tbl arbitrary: p stats)
  case (Cons inum tbl)
  show ?case
  proof (cases "hmdfs_open_stash_file denv (stash_files p) inum")
    case (Inl e)
    with Cons.prems show ?thesis by (auto intro: Cons.IH)
  next
    case (Inr f)
    with Cons.prems(2) obtain e c where
      r: "hmdfs_open_restore_dst_file crc32 (env inum) (init_ctx seq inum f) = Some (e, c)" by (auto simp: bind_eq_Some_conv)
    note d = Cons.prems(2) [simplified, unfolded Inr, simplified, unfolded r, simplified]
    consider "e = - 108" | "e \<noteq> - 108" "e \<noteq> 0" | "e = 0" by blast
    then show ?thesis
    proof cases
      case 1
      with d Cons.prems(1) show ?thesis by auto
    next
      case 2
      with d Cons.IH [OF Cons.prems(1)] show ?thesis by simp
    next
      case 3
      with d Cons.IH [OF inv_new_inode [OF Cons.prems(1)]] show ?thesis by (simp add: Let_def)
    qed
  qed
qed simp

lemma inv_online_prepare:
  assumes "stash_inv X opens p" "hmdfs_stash_online_prepare crc32 k en env fresh cid seq es p = Some p'"
  shows "stash_inv X opens p'"
proof -
  let ?op = "hmdfs_rebuild_stash_list crc32 (n_init env) (n_denv env) (n_env env) fresh cid en seq"
  let ?s0 = "\<lparr>rb_succeed = 0, rb_total = 0, rb_fail = 0, rb_invalid = 0\<rparr>"
  have keep: "stash_inv X opens (fst s1)" if "stash_inv X opens (fst s)" "?op tbl s = Some (err, s1)" for tbl s err s1
    using that inv_rebuild_loop [OF that(1)] by (cases s1) (auto simp: hmdfs_rebuild_stash_list_def split: if_splits)
  have it: "stash_inv X opens (fst s1)"
    if "hmdfs_iter_stash_file (n_alloc env) k (n_iter env) ?op es (p, ?s0) = Some (err, s1)" for err s1
  proof (cases "n_alloc env")
    case True
    with that have r: "iter_stash_rounds k (n_iter env) ?op es (p, ?s0) = Some (err, s1)" by (simp add: hmdfs_iter_stash_file_def)
    show ?thesis
      by (rule iter_rounds_keep [where P = "\<lambda>s. stash_inv X opens (fst s)", OF _ keep r]) (simp_all add: assms(1))
  next
    case False
    with that assms(1) show ?thesis by (auto simp: hmdfs_iter_stash_file_def)
  qed
  show ?thesis using assms it
    by (auto simp: hmdfs_stash_online_prepare_def rebuild_timed_def bind_eq_Some_conv split: if_splits)
qed

section \<open>Every run\<close>

text \<open>A page goes to the cache of an inode that is being stashed.\<close>

definition stash_page :: "hmdfs_writepage_context \<Rightarrow> int \<Rightarrow> nat \<Rightarrow> stash_peer \<Rightarrow> stash_peer" where
  "stash_page ctx written i p =
     upd_inode i (\<lambda>n. n\<lparr>i_cache := snd (hmdfs_stash_writepage ctx written (i_cache n))\<rparr>) p"

definition fresh_inode :: "stash_inode \<Rightarrow> bool" where
  "fresh_inode n \<longleftrightarrow> stash_status n = HMDFS_REMOTE_INODE_NONE \<and> i_cache n = None \<and> wr_opened_cnt n = 0 \<and> i_refs n = 0"

text \<open>
  The states of a peer and the files open for writing; \<open>en\<close> is the mount option,
  the checksum and the parser of names are parameters.
\<close>

inductive stash_run :: "(byte list \<Rightarrow> u32) \<Rightarrow> (byte list \<Rightarrow> u64 option) \<Rightarrow> bool \<Rightarrow> (nat \<Rightarrow> nat) \<Rightarrow> stash_peer \<Rightarrow> bool"
  for crc32 :: "byte list \<Rightarrow> u32" and k :: "byte list \<Rightarrow> u64 option" and en :: bool where
  run_start: "wr_opened_list p = [] \<Longrightarrow> stashed_list p = [] \<Longrightarrow> stashed_nr p = 0 \<Longrightarrow> \<forall>i. fresh_inode (inode p i)
     \<Longrightarrow> stash_run crc32 k en (\<lambda>_. 0) p"
| run_open: "stash_run crc32 k en opens p \<Longrightarrow> i \<in> live_inodes p
     \<Longrightarrow> stash_run crc32 k en (opens(i := opens i + 1)) (hmdfs_remote_add_wr_opened_inode_nolock i p)"
| run_close: "stash_run crc32 k en opens p \<Longrightarrow> 0 < opens i
     \<Longrightarrow> stash_run crc32 k en (opens(i := opens i - 1)) (hmdfs_remote_del_wr_opened_inode i p)"
| run_page: "stash_run crc32 k en opens p \<Longrightarrow> status_of p i = HMDFS_REMOTE_INODE_STASHING
     \<Longrightarrow> stash_run crc32 k en opens (stash_page ctx written i p)"
| run_new_inode: "stash_run crc32 k en opens p \<Longrightarrow> stash_run crc32 k en opens (new_inode_stash_status renv cid en reg i p)"
| run_evict: "stash_run crc32 k en opens p \<Longrightarrow> opens i = 0 \<Longrightarrow> i_refs (inode p i) = 0
     \<Longrightarrow> stash_run crc32 k en opens (p\<lparr>live_inodes := live_inodes p - {i}\<rparr>)"
| run_offline_prepare: "stash_run crc32 k en opens p \<Longrightarrow> stash_run crc32 k en opens (hmdfs_stash_offline_prepare en cenv p)"
| run_offline_do_stash: "stash_run crc32 k en opens p \<Longrightarrow> stash_run crc32 k en opens (hmdfs_stash_offline_do_stash crc32 en cenv senv p)"
| run_add_do_check: "stash_run crc32 k en opens p \<Longrightarrow> stash_run crc32 k en opens (hmdfs_stash_add_do_check k en oenv es p)"
| run_online_prepare: "stash_run crc32 k en opens p \<Longrightarrow>
     hmdfs_stash_online_prepare crc32 k en oenv fresh cid seq es p = Some p' \<Longrightarrow> stash_run crc32 k en opens p'"
| run_online_do_restore: "stash_run crc32 k en opens p \<Longrightarrow>
     hmdfs_stash_online_do_restore crc32 k en oenv seq es p = Some p' \<Longrightarrow> stash_run crc32 k en opens p'"

lemma inv_page:
  assumes "stash_inv X opens p" "status_of p i = HMDFS_REMOTE_INODE_STASHING"
  shows "stash_inv X opens (stash_page ctx written i p)"
  by (rule stash_inv_one [OF assms(1), where i = i])
     (use stash_invD(1-3) [OF assms(1)] stash_invD(4) [OF assms(1), of i] assms(2) in \<open>auto simp: stash_page_def inode_ok_def\<close>)

lemma inv_evict:
  assumes "stash_inv {} opens p" "opens i = 0" "i_refs (inode p i) = 0"
  shows "stash_inv {} opens (p\<lparr>live_inodes := live_inodes p - {i}\<rparr>)"
  by (rule stash_inv_one [OF assms(1), where i = i])
     (use stash_invD(1-3) [OF assms(1)] stash_invD(4) [OF assms(1), of i] assms(2,3) in \<open>auto simp: inode_ok_def split: if_splits\<close>)

lemma stash_run_inv: "stash_run crc32 k en opens p \<Longrightarrow> stash_inv {} opens p"
proof (induction rule: stash_run.induct)
  case (run_start p)
  then show ?case by (auto simp: stash_inv_def inode_ok_def fresh_inode_def)
next
  case (run_add_do_check opens p oenv es)
  then show ?case by (simp add: hmdfs_stash_add_do_check_def hmdfs_rebuild_check_work_fn_def)
next
  case (run_open opens p i)
  then show ?case by (intro inv_open)
next
  case (run_close opens p i)
  then show ?case by (intro inv_close)
qed (auto intro: inv_page inv_new_inode inv_evict inv_offline_prepare inv_do_stash
       inv_online_prepare inv_online_do_restore)


definition sample_stash_peer :: stash_peer where
  "sample_stash_peer = \<lparr>inode = (\<lambda>i. \<lparr>remote_ino = of_nat i, stash_status = HMDFS_REMOTE_INODE_NONE, i_cache = None,
       wr_opened_cnt = 0, i_refs = 0, fid_need_open = False\<rparr>),
     wr_opened_list = [], stashed_list = [], stashed_nr = 0, stash_files = Map.empty, need_rebuild = False,
     live_inodes = {7}, remote_data = (\<lambda>_. [1, 1, 1]),
     stash_statistics = \<lparr>st_cur_ok = 0, st_cur_nothing = 0, st_cur_fail = 0, st_total_ok = 0, st_total_nothing = 0,
       st_total_fail = 0, st_ok_pages = 0, st_fail_pages = 0\<rparr>,
     restore_statistics = \<lparr>re_cur_ok = 0, re_cur_fail = 0, re_cur_keep = 0, re_total_ok = 0, re_total_fail = 0,
       re_total_keep = 0, re_ok_pages = 0, re_fail_pages = 0\<rparr>,
     rebuild_statistics = \<lparr>rb_cur_ok = 0, rb_cur_fail = 0, rb_cur_invalid = 0, rb_total_ok = 0, rb_total_fail = 0,
       rb_total_invalid = 0, rb_time = 0\<rparr>\<rparr>"

definition sample_cache_env :: cache_env where
  "sample_cache_env = \<lparr>a_cache = True, a_buf = True, d_alias = Some (Inr [47, 97]), d_parent = Directory, d_mkdir = 0, d_open = 0\<rparr>"

text \<open>A file is opened for writing and its peer goes offline.\<close>

definition sample_offline :: stash_peer where
  "sample_offline = hmdfs_stash_offline_prepare True (\<lambda>_. sample_cache_env)
     (hmdfs_remote_add_wr_opened_inode_nolock 7 sample_stash_peer)"

lemma sample_offline_run: "stash_run c k True ((\<lambda>_. 0)(7 := 0 + 1)) sample_offline"
  unfolding sample_offline_def
  by (rule run_offline_prepare, rule run_open, rule run_start) (simp_all add: sample_stash_peer_def fresh_inode_def)

lemma sample_offline_status: "status_of sample_offline 7 = HMDFS_REMOTE_INODE_STASHING"
  by (simp add: sample_offline_def hmdfs_stash_offline_prepare_def hmdfs_stash_fetch_ready_files_def
      hmdfs_remote_add_wr_opened_inode_nolock_def sample_stash_peer_def ihold_def hmdfs_init_stash_file_cache_def)


end
