(* ===== verification/Stash_Restore.thy ===== *)
theory Stash_Restore
  imports Stash_Inv
begin

text \<open>
  The stash of an inode from going offline to the restored remote file: the
  restore always returns, puts exactly the stashed pages into the remote file, and
  when the peer goes offline again it is repeated with the same result.
\<close>

section \<open>Restoring returns\<close>

lemma restore_src_total:
  assumes "seek_progress env (r_src ctx)"
  shows "\<exists>r. hmdfs_restore_src_to_dst env ctx dst = Some r"
proof -
  obtain err dst1 where "hmdfs_copy_src_to_dst env (r_seq ctx) (r_src ctx) (r_data_offs ctx) dst = Some (err, dst1)"
    using copy_loop_ends [OF assms] unfolding hmdfs_copy_src_to_dst_def by (metis surj_pair)
  then show ?thesis by (simp add: hmdfs_restore_src_to_dst_def Let_def)
qed

lemma open_dst_total:
  "\<exists>err ctx1. hmdfs_open_restore_dst_file crc32 env ctx = Some (err, ctx1) \<and> r_src ctx1 = r_src ctx \<and> r_seq ctx1 = r_seq ctx \<and>
     (err = 0 \<longrightarrow> r_data_offs ctx1 = data_offs_of (r_src ctx))"
  using metadata_total [of crc32 "e_lims env" ctx] by (auto simp: hmdfs_open_restore_dst_file_def)

lemma restore_file_total:
  assumes "seek_progress (e_copy env) (r_src ctx)"
  shows "\<exists>r. hmdfs_restore_file crc32 env ctx p = Some r"
proof (cases "hmdfs_lookup_stash_inode (r_inum ctx) p")
  case (Some i)
  obtain e c where o: "hmdfs_open_restore_dst_file crc32 env ctx = Some (e, c)" "r_src c = r_src ctx"
    using open_dst_total by blast
  obtain r where "hmdfs_restore_src_to_dst (e_copy env) c (remote_data p i) = Some r"
    using restore_src_total assms o(2) by metis
  then show ?thesis using Some o(1) by (cases r) (simp add: hmdfs_restore_file_def Let_def)
qed (simp add: hmdfs_restore_file_def)

text \<open>The three ends of the restore of a pinned inode.\<close>

lemma restore_file_pinned:
  assumes "hmdfs_lookup_stash_inode (r_inum ctx) p = Some i" "status_of p i = HMDFS_REMOTE_INODE_RESTORING"
    and "hmdfs_open_restore_dst_file crc32 env ctx = Some (e, c)"
  defines "q \<equiv> upd_inode i (\<lambda>n. n\<lparr>fid_need_open := True\<rparr>) p"
  shows "e \<noteq> 0 \<Longrightarrow> hmdfs_restore_file crc32 env ctx p =
      Some (e, c\<lparr>r_keep := (e = - ESHUTDOWN)\<rparr>, if e = - ESHUTDOWN then q else hmdfs_reset_stashed_inode i q)"
    and "e = 0 \<Longrightarrow> hmdfs_need_abort_restore env i \<Longrightarrow> hmdfs_restore_file crc32 env ctx p =
      Some (0, c\<lparr>r_keep := False\<rparr>, hmdfs_reset_stashed_inode i q)"
    and "e = 0 \<Longrightarrow> \<not> hmdfs_need_abort_restore env i \<Longrightarrow> hmdfs_restore_src_to_dst (e_copy env) c (remote_data p i) = Some (err, dst) \<Longrightarrow>
      hmdfs_restore_file crc32 env ctx p =
      Some (err, c\<lparr>r_keep := (err = - ESHUTDOWN)\<rparr>,
        if err = - ESHUTDOWN then q\<lparr>remote_data := (remote_data q)(i := dst)\<rparr>
        else hmdfs_reset_stashed_inode i (q\<lparr>remote_data := (remote_data q)(i := dst)\<rparr>))"
    and "e = 0 \<Longrightarrow> \<not> hmdfs_need_abort_restore env i \<Longrightarrow> hmdfs_restore_src_to_dst (e_copy env) c (remote_data p i) = None \<Longrightarrow>
      hmdfs_restore_file crc32 env ctx p = None"
  using assms(1-3) by (simp_all add: hmdfs_restore_file_def q_def Let_def)

text \<open>Restoring files only removes stash files.\<close>

lemma stash_files_reset [simp]: "stash_files (hmdfs_reset_stashed_inode i p) = stash_files p"
  by (simp add: hmdfs_reset_stashed_inode_def hmdfs_untrack_stashed_inode_def ihold_def iput_def Let_def)

lemma restore_file_files:
  "hmdfs_restore_file crc32 env ctx p = Some (err, ctx1, p1) \<Longrightarrow> stash_files p1 = stash_files p"
proof (cases "hmdfs_lookup_stash_inode (r_inum ctx) p")
  case (Some i)
  assume r: "hmdfs_restore_file crc32 env ctx p = Some (err, ctx1, p1)"
  obtain e c where o: "hmdfs_open_restore_dst_file crc32 env ctx = Some (e, c)" using open_dst_total by blast
  show ?thesis
  proof (cases "status_of p i = HMDFS_REMOTE_INODE_RESTORING")
    case True
    note ends = restore_file_pinned [OF Some True o]
    consider "e \<noteq> 0" | "e = 0" "hmdfs_need_abort_restore env i"
      | d err' where "e = 0" "\<not> hmdfs_need_abort_restore env i" "hmdfs_restore_src_to_dst (e_copy env) c (remote_data p i) = Some (err', d)"
      using ends(4) r by (cases "hmdfs_restore_src_to_dst (e_copy env) c (remote_data p i)") auto
    then show ?thesis
    proof cases
      case 1
      then show ?thesis using ends(1) r by (auto split: if_splits)
    next
      case 2
      then show ?thesis using ends(2) r by auto
    next
      case 3
      then show ?thesis using ends(3) r by (auto split: if_splits)
    qed
  qed (use r Some in \<open>auto simp: hmdfs_restore_file_def\<close>)
qed (simp add: hmdfs_restore_file_def)

lemma del_stash_file_files: "stash_files (hmdfs_del_stash_file denv inum p) \<subseteq>\<^sub>m stash_files p"
  by (auto simp: hmdfs_del_stash_file_def map_le_def)

definition seeks_fine :: "(u64 \<Rightarrow> restore_env) \<Rightarrow> stash_dir \<Rightarrow> bool" where
  "seeks_fine env dir \<longleftrightarrow> (\<forall>inum f. dir (stash_file_name inum) = Some f \<longrightarrow> seek_progress (e_copy (env inum)) f)"

lemma seeks_fine_mono: "seeks_fine env dir \<Longrightarrow> dir' \<subseteq>\<^sub>m dir \<Longrightarrow> seeks_fine env dir'"
  unfolding seeks_fine_def by (metis (no_types, lifting) domI map_le_def)

lemma open_stash_file_Inr: "hmdfs_open_stash_file denv dir inum = Inr f \<Longrightarrow> dir (stash_file_name inum) = Some f"
  by (auto simp: hmdfs_open_stash_file_def split: if_splits option.splits)

lemma restore_loop_total:
  "seeks_fine env (stash_files p) \<Longrightarrow>
     \<exists>err p1 s1. restore_files_loop crc32 denv env seq tbl p stats = Some (err, p1, s1) \<and> stash_files p1 \<subseteq>\<^sub>m stash_files p"
proof (induction tbl arbitrary: p stats)
  case (Cons inum tbl)
  show ?case
  proof (cases "hmdfs_open_stash_file denv (stash_files p) inum")
    case (Inl e)
    with Cons.IH [OF Cons.prems] show ?thesis by simp
  next
    case (Inr f)
    then have "seek_progress (e_copy (env inum)) (r_src (init_ctx seq inum f))"
      using Cons.prems open_stash_file_Inr by (simp add: seeks_fine_def init_ctx_def)
    then obtain e c q where r: "hmdfs_restore_file crc32 (env inum) (init_ctx seq inum f) p = Some (e, c, q)"
      using restore_file_total by (metis prod_cases3)
    let ?q = "if r_keep c then q else hmdfs_del_stash_file denv inum q"
    have le: "stash_files ?q \<subseteq>\<^sub>m stash_files p"
      using restore_file_files [OF r] del_stash_file_files [of denv inum q] by simp
    show ?thesis
    proof (cases "e = - 108")
      case True
      with Inr r le show ?thesis by (simp add: Let_def)
    next
      case False
      obtain st where st: "st = hmdfs_update_restore_stats (r_keep c) (r_pages c) e stats" by simp
      have "restore_files_loop crc32 denv env seq (inum # tbl) p stats = restore_files_loop crc32 denv env seq tbl ?q st"
        using Inr r False by (simp add: Let_def st)
      then show ?thesis using Cons.IH [OF seeks_fine_mono [OF Cons.prems le], of st] map_le_trans [OF _ le] by metis
    qed
  qed
qed simp

lemma iter_rounds_total:
  assumes "P st" "\<And>tbl s. P s \<Longrightarrow> \<exists>err s1. operation tbl s = Some (err, s1) \<and> P s1"
  shows "\<exists>r. iter_stash_rounds k iter_ret operation es st = Some r"
  using assms
proof (induction k iter_ret operation es st rule: iter_stash_rounds.induct)
  case (1 k iter_ret operation es st)
  obtain tbl rest where t: "iterate_dir (hmdfs_fill_stash_file k) es [] = (tbl, rest)" by fastforce
  obtain e s1 where o: "operation tbl st = Some (e, s1)" "P s1" using "1.prems"(2) [OF "1.prems"(1)] by blast
  show ?case
  proof (cases "iter_ret es \<noteq> 0 \<or> tbl = [] \<or> e \<noteq> 0")
    case True
    with t o show ?thesis by (subst iter_stash_rounds.simps) auto
  next
    case False
    then have "\<exists>r. iter_stash_rounds k iter_ret operation rest s1 = Some r"
      using "1.IH" [OF t [symmetric] _ o(1) refl _ o(2)] "1.prems"(2) by auto
    with t o False show ?thesis by (subst iter_stash_rounds.simps) auto
  qed
qed

text \<open>
  C20 (termination). When a peer is online again, \<open>hmdfs_stash_online_do_restore\<close>
  returns for every content of the directory of stash files, damaged or hostile
  ones included: no head is read outside its buffer, and the loops over the data
  of a file, over the files of a table and over the tables of the directory end.
  Of the file system below only what \<open>lseek\<close> documents is assumed: seeking data
  gives an error or a position not before the one given, inside the file.
\<close>
theorem online_restore_returns:
  assumes "seeks_fine (n_env env) (stash_files p)"
  shows "\<exists>p'. hmdfs_stash_online_do_restore crc32 k en env seq es p = Some p'"
proof -
  let ?op = "hmdfs_restore_files crc32 (n_init env) (n_denv env) (n_env env) seq"
  let ?s0 = "\<lparr>rs_succeed = 0, rs_fail = 0, rs_keep = 0, rs_ok_pages = 0, rs_fail_pages = 0\<rparr> :: hmdfs_restore_stats"
  have "\<exists>err s1. ?op tbl s = Some (err, s1) \<and> seeks_fine (n_env env) (stash_files (fst s1))"
    if fine: "seeks_fine (n_env env) (stash_files (fst s))" for tbl s
  proof -
    obtain err p1 s1 where "restore_files_loop crc32 (n_denv env) (n_env env) seq tbl (fst s) (snd s) = Some (err, p1, s1)"
      "stash_files p1 \<subseteq>\<^sub>m stash_files (fst s)" using restore_loop_total [OF fine] by blast
    then show ?thesis using fine seeks_fine_mono [OF fine] by (cases s) (simp add: hmdfs_restore_files_def)
  qed
  then have "\<exists>r. iter_stash_rounds k (n_iter env) ?op es (p, ?s0) = Some r"
    using iter_rounds_total [where P = "\<lambda>s. seeks_fine (n_env env) (stash_files (fst s))" and st = "(p, ?s0)"] assms by simp
  then show ?thesis by (auto simp: hmdfs_stash_online_do_restore_def hmdfs_iter_stash_file_def Let_def)
qed

section \<open>The stashed pages arrive\<close>

text \<open>The end of the stashed data in the remote file.\<close>

definition stash_end :: "hmdfs_writepage_context list \<Rightarrow> nat" where
  "stash_end ws = fold (\<lambda>w m. max m (pg_index w * 4096 + pg_count w)) ws 0"

lemma stash_end_snoc: "stash_end (ws @ [w]) = max (stash_end ws) (pg_index w * 4096 + pg_count w)"
  by (simp add: stash_end_def)

lemma stash_view_snoc: "stash_view (ws @ [w]) = put_page w (stash_view ws)"
  by (simp add: stash_view_def)

lemma stash_view_page:
  "\<forall>w \<in> set ws. good_page w \<Longrightarrow> (\<exists>i. stash_view ws i \<noteq> None \<and> i div 4096 = k) \<longleftrightarrow> (\<exists>w \<in> set ws. pg_index w = k)"
proof (induction ws rule: rev_induct)
  case (snoc w ws)
  have at: "(pg_index w * 4096 \<le> i \<and> i < pg_index w * 4096 + pg_count w) \<Longrightarrow> i div 4096 = pg_index w" for i
    using snoc.prems by (auto simp: good_page_def)
  have "pg_index w * 4096 < pg_index w * 4096 + pg_count w" using snoc.prems by (simp add: good_page_def)
  then have "(\<exists>i. put_page w v i \<noteq> None \<and> i div 4096 = k) \<longleftrightarrow> k = pg_index w \<or> (\<exists>i. v i \<noteq> None \<and> i div 4096 = k)" for v
    using at unfolding put_page_def by (smt (verit) nonzero_mult_div_cancel_right option.discI order_refl zero_neq_numeral)
  with snoc show ?case by (auto simp: stash_view_snoc)
qed (simp add: stash_view_def)

text \<open>The size of the stash file after the pages.\<close>

lemma stash_pages_append: "stash_pages (xs @ ys) c = stash_pages ys (stash_pages xs c)"
  by (induction xs c rule: stash_pages.induct) simp_all

lemma stash_pages_size:
  assumes "cache_holds path 0 (stash_view []) c" "\<forall>w \<in> set ws. good_page w" "f_data (cache_file c) = []"
    and "stash_pages (map (\<lambda>w. (w, int (pg_count w))) ws) (Some c) = Some c'"
  shows "length (f_data (cache_file c')) = (if ws = [] then 0 else 8192 + stash_end ws)"
  using assms(2,4)
proof (induction ws arbitrary: c' rule: rev_induct)
  case Nil
  then show ?case using assms(3) by simp
next
  case (snoc w ws)
  have gw: "good_page w" and gws: "\<forall>w \<in> set ws. good_page w" using snoc.prems(1) by simp_all
  obtain c1 where c1: "stash_pages (map (\<lambda>w. (w, int (pg_count w))) ws) (Some c) = Some c1"
    "cache_holds path (0 + length ws) (fold put_page ws (stash_view [])) c1"
    using stash_pages_hold [OF assms(1) gws] by blast
  have sh: "pg_index w * 4096 + unat (push_bit 12 (c_data_offs c1)) = (pg_index w + 2) * 4096"
    using c1(2) by (simp add: cache_holds_def push_bit_eq_mult)
  have w: "hmdfs_stash_writepage w (int (pg_count w)) (Some c1) = (0, Some c')"
    using snoc.prems(2) c1(1) writepage_holds [OF c1(2) gw] by (auto simp: stash_pages_append)
  have ne: "take (pg_count w) (pg_data w) \<noteq> []" and l: "length (take (pg_count w) (pg_data w)) = pg_count w"
    using gw by (auto simp: good_page_def)
  have "cache_file c' = kernel_write (cache_file c1) (take (pg_count w) (pg_data w)) ((pg_index w + 2) * 4096) (int (pg_count w))"
    using w unfolding hmdfs_stash_writepage_def hmdfs_stash_write_local_file_def Let_def option.case prod.case unfolding sh by auto
  then have "length (f_data (cache_file c')) = max (length (f_data (cache_file c1))) ((pg_index w + 2) * 4096 + pg_count w)"
    using kernel_write_all [OF ne, of "cache_file c1"] length_write_at [OF ne] l by (simp del: length_take)
  then show ?case using snoc.IH [OF gws c1(1)] by (auto simp: stash_end_snoc stash_end_def [of "[]"])
qed

text \<open>
  The remote file with the stashed pages put into it: a stashed byte, a zero where
  a stashed page was written in part only and the stash goes on behind it, and the
  old byte in every page that was not stashed.
\<close>

definition pages_put :: "hmdfs_writepage_context list \<Rightarrow> byte list \<Rightarrow> byte list \<Rightarrow> bool" where
  "pages_put ws old new \<longleftrightarrow>
     (\<forall>n. byte_at new n =
        (case stash_view ws n of
           Some b \<Rightarrow> b
         | None \<Rightarrow> if (\<exists>w \<in> set ws. pg_index w = n div 4096) \<and> n < stash_end ws then 0 else byte_at old n))"

text \<open>An environment in which stashing the pages \<open>ws\<close> of an inode with a given path meets no error.\<close>

definition stash_succeeds :: "hmdfs_writepage_context list \<Rightarrow> byte list \<Rightarrow> stash_env \<Rightarrow> bool" where
  "stash_succeeds ws path env \<longleftrightarrow>
     \<not> fl_clean (e_flush env) \<and> fl_pass1 (e_flush env) = (map (\<lambda>w. (w, int (pg_count w))) ws, 0) \<and>
     fl_pass2 (e_flush env) = ([], 0) \<and> fl_head (e_flush env) = 84 \<and> fl_path (e_flush env) = int (length path + 1) \<and>
     e_fsync env = 0 \<and> ln_lookup (e_link env) = (\<lambda>_. 0) \<and> ln_unlink (e_link env) = 0 \<and> ln_link (e_link env) = 0"

definition restore_succeeds :: "restore_env \<Rightarrow> nat \<Rightarrow> lower_file \<Rightarrow> bool" where
  "restore_succeeds env i f \<longleftrightarrow>
     (case e_lims env of (l1, l2, l3) \<Rightarrow> 4096 \<le> l1 \<and> 4096 \<le> l2 \<and> 4096 \<le> l3) \<and> e_open env = 0 \<and>
     \<not> hmdfs_need_abort_restore env i \<and> seeks_blocks (e_copy env) f \<and> io_succeeds (e_copy env)"

lemma enable_ok:
  "ln_lookup env = (\<lambda>_. 0) \<Longrightarrow> ln_unlink env = 0 \<Longrightarrow> ln_link env = 0 \<Longrightarrow>
     hmdfs_enable_stash_file env ino f dir = (0, dir(stash_file_name ino \<mapsto> f))"
  by (simp add: hmdfs_enable_stash_file_def lookup_again.simps)

text \<open>Pages, their stash file and the remote file after an exact copy.\<close>

lemma pages_put_copied:
  assumes "file_holds 2 (stash_view ws) f" "length (f_data f) = 8192 + stash_end ws" "\<forall>w \<in> set ws. good_page w"
    and "copied_from f 2 2 old new"
  shows "pages_put ws old new"
  unfolding pages_put_def
proof
  fix n
  have blk: "2 + n div 4096 \<in> f_blks f \<longleftrightarrow> (\<exists>w \<in> set ws. pg_index w = n div 4096)"
    using assms(1) stash_view_page [OF assms(3), of "n div 4096"] by (simp add: file_holds_def)
  have byte: "byte_at (f_data f) (2 * 4096 + n) = (case stash_view ws n of None \<Rightarrow> 0 | Some b \<Rightarrow> b)"
    and inside: "stash_view ws n \<noteq> None \<Longrightarrow> n < stash_end ws \<and> (\<exists>w \<in> set ws. pg_index w = n div 4096)"
    using assms(1,2) stash_view_page [OF assms(3), of "n div 4096"] by (auto simp: file_holds_def)
  have "byte_at new n = (if 2 \<le> 2 + n div 4096 \<and> 2 + n div 4096 \<in> f_blks f \<and> 2 * 4096 + n < length (f_data f)
      then byte_at (f_data f) (2 * 4096 + n) else byte_at old n)" using assms(4) unfolding copied_from_def by blast
  then have "byte_at new n = (if (\<exists>w \<in> set ws. pg_index w = n div 4096) \<and> n < stash_end ws
      then (case stash_view ws n of None \<Rightarrow> 0 | Some b \<Rightarrow> b) else byte_at old n)"
    unfolding byte blk assms(2) by simp
  with inside show "byte_at new n = (case stash_view ws n of Some b \<Rightarrow> b
      | None \<Rightarrow> if (\<exists>w \<in> set ws. pg_index w = n div 4096) \<and> n < stash_end ws then 0 else byte_at old n)"
    by (cases "stash_view ws n") auto
qed

lemma stash_inode_ok:
  assumes st: "i_cache (inode p i) = Some c0" "hmdfs_new_file_cache cenv = Inr c0" "d_alias cenv = Some (Inr path)"
    and path: "path \<noteq> []" "length path < 4096"
    and ws: "ws \<noteq> []" "\<forall>w \<in> set ws. good_page w"
    and env: "stash_succeeds ws path env"
  shows "\<exists>c p1 s1. cache_holds path (length ws) (stash_view ws) c \<and> length (f_data (cache_file c)) = 8192 + stash_end ws \<and>
     hmdfs_stash_remote_inode crc32 env i p stats = (1, p1, s1) \<and>
     stash_files p1 = (stash_files p)(stash_file_name (remote_ino (inode p i)) \<mapsto> flushed_file crc32 (unat (remote_ino (inode p i))) c) \<and>
     inode p1 = (inode p)(i := (inode p i)\<lparr>i_cache := None, stash_status := HMDFS_REMOTE_INODE_RESTORING\<rparr>) \<and>
     stashed_list p1 = stashed_list p \<and> remote_data p1 = remote_data p"
proof -
  have c0: "cache_holds path 0 (stash_view []) c0" by (rule new_file_cache_holds [OF st(2,3) path(2)])
  have e0: "f_data (cache_file c0) = []"
    using st(2) by (auto simp: hmdfs_new_file_cache_def hmdfs_new_stash_file_def new_lower_file_def Let_def split: if_splits sum.splits)
  obtain c where c: "stash_pages (map (\<lambda>w. (w, int (pg_count w))) ws) (Some c0) = Some c"
    "cache_holds path (length ws) (stash_view ws) c"
    using stash_pages_hold [OF c0 ws(2)] by (auto simp: stash_view_def)
  have len: "length (f_data (cache_file c)) = 8192 + stash_end ws"
    using stash_pages_size [OF c0 ws(2) e0 c(1)] ws(1) by simp
  have tw: "to_write_pgs c \<noteq> 0" using c(2) ws(1) by (simp add: cache_holds_def)
  let ?ino = "remote_ino (inode p i)"
  have fl: "hmdfs_flush_stash_file crc32 (unat ?ino) (e_flush env) (Some c0) =
      (0, Some (c\<lparr>cache_file := flushed_file crc32 (unat ?ino) c\<rparr>))"
    using env c(1) flush_metadata_ok [OF c(2) path(2,1)]
    by (simp add: hmdfs_flush_stash_file_def hmdfs_flush_stash_file_data_def stash_succeeds_def Let_def)
  have cl: "hmdfs_close_stash_file (e_link env) (e_fsync env) ?ino (c\<lparr>cache_file := flushed_file crc32 (unat ?ino) c\<rparr>) (stash_files p) =
      (1, (stash_files p)(stash_file_name ?ino \<mapsto> flushed_file crc32 (unat ?ino) c))"
    using env tw enable_ok [of "e_link env"] by (simp add: hmdfs_close_stash_file_def stash_succeeds_def)
  show ?thesis
    using c(2) len fl cl st(1) by (intro exI [of _ c]) (auto simp: hmdfs_stash_remote_inode_def upd_inode_def)
qed

lemma stash_one_ok:
  assumes "i_cache (inode p i) = Some c0" "hmdfs_new_file_cache cenv = Inr c0" "d_alias cenv = Some (Inr path)"
    "path \<noteq> []" "length path < 4096" "ws \<noteq> []" "\<forall>w \<in> set ws. good_page w" "stash_succeeds ws path (env i)"
    and "stash_inodes_loop crc32 env [i] p stats = (p1, s1)"
  shows "\<exists>c. cache_holds path (length ws) (stash_view ws) c \<and> length (f_data (cache_file c)) = 8192 + stash_end ws \<and>
     stash_files p1 = (stash_files p)(stash_file_name (remote_ino (inode p i)) \<mapsto> flushed_file crc32 (unat (remote_ino (inode p i))) c) \<and>
     status_of p1 i = HMDFS_REMOTE_INODE_RESTORING \<and> (\<forall>j. remote_ino (inode p1 j) = remote_ino (inode p j)) \<and>
     stashed_list p1 = stashed_list p @ [i] \<and> remote_data p1 = remote_data p"
proof -
  obtain c q s' where q: "cache_holds path (length ws) (stash_view ws) c" "length (f_data (cache_file c)) = 8192 + stash_end ws"
    "hmdfs_stash_remote_inode crc32 (env i) i p stats = (1, q, s')"
    "stash_files q = (stash_files p)(stash_file_name (remote_ino (inode p i)) \<mapsto> flushed_file crc32 (unat (remote_ino (inode p i))) c)"
    "inode q = (inode p)(i := (inode p i)\<lparr>i_cache := None, stash_status := HMDFS_REMOTE_INODE_RESTORING\<rparr>)"
    "stashed_list q = stashed_list p" "remote_data q = remote_data p"
    using stash_inode_ok [OF assms(1-8), of crc32 stats] by metis
  have "p1 = hmdfs_remote_del_wr_opened_inode i (hmdfs_track_inode_locked i q)"
    using assms(9) q(3) by (simp add: Let_def)
  with q show ?thesis
    by (intro exI [of _ c]) (auto simp: hmdfs_remote_del_wr_opened_inode_def hmdfs_track_inode_locked_def Let_def)
qed

lemma reset_state [simp]:
  "remote_data (hmdfs_reset_stashed_inode i p) = remote_data p"
  "status_of (hmdfs_reset_stashed_inode i p) i = HMDFS_REMOTE_INODE_NONE"
  by (simp_all add: hmdfs_reset_stashed_inode_def hmdfs_untrack_stashed_inode_def ihold_def iput_def Let_def)

lemma lookup_last:
  "stashed_list q = l @ [i] \<Longrightarrow> \<forall>j \<in> set l. remote_ino (inode q j) \<noteq> remote_ino (inode q i) \<Longrightarrow>
     hmdfs_lookup_stash_inode (remote_ino (inode q i)) q = Some i"
proof -
  have "find P (l @ [x]) = Some x" if "\<forall>j \<in> set l. \<not> P j" "P x" for P and l and x :: nat
    using that by (induction l) auto
  then show "stashed_list q = l @ [i] \<Longrightarrow> \<forall>j \<in> set l. remote_ino (inode q j) \<noteq> remote_ino (inode q i) \<Longrightarrow> ?thesis"
    by (simp add: hmdfs_lookup_stash_inode_def)
qed

lemma restore_exact:
  assumes "seeks_blocks (e_copy env) (r_src c)" "io_succeeds (e_copy env)" "blocks_inside (r_src c)"
  shows "\<exists>dst'. hmdfs_restore_src_to_dst (e_copy env) c dst = Some (0, dst') \<and>
     copied_from (r_src c) (r_data_offs c) (r_data_offs c) dst dst'"
  using copy_loop_exact [OF assms(1,3,2) order_refl, of "r_seq c" "r_data_offs c" dst] assms(2)
  by (auto simp: hmdfs_restore_src_to_dst_def hmdfs_copy_src_to_dst_def io_succeeds_def)

text \<open>
  C1 (roundtrip). An inode is stashed while its peer is offline: the pages that are
  dirty go to its stash file, which gets a head with a checksum and the path of the
  file, and is linked into the directory of the peer. When the peer is online again
  the restore of that file accepts the head, opens the path that was stored, and
  puts the stashed pages into the remote file: every stashed byte arrives, the
  last one where a page was written more than once, the pages that were not
  stashed keep their bytes, and the inode is released. The file system below
  tracks holes by blocks of 4096 bytes and none of the calls fails.
\<close>
theorem stash_restore_exact:
  assumes "i_cache (inode p i) = Some c0" "hmdfs_new_file_cache cenv = Inr c0" "d_alias cenv = Some (Inr path)"
    and "path \<noteq> []" "length path < 4096" "0 \<notin> set path"
    and "ws \<noteq> []" "\<forall>w \<in> set ws. good_page w" "stash_end ws < 2 ^ 62" "length ws < 2 ^ 61"
    and "stash_succeeds ws path (senv i)"
    and "\<forall>j \<in> set (stashed_list p). remote_ino (inode p j) \<noteq> remote_ino (inode p i)"
    and stash: "stash_inodes_loop crc32 senv [i] p stats = (p1, s1)"
    and linked: "stash_files p1 (stash_file_name (remote_ino (inode p i))) = Some f"
    and renv: "restore_succeeds env i f"
  shows "\<exists>ctx p2. hmdfs_restore_file crc32 env (init_ctx seq (remote_ino (inode p i)) f) p1 = Some (0, ctx, p2) \<and>
     \<not> r_keep ctx \<and> r_dst ctx = path @ [0] \<and> r_pages ctx = length ws \<and>
     status_of p2 i = HMDFS_REMOTE_INODE_NONE \<and> pages_put ws (remote_data p i) (remote_data p2 i)"
proof -
  let ?ino = "remote_ino (inode p i)"
  obtain c where c: "cache_holds path (length ws) (stash_view ws) c" "length (f_data (cache_file c)) = 8192 + stash_end ws"
    and p1: "stash_files p1 = (stash_files p)(stash_file_name ?ino \<mapsto> flushed_file crc32 (unat ?ino) c)"
      "status_of p1 i = HMDFS_REMOTE_INODE_RESTORING" "\<forall>j. remote_ino (inode p1 j) = remote_ino (inode p j)"
      "stashed_list p1 = stashed_list p @ [i]" "remote_data p1 = remote_data p"
    using stash_one_ok [OF assms(1-5,7,8,11) stash] by blast
  have f: "f = flushed_file crc32 (unat ?ino) c" using linked p1(1) by simp
  obtain w where w: "w \<in> set ws" using assms(7) by (meson list.set_sel(1))
  then obtain n where n: "stash_view ws n \<noteq> None" using stash_view_page [OF assms(8), of "pg_index w"] by blast
  note m = flushed_file_meta [OF c(1) assms(5) n, of crc32 "unat ?ino", folded f]
  let ?ctx = "init_ctx seq ?ino f"
  let ?c = "?ctx\<lparr>r_pages := length ws, r_data_offs := 2, r_dst := path @ [0]\<rparr>"
  obtain l1 l2 l3 where l: "e_lims env = (l1, l2, l3)" "4096 \<le> l1" "4096 \<le> l2" "4096 \<le> l3"
    using renv by (auto simp: restore_succeeds_def split: prod.splits)
  have "hmdfs_get_restore_file_metadata crc32 (l1, l2, l3) ?ctx = Some (0, ?c)"
    by (rule metadata_ok [OF c(1) assms(5) n assms(6) _ assms(10) _ l(2-4)]) (use c(2) assms(9) f in \<open>simp_all add: init_ctx_def\<close>)
  then have o: "hmdfs_open_restore_dst_file crc32 env ?ctx = Some (0, ?c)"
    using renv l(1) by (simp add: hmdfs_open_restore_dst_file_def restore_succeeds_def)
  have lk: "hmdfs_lookup_stash_inode (r_inum ?ctx) p1 = Some i"
    using lookup_last [OF p1(4)] assms(12) p1(3) by (simp add: init_ctx_def)
  obtain dst' where d: "hmdfs_restore_src_to_dst (e_copy env) ?c (remote_data p1 i) = Some (0, dst')"
    "copied_from (r_src ?c) (r_data_offs ?c) (r_data_offs ?c) (remote_data p1 i) dst'"
    using restore_exact [of env ?c "remote_data p1 i"] renv m(1)
    by (auto simp: restore_succeeds_def init_ctx_def file_holds_def)
  have "pages_put ws (remote_data p i) dst'"
    by (rule pages_put_copied [OF m(1) _ assms(8)]) (use m(2) c(2) d(2) p1(5) in \<open>simp_all add: init_ctx_def\<close>)
  moreover have "\<not> hmdfs_need_abort_restore env i" using renv by (simp add: restore_succeeds_def)
  note restore_file_pinned(3) [OF lk p1(2) o refl this d(1)]
  ultimately show ?thesis by simp
qed

text \<open>A file system that seeks by blocks.\<close>

definition seek_of :: "lower_file \<Rightarrow> nat \<Rightarrow> int" where
  "seek_of f pos =
     (let K = {k \<in> f_blks f. pos div 4096 \<le> k} in
      if length (f_data f) \<le> pos \<or> K = {} then - ENXIO
      else if pos div 4096 \<in> K then int pos else int (Min K * 4096))"

lemma blocks_inside_finite: "blocks_inside f \<Longrightarrow> finite (f_blks f)"
proof (rule finite_subset)
  assume "blocks_inside f"
  then show "f_blks f \<subseteq> {..< length (f_data f)}" by (force simp: blocks_inside_def)
qed simp

lemma seek_of_blocks:
  assumes "seek_data env = seek_of f" "blocks_inside f"
  shows "seeks_blocks env f"
  unfolding seeks_blocks_def
proof
  fix b
  let ?K = "{k \<in> f_blks f. b \<le> k}"
  have fin: "finite ?K" using blocks_inside_finite [OF assms(2)] by simp
  show "(\<exists>k \<in> f_blks f. b \<le> k \<and> seek_data env (b * 4096) = int (k * 4096) \<and> (\<forall>j. b \<le> j \<and> j < k \<longrightarrow> j \<notin> f_blks f)) \<or>
      (\<forall>k \<in> f_blks f. k < b) \<and> seek_data env (b * 4096) = - 6"
  proof (cases "?K = {}")
    case True
    then have "\<forall>k \<in> f_blks f. k < b" by (auto simp: not_le)
    with True show ?thesis by (simp add: assms(1) seek_of_def)
  next
    case False
    then have m: "Min ?K \<in> f_blks f" "b \<le> Min ?K" using Min_in [OF fin] by auto
    have least: "\<forall>j. b \<le> j \<and> j < Min ?K \<longrightarrow> j \<notin> f_blks f" using Min_le [OF fin] by (auto simp: not_le [symmetric])
    have "b * 4096 < length (f_data f)" using m assms(2) by (fastforce simp: blocks_inside_def)
    moreover have "Min ?K = b" if "b \<in> f_blks f" using that m(2) Min_le [OF fin, of b] by auto
    ultimately have "seek_data env (b * 4096) = int (Min ?K * 4096)"
      using False by (auto simp: assms(1) seek_of_def Let_def)
    with m least show ?thesis by blast
  qed
qed

lemma seek_of_progress:
  assumes "seek_data env = seek_of f" "blocks_inside f"
  shows "seek_progress env f"
  unfolding seek_progress_def
proof
  fix pos
  let ?K = "{k \<in> f_blks f. pos div 4096 \<le> k}"
  have fin: "finite ?K" using blocks_inside_finite [OF assms(2)] by simp
  have "seek_data env pos = - 6 \<or> (\<exists>q. seek_data env pos = int q \<and> pos \<le> q \<and> q < length (f_data f))"
  proof (cases "length (f_data f) \<le> pos \<or> ?K = {} \<or> pos div 4096 \<in> ?K")
    case True
    then show ?thesis by (auto simp: assms(1) seek_of_def Let_def)
  next
    case False
    then have "Min ?K \<in> f_blks f" "pos div 4096 \<le> Min ?K" "Min ?K \<noteq> pos div 4096" using Min_in [OF fin] by auto
    then have "pos \<le> Min ?K * 4096" "Min ?K * 4096 < length (f_data f)" using assms(2) by (auto simp: blocks_inside_def)
    moreover have "seek_data env pos = int (Min ?K * 4096)" using False by (simp add: assms(1) seek_of_def Let_def)
    ultimately show ?thesis by blast
  qed
  then show "seek_data env pos < 0 \<or> int pos \<le> seek_data env pos \<and> seek_data env pos < int (length (f_data f))" by auto
qed

definition sample_page :: hmdfs_writepage_context where
  "sample_page = \<lparr>pg_index = 0, pg_data = [5, 6], pg_count = 2\<rparr>"

definition sample_stash_env :: stash_env where
  "sample_stash_env = \<lparr>e_flush = \<lparr>fl_clean = False, fl_pass1 = ([(sample_page, 2)], 0), fl_pass2 = ([], 0), fl_head = 84, fl_path = 3\<rparr>,
     e_fsync = 0, e_link = \<lparr>ln_lookup = (\<lambda>_. 0), ln_unlink = 0, ln_link = 0\<rparr>\<rparr>"

definition sample_restore_env :: "lower_file \<Rightarrow> restore_env" where
  "sample_restore_env f = \<lparr>e_lims = (4096, 4096, 4096), e_open = 0, e_open_seq = 0, e_opened = 7, e_other_remote = True,
     e_copy = \<lparr>seek_data = seek_of f, read_lim = (\<lambda>_. 4096), write_ret = (\<lambda>_ n. int n), seq_after = (\<lambda>_. 0),
       fsync_ret = 0, fsync_seq = 0, drop_pages = (\<lambda>old new. old)\<rparr>\<rparr>"

definition sample_stashed :: stash_peer where
  "sample_stashed = fst (stash_inodes_loop (\<lambda>_. 0) (\<lambda>_. sample_stash_env) [7] sample_offline
     \<lparr>ss_succeed = 0, ss_donothing = 0, ss_fail = 0, ss_ok_pages = 0, ss_fail_pages = 0\<rparr>)"

definition sample_stash_file :: lower_file where
  "sample_stash_file = the (stash_files sample_stashed (stash_file_name 7))"

lemma sample_offline_inode:
  "i_cache (inode sample_offline 7) = (case hmdfs_new_file_cache sample_cache_env of Inl e \<Rightarrow> None | Inr c \<Rightarrow> Some c)"
  "stashed_list sample_offline = []" "remote_ino (inode sample_offline 7) = 7" "remote_data sample_offline 7 = [1, 1, 1]"
  "stash_files sample_offline = Map.empty"
  by (simp_all add: sample_offline_def hmdfs_stash_offline_prepare_def hmdfs_stash_fetch_ready_files_def
      hmdfs_remote_add_wr_opened_inode_nolock_def sample_stash_peer_def ihold_def hmdfs_init_stash_file_cache_def)

lemma sample_stash:
  "\<exists>c. cache_holds [47, 97] 1 (stash_view [sample_page]) c \<and>
     stash_files sample_stashed = [stash_file_name 7 \<mapsto> flushed_file (\<lambda>_. 0) 7 c] \<and> blocks_inside sample_stash_file \<and>
     status_of sample_stashed 7 = HMDFS_REMOTE_INODE_RESTORING \<and> hmdfs_lookup_stash_inode 7 sample_stashed = Some 7 \<and>
     length (f_data (cache_file c)) = 8194 \<and> (\<exists>s1. stash_inodes_loop (\<lambda>_. 0) (\<lambda>_. sample_stash_env) [7] sample_offline
       \<lparr>ss_succeed = 0, ss_donothing = 0, ss_fail = 0, ss_ok_pages = 0, ss_fail_pages = 0\<rparr> = (sample_stashed, s1))"
proof -
  obtain c0 where c0: "hmdfs_new_file_cache sample_cache_env = Inr c0"
    by (simp add: hmdfs_new_file_cache_def sample_cache_env_def hmdfs_new_stash_file_def hmdfs_do_vfs_mkdir_def Let_def)
  have ic: "i_cache (inode sample_offline 7) = Some c0" by (simp add: sample_offline_inode c0)
  obtain s1 where loop: "stash_inodes_loop (\<lambda>_. 0) (\<lambda>_. sample_stash_env) [7] sample_offline
       \<lparr>ss_succeed = 0, ss_donothing = 0, ss_fail = 0, ss_ok_pages = 0, ss_fail_pages = 0\<rparr> = (sample_stashed, s1)"
    unfolding sample_stashed_def by (metis prod.collapse)
  have g: "\<forall>w \<in> set [sample_page]. good_page w" by (simp add: good_page_def sample_page_def)
  obtain c where c: "cache_holds [47, 97] (length [sample_page]) (stash_view [sample_page]) c"
    "stash_files sample_stashed = (stash_files sample_offline)(stash_file_name (remote_ino (inode sample_offline 7))
       \<mapsto> flushed_file (\<lambda>_. 0) (unat (remote_ino (inode sample_offline 7))) c)"
    "status_of sample_stashed 7 = HMDFS_REMOTE_INODE_RESTORING" "stashed_list sample_stashed = [7]"
    "remote_ino (inode sample_stashed 7) = 7" "length (f_data (cache_file c)) = 8192 + stash_end [sample_page]"
    using stash_one_ok [OF ic c0 _ _ _ _ g _ loop, of "[47, 97]"]
    by (auto simp: sample_offline_inode c0 sample_cache_env_def stash_succeeds_def sample_stash_env_def sample_page_def)
  have "stash_view [sample_page] 0 \<noteq> None" by (simp add: stash_view_def put_page_def sample_page_def)
  with flushed_file_meta(1) [OF c(1), of 0 "\<lambda>_. 0" 7] have "blocks_inside (flushed_file (\<lambda>_. 0) 7 c)" by (simp add: file_holds_def)
  with c loop show ?thesis by (intro exI [of _ c]) (auto simp: sample_offline_inode sample_stash_file_def hmdfs_lookup_stash_inode_def stash_end_def sample_page_def)
qed

theorem stash_restore_exact_witness:
  "\<exists>ctx p2. hmdfs_restore_file (\<lambda>_. 0) (sample_restore_env sample_stash_file) (init_ctx 3 7 sample_stash_file) sample_stashed = Some (0, ctx, p2) \<and>
     r_dst ctx = [47, 97, 0] \<and> byte_at (remote_data p2 7) 0 = 5 \<and> byte_at (remote_data p2 7) 1 = 6 \<and> byte_at (remote_data p2 7) 2 = 1"
proof -
  obtain c0 where c0: "hmdfs_new_file_cache sample_cache_env = Inr c0"
    by (simp add: hmdfs_new_file_cache_def sample_cache_env_def hmdfs_new_stash_file_def hmdfs_do_vfs_mkdir_def Let_def)
  have ic: "i_cache (inode sample_offline 7) = Some c0" by (simp add: sample_offline_inode c0)
  obtain c s1 where s: "stash_files sample_stashed = [stash_file_name 7 \<mapsto> flushed_file (\<lambda>_. 0) 7 c]" "blocks_inside sample_stash_file"
    "stash_inodes_loop (\<lambda>_. 0) (\<lambda>_. sample_stash_env) [7] sample_offline
       \<lparr>ss_succeed = 0, ss_donothing = 0, ss_fail = 0, ss_ok_pages = 0, ss_fail_pages = 0\<rparr> = (sample_stashed, s1)"
    using sample_stash by blast
  have r: "restore_succeeds (sample_restore_env sample_stash_file) 7 sample_stash_file"
    using seek_of_blocks [OF _ s(2), of "e_copy (sample_restore_env sample_stash_file)"]
    by (simp add: restore_succeeds_def sample_restore_env_def hmdfs_need_abort_restore_def io_succeeds_def)
  have "\<exists>ctx p2. hmdfs_restore_file (\<lambda>_. 0) (sample_restore_env sample_stash_file)
       (init_ctx 3 (remote_ino (inode sample_offline 7)) sample_stash_file) sample_stashed = Some (0, ctx, p2) \<and>
     \<not> r_keep ctx \<and> r_dst ctx = [47, 97] @ [0] \<and> r_pages ctx = length [sample_page] \<and>
     status_of p2 7 = HMDFS_REMOTE_INODE_NONE \<and> pages_put [sample_page] (remote_data sample_offline 7) (remote_data p2 7)"
    by (rule stash_restore_exact [OF ic c0 _ _ _ _ _ _ _ _ _ _ s(3) _ r])
       (simp_all add: sample_offline_inode c0 sample_cache_env_def good_page_def sample_page_def stash_end_def
          stash_succeeds_def sample_stash_env_def s(1) sample_stash_file_def)
  moreover have "byte_at new 0 = 5 \<and> byte_at new 1 = 6 \<and> byte_at new 2 = 1" if "pages_put [sample_page] [1, 1, 1] new" for new
    using that unfolding pages_put_def
    by (auto simp: stash_view_def put_page_def sample_page_def stash_end_def byte_at_def dest: spec [of _ 0] spec [of _ 1] spec [of _ 2])
  ultimately show ?thesis by (auto simp: sample_offline_inode)
qed

theorem online_restore_returns_witness:
  "\<exists>p'. hmdfs_stash_online_do_restore (\<lambda>_. 0) (\<lambda>_. Some 7) True
     \<lparr>n_dir = Directory, n_open = 0, n_alloc = True, n_iter = (\<lambda>_. 0), n_init = 0,
      n_denv = \<lparr>o_lookup = (\<lambda>_. 0), o_reg = (\<lambda>_. True), o_open = (\<lambda>_. 0), o_unlink = (\<lambda>_. 0)\<rparr>,
      n_env = (\<lambda>_. sample_restore_env sample_stash_file)\<rparr> 3 [Dir_Entry [48, 120, 55] True]
     (sample_stashed\<lparr>stash_files := (\<lambda>_. Some sample_stash_file)\<rparr>) = Some p'"
proof (rule online_restore_returns)
  have "seek_progress (e_copy (sample_restore_env sample_stash_file)) sample_stash_file"
    using seek_of_progress sample_stash by (auto simp: sample_restore_env_def)
  then show "seeks_fine (n_env \<lparr>n_dir = Directory, n_open = 0, n_alloc = True, n_iter = (\<lambda>_. 0), n_init = 0,
      n_denv = \<lparr>o_lookup = (\<lambda>_. 0), o_reg = (\<lambda>_. True), o_open = (\<lambda>_. 0), o_unlink = (\<lambda>_. 0)\<rparr>,
      n_env = (\<lambda>_. sample_restore_env sample_stash_file)\<rparr>) (stash_files (sample_stashed\<lparr>stash_files := (\<lambda>_. Some sample_stash_file)\<rparr>))"
    by (simp add: seeks_fine_def)
qed

section \<open>Offline again, and a path that leads elsewhere\<close>

lemma restore_src_partly:
  assumes "seeks_blocks env (r_src c)" "blocks_inside (r_src c)" "reads_succeed env"
    and "\<forall>a b n. byte_at (drop_pages env a b) n = byte_at a n \<or> byte_at (drop_pages env a b) n = byte_at b n"
    and "hmdfs_restore_src_to_dst env c dst = Some (err, dst')"
  shows "partly_copied (r_src c) (r_data_offs c) dst dst'"
proof -
  obtain e d where "copy_loop env (r_seq c) (r_src c) (r_data_offs c * 4096) (r_data_offs c * 4096) dst = Some (e, d)"
    "dst' = d \<or> dst' = drop_pages env dst d"
    using assms(5) by (auto simp: hmdfs_restore_src_to_dst_def hmdfs_copy_src_to_dst_def bind_eq_Some_conv Let_def split: if_splits)
  moreover from copy_loop_partly [OF assms(1-3) order_refl this(1)] have "partly_copied (r_src c) (r_data_offs c) dst d" .
  ultimately show ?thesis using partly_copied_mix assms(4) by blast
qed

lemma open_dst_ctx:
  assumes "hmdfs_open_restore_dst_file crc32 env ctx = Some (0, c)"
  shows "r_src c = r_src ctx" "r_data_offs c = data_offs_of (r_src ctx)"
  using open_dst_total [of crc32 env ctx] assms by auto

text \<open>The restore that reports the peer offline again.\<close>

lemma restore_shutdown:
  assumes lk: "hmdfs_lookup_stash_inode (r_inum ctx) p = Some i"
    and env: "seeks_blocks (e_copy env) (r_src ctx)" "blocks_inside (r_src ctx)" "reads_succeed (e_copy env)"
      "\<forall>a b n. byte_at (drop_pages (e_copy env) a b) n = byte_at a n \<or> byte_at (drop_pages (e_copy env) a b) n = byte_at b n"
    and r: "hmdfs_restore_file crc32 env ctx p = Some (- ESHUTDOWN, ctx1, p1)"
  shows "r_keep ctx1 \<and> stashed_list p1 = stashed_list p \<and> stash_files p1 = stash_files p \<and>
    status_of p1 i = HMDFS_REMOTE_INODE_RESTORING \<and> (\<forall>j. remote_ino (inode p1 j) = remote_ino (inode p j)) \<and>
    partly_copied (r_src ctx) (data_offs_of (r_src ctx)) (remote_data p i) (remote_data p1 i)"
proof -
  have st: "status_of p i = HMDFS_REMOTE_INODE_RESTORING" using r lk by (auto simp: hmdfs_restore_file_def split: if_splits)
  obtain e c where o: "hmdfs_open_restore_dst_file crc32 env ctx = Some (e, c)" using open_dst_total by blast
  note ends = restore_file_pinned [OF lk st o]
  consider "e \<noteq> 0" | "e = 0" "hmdfs_need_abort_restore env i"
    | d err' where "e = 0" "\<not> hmdfs_need_abort_restore env i" "hmdfs_restore_src_to_dst (e_copy env) c (remote_data p i) = Some (err', d)"
    using ends(4) r by (cases "hmdfs_restore_src_to_dst (e_copy env) c (remote_data p i)") auto
  then show ?thesis
  proof cases
    case 1
    with ends(1) r st show ?thesis by (auto split: if_splits)
  next
    case 2
    with ends(2) r show ?thesis by simp
  next
    case 3
    with ends(3) r have e: "err' = - 108" "r_keep ctx1" "p1 = (upd_inode i (\<lambda>n. n\<lparr>fid_need_open := True\<rparr>) p)\<lparr>remote_data := (remote_data p)(i := d)\<rparr>"
      by (auto split: if_splits)
    have c: "r_src c = r_src ctx" "r_data_offs c = data_offs_of (r_src ctx)" using open_dst_ctx o 3(1) by auto
    from restore_src_partly [OF _ _ env(3,4) 3(3)] env(1,2)
    have "partly_copied (r_src ctx) (data_offs_of (r_src ctx)) (remote_data p i) d" by (simp add: c)
    with e st show ?thesis by simp
  qed
qed

text \<open>
  C19 (error). The peer goes offline while a file is restored and the restore ends
  with \<open>ESHUTDOWN\<close>, after any part of the copy, of which the page cache may have
  dropped any part again: the inode stays on the list, waiting, and the stash file
  is kept; when the peer is back and the restore succeeds, the remote file is what
  one uninterrupted copy of the stash file would have made of it.
\<close>
theorem restore_after_offline:
  assumes "hmdfs_lookup_stash_inode inum p = Some i" "blocks_inside f"
    and "seeks_blocks (e_copy env1) f" "reads_succeed (e_copy env1)"
    and "\<forall>a b n. byte_at (drop_pages (e_copy env1) a b) n = byte_at a n \<or> byte_at (drop_pages (e_copy env1) a b) n = byte_at b n"
    and "hmdfs_restore_file crc32 env1 (init_ctx seq1 inum f) p = Some (- ESHUTDOWN, ctx1, p1)"
    and "seeks_blocks (e_copy env2) f" "io_succeeds (e_copy env2)" "\<not> hmdfs_need_abort_restore env2 i"
    and r2: "hmdfs_restore_file crc32 env2 (init_ctx seq2 inum f) p1 = Some (0, ctx2, p2)"
  shows "r_keep ctx1 \<and> stashed_list p1 = stashed_list p \<and> stash_files p1 = stash_files p \<and>
    copied_from f (data_offs_of f) (data_offs_of f) (remote_data p i) (remote_data p2 i)"
proof -
  have s: "r_inum (init_ctx s inum f) = inum" "r_src (init_ctx s inum f) = f" for s by (simp_all add: init_ctx_def)
  note p1 = restore_shutdown [of "init_ctx seq1 inum f", unfolded s, OF assms(1,3,2,4,5,6)]
  have lk: "hmdfs_lookup_stash_inode (r_inum (init_ctx seq2 inum f)) p1 = Some i"
    using assms(1) p1 by (simp add: hmdfs_lookup_stash_inode_def s)
  have st: "status_of p1 i = HMDFS_REMOTE_INODE_RESTORING" using p1 by blast
  obtain e c where o: "hmdfs_open_restore_dst_file crc32 env2 (init_ctx seq2 inum f) = Some (e, c)" using open_dst_total by blast
  note ends = restore_file_pinned [OF lk st o]
  have e: "e = 0" using ends(1) r2 by (cases "e = 0") auto
  have c: "r_src c = f" "r_data_offs c = data_offs_of f" using open_dst_ctx o e s by auto
  obtain dst where d: "hmdfs_restore_src_to_dst (e_copy env2) c (remote_data p1 i) = Some (0, dst)"
    "copied_from f (data_offs_of f) (data_offs_of f) (remote_data p1 i) dst"
    using restore_exact [of env2 c "remote_data p1 i"] assms(2,7,8) by (auto simp: c)
  from ends(3) [OF e assms(9) d(1)] r2 have "remote_data p2 i = dst" by auto
  with p1 copied_from_retry d(2) show ?thesis by blast
qed

definition sample_offline_env :: "lower_file \<Rightarrow> restore_env" where
  "sample_offline_env f = (sample_restore_env f)\<lparr>e_copy := (e_copy (sample_restore_env f))
     \<lparr>write_ret := (\<lambda>_ _. - EIO), drop_pages := (\<lambda>old new. old)\<rparr>\<rparr>"

lemma sample_open_stash:
  assumes "e_lims env = (4096, 4096, 4096)" "e_open env = 0"
  shows "hmdfs_open_restore_dst_file (\<lambda>_. 0) env (init_ctx seq 7 sample_stash_file) =
    Some (0, (init_ctx seq 7 sample_stash_file)\<lparr>r_pages := 1, r_data_offs := 2, r_dst := [47, 97, 0]\<rparr>)"
proof -
  obtain c where c: "cache_holds [47, 97] 1 (stash_view [sample_page]) c" "sample_stash_file = flushed_file (\<lambda>_. 0) 7 c"
    "length (f_data (cache_file c)) = 8194" using sample_stash by (auto simp: sample_stash_file_def)
  have v: "stash_view [sample_page] 0 \<noteq> None" by (simp add: stash_view_def put_page_def sample_page_def)
  have "hmdfs_get_restore_file_metadata (\<lambda>_. 0) (4096, 4096, 4096) (init_ctx seq 7 sample_stash_file) =
    Some (0, (init_ctx seq 7 sample_stash_file)\<lparr>r_pages := 1, r_data_offs := 2, r_dst := [47, 97] @ [0]\<rparr>)"
    by (rule metadata_ok [OF c(1) _ v]) (use c(2,3) in \<open>simp_all add: init_ctx_def\<close>)
  then show ?thesis by (simp add: hmdfs_open_restore_dst_file_def assms)
qed

lemma sample_blocks: "2 \<in> f_blks sample_stash_file" "length (f_data sample_stash_file) = 8194"
proof -
  obtain c where c: "cache_holds [47, 97] 1 (stash_view [sample_page]) c" "sample_stash_file = flushed_file (\<lambda>_. 0) 7 c"
    "length (f_data (cache_file c)) = 8194" using sample_stash by (auto simp: sample_stash_file_def)
  have v: "stash_view [sample_page] 0 \<noteq> None" by (simp add: stash_view_def put_page_def sample_page_def)
  note m = flushed_file_meta [OF c(1) _ v, of "\<lambda>_. 0" 7]
  have "\<forall>k \<ge> 2. k \<in> f_blks sample_stash_file \<longleftrightarrow> (\<exists>i. stash_view [sample_page] i \<noteq> None \<and> 2 + i div 4096 = k)"
    using m(1) by (simp add: file_holds_def c(2))
  then show "2 \<in> f_blks sample_stash_file" using v by (metis add.right_neutral div_0 order_refl)
  show "length (f_data sample_stash_file) = 8194" using m(2) c(2,3) by simp
qed

lemma sample_first_try:
  "\<exists>ctx1 p1. hmdfs_restore_file (\<lambda>_. 0) (sample_offline_env sample_stash_file) (init_ctx 3 7 sample_stash_file) sample_stashed =
     Some (- ESHUTDOWN, ctx1, p1)"
proof -
  let ?f = sample_stash_file and ?env = "sample_offline_env sample_stash_file"
  let ?c = "(init_ctx 3 7 ?f)\<lparr>r_pages := 1, r_data_offs := 2, r_dst := [47, 97, 0]\<rparr>"
  have o: "hmdfs_open_restore_dst_file (\<lambda>_. 0) ?env (init_ctx 3 7 ?f) = Some (0, ?c)"
    by (rule sample_open_stash) (simp_all add: sample_offline_env_def sample_restore_env_def)
  have seek: "seek_data (e_copy ?env) 8192 = 8192"
    using sample_blocks by (auto simp: sample_offline_env_def sample_restore_env_def seek_of_def Let_def)
  have "kernel_read ?f 8192 4096 4096 = Inr (drop 8192 (f_data ?f))" "drop 8192 (f_data ?f) \<noteq> []"
    using sample_blocks(2) by (simp_all add: kernel_read_def)
  then have "hmdfs_rd_src_wr_dst (e_copy ?env) 3 ?f 8192 0 dst = (- 108, 0, False, dst)" for dst
    by (simp add: hmdfs_rd_src_wr_dst_def hmdfs_write_dst_def sample_offline_env_def sample_restore_env_def
        hmdfs_is_node_offlined_def write_at_def)
  then have "copy_loop (e_copy ?env) 3 ?f 8192 8192 dst = Some (- 108, dst)" for dst
    using seek by (subst copy_loop.simps) (simp add: Let_def)
  then have r: "\<exists>dst. hmdfs_restore_src_to_dst (e_copy ?env) ?c (remote_data sample_stashed 7) = Some (- 108, dst)"
    by (simp add: hmdfs_restore_src_to_dst_def hmdfs_copy_src_to_dst_def init_ctx_def)
  have lk: "hmdfs_lookup_stash_inode (r_inum (init_ctx 3 7 ?f)) sample_stashed = Some 7" "status_of sample_stashed 7 = HMDFS_REMOTE_INODE_RESTORING"
    using sample_stash by (auto simp: init_ctx_def)
  have "\<not> hmdfs_need_abort_restore ?env 7"
    by (simp add: hmdfs_need_abort_restore_def sample_offline_env_def sample_restore_env_def)
  with restore_file_pinned(3) [OF lk o refl] r show ?thesis by fastforce
qed

theorem restore_after_offline_witness:
  "\<exists>ctx1 p1 ctx2 p2.
     hmdfs_restore_file (\<lambda>_. 0) (sample_offline_env sample_stash_file) (init_ctx 3 7 sample_stash_file) sample_stashed = Some (- ESHUTDOWN, ctx1, p1) \<and>
     hmdfs_restore_file (\<lambda>_. 0) (sample_restore_env sample_stash_file) (init_ctx 5 7 sample_stash_file) p1 = Some (0, ctx2, p2) \<and>
     r_keep ctx1 \<and> stash_files p1 = stash_files sample_stashed \<and>
     copied_from sample_stash_file (data_offs_of sample_stash_file) (data_offs_of sample_stash_file)
       (remote_data sample_stashed 7) (remote_data p2 7)"
proof -
  let ?f = sample_stash_file and ?env1 = "sample_offline_env sample_stash_file" and ?env2 = "sample_restore_env sample_stash_file"
  obtain ctx1 p1 where r1: "hmdfs_restore_file (\<lambda>_. 0) ?env1 (init_ctx 3 7 ?f) sample_stashed = Some (- 108, ctx1, p1)"
    using sample_first_try by auto
  have b: "blocks_inside ?f" and lk: "hmdfs_lookup_stash_inode 7 sample_stashed = Some 7" using sample_stash by auto
  have e1: "seeks_blocks (e_copy ?env1) ?f" "reads_succeed (e_copy ?env1)"
    "\<forall>a b n. byte_at (drop_pages (e_copy ?env1) a b) n = byte_at a n \<or> byte_at (drop_pages (e_copy ?env1) a b) n = byte_at b n"
    using seek_of_blocks [OF _ b, of "e_copy ?env1"] by (simp_all add: sample_offline_env_def sample_restore_env_def reads_succeed_def)
  have e2: "seeks_blocks (e_copy ?env2) ?f" "io_succeeds (e_copy ?env2)" "\<not> hmdfs_need_abort_restore ?env2 7"
    using seek_of_blocks [OF _ b, of "e_copy ?env2"]
    by (simp_all add: sample_restore_env_def io_succeeds_def hmdfs_need_abort_restore_def)
  have p1: "hmdfs_lookup_stash_inode (r_inum (init_ctx 5 7 ?f)) p1 = Some 7" "status_of p1 7 = HMDFS_REMOTE_INODE_RESTORING"
    using restore_shutdown [of "init_ctx 3 7 ?f", OF _ _ _ e1(2,3) r1] lk b e1(1)
    by (auto simp: init_ctx_def hmdfs_lookup_stash_inode_def)
  have o: "hmdfs_open_restore_dst_file (\<lambda>_. 0) ?env2 (init_ctx 5 7 ?f) =
      Some (0, (init_ctx 5 7 ?f)\<lparr>r_pages := 1, r_data_offs := 2, r_dst := [47, 97, 0]\<rparr>)"
    by (rule sample_open_stash) (simp_all add: sample_restore_env_def)
  obtain ctx2 p2 where r2: "hmdfs_restore_file (\<lambda>_. 0) ?env2 (init_ctx 5 7 ?f) p1 = Some (0, ctx2, p2)"
    using restore_file_pinned(3) [OF p1 o refl e2(3)] restore_exact [of ?env2 "(init_ctx 5 7 ?f)\<lparr>r_pages := 1, r_data_offs := 2, r_dst := [47, 97, 0]\<rparr>"]
      e2(1,2) b by (auto simp: init_ctx_def) fastforce
  from restore_after_offline [OF lk b e1 r1 e2 r2] r1 r2 show ?thesis by blast
qed

text \<open>
  C39 (error). The path in a stash file leads, when the peer is back, to another
  inode than the one that was stashed, for instance because the file was renamed
  and another one took its name. The restore is aborted, but \<open>err\<close> is 0 then: it
  counts as succeeded, with its pages as written, the stash file is removed, and
  no byte of it has been written anywhere.
\<close>
theorem aborted_restore_loses_stash:
  assumes "hmdfs_open_stash_file denv (stash_files p) inum = Inr f"
    and "hmdfs_lookup_stash_inode inum p = Some i" "status_of p i = HMDFS_REMOTE_INODE_RESTORING"
    and "hmdfs_open_restore_dst_file crc32 (env inum) (init_ctx seq inum f) = Some (0, c)"
    and "hmdfs_need_abort_restore (env inum) i" "o_unlink denv inum = 0"
  shows "\<exists>p1. restore_files_loop crc32 denv env seq [inum] p stats =
       Some (0, p1, stats\<lparr>rs_succeed := rs_succeed stats + 1, rs_ok_pages := rs_ok_pages stats + of_nat (r_pages c)\<rparr>) \<and>
     stash_files p1 (stash_file_name inum) = None \<and> remote_data p1 = remote_data p \<and> status_of p1 i = HMDFS_REMOTE_INODE_NONE"
proof -
  let ?q = "hmdfs_reset_stashed_inode i (upd_inode i (\<lambda>n. n\<lparr>fid_need_open := True\<rparr>) p)"
  have "hmdfs_lookup_stash_inode (r_inum (init_ctx seq inum f)) p = Some i" using assms(2) by (simp add: init_ctx_def)
  note r = restore_file_pinned(2) [OF this assms(3,4) refl assms(5)]
  have "restore_files_loop crc32 denv env seq [inum] p stats =
      Some (0, hmdfs_del_stash_file denv inum ?q, stats\<lparr>rs_succeed := rs_succeed stats + 1, rs_ok_pages := rs_ok_pages stats + of_nat (r_pages c)\<rparr>)"
    by (simp add: assms(1) r Let_def hmdfs_update_restore_stats_def)
  then show ?thesis by (simp add: hmdfs_del_stash_file_def assms(6))
qed

definition sample_denv :: dir_env where
  "sample_denv = \<lparr>o_lookup = (\<lambda>_. 0), o_reg = (\<lambda>_. True), o_open = (\<lambda>_. 0), o_unlink = (\<lambda>_. 0)\<rparr>"

theorem aborted_restore_loses_stash_witness:
  "\<exists>p1. restore_files_loop (\<lambda>_. 0) sample_denv (\<lambda>_. (sample_restore_env sample_stash_file)\<lparr>e_opened := 8\<rparr>) 3 [7] sample_stashed
       \<lparr>rs_succeed = 0, rs_fail = 0, rs_keep = 0, rs_ok_pages = 0, rs_fail_pages = 0\<rparr> =
       Some (0, p1, \<lparr>rs_succeed = 1, rs_fail = 0, rs_keep = 0, rs_ok_pages = 1, rs_fail_pages = 0\<rparr>) \<and>
     stash_files p1 (stash_file_name 7) = None \<and> remote_data p1 = remote_data sample_stashed"
proof -
  let ?env = "\<lambda>_ :: u64. (sample_restore_env sample_stash_file)\<lparr>e_opened := 8\<rparr>"
  have f: "hmdfs_open_stash_file sample_denv (stash_files sample_stashed) 7 = Inr sample_stash_file"
    using sample_stash by (auto simp: hmdfs_open_stash_file_def sample_denv_def sample_stash_file_def)
  have lk: "hmdfs_lookup_stash_inode 7 sample_stashed = Some 7" "status_of sample_stashed 7 = HMDFS_REMOTE_INODE_RESTORING"
    using sample_stash by auto
  have o: "hmdfs_open_restore_dst_file (\<lambda>_. 0) (?env 7) (init_ctx 3 7 sample_stash_file) =
      Some (0, (init_ctx 3 7 sample_stash_file)\<lparr>r_pages := 1, r_data_offs := 2, r_dst := [47, 97, 0]\<rparr>)"
    by (rule sample_open_stash) (simp_all add: sample_restore_env_def)
  have a: "hmdfs_need_abort_restore (?env 7) 7" "o_unlink sample_denv 7 = 0"
    by (simp_all add: hmdfs_need_abort_restore_def sample_denv_def)
  from aborted_restore_loses_stash [where env = ?env, OF f lk o a,
      where stats = "\<lparr>rs_succeed = 0, rs_fail = 0, rs_keep = 0, rs_ok_pages = 0, rs_fail_pages = 0\<rparr>"]
  show ?thesis by auto
qed

end
