(* ===== verification/Stash_End.thy ===== *)
theory Stash_End
  imports Stash_Restore
begin

text \<open>
  The names of the stash files, and the end of a peer: what the callback of the
  event del releases.
\<close>

section \<open>Names\<close>

text \<open>The value of a string of hexadecimal digits in lower case.\<close>

definition hex_value :: "byte list \<Rightarrow> nat" where
  "hex_value bs = foldl (\<lambda>v b. 16 * v + (if unat b < 58 then unat b - 48 else unat b - 87)) 0 bs"

lemma hex_value_digits: "n < 16 ^ k \<Longrightarrow> 0 < k \<Longrightarrow> hex_value (hex_digits k n) = n"
proof (induction k arbitrary: n)
  case (Suc k)
  obtain b where b: "b = (of_nat (if n mod 16 < 10 then 48 + n mod 16 else 87 + n mod 16) :: byte)" by simp
  have m: "n mod 16 < 16" by simp
  then have "unat b = (if n mod 16 < 10 then 48 + n mod 16 else 87 + n mod 16)"
    unfolding b unat_of_nat by auto
  then have d: "(if unat b < 58 then unat b - 48 else unat b - 87) = n mod 16" by auto
  have h: "hex_digits (Suc k) n = (if n < 16 then [] else hex_digits k (n div 16)) @ [b]" by (simp add: b)
  show ?case
  proof (cases "n < 16")
    case True
    then show ?thesis using d unfolding h by (simp add: hex_value_def)
  next
    case False
    then have "0 < k" using Suc.prems(1) by (cases k) auto
    moreover have "n div 16 < 16 ^ k" using Suc.prems(1) by (simp add: less_mult_imp_div_less mult.commute)
    ultimately have "hex_value (hex_digits k (n div 16)) = n div 16" using Suc.IH by blast
    then show ?thesis using d False unfolding h by (simp add: hex_value_def)
  qed
qed simp

lemma length_hex_digits: "length (hex_digits k n) \<le> k"
  by (induction k n rule: hex_digits.induct) auto

text \<open>
  The name of a stash file, \<open>0x\<close> and the number of the inode in
  hexadecimal, fits the 20 bytes \<open>snprintf\<close> is given with its final NUL, so it is
  never cut; its digits are the number, so that different inodes have different
  stash files.
\<close>
theorem stash_file_names:
  "length (stash_file_name ino) < 20 \<and> hex_value (drop 2 (stash_file_name ino)) = unat ino \<and>
   (stash_file_name ino = stash_file_name ino' \<longleftrightarrow> ino = ino')"
proof -
  have v: "hex_value (drop 2 (stash_file_name i)) = unat i" for i :: u64
    using hex_value_digits [of "unat i" 16] unsigned_less [of i, where 'a = nat] by (simp add: stash_file_name_def)
  have "ino = ino'" if "stash_file_name ino = stash_file_name ino'" using v [of ino] v [of ino'] that
    by (metis unsigned_word_eqI)
  then show ?thesis using v length_hex_digits [of 16 "unat ino"] by (auto simp: stash_file_name_def)
qed

section \<open>The end of a peer\<close>

lemma inv_cleanup_one:
  assumes "stash_inv {} opens p" "status_of p i = HMDFS_REMOTE_INODE_STASHING"
  defines "q \<equiv> iput i (hmdfs_remote_del_wr_opened_inode i
            (upd_inode i (\<lambda>n. n\<lparr>i_cache := None, stash_status := HMDFS_REMOTE_INODE_NONE\<rparr>) p))"
  shows "stash_inv {} opens q" "status_of q i = HMDFS_REMOTE_INODE_NONE" "\<And>j. j \<noteq> i \<Longrightarrow> inode q j = inode p j"
proof -
  note defs = q_def hmdfs_remote_del_wr_opened_inode_def iput_def Let_def
  show "stash_inv {} opens q"
    by (rule stash_inv_one [OF assms(1), where i = i])
       (use stash_invD(1-3) [OF assms(1)] stash_invD(4) [OF assms(1), of i] assms(2) in \<open>auto simp: defs inode_ok_def\<close>)
  show "status_of q i = HMDFS_REMOTE_INODE_NONE" "\<And>j. j \<noteq> i \<Longrightarrow> inode q j = inode p j" by (auto simp: defs)
qed

lemma inv_cleanup:
  "stash_inv {} opens p \<Longrightarrow> stash_inv {} opens (cleanup_preparing l p) \<and>
     (\<forall>i. status_of (cleanup_preparing l p) i =
        (if i \<in> set l \<and> status_of p i = HMDFS_REMOTE_INODE_STASHING then HMDFS_REMOTE_INODE_NONE else status_of p i))"
proof (induction l arbitrary: p)
  case (Cons i l)
  show ?case
  proof (cases "status_of p i = HMDFS_REMOTE_INODE_STASHING")
    case True
    note one = inv_cleanup_one [OF Cons.prems True]
    note ih = Cons.IH [OF one(1)]
    have "status_of (cleanup_preparing (i # l) p) j =
        (if j \<in> set (i # l) \<and> status_of p j = HMDFS_REMOTE_INODE_STASHING then HMDFS_REMOTE_INODE_NONE else status_of p j)" for j
      using ih one(2) one(3) [of j] True by (cases "j = i") simp_all
    then show ?thesis using ih True by simp
  qed (use Cons.IH [OF Cons.prems] in auto)
qed simp

lemma untrack_refs: "distinct l \<Longrightarrow> i_refs (inode (untrack_each l p) i) = (if i \<in> set l then i_refs (inode p i) - 1 else i_refs (inode p i))"
  by (induction l arbitrary: p) (auto simp: hmdfs_untrack_stashed_inode_def iput_def Let_def)

lemma untrack_list: "stashed_list (untrack_each l p) = fold remove1 l (stashed_list p)"
  by (induction l arbitrary: p) (auto simp: hmdfs_untrack_stashed_inode_def iput_def Let_def)

lemma fold_remove1_self: "fold remove1 l l = []"
  by (induction l) auto

text \<open>
  When a peer is deleted, after any run, every reference the stash
  code holds to one of its inodes is dropped: those of the inodes prepared for
  stashing and those of the inodes that wait for a restore; both kinds leave the
  lists, and only the files still open count as writers.
\<close>
theorem stash_cleanup_releases:
  assumes "stash_run crc32 k True opens p"
  shows "stashed_list (hmdfs_stash_del_do_cleanup True p) = [] \<and>
     (\<forall>i. i_refs (inode (hmdfs_stash_del_do_cleanup True p) i) = 0)"
proof -
  let ?q = "cleanup_preparing (wr_opened_list p) p"
  have inv: "stash_inv {} opens p" by (rule stash_run_inv [OF assms])
  note q = inv_cleanup [OF inv, of "wr_opened_list p"]
  have "status_of ?q i \<noteq> HMDFS_REMOTE_INODE_STASHING" for i
    using q stash_invD(4) [OF inv, of i] by (auto simp: inode_ok_def split: if_splits)
  then have "i_refs (inode ?q i) = (if i \<in> set (stashed_list ?q) then 1 else 0)" for i
    using stash_invD(4) [of "{}" opens ?q i] q by (cases "status_of ?q i") (auto simp: inode_ok_def)
  then show ?thesis using stash_invD(2) [of "{}" opens ?q] q
    by (simp add: hmdfs_stash_del_do_cleanup_def Let_def untrack_refs untrack_list fold_remove1_self)
qed

theorem stash_cleanup_releases_witness: "i_refs (inode (hmdfs_stash_del_do_cleanup True sample_offline) 7) = 0"
  using stash_cleanup_releases [OF sample_offline_run [of "\<lambda>_. 0" "\<lambda>_. None"]] by simp

end
