(* ===== verification/Page_Write.thy ===== *)
theory Page_Write
  imports Stash_Peer
begin

text \<open>
  Writing back a page of a remote file (\<open>file_remote.c\<close>, \<open>hmdfs_client.c\<close>): the
  page goes to the peer with an asynchronous request, to the stash file while the
  inode is being stashed, or it is tried again when the peer is offline. The state
  is what these functions change: the flags of the page, the error of its mapping,
  the semaphore, the context with its reference to the calling task.

  The results of allocations and of sending, the status of the inode at each read,
  the clock and pending signals are arguments.
\<close>

section \<open>State\<close>

record wpage_context =
  rsem_held :: bool
  sync_all :: bool
  wp_count :: nat

record wpage =
  pg_dirty :: bool
  pg_writeback :: bool
  pg_uptodate :: bool
  pg_error :: bool
  pg_locked :: bool
  map_err :: int
  wpage_readers :: nat
  task_refs :: nat
  wctx :: "wpage_context option"
  write_counter :: nat
  stored :: bool

text \<open>Who continues with the page after a function has returned.\<close>

datatype wp_owner = At_Remote | Retry_Later | Settled

definition hmdfs_is_offline_err :: "int \<Rightarrow> bool" where
  "hmdfs_is_offline_err err \<longleftrightarrow> err = - EAGAIN \<or> err = - ESHUTDOWN \<or> err = - EBADF"

definition hmdfs_is_offline_or_timeout_err :: "int \<Rightarrow> bool" where
  "hmdfs_is_offline_or_timeout_err err \<longleftrightarrow> hmdfs_is_offline_err err \<or> err = - ETIME"

definition hmdfs_need_redirty_page :: "bool \<Rightarrow> hmdfs_remote_inode_status \<Rightarrow> int \<Rightarrow> bool" where
  "hmdfs_need_redirty_page s_offline_stash status err \<longleftrightarrow>
     s_offline_stash \<and> hmdfs_is_offline_err err \<and> status \<noteq> HMDFS_REMOTE_INODE_RESTORING"

text \<open>\<open>mapping_set_error\<close> ignores 0.\<close>

definition mapping_set_error :: "int \<Rightarrow> wpage \<Rightarrow> wpage" where
  "mapping_set_error err s = (if err = 0 then s else s\<lparr>map_err := err\<rparr>)"

definition hmdfs_get_writecount :: "nat \<Rightarrow> nat \<Rightarrow> nat" where
  "hmdfs_get_writecount index isize =
     (let pos = index * 4096 in
      if pos \<ge> isize then 0
      else if isize < pos + 4096 then isize - pos
      else 4096)"

section \<open>The end of a write\<close>

definition end_page :: "bool \<Rightarrow> wpage \<Rightarrow> wpage" where
  "end_page unlock s =
     s\<lparr>pg_writeback := False, wpage_readers := (if unlock then wpage_readers s - 1 else wpage_readers s), pg_locked := False\<rparr>"

definition hmdfs_client_writepage_done :: "wpage_context \<Rightarrow> wpage \<Rightarrow> wpage" where
  "hmdfs_client_writepage_done ctx s = end_page (rsem_held ctx) (s\<lparr>pg_uptodate := True\<rparr>)"

text \<open>The environment of one call: mount option, status of the inode, clock, signal.\<close>

record wp_env =
  w_stash :: bool
  w_status :: hmdfs_remote_inode_status
  w_status_locked :: hmdfs_remote_inode_status
  w_in_time :: bool
  w_signal :: bool
  w_send :: int
  w_stash_ret :: int

definition hmdfs_client_writepage_err :: "wp_env \<Rightarrow> wpage_context \<Rightarrow> int \<Rightarrow> wpage \<Rightarrow> wpage" where
  "hmdfs_client_writepage_err env ctx err s =
     (let s1 = (if err = - ENOMEM \<or> err = - EAGAIN \<or> err = - ESHUTDOWN \<or> err = - ETIME then s\<lparr>pg_uptodate := True\<rparr> else s);
          s2 = (if sync_all ctx \<and> w_signal env then s1\<lparr>pg_uptodate := False\<rparr> else s1);
          s3 = (if sync_all ctx \<or> \<not> w_in_time env \<or>
                   \<not> (err = - ETIME \<or> hmdfs_need_redirty_page (w_stash env) (w_status env) err)
                then mapping_set_error (- EIO) (s2\<lparr>pg_error := True\<rparr>)
                else s2\<lparr>pg_dirty := True\<rparr>)
      in end_page (rsem_held ctx) s3)"

definition put_ctx :: "wpage \<Rightarrow> wpage" where
  "put_ctx s = s\<lparr>task_refs := task_refs s - 1, wctx := None\<rparr>"

section \<open>One attempt\<close>

definition hmdfs_no_timedout_sync_write :: "wp_env \<Rightarrow> wpage_context \<Rightarrow> bool" where
  "hmdfs_no_timedout_sync_write env ctx \<longleftrightarrow> sync_all ctx \<and> w_in_time env"

definition hmdfs_client_rewrite_for_timeout :: "wp_env \<Rightarrow> wpage_context \<Rightarrow> int \<Rightarrow> bool" where
  "hmdfs_client_rewrite_for_timeout env ctx err \<longleftrightarrow>
     err = - ETIME \<and> hmdfs_no_timedout_sync_write env ctx \<and> \<not> w_signal env"

definition hmdfs_client_rewrite_for_offline :: "wp_env \<Rightarrow> wpage_context \<Rightarrow> int \<Rightarrow> bool" where
  "hmdfs_client_rewrite_for_offline env ctx err \<longleftrightarrow>
     w_stash env \<and> w_status env \<noteq> HMDFS_REMOTE_INODE_RESTORING \<and>
     (hmdfs_no_timedout_sync_write env ctx \<or> w_status env = HMDFS_REMOTE_INODE_STASHING) \<and>
     hmdfs_is_offline_or_timeout_err err"

definition hmdfs_client_redo_writepage :: "wp_env \<Rightarrow> wpage_context \<Rightarrow> int \<Rightarrow> bool" where
  "hmdfs_client_redo_writepage env ctx err \<longleftrightarrow>
     hmdfs_client_rewrite_for_timeout env ctx err \<or> hmdfs_client_rewrite_for_offline env ctx err"

definition hmdfs_remote_write_to_remote :: "wp_env \<Rightarrow> bool" where
  "hmdfs_remote_write_to_remote env \<longleftrightarrow>
     (if w_status env \<noteq> HMDFS_REMOTE_INODE_STASHING then True
      else w_status_locked env \<noteq> HMDFS_REMOTE_INODE_STASHING)"

text \<open>The result, who continues, and the page; the stash file ends the write itself.\<close>

definition hmdfs_remote_do_writepage :: "wp_env \<Rightarrow> wpage_context \<Rightarrow> wpage \<Rightarrow> int \<times> wp_owner \<times> wpage" where
  "hmdfs_remote_do_writepage env ctx s =
     (let to_remote = hmdfs_remote_write_to_remote env;
          err = (if to_remote then w_send env else w_stash_ret env)
      in if err = 0 then
           (if to_remote then (0, At_Remote, s)
            else (0, Settled, put_ctx ((hmdfs_client_writepage_done ctx s)\<lparr>stored := True\<rparr>)))
         else if \<not> (to_remote \<and> hmdfs_client_rewrite_for_offline env ctx err) then (err, Settled, s)
         else (0, Retry_Later, s))"

section \<open>The functions\<close>

definition allow_cur_thread_wpage :: "bool \<Rightarrow> bool \<Rightarrow> bool \<times> bool" where
  "allow_cur_thread_wpage trylock sync = (if sync then (True, False) else (trylock, trylock))"

text \<open>
  \<open>hmdfs_writepage_remote\<close> with the result of \<open>down_read_trylock\<close>, of the
  allocation, and the size of the file.
\<close>

definition out_unlock :: "wp_env \<Rightarrow> bool \<Rightarrow> int \<Rightarrow> wpage \<Rightarrow> wpage" where
  "out_unlock env sync ret s =
     (let s1 = (if sync \<or> \<not> hmdfs_need_redirty_page (w_stash env) (w_status env) ret
                then mapping_set_error ret (s\<lparr>pg_error := True\<rparr>) else s\<lparr>pg_dirty := True\<rparr>)
      in s1\<lparr>pg_locked := False\<rparr>)"

definition hmdfs_writepage_remote ::
  "wp_env \<Rightarrow> bool \<Rightarrow> bool \<Rightarrow> bool \<Rightarrow> nat \<Rightarrow> nat \<Rightarrow> wpage \<Rightarrow> int \<times> wp_owner \<times> wpage" where
  "hmdfs_writepage_remote env trylock alloc sync index isize s =
     (case allow_cur_thread_wpage trylock sync of (allowed, held) \<Rightarrow>
      if \<not> allowed then (0, Settled, out_unlock env sync 0 s)
      else
        (let s1 = s\<lparr>pg_writeback := True, wpage_readers := (if held then wpage_readers s + 1 else wpage_readers s)\<rparr>;
             endwb = (\<lambda>t. t\<lparr>pg_writeback := False, wpage_readers := (if held then wpage_readers t - 1 else wpage_readers t)\<rparr>)
         in if \<not> alloc then (- ENOMEM, Settled, out_unlock env sync (- ENOMEM) (endwb s1))
            else if sync \<and> w_signal env then (0, Settled, out_unlock env sync 0 (endwb (s1\<lparr>pg_uptodate := False\<rparr>)))
            else if hmdfs_get_writecount index isize = 0 then (0, Settled, out_unlock env sync 0 (endwb s1))
            else
              (let ctx = \<lparr>rsem_held = held, sync_all = sync, wp_count = hmdfs_get_writecount index isize\<rparr>
               in case hmdfs_remote_do_writepage env ctx (s1\<lparr>wctx := Some ctx, task_refs := task_refs s1 + 1\<rparr>) of
                    (ret, owner, s2) \<Rightarrow>
                      if ret = 0 then (0, owner, s2)
                      else (ret, Settled, out_unlock env sync ret (endwb (put_ctx s2))))))"

definition hmdfs_remote_writepage_retry :: "wp_env \<Rightarrow> wpage_context \<Rightarrow> wpage \<Rightarrow> wp_owner \<times> wpage" where
  "hmdfs_remote_writepage_retry env ctx s =
     (case hmdfs_remote_do_writepage env ctx s of
        (err, owner, s1) \<Rightarrow>
          if err = 0 then (owner, s1)
          else (Settled, put_ctx (hmdfs_client_writepage_err env ctx err s1)))"

definition hmdfs_writepage_cb :: "wp_env \<Rightarrow> int \<Rightarrow> wpage_context \<Rightarrow> wpage \<Rightarrow> wp_owner \<times> wpage" where
  "hmdfs_writepage_cb env ret ctx s =
     (if ret = 0 then
        (Settled, put_ctx ((hmdfs_client_writepage_done ctx s)\<lparr>write_counter := write_counter s + 1, stored := True\<rparr>))
      else if hmdfs_client_redo_writepage env ctx ret then
        (case hmdfs_remote_do_writepage env ctx s of
           (err, owner, s1) \<Rightarrow>
             if err = 0 then (owner, s1)
             else (Settled, put_ctx (hmdfs_client_writepage_err env ctx err s1)))
      else (Settled, put_ctx (hmdfs_client_writepage_err env ctx ret s)))"

section \<open>The life of a page\<close>

text \<open>
  The writeback calls \<open>hmdfs_writepage_remote\<close> with a locked page whose dirty
  flag it has cleared; then the answers of the peer and the retries follow.
\<close>

definition to_write :: "wpage \<Rightarrow> bool" where
  "to_write s \<longleftrightarrow> pg_locked s \<and> \<not> pg_dirty s \<and> \<not> pg_writeback s \<and> wctx s = None \<and> \<not> stored s \<and> map_err s = 0"

inductive wp_reach :: "wpage \<Rightarrow> wp_owner \<Rightarrow> wpage \<Rightarrow> bool" for s0 :: wpage where
  wp_start: "hmdfs_writepage_remote env trylock alloc sync index isize s0 = (ret, owner, s) \<Longrightarrow> wp_reach s0 owner s"
| wp_retry: "wp_reach s0 Retry_Later s \<Longrightarrow> wctx s = Some ctx \<Longrightarrow> hmdfs_remote_writepage_retry env ctx s = (owner, s') \<Longrightarrow> wp_reach s0 owner s'"
| wp_answer: "wp_reach s0 At_Remote s \<Longrightarrow> wctx s = Some ctx \<Longrightarrow> hmdfs_writepage_cb env ret ctx s = (owner, s') \<Longrightarrow> wp_reach s0 owner s'"

text \<open>A page under way, and a page whose write has ended.\<close>

definition under_way :: "wpage \<Rightarrow> wpage \<Rightarrow> bool" where
  "under_way s0 s \<longleftrightarrow> pg_locked s \<and> pg_writeback s \<and> \<not> pg_dirty s \<and> \<not> stored s \<and> map_err s = 0 \<and>
     task_refs s = task_refs s0 + 1 \<and>
     (\<exists>ctx. wctx s = Some ctx \<and> wpage_readers s = wpage_readers s0 + (if rsem_held ctx then 1 else 0))"

definition ended :: "wpage \<Rightarrow> wpage \<Rightarrow> bool" where
  "ended s0 s \<longleftrightarrow> \<not> pg_locked s \<and> \<not> pg_writeback s \<and> wctx s = None \<and> task_refs s = task_refs s0 \<and>
     wpage_readers s = wpage_readers s0"

definition page_accounted :: "wpage \<Rightarrow> bool" where
  "page_accounted s \<longleftrightarrow> stored s \<or> pg_dirty s \<or> map_err s \<noteq> 0"

lemma err_ends:
  assumes "under_way s0 s" "wctx s = Some ctx"
  shows "ended s0 (put_ctx (hmdfs_client_writepage_err env ctx err s)) \<and> page_accounted (put_ctx (hmdfs_client_writepage_err env ctx err s))"
  using assms by (auto simp: under_way_def ended_def page_accounted_def put_ctx_def hmdfs_client_writepage_err_def Let_def end_page_def mapping_set_error_def)

lemma do_writepage_cases:
  assumes "under_way s0 s" "wctx s = Some ctx" "hmdfs_remote_do_writepage env ctx s = (err, owner, s1)"
  shows "err = 0 \<and> owner \<noteq> Settled \<and> s1 = s \<or> err = 0 \<and> owner = Settled \<and> ended s0 s1 \<and> page_accounted s1 \<or> err \<noteq> 0 \<and> s1 = s"
  using assms by (auto simp: hmdfs_remote_do_writepage_def Let_def under_way_def ended_def page_accounted_def put_ctx_def
      hmdfs_client_writepage_done_def end_page_def split: if_splits)

text \<open>The calls that end a write without storing the page and without an error.\<close>

definition skips_page :: "wp_env \<Rightarrow> bool \<Rightarrow> bool \<Rightarrow> nat \<Rightarrow> nat \<Rightarrow> bool" where
  "skips_page env trylock sync index isize \<longleftrightarrow>
     \<not> sync \<and> \<not> trylock \<or> sync \<and> w_signal env \<or> hmdfs_get_writecount index isize = 0"

lemma out_unlock_accounted: "ret \<noteq> 0 \<Longrightarrow> page_accounted (out_unlock env sync ret s)"
  by (simp add: out_unlock_def page_accounted_def mapping_set_error_def Let_def)

lemma out_unlock_same [simp]:
  "pg_writeback (out_unlock env sync ret s) = pg_writeback s" "pg_locked (out_unlock env sync ret s) = False"
  "wctx (out_unlock env sync ret s) = wctx s" "task_refs (out_unlock env sync ret s) = task_refs s"
  "wpage_readers (out_unlock env sync ret s) = wpage_readers s"
  by (simp_all add: out_unlock_def mapping_set_error_def Let_def)

lemma start_cases:
  assumes "to_write s0" and r: "hmdfs_writepage_remote env trylock alloc sync index isize s0 = (ret, owner, s)"
  shows "if owner = Settled then ended s0 s \<and> (page_accounted s \<or> ret = 0 \<and> skips_page env trylock sync index isize) else under_way s0 s"
proof -
  obtain allowed held where a: "allow_cur_thread_wpage trylock sync = (allowed, held)" by fastforce
  let ?s1 = "s0\<lparr>pg_writeback := True, wpage_readers := (if held then wpage_readers s0 + 1 else wpage_readers s0)\<rparr>"
  let ?ctx = "\<lparr>rsem_held = held, sync_all = sync, wp_count = hmdfs_get_writecount index isize\<rparr>"
  consider (busy) "\<not> allowed" | (nomem) "allowed" "\<not> alloc" | (sig) "allowed" "alloc" "sync" "w_signal env"
    | (beyond) "allowed" "alloc" "\<not> (sync \<and> w_signal env)" "hmdfs_get_writecount index isize = 0"
    | (go) "allowed" "alloc" "\<not> (sync \<and> w_signal env)" "hmdfs_get_writecount index isize \<noteq> 0" by blast
  then show ?thesis
  proof cases
    case busy
    then have "\<not> sync \<and> \<not> trylock" using a by (auto simp: allow_cur_thread_wpage_def split: if_splits)
    with busy r a assms(1) show ?thesis
      by (auto simp: hmdfs_writepage_remote_def ended_def skips_page_def to_write_def)
  next
    case nomem
    with r a assms(1) show ?thesis
      by (auto simp: hmdfs_writepage_remote_def ended_def to_write_def Let_def out_unlock_accounted)
  next
    case sig
    with r a assms(1) show ?thesis
      by (auto simp: hmdfs_writepage_remote_def ended_def to_write_def Let_def skips_page_def)
  next
    case beyond
    with r a assms(1) show ?thesis
      by (auto simp: hmdfs_writepage_remote_def ended_def to_write_def Let_def skips_page_def)
  next
    case go
    let ?s2 = "?s1\<lparr>wctx := Some ?ctx, task_refs := task_refs ?s1 + 1\<rparr>"
    have uw: "under_way s0 ?s2" using assms(1) by (simp add: under_way_def to_write_def)
    obtain e o1 t where d: "hmdfs_remote_do_writepage env ?ctx ?s2 = (e, o1, t)" by (metis prod_cases3)
    have c: "e = 0 \<and> o1 \<noteq> Settled \<and> t = ?s2 \<or> e = 0 \<and> o1 = Settled \<and> ended s0 t \<and> page_accounted t \<or> e \<noteq> 0 \<and> t = ?s2"
      by (rule do_writepage_cases [OF uw _ d]) simp
    note r' = r [unfolded hmdfs_writepage_remote_def a prod.case Let_def]
    show ?thesis
    proof (cases "e = 0")
      case True
      with r' go d have "owner = o1" "s = t" by (auto simp: Let_def)
      with c True uw show ?thesis by auto
    next
      case False
      with r' go d have "owner = Settled" "\<exists>f. s = out_unlock env sync e f \<and> f = (put_ctx t)\<lparr>pg_writeback := False,
          wpage_readers := (if held then wpage_readers (put_ctx t) - 1 else wpage_readers (put_ctx t))\<rparr>" by (auto simp: Let_def)
      with c False show ?thesis using out_unlock_accounted [OF False] by (auto simp: ended_def put_ctx_def)
    qed
  qed
qed


text \<open>
  C38 (error). A page that the background writeback wants to write while a sync holds
  the semaphore is skipped with result 0: \<open>hmdfs_need_redirty_page\<close> is asked about
  the result 0, which is no offline error, so the page is not made dirty again and
  \<open>mapping_set_error\<close> ignores the 0. The page is clean, its data was sent nowhere
  and no error is left for \<open>fsync\<close> to report.
\<close>
theorem busy_page_dropped:
  assumes "to_write s0"
  shows "\<exists>s. hmdfs_writepage_remote env False alloc False index isize s0 = (0, Settled, s) \<and>
    \<not> pg_dirty s \<and> \<not> pg_locked s \<and> \<not> stored s \<and> map_err s = 0 \<and> pg_error s"
  using assms by (simp add: hmdfs_writepage_remote_def allow_cur_thread_wpage_def out_unlock_def to_write_def
      hmdfs_need_redirty_page_def hmdfs_is_offline_err_def mapping_set_error_def Let_def)

definition sample_wpage :: wpage where
  "sample_wpage = \<lparr>pg_dirty = False, pg_writeback = False, pg_uptodate = True, pg_error = False, pg_locked = True, map_err = 0,
     wpage_readers = 0, task_refs = 4, wctx = None, write_counter = 0, stored = False\<rparr>"

definition sample_wp_env :: wp_env where
  "sample_wp_env = \<lparr>w_stash = True, w_status = HMDFS_REMOTE_INODE_NONE, w_status_locked = HMDFS_REMOTE_INODE_NONE,
     w_in_time = True, w_signal = False, w_send = 0, w_stash_ret = 0\<rparr>"

theorem busy_page_dropped_witness:
  "\<exists>s. hmdfs_writepage_remote sample_wp_env False True False 0 5000 sample_wpage = (0, Settled, s) \<and> \<not> pg_dirty s \<and> map_err s = 0 \<and> \<not> stored s"
  using busy_page_dropped [of sample_wpage sample_wp_env True 0 5000] by (auto simp: to_write_def sample_wpage_def)

text \<open>A page is sent, the peer goes offline, the retry finds the inode being stashed.\<close>

definition sample_settled :: wpage where
  "sample_settled = snd (hmdfs_writepage_cb
     (sample_wp_env\<lparr>w_status := HMDFS_REMOTE_INODE_STASHING, w_status_locked := HMDFS_REMOTE_INODE_STASHING\<rparr>) (- ESHUTDOWN)
     \<lparr>rsem_held = True, sync_all = False, wp_count = 4096\<rparr>
     (snd (snd (hmdfs_writepage_remote sample_wp_env True True False 0 5000 sample_wpage))))"

lemma sample_settled_reach: "wp_reach sample_wpage Settled sample_settled"
proof (rule wp_answer [where ret = "- 108" and ctx = "\<lparr>rsem_held = True, sync_all = False, wp_count = 4096\<rparr>" and
    env = "sample_wp_env\<lparr>w_status := HMDFS_REMOTE_INODE_STASHING, w_status_locked := HMDFS_REMOTE_INODE_STASHING\<rparr>"])
  show "wp_reach sample_wpage At_Remote (snd (snd (hmdfs_writepage_remote sample_wp_env True True False 0 5000 sample_wpage)))"
    by (rule wp_start [where env = sample_wp_env and trylock = True and alloc = True and sync = False and index = 0 and isize = 5000 and ret = 0])
       (simp add: hmdfs_writepage_remote_def sample_wp_env_def sample_wpage_def allow_cur_thread_wpage_def hmdfs_get_writecount_def
          hmdfs_remote_do_writepage_def hmdfs_remote_write_to_remote_def Let_def)
qed (simp_all add: sample_settled_def hmdfs_writepage_remote_def hmdfs_writepage_cb_def sample_wp_env_def sample_wpage_def
      allow_cur_thread_wpage_def hmdfs_get_writecount_def hmdfs_client_redo_writepage_def hmdfs_client_rewrite_for_offline_def
      hmdfs_is_offline_or_timeout_err_def hmdfs_is_offline_err_def hmdfs_remote_do_writepage_def hmdfs_remote_write_to_remote_def Let_def)


end
