(* ===== verification/Remote_Open.thy ===== *)
theory Remote_Open
  imports Client_Req "HOL-Library.Multiset"
begin

text \<open>
  Opening and closing a remote file on the client (\<open>file_remote.c\<close>): the decision
  whether the cached pages of the inode may be used again, the file number the
  peer has given, the reference count of the open files, and opening again after
  the number has become stale.

  \<open>got\<close> and \<open>closed\<close> record the numbers the client was given and those that were sent
  back with a close. The answers of the peer, allocations and the clock are
  arguments.
\<close>

section \<open>State\<close>

definition HMDFS_INODE_INVALID_FILE_ID :: u32 where "HMDFS_INODE_INVALID_FILE_ID = 2 ^ 31"

record remote_inode =
  ri_ino :: u64
  ri_size :: u64
  ri_pages :: "nat \<rightharpoonup> byte list"
  ri_ctime :: "u64 \<times> u32"
  ri_stable :: "u64 \<times> u32"
  ri_expire :: u64
  ri_written :: nat
  ri_fid :: hmdfs_fid
  ri_need_open :: bool
  ri_opening :: bool
  ri_ref :: nat
  got :: "hmdfs_fid multiset"
  closed :: "hmdfs_fid multiset"

definition send_close :: "hmdfs_fid \<Rightarrow> remote_inode \<Rightarrow> remote_inode" where
  "send_close fid s = s\<lparr>closed := add_mset fid (closed s)\<rparr>"

section \<open>Opening\<close>

datatype expire_reason = ALL_GOOD | INO_DISMATCH | SIZE_OR_CTIME_DISMATCH | TIMER_EXPIRE | TIMER_WORKING | STABLE_CTIME_DISMATCH | KEEP_CACHE

text \<open>Whether the pages are dropped, and why.\<close>

definition hmdfs_remote_write_cache_expired :: "u64 \<Rightarrow> remote_inode \<Rightarrow> bool" where
  "hmdfs_remote_write_cache_expired jiffies s = time_after jiffies (ri_expire s)"

definition expire_decision :: "u64 \<Rightarrow> hmdfs_open_ret \<Rightarrow> remote_inode \<Rightarrow> bool \<times> expire_reason" where
  "expire_decision jiffies r s =
     (if ri_size s \<noteq> or_file_size r \<or> ri_ctime s \<noteq> or_remote_ctime r then (True, SIZE_OR_CTIME_DISMATCH)
      else if ri_expire s \<noteq> 0 then
        (if hmdfs_remote_write_cache_expired jiffies s then (True, TIMER_EXPIRE) else (False, TIMER_WORKING))
      else if ri_stable s = (0, 0) then (True, STABLE_CTIME_DISMATCH)
      else if ri_stable s \<noteq> or_stable_ctime r then (True, STABLE_CTIME_DISMATCH)
      else (False, ALL_GOOD))"

definition hmdfs_open_final_remote :: "u64 \<Rightarrow> bool \<Rightarrow> hmdfs_open_ret \<Rightarrow> remote_inode \<Rightarrow> int \<times> remote_inode" where
  "hmdfs_open_final_remote jiffies keep_cache r s =
     (if ri_ino s \<noteq> or_ino r then (- ESTALE, send_close (or_fid r) s)
      else if keep_cache then (0, s\<lparr>ri_fid := or_fid r\<rparr>)
      else (case expire_decision jiffies r s of (truncate_pages, reason) \<Rightarrow>
        (let s1 = (if reason = SIZE_OR_CTIME_DISMATCH then s\<lparr>ri_ctime := or_remote_ctime r\<rparr> else s);
             s2 = (if truncate_pages then s1\<lparr>ri_expire := 0, ri_pages := Map.empty\<rparr> else s1)
         in (0, s2\<lparr>ri_written := 0, ri_stable := or_stable_ctime r, ri_size := or_file_size r, ri_fid := or_fid r\<rparr>))))"

text \<open>\<open>Inl\<close> is the error of \<open>hmdfs_send_open\<close>; a successful answer holds a number at the peer.\<close>

record remote_open_env =
  oe_buf :: bool
  oe_send :: "int + hmdfs_open_ret"
  oe_jiffies :: u64

definition hmdfs_do_open_remote :: "remote_open_env \<Rightarrow> bool \<Rightarrow> remote_inode \<Rightarrow> int \<times> remote_inode" where
  "hmdfs_do_open_remote env keep_cache s =
     (if \<not> oe_buf env then (- ENOMEM, s)
      else (case oe_send env of
              Inl e \<Rightarrow> (e, s)
            | Inr r \<Rightarrow> hmdfs_open_final_remote (oe_jiffies env) keep_cache r (s\<lparr>got := add_mset (or_fid r) (got s)\<rparr>)))"

definition hmdfs_file_open_remote :: "remote_open_env \<Rightarrow> remote_inode \<Rightarrow> int \<times> remote_inode" where
  "hmdfs_file_open_remote env s =
     (if ri_ref s = 0 then
        (case hmdfs_do_open_remote env False s of
           (err, s1) \<Rightarrow> (err, if err = 0 then s1\<lparr>ri_ref := 1\<rparr> else s1))
      else (0, s\<lparr>ri_ref := ri_ref s + 1\<rparr>))"

section \<open>Opening again\<close>

text \<open>
  A thread that opens the file again works in three parts: under the lock of the number it
  waits until no other thread is opening, sets \<open>HMDFS_FID_OPENING\<close> and copies the number; under
  the lock of the inode it closes the copy and opens; then it clears the flags. Between
  the parts other threads run. \<open>None\<close> is a thread that sleeps until the opening one wakes it.
\<close>

definition hmdfs_remote_wait_opening_file :: "bool \<Rightarrow> remote_inode \<Rightarrow> int option" where
  "hmdfs_remote_wait_opening_file signal s =
     (if \<not> ri_opening s then Some 0 else if signal then Some (- EINTR) else None)"

definition reopen_begin :: "bool \<Rightarrow> bool \<Rightarrow> remote_inode \<Rightarrow> ((int + hmdfs_fid) \<times> remote_inode) option" where
  "reopen_begin offline signal s =
     (if offline then Some (Inl (- EAGAIN), s)
      else do {
        err \<leftarrow> hmdfs_remote_wait_opening_file signal s;
        if err \<noteq> 0 \<or> \<not> ri_need_open s then Some (Inl err, s)
        else Some (Inr (ri_fid s), s\<lparr>ri_opening := True\<rparr>) })"

definition reopen_work :: "remote_open_env \<Rightarrow> hmdfs_fid \<Rightarrow> remote_inode \<Rightarrow> int \<times> remote_inode" where
  "reopen_work env fid s =
     hmdfs_do_open_remote env True (if fid_id fid \<noteq> HMDFS_INODE_INVALID_FILE_ID then send_close fid s else s)"

definition reopen_end :: "int \<Rightarrow> remote_inode \<Rightarrow> remote_inode" where
  "reopen_end err s = (if err = 0 then s\<lparr>ri_need_open := False\<rparr> else s)\<lparr>ri_opening := False\<rparr>"

record reopen_env =
  re_offline :: bool
  re_signal :: bool
  re_open :: remote_open_env

text \<open>The parts in a row, for a thread that nobody disturbs.\<close>

definition hmdfs_remote_file_reopen :: "reopen_env \<Rightarrow> remote_inode \<Rightarrow> (int \<times> remote_inode) option" where
  "hmdfs_remote_file_reopen env s =
     (case reopen_begin (re_offline env) (re_signal env) s of
        None \<Rightarrow> None
      | Some (Inl err, s1) \<Rightarrow> Some (err, s1)
      | Some (Inr fid, s1) \<Rightarrow> (case reopen_work (re_open env) fid s1 of (err, s2) \<Rightarrow> Some (err, reopen_end err s2)))"

definition hmdfs_remote_check_and_reopen :: "reopen_env \<Rightarrow> remote_inode \<Rightarrow> (int \<times> remote_inode) option" where
  "hmdfs_remote_check_and_reopen env s =
     (if \<not> ri_need_open s then Some (0, s) else hmdfs_remote_file_reopen env s)"

section \<open>Closing\<close>

definition hmdfs_do_close_remote :: "remote_inode \<Rightarrow> remote_inode" where
  "hmdfs_do_close_remote s = send_close (ri_fid s) s"

definition hmdfs_set_writecache_expire :: "u64 \<Rightarrow> u64 \<Rightarrow> u64 \<Rightarrow> remote_inode \<Rightarrow> remote_inode" where
  "hmdfs_set_writecache_expire jiffies hz seconds s =
     (let new_expire = jiffies + seconds * hz
      in if ri_expire s \<noteq> 0 \<and> time_after new_expire (ri_expire s) then s else s\<lparr>ri_expire := new_expire\<rparr>)"

text \<open>The answer of \<open>hmdfs_remote_getattr\<close>: an error, or the change time if the peer reports one.\<close>

record release_env =
  le_timeout :: u64
  le_jiffies :: u64
  le_hz :: u64
  le_getattr :: "int + (u64 \<times> u32) option"

definition hmdfs_remote_keep_writecache :: "release_env \<Rightarrow> remote_inode \<Rightarrow> remote_inode" where
  "hmdfs_remote_keep_writecache env s =
     (if le_timeout env = 0 then s
      else if ri_ref s > 0 \<or> ri_written s = 0 then s
      else (case le_getattr env of
              Inl e \<Rightarrow> s
            | Inr None \<Rightarrow> s
            | Inr (Some ct) \<Rightarrow> hmdfs_set_writecache_expire (le_jiffies env) (le_hz env) (le_timeout env) (s\<lparr>ri_ctime := ct\<rparr>)))"

definition hmdfs_file_release_remote :: "release_env \<Rightarrow> remote_inode \<Rightarrow> remote_inode" where
  "hmdfs_file_release_remote env s =
     (let s1 = s\<lparr>ri_ref := ri_ref s - 1\<rparr>;
          s2 = (if ri_ref s1 = 0 then hmdfs_do_close_remote s1 else s1)
      in hmdfs_remote_keep_writecache env s2)"

section \<open>File numbers are given back\<close>

text \<open>A stale answer of the peer marks the inode for opening again.\<close>

definition mark_stale :: "remote_inode \<Rightarrow> remote_inode" where
  "mark_stale s = s\<lparr>ri_need_open := True\<rparr>"

definition valid_answer :: "remote_open_env \<Rightarrow> bool" where
  "valid_answer env \<longleftrightarrow> (case oe_send env of Inl e \<Rightarrow> e \<noteq> 0 | Inr r \<Rightarrow> fid_id (or_fid r) \<noteq> HMDFS_INODE_INVALID_FILE_ID)"

text \<open>
  Any number of threads open, close, and open again; a thread in a reopen is between its parts.
  It has the file open itself. Beside the state goes the multiset of the numbers
  that a failed reopen has closed and left in the inode.
\<close>

datatype reopener = Closing hmdfs_fid | Ending int

definition left_closed :: "int \<Rightarrow> hmdfs_fid \<Rightarrow> hmdfs_fid multiset" where
  "left_closed err fid = (if err \<noteq> 0 then {#fid#} else {#})"

inductive remote_run :: "hmdfs_fid multiset \<Rightarrow> reopener list \<Rightarrow> remote_inode \<Rightarrow> bool" where
  rr_start: "ri_ref s = 0 \<Longrightarrow> \<not> ri_opening s \<Longrightarrow> got s = {#} \<Longrightarrow> closed s = {#} \<Longrightarrow> remote_run {#} [] s"
| rr_open: "remote_run D ts s \<Longrightarrow> valid_answer env \<Longrightarrow> hmdfs_file_open_remote env s = (err, s') \<Longrightarrow> remote_run D ts s'"
| rr_release: "remote_run D ts s \<Longrightarrow> length ts < ri_ref s \<Longrightarrow> remote_run D ts (hmdfs_file_release_remote env s)"
| rr_stale: "remote_run D ts s \<Longrightarrow> remote_run D ts (mark_stale s)"
| rr_begin: "remote_run D ts s \<Longrightarrow> length ts < ri_ref s \<Longrightarrow> reopen_begin offline signal s = Some (Inr fid, s') \<Longrightarrow>
     remote_run D (Closing fid # ts) s'"
| rr_work: "remote_run D (ts @ Closing fid # us) s \<Longrightarrow> valid_answer env \<Longrightarrow> reopen_work env fid s = (err, s') \<Longrightarrow>
     remote_run (D + left_closed err fid) (ts @ Ending err # us) s'"
| rr_end: "remote_run D (ts @ Ending err # us) s \<Longrightarrow> remote_run D (ts @ us) (reopen_end err s)"

definition balanced :: "hmdfs_fid multiset \<Rightarrow> remote_inode \<Rightarrow> bool" where
  "balanced D s \<longleftrightarrow> closed s + (if 0 < ri_ref s then {#ri_fid s#} else {#}) = got s + D \<and>
     (0 < ri_ref s \<longrightarrow> fid_id (ri_fid s) \<noteq> HMDFS_INODE_INVALID_FILE_ID)"

text \<open>At most one thread is in a reopen; its copy of the number is the one of the inode.\<close>

definition one_reopener :: "reopener list \<Rightarrow> remote_inode \<Rightarrow> bool" where
  "one_reopener ts s \<longleftrightarrow> length ts = (if ri_opening s then 1 else 0) \<and> length ts \<le> ri_ref s \<and>
     (\<forall>fid. Closing fid \<in> set ts \<longrightarrow> fid = ri_fid s)"

lemma open_final_fields:
  assumes "hmdfs_open_final_remote j keep r s = (err, s')"
  shows "got s' = got s \<and> ri_ref s' = ri_ref s \<and> ri_opening s' = ri_opening s \<and>
    (if ri_ino s = or_ino r then err = 0 \<and> ri_fid s' = or_fid r \<and> closed s' = closed s
     else err \<noteq> 0 \<and> ri_fid s' = ri_fid s \<and> closed s' = add_mset (or_fid r) (closed s))"
  using assms by (auto simp: hmdfs_open_final_remote_def send_close_def Let_def split: if_splits prod.splits)

lemma do_open_fields:
  assumes "hmdfs_do_open_remote env keep s = (err, s')" "valid_answer env"
  shows "ri_ref s' = ri_ref s \<and> ri_opening s' = ri_opening s \<and>
    (if err = 0 then got s' = add_mset (ri_fid s') (got s) \<and> closed s' = closed s \<and> fid_id (ri_fid s') \<noteq> HMDFS_INODE_INVALID_FILE_ID
     else ri_fid s' = ri_fid s \<and> (\<exists>M. got s' = got s + M \<and> closed s' = closed s + M))"
proof (cases "oe_send env")
  case (Inl e)
  with assms show ?thesis by (auto simp: hmdfs_do_open_remote_def valid_answer_def split: if_splits)
next
  case (Inr r)
  show ?thesis
  proof (cases "oe_buf env")
    case True
    with Inr assms(1) have "hmdfs_open_final_remote (oe_jiffies env) keep r (s\<lparr>got := add_mset (or_fid r) (got s)\<rparr>) = (err, s')"
      by (simp add: hmdfs_do_open_remote_def)
    from open_final_fields [OF this] Inr assms(2) show ?thesis by (auto simp: valid_answer_def split: if_splits)
  next
    case False
    with assms(1) show ?thesis by (auto simp: hmdfs_do_open_remote_def)
  qed
qed

lemma keep_writecache_same [simp]:
  "got (hmdfs_remote_keep_writecache env s) = got s" "closed (hmdfs_remote_keep_writecache env s) = closed s"
  "ri_ref (hmdfs_remote_keep_writecache env s) = ri_ref s" "ri_fid (hmdfs_remote_keep_writecache env s) = ri_fid s"
  "ri_opening (hmdfs_remote_keep_writecache env s) = ri_opening s"
  by (simp_all add: hmdfs_remote_keep_writecache_def hmdfs_set_writecache_expire_def Let_def split: sum.splits option.splits)

lemma open_keeps:
  assumes "balanced D s" "one_reopener ts s" "valid_answer env" "hmdfs_file_open_remote env s = (err, s')"
  shows "balanced D s' \<and> one_reopener ts s'"
proof (cases "ri_ref s = 0")
  case True
  obtain e t where d: "hmdfs_do_open_remote env False s = (e, t)" by fastforce
  from do_open_fields [OF d assms(3)] True assms(1,2,4) d show ?thesis
    by (auto simp: hmdfs_file_open_remote_def balanced_def one_reopener_def split: if_splits)
next
  case False
  with assms show ?thesis by (auto simp: hmdfs_file_open_remote_def balanced_def one_reopener_def)
qed

lemma release_keeps:
  assumes "balanced D s" "one_reopener ts s" "length ts < ri_ref s"
  shows "balanced D (hmdfs_file_release_remote env s) \<and> one_reopener ts (hmdfs_file_release_remote env s)"
  using assms
  by (auto simp: hmdfs_file_release_remote_def hmdfs_do_close_remote_def send_close_def balanced_def one_reopener_def Let_def)

lemma begin_keeps:
  assumes "balanced D s" "one_reopener ts s" "length ts < ri_ref s" "reopen_begin offline signal s = Some (Inr fid, s')"
  shows "balanced D s' \<and> one_reopener (Closing fid # ts) s'"
  using assms
  by (auto simp: reopen_begin_def hmdfs_remote_wait_opening_file_def balanced_def one_reopener_def split: if_splits)

lemma work_keeps:
  assumes "balanced D s" "one_reopener (ts @ Closing fid # us) s" "valid_answer env" "reopen_work env fid s = (err, s')"
  shows "balanced (D + left_closed err fid) s' \<and> one_reopener (ts @ Ending err # us) s'"
proof -
  have t: "ts = []" "us = []" "ri_opening s" "0 < ri_ref s" "fid = ri_fid s"
    using assms(2) by (auto simp: one_reopener_def split: if_splits)
  have f: "fid_id fid \<noteq> HMDFS_INODE_INVALID_FILE_ID" using assms(1) t by (simp add: balanced_def)
  then have d: "hmdfs_do_open_remote env True (send_close fid s) = (err, s')" using assms(4) by (simp add: reopen_work_def)
  from do_open_fields [OF d assms(3)] assms(1) t f show ?thesis
    by (auto simp: balanced_def one_reopener_def left_closed_def send_close_def split: if_splits)
qed

lemma end_keeps:
  "balanced D s \<Longrightarrow> one_reopener (ts @ Ending err # us) s \<Longrightarrow> balanced D (reopen_end err s) \<and> one_reopener (ts @ us) (reopen_end err s)"
  by (auto simp: balanced_def one_reopener_def reopen_end_def split: if_splits)


text \<open>
  A reopen closes the old number first. When opening again fails, the
  inode keeps the number it has closed, and the last close of the file sends it a
  second time.
\<close>
theorem failed_reopen_closes_twice:
  assumes "got s = closed s + {#ri_fid s#}" "ri_ref s = 1" "ri_need_open s" "fid_id (ri_fid s) \<noteq> HMDFS_INODE_INVALID_FILE_ID"
    and "\<not> ri_opening s" "\<not> re_offline env" "oe_send (re_open env) = Inl e" "e \<noteq> 0"
  shows "\<exists>err s1. hmdfs_remote_check_and_reopen env s = Some (err, s1) \<and> err \<noteq> 0 \<and>
    closed (hmdfs_file_release_remote lenv s1) = got (hmdfs_file_release_remote lenv s1) + {#ri_fid s#}"
  using assms by (auto simp: hmdfs_remote_check_and_reopen_def hmdfs_remote_file_reopen_def reopen_begin_def reopen_work_def
      reopen_end_def hmdfs_remote_wait_opening_file_def hmdfs_do_open_remote_def
      send_close_def hmdfs_file_release_remote_def hmdfs_do_close_remote_def Let_def)

section \<open>Which pages a reader sees\<close>

text \<open>The pages a later open may use.\<close>

definition pages_valid :: "u64 \<Rightarrow> hmdfs_open_ret \<Rightarrow> remote_inode \<Rightarrow> bool" where
  "pages_valid jiffies r s \<longleftrightarrow> ri_size s = or_file_size r \<and> ri_ctime s = or_remote_ctime r \<and>
     (if ri_expire s \<noteq> 0 then \<not> time_after jiffies (ri_expire s)
      else ri_stable s \<noteq> (0, 0) \<and> ri_stable s = or_stable_ctime r)"

lemma open_pages:
  assumes "ri_ref s = 0" "oe_buf env" "oe_send env = Inr r" "ri_ino s = or_ino r"
  shows "\<exists>s'. hmdfs_file_open_remote env s = (0, s') \<and>
    ri_pages s' = (if pages_valid (oe_jiffies env) r s then ri_pages s else Map.empty) \<and>
    ri_size s' = or_file_size r \<and> ri_ctime s' = or_remote_ctime r \<and> ri_stable s' = or_stable_ctime r \<and> ri_fid s' = or_fid r \<and> ri_ref s' = 1"
proof -
  obtain tr reason where d: "expire_decision (oe_jiffies env) r (s\<lparr>got := add_mset (or_fid r) (got s)\<rparr>) = (tr, reason)" by fastforce
  have tr: "\<not> tr \<longleftrightarrow> pages_valid (oe_jiffies env) r s"
    using d by (auto simp: pages_valid_def expire_decision_def hmdfs_remote_write_cache_expired_def split: if_splits)
  have ct: "reason \<noteq> SIZE_OR_CTIME_DISMATCH \<Longrightarrow> ri_ctime s = or_remote_ctime r"
    using d by (auto simp: expire_decision_def split: if_splits)
  show ?thesis
    unfolding tr [symmetric] using assms d ct
    by (auto simp: hmdfs_file_open_remote_def hmdfs_do_open_remote_def hmdfs_open_final_remote_def Let_def)
qed

text \<open>
  C21 (functional). Opening a remote file that is not open uses the cached pages
  again exactly when the peer reports the size and the change time the client
  remembers, and either its own writes are younger than the limit of the write
  cache, or the stable change time is set and has not moved; otherwise all pages
  are dropped. In both cases the size, the number of the file and the stable time
  are the ones of the peer.
\<close>
theorem open_keeps_valid_pages:
  assumes "ri_ref s = 0" "oe_buf env" "oe_send env = Inr r" "ri_ino s = or_ino r"
  shows "\<exists>s'. hmdfs_file_open_remote env s = (0, s') \<and>
    ri_pages s' = (if ri_size s = or_file_size r \<and> ri_ctime s = or_remote_ctime r \<and>
        (if ri_expire s \<noteq> 0 then \<not> time_after (oe_jiffies env) (ri_expire s)
         else ri_stable s \<noteq> (0, 0) \<and> ri_stable s = or_stable_ctime r)
      then ri_pages s else Map.empty) \<and>
    ri_size s' = or_file_size r \<and> ri_ctime s' = or_remote_ctime r \<and> ri_stable s' = or_stable_ctime r \<and> ri_fid s' = or_fid r \<and> ri_ref s' = 1"
  using open_pages [OF assms] by (simp only: pages_valid_def)

section \<open>The window of the write cache\<close>

text \<open>Comparing times is right across the wrap-around of the clock.\<close>

lemma time_after_offset:
  assumes "\<bar>a\<bar> < 2 ^ 62" "\<bar>b\<bar> < 2 ^ 62"
  shows "time_after (j + of_int a) (j + of_int b) \<longleftrightarrow> b < a"
proof -
  have "j + of_int b - (j + of_int a) = (of_int (b - a) :: u64)" by simp
  moreover have "sint (of_int (b - a) :: u64) = b - a"
    unfolding signed_of_int using assms by (subst signed_take_bit_int_eq_self) simp_all
  ultimately show ?thesis by (simp add: time_after_def)
qed

text \<open>
  The limit that the last close of a written file leaves, as a distance from the time of the
  close: the older limit stays if it is earlier (a file that is closed, opened and written
  again within the window gets no new one).
\<close>

lemma release_expire:
  assumes "ri_ref s = 1" "0 < ri_written s" "le_getattr env = Inr (Some ct)"
    and "le_timeout env = of_nat t" "le_hz env = of_nat hz" "0 < t" "t < 2 ^ 32" "t * hz < 2 ^ 62"
    and "ri_expire s \<noteq> 0 \<longrightarrow> ri_expire s = le_jiffies env + of_int k \<and> \<bar>k\<bar> < 2 ^ 62"
    and "m = (if ri_expire s = 0 then int (t * hz) else min k (int (t * hz)))"
  shows "hmdfs_file_release_remote env s = s\<lparr>ri_ref := 0, closed := add_mset (ri_fid s) (closed s), ri_ctime := ct,
    ri_expire := le_jiffies env + of_int m\<rparr>"
proof -
  have t: "(of_nat t :: u64) \<noteq> 0"
  proof -
    have "unat (of_nat t :: u64) = t" unfolding unat_of_nat using assms(7) by simp
    then show ?thesis using assms(6) by (metis less_irrefl unat_0)
  qed
  have "time_after (le_jiffies env + of_int (int (t * hz))) (le_jiffies env + of_int k) \<longleftrightarrow> k < int (t * hz)" if "ri_expire s \<noteq> 0"
    using that assms(8,9) of_nat_less_iff [of "t * hz" "2 ^ 62", where 'a = int] by (intro time_after_offset) (simp_all del: of_nat_mult)
  then show ?thesis using assms(1-5,9,10) t
    by (cases "ri_expire s = 0") (auto simp: hmdfs_file_release_remote_def hmdfs_do_close_remote_def send_close_def
        hmdfs_remote_keep_writecache_def hmdfs_set_writecache_expire_def Let_def min_def)
qed

text \<open>
  C35 (bounds). The pages of a file that was written, from its last close to the next
  open \<open>d\<close> ticks later, when the peer reports the size and the change time the client has seen:
  they are used again up to \<open>m\<close> ticks after the close, and dropped after that, where \<open>m\<close> is
  the write cache timeout, or the distance to the limit of an earlier close if that
  comes first; also when the 64-bit clock wraps around in between. The one exception is
  named: a limit that falls on tick 0 counts as unset, and the stable change time decides.
\<close>
theorem write_cache_window:
  assumes "ri_ref s = 1" "0 < ri_written s" "le_getattr env = Inr (Some ct)"
    and "le_timeout env = of_nat t" "le_hz env = of_nat hz" "0 < t" "t < 2 ^ 32" "t * hz < 2 ^ 62" "d < 2 ^ 62"
    and "ri_expire s \<noteq> 0 \<longrightarrow> ri_expire s = le_jiffies env + of_int k \<and> \<bar>k\<bar> < 2 ^ 62"
    and "oe_buf oenv" "oe_send oenv = Inr r" "or_ino r = ri_ino s" "oe_jiffies oenv = le_jiffies env + of_nat d"
    and "m = (if ri_expire s = 0 then int (t * hz) else min k (int (t * hz)))"
  shows "\<exists>s'. hmdfs_file_open_remote oenv (hmdfs_file_release_remote env s) = (0, s') \<and>
    ri_pages s' = (if ri_size s = or_file_size r \<and> ct = or_remote_ctime r \<and>
        (if le_jiffies env + of_int m \<noteq> 0 then int d \<le> m
         else ri_stable s \<noteq> (0, 0) \<and> ri_stable s = or_stable_ctime r)
      then ri_pages s else Map.empty)"
proof -
  note rel = release_expire [OF assms(1-8,10,15)]
  have m: "\<bar>m\<bar> < 2 ^ 62" using assms(8,10,15) of_nat_less_iff [of "t * hz" "2 ^ 62", where 'a = int] by (auto simp: min_def simp del: of_nat_mult)
  have "time_after (le_jiffies env + of_nat d) (le_jiffies env + of_int m) \<longleftrightarrow> m < int d"
    using time_after_offset [OF _ m, of "int d" "le_jiffies env"] assms(9) by simp
  then have v: "pages_valid (oe_jiffies oenv) r (hmdfs_file_release_remote env s) \<longleftrightarrow> ri_size s = or_file_size r \<and> ct = or_remote_ctime r \<and>
      (if le_jiffies env + of_int m \<noteq> 0 then int d \<le> m else ri_stable s \<noteq> (0, 0) \<and> ri_stable s = or_stable_ctime r)"
    using rel assms(14) by (simp add: pages_valid_def not_less)
  have "\<exists>s'. hmdfs_file_open_remote oenv (hmdfs_file_release_remote env s) = (0, s') \<and>
      ri_pages s' = (if pages_valid (oe_jiffies oenv) r (hmdfs_file_release_remote env s) then ri_pages (hmdfs_file_release_remote env s) else Map.empty)"
    using open_pages [of "hmdfs_file_release_remote env s" oenv r] rel assms(11-13) by auto
  moreover have "ri_pages (hmdfs_file_release_remote env s) = ri_pages s" using rel by simp
  ultimately show ?thesis by (simp only: v)
qed

definition sample_fid :: hmdfs_fid where "sample_fid = \<lparr>fid_ver = 9, fid_id = 4\<rparr>"

definition sample_open_ret :: hmdfs_open_ret where
  "sample_open_ret = \<lparr>or_fid = sample_fid, or_file_size = 3, or_ino = 7, or_remote_ctime = (5, 0), or_stable_ctime = (5, 0)\<rparr>"

definition sample_closed :: remote_inode where
  "sample_closed = \<lparr>ri_ino = 7, ri_size = 3, ri_pages = [0 \<mapsto> [1, 2, 3]], ri_ctime = (5, 0), ri_stable = (5, 0), ri_expire = 0,
     ri_written = 0, ri_fid = \<lparr>fid_ver = 0, fid_id = HMDFS_INODE_INVALID_FILE_ID\<rparr>, ri_need_open = False, ri_opening = False, ri_ref = 0, got = {#}, closed = {#}\<rparr>"

definition sample_open_env :: remote_open_env where
  "sample_open_env = \<lparr>oe_buf = True, oe_send = Inr sample_open_ret, oe_jiffies = 100\<rparr>"

definition sample_remote_opened :: remote_inode where
  "sample_remote_opened = snd (hmdfs_file_open_remote sample_open_env sample_closed)"

definition sample_reopen_env :: reopen_env where
  "sample_reopen_env = \<lparr>re_offline = False, re_signal = False, re_open = \<lparr>oe_buf = True, oe_send = Inl (- EIO), oe_jiffies = 100\<rparr>\<rparr>"

definition sample_release_env :: release_env where
  "sample_release_env = \<lparr>le_timeout = of_nat 3, le_jiffies = 18446744073709551000, le_hz = of_nat 250, le_getattr = Inr (Some (8, 0))\<rparr>"

lemma sample_opened_run: "remote_run {#} [] sample_remote_opened"
proof (rule rr_open [where env = sample_open_env])
  show "remote_run {#} [] sample_closed" by (rule rr_start) (simp_all add: sample_closed_def)
  show "valid_answer sample_open_env"
    by (simp add: valid_answer_def sample_open_env_def sample_open_ret_def sample_fid_def HMDFS_INODE_INVALID_FILE_ID_def)
  show "hmdfs_file_open_remote sample_open_env sample_closed = (fst (hmdfs_file_open_remote sample_open_env sample_closed), sample_remote_opened)"
    by (simp add: sample_remote_opened_def)
qed

lemmas sample_open_defs = sample_remote_opened_def sample_closed_def sample_open_env_def sample_open_ret_def
  hmdfs_file_open_remote_def hmdfs_do_open_remote_def hmdfs_open_final_remote_def expire_decision_def

lemma sample_opened_state: "ri_ref sample_remote_opened = 1 \<and> ri_fid sample_remote_opened = sample_fid \<and> closed sample_remote_opened = {#}
    \<and> got sample_remote_opened = {#sample_fid#} \<and> \<not> ri_opening sample_remote_opened"
  by (simp add: sample_open_defs Let_def)

text \<open>The file is open, goes stale, and a reopen fails: one number is left that was closed already.\<close>

definition sample_reopened :: remote_inode where
  "sample_reopened = snd (reopen_work (re_open sample_reopen_env) sample_fid ((mark_stale sample_remote_opened)\<lparr>ri_opening := True\<rparr>))"

lemma sample_reopen_run: "remote_run {#sample_fid#} [Ending (- EIO)] sample_reopened"
proof -
  have "remote_run {#} [] (mark_stale sample_remote_opened)" by (rule rr_stale [OF sample_opened_run])
  then have b: "remote_run {#} [Closing sample_fid] ((mark_stale sample_remote_opened)\<lparr>ri_opening := True\<rparr>)"
    by (rule rr_begin [where offline = False and signal = False])
       (use sample_opened_state in \<open>simp_all add: mark_stale_def reopen_begin_def hmdfs_remote_wait_opening_file_def\<close>)
  have "remote_run ({#} + left_closed (- EIO) sample_fid) ([] @ Ending (- EIO) # []) sample_reopened"
    by (rule rr_work [where ts = "[]" and us = "[]" and env = "re_open sample_reopen_env"], unfold append_Nil, rule b)
       (simp_all add: sample_reopened_def valid_answer_def sample_reopen_env_def reopen_work_def hmdfs_do_open_remote_def)
  then show ?thesis by (simp add: left_closed_def)
qed


theorem failed_reopen_closes_twice_witness:
  "\<exists>err s1. hmdfs_remote_check_and_reopen sample_reopen_env (mark_stale sample_remote_opened) = Some (err, s1) \<and> err \<noteq> 0 \<and>
     closed (hmdfs_file_release_remote sample_release_env s1) = got (hmdfs_file_release_remote sample_release_env s1) + {#sample_fid#}"
  using failed_reopen_closes_twice [of "mark_stale sample_remote_opened" sample_reopen_env "- 5" sample_release_env] sample_opened_state
  by (simp add: mark_stale_def sample_reopen_env_def sample_fid_def HMDFS_INODE_INVALID_FILE_ID_def)

theorem open_keeps_valid_pages_witness:
  "\<exists>s'. hmdfs_file_open_remote sample_open_env sample_closed = (0, s') \<and> ri_pages s' = [0 \<mapsto> [1, 2, 3]]"
  using open_keeps_valid_pages [of sample_closed sample_open_env sample_open_ret]
  by (auto simp: sample_closed_def sample_open_env_def sample_open_ret_def)

text \<open>A limit of 750 ticks that ends after the clock has wrapped around, and an older one 100 ticks after the close.\<close>

theorem write_cache_window_witness:
  "\<exists>s'. hmdfs_file_open_remote (sample_open_env\<lparr>oe_jiffies := le_jiffies sample_release_env + of_nat 700\<rparr>)
      (hmdfs_file_release_remote (sample_release_env\<lparr>le_getattr := Inr (Some (5, 0))\<rparr>) (sample_remote_opened\<lparr>ri_written := 2, ri_expire := 0\<rparr>)) = (0, s')
    \<and> ri_pages s' = ri_pages sample_remote_opened"
proof -
  have "ri_size sample_remote_opened = 3" "ri_ino sample_remote_opened = 7" by (simp_all add: sample_open_defs Let_def)
  then show ?thesis
    using write_cache_window [of "sample_remote_opened\<lparr>ri_written := 2, ri_expire := 0\<rparr>" "sample_release_env\<lparr>le_getattr := Inr (Some (5, 0))\<rparr>" "(5, 0)"
        3 250 700 0 "sample_open_env\<lparr>oe_jiffies := le_jiffies sample_release_env + of_nat 700\<rparr>" sample_open_ret "3 * 250"] sample_opened_state
    by (simp add: sample_release_env_def sample_open_env_def sample_open_ret_def)
qed

end
