(* ===== verification/Dirty_Limits.thy ===== *)
theory Dirty_Limits
  imports Hmdfs_Prelude
begin

text \<open>
  The limits of dirty pages on the client (\<open>src/hmdfs/client_writeback.c\<close>) and the
  sysfs attributes that set them (\<open>src/hmdfs/comm/device_node.c\<close>): thresholds in
  pages from the configured bytes, their adjustment to the bandwidth of the
  network, the loop that holds back a writer, and the list of inodes to write.

  An \<open>unsigned long\<close> is a natural number below \<open>2 ^ 64\<close>; \<open>ulong\<close> is the wrap-around
  of its operations. \<open>None\<close> is a division by zero. The clock, the bandwidth, the
  numbers of pages and signals are what one round of the loop observes.
\<close>

section \<open>Arithmetic\<close>

definition ulong :: "nat \<Rightarrow> nat" where "ulong n = n mod 2 ^ 64"

lemma ulong_id [simp]: "n < 2 ^ 64 \<Longrightarrow> ulong n = n" by (simp add: ulong_def)

definition DIV_ROUND_UP :: "nat \<Rightarrow> nat \<Rightarrow> nat" where
  "DIV_ROUND_UP n d = ulong (n + (d - 1)) div d"

fun ilog2 :: "nat \<Rightarrow> nat" where
  "ilog2 n = (if n \<le> 1 then 0 else Suc (ilog2 (n div 2)))"

declare ilog2.simps [simp del]

definition roundup_pow_of_two :: "nat \<Rightarrow> nat" where
  "roundup_pow_of_two n = (if n \<le> 1 then 1 else 2 ^ Suc (ilog2 (n - 1)))"

abbreviation (input) HMDFS_LIMIT_SHIFT :: nat where "HMDFS_LIMIT_SHIFT \<equiv> 10"

definition hmdfs_ratio_thresh :: "nat \<Rightarrow> nat \<Rightarrow> nat" where
  "hmdfs_ratio_thresh ratio thresh =
     (let ret = ulong (ratio * thresh) div 2 ^ HMDFS_LIMIT_SHIFT in if ret = 0 then 1 else ret)"

definition hmdfs_thresh_ratio :: "nat \<Rightarrow> nat \<Rightarrow> nat option" where
  "hmdfs_thresh_ratio base thresh =
     (if thresh = 0 then None
      else let ratio = ulong (base * 2 ^ HMDFS_LIMIT_SHIFT) div thresh in Some (if ratio = 0 then 1 else ratio))"

section \<open>State\<close>

text \<open>
  \<open>wb_holds\<close> counts the references the list of inodes holds; \<open>sb_work\<close> is the delay of
  the pending work of the file system, \<open>inode_work\<close> whether the one of the list is
  pending or runs; \<open>wb_written\<close> are the inodes that \<open>write_inode_now\<close> was called for.
\<close>

record hmdfs_writeback =
  dirty_writeback_control :: bool
  dirty_writeback_interval :: nat
  dirty_file_bg_bytes :: nat
  dirty_fs_bg_bytes :: nat
  dirty_file_bytes :: nat
  dirty_fs_bytes :: nat
  dirty_file_bg_thresh :: nat
  dirty_fs_bg_thresh :: nat
  dirty_file_thresh :: nat
  dirty_fs_thresh :: nat
  fs_bg_ratio :: nat
  file_bg_ratio :: nat
  fs_file_ratio :: nat
  dirty_auto_threshold :: bool
  writeback_timelimit :: nat
  bw_fs_thresh :: nat
  bw_file_thresh :: nat
  bw_thresh_lowerlimit :: nat
  dirty_exceeded :: bool
  ratelimit_pages :: nat
  max_write_bandwidth :: nat
  min_write_bandwidth :: nat
  avg_write_bandwidth :: nat
  inode_list :: "nat list"
  wb_holds :: "nat \<Rightarrow> nat"
  sb_work :: "nat option"
  inode_work :: bool
  wb_written :: "nat list"

record hmdfs_dirty_throttle_control =
  thresh_time_stamp :: u64
  hd_file_bg_thresh :: nat
  hd_fs_bg_thresh :: nat
  hd_file_thresh :: nat
  hd_fs_thresh :: nat
  file_nr_dirty :: nat
  fs_nr_dirty :: nat
  file_nr_reclaimable :: nat
  fs_nr_reclaimable :: nat

section \<open>Thresholds\<close>

definition hmdfs_calculate_dirty_thresh :: "hmdfs_writeback \<Rightarrow> hmdfs_writeback option" where
  "hmdfs_calculate_dirty_thresh h = do {
     let h1 = h\<lparr>dirty_fs_thresh := DIV_ROUND_UP (dirty_fs_bytes h) PAGE_SIZE,
                dirty_file_thresh := DIV_ROUND_UP (dirty_file_bytes h) PAGE_SIZE,
                dirty_fs_bg_thresh := DIV_ROUND_UP (dirty_fs_bg_bytes h) PAGE_SIZE,
                dirty_file_bg_thresh := DIV_ROUND_UP (dirty_file_bg_bytes h) PAGE_SIZE\<rparr>;
     r1 \<leftarrow> hmdfs_thresh_ratio (dirty_fs_bg_thresh h1) (dirty_fs_thresh h1);
     r2 \<leftarrow> hmdfs_thresh_ratio (dirty_file_bg_thresh h1) (dirty_file_thresh h1);
     r3 \<leftarrow> hmdfs_thresh_ratio (dirty_file_thresh h1) (dirty_fs_thresh h1);
     Some (h1\<lparr>fs_bg_ratio := r1, file_bg_ratio := r2, fs_file_ratio := r3\<rparr>) }"

definition HMDFS_MAX_PAUSE :: "nat \<Rightarrow> nat" where "HMDFS_MAX_PAUSE hz = max (hz div 5) 1"
definition HMDFS_BANDWIDTH_INTERVAL :: "nat \<Rightarrow> nat" where "HMDFS_BANDWIDTH_INTERVAL hz = max (hz div 5) 1"

text \<open>The fields of the control start with 0.\<close>

definition hmdfs_init_dirty_limit :: "nat \<Rightarrow> u64 \<Rightarrow> hmdfs_writeback \<Rightarrow> hmdfs_dirty_throttle_control" where
  "hmdfs_init_dirty_limit hz jiffies h =
     (let d = \<lparr>thresh_time_stamp = 0, hd_file_bg_thresh = dirty_file_bg_thresh h, hd_fs_bg_thresh = dirty_fs_bg_thresh h,
               hd_file_thresh = dirty_file_thresh h, hd_fs_thresh = dirty_fs_thresh h,
               file_nr_dirty = 0, fs_nr_dirty = 0, file_nr_reclaimable = 0, fs_nr_reclaimable = 0\<rparr>
      in if \<not> dirty_auto_threshold h then d
         else let d1 = (if bw_fs_thresh h < hd_fs_thresh d
                        then d\<lparr>hd_fs_thresh := bw_fs_thresh h, hd_fs_bg_thresh := hmdfs_ratio_thresh (fs_bg_ratio h) (bw_fs_thresh h)\<rparr>
                        else d);
                  d2 = (if bw_file_thresh h < hd_file_thresh d1
                        then d1\<lparr>hd_file_thresh := bw_file_thresh h, hd_file_bg_thresh := hmdfs_ratio_thresh (file_bg_ratio h) (bw_file_thresh h)\<rparr>
                        else d1)
              in d2\<lparr>thresh_time_stamp := jiffies - of_nat (HMDFS_BANDWIDTH_INTERVAL hz) - 1\<rparr>)"

definition hmdfs_update_dirty_limit ::
  "nat \<Rightarrow> u64 \<Rightarrow> nat \<Rightarrow> hmdfs_writeback \<times> hmdfs_dirty_throttle_control \<Rightarrow> hmdfs_writeback \<times> hmdfs_dirty_throttle_control" where
  "hmdfs_update_dirty_limit hz jiffies bw = (\<lambda>(h, d).
     if \<not> dirty_auto_threshold h then (h, d)
     else
       let h1 = h\<lparr>max_write_bandwidth := (if bw > max_write_bandwidth h then bw else max_write_bandwidth h),
                  min_write_bandwidth := (if bw < min_write_bandwidth h then bw else min_write_bandwidth h),
                  avg_write_bandwidth := bw\<rparr>;
           bw1 = max bw (bw_thresh_lowerlimit h);
           thresh = ulong (bw1 * writeback_timelimit h) div roundup_pow_of_two hz;
           d1 = (if thresh \<ge> dirty_fs_thresh h
                 then d\<lparr>hd_fs_thresh := dirty_fs_thresh h, hd_file_thresh := dirty_file_thresh h,
                        hd_fs_bg_thresh := dirty_fs_bg_thresh h, hd_file_bg_thresh := dirty_file_bg_thresh h\<rparr>
                 else let ft = hmdfs_ratio_thresh (fs_file_ratio h) thresh
                      in d\<lparr>hd_fs_thresh := thresh, hd_fs_bg_thresh := hmdfs_ratio_thresh (fs_bg_ratio h) thresh,
                           hd_file_thresh := ft, hd_file_bg_thresh := hmdfs_ratio_thresh (file_bg_ratio h) ft\<rparr>)
       in (h1\<lparr>bw_fs_thresh := hd_fs_thresh d1, bw_file_thresh := hd_file_thresh d1\<rparr>, d1\<lparr>thresh_time_stamp := jiffies\<rparr>))"

definition HMDFS_RATELIMIT_PAGES_GAP :: nat where "HMDFS_RATELIMIT_PAGES_GAP = 16"
definition HMDFS_MIN_RATELIMIT_PAGES :: nat where "HMDFS_MIN_RATELIMIT_PAGES = 1"

definition hmdfs_update_ratelimit :: "nat \<Rightarrow> u64 \<Rightarrow> nat \<Rightarrow> hmdfs_writeback \<Rightarrow> hmdfs_writeback" where
  "hmdfs_update_ratelimit hz jiffies cpus h =
     (let d = hmdfs_init_dirty_limit hz jiffies h;
          r = hd_file_bg_thresh d div (cpus * HMDFS_RATELIMIT_PAGES_GAP)
      in h\<lparr>ratelimit_pages := (if r < HMDFS_MIN_RATELIMIT_PAGES then HMDFS_MIN_RATELIMIT_PAGES else r)\<rparr>)"

section \<open>Attributes\<close>

text \<open>
  \<open>Inl\<close> is the error of \<open>kstrtoul\<close> on the text that was written. The length of the
  text is the result of an accepted one.
\<close>

record store_env =
  st_hz :: nat
  st_jiffies :: u64
  st_cpus :: nat
  st_len :: nat

definition apply_bytes :: "store_env \<Rightarrow> hmdfs_writeback \<Rightarrow> (int \<times> hmdfs_writeback) option" where
  "apply_bytes env h = do {
     h1 \<leftarrow> hmdfs_calculate_dirty_thresh h;
     Some (int (st_len env), hmdfs_update_ratelimit (st_hz env) (st_jiffies env) (st_cpus env) h1) }"

definition sbi_dirty_file_background_bytes_store :: "store_env \<Rightarrow> int + nat \<Rightarrow> hmdfs_writeback \<Rightarrow> (int \<times> hmdfs_writeback) option" where
  "sbi_dirty_file_background_bytes_store env val h =
     (case val of
        Inl err \<Rightarrow> Some (err, h)
      | Inr v \<Rightarrow> if v = 0 then Some (- EINVAL, h)
                else apply_bytes env (h\<lparr>dirty_fs_bytes := max (dirty_fs_bytes h) v, dirty_fs_bg_bytes := max (dirty_fs_bg_bytes h) v,
                                       dirty_file_bytes := max (dirty_file_bytes h) v, dirty_file_bg_bytes := v\<rparr>))"

definition sbi_dirty_fs_background_bytes_store :: "store_env \<Rightarrow> int + nat \<Rightarrow> hmdfs_writeback \<Rightarrow> (int \<times> hmdfs_writeback) option" where
  "sbi_dirty_fs_background_bytes_store env val h =
     (case val of
        Inl err \<Rightarrow> Some (err, h)
      | Inr v \<Rightarrow> if v = 0 then Some (- EINVAL, h)
                else apply_bytes env (h\<lparr>dirty_file_bg_bytes := min (dirty_file_bg_bytes h) v, dirty_fs_bytes := max (dirty_fs_bytes h) v,
                                       dirty_fs_bg_bytes := v\<rparr>))"

definition sbi_dirty_file_bytes_store :: "store_env \<Rightarrow> int + nat \<Rightarrow> hmdfs_writeback \<Rightarrow> (int \<times> hmdfs_writeback) option" where
  "sbi_dirty_file_bytes_store env val h =
     (case val of
        Inl err \<Rightarrow> Some (err, h)
      | Inr v \<Rightarrow> if v = 0 then Some (- EINVAL, h)
                else apply_bytes env (h\<lparr>dirty_file_bg_bytes := min (dirty_file_bg_bytes h) v, dirty_fs_bytes := max (dirty_fs_bytes h) v,
                                       dirty_file_bytes := v\<rparr>))"

definition sbi_dirty_fs_bytes_store :: "store_env \<Rightarrow> int + nat \<Rightarrow> hmdfs_writeback \<Rightarrow> (int \<times> hmdfs_writeback) option" where
  "sbi_dirty_fs_bytes_store env val h =
     (case val of
        Inl err \<Rightarrow> Some (err, h)
      | Inr v \<Rightarrow> if v = 0 then Some (- EINVAL, h)
                else apply_bytes env (h\<lparr>dirty_file_bg_bytes := min (dirty_file_bg_bytes h) v, dirty_file_bytes := min (dirty_file_bytes h) v,
                                       dirty_fs_bg_bytes := min (dirty_fs_bg_bytes h) v, dirty_fs_bytes := v\<rparr>))"

text \<open>\<open>HMDFS_MAX_WB_TIMELIMIT\<close> is 30 seconds in jiffies.\<close>

definition sbi_dirty_writeback_timelimit_store :: "store_env \<Rightarrow> int + nat \<Rightarrow> hmdfs_writeback \<Rightarrow> int \<times> hmdfs_writeback" where
  "sbi_dirty_writeback_timelimit_store env val h =
     (case val of
        Inl err \<Rightarrow> (err, h)
      | Inr v \<Rightarrow> if v = 0 \<or> v > 30 * st_hz env div st_hz env then (- EINVAL, h)
                else (int (st_len env), h\<lparr>writeback_timelimit := v * st_hz env\<rparr>))"

definition HMDFS_BW_THRESH_MIN_LIMIT :: nat where "HMDFS_BW_THRESH_MIN_LIMIT = 256"
definition HMDFS_BW_THRESH_MAX_LIMIT :: nat where "HMDFS_BW_THRESH_MAX_LIMIT = 25600"

definition sbi_dirty_thresh_lowerlimit_store :: "store_env \<Rightarrow> int + nat \<Rightarrow> hmdfs_writeback \<Rightarrow> int \<times> hmdfs_writeback" where
  "sbi_dirty_thresh_lowerlimit_store env val h =
     (case val of
        Inl err \<Rightarrow> (err, h)
      | Inr v \<Rightarrow>
          let limit = DIV_ROUND_UP v PAGE_SIZE in
          if limit < HMDFS_BW_THRESH_MIN_LIMIT \<or> limit > HMDFS_BW_THRESH_MAX_LIMIT then (- EINVAL, h)
          else (int (st_len env), h\<lparr>bw_thresh_lowerlimit := limit\<rparr>))"

definition sbi_dirty_writeback_autothresh_store :: "store_env \<Rightarrow> int + bool \<Rightarrow> hmdfs_writeback \<Rightarrow> int \<times> hmdfs_writeback" where
  "sbi_dirty_writeback_autothresh_store env val h =
     (case val of Inl err \<Rightarrow> (err, h) | Inr b \<Rightarrow> (int (st_len env), h\<lparr>dirty_auto_threshold := b\<rparr>))"

definition sbi_dirty_writeback_control_store :: "store_env \<Rightarrow> int + nat \<Rightarrow> hmdfs_writeback \<Rightarrow> int \<times> hmdfs_writeback" where
  "sbi_dirty_writeback_control_store env val h =
     (case val of Inl err \<Rightarrow> (err, h) | Inr v \<Rightarrow> (int (st_len env), h\<lparr>dirty_writeback_control := (v \<noteq> 0)\<rparr>))"

definition sbi_dirty_writeback_centisecs_store :: "store_env \<Rightarrow> int + nat \<Rightarrow> hmdfs_writeback \<Rightarrow> int \<times> hmdfs_writeback" where
  "sbi_dirty_writeback_centisecs_store env val h =
     (case val of Inl err \<Rightarrow> (err, h) | Inr v \<Rightarrow> (int (st_len env), h\<lparr>dirty_writeback_interval := v\<rparr>))"

text \<open>The values \<open>hmdfs_init_writeback\<close> sets; its workqueues are left out.\<close>

definition hmdfs_init_writeback :: "nat \<Rightarrow> hmdfs_writeback option" where
  "hmdfs_init_writeback hz = do {
     h \<leftarrow> hmdfs_calculate_dirty_thresh
       \<lparr>dirty_writeback_control = True, dirty_writeback_interval = 500,
        dirty_file_bg_bytes = 10 * 1024 * 1024, dirty_fs_bg_bytes = 50 * 1024 * 1024,
        dirty_file_bytes = 20 * 1024 * 1024, dirty_fs_bytes = 100 * 1024 * 1024,
        dirty_file_bg_thresh = 0, dirty_fs_bg_thresh = 0, dirty_file_thresh = 0, dirty_fs_thresh = 0,
        fs_bg_ratio = 0, file_bg_ratio = 0, fs_file_ratio = 0,
        dirty_auto_threshold = True, writeback_timelimit = 5 * hz, bw_fs_thresh = 0, bw_file_thresh = 0,
        bw_thresh_lowerlimit = HMDFS_BW_THRESH_MIN_LIMIT, dirty_exceeded = False, ratelimit_pages = 32,
        max_write_bandwidth = 0, min_write_bandwidth = 2 ^ 64 - 1, avg_write_bandwidth = 0,
        inode_list = [], wb_holds = (\<lambda>_. 0), sb_work = None, inode_work = False, wb_written = []\<rparr>;
     Some (h\<lparr>bw_file_thresh := dirty_file_thresh h, bw_fs_thresh := dirty_fs_thresh h\<rparr>) }"

section \<open>Works\<close>

definition hmdfs_writeback_inodes_sb_delayed :: "(nat \<Rightarrow> nat) \<Rightarrow> bool \<Rightarrow> nat \<Rightarrow> hmdfs_writeback \<Rightarrow> hmdfs_writeback" where
  "hmdfs_writeback_inodes_sb_delayed msecs_to_jiffies busy delay h =
     (if msecs_to_jiffies delay = 0 \<or> \<not> busy then h\<lparr>sb_work := Some (msecs_to_jiffies delay)\<rparr> else h)"

definition hmdfs_writeback_inodes_sb :: "(nat \<Rightarrow> nat) \<Rightarrow> bool \<Rightarrow> hmdfs_writeback \<Rightarrow> hmdfs_writeback" where
  "hmdfs_writeback_inodes_sb msecs_to_jiffies busy = hmdfs_writeback_inodes_sb_delayed msecs_to_jiffies busy 0"

definition hmdfs_writeback_inode :: "nat \<Rightarrow> hmdfs_writeback \<Rightarrow> hmdfs_writeback" where
  "hmdfs_writeback_inode i h =
     (if i \<notin> set (inode_list h)
      then h\<lparr>wb_holds := (wb_holds h)(i := wb_holds h i + 1), inode_list := inode_list h @ [i], inode_work := True\<rparr>
      else h)"

text \<open>
  One round of \<open>hmdfs_writeback_inode_handler\<close>; it ends with the empty list. The lock
  is released for the write, so that others add to the list between two rounds.
\<close>

definition writeback_inode_round :: "hmdfs_writeback \<Rightarrow> hmdfs_writeback" where
  "writeback_inode_round h =
     (case inode_list h of
        [] \<Rightarrow> h\<lparr>inode_work := False\<rparr>
      | i # is \<Rightarrow> h\<lparr>inode_list := is, wb_written := wb_written h @ [i], wb_holds := (wb_holds h)(i := wb_holds h i - 1)\<rparr>)"

section \<open>Holding back a writer\<close>

definition hmdfs_wb_pause :: "nat \<Rightarrow> nat \<Rightarrow> nat \<Rightarrow> nat" where
  "hmdfs_wb_pause hz bw wb_dirty =
     min (ulong (wb_dirty div ulong (1 + bw div roundup_pow_of_two (1 + hz div 8)) + 1)) (HMDFS_MAX_PAUSE hz)"

datatype dirty_type = HMDFS_DIRTY_FS | HMDFS_DIRTY_FILE

definition hmdfs_dirty_freerun_ceiling :: "hmdfs_dirty_throttle_control \<Rightarrow> dirty_type \<Rightarrow> nat" where
  "hmdfs_dirty_freerun_ceiling d ty =
     (case ty of
        HMDFS_DIRTY_FS \<Rightarrow> ulong (hd_fs_thresh d + hd_fs_bg_thresh d) div 2
      | HMDFS_DIRTY_FILE \<Rightarrow> ulong (hd_file_thresh d + hd_file_bg_thresh d) div 2)"

definition hmdfs_dirty_intv :: "nat \<Rightarrow> nat \<Rightarrow> nat" where
  "hmdfs_dirty_intv dirty thresh = (if thresh > dirty then 2 ^ (ilog2 (thresh - dirty) div 2) else 1)"

text \<open>What one round observes: pages of the file system and of the file, dirty and under writeback.\<close>

record balance_obs =
  ob_reclaimable :: nat
  ob_writeback :: nat
  ob_idirty :: nat
  ob_iwriteback :: nat
  ob_in_progress :: bool
  ob_jiffies :: u64
  ob_bw :: nat
  ob_fatal :: bool

record balance_state =
  b_wb :: hmdfs_writeback
  b_ctl :: hmdfs_dirty_throttle_control
  b_exceeded :: bool
  nr_dirtied :: nat
  nr_dirtied_pause :: nat
  b_pauses :: "nat list"

record balance_env =
  be_hz :: nat
  be_m2j :: "nat \<Rightarrow> nat"
  be_busy :: bool
  be_inode :: nat

text \<open>The part of a round up to the decision about a pause; \<open>Some\<close> leaves the loop.\<close>

definition balance_free_run :: "nat \<Rightarrow> balance_state \<Rightarrow> balance_state" where
  "balance_free_run diff s = s\<lparr>nr_dirtied_pause := diff, nr_dirtied := 0\<rparr>"

definition balance_start_wb :: "balance_env \<Rightarrow> balance_obs \<Rightarrow> balance_state \<Rightarrow> balance_state" where
  "balance_start_wb env ob s =
     (if fs_nr_reclaimable (b_ctl s) \<ge> hmdfs_dirty_freerun_ceiling (b_ctl s) HMDFS_DIRTY_FS
      then (if \<not> ob_in_progress ob then s\<lparr>b_wb := hmdfs_writeback_inodes_sb (be_m2j env) (be_busy env) (b_wb s)\<rparr> else s)
      else s\<lparr>b_wb := hmdfs_writeback_inode (be_inode env) (b_wb s)\<rparr>)"

definition balance_adjust :: "balance_env \<Rightarrow> balance_obs \<Rightarrow> balance_state \<Rightarrow> balance_state" where
  "balance_adjust env ob s =
     (if dirty_auto_threshold (b_wb s) \<and>
         time_after (ob_jiffies ob) (thresh_time_stamp (b_ctl s) + of_nat (HMDFS_BANDWIDTH_INTERVAL (be_hz env)))
      then case hmdfs_update_dirty_limit (be_hz env) (ob_jiffies ob) (ob_bw ob) (b_wb s, b_ctl s) of
             (h, d) \<Rightarrow> s\<lparr>b_wb := h, b_ctl := d\<rparr>
      else s)"

definition balance_pause :: "balance_env \<Rightarrow> balance_obs \<Rightarrow> balance_state \<Rightarrow> bool \<times> balance_state" where
  "balance_pause env ob s =
     (let exceed = fs_nr_reclaimable (b_ctl s) \<ge> hd_fs_thresh (b_ctl s) \<or> file_nr_reclaimable (b_ctl s) \<ge> hd_file_thresh (b_ctl s) in
      if \<not> exceed then (True, s\<lparr>nr_dirtied := 0\<rparr>)
      else (ob_fatal ob,
            s\<lparr>b_exceeded := True, b_wb := (b_wb s)\<lparr>dirty_exceeded := True\<rparr>,
              b_pauses := b_pauses s @ [hmdfs_wb_pause (be_hz env) (ob_bw ob) (fs_nr_reclaimable (b_ctl s))]\<rparr>))"

definition balance_round :: "balance_env \<Rightarrow> balance_obs \<Rightarrow> balance_state \<Rightarrow> bool \<times> balance_state" where
  "balance_round env ob s =
     (let d = (b_ctl s)\<lparr>fs_nr_dirty := ob_reclaimable ob, fs_nr_reclaimable := ulong (ob_reclaimable ob + ob_writeback ob)\<rparr>;
          s1 = s\<lparr>b_ctl := d\<rparr> in
      if fs_nr_reclaimable d < hd_file_bg_thresh d
      then (True, balance_free_run (hmdfs_dirty_intv (fs_nr_reclaimable d) (hd_file_thresh d)) s1)
      else
        let d2 = d\<lparr>file_nr_dirty := ob_idirty ob, file_nr_reclaimable := ulong (ob_iwriteback ob + ob_idirty ob)\<rparr>;
            s2 = s1\<lparr>b_ctl := d2\<rparr> in
        if fs_nr_reclaimable d2 < hmdfs_dirty_freerun_ceiling d2 HMDFS_DIRTY_FS \<and>
           file_nr_reclaimable d2 < hmdfs_dirty_freerun_ceiling d2 HMDFS_DIRTY_FILE
        then (True, balance_free_run (min (hmdfs_dirty_intv (fs_nr_reclaimable d2) (hd_fs_thresh d2))
                                          (hmdfs_dirty_intv (file_nr_reclaimable d2) (hd_file_thresh d2))) s2)
        else balance_pause env ob (balance_adjust env ob (balance_start_wb env ob s2)))"

text \<open>The rounds over what they observe; \<open>None\<close> is a writer that is still held back.\<close>

fun balance_loop :: "balance_env \<Rightarrow> balance_obs list \<Rightarrow> balance_state \<Rightarrow> balance_state option" where
  "balance_loop env [] s = None"
| "balance_loop env (ob # obs) s =
     (case balance_round env ob s of (finished, s1) \<Rightarrow> if finished then Some s1 else balance_loop env obs s1)"

definition balance_end :: "balance_env \<Rightarrow> bool \<Rightarrow> balance_state \<Rightarrow> balance_state" where
  "balance_end env in_progress s =
     (let s1 = (if \<not> b_exceeded s \<and> dirty_exceeded (b_wb s) then s\<lparr>b_wb := (b_wb s)\<lparr>dirty_exceeded := False\<rparr>\<rparr> else s) in
      if fs_nr_reclaimable (b_ctl s1) \<ge> hd_fs_bg_thresh (b_ctl s1)
      then (if \<not> in_progress then s1\<lparr>b_wb := hmdfs_writeback_inodes_sb (be_m2j env) (be_busy env) (b_wb s1)\<rparr> else s1)
      else if file_nr_reclaimable (b_ctl s1) \<ge> hd_file_bg_thresh (b_ctl s1)
      then s1\<lparr>b_wb := hmdfs_writeback_inode (be_inode env) (b_wb s1)\<rparr>
      else s1)"

definition timed_writeback :: "balance_env \<Rightarrow> hmdfs_writeback \<Rightarrow> hmdfs_writeback" where
  "timed_writeback env h =
     (if dirty_writeback_interval h \<noteq> 0
      then hmdfs_writeback_inodes_sb_delayed (be_m2j env) (be_busy env) (dirty_writeback_interval h * 10 mod 2 ^ 32) h
      else h)"

definition hmdfs_balance_dirty_pages ::
  "balance_env \<Rightarrow> u64 \<Rightarrow> balance_obs list \<Rightarrow> bool \<Rightarrow> nat \<times> nat \<Rightarrow> hmdfs_writeback \<Rightarrow> balance_state option" where
  "hmdfs_balance_dirty_pages env jiffies obs in_progress task h =
     (let h1 = timed_writeback env h in
      map_option (balance_end env in_progress)
        (balance_loop env obs \<lparr>b_wb = h1, b_ctl = hmdfs_init_dirty_limit (be_hz env) jiffies h1, b_exceeded = False,
                               nr_dirtied = fst task, nr_dirtied_pause = snd task, b_pauses = []\<rparr>))"

text \<open>
  Whether the caller is sent to the loop; \<open>bdp\<close> is the counter of the processor,
  returned with the decision. \<open>HMDFS_DIRTY_EXCEED_RATELIMIT\<close> is 8.
\<close>

definition ratelimit_check :: "hmdfs_writeback \<Rightarrow> nat \<times> nat \<Rightarrow> nat \<Rightarrow> bool \<times> nat" where
  "ratelimit_check h task bdp =
     (let ratelimit = (if dirty_exceeded h then min (snd task) 8 else snd task) in
      if fst task \<ge> ratelimit then (True, 0)
      else if bdp \<ge> ratelimit_pages h then (True, 0)
      else (False, bdp))"

definition hmdfs_balance_dirty_pages_ratelimited ::
  "balance_env \<Rightarrow> u64 \<Rightarrow> balance_obs list \<Rightarrow> bool \<Rightarrow> nat \<times> nat \<Rightarrow> nat \<Rightarrow> hmdfs_writeback \<Rightarrow> ((nat \<times> nat) \<times> nat \<times> hmdfs_writeback) option" where
  "hmdfs_balance_dirty_pages_ratelimited env jiffies obs in_progress task bdp h =
     (if \<not> dirty_writeback_control h then Some (task, bdp, h)
      else let h1 = timed_writeback env h in
        case ratelimit_check h1 task bdp of
          (balance, bdp1) \<Rightarrow>
            if balance
            then map_option (\<lambda>s. ((nr_dirtied s, nr_dirtied_pause s), bdp1, b_wb s))
                   (hmdfs_balance_dirty_pages env jiffies obs in_progress task h1)
            else Some (task, bdp1, h1))"

end
