(* ===== verification/Dirty_Balance.thy ===== *)
theory Dirty_Balance
  imports Dirty_Limits
begin

text \<open>
  What the limits of dirty pages promise: the order of the thresholds over every
  run of attributes and writers, that a writer is held back while the limits are
  exceeded and only then, and the balance of the references of the list of inodes.
\<close>

section \<open>Arithmetic\<close>

lemma ilog2_le: "0 < n \<Longrightarrow> 2 ^ ilog2 n \<le> n"
proof (induction n rule: ilog2.induct)
  case (1 n)
  show ?case
  proof (cases "n \<le> 1")
    case False
    then have "2 ^ ilog2 (n div 2) \<le> n div 2" using 1 by simp
    then show ?thesis using False by (simp add: ilog2.simps [of n])
  qed (use 1 in \<open>simp add: ilog2.simps [of n]\<close>)
qed

lemma roundup_bounds: "0 < n \<Longrightarrow> 0 < roundup_pow_of_two n \<and> roundup_pow_of_two n \<le> 2 * n"
  using ilog2_le [of "n - 1"] by (auto simp: roundup_pow_of_two_def)

lemma thresh_ratio_ok:
  assumes "0 < b" "b \<le> t" "t < 2 ^ 53"
  shows "\<exists>r. hmdfs_thresh_ratio b t = Some r \<and> 0 < r \<and> r \<le> 1024 \<and> r * t \<le> max (1024 * b) t"
proof -
  have u: "ulong (b * 2 ^ 10) = 1024 * b" using assms by simp
  have "1024 * b div t \<le> 1024 * t div t" using assms(2) by (intro div_le_mono) simp
  then have "1024 * b div t \<le> 1024" using assms by simp
  then obtain r where r: "r = 1024 * b div t" "r \<le> 1024" by simp
  have rt: "r * t \<le> 1024 * b" using r(1) by (simp only: div_times_less_eq_dividend)
  have "hmdfs_thresh_ratio b t = Some (if r = 0 then 1 else r)"
    using assms unfolding hmdfs_thresh_ratio_def u Let_def r(1) by simp
  moreover have "(if r = 0 then 1 else r) * t \<le> max (1024 * b) t" using rt by (simp add: le_max_iff_disj)
  moreover have "0 < (if r = 0 then 1 else r)" "(if r = 0 then 1 else r) \<le> 1024" using r(2) by simp_all
  ultimately show ?thesis by blast
qed

lemma ratio_thresh_ok:
  assumes "0 < r" "r \<le> 1024" "0 < t" "t < 2 ^ 53"
  shows "0 < hmdfs_ratio_thresh r t" "hmdfs_ratio_thresh r t \<le> t" "hmdfs_ratio_thresh r t \<le> max 1 (r * t div 1024)"
proof -
  have le: "r * t \<le> 1024 * t" using assms(2) by simp
  have "r * t < 2 ^ 64" by (rule le_less_trans [OF le]) (use assms(4) in simp)
  then have u: "ulong (r * t) = r * t" by (rule ulong_id)
  have "r * t div 1024 \<le> t" using div_le_mono [OF le, of 1024] by simp
  then show "0 < hmdfs_ratio_thresh r t" "hmdfs_ratio_thresh r t \<le> t" "hmdfs_ratio_thresh r t \<le> max 1 (r * t div 1024)"
    using assms(3) u by (auto simp: hmdfs_ratio_thresh_def Let_def)
qed

lemma pages_of_bytes: "n < 2 ^ 64 - 4095 \<Longrightarrow> DIV_ROUND_UP n PAGE_SIZE = (n + 4095) div 4096"
  by (simp add: DIV_ROUND_UP_def)

section \<open>The order of the thresholds\<close>

definition bytes_ok :: "hmdfs_writeback \<Rightarrow> bool" where
  "bytes_ok h \<longleftrightarrow> 0 < dirty_file_bg_bytes h \<and> dirty_file_bg_bytes h \<le> dirty_file_bytes h \<and> dirty_file_bytes h \<le> dirty_fs_bytes h \<and>
     dirty_file_bg_bytes h \<le> dirty_fs_bg_bytes h \<and> dirty_fs_bg_bytes h \<le> dirty_fs_bytes h \<and> dirty_fs_bytes h < 2 ^ 64 - 4095"

definition ratio_of :: "nat \<Rightarrow> nat \<Rightarrow> nat \<Rightarrow> bool" where
  "ratio_of r b t \<longleftrightarrow> 0 < r \<and> r \<le> 1024 \<and> r * t \<le> max (1024 * b) t"

definition thresh_ok :: "hmdfs_writeback \<Rightarrow> bool" where
  "thresh_ok h \<longleftrightarrow> 0 < dirty_file_bg_thresh h \<and> dirty_file_bg_thresh h \<le> dirty_file_thresh h \<and> dirty_file_thresh h \<le> dirty_fs_thresh h \<and>
     dirty_file_bg_thresh h \<le> dirty_fs_bg_thresh h \<and> dirty_fs_bg_thresh h \<le> dirty_fs_thresh h \<and> dirty_fs_thresh h < 2 ^ 53 \<and>
     ratio_of (fs_bg_ratio h) (dirty_fs_bg_thresh h) (dirty_fs_thresh h) \<and>
     ratio_of (file_bg_ratio h) (dirty_file_bg_thresh h) (dirty_file_thresh h) \<and>
     ratio_of (fs_file_ratio h) (dirty_file_thresh h) (dirty_fs_thresh h)"

definition bw_ok :: "nat \<Rightarrow> hmdfs_writeback \<Rightarrow> bool" where
  "bw_ok hz h \<longleftrightarrow> 0 < bw_file_thresh h \<and> bw_file_thresh h \<le> bw_fs_thresh h \<and>
     256 \<le> bw_thresh_lowerlimit h \<and> bw_thresh_lowerlimit h \<le> 25600 \<and> hz \<le> writeback_timelimit h \<and> writeback_timelimit h \<le> 30 * hz"

definition limits_ok :: "nat \<Rightarrow> hmdfs_writeback \<Rightarrow> bool" where
  "limits_ok hz h \<longleftrightarrow> bytes_ok h \<and> thresh_ok h \<and> bw_ok hz h \<and> 0 < ratelimit_pages h"

definition ctl_ok :: "hmdfs_writeback \<Rightarrow> hmdfs_dirty_throttle_control \<Rightarrow> bool" where
  "ctl_ok h d \<longleftrightarrow> 0 < hd_file_bg_thresh d \<and> hd_file_bg_thresh d \<le> hd_file_thresh d \<and> hd_file_thresh d \<le> hd_fs_thresh d \<and>
     0 < hd_fs_bg_thresh d \<and> hd_fs_bg_thresh d \<le> hd_fs_thresh d \<and> hd_fs_thresh d \<le> dirty_fs_thresh h \<and>
     hd_file_thresh d \<le> max (dirty_file_thresh h) (dirty_fs_thresh h div 1024)"

lemma calculate_ok:
  assumes "bytes_ok h"
  shows "\<exists>h'. hmdfs_calculate_dirty_thresh h = Some h' \<and> thresh_ok h' \<and> bytes_ok h' \<and>
    bw_ok hz h' = bw_ok hz h \<and> ratelimit_pages h' = ratelimit_pages h"
proof -
  let ?p = "\<lambda>n. (n + 4095) div 4096 :: nat"
  note b = assms [unfolded bytes_ok_def]
  have mono: "?p m \<le> ?p n" if "m \<le> n" for m n using that by (simp add: div_le_mono)
  have pos: "0 < ?p n" if "0 < n" for n using that by (simp add: div_greater_zero_iff)
  have lt: "?p (dirty_fs_bytes h) < 2 ^ 53" using b by (simp add: div_less_iff_less_mult)
  have eqs: "DIV_ROUND_UP (dirty_fs_bytes h) PAGE_SIZE = ?p (dirty_fs_bytes h)" "DIV_ROUND_UP (dirty_file_bytes h) PAGE_SIZE = ?p (dirty_file_bytes h)"
    "DIV_ROUND_UP (dirty_fs_bg_bytes h) PAGE_SIZE = ?p (dirty_fs_bg_bytes h)" "DIV_ROUND_UP (dirty_file_bg_bytes h) PAGE_SIZE = ?p (dirty_file_bg_bytes h)"
    using b by (intro pages_of_bytes, simp)+
  have q: "\<exists>r. hmdfs_thresh_ratio (?p m) (?p n) = Some r \<and> ratio_of r (?p m) (?p n)" if "0 < m" "m \<le> n" "?p n < 2 ^ 53" for m n
    unfolding ratio_of_def by (rule thresh_ratio_ok [OF pos [OF that(1)] mono [OF that(2)] that(3)])
  have f: "?p (dirty_file_bytes h) < 2 ^ 53" by (rule le_less_trans [OF mono lt]) (use b in simp)
  obtain r1 where r1: "hmdfs_thresh_ratio (?p (dirty_fs_bg_bytes h)) (?p (dirty_fs_bytes h)) = Some r1" "ratio_of r1 (?p (dirty_fs_bg_bytes h)) (?p (dirty_fs_bytes h))"
    using q [OF _ _ lt] b by (meson less_le_trans)
  obtain r2 where r2: "hmdfs_thresh_ratio (?p (dirty_file_bg_bytes h)) (?p (dirty_file_bytes h)) = Some r2" "ratio_of r2 (?p (dirty_file_bg_bytes h)) (?p (dirty_file_bytes h))"
    using q [OF _ _ f] b by blast
  obtain r3 where r3: "hmdfs_thresh_ratio (?p (dirty_file_bytes h)) (?p (dirty_fs_bytes h)) = Some r3" "ratio_of r3 (?p (dirty_file_bytes h)) (?p (dirty_fs_bytes h))"
    using q [OF _ _ lt] b by (meson less_le_trans)
  show ?thesis
    using b pos [of "dirty_file_bg_bytes h"] mono lt r1 r2 r3
    by (simp add: hmdfs_calculate_dirty_thresh_def eqs thresh_ok_def bytes_ok_def bw_ok_def Let_def)
qed

lemma init_limit_ok:
  assumes "thresh_ok h" "bw_ok hz h"
  shows "ctl_ok h (hmdfs_init_dirty_limit hz' j h)"
proof -
  note t = assms [unfolded thresh_ok_def bw_ok_def ratio_of_def]
  have a: "bw_fs_thresh h < dirty_fs_thresh h \<Longrightarrow> 0 < hmdfs_ratio_thresh (fs_bg_ratio h) (bw_fs_thresh h) \<and> hmdfs_ratio_thresh (fs_bg_ratio h) (bw_fs_thresh h) \<le> bw_fs_thresh h"
    using ratio_thresh_ok [of "fs_bg_ratio h" "bw_fs_thresh h"] t by simp
  have b: "bw_file_thresh h < dirty_file_thresh h \<Longrightarrow> 0 < hmdfs_ratio_thresh (file_bg_ratio h) (bw_file_thresh h) \<and> hmdfs_ratio_thresh (file_bg_ratio h) (bw_file_thresh h) \<le> bw_file_thresh h"
    using ratio_thresh_ok [of "file_bg_ratio h" "bw_file_thresh h"] t by simp
  show ?thesis using t a b by (auto simp: ctl_ok_def hmdfs_init_dirty_limit_def Let_def)
qed

lemma update_limit_ok:
  assumes "thresh_ok h" "bw_ok hz h" "0 < hz" "hz \<le> 2 ^ 14" "bw < 2 ^ 44"
    and u: "hmdfs_update_dirty_limit hz j bw (h, d) = (h', d')" "ctl_ok h d"
  shows "ctl_ok h' d'" "thresh_ok h'" "bw_ok hz h'" "bytes_ok h' = bytes_ok h" "ratelimit_pages h' = ratelimit_pages h"
proof -
  note t = assms(1,2) [unfolded thresh_ok_def bw_ok_def ratio_of_def]
  obtain bw1 where bw1: "bw1 = max bw (bw_thresh_lowerlimit h)" "256 \<le> bw1" "bw1 < 2 ^ 44"
    using t assms(5) by (auto simp: max_def)
  obtain n where n: "n = bw1 * writeback_timelimit h" by simp
  have "bw1 * writeback_timelimit h \<le> bw1 * (30 * hz)" using t by simp
  also have "\<dots> \<le> 2 ^ 44 * (30 * 2 ^ 14)" by (intro mult_le_mono) (use bw1 assms(4) in simp_all)
  finally have un: "ulong n = n" by (simp add: n)
  have "256 * hz \<le> n" unfolding n by (intro mult_le_mono) (use bw1 t in simp_all)
  moreover have "roundup_pow_of_two hz \<le> 256 * hz" "0 < roundup_pow_of_two hz" using roundup_bounds [OF assms(3)] by auto
  ultimately obtain th where th: "th = ulong n div roundup_pow_of_two hz" "0 < th" by (simp add: un div_greater_zero_iff)
  let ?ft = "hmdfs_ratio_thresh (fs_file_ratio h) th"
  have small: "th < dirty_fs_thresh h \<Longrightarrow> th < 2 ^ 53" using t by linarith
  have ft: "0 < ?ft \<and> ?ft \<le> th \<and> ?ft \<le> max (dirty_file_thresh h) (dirty_fs_thresh h div 1024)" if lt: "th < dirty_fs_thresh h"
  proof -
    have "fs_file_ratio h * th \<le> fs_file_ratio h * dirty_fs_thresh h" using lt by simp
    also have "\<dots> \<le> max (1024 * dirty_file_thresh h) (dirty_fs_thresh h)" using t by blast
    finally have "fs_file_ratio h * th div 1024 \<le> max (1024 * dirty_file_thresh h) (dirty_fs_thresh h) div 1024" by (rule div_le_mono)
    also have "\<dots> = max (dirty_file_thresh h) (dirty_fs_thresh h div 1024)"
      by (cases "1024 * dirty_file_thresh h \<le> dirty_fs_thresh h") (auto simp: max_def)
    finally show ?thesis using ratio_thresh_ok [OF _ _ th(2) small [OF lt], of "fs_file_ratio h"] t by (auto simp: le_max_iff_disj)
  qed
  have bg: "0 < hmdfs_ratio_thresh (fs_bg_ratio h) th \<and> hmdfs_ratio_thresh (fs_bg_ratio h) th \<le> th" if lt: "th < dirty_fs_thresh h"
    using ratio_thresh_ok [OF _ _ th(2) small [OF lt], of "fs_bg_ratio h"] t by simp
  have fbg: "0 < hmdfs_ratio_thresh (file_bg_ratio h) ?ft \<and> hmdfs_ratio_thresh (file_bg_ratio h) ?ft \<le> ?ft" if lt: "th < dirty_fs_thresh h"
    using ratio_thresh_ok [of "file_bg_ratio h" ?ft] ft [OF lt] small [OF lt] t by simp
  note upd = u(1) [unfolded hmdfs_update_dirty_limit_def prod.case Let_def, folded bw1(1), folded n, folded th(1)]
  consider "\<not> dirty_auto_threshold h" | "dirty_auto_threshold h" "dirty_fs_thresh h \<le> th" | "dirty_auto_threshold h" "th < dirty_fs_thresh h"
    by linarith
  then have "ctl_ok h' d' \<and> bw_ok hz h'"
  proof cases
    case 1
    then show ?thesis using upd u(2) assms(2) by simp
  next
    case 2
    then have "h' = h\<lparr>max_write_bandwidth := max_write_bandwidth h', min_write_bandwidth := min_write_bandwidth h', avg_write_bandwidth := bw,
        bw_fs_thresh := dirty_fs_thresh h, bw_file_thresh := dirty_file_thresh h\<rparr>"
      "hd_fs_thresh d' = dirty_fs_thresh h" "hd_file_thresh d' = dirty_file_thresh h" "hd_fs_bg_thresh d' = dirty_fs_bg_thresh h"
      "hd_file_bg_thresh d' = dirty_file_bg_thresh h" using upd by auto
    note eqs = this(2-) arg_cong [OF this(1), of dirty_fs_thresh] arg_cong [OF this(1), of dirty_file_thresh] arg_cong [OF this(1), of bw_fs_thresh]
      arg_cong [OF this(1), of bw_file_thresh] arg_cong [OF this(1), of bw_thresh_lowerlimit] arg_cong [OF this(1), of writeback_timelimit]
    show ?thesis unfolding ctl_ok_def bw_ok_def using eqs t by simp
  next
    case 3
    then have "h' = h\<lparr>max_write_bandwidth := max_write_bandwidth h', min_write_bandwidth := min_write_bandwidth h', avg_write_bandwidth := bw,
        bw_fs_thresh := th, bw_file_thresh := ?ft\<rparr>"
      "hd_fs_thresh d' = th" "hd_file_thresh d' = ?ft" "hd_fs_bg_thresh d' = hmdfs_ratio_thresh (fs_bg_ratio h) th"
      "hd_file_bg_thresh d' = hmdfs_ratio_thresh (file_bg_ratio h) ?ft" using upd by auto
    note eqs = this(2-) arg_cong [OF this(1), of dirty_fs_thresh] arg_cong [OF this(1), of dirty_file_thresh] arg_cong [OF this(1), of bw_fs_thresh]
      arg_cong [OF this(1), of bw_file_thresh] arg_cong [OF this(1), of bw_thresh_lowerlimit] arg_cong [OF this(1), of writeback_timelimit]
    show ?thesis unfolding ctl_ok_def bw_ok_def using eqs t ft [OF 3(2)] bg [OF 3(2)] fbg [OF 3(2)] 3(2) by simp
  qed
  then show "ctl_ok h' d'" "bw_ok hz h'" by simp_all
  show "thresh_ok h'" "bytes_ok h' = bytes_ok h" "ratelimit_pages h' = ratelimit_pages h"
    using upd assms(1) by (auto simp: thresh_ok_def bytes_ok_def split: if_splits)
qed

text \<open>What starts work leaves the limits alone.\<close>

definition same_limits :: "hmdfs_writeback \<Rightarrow> hmdfs_writeback \<Rightarrow> bool" where
  "same_limits h h' \<longleftrightarrow> bytes_ok h' = bytes_ok h \<and> thresh_ok h' = thresh_ok h \<and> (\<forall>hz. bw_ok hz h' = bw_ok hz h) \<and>
     ratelimit_pages h' = ratelimit_pages h \<and> dirty_fs_thresh h' = dirty_fs_thresh h \<and> dirty_file_thresh h' = dirty_file_thresh h"

lemma same_limits_work:
  "same_limits h (h\<lparr>dirty_exceeded := b\<rparr>)" "same_limits h (hmdfs_writeback_inode i h)"
  "same_limits h (hmdfs_writeback_inodes_sb_delayed m2j busy n h)" "same_limits h (hmdfs_writeback_inodes_sb m2j busy h)"
  "same_limits h (timed_writeback env h)" "same_limits h (writeback_inode_round h)"
  by (auto simp: same_limits_def bytes_ok_def thresh_ok_def bw_ok_def hmdfs_writeback_inode_def hmdfs_writeback_inodes_sb_def
      hmdfs_writeback_inodes_sb_delayed_def timed_writeback_def writeback_inode_round_def split: list.split)

lemma limits_same: "same_limits h h' \<Longrightarrow> limits_ok hz h \<Longrightarrow> limits_ok hz h'"
  by (auto simp: same_limits_def limits_ok_def)

lemma ctl_same: "same_limits h h' \<Longrightarrow> ctl_ok h d \<Longrightarrow> ctl_ok h' d"
  by (auto simp: same_limits_def ctl_ok_def)

section \<open>A round of the loop\<close>

definition state_ok :: "nat \<Rightarrow> balance_state \<Rightarrow> bool" where
  "state_ok hz s \<longleftrightarrow> limits_ok hz (b_wb s) \<and> ctl_ok (b_wb s) (b_ctl s)"

lemma state_ok_wb: "same_limits (b_wb s) h \<Longrightarrow> state_ok hz s \<Longrightarrow> state_ok hz (s\<lparr>b_wb := h\<rparr>)"
  using limits_same ctl_same by (auto simp: state_ok_def)

lemma state_ok_counts [simp]:
  "state_ok hz (s\<lparr>b_ctl := (b_ctl s)\<lparr>fs_nr_dirty := a, fs_nr_reclaimable := b\<rparr>\<rparr>) = state_ok hz s"
  "state_ok hz (s\<lparr>b_ctl := (b_ctl s)\<lparr>fs_nr_dirty := a, fs_nr_reclaimable := b, file_nr_dirty := c, file_nr_reclaimable := e\<rparr>\<rparr>) = state_ok hz s"
  "state_ok hz (s\<lparr>nr_dirtied := n\<rparr>) = state_ok hz s" "state_ok hz (s\<lparr>nr_dirtied_pause := n\<rparr>) = state_ok hz s"
  "state_ok hz (s\<lparr>b_exceeded := x\<rparr>) = state_ok hz s" "state_ok hz (s\<lparr>b_pauses := ps\<rparr>) = state_ok hz s"
  by (auto simp: state_ok_def ctl_ok_def)

lemma start_wb_ok: "state_ok hz s \<Longrightarrow> state_ok hz (balance_start_wb env ob s)"
  by (auto simp: balance_start_wb_def intro: state_ok_wb same_limits_work)

lemma adjust_ok:
  assumes "state_ok (be_hz env) s" "0 < be_hz env" "be_hz env \<le> 2 ^ 14" "ob_bw ob < 2 ^ 44"
  shows "state_ok (be_hz env) (balance_adjust env ob s)"
proof -
  obtain h d where hd: "hmdfs_update_dirty_limit (be_hz env) (ob_jiffies ob) (ob_bw ob) (b_wb s, b_ctl s) = (h, d)" by fastforce
  from assms(1) have "thresh_ok (b_wb s)" "bw_ok (be_hz env) (b_wb s)" "ctl_ok (b_wb s) (b_ctl s)" by (auto simp: state_ok_def limits_ok_def)
  note upd = update_limit_ok [OF this(1,2) assms(2-4) hd this(3)]
  then show ?thesis using assms(1) by (auto simp: balance_adjust_def hd state_ok_def limits_ok_def)
qed

lemma pause_ok:
  assumes "balance_pause env ob s = (fin, s')" "state_ok hz s"
  shows "state_ok hz s'"
proof -
  have "state_ok hz (s\<lparr>b_wb := (b_wb s)\<lparr>dirty_exceeded := True\<rparr>\<rparr>)" by (rule state_ok_wb [OF same_limits_work(1) assms(2)])
  then show ?thesis using assms by (auto simp: balance_pause_def Let_def state_ok_def split: if_splits)
qed

lemma round_ok:
  assumes "balance_round env ob s = (fin, s')" "state_ok (be_hz env) s"
    and "0 < be_hz env" "be_hz env \<le> 2 ^ 14" "ob_bw ob < 2 ^ 44"
  shows "state_ok (be_hz env) s'"
proof -
  let ?s2 = "s\<lparr>b_ctl := (b_ctl s)\<lparr>fs_nr_dirty := ob_reclaimable ob, fs_nr_reclaimable := ulong (ob_reclaimable ob + ob_writeback ob),
      file_nr_dirty := ob_idirty ob, file_nr_reclaimable := ulong (ob_iwriteback ob + ob_idirty ob)\<rparr>\<rparr>"
  have "state_ok (be_hz env) (balance_adjust env ob (balance_start_wb env ob ?s2))"
    by (intro adjust_ok start_wb_ok) (use assms in simp_all)
  then show ?thesis using assms(1,2) pause_ok
    by (auto simp: balance_round_def Let_def balance_free_run_def split: if_splits)
qed

lemma loop_ok:
  assumes "balance_loop env obs s = Some s'" "state_ok (be_hz env) s"
    and "0 < be_hz env" "be_hz env \<le> 2 ^ 14" "\<forall>ob \<in> set obs. ob_bw ob < 2 ^ 44"
  shows "state_ok (be_hz env) s'"
  using assms(1,2,5)
proof (induction obs arbitrary: s)
  case (Cons ob obs)
  obtain fin s1 where r: "balance_round env ob s = (fin, s1)" by fastforce
  have "state_ok (be_hz env) s1" using round_ok [OF r Cons.prems(2) assms(3,4)] Cons.prems(3) by simp
  then show ?case using Cons.IH [of s1] Cons.prems r by (auto split: if_splits)
qed simp

lemma end_ok:
  assumes "state_ok hz s" shows "state_ok hz (balance_end env ip s)"
proof -
  have "state_ok hz (s\<lparr>b_wb := (b_wb s)\<lparr>dirty_exceeded := False\<rparr>\<rparr>)" by (rule state_ok_wb [OF same_limits_work(1) assms])
  then obtain s1 where s1: "s1 = (if \<not> b_exceeded s \<and> dirty_exceeded (b_wb s) then s\<lparr>b_wb := (b_wb s)\<lparr>dirty_exceeded := False\<rparr>\<rparr> else s)"
    "state_ok hz s1" using assms by auto
  show ?thesis using s1(2) unfolding balance_end_def Let_def s1(1) [symmetric]
    by (auto intro: state_ok_wb [OF same_limits_work(2)] state_ok_wb [OF same_limits_work(4)])
qed

lemma balance_start_ok:
  assumes "limits_ok hz h"
  shows "state_ok hz \<lparr>b_wb = timed_writeback env h, b_ctl = hmdfs_init_dirty_limit hz' j (timed_writeback env h), b_exceeded = False,
                               nr_dirtied = n, nr_dirtied_pause = m, b_pauses = []\<rparr>"
proof -
  have "limits_ok hz (timed_writeback env h)" by (rule limits_same [OF same_limits_work(5) assms])
  then show ?thesis using init_limit_ok unfolding limits_ok_def state_ok_def by auto
qed

lemma balance_ok:
  assumes "hmdfs_balance_dirty_pages env j obs ip task h = Some s" "limits_ok (be_hz env) h"
    and "0 < be_hz env" "be_hz env \<le> 2 ^ 14" "\<forall>ob \<in> set obs. ob_bw ob < 2 ^ 44"
  shows "state_ok (be_hz env) s"
  using assms(1) loop_ok [OF _ balance_start_ok [OF assms(2)] assms(3-5)] end_ok
  unfolding hmdfs_balance_dirty_pages_def Let_def by auto

section \<open>Runs\<close>

definition fitting :: "int + nat \<Rightarrow> bool" where
  "fitting val \<longleftrightarrow> (case val of Inl e \<Rightarrow> True | Inr v \<Rightarrow> v < 2 ^ 64 - 4095)"

lemma apply_bytes_ok:
  assumes "bytes_ok h" "bw_ok hz h"
  shows "\<exists>r h'. apply_bytes env h = Some (r, h') \<and> limits_ok hz h'"
proof -
  obtain h1 where h1: "hmdfs_calculate_dirty_thresh h = Some h1" "thresh_ok h1" "bytes_ok h1" "bw_ok hz h1"
    using calculate_ok [OF assms(1), of hz] assms(2) by blast
  then show ?thesis
    by (auto simp: apply_bytes_def limits_ok_def hmdfs_update_ratelimit_def Let_def bytes_ok_def thresh_ok_def bw_ok_def HMDFS_MIN_RATELIMIT_PAGES_def)
qed

lemma stores_ok:
  assumes "limits_ok hz h" "fitting val"
  shows "\<exists>r h'. sbi_dirty_file_background_bytes_store env val h = Some (r, h') \<and> limits_ok hz h'"
    and "\<exists>r h'. sbi_dirty_fs_background_bytes_store env val h = Some (r, h') \<and> limits_ok hz h'"
    and "\<exists>r h'. sbi_dirty_file_bytes_store env val h = Some (r, h') \<and> limits_ok hz h'"
    and "\<exists>r h'. sbi_dirty_fs_bytes_store env val h = Some (r, h') \<and> limits_ok hz h'"
proof -
  have b: "bytes_ok h" "bw_ok hz h" using assms(1) by (auto simp: limits_ok_def)
  note defs = sbi_dirty_file_background_bytes_store_def sbi_dirty_fs_background_bytes_store_def sbi_dirty_file_bytes_store_def sbi_dirty_fs_bytes_store_def
  show "\<exists>r h'. sbi_dirty_file_background_bytes_store env val h = Some (r, h') \<and> limits_ok hz h'"
    using assms b unfolding defs fitting_def by (cases val) (auto intro!: apply_bytes_ok simp: bytes_ok_def bw_ok_def)
  show "\<exists>r h'. sbi_dirty_fs_background_bytes_store env val h = Some (r, h') \<and> limits_ok hz h'"
    using assms b unfolding defs fitting_def by (cases val) (auto intro!: apply_bytes_ok simp: bytes_ok_def bw_ok_def)
  show "\<exists>r h'. sbi_dirty_file_bytes_store env val h = Some (r, h') \<and> limits_ok hz h'"
    using assms b unfolding defs fitting_def by (cases val) (auto intro!: apply_bytes_ok simp: bytes_ok_def bw_ok_def)
  show "\<exists>r h'. sbi_dirty_fs_bytes_store env val h = Some (r, h') \<and> limits_ok hz h'"
    using assms b unfolding defs fitting_def by (cases val) (auto intro!: apply_bytes_ok simp: bytes_ok_def bw_ok_def)
qed

lemma init_ok: "0 < hz \<Longrightarrow> \<exists>h. hmdfs_init_writeback hz = Some h \<and> limits_ok hz h"
  by (simp add: hmdfs_init_writeback_def hmdfs_calculate_dirty_thresh_def DIV_ROUND_UP_def hmdfs_thresh_ratio_def Let_def ulong_def
      limits_ok_def bytes_ok_def thresh_ok_def bw_ok_def ratio_of_def HMDFS_BW_THRESH_MIN_LIMIT_def)

text \<open>
  Every sequence of attributes that are set, writers that are let through, and
  rounds of the work; the bandwidth is below \<open>2 ^ 44\<close> pages a second.
\<close>

inductive wb_run :: "nat \<Rightarrow> hmdfs_writeback \<Rightarrow> bool" for hz :: nat where
  wb_init: "hmdfs_init_writeback hz = Some h \<Longrightarrow> wb_run hz h"
| wb_file_bg: "\<lbrakk>wb_run hz h; fitting val; sbi_dirty_file_background_bytes_store env val h = Some (r, h')\<rbrakk> \<Longrightarrow> wb_run hz h'"
| wb_fs_bg: "\<lbrakk>wb_run hz h; fitting val; sbi_dirty_fs_background_bytes_store env val h = Some (r, h')\<rbrakk> \<Longrightarrow> wb_run hz h'"
| wb_file: "\<lbrakk>wb_run hz h; fitting val; sbi_dirty_file_bytes_store env val h = Some (r, h')\<rbrakk> \<Longrightarrow> wb_run hz h'"
| wb_fs: "\<lbrakk>wb_run hz h; fitting val; sbi_dirty_fs_bytes_store env val h = Some (r, h')\<rbrakk> \<Longrightarrow> wb_run hz h'"
| wb_time: "\<lbrakk>wb_run hz h; st_hz env = hz; sbi_dirty_writeback_timelimit_store env val h = (r, h')\<rbrakk> \<Longrightarrow> wb_run hz h'"
| wb_lower: "\<lbrakk>wb_run hz h; sbi_dirty_thresh_lowerlimit_store env val h = (r, h')\<rbrakk> \<Longrightarrow> wb_run hz h'"
| wb_auto: "\<lbrakk>wb_run hz h; sbi_dirty_writeback_autothresh_store env b h = (r, h')\<rbrakk> \<Longrightarrow> wb_run hz h'"
| wb_control: "\<lbrakk>wb_run hz h; sbi_dirty_writeback_control_store env val h = (r, h')\<rbrakk> \<Longrightarrow> wb_run hz h'"
| wb_centisecs: "\<lbrakk>wb_run hz h; sbi_dirty_writeback_centisecs_store env val h = (r, h')\<rbrakk> \<Longrightarrow> wb_run hz h'"
| wb_writer: "\<lbrakk>wb_run hz h; be_hz benv = hz; \<forall>ob \<in> set obs. ob_bw ob < 2 ^ 44;
     hmdfs_balance_dirty_pages_ratelimited benv j obs ip task bdp h = Some (task', bdp', h')\<rbrakk> \<Longrightarrow> wb_run hz h'"
| wb_round: "wb_run hz h \<Longrightarrow> wb_run hz (writeback_inode_round h)"

lemma small_stores_ok:
  "\<lbrakk>limits_ok hz h; st_hz env = hz; 0 < hz; sbi_dirty_writeback_timelimit_store env val h = (r, h')\<rbrakk> \<Longrightarrow> limits_ok hz h'"
  "\<lbrakk>limits_ok hz h; sbi_dirty_thresh_lowerlimit_store env val h = (r, h')\<rbrakk> \<Longrightarrow> limits_ok hz h'"
  "\<lbrakk>limits_ok hz h; sbi_dirty_writeback_autothresh_store env b h = (r, h')\<rbrakk> \<Longrightarrow> limits_ok hz h'"
  "\<lbrakk>limits_ok hz h; sbi_dirty_writeback_control_store env val h = (r, h')\<rbrakk> \<Longrightarrow> limits_ok hz h'"
  "\<lbrakk>limits_ok hz h; sbi_dirty_writeback_centisecs_store env val h = (r, h')\<rbrakk> \<Longrightarrow> limits_ok hz h'"
  by (auto simp: sbi_dirty_writeback_timelimit_store_def sbi_dirty_thresh_lowerlimit_store_def sbi_dirty_writeback_autothresh_store_def
      sbi_dirty_writeback_control_store_def sbi_dirty_writeback_centisecs_store_def limits_ok_def bytes_ok_def thresh_ok_def bw_ok_def Let_def
      HMDFS_BW_THRESH_MIN_LIMIT_def HMDFS_BW_THRESH_MAX_LIMIT_def split: sum.splits if_splits)

lemma ratelimited_ok:
  assumes "hmdfs_balance_dirty_pages_ratelimited env j obs ip task bdp h = Some (task', bdp', h')" "limits_ok (be_hz env) h"
    and "0 < be_hz env" "be_hz env \<le> 2 ^ 14" "\<forall>ob \<in> set obs. ob_bw ob < 2 ^ 44"
  shows "limits_ok (be_hz env) h'"
proof -
  have t: "limits_ok (be_hz env) (timed_writeback env h)" by (rule limits_same [OF same_limits_work(5) assms(2)])
  have "limits_ok (be_hz env) (b_wb s)" if "hmdfs_balance_dirty_pages env j obs ip task (timed_writeback env h) = Some s" for s
    using balance_ok [OF that t assms(3-5)] by (simp add: state_ok_def)
  then show ?thesis using t assms(1,2) unfolding hmdfs_balance_dirty_pages_ratelimited_def Let_def
    by (auto split: if_splits prod.splits)
qed

lemma wb_run_ok:
  assumes "wb_run hz h" "0 < hz" "hz \<le> 2 ^ 14"
  shows "limits_ok hz h"
  using assms(1)
proof (induction rule: wb_run.induct)
  case (wb_init h)
  then show ?case using init_ok [OF assms(2)] by auto
next
  case (wb_writer h benv obs j ip task bdp task' bdp' h')
  then show ?case using ratelimited_ok assms(2,3) by blast
next
  case (wb_round h)
  then show ?case using limits_same [OF same_limits_work(6)] by blast
next
  case (wb_file_bg h val env r h')
  then show ?case using stores_ok(1) [of hz h val env] by auto
next
  case (wb_fs_bg h val env r h')
  then show ?case using stores_ok(2) [of hz h val env] by auto
next
  case (wb_file h val env r h')
  then show ?case using stores_ok(3) [of hz h val env] by auto
next
  case (wb_fs h val env r h')
  then show ?case using stores_ok(4) [of hz h val env] by auto
next
  case (wb_time h env val r h')
  then show ?case using small_stores_ok(1) [OF wb_time.IH _ assms(2)] by blast
next
  case (wb_lower h env val r h')
  then show ?case using small_stores_ok(2) by blast
next
  case (wb_auto h env b r h')
  then show ?case using small_stores_ok(3) by blast
next
  case (wb_control h env val r h')
  then show ?case using small_stores_ok(4) by blast
next
  case (wb_centisecs h env val r h')
  then show ?case using small_stores_ok(5) by blast
qed

section \<open>Properties\<close>


text \<open>
  C40 (error). A value above \<open>2 ^ 64 - 4096\<close> written to \<open>dirty_fs_bytes\<close> wraps around
  in \<open>DIV_ROUND_UP\<close>: the threshold is 0 and the computation of the ratios divides by
  zero, in every state.
\<close>

theorem dirty_bytes_wrap:
  assumes "2 ^ 64 - 4095 \<le> v" "v < 2 ^ 64"
  shows "sbi_dirty_fs_bytes_store env (Inr v) h = None"
proof -
  have "(v + 4095) mod 2 ^ 64 = (v + 4095) - 2 ^ 64" using assms by (simp add: mod_if)
  then have "DIV_ROUND_UP v PAGE_SIZE = 0" using assms by (simp add: DIV_ROUND_UP_def ulong_def)
  then show ?thesis using assms(1)
    by (simp add: sbi_dirty_fs_bytes_store_def apply_bytes_def hmdfs_calculate_dirty_thresh_def hmdfs_thresh_ratio_def Let_def)
qed

section \<open>When a writer is let through\<close>

abbreviation (input) fs_pages :: "balance_obs \<Rightarrow> nat" where "fs_pages ob \<equiv> ob_reclaimable ob + ob_writeback ob"
abbreviation (input) file_pages :: "balance_obs \<Rightarrow> nat" where "file_pages ob \<equiv> ob_iwriteback ob + ob_idirty ob"

definition obs_fit :: "balance_obs \<Rightarrow> bool" where
  "obs_fit ob \<longleftrightarrow> fs_pages ob < 2 ^ 63 \<and> file_pages ob < 2 ^ 63 \<and> ob_bw ob < 2 ^ 44"

lemma wb_pause_bounds:
  assumes "wb_dirty < 2 ^ 63" "bw < 2 ^ 44"
  shows "0 < hmdfs_wb_pause hz bw wb_dirty \<and> hmdfs_wb_pause hz bw wb_dirty \<le> max (hz div 5) 1"
proof -
  obtain q where q: "q = wb_dirty div ulong (1 + bw div roundup_pow_of_two (1 + hz div 8))" by simp
  have "q \<le> wb_dirty" unfolding q by (rule div_le_dividend)
  then have "ulong (q + 1) = q + 1" using assms(1) by simp
  then show ?thesis unfolding hmdfs_wb_pause_def q [symmetric] HMDFS_MAX_PAUSE_def by simp
qed

definition below_limits :: "hmdfs_writeback \<Rightarrow> balance_obs \<Rightarrow> bool" where
  "below_limits h ob \<longleftrightarrow> fs_pages ob < dirty_fs_thresh h \<and>
     min (fs_pages ob) (file_pages ob) < max (dirty_file_thresh h) (dirty_fs_thresh h div 1024)"

lemma ceiling_le:
  assumes "ctl_ok h d" "thresh_ok h"
  shows "hmdfs_dirty_freerun_ceiling d HMDFS_DIRTY_FS \<le> hd_fs_thresh d" "hmdfs_dirty_freerun_ceiling d HMDFS_DIRTY_FILE \<le> hd_file_thresh d"
proof -
  have "hd_fs_thresh d < 2 ^ 53" using assms unfolding ctl_ok_def thresh_ok_def by linarith
  moreover have "(b + a) div 2 \<le> b" if "a \<le> b" for a b :: nat using that by presburger
  ultimately show "hmdfs_dirty_freerun_ceiling d HMDFS_DIRTY_FS \<le> hd_fs_thresh d" "hmdfs_dirty_freerun_ceiling d HMDFS_DIRTY_FILE \<le> hd_file_thresh d"
    using assms(1) unfolding ctl_ok_def hmdfs_dirty_freerun_ceiling_def by simp_all
qed

lemma adjust_keeps:
  "dirty_fs_thresh (b_wb (balance_adjust env ob s)) = dirty_fs_thresh (b_wb s)"
  "dirty_file_thresh (b_wb (balance_adjust env ob s)) = dirty_file_thresh (b_wb s)"
  "fs_nr_reclaimable (b_ctl (balance_adjust env ob s)) = fs_nr_reclaimable (b_ctl s)"
  "file_nr_reclaimable (b_ctl (balance_adjust env ob s)) = file_nr_reclaimable (b_ctl s)"
  "b_pauses (balance_adjust env ob s) = b_pauses s"
  by (auto simp: balance_adjust_def hmdfs_update_dirty_limit_def Let_def)

lemma start_wb_keeps:
  "dirty_fs_thresh (b_wb (balance_start_wb env ob s)) = dirty_fs_thresh (b_wb s)"
  "dirty_file_thresh (b_wb (balance_start_wb env ob s)) = dirty_file_thresh (b_wb s)"
  "b_ctl (balance_start_wb env ob s) = b_ctl s" "b_pauses (balance_start_wb env ob s) = b_pauses s"
  by (auto simp: balance_start_wb_def hmdfs_writeback_inode_def hmdfs_writeback_inodes_sb_def hmdfs_writeback_inodes_sb_delayed_def)

lemma pause_result:
  assumes "balance_pause env ob s = (fin, s')" "state_ok hz s"
    and "fs_nr_reclaimable (b_ctl s) = fs_pages ob" "file_nr_reclaimable (b_ctl s) = file_pages ob" "obs_fit ob"
  shows "dirty_fs_thresh (b_wb s') = dirty_fs_thresh (b_wb s) \<and> dirty_file_thresh (b_wb s') = dirty_file_thresh (b_wb s) \<and>
    (fin \<longrightarrow> ob_fatal ob \<or> below_limits (b_wb s) ob) \<and> (ob_fatal ob \<longrightarrow> fin) \<and>
    (b_pauses s' = b_pauses s \<and> fin \<or> (\<exists>p. b_pauses s' = b_pauses s @ [p] \<and> 0 < p \<and> p \<le> max (be_hz env div 5) 1))"
proof -
  have p: "0 < hmdfs_wb_pause (be_hz env) (ob_bw ob) (fs_pages ob) \<and> hmdfs_wb_pause (be_hz env) (ob_bw ob) (fs_pages ob) \<le> max (be_hz env div 5) 1"
    by (rule wb_pause_bounds) (use assms(5) in \<open>simp_all add: obs_fit_def\<close>)
  have c: "hd_fs_thresh (b_ctl s) \<le> dirty_fs_thresh (b_wb s)"
    "hd_file_thresh (b_ctl s) \<le> max (dirty_file_thresh (b_wb s)) (dirty_fs_thresh (b_wb s) div 1024)"
    using assms(2) by (auto simp: state_ok_def ctl_ok_def)
  show ?thesis
  proof (cases "fs_pages ob \<ge> hd_fs_thresh (b_ctl s) \<or> file_pages ob \<ge> hd_file_thresh (b_ctl s)")
    case True
    then show ?thesis using assms(1) p by (auto simp: balance_pause_def Let_def assms(3,4))
  next
    case False
    then have "s' = s\<lparr>nr_dirtied := 0\<rparr>" "fin" using assms(1) by (auto simp: balance_pause_def Let_def assms(3,4))
    moreover have "below_limits (b_wb s) ob" unfolding below_limits_def using False c by linarith
    ultimately show ?thesis by simp
  qed
qed

lemma round_result:
  assumes r: "balance_round env ob s = (fin, s')" and ok: "state_ok (be_hz env) s"
    and "0 < be_hz env" "be_hz env \<le> 2 ^ 14" and fit: "obs_fit ob"
  shows "dirty_fs_thresh (b_wb s') = dirty_fs_thresh (b_wb s) \<and> dirty_file_thresh (b_wb s') = dirty_file_thresh (b_wb s) \<and>
    (fin \<longrightarrow> ob_fatal ob \<or> below_limits (b_wb s) ob) \<and> (ob_fatal ob \<or> fs_pages ob = 0 \<longrightarrow> fin) \<and>
    (b_pauses s' = b_pauses s \<and> fin \<or> (\<exists>p. b_pauses s' = b_pauses s @ [p] \<and> 0 < p \<and> p \<le> max (be_hz env div 5) 1))"
proof -
  let ?d = "(b_ctl s)\<lparr>fs_nr_dirty := ob_reclaimable ob, fs_nr_reclaimable := ulong (ob_reclaimable ob + ob_writeback ob)\<rparr>"
  let ?d2 = "?d\<lparr>file_nr_dirty := ob_idirty ob, file_nr_reclaimable := ulong (ob_iwriteback ob + ob_idirty ob)\<rparr>"
  let ?s3 = "balance_adjust env ob (balance_start_wb env ob (s\<lparr>b_ctl := ?d2\<rparr>))"
  have u: "ulong (ob_reclaimable ob + ob_writeback ob) = fs_pages ob" "ulong (ob_iwriteback ob + ob_idirty ob) = file_pages ob"
    using fit by (simp_all add: obs_fit_def)
  have ok2: "state_ok (be_hz env) (s\<lparr>b_ctl := ?d2\<rparr>)" using ok by simp
  then have c: "ctl_ok (b_wb s) ?d2" "thresh_ok (b_wb s)" by (auto simp: state_ok_def limits_ok_def)
  note lim = c(1) [unfolded ctl_ok_def] ceiling_le [OF c]
  consider (free) "fs_pages ob < hd_file_bg_thresh (b_ctl s)"
    | (ceiling) "\<not> fs_pages ob < hd_file_bg_thresh (b_ctl s)"
        "fs_pages ob < hmdfs_dirty_freerun_ceiling ?d2 HMDFS_DIRTY_FS \<and> file_pages ob < hmdfs_dirty_freerun_ceiling ?d2 HMDFS_DIRTY_FILE"
    | (wait) "\<not> fs_pages ob < hd_file_bg_thresh (b_ctl s)"
        "\<not> (fs_pages ob < hmdfs_dirty_freerun_ceiling ?d2 HMDFS_DIRTY_FS \<and> file_pages ob < hmdfs_dirty_freerun_ceiling ?d2 HMDFS_DIRTY_FILE)"
    by blast
  then show ?thesis
  proof cases
    case free
    moreover from this lim have "below_limits (b_wb s) ob" by (auto simp: below_limits_def)
    ultimately show ?thesis using r by (auto simp: balance_round_def Let_def u balance_free_run_def)
  next
    case ceiling
    moreover from this lim have "below_limits (b_wb s) ob" by (auto simp: below_limits_def)
    ultimately show ?thesis using r by (auto simp: balance_round_def Let_def u balance_free_run_def)
  next
    case wait
    then have p: "balance_pause env ob ?s3 = (fin, s')" using r by (auto simp: balance_round_def Let_def u)
    have "state_ok (be_hz env) ?s3" by (intro adjust_ok start_wb_ok ok2) (use assms(3,4) fit in \<open>simp_all add: obs_fit_def\<close>)
    from pause_result [OF p this _ _ fit] have q: "dirty_fs_thresh (b_wb s') = dirty_fs_thresh (b_wb ?s3) \<and> dirty_file_thresh (b_wb s') = dirty_file_thresh (b_wb ?s3) \<and>
      (fin \<longrightarrow> ob_fatal ob \<or> below_limits (b_wb ?s3) ob) \<and> (ob_fatal ob \<longrightarrow> fin) \<and>
      (b_pauses s' = b_pauses ?s3 \<and> fin \<or> (\<exists>p. b_pauses s' = b_pauses ?s3 @ [p] \<and> 0 < p \<and> p \<le> max (be_hz env div 5) 1))"
      by (simp add: adjust_keeps start_wb_keeps u)
    have "fs_pages ob \<noteq> 0" using wait(1) lim by auto
    then show ?thesis using q by (auto simp: adjust_keeps start_wb_keeps below_limits_def)
  qed
qed

lemma loop_result:
  assumes "state_ok (be_hz env) s" "0 < be_hz env" "be_hz env \<le> 2 ^ 14" "\<forall>ob \<in> set obs. obs_fit ob"
    and "\<forall>p \<in> set (b_pauses s). 0 < p \<and> p \<le> max (be_hz env div 5) 1" "balance_loop env obs s = Some s'"
  shows "\<exists>n < length obs. (ob_fatal (obs ! n) \<or> below_limits (b_wb s) (obs ! n)) \<and>
    length (b_pauses s) + n \<le> length (b_pauses s') \<and> length (b_pauses s') \<le> length (b_pauses s) + n + 1 \<and>
    (\<forall>p \<in> set (b_pauses s'). 0 < p \<and> p \<le> max (be_hz env div 5) 1)"
  using assms(1,4-6)
proof (induction obs arbitrary: s)
  case (Cons ob obs)
  obtain fin s1 where r: "balance_round env ob s = (fin, s1)" by fastforce
  have fit: "obs_fit ob" using Cons.prems(2) by simp
  note q = round_result [OF r Cons.prems(1) assms(2,3) fit]
  show ?case
  proof (cases fin)
    case True
    then have "s' = s1" using Cons.prems(4) r by simp
    then show ?thesis using q Cons.prems(3) True by (intro exI [of _ 0]) auto
  next
    case False
    have ok: "state_ok (be_hz env) s1" using round_ok [OF r Cons.prems(1) assms(2,3)] fit by (simp add: obs_fit_def)
    obtain p where p: "b_pauses s1 = b_pauses s @ [p]" "0 < p" "p \<le> max (be_hz env div 5) 1" using q False by blast
    have "balance_loop env obs s1 = Some s'" using Cons.prems(4) r False by simp
    from Cons.IH [OF ok _ _ this] Cons.prems(2,3) p obtain n where "n < length obs"
      "ob_fatal (obs ! n) \<or> below_limits (b_wb s1) (obs ! n)" "length (b_pauses s1) + n \<le> length (b_pauses s')"
      "length (b_pauses s') \<le> length (b_pauses s1) + n + 1" "\<forall>p \<in> set (b_pauses s'). 0 < p \<and> p \<le> max (be_hz env div 5) 1" by auto
    then show ?thesis using q p(1) by (intro exI [of _ "Suc n"]) (auto simp: below_limits_def)
  qed
qed simp

lemma loop_returns:
  assumes "state_ok (be_hz env) s" "0 < be_hz env" "be_hz env \<le> 2 ^ 14" "\<forall>ob \<in> set obs. obs_fit ob"
    and "ob \<in> set obs" "ob_fatal ob \<or> fs_pages ob = 0"
  shows "\<exists>s'. balance_loop env obs s = Some s'"
  using assms(1,4,5)
proof (induction obs arbitrary: s)
  case (Cons o1 obs)
  obtain fin s1 where r: "balance_round env o1 s = (fin, s1)" by fastforce
  have fit: "obs_fit o1" using Cons.prems(2) by simp
  have ok: "state_ok (be_hz env) s1" using round_ok [OF r Cons.prems(1) assms(2,3)] fit by (simp add: obs_fit_def)
  have "fin" if "o1 = ob" using round_result [OF r Cons.prems(1) assms(2,3) fit] assms(6) that by auto
  then show ?case using Cons.IH [OF ok] Cons.prems r by (cases fin) auto
qed simp

lemma end_pauses: "b_pauses (balance_end env ip s) = b_pauses s"
  by (simp add: balance_end_def Let_def)

lemma below_limits_timed: "below_limits (timed_writeback env h) ob = below_limits h ob"
  using same_limits_work(5) [of h env] by (simp add: below_limits_def same_limits_def)

text \<open>
  C17 (functional). A writer that is held back continues only after a fatal signal or
  after a round that has seen fewer pages of the file system, dirty or under
  writeback, than the configured limit, and fewer pages of the file than its limit
  (or than a 1024th of the limit of the file system, where that is more): the limits
  adjusted to the bandwidth never let more through than the configured ones. It has
  slept once in every round before, each time at least one jiffy and at most a fifth
  of a second.
\<close>

theorem writer_held_back:
  assumes "wb_run hz h" "0 < hz" "hz \<le> 2 ^ 14" "be_hz env = hz" "\<forall>ob \<in> set obs. obs_fit ob"
    and "hmdfs_balance_dirty_pages env jiffies obs in_progress task h = Some s"
  shows "\<exists>n < length obs. (ob_fatal (obs ! n) \<or>
      fs_pages (obs ! n) < dirty_fs_thresh h \<and>
      min (fs_pages (obs ! n)) (file_pages (obs ! n)) < max (dirty_file_thresh h) (dirty_fs_thresh h div 1024)) \<and>
    n \<le> length (b_pauses s) \<and> length (b_pauses s) \<le> n + 1 \<and> (\<forall>p \<in> set (b_pauses s). 0 < p \<and> p \<le> max (hz div 5) 1)"
proof -
  have "limits_ok (be_hz env) h" using wb_run_ok [OF assms(1-3)] assms(4) by simp
  note ok = balance_start_ok [OF this, of env "be_hz env" jiffies "fst task" "snd task"]
  from assms(6) obtain s1 where s1: "balance_loop env obs \<lparr>b_wb = timed_writeback env h, b_ctl = hmdfs_init_dirty_limit (be_hz env) jiffies (timed_writeback env h), b_exceeded = False,
                               nr_dirtied = fst task, nr_dirtied_pause = snd task, b_pauses = []\<rparr> = Some s1" "s = balance_end env in_progress s1"
    by (auto simp: hmdfs_balance_dirty_pages_def Let_def)
  from loop_result [OF ok _ _ assms(5) _ s1(1)] assms(2-4) show ?thesis
    by (simp add: s1(2) end_pauses below_limits_timed) (simp add: below_limits_def)
qed

text \<open>
  C18 (liveness). A writer that is held back continues at the latest in the first round
  in which the file system has no page dirty or under writeback any more, or in which
  the writer has a fatal signal.
\<close>

theorem writer_continues:
  assumes "wb_run hz h" "0 < hz" "hz \<le> 2 ^ 14" "be_hz env = hz" "\<forall>ob \<in> set obs. obs_fit ob"
    and "ob \<in> set obs" "ob_fatal ob \<or> fs_pages ob = 0"
  shows "\<exists>s. hmdfs_balance_dirty_pages env jiffies obs in_progress task h = Some s"
proof -
  have "limits_ok (be_hz env) h" using wb_run_ok [OF assms(1-3)] assms(4) by simp
  from loop_returns [OF balance_start_ok [OF this] _ _ assms(5-7)] assms(2-4) show ?thesis
    by (auto simp: hmdfs_balance_dirty_pages_def Let_def)
qed

section \<open>The list of inodes to write\<close>

definition list_ok :: "hmdfs_writeback \<Rightarrow> bool" where
  "list_ok h \<longleftrightarrow> distinct (inode_list h) \<and> (\<forall>i. wb_holds h i = (if i \<in> set (inode_list h) then 1 else 0)) \<and>
     (inode_list h \<noteq> [] \<longrightarrow> inode_work h)"

definition same_list :: "hmdfs_writeback \<Rightarrow> hmdfs_writeback \<Rightarrow> bool" where
  "same_list h h' \<longleftrightarrow> inode_list h' = inode_list h \<and> wb_holds h' = wb_holds h \<and> inode_work h' = inode_work h"

lemma list_same: "same_list h h' \<Longrightarrow> list_ok h \<Longrightarrow> list_ok h'" by (simp add: list_ok_def same_list_def)

lemma list_inode: "list_ok h \<Longrightarrow> list_ok (hmdfs_writeback_inode i h)" by (auto simp: list_ok_def hmdfs_writeback_inode_def)

lemma list_round: "list_ok h \<Longrightarrow> list_ok (writeback_inode_round h)"
  by (cases "inode_list h") (auto simp: list_ok_def writeback_inode_round_def)

lemma same_list_work:
  "same_list h (h\<lparr>dirty_exceeded := b\<rparr>)" "same_list h (hmdfs_writeback_inodes_sb_delayed m2j busy n h)"
  "same_list h (hmdfs_writeback_inodes_sb m2j busy h)" "same_list h (timed_writeback env h)"
  by (auto simp: same_list_def hmdfs_writeback_inodes_sb_def hmdfs_writeback_inodes_sb_delayed_def timed_writeback_def)

lemma list_update: "hmdfs_update_dirty_limit hz j bw (h, d) = (h', d') \<Longrightarrow> same_list h h'"
  by (auto simp: hmdfs_update_dirty_limit_def Let_def same_list_def split: if_splits)

lemma list_adjust: "list_ok (b_wb s) \<Longrightarrow> list_ok (b_wb (balance_adjust env ob s))"
  by (auto simp: balance_adjust_def split: prod.split dest!: list_update intro: list_same)

lemma list_start: "list_ok (b_wb s) \<Longrightarrow> list_ok (b_wb (balance_start_wb env ob s))"
  using list_inode list_same [OF same_list_work(3)] by (auto simp: balance_start_wb_def)

lemma list_pause: "balance_pause env ob s = (fin, s') \<Longrightarrow> list_ok (b_wb s) \<Longrightarrow> list_ok (b_wb s')"
  using list_same [OF same_list_work(1)] by (auto simp: balance_pause_def Let_def split: if_splits)

lemma list_balance_round: "balance_round env ob s = (fin, s') \<Longrightarrow> list_ok (b_wb s) \<Longrightarrow> list_ok (b_wb s')"
  using list_pause [OF _ list_adjust [OF list_start]] by (auto simp: balance_round_def Let_def balance_free_run_def split: if_splits)

lemma list_loop: "balance_loop env obs s = Some s' \<Longrightarrow> list_ok (b_wb s) \<Longrightarrow> list_ok (b_wb s')"
proof (induction obs arbitrary: s)
  case (Cons ob obs)
  obtain fin s1 where r: "balance_round env ob s = (fin, s1)" by fastforce
  then show ?case using list_balance_round [OF r] Cons by (auto split: if_splits)
qed simp

lemma list_end:
  assumes "list_ok (b_wb s)" shows "list_ok (b_wb (balance_end env ip s))"
proof -
  obtain s1 where s1: "s1 = (if \<not> b_exceeded s \<and> dirty_exceeded (b_wb s) then s\<lparr>b_wb := (b_wb s)\<lparr>dirty_exceeded := False\<rparr>\<rparr> else s)"
    "list_ok (b_wb s1)" using assms list_same [OF same_list_work(1)] by auto
  show ?thesis using s1(2) list_inode list_same [OF same_list_work(3)] unfolding balance_end_def Let_def s1(1) [symmetric] by auto
qed

lemma list_ratelimited:
  assumes "hmdfs_balance_dirty_pages_ratelimited env j obs ip task bdp h = Some (task', bdp', h')" "list_ok h"
  shows "list_ok h'"
proof -
  note t = list_same [OF same_list_work(4)]
  have "list_ok (b_wb s)" if "hmdfs_balance_dirty_pages env j obs ip task (timed_writeback env h) = Some s" for s
    using that list_end list_loop t [OF t [OF assms(2)], of env env] unfolding hmdfs_balance_dirty_pages_def Let_def by fastforce
  then show ?thesis using assms t [OF assms(2)] unfolding hmdfs_balance_dirty_pages_ratelimited_def Let_def
    by (auto split: if_splits prod.splits)
qed

lemma list_apply: "apply_bytes env h = Some (r, h') \<Longrightarrow> same_list h h'"
  by (auto simp: apply_bytes_def hmdfs_calculate_dirty_thresh_def hmdfs_update_ratelimit_def Let_def same_list_def bind_eq_Some_conv)

lemma list_stores:
  "sbi_dirty_file_background_bytes_store env val h = Some (r, h') \<Longrightarrow> same_list h h'"
  "sbi_dirty_fs_background_bytes_store env val h = Some (r, h') \<Longrightarrow> same_list h h'"
  "sbi_dirty_file_bytes_store env val h = Some (r, h') \<Longrightarrow> same_list h h'"
  "sbi_dirty_fs_bytes_store env val h = Some (r, h') \<Longrightarrow> same_list h h'"
  "sbi_dirty_writeback_timelimit_store env val h = (r', h') \<Longrightarrow> same_list h h'"
  "sbi_dirty_thresh_lowerlimit_store env val h = (r', h') \<Longrightarrow> same_list h h'"
  "sbi_dirty_writeback_autothresh_store env b h = (r', h') \<Longrightarrow> same_list h h'"
  "sbi_dirty_writeback_control_store env val h = (r', h') \<Longrightarrow> same_list h h'"
  "sbi_dirty_writeback_centisecs_store env val h = (r', h') \<Longrightarrow> same_list h h'"
  by (auto simp: sbi_dirty_file_background_bytes_store_def sbi_dirty_fs_background_bytes_store_def sbi_dirty_file_bytes_store_def
      sbi_dirty_fs_bytes_store_def sbi_dirty_writeback_timelimit_store_def sbi_dirty_thresh_lowerlimit_store_def
      sbi_dirty_writeback_autothresh_store_def sbi_dirty_writeback_control_store_def sbi_dirty_writeback_centisecs_store_def
      same_list_def Let_def dest!: list_apply split: sum.splits if_splits)

text \<open>
  Over every run an inode is at most once on the list of inodes to
  write, the list holds exactly one reference to each inode on it and none to others,
  so that no inode is evicted before it is written and none leaks, and the work that
  empties the list is pending or runs while it is not empty.
\<close>

theorem writeback_list_balanced:
  assumes "wb_run hz h"
  shows "distinct (inode_list h) \<and> (\<forall>i. wb_holds h i = (if i \<in> set (inode_list h) then 1 else 0)) \<and>
    (inode_list h = [] \<or> inode_work h)"
proof -
  from assms have "list_ok h"
  proof (induction rule: wb_run.induct)
    case (wb_init h)
    then show ?case by (auto simp: hmdfs_init_writeback_def hmdfs_calculate_dirty_thresh_def list_ok_def Let_def bind_eq_Some_conv)
  qed (blast intro: list_same list_stores list_ratelimited list_round)+
  then show ?thesis by (auto simp: list_ok_def)
qed

section \<open>Witnesses\<close>

definition sample_wb :: hmdfs_writeback where "sample_wb = the (hmdfs_init_writeback 250)"

definition sample_store :: store_env where "sample_store = \<lparr>st_hz = 250, st_jiffies = 5000, st_cpus = 4, st_len = 8\<rparr>"

definition sample_balance :: balance_env where "sample_balance = \<lparr>be_hz = 250, be_m2j = (\<lambda>n. n div 4), be_busy = False, be_inode = 7\<rparr>"

text \<open>First 30000 pages of the file system wait for their write, then none.\<close>

definition sample_obs :: "balance_obs list" where
  "sample_obs =
     [\<lparr>ob_reclaimable = 20000, ob_writeback = 10000, ob_idirty = 100, ob_iwriteback = 100, ob_in_progress = False, ob_jiffies = 5001, ob_bw = 2560, ob_fatal = False\<rparr>,
      \<lparr>ob_reclaimable = 0, ob_writeback = 0, ob_idirty = 0, ob_iwriteback = 0, ob_in_progress = False, ob_jiffies = 5052, ob_bw = 2560, ob_fatal = False\<rparr>]"

lemma sample_run: "wb_run 250 sample_wb"
  using init_ok [of 250] by (auto simp: sample_wb_def intro: wb_init)

lemma sample_fit: "\<forall>ob \<in> set sample_obs. obs_fit ob"
  by (simp add: sample_obs_def obs_fit_def)

lemma sample_wb_fields:
  "dirty_fs_thresh sample_wb = 25600" "dirty_file_thresh sample_wb = 5120" "dirty_fs_bg_thresh sample_wb = 12800" "dirty_file_bg_thresh sample_wb = 2560"
  "fs_bg_ratio sample_wb = 512" "file_bg_ratio sample_wb = 512" "fs_file_ratio sample_wb = 204" "dirty_auto_threshold sample_wb"
  "bw_fs_thresh sample_wb = 25600" "bw_file_thresh sample_wb = 5120" "bw_thresh_lowerlimit sample_wb = 256" "writeback_timelimit sample_wb = 1250"
  "dirty_writeback_interval sample_wb = 500"
  by (simp_all add: sample_wb_def hmdfs_init_writeback_def hmdfs_calculate_dirty_thresh_def DIV_ROUND_UP_def hmdfs_thresh_ratio_def Let_def ulong_def
      HMDFS_BW_THRESH_MIN_LIMIT_def)

lemma sample_pauses: "map_option b_pauses (hmdfs_balance_dirty_pages sample_balance 5000 sample_obs True (40, 32) sample_wb) = Some [50]"
  by (simp add: hmdfs_balance_dirty_pages_def timed_writeback_def sample_balance_def sample_obs_def sample_wb_fields hmdfs_writeback_inodes_sb_delayed_def
      hmdfs_init_dirty_limit_def HMDFS_BANDWIDTH_INTERVAL_def balance_round_def balance_start_wb_def balance_adjust_def balance_pause_def balance_free_run_def
      hmdfs_dirty_freerun_ceiling_def hmdfs_writeback_inodes_sb_def hmdfs_update_dirty_limit_def hmdfs_ratio_thresh_def hmdfs_wb_pause_def
      HMDFS_MAX_PAUSE_def roundup_pow_of_two_def ilog2.simps time_after_def ulong_def Let_def end_pauses)


theorem dirty_bytes_wrap_witness: "sbi_dirty_fs_bytes_store sample_store (Inr 18446744073709551615) sample_wb = None"
  by (rule dirty_bytes_wrap) simp_all

theorem writer_held_back_witness:
  "fs_pages (sample_obs ! 1) < dirty_fs_thresh sample_wb \<and> map_option b_pauses (hmdfs_balance_dirty_pages sample_balance 5000 sample_obs True (40, 32) sample_wb) = Some [50]"
proof -
  obtain s where s: "hmdfs_balance_dirty_pages sample_balance 5000 sample_obs True (40, 32) sample_wb = Some s" "b_pauses s = [50]"
    using sample_pauses by auto
  have len: "length sample_obs = 2" by (simp add: sample_obs_def)
  obtain n where "n < 2" "ob_fatal (sample_obs ! n) \<or> fs_pages (sample_obs ! n) < dirty_fs_thresh sample_wb"
    using writer_held_back [OF sample_run _ _ _ sample_fit s(1)] len by (fastforce simp: sample_balance_def)
  then have "fs_pages (sample_obs ! 1) < dirty_fs_thresh sample_wb"
    by (cases n) (auto simp: sample_obs_def sample_wb_fields less_Suc_eq numeral_2_eq_2)
  then show ?thesis using s by simp
qed

theorem writer_continues_witness:
  "\<exists>s. hmdfs_balance_dirty_pages sample_balance 5000 sample_obs True (40, 32) sample_wb = Some s"
  by (rule writer_continues [OF sample_run _ _ _ sample_fit, where ob = "sample_obs ! 1"])
     (simp_all add: sample_balance_def sample_obs_def)

theorem writeback_list_balanced_witness: "wb_holds sample_wb 7 = (if 7 \<in> set (inode_list sample_wb) then 1 else 0)"
  using writeback_list_balanced [OF sample_run] by blast

end
