(* ===== verification/Server_Writeback.thy ===== *)
theory Server_Writeback
  imports Hmdfs_Prelude
begin

text \<open>
  The writeback of the server (\<open>src/hmdfs/server_writeback.c\<close>): after a page of a
  client is stored, the pages of the last seconds are counted and the lower file
  system is asked to write when they come too fast. \<open>None\<close> is a division by zero;
  the clock, the race of \<open>cmpxchg\<close> and the state of the lower file system are arguments.
\<close>

record hmdfs_server_writeback =
  swb_control :: bool
  dirty_nr_pages :: "32 word"
  dirty_nr_pages_to_wb :: "32 word"
  dirty_thresh_pg :: u32
  last_reset_time :: u64
  swb_queued :: bool

abbreviation (input) HMDFS_MB_TO_PAGE_SHIFT :: nat where "HMDFS_MB_TO_PAGE_SHIFT \<equiv> 8"

definition hmdfs_init_server_writeback :: "bool \<Rightarrow> bool \<Rightarrow> u64 \<Rightarrow> int + hmdfs_server_writeback" where
  "hmdfs_init_server_writeback alloc wq jiffies =
     (if \<not> alloc \<or> \<not> wq then Inl (- ENOMEM)
      else Inr \<lparr>swb_control = True, dirty_nr_pages = 0, dirty_nr_pages_to_wb = 0,
                dirty_thresh_pg = push_bit HMDFS_MB_TO_PAGE_SHIFT 50, last_reset_time = jiffies, swb_queued = False\<rparr>)"

text \<open>The number of pages is an \<open>int\<close> that C converts to \<open>unsigned long\<close> for the division; \<open>won\<close> is the success of \<open>cmpxchg\<close>.\<close>

definition hmdfs_server_check_writeback :: "u64 \<Rightarrow> u64 \<Rightarrow> bool \<Rightarrow> hmdfs_server_writeback \<Rightarrow> hmdfs_server_writeback option" where
  "hmdfs_server_check_writeback hz now won s =
     (let old_time = last_reset_time s;
          nr = dirty_nr_pages s + 1;
          s1 = s\<lparr>dirty_nr_pages := nr\<rparr> in
      if time_after now (old_time + hz) \<and> won then
        let seconds = (now - old_time) div hz in
        if seconds = 0 then None
        else let writepage_speed = (ucast ((scast nr :: u64) div seconds) :: u32);
                 s2 = s1\<lparr>last_reset_time := now\<rparr>;
                 s3 = (if writepage_speed \<ge> dirty_thresh_pg s2 then s2\<lparr>dirty_nr_pages_to_wb := nr, swb_queued := True\<rparr> else s2)
             in Some (s3\<lparr>dirty_nr_pages := 0\<rparr>)
      else Some s1)"

text \<open>The work: the number of pages the lower file system is asked to write, if any.\<close>

definition hmdfs_srv_wb_handler :: "bool \<Rightarrow> bool \<Rightarrow> hmdfs_server_writeback \<Rightarrow> 32 word option \<times> hmdfs_server_writeback" where
  "hmdfs_srv_wb_handler in_progress trylock s =
     (let s1 = s\<lparr>swb_queued := False\<rparr> in
      if in_progress \<or> \<not> trylock then (None, s1) else (Some (dirty_nr_pages_to_wb s1), s1))"

text \<open>The end of \<open>hmdfs_server_writepage\<close>; \<open>err\<close> is the error of the write.\<close>

definition writepage_check :: "u64 \<Rightarrow> u64 \<Rightarrow> bool \<Rightarrow> int \<Rightarrow> hmdfs_server_writeback \<Rightarrow> hmdfs_server_writeback option" where
  "writepage_check hz now won err s = (if err = 0 \<and> swb_control s then hmdfs_server_check_writeback hz now won s else Some s)"

text \<open>\<open>Inl\<close> is the error of \<open>kstrtoint\<close>; \<open>len\<close> is the result of an accepted value.\<close>

definition sbi_srv_dirty_thresh_store :: "nat \<Rightarrow> int + int \<Rightarrow> hmdfs_server_writeback \<Rightarrow> int \<times> hmdfs_server_writeback" where
  "sbi_srv_dirty_thresh_store len val s =
     (case val of
        Inl err \<Rightarrow> (err, s)
      | Inr mb \<Rightarrow>
          if mb \<le> 0 then (- EINVAL, s)
          else let pages = push_bit HMDFS_MB_TO_PAGE_SHIFT (of_int mb :: u64) in
               if pages > 2 ^ 31 - 1 then (- EINVAL, s)
               else (int len, s\<lparr>dirty_thresh_pg := ucast pages\<rparr>))"

definition sbi_srv_dirty_wb_conctrol_store :: "nat \<Rightarrow> int + bool \<Rightarrow> hmdfs_server_writeback \<Rightarrow> int \<times> hmdfs_server_writeback" where
  "sbi_srv_dirty_wb_conctrol_store len val s =
     (case val of Inl err \<Rightarrow> (err, s) | Inr b \<Rightarrow> (int len, s\<lparr>swb_control := b\<rparr>))"

section \<open>Speed\<close>

lemma unat_of_nat_small: "n < 2 ^ 62 \<Longrightarrow> unat (of_nat n :: u64) = n"
  by (simp add: unat_of_nat)

lemma unat_div_u64: "n < 2 ^ 62 \<Longrightarrow> m < 2 ^ 62 \<Longrightarrow> unat ((of_nat n :: u64) div of_nat m) = n div m"
  by (simp add: unat_div unat_of_nat_small)

text \<open>
  After each stored page, whenever it comes and also when the 64-bit
  clock wraps around: the check divides by no zero; within a second of the last
  reset it only counts the page; later it asks the lower file system to write exactly
  when the pages counted, divided by the whole seconds that have passed, reach the
  threshold, with the number of these pages, and counts from 0 again.
\<close>

theorem srv_writeback_speed:
  assumes "s = \<lparr>swb_control = c, dirty_nr_pages = of_nat n, dirty_nr_pages_to_wb = w, dirty_thresh_pg = of_nat th, last_reset_time = t, swb_queued = q\<rparr>"
    and "n + 1 < 2 ^ 31" "th < 2 ^ 31" "0 < hz" "hz < 2 ^ 62" "d < 2 ^ 62"
  shows "hmdfs_server_check_writeback (of_nat hz) (t + of_nat d) True s =
    Some (if hz < d then s\<lparr>dirty_nr_pages := 0, last_reset_time := t + of_nat d,
                           dirty_nr_pages_to_wb := (if th \<le> (n + 1) div (d div hz) then of_nat (n + 1) else w),
                           swb_queued := (q \<or> th \<le> (n + 1) div (d div hz))\<rparr>
          else s\<lparr>dirty_nr_pages := of_nat (n + 1)\<rparr>)"
proof -
  obtain secs where secs: "secs = (of_nat d :: u64) div of_nat hz" "unat secs = d div hz"
    using unat_div_u64 [OF assms(6,5)] by blast
  have after: "time_after (t + of_nat d) (t + of_nat hz) \<longleftrightarrow> hz < d" by (rule time_after_iff [OF assms(6,5)])
  have nr: "of_nat n + 1 = (of_nat (n + 1) :: 32 word)" by simp
  show ?thesis
  proof (cases "hz < d")
    case False
    then show ?thesis by (simp add: hmdfs_server_check_writeback_def Let_def assms(1) after)
  next
    case True
    then have pos: "0 < d div hz" using assms(4) by (simp add: div_greater_zero_iff)
    then have "secs \<noteq> 0" using secs(2) by auto
    have "(scast (of_int (int (n + 1)) :: 32 word) :: u64) = of_int (int (n + 1))"
      unfolding signed_of_int by (subst signed_take_bit_int_eq_self) (use assms(2) in simp_all)
    then have "(scast (of_nat (n + 1) :: 32 word) :: u64) = of_nat (n + 1)" by (simp only: of_int_of_nat_eq)
    then have "unat (scast (of_nat (n + 1) :: 32 word) :: u64) = n + 1" using assms(2) by (simp add: unat_of_nat_small del: of_nat_Suc of_nat_add)
    then have "unat ((scast (of_nat (n + 1) :: 32 word) :: u64) div secs) = (n + 1) div (d div hz)" by (simp add: unat_div secs(2) del: of_nat_Suc of_nat_add)
    then have sp: "unat (ucast ((scast (of_nat (n + 1) :: 32 word) :: u64) div secs) :: u32) = (n + 1) div (d div hz)"
      using le_less_trans [OF div_le_dividend assms(2), of "d div hz"]
      by (simp add: unsigned_ucast_eq take_bit_nat_eq_self_iff del: of_nat_Suc of_nat_add)
    have "(ucast ((scast (of_nat (n + 1) :: 32 word) :: u64) div secs) :: u32) \<ge> of_nat th \<longleftrightarrow> th \<le> (n + 1) div (d div hz)"
      unfolding word_le_nat_alt sp using assms(3) by (simp add: unat_of_nat)
    then show ?thesis using True \<open>secs \<noteq> 0\<close>
      by (simp add: hmdfs_server_check_writeback_def Let_def assms(1) after secs(1) [symmetric] nr del: of_nat_Suc of_nat_add)
  qed
qed

theorem srv_writeback_speed_witness:
  "map_option swb_queued (hmdfs_server_check_writeback (of_nat 250) (18446744073709551500 + of_nat 600) True
     \<lparr>swb_control = True, dirty_nr_pages = of_nat 29999, dirty_nr_pages_to_wb = 0, dirty_thresh_pg = of_nat 12800,
      last_reset_time = 18446744073709551500, swb_queued = False\<rparr>) = Some True"
  by (subst srv_writeback_speed [OF refl]) simp_all

text \<open>An accepted threshold is the number of pages of that many megabytes, without a loss of bits.\<close>

lemma srv_thresh_exact:
  assumes "sbi_srv_dirty_thresh_store len (Inr mb) s = (r, s')" "mb < 2 ^ 31"
  shows "if 0 < mb \<and> mb * 256 < 2 ^ 31 then uint (dirty_thresh_pg s') = mb * 256 \<and> r = int len else s' = s \<and> r = - EINVAL"
proof (cases "0 < mb")
  case True
  have p: "push_bit 8 (of_int mb :: u64) = of_int (mb * 256)" by (simp add: push_bit_eq_mult)
  have u: "uint (of_int (mb * 256) :: u64) = mb * 256" unfolding uint_word_of_int using True assms(2) by (simp add: take_bit_int_eq_self)
  have "(of_int (mb * 256) :: u64) > 2 ^ 31 - 1 \<longleftrightarrow> \<not> mb * 256 < 2 ^ 31" unfolding word_less_def u by simp presburger
  moreover have "uint (ucast (of_int (mb * 256) :: u64) :: u32) = mb * 256" if "mb * 256 < 2 ^ 31"
    unfolding unsigned_ucast_eq u using that True by (simp add: take_bit_int_eq_self)
  ultimately show ?thesis using assms(1) True unfolding sbi_srv_dirty_thresh_store_def sum.case Let_def p
    by (auto split: if_splits)
qed (use assms(1) in \<open>simp add: sbi_srv_dirty_thresh_store_def\<close>)

end
