(* ===== verification/Spec2Isabelle.thy ===== *)
theory Spec2Isabelle
  imports Dentry_Dir Node_Cb Transport Msg_Life File_Transfer File_Rpc Stash_End Page_Write Remote_Open Dirty_Balance Server_Writeback
begin

text \<open>
  A verification development for hmdfs, the distributed file system of
  \<open>src/hmdfs\<close>: a stacked file system that shows the files of the devices of a
  group as one tree. Each device runs a client side, which asks its peers, and a
  server side, which answers for the files it has; they speak a binary protocol
  over TCP connections that user space hands to the kernel. The directory of a
  remote device is cached in a \<^emph>\<open>dentry file\<close>, a hash table on disk.

  \<^bold>\<open>Theories and sources.\<close>

  \<^item> \<open>Hmdfs_Prelude\<close>: bounds-checked little-endian reads of byte buffers
    (\<open>None\<close> is a read outside the buffer), packed structures as \<open>layout\<close>s, error
    numbers, generic lemmas on lists, words and bit operations.
  \<^item> \<open>Protocol\<close> (\<open>comm/protocol.h\<close>): commands, the head of a message with its
    encoding, the structures of the bodies.
  \<^item> \<open>Message_Verify\<close> (\<open>comm/message_verify.c\<close>): the table of lengths, the
    verifiers of all requests and responses and \<open>hmdfs_message_verify\<close>.
  \<^item> \<open>Dentry_Hash\<close>, \<open>Dentry_Bucket\<close>, \<open>Dentry_Group\<close>, \<open>Dentry_Entries\<close>,
    \<open>Dentry_File\<close>, \<open>Dentry_Store\<close>, \<open>Dentry_Dir\<close> (\<open>hmdfs_dentryfile.c\<close>,
    \<open>hmdfs_dentryfile.h\<close>, \<open>inode_remote.c\<close>): the hash of a name, the geometry of
    levels and buckets, the slots and the bitmap of a group, and lookup, creation,
    deletion, rename and refreshing of entries on a file of groups with its locks
    and the failures of the file system below. The interface of the directory is
    the locale \<open>name_store\<close>, which the dentry file interprets.
  \<^item> \<open>Node_Event\<close> (\<open>comm/connection.c\<close>): the queue of online and offline events of
    a peer, with merging, and the delayed work that runs the callbacks.
  \<^item> \<open>Handshake\<close> (\<open>comm/connection.c\<close>, \<open>comm/crypto.c\<close>): the three messages of
    the handshake, the extension fields, the derivation and installation of the
    keys of the TLS session.
  \<^item> \<open>Transport\<close> (\<open>comm/transport.c\<close>, \<open>comm/connection.c\<close>): reading heads and
    bodies from a socket that cuts the stream anywhere and fails, the receiving
    thread, sending, encryption of handshake messages, rekeying.
  \<^item> \<open>Msg_Table\<close>, \<open>Msg_Life\<close> (\<open>comm/socket_adapter.c\<close>, \<open>hmdfs_client.c\<close>): the
    table of pending requests, dispatch of what arrives, works, going offline;
    \<open>Msg_Life\<close> has the ownership invariant of the received buffers.
  \<^item> \<open>File_Transfer\<close> (\<open>comm/socket_adapter.c\<close>): a file sent in slices and stored
    by works that run in any order.
  \<^item> \<open>Client_Req\<close>, \<open>Client_Proto\<close> (\<open>hmdfs_client.c\<close>): the bodies of the requests of
    the client, what it makes of the answers, and that the peer accepts and
    dispatches every request.
  \<^item> \<open>Server_Path\<close>, \<open>Server_Ops\<close>, \<open>Server_Rpc\<close> (\<open>hmdfs_server.c\<close>): the check of
    paths, the handlers of the requests on names and attributes, and remote
    operations as a whole, from the call of the client to its result.
  \<^item> \<open>Share_Table\<close>, \<open>Share_Spec\<close> (\<open>hmdfs_share.c\<close>, \<open>file_local.c\<close>): the table of
    shared files with its timers, and the queue of shares it implements.
  \<^item> \<open>Ref_Table\<close>: references counted by the tables that hold them, the locale
    \<open>ref_table\<close>, used by \<open>Msg_Life\<close> and \<open>Open_Files\<close>.
  \<^item> \<open>Server_Files\<close>, \<open>Open_Files\<close>, \<open>File_Rpc\<close> (\<open>hmdfs_server.c\<close>): the table of
    file numbers of a connection, opening, reading, writing and closing files of the
    server, its references, and opening followed by reading.
  \<^item> \<open>Stash_File\<close>, \<open>Stash_Copy\<close>, \<open>Stash_Round\<close> (\<open>stash.c\<close>): the stash file of an inode
    whose peer is offline, written page by page with a head and a checksum, and its
    copy into the remote file.
  \<^item> \<open>Stash_Peer\<close>, \<open>Stash_Inv\<close>, \<open>Stash_Restore\<close>, \<open>Stash_End\<close> (\<open>stash.c\<close>): the inodes
    of a peer over its events: prepared and stashed when it goes offline, rebuilt and
    restored when it is back, released when it is deleted; the balance of the
    references, the round trip of the data, and that restoring always ends.
  \<^item> \<open>Page_Write\<close> (\<open>file_remote.c\<close>, \<open>hmdfs_client.c\<close>): the writeback of one page of a
    remote file with its answers, repetitions and the stash, as a step relation.
  \<^item> \<open>Remote_Open\<close> (\<open>file_remote.c\<close>): opening, opening again and closing a remote
    file, the numbers of the peer it holds, and when cached pages are used again.
  \<^item> \<open>Dirty_Limits\<close>, \<open>Dirty_Balance\<close> (\<open>client_writeback.c\<close>, \<open>comm/device_node.c\<close>): the
    limits of dirty pages, their attributes, and the loop that holds back writers.
  \<^item> \<open>Server_Writeback\<close> (\<open>server_writeback.c\<close>): when the server asks its file system to
    write the pages of clients.
  \<^item> \<open>Node_Cb\<close> (\<open>comm/node_cb.c\<close>): the callbacks of the events and their order.

  \<^bold>\<open>Conventions.\<close> Machine integers are words of their width where the code
  computes with them. The outcome of kernel calls (allocations, reads, writes,
  locks, sends, random numbers, the order of works) is an argument: a record of
  the environment or a script of results. A kernel fault (a read outside a
  buffer, a second \<open>kfree\<close>, a wait that only another thread can end) is \<open>None\<close>.
  Cryptography is a parameter: \<open>hkdf\<close> any function, encryption and decryption
  functions of which only the round trip is assumed.

  \<^bold>\<open>Bounds and fuel.\<close> The loops over a socket recurse over the finite script of
  what the socket returns, one result per call of \<open>kernel_recvmsg\<close>; an exhausted
  script is a closed connection. The levels of a dentry file are bounded by
  \<open>MAX_BUCKET_LEVEL\<close> as in the source, which gives the measure of \<open>create_level\<close>.
  The loop of \<open>hmdfs_client_offline_notify\<close> runs over numbers below a bound that
  no entry of the table reaches. The copy of a stash file is a
  \<open>partial_function\<close>, since \<open>lseek\<close> could lead it in circles; it is proved to return
  for every file system that seeks forward. The rounds over the directory of stash
  files are measured by the entries left. The rounds in which a writer is held back
  recurse over what they observe, and \<open>None\<close> is a writer that still waits. All other
  recursions are structural.

  \<^bold>\<open>Not modelled.\<close> Listed as components of the manifest with their reasons:
  the VFS glue of the inode, file, dentry and super operations, the merge and
  cloud views, the reading of directories, the remaining sysfs attributes, the
  authority configuration, the statistics and traces, the lower file system, kTLS
  itself, and the fuzzer around hmdfs. What they leave to model is calls into kernel
  objects whose behaviour is not part of these sources.
\<close>

end
